(* ===== verification/Prelude.thy ===== *)
theory Prelude
  imports Main "HOL-Library.AList" "HOL-Library.Char_ord" "HOL-Library.List_Lexorder"
begin

text \<open>
  What every component shares: the JavaScript values the server reads from a request, the string
  operations it uses (\<open>trim\<close>, \<open>split\<close>, \<open>toLowerCase\<close>, \<open>startsWith\<close>, \<open>join\<close>), tables as lists of
  rows with the statements the SQL of the source is made of (select, insert under a key, guarded
  update, delete), and the lemma collections the component proofs use.

  A string is a \<^typ>\<open>string\<close>, a list of code units between 0 and 255. A table is the list of its
  rows in insertion order, so that \<open>rows[0]\<close> of a query is the first match.
\<close>

named_theorems row_simps \<open>equations of the table operations\<close>
named_theorems str_simps \<open>equations of the string operations\<close>

section \<open>JavaScript values\<close>

text \<open>
  A parsed JSON or form value, of TypeScript type \<open>unknown\<close>. \<open>JNonInt\<close> is any number that is not
  an integer (a fraction, NaN, an infinity): the source only ever tests for it.
\<close>

datatype jsval =
    JUndefined
  | JNull
  | JBool bool
  | JInt int
  | JNonInt
  | JStr string
  | JArr "jsval list"
  | JObj "(string \<times> jsval) list"

text \<open>What a condition takes for true.\<close>

fun js_truthy :: "jsval \<Rightarrow> bool" where
  "js_truthy JUndefined \<longleftrightarrow> False"
| "js_truthy JNull \<longleftrightarrow> False"
| "js_truthy (JBool b) \<longleftrightarrow> b"
| "js_truthy (JInt i) \<longleftrightarrow> i \<noteq> 0"
| "js_truthy (JStr s) \<longleftrightarrow> s \<noteq> []"
| "js_truthy _ \<longleftrightarrow> True"

text \<open>Optional chaining \<open>v?.f\<close>: undefined for anything that is not an object with that field.\<close>

fun jfield :: "jsval \<Rightarrow> string \<Rightarrow> jsval" where
  "jfield (JObj fs) f = (case map_of fs f of None \<Rightarrow> JUndefined | Some v \<Rightarrow> v)"
| "jfield _ _ = JUndefined"

fun as_str :: "jsval \<Rightarrow> string option" where
  "as_str (JStr s) = Some s"
| "as_str _ = None"

lemma as_str_Some [simp]: "as_str v = Some s \<longleftrightarrow> v = JStr s"
  by (cases v) auto

lemma as_str_None: "as_str v = None \<longleftrightarrow> (\<forall>s. v \<noteq> JStr s)"
  by (cases v) auto

text \<open>An optional string counts as a condition when it is there and not empty.\<close>

fun truthy :: "string option \<Rightarrow> string option" where
  "truthy None = None"
| "truthy (Some k) = (if k = [] then None else Some k)"

section \<open>Strings\<close>

text \<open>
  The white space \<open>trim\<close> and the class \<open>\s\<close> know below 256: tab, line feed, vertical tab, form feed,
  carriage return, space and no-break space.
\<close>

definition is_ws :: "char \<Rightarrow> bool" where
  "is_ws c \<longleftrightarrow> (let n = (of_char c :: nat) in (9 \<le> n \<and> n \<le> 13) \<or> n = 32 \<or> n = 160)"

definition trim :: "string \<Rightarrow> string" where
  "trim s = rev (dropWhile is_ws (rev (dropWhile is_ws s)))"

text \<open>\<open>replace(/\s+/g, ' ')\<close>: every maximal run of white space becomes one space.\<close>

function collapse_runs :: "string \<Rightarrow> string" where
  "collapse_runs [] = []"
| "collapse_runs (c # cs) =
     (if is_ws c then CHR 0x20 # collapse_runs (dropWhile is_ws cs) else c # collapse_runs cs)"
  by pat_completeness auto
termination
  by (relation "measure length") (auto simp: le_imp_less_Suc length_dropWhile_le)

text \<open>
  \<open>toLowerCase\<close> below 256: A to Z, and the accented capitals 192 to 222 but for the
  multiplication sign 215, move up by 32; everything else stays.
\<close>

definition lower_char :: "char \<Rightarrow> char" where
  "lower_char c = (let n = (of_char c :: nat) in
     if (65 \<le> n \<and> n \<le> 90) \<or> (192 \<le> n \<and> n \<le> 222 \<and> n \<noteq> 215) then char_of (n + 32) else c)"

definition to_lower :: "string \<Rightarrow> string" where
  "to_lower s = map lower_char s"

definition is_ascii :: "string \<Rightarrow> bool" where
  "is_ascii s \<longleftrightarrow> (\<forall>c \<in> set s. (of_char c :: nat) < 128)"

definition starts_with :: "string \<Rightarrow> string \<Rightarrow> bool" where
  "starts_with p s \<longleftrightarrow> take (length p) s = p"

text \<open>
  \<open>split\<close> at single characters satisfying P (\<open>split(' ')\<close>, or \<open>split(/\s+/)\<close> once the empty pieces
  between adjacent separators are filtered away), and \<open>join\<close>.
\<close>

fun split_on :: "(char \<Rightarrow> bool) \<Rightarrow> string \<Rightarrow> string list" where
  "split_on P [] = [[]]"
| "split_on P (c # cs) =
     (if P c then [] # split_on P cs
      else (case split_on P cs of [] \<Rightarrow> [[c]] | w # ws \<Rightarrow> (c # w) # ws))"

definition words_on :: "(char \<Rightarrow> bool) \<Rightarrow> string \<Rightarrow> string list" where
  "words_on P s = filter (\<lambda>w. w \<noteq> []) (split_on P s)"

definition is_space :: "char \<Rightarrow> bool" where
  "is_space c \<longleftrightarrow> c = CHR 0x20"

fun join_with :: "string \<Rightarrow> string list \<Rightarrow> string" where
  "join_with sep [] = []"
| "join_with sep [w] = w"
| "join_with sep (w # ws) = w @ sep @ join_with sep ws"

definition is_alnum :: "char \<Rightarrow> bool" where
  "is_alnum c \<longleftrightarrow> (let n = (of_char c :: nat) in
     (48 \<le> n \<and> n \<le> 57) \<or> (65 \<le> n \<and> n \<le> 90) \<or> (97 \<le> n \<and> n \<le> 122))"

text \<open>A number in a template literal.\<close>

definition dec_digit :: "nat \<Rightarrow> char" where
  "dec_digit n = char_of (48 + n)"

fun dec :: "nat \<Rightarrow> string" where
  "dec n = (if n < 10 then [dec_digit n] else dec (n div 10) @ [dec_digit (n mod 10)])"

declare dec.simps [simp del]

definition int_str :: "int \<Rightarrow> string" where
  "int_str i = (if i < 0 then CHR ''-'' # dec (nat (- i)) else dec (nat i))"

text \<open>The letters of an HTTP method in upper case (a method is ASCII).\<close>

definition upper_char :: "char \<Rightarrow> char" where
  "upper_char c = (let n = (of_char c :: nat) in if 97 \<le> n \<and> n \<le> 122 then char_of (n - 32) else c)"

definition to_upper :: "string \<Rightarrow> string" where
  "to_upper s = map upper_char s"

subsection \<open>Facts about strings\<close>

lemma dec_digit_eq: "m < 10 \<Longrightarrow> n < 10 \<Longrightarrow> dec_digit m = dec_digit n \<longleftrightarrow> m = n"
proof -
  assume "m < 10" "n < 10"
  then have "(of_char (dec_digit m) :: nat) = 48 + m" "(of_char (dec_digit n) :: nat) = 48 + n"
    by (simp_all add: dec_digit_def)
  then show ?thesis by (metis add_left_cancel)
qed

lemma dec_ne [simp]: "dec n \<noteq> []"
  by (subst dec.simps) simp

lemma dec_inj: "dec m = dec n \<Longrightarrow> m = n"
proof (induction m arbitrary: n rule: dec.induct)
  case (1 m)
  show ?case
  proof (cases "m < 10")
    case True
    with 1(2) show ?thesis
      by (subst (asm) (1 2) dec.simps) (auto simp: dec_digit_eq dec_ne [symmetric] split: if_splits)
  next
    case False
    with 1(2) have n: "\<not> n < 10" "dec (m div 10) = dec (n div 10)" "dec_digit (m mod 10) = dec_digit (n mod 10)"
      by (subst (asm) (1 2) dec.simps; auto split: if_splits)+
    then have "m div 10 = n div 10" "m mod 10 = n mod 10"
      using 1(1) [OF False n(2)] by (simp_all add: dec_digit_eq)
    then show ?thesis by (metis div_mult_mod_eq)
  qed
qed

lemma dec_digit_range: "c \<in> set (dec n) \<Longrightarrow> 48 \<le> (of_char c :: nat) \<and> (of_char c :: nat) \<le> 57"
proof (induction n rule: dec.induct)
  case (1 n)
  have d: "m < 10 \<Longrightarrow> (of_char (dec_digit m) :: nat) = 48 + m" for m
    by (simp add: dec_digit_def)
  from 1(2) show ?case
    by (subst (asm) dec.simps) (auto split: if_splits dest: 1(1) simp: d less_Suc_eq_le mod_less_eq_dividend)
qed

lemma dec_no_minus: "dec n \<noteq> CHR ''-'' # s"
  using dec_digit_range [of "CHR ''-''" n] by auto

lemma int_str_inj: "int_str i = int_str j \<Longrightarrow> i = j"
  using dec_no_minus [of "nat i"] dec_no_minus [of "nat j"]
  by (auto simp: int_str_def split: if_splits dest: dec_inj)
    (metis dec_no_minus)+

lemma dropWhile_ws_idem [simp]: "dropWhile is_ws (dropWhile is_ws s) = dropWhile is_ws s"
  by (rule dropWhile_idem)

lemma hd_dropWhile_ws: "dropWhile is_ws s = c # cs \<Longrightarrow> \<not> is_ws c"
  by (metis dropWhile_eq_Cons_conv)

lemma trim_Nil [simp]: "trim [] = []"
  by (simp add: trim_def)

lemma dropWhile_rev_dropWhile:
  assumes "dropWhile P s = s"
  shows "dropWhile P (rev (dropWhile P (rev s))) = rev (dropWhile P (rev s))"
proof (cases "rev (dropWhile P (rev s))")
  case Nil
  then show ?thesis by (simp only: dropWhile.simps)
next
  case (Cons c cs)
  have "\<exists>t. s = rev (dropWhile P (rev s)) @ t"
    by (metis rev_append rev_rev_ident takeWhile_dropWhile_id)
  then obtain t where "s = (c # cs) @ t" using Cons by metis
  with assms have "\<not> P c" by (metis append_Cons dropWhile_eq_Cons_conv)
  then show ?thesis using Cons by simp
qed

lemma trim_left: "dropWhile is_ws (trim s) = trim s"
  unfolding trim_def by (rule dropWhile_rev_dropWhile) simp

lemma trim_right: "dropWhile is_ws (rev (trim s)) = rev (trim s)"
  by (simp add: trim_def)

lemma trim_trim [simp]: "trim (trim s) = trim s"
  by (simp add: trim_def [of "trim s"] trim_left trim_right)

lemma length_dropWhile_ws: "length (dropWhile P s) \<le> length s"
  by (rule length_dropWhile_le)

lemma set_trim: "set (trim s) \<subseteq> set s"
  by (auto simp: trim_def dest!: set_dropWhileD)

lemma is_ascii_trim: "is_ascii s \<Longrightarrow> is_ascii (trim s)"
  using set_trim by (fastforce simp: is_ascii_def)

lemma is_space_ws: "is_space c \<Longrightarrow> is_ws c"
  by (auto simp: is_space_def is_ws_def)

lemma split_on_ne [simp]: "split_on P s \<noteq> []"
  by (induction s) (auto split: list.splits)

lemma words_on_Nil [simp]: "words_on P [] = []"
  by (simp add: words_on_def)

lemma split_on_chars: "w \<in> set (split_on P s) \<Longrightarrow> c \<in> set w \<Longrightarrow> \<not> P c \<and> c \<in> set s"
proof (induction s arbitrary: w)
  case (Cons a s)
  show ?case
  proof (cases "P a")
    case True
    with Cons show ?thesis by auto
  next
    case False
    obtain v vs where vs: "split_on P s = v # vs"
      by (cases "split_on P s") auto
    with Cons.prems False have "w = a # v \<or> w \<in> set vs" by simp
    with Cons.prems(2) consider "c = a" | "w = a # v" "c \<in> set v" | "w \<in> set vs" by auto
    then show ?thesis
      using Cons.IH [of v] Cons.IH [of w] Cons.prems(2) vs False by cases auto
  qed
qed simp

lemma words_on_chars: "w \<in> set (words_on P s) \<Longrightarrow> w \<noteq> [] \<and> (\<forall>c \<in> set w. \<not> P c)"
  by (auto simp: words_on_def dest: split_on_chars)

lemma split_on_word_append:
  "(\<forall>c \<in> set w. \<not> P c) \<Longrightarrow> P d \<Longrightarrow> split_on P (w @ d # s) = w # split_on P s"
  by (induction w) auto

lemma split_on_word: "(\<forall>c \<in> set w. \<not> P c) \<Longrightarrow> split_on P w = [w]"
  by (induction w) auto

lemma words_on_join:
  assumes "\<forall>w \<in> set ws. w \<noteq> [] \<and> (\<forall>c \<in> set w. \<not> P c)" "P d"
  shows "words_on P (join_with [d] ws) = ws"
  using assms
proof (induction "[d]" ws rule: join_with.induct)
  case (2 w)
  then show ?case by (simp add: words_on_def split_on_word)
next
  case (3 w v vs)
  then show ?case by (simp add: words_on_def split_on_word_append)
qed simp

lemma words_on_space_join:
  assumes "\<forall>w \<in> set ws. w \<noteq> [] \<and> (\<forall>c \<in> set w. \<not> is_space c)"
  shows "words_on is_space (join_with '' '' ws) = ws"
  using words_on_join [OF assms, of "CHR 0x20"] by (simp add: is_space_def [abs_def])

lemma starts_with_append [simp]: "starts_with p (p @ s)"
  by (simp add: starts_with_def)

lemma starts_withE: "starts_with p s \<Longrightarrow> s = p @ drop (length p) s"
  by (metis append_take_drop_id starts_with_def)

section \<open>Tables\<close>

text \<open>\<open>rows[0]\<close> of a select.\<close>

abbreviation (input) first_row :: "('r \<Rightarrow> bool) \<Rightarrow> 'r list \<Rightarrow> 'r option" where
  "first_row P rs \<equiv> find P rs"

text \<open>\<open>UPDATE t SET .. WHERE P\<close> and \<open>DELETE FROM t WHERE P\<close>.\<close>

definition update_where :: "('r \<Rightarrow> bool) \<Rightarrow> ('r \<Rightarrow> 'r) \<Rightarrow> 'r list \<Rightarrow> 'r list" where
  "update_where P f rs = map (\<lambda>r. if P r then f r else r) rs"

definition delete_where :: "('r \<Rightarrow> bool) \<Rightarrow> 'r list \<Rightarrow> 'r list" where
  "delete_where P rs = filter (\<lambda>r. \<not> P r) rs"

lemma set_update_where [row_simps]:
  "set (update_where P f rs) = {r \<in> set rs. \<not> P r} \<union> f ` {r \<in> set rs. P r}"
  by (auto simp: update_where_def)

lemma set_delete_where [row_simps]: "set (delete_where P rs) = {r \<in> set rs. \<not> P r}"
  by (auto simp: delete_where_def)

lemma length_update_where [simp]: "length (update_where P f rs) = length rs"
  by (simp add: update_where_def)

lemma map_update_where [row_simps]:
  "(\<And>r. P r \<Longrightarrow> k (f r) = k r) \<Longrightarrow> map k (update_where P f rs) = map k rs"
  by (simp add: update_where_def)

lemma image_update_where [row_simps]:
  "(\<And>r. P r \<Longrightarrow> k (f r) = k r) \<Longrightarrow> k ` set (update_where P f rs) = k ` set rs"
  by (metis (no_types) list.set_map map_update_where)

lemma in_update_where:
  "q \<in> set (update_where P f rs) \<longleftrightarrow> (\<exists>p \<in> set rs. q = (if P p then f p else p))"
  by (auto simp: update_where_def)

lemma ball_update_where:
  "(\<forall>q \<in> set (update_where P f rs). Q q) \<longleftrightarrow> (\<forall>r \<in> set rs. if P r then Q (f r) else Q r)"
  by (auto simp: set_update_where)

lemma bex_update_where:
  "(\<exists>q \<in> set (update_where P f rs). Q q) \<longleftrightarrow> (\<exists>r \<in> set rs. if P r then Q (f r) else Q r)"
  by (auto simp: set_update_where)

lemma update_where_none: "(\<And>r. r \<in> set rs \<Longrightarrow> \<not> P r) \<Longrightarrow> update_where P f rs = rs"
  by (induction rs) (auto simp: update_where_def)

lemma delete_where_none: "(\<And>r. r \<in> set rs \<Longrightarrow> \<not> P r) \<Longrightarrow> delete_where P rs = rs"
  by (simp add: delete_where_def)

lemma distinct_delete_where [intro]:
  "distinct (map k rs) \<Longrightarrow> distinct (map k (delete_where P rs))"
  by (simp add: delete_where_def distinct_map_filter)

lemma filter_update_where [row_simps]:
  "(\<And>r. r \<in> set rs \<Longrightarrow> P r \<Longrightarrow> Q (f r) = Q r) \<Longrightarrow>
   filter Q (update_where P f rs) = update_where P f (filter Q rs)"
  by (induction rs) (auto simp: update_where_def)

lemma find_SomeD: "find P rs = Some r \<Longrightarrow> r \<in> set rs \<and> P r"
  by (auto simp: find_Some_iff)

lemma find_NoneD: "find P rs = None \<Longrightarrow> r \<in> set rs \<Longrightarrow> \<not> P r"
  by (auto simp: find_None_iff)

lemma find_cong_set: "(\<And>r. r \<in> set rs \<Longrightarrow> P r = Q r) \<Longrightarrow> find P rs = find Q rs"
  by (induction rs) auto

lemma find_append [row_simps]:
  "find P (xs @ ys) = (case find P xs of None \<Rightarrow> find P ys | Some r \<Rightarrow> Some r)"
  by (induction xs) auto

text \<open>With a primary key, the select by key is the row with that key.\<close>

lemma distinct_key_eq:
  "distinct (map k rs) \<Longrightarrow> r \<in> set rs \<Longrightarrow> r' \<in> set rs \<Longrightarrow> k r = k r' \<Longrightarrow> r = r'"
  by (metis distinct_map inj_onD)

lemma find_key:
  assumes "distinct (map k rs)"
  shows "find (\<lambda>r. k r = x) rs = Some r \<longleftrightarrow> r \<in> set rs \<and> k r = x"
proof
  assume "r \<in> set rs \<and> k r = x"
  moreover then obtain r' where "find (\<lambda>r. k r = x) rs = Some r'"
    by (metis (mono_tags, lifting) find_None_iff option.exhaust)
  ultimately show "find (\<lambda>r. k r = x) rs = Some r"
    using assms distinct_key_eq [OF assms] find_SomeD by (metis (mono_tags, lifting))
qed (auto dest: find_SomeD)

lemma find_key_guard:
  assumes "distinct (map k rs)" "r \<in> set rs" "P r" "\<And>q. P q \<Longrightarrow> k q = x"
  shows "find P rs = Some r"
proof -
  obtain r' where r': "find P rs = Some r'"
    using assms(2,3) by (metis find_None_iff option.exhaust)
  with find_SomeD [OF r'] assms have "r' = r"
    by (metis distinct_key_eq)
  with r' show ?thesis by simp
qed

text \<open>
  \<open>INSERT\<close> under a primary key: a duplicate is SQLSTATE 23505, a missing referenced row 23503.
\<close>

definition insert_pk :: "('r \<Rightarrow> 'k) \<Rightarrow> 'r \<Rightarrow> 'r list \<Rightarrow> 'r list option" where
  "insert_pk k r rs = (if k r \<in> k ` set rs then None else Some (rs @ [r]))"

lemma insert_pk_Some [row_simps]:
  "insert_pk k r rs = Some rs' \<longleftrightarrow> k r \<notin> k ` set rs \<and> rs' = rs @ [r]"
  by (auto simp: insert_pk_def)

lemma insert_pk_None [row_simps]: "insert_pk k r rs = None \<longleftrightarrow> k r \<in> k ` set rs"
  by (auto simp: insert_pk_def)

lemma distinct_snoc_key [intro]:
  "distinct (map k rs) \<Longrightarrow> k r \<notin> k ` set rs \<Longrightarrow> distinct (map k (rs @ [r]))"
  by simp

section \<open>Association lists\<close>

text \<open>
  An ES \<open>Map\<close> is an association list: \<open>get\<close> is \<^const>\<open>map_of\<close>, \<open>set\<close> is \<^const>\<open>AList.update\<close> (in place
  for a present key, at the end otherwise), \<open>delete\<close> is \<^const>\<open>AList.delete\<close>, \<open>size\<close> is \<^const>\<open>length\<close>,
  and a sweep \<open>for (const [k, v] of m) if (p v) m.delete(k)\<close> is a filter.
\<close>

definition sweep :: "('v \<Rightarrow> bool) \<Rightarrow> ('k \<times> 'v) list \<Rightarrow> ('k \<times> 'v) list" where
  "sweep dead m = filter (\<lambda>(k, v). \<not> dead v) m"

lemma map_of_sweep:
  "distinct (map fst m) \<Longrightarrow>
   map_of (sweep dead m) k = (case map_of m k of Some v \<Rightarrow> if dead v then None else Some v | None \<Rightarrow> None)"
proof (induction m)
  case (Cons a m)
  have "map_of m (fst a) = None" "map_of (sweep dead m) (fst a) = None"
    using Cons.prems by (auto simp: map_of_eq_None_iff sweep_def)
  with Cons show ?case
    by (cases a) (auto simp: sweep_def)
qed (simp add: sweep_def)

lemma distinct_sweep [intro]: "distinct (map fst m) \<Longrightarrow> distinct (map fst (sweep dead m))"
  by (simp add: sweep_def distinct_map_filter)

lemma set_sweep: "(k, v) \<in> set (sweep dead m) \<longleftrightarrow> (k, v) \<in> set m \<and> \<not> dead v"
  by (auto simp: sweep_def)

end
