(* ===== verification/Names.thy ===== *)
theory Names
  imports Prelude
begin

text \<open>
  The normalization folds of \<open>server/src/normalize.ts\<close>. Unicode NFKC normalization comes from the
  Unicode tables of the JavaScript engine: it is the parameter \<open>nfkc\<close>, of which only the documented
  behaviour on ASCII is ever assumed (\<open>nfkc_ascii\<close>: it is the identity there). Trimming, collapsing
  and lower-casing are defined on the code units below 256.
\<close>

definition collapse_whitespace :: "string \<Rightarrow> string" where
  "collapse_whitespace raw = collapse_runs (trim raw)"

definition display_device_name :: "string \<Rightarrow> string" where
  "display_device_name raw = collapse_whitespace raw"

definition normalize_device_name :: "(string \<Rightarrow> string) \<Rightarrow> string \<Rightarrow> string" where
  "normalize_device_name nfkc raw = to_lower (nfkc (collapse_whitespace raw))"

definition normalize_username :: "(string \<Rightarrow> string) \<Rightarrow> string \<Rightarrow> string" where
  "normalize_username nfkc raw = to_lower (nfkc (trim raw))"

definition nfkc_ascii :: "(string \<Rightarrow> string) \<Rightarrow> bool" where
  "nfkc_ascii nfkc \<longleftrightarrow> (\<forall>s. is_ascii s \<longrightarrow> nfkc s = s)"

section \<open>Tidy names\<close>

text \<open>
  What a display name looks like: no white space at either end, only single plain spaces inside.
\<close>

definition tidy :: "string \<Rightarrow> bool" where
  "tidy s \<longleftrightarrow> dropWhile is_ws s = s \<and> dropWhile is_ws (rev s) = rev s
     \<and> successively (\<lambda>a b. \<not> (is_ws a \<and> is_ws b)) s \<and> (\<forall>c \<in> set s. is_ws c \<longrightarrow> c = CHR 0x20)"

lemma ws_space [simp]: "is_ws (CHR 0x20)"
  by (simp add: is_ws_def)

lemma collapse_runs_hd:
  "collapse_runs s = c # t \<Longrightarrow> is_ws c \<Longrightarrow> \<exists>d u. s = d # u \<and> is_ws d"
  by (cases s) (auto split: if_splits)

lemma collapse_runs_dropWhile_hd:
  "collapse_runs (dropWhile is_ws s) = c # t \<Longrightarrow> \<not> is_ws c"
  using collapse_runs_hd hd_dropWhile_ws by blast

lemma collapse_runs_successively:
  "successively (\<lambda>a b. \<not> (is_ws a \<and> is_ws b)) (collapse_runs s)"
proof (induction s rule: collapse_runs.induct)
  case (2 c cs)
  show ?case
  proof (cases "is_ws c")
    case True
    then show ?thesis
      using 2 collapse_runs_dropWhile_hd [of cs]
      by (cases "collapse_runs (dropWhile is_ws cs)") (auto simp: successively_Cons)
  next
    case False
    then show ?thesis using 2 by (auto simp: successively_Cons)
  qed
qed simp

lemma collapse_runs_ws: "c \<in> set (collapse_runs s) \<Longrightarrow> is_ws c \<Longrightarrow> c = CHR 0x20"
  by (induction s rule: collapse_runs.induct) (auto split: if_splits)

lemma collapse_runs_eq_Nil [simp]: "collapse_runs s = [] \<longleftrightarrow> s = []"
  by (cases s) auto

lemma collapse_runs_last:
  "s \<noteq> [] \<Longrightarrow> \<not> is_ws (last s) \<Longrightarrow> \<not> is_ws (last (collapse_runs s))"
proof (induction s rule: collapse_runs.induct)
  case (2 c cs)
  show ?case
  proof (cases "is_ws c")
    case True
    with 2 have "cs \<noteq> []" by auto
    with 2 True have "last cs \<in> set cs" "\<not> is_ws (last cs)" by auto
    then have ne: "dropWhile is_ws cs \<noteq> []" by (auto simp: dropWhile_eq_Nil_conv)
    then have "last (dropWhile is_ws cs) = last cs" by (metis last_appendR takeWhile_dropWhile_id)
    with 2 True ne \<open>\<not> is_ws (last cs)\<close> show ?thesis by simp
  next
    case False
    with 2 show ?thesis by (cases "cs = []") auto
  qed
qed simp

lemma dropWhile_ws_id: "dropWhile is_ws s = s \<longleftrightarrow> s = [] \<or> \<not> is_ws (hd s)"
proof (cases s)
  case (Cons c cs)
  have "dropWhile is_ws cs \<noteq> c # cs"
    by (metis impossible_Cons length_dropWhile_le)
  with Cons show ?thesis by auto
qed simp

lemma tidy_collapse_whitespace: "tidy (collapse_whitespace s)"
proof -
  let ?t = "trim s"
  have "collapse_runs ?t = [] \<or> \<not> is_ws (hd (collapse_runs ?t))"
    by (metis collapse_runs_hd hd_dropWhile_ws list.collapse trim_left)
  moreover have "collapse_runs ?t = [] \<or> \<not> is_ws (last (collapse_runs ?t))"
    using trim_right [of s] collapse_runs_last [of ?t] by (auto simp: dropWhile_ws_id hd_rev)
  ultimately show ?thesis
    using collapse_runs_successively [of ?t] collapse_runs_ws [of _ ?t]
    by (auto simp: tidy_def collapse_whitespace_def dropWhile_ws_id hd_rev)
qed

lemma collapse_runs_id:
  "successively (\<lambda>a b. \<not> (is_ws a \<and> is_ws b)) s \<Longrightarrow> (\<forall>c \<in> set s. is_ws c \<longrightarrow> c = CHR 0x20)
   \<Longrightarrow> collapse_runs s = s"
proof (induction s rule: collapse_runs.induct)
  case (2 c cs)
  show ?case
  proof (cases "is_ws c")
    case True
    with 2 have "dropWhile is_ws cs = cs"
      by (auto simp: dropWhile_ws_id successively_Cons)
    with 2 True show ?thesis by (auto simp: successively_Cons)
  next
    case False
    with 2 show ?thesis by (auto simp: successively_Cons)
  qed
qed simp

lemma tidy_id: "tidy s \<Longrightarrow> collapse_whitespace s = s"
  by (simp add: tidy_def collapse_whitespace_def trim_def collapse_runs_id)

lemma collapse_whitespace_idem [simp]:
  "collapse_whitespace (collapse_whitespace s) = collapse_whitespace s"
  by (simp add: tidy_id tidy_collapse_whitespace)

lemma normalize_display [simp]:
  "normalize_device_name nfkc (display_device_name raw) = normalize_device_name nfkc raw"
  by (simp add: normalize_device_name_def display_device_name_def)

section \<open>The folds on ASCII\<close>

lemma set_collapse_runs: "set (collapse_runs s) \<subseteq> insert (CHR 0x20) (set s)"
proof (induction s rule: collapse_runs.induct)
  case (2 c cs)
  then show ?case by (cases "is_ws c") (auto dest: set_dropWhileD)
qed simp

lemma is_ascii_collapse: "is_ascii s \<Longrightarrow> is_ascii (collapse_whitespace s)"
  using set_collapse_runs [of "trim s"] set_trim [of s]
  by (fastforce simp: is_ascii_def collapse_whitespace_def)

lemma lower_char_idem [simp]: "lower_char (lower_char c) = lower_char c"
  by (auto simp: lower_char_def Let_def of_char_of)

lemma to_lower_idem [simp]: "to_lower (to_lower s) = to_lower s"
  by (simp add: to_lower_def)

lemma lower_char_ascii: "(of_char c :: nat) < 128 \<Longrightarrow> (of_char (lower_char c) :: nat) < 128"
  by (auto simp: lower_char_def Let_def)

lemma is_ascii_to_lower: "is_ascii s \<Longrightarrow> is_ascii (to_lower s)"
  by (auto simp: is_ascii_def to_lower_def lower_char_ascii)

lemma is_ws_lower [simp]: "is_ws (lower_char c) \<longleftrightarrow> is_ws c"
  by (auto simp: is_ws_def lower_char_def Let_def)

lemma dropWhile_ws_lower: "dropWhile is_ws (to_lower s) = to_lower (dropWhile is_ws s)"
  by (induction s) (auto simp: to_lower_def)

lemma trim_lower: "trim (to_lower s) = to_lower (trim s)"
proof -
  have "rev (to_lower u) = to_lower (rev u)" for u by (simp add: to_lower_def rev_map)
  then show ?thesis by (simp add: trim_def dropWhile_ws_lower)
qed

lemma normalize_username_ascii:
  "nfkc_ascii nfkc \<Longrightarrow> is_ascii s \<Longrightarrow> normalize_username nfkc s = to_lower (trim s)"
  by (simp add: normalize_username_def nfkc_ascii_def is_ascii_trim)

lemma normalize_device_name_ascii:
  "nfkc_ascii nfkc \<Longrightarrow> is_ascii s \<Longrightarrow>
   normalize_device_name nfkc s = to_lower (collapse_whitespace s)"
  by (simp add: normalize_device_name_def nfkc_ascii_def is_ascii_collapse)

lemma collapse_runs_lower: "collapse_runs (to_lower s) = to_lower (collapse_runs s)"
proof (induction s rule: collapse_runs.induct)
  case (2 c cs)
  have sp: "lower_char (CHR 0x20) = CHR 0x20" by (simp add: lower_char_def)
  from 2 show ?case
    using dropWhile_ws_lower [of cs] sp by (auto simp: to_lower_def)
qed (simp add: to_lower_def)

lemma collapse_whitespace_lower:
  "collapse_whitespace (to_lower s) = to_lower (collapse_whitespace s)"
  by (simp add: collapse_whitespace_def trim_lower collapse_runs_lower)

end
