(* ===== verification/Errors.thy ===== *)
theory Errors
  imports Prelude
begin

text \<open>
  The closed error set of \<open>server/src/errors.ts\<close> and the other exceptions the modelled code throws:
  a refused internal token (\<open>device-service/verify.ts\<close>), a refused DPoP proof (\<open>oauth/dpop.ts\<close>), a
  database error by SQLSTATE, and a plain \<open>Error\<close>. A function that can throw returns a sum, with
  \<open>Inl\<close> for the exception.
\<close>

datatype error_code =
    MALFORMED_REQUEST | UNAUTHENTICATED | INSUFFICIENT_SCOPE | NOT_FOUND | DEVICE_NOT_FOUND
  | DEVICE_NAME_CONFLICT | DEVICE_VERSION_CONFLICT | DEVICE_LIMIT_REACHED | USERNAME_TAKEN
  | VALIDATION_FAILED | INVALID_STATE | RATE_LIMITED | INTERNAL_ERROR | SERVICE_UNAVAILABLE

fun error_status :: "error_code \<Rightarrow> nat" where
  "error_status MALFORMED_REQUEST = 400"
| "error_status UNAUTHENTICATED = 401"
| "error_status INSUFFICIENT_SCOPE = 403"
| "error_status NOT_FOUND = 404"
| "error_status DEVICE_NOT_FOUND = 404"
| "error_status DEVICE_NAME_CONFLICT = 409"
| "error_status DEVICE_VERSION_CONFLICT = 409"
| "error_status DEVICE_LIMIT_REACHED = 409"
| "error_status USERNAME_TAKEN = 409"
| "error_status VALIDATION_FAILED = 422"
| "error_status INVALID_STATE = 422"
| "error_status RATE_LIMITED = 429"
| "error_status INTERNAL_ERROR = 500"
| "error_status SERVICE_UNAVAILABLE = 503"

fun default_message :: "error_code \<Rightarrow> string" where
  "default_message MALFORMED_REQUEST = ''The request body could not be read.''"
| "default_message UNAUTHENTICATED = ''Invalid username or password.''"
| "default_message INSUFFICIENT_SCOPE = ''This credential is not permitted to perform that action.''"
| "default_message NOT_FOUND = ''No such endpoint.''"
| "default_message DEVICE_NOT_FOUND = ''That device does not exist.''"
| "default_message DEVICE_NAME_CONFLICT = ''A device with this name already exists.''"
| "default_message DEVICE_VERSION_CONFLICT = ''This device changed. Refresh it and try again.''"
| "default_message DEVICE_LIMIT_REACHED = ''You have reached the maximum number of devices.''"
| "default_message USERNAME_TAKEN = ''That username is already taken.''"
| "default_message VALIDATION_FAILED = ''One or more fields are invalid.''"
| "default_message INVALID_STATE = ''State must be exactly \"on\" or \"off\".''"
| "default_message RATE_LIMITED = ''Too many requests. Try again shortly.''"
| "default_message INTERNAL_ERROR = ''Unexpected error.''"
| "default_message SERVICE_UNAVAILABLE = ''Temporarily unavailable. Try again shortly.''"

record app_error =
  ae_code :: error_code
  ae_message :: string
  ae_field :: "string option"

text \<open>\<open>new AppError(code, message?, field?)\<close>; the status is a function of the code.\<close>

definition new_app_error :: "error_code \<Rightarrow> string option \<Rightarrow> string option \<Rightarrow> app_error" where
  "new_app_error code msg field =
     \<lparr>ae_code = code,
      ae_message = (case msg of None \<Rightarrow> default_message code | Some m \<Rightarrow> m),
      ae_field = field\<rparr>"

definition app_status :: "app_error \<Rightarrow> nat" where
  "app_status e = error_status (ae_code e)"

datatype dpop_code = Invalid_dpop_proof | Use_dpop_nonce

datatype dpop_reason =
    R_missing | R_malformed | R_private_key | R_signature | R_jti | R_htm | R_htu | R_ath
  | R_key_mismatch | R_nonce | R_replay | R_scheme

datatype error =
    AppError app_error
  | InternalTokenRefused string
  | DpopError dpop_code string dpop_reason
  | DbError string
  | OtherError string

abbreviation app_err :: "error_code \<Rightarrow> error" where
  "app_err c \<equiv> AppError (new_app_error c None None)"

abbreviation app_err_msg :: "error_code \<Rightarrow> string \<Rightarrow> error" where
  "app_err_msg c m \<equiv> AppError (new_app_error c (Some m) None)"

abbreviation app_err_field :: "error_code \<Rightarrow> string \<Rightarrow> string \<Rightarrow> error" where
  "app_err_field c m f \<equiv> AppError (new_app_error c (Some m) (Some f))"

fun code_of :: "error \<Rightarrow> error_code option" where
  "code_of (AppError e) = Some (ae_code e)"
| "code_of _ = None"

fun is_app_error :: "error \<Rightarrow> bool" where
  "is_app_error (AppError e) = True"
| "is_app_error _ = False"

lemma ae_code_new [simp]: "ae_code (new_app_error c m f) = c"
  by (simp add: new_app_error_def)

lemma ae_field_new [simp]: "ae_field (new_app_error c m f) = f"
  by (simp add: new_app_error_def)

lemma ae_message_new [simp]:
  "ae_message (new_app_error c m f) = (case m of None \<Rightarrow> default_message c | Some s \<Rightarrow> s)"
  by (simp add: new_app_error_def)

text \<open>SQLSTATEs the schema raises.\<close>

abbreviation unique_violation :: string where "unique_violation \<equiv> ''23505''"
abbreviation foreign_key_violation :: string where "foreign_key_violation \<equiv> ''23503''"
abbreviation numeric_out_of_range :: string where "numeric_out_of_range \<equiv> ''22003''"

text \<open>
  \<open>isUniqueViolation(error, constraint?)\<close>, over the fields of the driver's error object: its code,
  and the constraint under either driver's name.
\<close>

definition is_unique_violation :: "jsval \<Rightarrow> string option \<Rightarrow> bool" where
  "is_unique_violation err con =
     (case err of
        JObj _ \<Rightarrow>
          if jfield err ''code'' \<noteq> JStr unique_violation then False
          else (case con of
                  None \<Rightarrow> True
                | Some c \<Rightarrow> if c = [] then True
                    else (case jfield err ''constraint_name'' of
                            JUndefined \<Rightarrow> jfield err ''constraint'' = JStr c
                          | JNull \<Rightarrow> jfield err ''constraint'' = JStr c
                          | v \<Rightarrow> v = JStr c))
      | _ \<Rightarrow> False)"

text \<open>\<open>AppError.toBody\<close>: the REST error envelope.\<close>

fun code_name :: "error_code \<Rightarrow> string" where
  "code_name MALFORMED_REQUEST = ''MALFORMED_REQUEST''"
| "code_name UNAUTHENTICATED = ''UNAUTHENTICATED''"
| "code_name INSUFFICIENT_SCOPE = ''INSUFFICIENT_SCOPE''"
| "code_name NOT_FOUND = ''NOT_FOUND''"
| "code_name DEVICE_NOT_FOUND = ''DEVICE_NOT_FOUND''"
| "code_name DEVICE_NAME_CONFLICT = ''DEVICE_NAME_CONFLICT''"
| "code_name DEVICE_VERSION_CONFLICT = ''DEVICE_VERSION_CONFLICT''"
| "code_name DEVICE_LIMIT_REACHED = ''DEVICE_LIMIT_REACHED''"
| "code_name USERNAME_TAKEN = ''USERNAME_TAKEN''"
| "code_name VALIDATION_FAILED = ''VALIDATION_FAILED''"
| "code_name INVALID_STATE = ''INVALID_STATE''"
| "code_name RATE_LIMITED = ''RATE_LIMITED''"
| "code_name INTERNAL_ERROR = ''INTERNAL_ERROR''"
| "code_name SERVICE_UNAVAILABLE = ''SERVICE_UNAVAILABLE''"

definition to_body :: "app_error \<Rightarrow> string \<Rightarrow> jsval" where
  "to_body e request_id =
     JObj [(''error'', JObj ([(''code'', JStr (code_name (ae_code e))),
                              (''message'', JStr (ae_message e))]
              @ (case ae_field e of None \<Rightarrow> [] | Some f \<Rightarrow> if f = [] then [] else [(''field'', JStr f)])
              @ [(''requestId'', JStr request_id)]))]"

text \<open>A transaction: an exception rolls every change back.\<close>

definition run_tx :: "('db \<Rightarrow> error + 'a \<times> 'db) \<Rightarrow> 'db \<Rightarrow> (error + 'a) \<times> 'db" where
  "run_tx body db = (case body db of Inl e \<Rightarrow> (Inl e, db) | Inr (a, db') \<Rightarrow> (Inr a, db'))"

lemma run_tx_Inl: "run_tx body db = (Inl e, db') \<longleftrightarrow> body db = Inl e \<and> db' = db"
  by (auto simp: run_tx_def split: sum.splits prod.splits)

lemma run_tx_Inr: "run_tx body db = (Inr a, db') \<longleftrightarrow> body db = Inr (a, db')"
  by (auto simp: run_tx_def split: sum.splits prod.splits)

lemma run_tx_rollback: "fst (run_tx body db) = Inl e \<Longrightarrow> snd (run_tx body db) = db"
  by (auto simp: run_tx_def split: sum.splits prod.splits)

end
