(* ===== verification/Tokens.thy ===== *)
theory Tokens
  imports Errors "HOL-Library.Word"
begin

unbundle bit_operations_syntax

text \<open>
  \<open>server/src/tokens/format.ts\<close> and \<open>server/src/tokens/hash.ts\<close>: the shape of a token, its
  checksum, and the keyed digest it is stored under. CRC-32 and base64url are modelled in full (they
  are the standard library's); HMAC is the parameter \<open>hmac\<close> (key, message), a byte string.
\<close>

section \<open>Encodings\<close>

definition b64_digit :: "nat \<Rightarrow> char" where
  "b64_digit n = ''ABCDEFGHIJKLMNOPQRSTUVWXYZabcdefghijklmnopqrstuvwxyz0123456789-_'' ! n"

definition byte :: "char \<Rightarrow> nat" where
  "byte c = of_char c"

lemma byte_less [simp]: "byte c < 256"
  by (simp add: byte_def)

text \<open>\<open>Buffer.toString('base64url')\<close>: no padding.\<close>

fun base64url :: "string \<Rightarrow> string" where
  "base64url [] = []"
| "base64url [a] = [b64_digit (byte a div 4), b64_digit (byte a mod 4 * 16)]"
| "base64url [a, b] =
     [b64_digit (byte a div 4), b64_digit (byte a mod 4 * 16 + byte b div 16),
      b64_digit (byte b mod 16 * 4)]"
| "base64url (a # b # c # r) =
     b64_digit (byte a div 4) # b64_digit (byte a mod 4 * 16 + byte b div 16)
     # b64_digit (byte b mod 16 * 4 + byte c div 64) # b64_digit (byte c mod 64) # base64url r"

definition hex_digit :: "nat \<Rightarrow> char" where
  "hex_digit n = ''0123456789abcdef'' ! n"

fun hex :: "string \<Rightarrow> string" where
  "hex [] = []"
| "hex (c # cs) = hex_digit (byte c div 16) # hex_digit (byte c mod 16) # hex cs"

definition b64url_char :: "char \<Rightarrow> bool" where
  "b64url_char c \<longleftrightarrow> is_alnum c \<or> c = CHR ''-'' \<or> c = CHR ''_''"

lemma b64_digit_char: "n < 64 \<Longrightarrow> b64url_char (b64_digit n)"
proof -
  have "\<forall>c \<in> set ''ABCDEFGHIJKLMNOPQRSTUVWXYZabcdefghijklmnopqrstuvwxyz0123456789-_''. b64url_char c"
    by (simp add: b64url_char_def is_alnum_def)
  moreover assume "n < 64"
  then have "b64_digit n \<in> set ''ABCDEFGHIJKLMNOPQRSTUVWXYZabcdefghijklmnopqrstuvwxyz0123456789-_''"
    unfolding b64_digit_def by (intro nth_mem) simp
  ultimately show ?thesis by blast
qed

lemma byte_bounds:
  "byte a div 4 < 64" "byte a mod 4 * 16 < 64" "byte a mod 4 * 16 + byte b div 16 < 64"
  "byte b mod 16 * 4 < 64" "byte b mod 16 * 4 + byte c div 64 < 64" "byte c mod 64 < 64"
  "byte c div 16 < 16" "byte c mod 16 < 16"
proof -
  have "byte a < 256" "byte b < 256" "byte c < 256" by simp_all
  then show "byte a div 4 < 64" "byte a mod 4 * 16 < 64"
    "byte a mod 4 * 16 + byte b div 16 < 64" "byte b mod 16 * 4 < 64"
    "byte b mod 16 * 4 + byte c div 64 < 64" "byte c mod 64 < 64"
    "byte c div 16 < 16" "byte c mod 16 < 16"
    by linarith+
qed

lemma base64url_chars: "c \<in> set (base64url s) \<Longrightarrow> b64url_char c"
  by (induction s rule: base64url.induct) (auto intro!: b64_digit_char byte_bounds)

lemma length_base64url: "length (base64url s) = (4 * length s + 2) div 3"
  by (induction s rule: base64url.induct) auto

lemma hex_digit_inj: "m < 16 \<Longrightarrow> n < 16 \<Longrightarrow> hex_digit m = hex_digit n \<Longrightarrow> m = n"
  using nth_eq_iff_index_eq [of "''0123456789abcdef''" m n] by (simp add: hex_digit_def)

lemma byte_inj: "byte a = byte b \<Longrightarrow> a = b"
  by (simp add: byte_def)

lemma hex_inj: "hex s = hex t \<Longrightarrow> s = t"
proof (induction s arbitrary: t)
  case Nil
  then show ?case by (cases t) auto
next
  case (Cons a s)
  then obtain b u where t: "t = b # u" by (cases t) auto
  from Cons.prems t have "byte a div 16 = byte b div 16" "byte a mod 16 = byte b mod 16"
    by (auto intro: hex_digit_inj byte_bounds)
  then have "byte a = byte b" by (metis div_mult_mod_eq)
  with Cons t show ?case by (auto dest: byte_inj)
qed

lemma split_digit: "a * k + b = a' * k + b' \<Longrightarrow> b < k \<Longrightarrow> b' < k \<Longrightarrow> a = a' \<and> b = (b'::nat)"
  by (metis div_mult_self3 mod_mult_self3 div_less mod_less less_nat_zero_code add_0_right neq0_conv)

lemma same_byte: "byte a div k = byte b div k \<Longrightarrow> byte a mod k = byte b mod k \<Longrightarrow> a = b"
  by (metis byte_inj div_mult_mod_eq)

lemma byte_div: "byte b div 16 < 16" "byte b div 64 < 4"
  using byte_less [of b] by linarith+

lemma b64_join:
  "byte a div 4 = byte a' div 4 \<Longrightarrow> byte a mod 4 * 16 + byte b div 16 = byte a' mod 4 * 16 + byte b' div 16 \<Longrightarrow>
   a = a' \<and> byte b div 16 = byte b' div 16"
  by (auto dest!: split_digit [OF _ byte_div(1) byte_div(1)] intro: same_byte)

lemma b64_join':
  "byte b div 16 = byte b' div 16 \<Longrightarrow> byte b mod 16 * 4 + byte c div 64 = byte b' mod 16 * 4 + byte c' div 64 \<Longrightarrow>
   b = b' \<and> byte c div 64 = byte c' div 64"
  by (auto dest!: split_digit [OF _ byte_div(2) byte_div(2)] intro: same_byte)

lemma b64_digit_eq: "m < 64 \<Longrightarrow> n < 64 \<Longrightarrow> b64_digit m = b64_digit n \<longleftrightarrow> m = n"
proof -
  let ?ds = "''ABCDEFGHIJKLMNOPQRSTUVWXYZabcdefghijklmnopqrstuvwxyz0123456789-_''"
  have "distinct ?ds" by code_simp
  moreover have "length ?ds = 64" by simp
  ultimately show "m < 64 \<Longrightarrow> n < 64 \<Longrightarrow> b64_digit m = b64_digit n \<longleftrightarrow> m = n"
    using nth_eq_iff_index_eq [of ?ds m n] by (simp only: b64_digit_def)
qed

lemma base64url_inj: "base64url s = base64url t \<Longrightarrow> s = t"
proof (induction s arbitrary: t rule: base64url.induct)
  case 1
  then show ?case by (cases t rule: base64url.cases) simp_all
next
  case (2 a)
  then show ?case
    by (cases t rule: base64url.cases) (auto simp: b64_digit_eq byte_bounds intro: same_byte)
next
  case (3 a b)
  then show ?case
    by (cases t rule: base64url.cases) (auto simp: b64_digit_eq byte_bounds dest: b64_join intro: same_byte)
next
  case (4 a b c r)
  from 4(2) show ?case
  proof (cases t rule: base64url.cases)
    case (4 a' b' c' r')
    with \<open>base64url (a # b # c # r) = base64url t\<close>
    have e: "byte a div 4 = byte a' div 4" "byte a mod 4 * 16 + byte b div 16 = byte a' mod 4 * 16 + byte b' div 16"
      "byte b mod 16 * 4 + byte c div 64 = byte b' mod 16 * 4 + byte c' div 64" "byte c mod 64 = byte c' mod 64"
      "base64url r = base64url r'"
      by (simp_all add: b64_digit_eq byte_bounds)
    have "a = a'" "byte b div 16 = byte b' div 16" using b64_join [OF e(1,2)] by simp_all
    moreover have "b = b'" "byte c div 64 = byte c' div 64"
      using b64_join' [OF calculation(2) e(3)] by simp_all
    moreover have "c = c'" using calculation(4) e(4) by (rule same_byte)
    moreover have "r = r'" using e(5) by (rule \<open>\<And>t. base64url r = base64url t \<Longrightarrow> r = t\<close>)
    ultimately show ?thesis using 4 by simp
  qed simp_all
qed

section \<open>CRC-32\<close>

text \<open>\<open>crc32\<close> of \<open>node:zlib\<close>: reflected, polynomial 0xEDB88320, all-ones start and final inversion.\<close>

definition crc_bit :: "32 word \<Rightarrow> 32 word" where
  "crc_bit c = (if c AND 1 = 1 then 0xEDB88320 XOR drop_bit 1 c else drop_bit 1 c)"

definition crc_byte :: "char \<Rightarrow> 32 word \<Rightarrow> 32 word" where
  "crc_byte b c = (crc_bit ^^ 8) (c XOR word_of_nat (byte b))"

definition crc32 :: "string \<Rightarrow> 32 word" where
  "crc32 s = NOT (fold crc_byte s 0xFFFFFFFF)"

section \<open>Tokens\<close>

datatype token_kind = Access | Refresh | Code | Session | Binding

fun token_prefix :: "token_kind \<Rightarrow> string" where
  "token_prefix Access = ''iotsw_at_''"
| "token_prefix Refresh = ''iotsw_rt_''"
| "token_prefix Code = ''iotsw_ac_''"
| "token_prefix Session = ''iotsw_ss_''"
| "token_prefix Binding = ''iotsw_pb_''"

abbreviation body_length :: nat where "body_length \<equiv> 43"
abbreviation check_length :: nat where "check_length \<equiv> 6"

definition base62_digit :: "nat \<Rightarrow> char" where
  "base62_digit n = ''0123456789ABCDEFGHIJKLMNOPQRSTUVWXYZabcdefghijklmnopqrstuvwxyz'' ! n"

text \<open>The loop of \<open>base62(value, width)\<close>, with its accumulator.\<close>

fun base62_loop :: "nat \<Rightarrow> nat \<Rightarrow> string \<Rightarrow> string" where
  "base62_loop 0 rest out = out"
| "base62_loop (Suc width) rest out = base62_loop width (rest div 62) (base62_digit (rest mod 62) # out)"

definition base62 :: "nat \<Rightarrow> nat \<Rightarrow> string" where
  "base62 value width = base62_loop width value []"

definition checksum :: "string \<Rightarrow> string" where
  "checksum prefix_and_body = base62 (unat (crc32 prefix_and_body)) check_length"

text \<open>\<open>mint(kind)\<close>; the 32 random bytes are an argument.\<close>

definition mint :: "token_kind \<Rightarrow> string \<Rightarrow> string" where
  "mint kind rnd = (let pb = token_prefix kind @ base64url rnd in pb @ checksum pb)"

definition well_formed_str :: "token_kind \<Rightarrow> string \<Rightarrow> bool" where
  "well_formed_str kind token =
     (let prefix = token_prefix kind in
      if length token \<noteq> length prefix + body_length + check_length then False
      else if \<not> starts_with prefix token then False
      else (let body = take body_length (drop (length prefix) token) in
            if \<not> (\<forall>c \<in> set body. b64url_char c) then False
            else drop (length token - check_length) token = checksum (prefix @ body)))"

definition well_formed :: "token_kind \<Rightarrow> jsval \<Rightarrow> bool" where
  "well_formed kind v = (case v of JStr token \<Rightarrow> well_formed_str kind token | _ \<Rightarrow> False)"

lemma well_formed_JStr [simp]: "well_formed k (JStr t) = well_formed_str k t"
  by (simp add: well_formed_def)

lemma well_formedE:
  assumes "well_formed k v"
  obtains t where "v = JStr t" "well_formed_str k t"
  using assms by (auto simp: well_formed_def split: jsval.splits)

lemma length_token_prefix [simp]: "length (token_prefix k) = 9"
  by (cases k) auto

lemma length_base62_loop [simp]: "length (base62_loop w r out) = w + length out"
  by (induction w arbitrary: r out) auto

lemma length_checksum [simp]: "length (checksum s) = 6"
  by (simp add: checksum_def base62_def)

lemma length_mint: "length rnd = 32 \<Longrightarrow> length (mint k rnd) = 58"
  by (simp add: mint_def Let_def length_base64url)

lemma mint_well_formed_str:
  assumes "length rnd = 32"
  shows "well_formed_str k (mint k rnd)"
proof -
  let ?p = "token_prefix k" and ?b = "base64url rnd"
  have len: "length ?b = 43" using assms by (simp add: length_base64url)
  have m: "mint k rnd = ?p @ ?b @ checksum (?p @ ?b)" by (simp add: mint_def Let_def)
  have body: "take body_length (drop (length ?p) (mint k rnd)) = ?b"
    using len by (simp add: m)
  have tl: "drop (length (mint k rnd) - check_length) (mint k rnd) = checksum (?p @ ?b)"
    using len by (simp add: m)
  have "starts_with ?p (mint k rnd)" by (simp add: m)
  then show ?thesis
    unfolding well_formed_str_def Let_def body tl using len
    by (auto simp: m dest: base64url_chars)
qed

lemma token_prefix_inj: "token_prefix k = token_prefix k' \<Longrightarrow> k = k'"
  by (cases k; cases k') auto

lemma well_formed_str_prefix: "well_formed_str k t \<Longrightarrow> take 9 t = token_prefix k"
  by (auto simp: well_formed_str_def Let_def starts_with_def split: if_splits)

lemma well_formed_str_kind: "well_formed_str k t \<Longrightarrow> well_formed_str k' t \<Longrightarrow> k = k'"
  by (metis token_prefix_inj well_formed_str_prefix)

text \<open>The six base62 digits of a 32-bit value determine it: the checksum loses nothing of the CRC.\<close>

lemma base62_digit_inj: "m < 62 \<Longrightarrow> n < 62 \<Longrightarrow> base62_digit m = base62_digit n \<Longrightarrow> m = n"
proof -
  let ?ds = "''0123456789ABCDEFGHIJKLMNOPQRSTUVWXYZabcdefghijklmnopqrstuvwxyz''"
  assume mn: "m < 62" "n < 62" "base62_digit m = base62_digit n"
  have "distinct ?ds" by code_simp
  moreover have "length ?ds = 62" by simp
  ultimately show "m = n"
    using mn nth_eq_iff_index_eq [of ?ds m n] by (simp only: base62_digit_def)
qed

lemma base62_loop_append: "base62_loop w r out = base62_loop w r [] @ out"
proof (induction w arbitrary: r out)
  case (Suc w)
  show ?case
    using Suc [of "r div 62" "base62_digit (r mod 62) # out"] Suc [of "r div 62" "[base62_digit (r mod 62)]"]
    by simp
qed simp

lemma base62_loop_inj:
  "base62_loop w m [] = base62_loop w n [] \<Longrightarrow> m < 62 ^ w \<Longrightarrow> n < 62 ^ w \<Longrightarrow> m = n"
proof (induction w arbitrary: m n)
  case (Suc w)
  from Suc.prems(1) have
    "base62_loop w (m div 62) [] @ [base62_digit (m mod 62)]
     = base62_loop w (n div 62) [] @ [base62_digit (n mod 62)]"
    by (simp add: base62_loop_append [of w _ "[_]"])
  then have "base62_loop w (m div 62) [] = base62_loop w (n div 62) []"
    and d: "base62_digit (m mod 62) = base62_digit (n mod 62)"
    by simp_all
  then have "m div 62 = n div 62"
    using Suc.prems by (intro Suc.IH) (auto simp: less_mult_imp_div_less mult.commute)
  moreover have "m mod 62 = n mod 62"
    using d by (intro base62_digit_inj) simp_all
  ultimately show ?case by (metis div_mult_mod_eq)
qed simp

lemma checksum_crc: "checksum s = checksum t \<longleftrightarrow> crc32 s = crc32 t"
proof
  assume "checksum s = checksum t"
  moreover have "unat (crc32 u) < 62 ^ 6" for u
    using unsigned_less [of "crc32 u", where ?'a = nat] by simp
  ultimately have "unat (crc32 s) = unat (crc32 t)"
    by (auto simp: checksum_def base62_def intro: base62_loop_inj)
  then show "crc32 s = crc32 t" by (rule unsigned_word_eqI)
qed (simp add: checksum_def)

section \<open>How tokens are stored\<close>

text \<open>
  Key material (\<open>security/keys.ts\<close>): the peppers, current first, and the MAC key. The digest of a token
  is its HMAC under the current pepper, in hexadecimal; a lookup tries every pepper.
\<close>

record key_material =
  token_peppers :: "(nat \<times> string) list"
  password_pepper :: "nat \<times> string"
  internal_mac_key :: string

definition hmac_hex :: "(string \<Rightarrow> string \<Rightarrow> string) \<Rightarrow> string \<Rightarrow> string \<Rightarrow> string" where
  "hmac_hex hmac key v = hex (hmac key v)"

definition token_digest :: "(string \<Rightarrow> string \<Rightarrow> string) \<Rightarrow> key_material \<Rightarrow> string \<Rightarrow> error + string" where
  "token_digest hmac ks token =
     (case token_peppers ks of
        [] \<Rightarrow> Inl (OtherError ''No token pepper configured'')
      | (_, key) # _ \<Rightarrow> Inr (hmac_hex hmac key token))"

definition token_digest_candidates ::
  "(string \<Rightarrow> string \<Rightarrow> string) \<Rightarrow> key_material \<Rightarrow> string \<Rightarrow> string list" where
  "token_digest_candidates hmac ks token = map (\<lambda>(_, key). hmac_hex hmac key token) (token_peppers ks)"

lemma token_digest_candidate:
  "token_digest hmac ks t = Inr d \<Longrightarrow> d \<in> set (token_digest_candidates hmac ks t)"
  by (auto simp: token_digest_def token_digest_candidates_def split: list.splits)

text \<open>Rotation puts a new pepper in front and keeps the old ones.\<close>

lemma token_digest_rotated:
  "token_digest hmac ks t = Inr d \<Longrightarrow> d \<in> set (token_digest_candidates hmac (ks\<lparr>token_peppers := p # token_peppers ks\<rparr>) t)"
  by (auto simp: token_digest_def token_digest_candidates_def split: list.splits)

text \<open>
  What is relied on of HMAC-SHA256: two different messages, or two different keys, have different
  digests (collision resistance, as an idealised law).
\<close>

definition hmac_injective :: "(string \<Rightarrow> string \<Rightarrow> string) \<Rightarrow> bool" where
  "hmac_injective hmac \<longleftrightarrow> (\<forall>k m k' m'. hmac k m = hmac k' m' \<longrightarrow> k = k' \<and> m = m')"

lemma hmac_injectiveD: "hmac_injective hmac \<Longrightarrow> hmac k m = hmac k' m' \<Longrightarrow> m = m'"
  unfolding hmac_injective_def by blast

lemma candidates_eq:
  assumes "hmac_injective hmac" "d \<in> set (token_digest_candidates hmac ks t)"
    "d \<in> set (token_digest_candidates hmac ks' t')"
  shows "t = t'"
proof -
  from assms(2) obtain k where "d = hex (hmac k t)"
    by (auto simp: token_digest_candidates_def hmac_hex_def)
  moreover from assms(3) obtain k' where "d = hex (hmac k' t')"
    by (auto simp: token_digest_candidates_def hmac_hex_def)
  ultimately have "hmac k t = hmac k' t'" by (metis hex_inj)
  with assms(1) show ?thesis by (rule hmac_injectiveD)
qed

end
