(* ===== verification/Schema.thy ===== *)
theory Schema
  imports Errors
begin

text \<open>
  The schema of \<open>server/src/db/migrations.ts\<close>, one record per table with the columns in their order,
  and the domain types of \<open>server/src/domain/types.ts\<close>. A nullable column is an \<open>option\<close>. A
  \<open>timestamptz\<close> is its number of microseconds, which is what PostgreSQL keeps. A text column that
  holds a JSON array or object holds the value it parses to.

  The identity column of \<open>audit_events\<close> is the position of the row in its list. Beside the tables the
  state keeps \<open>t_notified\<close>: the grants announced on the process's revocation channel
  (\<open>server/src/revocation.ts\<close>), oldest first.
\<close>

section \<open>Domain types\<close>

datatype device_state = On | Off

fun state_str :: "device_state \<Rightarrow> string" where
  "state_str On = ''on''"
| "state_str Off = ''off''"

fun other_state :: "device_state \<Rightarrow> device_state" where
  "other_state On = Off"
| "other_state Off = On"

datatype channel = Ch_native | Ch_mcp | Ch_internal

fun channel_str :: "channel \<Rightarrow> string" where
  "channel_str Ch_native = ''native''"
| "channel_str Ch_mcp = ''mcp''"
| "channel_str Ch_internal = ''internal''"

record identity =
  id_account :: string
  id_channel :: channel
  id_request :: "string option"
  id_client :: "string option"
  id_grant :: "string option"
  id_via :: "string option"
  id_auth_method :: "string option"

text \<open>The client-visible device; the two times are the milliseconds a JavaScript \<open>Date\<close> keeps.\<close>

record device =
  d_id :: string
  d_name :: string
  d_state :: device_state
  d_version :: int
  d_created_at :: int
  d_updated_at :: int

record account =
  a_id :: string
  a_username :: string
  a_created_at :: int

text \<open>\<open>new Date(timestamptz).toISOString()\<close> keeps the milliseconds.\<close>

definition to_ms :: "int \<Rightarrow> int" where
  "to_ms t = t div 1000"

text \<open>\<open>make_interval(secs => n)\<close>.\<close>

definition secs :: "int \<Rightarrow> int" where
  "secs n = n * 1000000"

text \<open>\<open>EXTRACT(EPOCH FROM d)::int\<close>: whole seconds, rounded half away from zero.\<close>

definition epoch_int :: "int \<Rightarrow> int" where
  "epoch_int d = (if 0 \<le> d then (d + 500000) div 1000000 else - ((500000 - d) div 1000000))"

section \<open>Tables\<close>

record account_row =
  acc_id :: string
  acc_username :: string
  acc_normalized :: string
  acc_password_hash :: string
  acc_pepper_version :: nat
  acc_created_at :: int

record device_row =
  dev_id :: string
  dev_owner :: string
  dev_name :: string
  dev_normalized :: string
  dev_state :: device_state
  dev_version :: int
  dev_created_at :: int
  dev_updated_at :: int

record idempotency_row =
  ik_account :: string
  ik_endpoint :: string
  ik_key :: string
  ik_device :: string
  ik_fingerprint :: "string option"
  ik_created_at :: int

record audit_row =
  au_actor :: "string option"
  au_device :: "string option"
  au_action :: string
  au_old :: "string option"
  au_new :: "string option"
  au_outcome :: string
  au_channel :: string
  au_request :: "string option"
  au_client :: "string option"
  au_grant :: "string option"
  au_via :: "string option"
  au_auth_method :: "string option"
  au_occurred_at :: int

record client_row =
  oc_id :: string
  oc_name :: "string option"
  oc_redirect_uris :: "string list"
  oc_source :: string
  oc_application_type :: "string option"
  oc_created_at :: int

record cimd_row =
  cc_client :: string
  cc_redirect_uris :: "string list"
  cc_display_host :: string
  cc_digest :: string
  cc_fetched_at :: int
  cc_expires_at :: int

record par_row =
  pr_id :: string
  pr_client :: string
  pr_params :: "(string \<times> string) list"
  pr_expires_at :: int

datatype client_kind = Cimd | Dcr | Preregistered

datatype client_trust = Verified | Unverified

record pending_row =
  pa_id :: string
  pa_client :: string
  pa_client_host :: string
  pa_client_kind :: client_kind
  pa_client_trust :: client_trust
  pa_document_digest :: "string option"
  pa_redirect_uri :: string
  pa_state :: "string option"
  pa_code_challenge :: string
  pa_resource :: string
  pa_scope :: string
  pa_offline :: bool
  pa_binding_hash :: string
  pa_dpop_jkt :: "string option"
  pa_first_party :: bool
  pa_created_at :: int
  pa_expires_at :: int

record code_row =
  co_hash :: string
  co_account :: string
  co_client :: string
  co_redirect_uri :: string
  co_challenge :: string
  co_resource :: string
  co_scope :: string
  co_offline :: bool
  co_auth_time :: "int option"
  co_consent :: "string option"
  co_dpop_jkt :: "string option"
  co_consumed_at :: "int option"
  co_grant :: "string option"
  co_created_at :: int
  co_expires_at :: int

record grant_row =
  gr_id :: string
  gr_account :: string
  gr_client :: string
  gr_resource :: string
  gr_scope :: string
  gr_dpop_jkt :: "string option"
  gr_created_at :: int
  gr_last_used :: "int option"
  gr_revoked_at :: "int option"

record access_row =
  at_hash :: string
  at_grant :: string
  at_audience :: string
  at_scope :: string
  at_cnf_jkt :: "string option"
  at_expires_at :: int

record refresh_row =
  rt_hash :: string
  rt_grant :: string
  rt_audience :: string
  rt_scope :: string
  rt_replaced_by :: "string option"
  rt_replaced_at :: "int option"
  rt_revoked_at :: "int option"
  rt_created_at :: int
  rt_expires_at :: int

record session_row =
  ss_hash :: string
  ss_account :: string
  ss_auth_time :: int
  ss_acr :: string
  ss_idle_expires :: int
  ss_absolute_expires :: int
  ss_revoked_at :: "int option"
  ss_created_at :: int

record consent_row =
  cn_id :: string
  cn_account :: string
  cn_client :: string
  cn_host :: string
  cn_scopes :: string
  cn_digest :: "string option"
  cn_granted_at :: int

record passkey_row =
  pk_id :: string
  pk_account :: string
  pk_public_key :: string
  pk_counter :: int
  pk_transports :: string
  pk_name :: string
  pk_created_at :: int
  pk_last_used :: "int option"

datatype purpose = P_register | P_authenticate

record challenge_row =
  ch_challenge :: string
  ch_purpose :: purpose
  ch_account :: "string option"
  ch_binding :: "string option"
  ch_expires_at :: int

record database =
  t_accounts :: "account_row list"
  t_devices :: "device_row list"
  t_idempotency :: "idempotency_row list"
  t_audit :: "audit_row list"
  t_clients :: "client_row list"
  t_cimd :: "cimd_row list"
  t_par :: "par_row list"
  t_pending :: "pending_row list"
  t_codes :: "code_row list"
  t_grants :: "grant_row list"
  t_access :: "access_row list"
  t_refresh :: "refresh_row list"
  t_sessions :: "session_row list"
  t_consents :: "consent_row list"
  t_passkeys :: "passkey_row list"
  t_challenges :: "challenge_row list"
  t_notified :: "string list"

definition empty_db :: database where
  "empty_db = \<lparr>t_accounts = [], t_devices = [], t_idempotency = [], t_audit = [], t_clients = [],
     t_cimd = [], t_par = [], t_pending = [], t_codes = [], t_grants = [], t_access = [],
     t_refresh = [], t_sessions = [], t_consents = [], t_passkeys = [], t_challenges = [],
     t_notified = []\<rparr>"

definition account_exists :: "string \<Rightarrow> database \<Rightarrow> bool" where
  "account_exists a db \<longleftrightarrow> a \<in> acc_id ` set (t_accounts db)"

definition grant_exists :: "string \<Rightarrow> database \<Rightarrow> bool" where
  "grant_exists g db \<longleftrightarrow> g \<in> gr_id ` set (t_grants db)"

lemma to_ms_mono: "s \<le> t \<Longrightarrow> to_ms s \<le> to_ms t"
  by (simp add: to_ms_def zdiv_mono1)

lemma secs_pos [simp]: "0 < secs n \<longleftrightarrow> 0 < n"
  by (simp add: secs_def)

lemma epoch_int_bounds: "0 \<le> d \<Longrightarrow> secs (epoch_int d) \<le> d + 500000 \<and> d < secs (epoch_int d) + 500000"
  by (simp add: epoch_int_def secs_def) linarith

end
