(* ===== verification/Devices.thy ===== *)
theory Devices
  imports Names Tokens Schema
begin

text \<open>
  \<open>server/src/domain/devices.ts\<close> and \<open>server/src/domain/audit.ts\<close>: listing, reading, adding and
  switching devices, with the audit trail. Every function takes the identity the transport verified.
  The transaction's clock \<open>now\<close>, the random identifier and the Unicode and SHA-256 primitives are
  arguments. A transaction holds the row locks the source takes, so it is one step; only the first
  idempotency lookup of \<open>addDevice\<close> runs before the lock, and reads an own snapshot.
\<close>

abbreviation max_devices_per_account :: nat where "max_devices_per_account \<equiv> 100"
abbreviation device_name_max :: nat where "device_name_max \<equiv> 64"
abbreviation int4_max :: int where "int4_max \<equiv> 2147483647"

abbreviation devices_endpoint :: string where "devices_endpoint \<equiv> ''POST /v1/devices''"

section \<open>Rows and the audit trail\<close>

definition to_device :: "device_row \<Rightarrow> device" where
  "to_device r =
     \<lparr>d_id = dev_id r, d_name = dev_name r, d_state = dev_state r, d_version = dev_version r,
      d_created_at = to_ms (dev_created_at r), d_updated_at = to_ms (dev_updated_at r)\<rparr>"

definition new_device_id :: "string \<Rightarrow> string" where
  "new_device_id rnd = ''dev_'' @ base64url rnd"

datatype audit_action = Device_create | Device_control

fun action_str :: "audit_action \<Rightarrow> string" where
  "action_str Device_create = ''device.create''"
| "action_str Device_control = ''device.control''"

record audit_event =
  ev_action :: audit_action
  ev_device :: "string option"
  ev_old :: "string option"
  ev_new :: "string option"
  ev_ok :: bool

definition audit_of :: "int \<Rightarrow> identity \<Rightarrow> audit_event \<Rightarrow> audit_row" where
  "audit_of now ident ev =
     \<lparr>au_actor = Some (id_account ident), au_device = ev_device ev,
      au_action = action_str (ev_action ev), au_old = ev_old ev, au_new = ev_new ev,
      au_outcome = (if ev_ok ev then ''ok'' else ''rejected''),
      au_channel = channel_str (id_channel ident), au_request = id_request ident,
      au_client = id_client ident, au_grant = id_grant ident, au_via = id_via ident,
      au_auth_method = id_auth_method ident, au_occurred_at = now\<rparr>"

definition record_audit :: "int \<Rightarrow> identity \<Rightarrow> audit_event \<Rightarrow> database \<Rightarrow> database" where
  "record_audit now ident ev db = db\<lparr>t_audit := t_audit db @ [audit_of now ident ev]\<rparr>"

section \<open>Reads\<close>

text \<open>The order of \<open>ORDER BY created_at ASC, id ASC\<close>, with identifiers compared by code unit.\<close>

datatype list_key = List_key (lk_created: int) (lk_id: string)

instantiation list_key :: linorder
begin

definition less_eq_list_key :: "list_key \<Rightarrow> list_key \<Rightarrow> bool" where
  "less_eq_list_key a b \<longleftrightarrow> lk_created a < lk_created b \<or> lk_created a = lk_created b \<and> lk_id a \<le> lk_id b"

definition less_list_key :: "list_key \<Rightarrow> list_key \<Rightarrow> bool" where
  "less_list_key a b \<longleftrightarrow> lk_created a < lk_created b \<or> lk_created a = lk_created b \<and> lk_id a < lk_id b"

instance
  by standard (auto simp: less_eq_list_key_def less_list_key_def list_key.expand)

end

definition list_key_of :: "device_row \<Rightarrow> list_key" where
  "list_key_of r = List_key (dev_created_at r) (dev_id r)"

definition list_devices :: "identity \<Rightarrow> database \<Rightarrow> device list" where
  "list_devices ident db =
     map to_device (sort_key list_key_of (filter (\<lambda>r. dev_owner r = id_account ident) (t_devices db)))"

definition owned_row :: "string \<Rightarrow> string \<Rightarrow> database \<Rightarrow> device_row option" where
  "owned_row device_id owner db =
     find (\<lambda>r. dev_id r = device_id \<and> dev_owner r = owner) (t_devices db)"

definition get_device :: "identity \<Rightarrow> string \<Rightarrow> database \<Rightarrow> error + device" where
  "get_device ident device_id db =
     (case owned_row device_id (id_account ident) db of
        None \<Rightarrow> Inl (app_err DEVICE_NOT_FOUND)
      | Some r \<Rightarrow> Inr (to_device r))"

section \<open>Create\<close>

record add_input =
  ad_name :: "string option"
  ad_key :: "string option"

definition fingerprint :: "(string \<Rightarrow> string) \<Rightarrow> string \<Rightarrow> string" where
  "fingerprint sha256 normalized = hex (sha256 normalized)"

text \<open>
  The join of \<open>idempotency_keys\<close> and \<open>devices\<close>: both sides are under their primary keys, so it has
  at most one row.
\<close>

definition find_by_idempotency_key ::
  "identity \<Rightarrow> string \<Rightarrow> string \<Rightarrow> database \<Rightarrow> error + device option" where
  "find_by_idempotency_key ident key expected db =
     (case find (\<lambda>k. ik_account k = id_account ident \<and> ik_endpoint k = devices_endpoint \<and> ik_key k = key)
             (t_idempotency db) of
        None \<Rightarrow> Inr None
      | Some k \<Rightarrow>
          (case find (\<lambda>r. dev_id r = ik_device k) (t_devices db) of
             None \<Rightarrow> Inr None
           | Some r \<Rightarrow>
               if ik_fingerprint k \<noteq> None \<and> ik_fingerprint k \<noteq> Some expected
               then Inl (app_err_field VALIDATION_FAILED
                      ''This Idempotency-Key was already used for a different device.'' ''name'')
               else Inr (Some (to_device r))))"

definition replay_of ::
  "(string \<Rightarrow> string) \<Rightarrow> identity \<Rightarrow> string option \<Rightarrow> string \<Rightarrow> database \<Rightarrow> error + device option" where
  "replay_of sha256 ident key norm db =
     (case truthy key of
        None \<Rightarrow> Inr None
      | Some k \<Rightarrow> find_by_idempotency_key ident k (fingerprint sha256 norm) db)"

definition device_count :: "string \<Rightarrow> database \<Rightarrow> nat" where
  "device_count owner db = length (filter (\<lambda>r. dev_owner r = owner) (t_devices db))"

definition name_taken :: "string \<Rightarrow> string \<Rightarrow> database \<Rightarrow> bool" where
  "name_taken owner norm db \<longleftrightarrow>
     list_ex (\<lambda>r. dev_owner r = owner \<and> dev_normalized r = norm) (t_devices db)"

definition new_device_row :: "int \<Rightarrow> string \<Rightarrow> string \<Rightarrow> string \<Rightarrow> string \<Rightarrow> device_row" where
  "new_device_row now new_id owner name norm =
     \<lparr>dev_id = new_id, dev_owner = owner, dev_name = name, dev_normalized = norm, dev_state = Off,
      dev_version = 1, dev_created_at = now, dev_updated_at = now\<rparr>"

text \<open>\<open>INSERT INTO idempotency_keys .. ON CONFLICT DO NOTHING\<close>.\<close>

definition remember_key :: "int \<Rightarrow> string \<Rightarrow> string option \<Rightarrow> string \<Rightarrow> string \<Rightarrow> database \<Rightarrow> database" where
  "remember_key now owner key device_id fp db =
     (case truthy key of
        None \<Rightarrow> db
      | Some k \<Rightarrow>
          if list_ex (\<lambda>r. ik_account r = owner \<and> ik_endpoint r = devices_endpoint \<and> ik_key r = k)
               (t_idempotency db) then db
          else db\<lparr>t_idempotency := t_idempotency db @
                 [\<lparr>ik_account = owner, ik_endpoint = devices_endpoint, ik_key = k, ik_device = device_id,
                   ik_fingerprint = Some fp, ik_created_at = now\<rparr>]\<rparr>)"

text \<open>
  The transaction of \<open>addDevice\<close>. \<open>snap\<close> is what the first idempotency lookup sees, before the owner's
  row is locked; \<open>db\<close> is the database once the lock is held.
\<close>

definition add_device_tx ::
  "(string \<Rightarrow> string) \<Rightarrow> int \<Rightarrow> string \<Rightarrow> identity \<Rightarrow> string \<Rightarrow> string \<Rightarrow> string option \<Rightarrow>
   database \<Rightarrow> database \<Rightarrow> error + device \<times> database" where
  "add_device_tx sha256 now new_id ident name norm key snap db =
     (let owner = id_account ident in
      case replay_of sha256 ident key norm snap of
        Inl e \<Rightarrow> Inl e
      | Inr (Some d) \<Rightarrow> Inr (d, db)
      | Inr None \<Rightarrow>
          if max_devices_per_account \<le> device_count owner db
          then Inl (app_err DEVICE_LIMIT_REACHED)
          else if name_taken owner norm db then
            (case replay_of sha256 ident key norm db of
               Inl e \<Rightarrow> Inl e
             | Inr (Some d) \<Rightarrow> Inr (d, db)
             | Inr None \<Rightarrow> Inl (app_err DEVICE_NAME_CONFLICT))
          else if new_id \<in> dev_id ` set (t_devices db) then Inl (DbError unique_violation)
          else if \<not> account_exists owner db then Inl (DbError foreign_key_violation)
          else
            (let row = new_device_row now new_id owner name norm;
                 db1 = db\<lparr>t_devices := t_devices db @ [row]\<rparr>;
                 db2 = remember_key now owner key new_id (fingerprint sha256 norm) db1;
                 db3 = record_audit now ident
                         \<lparr>ev_action = Device_create, ev_device = Some new_id, ev_old = None,
                          ev_new = Some (state_str (dev_state row)), ev_ok = True\<rparr> db2
             in Inr (to_device row, db3)))"

definition add_device_at ::
  "(string \<Rightarrow> string) \<Rightarrow> (string \<Rightarrow> string) \<Rightarrow> int \<Rightarrow> string \<Rightarrow> identity \<Rightarrow> add_input \<Rightarrow>
   database \<Rightarrow> database \<Rightarrow> (error + device) \<times> database" where
  "add_device_at nfkc sha256 now new_id ident inp snap db =
     (let name = display_device_name (case ad_name inp of None \<Rightarrow> [] | Some n \<Rightarrow> n) in
      if length name = 0
      then (Inl (app_err_field VALIDATION_FAILED ''Device name is required.'' ''name''), db)
      else if device_name_max < length name
      then (Inl (app_err_field VALIDATION_FAILED ''Device name must be 64 characters or fewer.'' ''name''), db)
      else run_tx (add_device_tx sha256 now new_id ident name (normalize_device_name nfkc name) (ad_key inp) snap) db)"

text \<open>Without a concurrent transaction both lookups see the same database.\<close>

definition add_device ::
  "(string \<Rightarrow> string) \<Rightarrow> (string \<Rightarrow> string) \<Rightarrow> int \<Rightarrow> string \<Rightarrow> identity \<Rightarrow> add_input \<Rightarrow>
   database \<Rightarrow> (error + device) \<times> database" where
  "add_device nfkc sha256 now new_id ident inp db = add_device_at nfkc sha256 now new_id ident inp db db"

section \<open>Control\<close>

record control_input =
  ci_device :: string
  ci_state :: jsval
  ci_expected :: jsval

definition parse_state :: "jsval \<Rightarrow> device_state option" where
  "parse_state v =
     (if v = JStr ''on'' then Some On else if v = JStr ''off'' then Some Off else None)"

fun positive_integer :: "jsval \<Rightarrow> int option" where
  "positive_integer (JInt n) = (if n < 1 then None else Some n)"
| "positive_integer _ = None"

datatype control_outcome =
    Ok_device device
  | Not_found
  | Version_conflict device_state

definition control_match :: "string \<Rightarrow> string \<Rightarrow> int \<Rightarrow> device_state \<Rightarrow> device_row \<Rightarrow> bool" where
  "control_match device_id owner expected st r \<longleftrightarrow>
     dev_id r = device_id \<and> dev_owner r = owner \<and> dev_version r = expected \<and> dev_state r \<noteq> st"

definition control_set :: "int \<Rightarrow> device_state \<Rightarrow> device_row \<Rightarrow> device_row" where
  "control_set now st r = r\<lparr>dev_state := st, dev_version := dev_version r + 1, dev_updated_at := now\<rparr>"

text \<open>
  The transaction of \<open>controlDevice\<close>: the conditional update, and the read that tells a miss apart. The
  version column is a four-byte integer, so a parameter or a new version beyond it is an error of
  the database.
\<close>

definition control_device_tx ::
  "int \<Rightarrow> identity \<Rightarrow> string \<Rightarrow> device_state \<Rightarrow> int \<Rightarrow> database \<Rightarrow> error + control_outcome \<times> database" where
  "control_device_tx now ident device_id st expected db =
     (let owner = id_account ident; P = control_match device_id owner expected st in
      if int4_max < expected then Inl (DbError numeric_out_of_range)
      else (case find P (t_devices db) of
        Some r \<Rightarrow>
          if int4_max < dev_version r + 1 then Inl (DbError numeric_out_of_range)
          else
            (let row = control_set now st r;
                 db1 = db\<lparr>t_devices := update_where P (control_set now st) (t_devices db)\<rparr>;
                 db2 = record_audit now ident
                         \<lparr>ev_action = Device_control, ev_device = Some (dev_id row),
                          ev_old = Some (if st = On then ''off'' else ''on''),
                          ev_new = Some (state_str (dev_state row)), ev_ok = True\<rparr> db1
             in Inr (Ok_device (to_device row), db2))
      | None \<Rightarrow>
          (case owned_row device_id owner db of
             None \<Rightarrow> Inr (Not_found, db)
           | Some cur \<Rightarrow>
               if dev_version cur \<noteq> expected then Inr (Version_conflict (dev_state cur), db)
               else Inr (Ok_device (to_device cur), db))))"

definition control_device ::
  "int \<Rightarrow> identity \<Rightarrow> control_input \<Rightarrow> database \<Rightarrow> (error + device) \<times> database" where
  "control_device now ident inp db =
     (case parse_state (ci_state inp) of
        None \<Rightarrow> (Inl (app_err INVALID_STATE), db)
      | Some st \<Rightarrow>
          (case positive_integer (ci_expected inp) of
             None \<Rightarrow> (Inl (app_err_field VALIDATION_FAILED
                        ''expectedVersion must be a positive integer.'' ''expectedVersion''), db)
           | Some expected \<Rightarrow>
               (case run_tx (control_device_tx now ident (ci_device inp) st expected) db of
                  (Inl e, db') \<Rightarrow> (Inl e, db')
                | (Inr (Ok_device d), db') \<Rightarrow> (Inr d, db')
                | (Inr Not_found, db') \<Rightarrow> (Inl (app_err DEVICE_NOT_FOUND), db')
                | (Inr (Version_conflict cur), db') \<Rightarrow>
                    (Inl (app_err DEVICE_VERSION_CONFLICT),
                     record_audit now ident
                       \<lparr>ev_action = Device_control, ev_device = Some (ci_device inp),
                        ev_old = Some (state_str cur), ev_new = Some (state_str st), ev_ok = False\<rparr> db'))))"

section \<open>Sequences of operations\<close>

datatype dev_op =
    Op_add int string identity add_input
  | Op_control int identity control_input

fun exec_op ::
  "(string \<Rightarrow> string) \<Rightarrow> (string \<Rightarrow> string) \<Rightarrow> dev_op \<Rightarrow> database \<Rightarrow> (error + device) \<times> database" where
  "exec_op nfkc sha256 (Op_add now new_id ident inp) db = add_device nfkc sha256 now new_id ident inp db"
| "exec_op nfkc sha256 (Op_control now ident inp) db = control_device now ident inp db"

fun run_ops ::
  "(string \<Rightarrow> string) \<Rightarrow> (string \<Rightarrow> string) \<Rightarrow> dev_op list \<Rightarrow> database \<Rightarrow> (dev_op \<times> (error + device)) list \<times> database" where
  "run_ops nfkc sha256 [] db = ([], db)"
| "run_ops nfkc sha256 (x # xs) db =
     (let (r, db1) = exec_op nfkc sha256 x db; (rs, db2) = run_ops nfkc sha256 xs db1
      in ((x, r) # rs, db2))"

end
