(* ===== verification/Device_Rules.thy ===== *)
theory Device_Rules
  imports Devices
begin

text \<open>
  What the device operations guarantee: the schema invariant with the audit trail, ownership,
  idempotent creation, optimistic concurrency, and the refinement to an abstract registry.
\<close>

section \<open>Elimination rules\<close>

text \<open>
  Every outcome of the two writing operations. \<open>created\<close> and \<open>switched\<close> give the new database as one
  equation, from which the frame of every other table follows.
\<close>

lemma add_device_at_cases:
  assumes "add_device_at nfkc sha256 now nid ident inp snap db = (res, db')"
  obtains (unchanged) "db' = db"
  | (created) name norm row where
      "name = display_device_name (case ad_name inp of None \<Rightarrow> [] | Some n \<Rightarrow> n)"
      "name \<noteq> []" "length name \<le> device_name_max" "norm = normalize_device_name nfkc name"
      "replay_of sha256 ident (ad_key inp) norm snap = Inr None"
      "device_count (id_account ident) db < max_devices_per_account"
      "\<not> name_taken (id_account ident) norm db" "nid \<notin> dev_id ` set (t_devices db)"
      "account_exists (id_account ident) db" "row = new_device_row now nid (id_account ident) name norm"
      "res = Inr (to_device row)"
      "db' = record_audit now ident \<lparr>ev_action = Device_create, ev_device = Some nid, ev_old = None,
                ev_new = Some ''off'', ev_ok = True\<rparr>
              (remember_key now (id_account ident) (ad_key inp) nid (fingerprint sha256 norm)
                 (db\<lparr>t_devices := t_devices db @ [row]\<rparr>))"
proof -
  let ?name = "display_device_name (case ad_name inp of None \<Rightarrow> [] | Some n \<Rightarrow> n)"
  let ?norm = "normalize_device_name nfkc ?name"
  show ?thesis
  proof (cases "?name = [] \<or> device_name_max < length ?name \<or> db' = db")
    case True
    with assms have "db' = db"
      by (auto simp: add_device_at_def Let_def split: if_splits)
    then show ?thesis by (rule unchanged)
  next
    case False
    with assms have tx: "run_tx (add_device_tx sha256 now nid ident ?name ?norm (ad_key inp) snap) db = (res, db')"
      by (auto simp: add_device_at_def Let_def)
    with False obtain d where res: "res = Inr d"
      and "add_device_tx sha256 now nid ident ?name ?norm (ad_key inp) snap db = Inr (d, db')"
      by (cases res) (auto simp: run_tx_Inl run_tx_Inr)
    then show ?thesis using False
      by (intro created [of ?name ?norm "new_device_row now nid (id_account ident) ?name ?norm"])
        (auto simp: add_device_tx_def Let_def new_device_row_def not_le
              split: sum.splits option.splits if_splits)
  qed
qed

lemma control_device_cases:
  assumes "control_device now ident inp db = (res, db')"
  obtains (unchanged) "db' = db" "\<forall>d. res = Inr d \<longrightarrow>
        (\<exists>r. owned_row (ci_device inp) (id_account ident) db = Some r \<and> d = to_device r
             \<and> positive_integer (ci_expected inp) = Some (dev_version r)
             \<and> parse_state (ci_state inp) = Some (dev_state r))"
  | (rejected) st r where
      "parse_state (ci_state inp) = Some st"
      "owned_row (ci_device inp) (id_account ident) db = Some r"
      "positive_integer (ci_expected inp) \<noteq> Some (dev_version r)"
      "res = Inl (app_err DEVICE_VERSION_CONFLICT)"
      "db' = record_audit now ident \<lparr>ev_action = Device_control, ev_device = Some (ci_device inp),
              ev_old = Some (state_str (dev_state r)), ev_new = Some (state_str st), ev_ok = False\<rparr> db"
  | (switched) st r where
      "parse_state (ci_state inp) = Some st"
      "positive_integer (ci_expected inp) = Some (dev_version r)"
      "find (control_match (ci_device inp) (id_account ident) (dev_version r) st) (t_devices db) = Some r"
      "dev_version r + 1 \<le> int4_max" "dev_state r = other_state st"
      "res = Inr (to_device (control_set now st r))"
      "db' = record_audit now ident \<lparr>ev_action = Device_control, ev_device = Some (dev_id r),
              ev_old = Some (state_str (dev_state r)), ev_new = Some (state_str st), ev_ok = True\<rparr>
              (db\<lparr>t_devices := update_where
                 (control_match (ci_device inp) (id_account ident) (dev_version r) st)
                 (control_set now st) (t_devices db)\<rparr>)"
proof (cases "parse_state (ci_state inp)")
  case None
  with assms show ?thesis by (intro unchanged) (auto simp: control_device_def)
next
  case st: (Some st)
  show ?thesis
  proof (cases "positive_integer (ci_expected inp)")
    case None
    with assms st show ?thesis by (intro unchanged) (auto simp: control_device_def)
  next
    case ex: (Some expected)
    let ?P = "control_match (ci_device inp) (id_account ident) expected st"
    consider (range) "int4_max < expected"
      | (hit) r where "expected \<le> int4_max" "find ?P (t_devices db) = Some r"
      | (miss) "expected \<le> int4_max" "find ?P (t_devices db) = None"
      by (cases "find ?P (t_devices db)") force+
    then show ?thesis
    proof cases
      case range
      with assms st ex show ?thesis
        by (intro unchanged)
          (auto simp: control_device_def control_device_tx_def Let_def run_tx_def)
    next
      case (hit r)
      then have r: "dev_version r = expected" "dev_state r \<noteq> st"
        by (auto dest!: find_SomeD simp: control_match_def)
      then have o: "dev_state r = other_state st" by (cases st; cases "dev_state r") auto
      show ?thesis
      proof (cases "int4_max < dev_version r + 1")
        case True
        with assms st ex hit show ?thesis
          by (intro unchanged)
            (auto simp: control_device_def control_device_tx_def Let_def run_tx_def)
      next
        case False
        with assms st ex hit r o show ?thesis
          by (intro switched [of st r])
            (cases st; force simp: control_device_def control_device_tx_def Let_def run_tx_def control_set_def)+
      qed
    next
      case miss
      show ?thesis
      proof (cases "owned_row (ci_device inp) (id_account ident) db")
        case None
        with assms st ex miss show ?thesis
          by (intro unchanged)
            (auto simp: control_device_def control_device_tx_def Let_def run_tx_def)
      next
        case (Some r)
        show ?thesis
        proof (cases "dev_version r = expected")
          case True
          from Some miss True have "dev_state r = st"
            by (auto simp: owned_row_def control_match_def find_None_iff dest!: find_SomeD)
          with assms st ex miss Some True show ?thesis
            by (intro unchanged)
              (auto simp: control_device_def control_device_tx_def Let_def run_tx_def)
        next
          case False
          with assms st ex miss Some show ?thesis
            by (intro rejected [of st r])
              (auto simp: control_device_def control_device_tx_def Let_def run_tx_def)
        qed
      qed
    qed
  qed
qed

lemma remember_key_frame [simp]:
  "t_devices (remember_key now o' k i fp db) = t_devices db"
  "t_audit (remember_key now o' k i fp db) = t_audit db"
  "t_accounts (remember_key now o' k i fp db) = t_accounts db"
  by (auto simp: remember_key_def split: option.splits)

lemma record_audit_frame [simp]:
  "t_devices (record_audit now i ev db) = t_devices db"
  "t_idempotency (record_audit now i ev db) = t_idempotency db"
  "t_accounts (record_audit now i ev db) = t_accounts db"
  "t_audit (record_audit now i ev db) = t_audit db @ [audit_of now i ev]"
  by (simp_all add: record_audit_def)

lemma account_exists_record_audit [simp]:
  "account_exists a (record_audit now i ev db) = account_exists a db"
  by (simp add: account_exists_def)

lemma account_exists_remember_key [simp]:
  "account_exists a (remember_key now o' k i fp db) = account_exists a db"
  by (simp add: account_exists_def)

section \<open>The invariant\<close>

definition device_row_ok :: "(string \<Rightarrow> string) \<Rightarrow> database \<Rightarrow> device_row \<Rightarrow> bool" where
  "device_row_ok nfkc db r \<longleftrightarrow>
     1 \<le> dev_version r \<and> dev_version r \<le> int4_max \<and> account_exists (dev_owner r) db
     \<and> dev_name r \<noteq> [] \<and> length (dev_name r) \<le> device_name_max \<and> tidy (dev_name r)
     \<and> dev_normalized r = normalize_device_name nfkc (dev_name r)"

definition owner_name :: "device_row \<Rightarrow> string \<times> string" where
  "owner_name r = (dev_owner r, dev_normalized r)"

definition wf_devices :: "(string \<Rightarrow> string) \<Rightarrow> database \<Rightarrow> bool" where
  "wf_devices nfkc db \<longleftrightarrow>
     distinct (map dev_id (t_devices db)) \<and> distinct (map owner_name (t_devices db))
     \<and> (\<forall>r \<in> set (t_devices db). device_row_ok nfkc db r)
     \<and> (\<forall>owner. device_count owner db \<le> max_devices_per_account)"

text \<open>The accepted events of one device, oldest first, and what they say of it.\<close>

definition ok_events :: "string \<Rightarrow> database \<Rightarrow> audit_row list" where
  "ok_events i db = filter (\<lambda>e. au_device e = Some i \<and> au_outcome e = ''ok'') (t_audit db)"

definition audited :: "database \<Rightarrow> device_row \<Rightarrow> bool" where
  "audited db r \<longleftrightarrow>
     int (length (ok_events (dev_id r) db)) = dev_version r
     \<and> au_new (last (ok_events (dev_id r) db)) = Some (state_str (dev_state r))
     \<and> au_action (hd (ok_events (dev_id r) db)) = ''device.create''
     \<and> (dev_state r = On \<longleftrightarrow> even (dev_version r))"

definition wf_audit :: "database \<Rightarrow> bool" where
  "wf_audit db \<longleftrightarrow>
     (\<forall>r \<in> set (t_devices db). audited db r)
     \<and> (\<forall>e \<in> set (t_audit db). \<forall>i. au_device e = Some i \<longrightarrow> i \<in> dev_id ` set (t_devices db))"

definition ik_pk :: "idempotency_row \<Rightarrow> string \<times> string \<times> string" where
  "ik_pk k = (ik_account k, ik_endpoint k, ik_key k)"

definition wf_idempotency :: "database \<Rightarrow> bool" where
  "wf_idempotency db \<longleftrightarrow> distinct (map ik_pk (t_idempotency db))
     \<and> (\<forall>k \<in> set (t_idempotency db). \<exists>r \<in> set (t_devices db).
          dev_id r = ik_device k \<and> dev_owner r = ik_account k)"

definition device_inv :: "(string \<Rightarrow> string) \<Rightarrow> database \<Rightarrow> bool" where
  "device_inv nfkc db \<longleftrightarrow> wf_devices nfkc db \<and> wf_audit db \<and> wf_idempotency db"

lemma control_set_simps [simp]:
  "dev_id (control_set now st r) = dev_id r" "dev_owner (control_set now st r) = dev_owner r"
  "dev_name (control_set now st r) = dev_name r"
  "dev_normalized (control_set now st r) = dev_normalized r"
  "dev_state (control_set now st r) = st" "dev_version (control_set now st r) = dev_version r + 1"
  "dev_created_at (control_set now st r) = dev_created_at r"
  "dev_updated_at (control_set now st r) = now"
  by (simp_all add: control_set_def)

lemma new_device_row_simps [simp]:
  "dev_id (new_device_row now i w n m) = i" "dev_owner (new_device_row now i w n m) = w"
  "dev_name (new_device_row now i w n m) = n" "dev_normalized (new_device_row now i w n m) = m"
  "dev_state (new_device_row now i w n m) = Off" "dev_version (new_device_row now i w n m) = 1"
  "dev_created_at (new_device_row now i w n m) = now"
  "dev_updated_at (new_device_row now i w n m) = now"
  by (simp_all add: new_device_row_def)

lemma wf_devices_created:
  assumes "wf_devices nfkc db" "nid \<notin> dev_id ` set (t_devices db)" "\<not> name_taken w norm db"
    "device_count w db < max_devices_per_account" "account_exists w db"
    "name \<noteq> []" "length name \<le> device_name_max" "name = display_device_name raw"
    "norm = normalize_device_name nfkc name"
    "t_devices db' = t_devices db @ [new_device_row now nid w name norm]"
    "t_accounts db' = t_accounts db"
  shows "wf_devices nfkc db'"
proof -
  have "tidy name" using assms(8) by (simp add: display_device_name_def tidy_collapse_whitespace)
  moreover have "owner_name (new_device_row now nid w name norm) \<notin> owner_name ` set (t_devices db)"
    using assms(3) by (auto simp: owner_name_def name_taken_def list_ex_iff)
  ultimately show ?thesis
    using assms(1,2,4,5,6,7,9,10,11)
    by (auto simp: wf_devices_def device_row_ok_def account_exists_def device_count_def)
qed

lemma set_switched:
  assumes "distinct (map dev_id (t_devices db))"
    "find (control_match i w v st) (t_devices db) = Some r"
  shows "set (update_where (control_match i w v st) (control_set now st) (t_devices db))
           = insert (control_set now st r) (set (t_devices db) - {r})"
proof -
  have r: "r \<in> set (t_devices db)" "control_match i w v st r" using find_SomeD [OF assms(2)] by auto
  then have "q = r" if "q \<in> set (t_devices db)" "control_match i w v st q" for q
    using that by (intro distinct_key_eq [OF assms(1)]) (auto simp: control_match_def)
  then have "{q \<in> set (t_devices db). control_match i w v st q} = {r}" using r by blast
  moreover have "{q \<in> set (t_devices db). \<not> control_match i w v st q}
      = set (t_devices db) - {q \<in> set (t_devices db). control_match i w v st q}" by blast
  ultimately show ?thesis unfolding set_update_where by simp
qed

lemma wf_devices_switched:
  assumes "wf_devices nfkc db" "find (control_match i w v st) (t_devices db) = Some r"
    "dev_version r + 1 \<le> int4_max"
    "t_devices db' = update_where (control_match i w v st) (control_set now st) (t_devices db)"
    "t_accounts db' = t_accounts db"
  shows "wf_devices nfkc db'"
proof -
  have d: "distinct (map dev_id (t_devices db))" using assms(1) by (simp add: wf_devices_def)
  have r: "r \<in> set (t_devices db)" using find_SomeD [OF assms(2)] by simp
  have "device_row_ok nfkc db' q" if "q \<in> set (t_devices db')" for q
    using that r assms(1,3,5) unfolding assms(4) set_switched [OF d assms(2)]
    by (auto simp: wf_devices_def device_row_ok_def account_exists_def)
  moreover have "device_count o' db' = device_count o' db" for o'
    unfolding device_count_def assms(4) by (simp add: filter_update_where)
  moreover have "map dev_id (t_devices db') = map dev_id (t_devices db)"
    "map owner_name (t_devices db') = map owner_name (t_devices db)"
    unfolding assms(4) by (simp_all add: map_update_where owner_name_def)
  ultimately show ?thesis using assms(1) by (simp add: wf_devices_def)
qed

lemma audit_of_simps [simp]:
  "au_device (audit_of now i ev) = ev_device ev" "au_new (audit_of now i ev) = ev_new ev"
  "au_old (audit_of now i ev) = ev_old ev" "au_action (audit_of now i ev) = action_str (ev_action ev)"
  "au_outcome (audit_of now i ev) = ''ok'' \<longleftrightarrow> ev_ok ev"
  "au_actor (audit_of now i ev) = Some (id_account i)"
  by (simp_all add: audit_of_def)

lemma ok_events_snoc:
  assumes "t_audit db' = t_audit db @ [audit_of now i ev]"
  shows "ok_events x db' = ok_events x db @ (if ev_device ev = Some x \<and> ev_ok ev then [audit_of now i ev] else [])"
  using assms by (simp add: ok_events_def)

lemma ok_events_fresh:
  "wf_audit db \<Longrightarrow> x \<notin> dev_id ` set (t_devices db) \<Longrightarrow> ok_events x db = []"
  by (auto simp: ok_events_def wf_audit_def filter_empty_conv)

lemma wf_audit_created:
  assumes "wf_audit db" "nid \<notin> dev_id ` set (t_devices db)"
    "t_devices db' = t_devices db @ [new_device_row now nid w n m]"
    "t_audit db' = t_audit db @ [audit_of now ident \<lparr>ev_action = Device_create, ev_device = Some nid,
        ev_old = None, ev_new = Some ''off'', ev_ok = True\<rparr>]"
  shows "wf_audit db'"
  using assms ok_events_fresh [OF assms(1,2)]
  by (auto simp: wf_audit_def audited_def ok_events_snoc [OF assms(4)])

lemma wf_audit_rejected:
  assumes "wf_audit db" "x \<in> dev_id ` set (t_devices db)" "t_devices db' = t_devices db"
    "t_audit db' = t_audit db @ [audit_of now ident ev]" "ev_device ev = Some x" "\<not> ev_ok ev"
  shows "wf_audit db'"
  using assms by (auto simp: wf_audit_def audited_def ok_events_snoc [OF assms(4)])

lemma wf_audit_switched:
  assumes "wf_audit db" "distinct (map dev_id (t_devices db))"
    "find (control_match i w v st) (t_devices db) = Some r" "dev_state r = other_state st"
    "1 \<le> dev_version r"
    "t_devices db' = update_where (control_match i w v st) (control_set now st) (t_devices db)"
    "t_audit db' = t_audit db @ [audit_of now ident \<lparr>ev_action = Device_control,
        ev_device = Some (dev_id r), ev_old = Some (state_str (dev_state r)),
        ev_new = Some (state_str st), ev_ok = True\<rparr>]"
  shows "wf_audit db'"
proof -
  have r: "r \<in> set (t_devices db)" using find_SomeD [OF assms(3)] by simp
  with assms(1) have ar: "audited db r"
    by (auto simp: wf_audit_def audited_def)
  from r have ids: "dev_id ` set (t_devices db') = dev_id ` set (t_devices db)"
    unfolding assms(6) set_switched [OF assms(2,3)] by force
  have "audited db' q" if "q \<in> set (t_devices db')" for q
  proof (cases "q = control_set now st r")
    case True
    have "ok_events (dev_id r) db \<noteq> []"
      using ar assms(5) by (auto simp: audited_def)
    with True ar assms(4) show ?thesis
      by (cases st) (auto simp: audited_def ok_events_snoc [OF assms(7)])
  next
    case False
    with that have q: "q \<in> set (t_devices db)" "q \<noteq> r"
      unfolding assms(6) set_switched [OF assms(2,3)] by auto
    then have "dev_id q \<noteq> dev_id r" using distinct_key_eq [OF assms(2)] r by blast
    with q assms(1) show ?thesis
      by (auto simp: wf_audit_def audited_def ok_events_snoc [OF assms(7)])
  qed
  with assms(1) r ids show ?thesis
    unfolding wf_audit_def assms(7) by (auto simp: image_iff)
qed

lemma wf_idempotency_created:
  assumes "wf_idempotency db" "t_devices db' = t_devices db @ [new_device_row now nid w n m]"
    "t_idempotency db' = t_idempotency (remember_key now w k nid fp db)"
  shows "wf_idempotency db'"
  using assms
  by (auto simp: wf_idempotency_def remember_key_def ik_pk_def list_ex_iff split: option.splits)

lemma wf_idempotency_switched:
  assumes "wf_idempotency db"
    "t_devices db' = update_where P (control_set now st) (t_devices db)"
    "t_idempotency db' = t_idempotency db"
  shows "wf_idempotency db'"
proof -
  have "\<exists>q \<in> set (t_devices db'). dev_id q = dev_id r \<and> dev_owner q = dev_owner r"
    if "r \<in> set (t_devices db)" for r
  proof (cases "P r")
    case True
    with that have "control_set now st r \<in> set (t_devices db')"
      unfolding assms(2) set_update_where by blast
    then show ?thesis by (rule rev_bexI) simp
  next
    case False
    with that have "r \<in> set (t_devices db')"
      unfolding assms(2) set_update_where by blast
    then show ?thesis by blast
  qed
  with assms(1,3) show ?thesis unfolding wf_idempotency_def by metis
qed

lemma remember_key_idem_cong:
  "t_idempotency (remember_key now w k i fp (db\<lparr>t_devices := ds\<rparr>)) = t_idempotency (remember_key now w k i fp db)"
  by (auto simp: remember_key_def split: option.splits)

lemma device_inv_frame:
  assumes "device_inv nfkc db" "t_devices db' = t_devices db" "t_audit db' = t_audit db"
    "t_idempotency db' = t_idempotency db" "t_accounts db' = t_accounts db"
  shows "device_inv nfkc db'"
  using assms
  by (simp add: device_inv_def wf_devices_def wf_audit_def wf_idempotency_def device_row_ok_def
      account_exists_def device_count_def audited_def ok_events_def)

lemma add_device_at_inv:
  assumes "device_inv nfkc db" "add_device_at nfkc sha256 now nid ident inp snap db = (res, db')"
  shows "device_inv nfkc db'"
  using assms(2)
proof (cases rule: add_device_at_cases)
  case unchanged
  with assms(1) show ?thesis by simp
next
  case (created name norm row)
  from assms(1) have wf: "wf_devices nfkc db" "wf_audit db" "wf_idempotency db"
    by (simp_all add: device_inv_def)
  have "wf_devices nfkc db'"
    using wf(1) created by (intro wf_devices_created [OF wf(1), of nid "id_account ident" norm name]) auto
  moreover have "wf_audit db'"
    using created by (intro wf_audit_created [OF wf(2)]) auto
  moreover have "wf_idempotency db'"
    using created by (intro wf_idempotency_created [OF wf(3)]) (auto simp: remember_key_idem_cong)
  ultimately show ?thesis by (simp add: device_inv_def)
qed

lemma control_device_inv:
  assumes "device_inv nfkc db" "control_device now ident inp db = (res, db')"
  shows "device_inv nfkc db'"
  using assms(2)
proof (cases rule: control_device_cases)
  case unchanged
  with assms(1) show ?thesis by simp
next
  case (rejected st r)
  from assms(1) have wf: "wf_devices nfkc db" "wf_audit db" "wf_idempotency db"
    by (simp_all add: device_inv_def)
  from rejected(2) have "ci_device inp \<in> dev_id ` set (t_devices db)"
    by (force simp: owned_row_def dest!: find_SomeD)
  then have "wf_audit db'"
    using rejected by (intro wf_audit_rejected [OF wf(2)]) auto
  with wf rejected show ?thesis
    by (simp add: device_inv_def wf_devices_def wf_idempotency_def device_row_ok_def device_count_def)
next
  case (switched st r)
  from assms(1) have wf: "wf_devices nfkc db" "wf_audit db" "wf_idempotency db"
    by (simp_all add: device_inv_def)
  have "wf_devices nfkc db'"
    using switched by (intro wf_devices_switched [OF wf(1)]) auto
  moreover have "1 \<le> dev_version r"
    using wf(1) find_SomeD [OF switched(3)] by (auto simp: wf_devices_def device_row_ok_def)
  then have "wf_audit db'"
    using switched wf(1) by (intro wf_audit_switched [OF wf(2) _ switched(3)]) (simp_all add: wf_devices_def)
  moreover have "wf_idempotency db'"
    using switched by (intro wf_idempotency_switched [OF wf(3)]) auto
  moreover have "wf_devices nfkc db'"
    using switched by (intro wf_devices_switched [OF wf(1)]) auto
  ultimately show ?thesis by (simp add: device_inv_def)
qed

lemma exec_op_inv:
  "device_inv nfkc db \<Longrightarrow> exec_op nfkc sha256 x db = (res, db') \<Longrightarrow> device_inv nfkc db'"
  by (cases x) (auto simp: add_device_def intro: add_device_at_inv control_device_inv)

lemma run_ops_inv:
  "device_inv nfkc db \<Longrightarrow> run_ops nfkc sha256 xs db = (rs, db') \<Longrightarrow> device_inv nfkc db'"
proof (induction xs arbitrary: db rs)
  case (Cons x xs)
  then show ?case by (auto simp: Let_def split: prod.splits dest: exec_op_inv)
qed simp

end
