(* ===== verification/Device_Theorems.thy ===== *)
theory Device_Theorems
  imports Device_Rules
begin

text \<open>
  The properties of the device component, each over the model's own operations, with a witness on a
  small database. \<open>demo_db\<close> has two accounts and no device.
\<close>

section \<open>A small database\<close>

definition demo_account :: "string \<Rightarrow> account_row" where
  "demo_account i = \<lparr>acc_id = i, acc_username = i, acc_normalized = i, acc_password_hash = [],
     acc_pepper_version = 1, acc_created_at = 0\<rparr>"

definition demo_db :: database where
  "demo_db = empty_db\<lparr>t_accounts := [demo_account ''ann'', demo_account ''bob'']\<rparr>"

definition demo_identity :: "string \<Rightarrow> identity" where
  "demo_identity a = \<lparr>id_account = a, id_channel = Ch_native, id_request = None, id_client = None,
     id_grant = None, id_via = None, id_auth_method = None\<rparr>"

definition demo_add :: "string \<Rightarrow> string option \<Rightarrow> add_input" where
  "demo_add n k = \<lparr>ad_name = Some n, ad_key = k\<rparr>"

definition demo_control :: "string \<Rightarrow> string \<Rightarrow> int \<Rightarrow> control_input" where
  "demo_control i s v = \<lparr>ci_device = i, ci_state = JStr s, ci_expected = JInt v\<rparr>"

definition demo_one :: database where
  "demo_one = snd (add_device (\<lambda>s. s) (\<lambda>s. s) 5 ''dev_1'' (demo_identity ''ann'') (demo_add '' Lamp '' (Some ''k'')) demo_db)"

lemma lower_code [simp]:
  "lower_char (CHR ''L'') = CHR ''l''" "lower_char (CHR ''a'') = CHR ''a''"
  "lower_char (CHR ''m'') = CHR ''m''" "lower_char (CHR ''p'') = CHR ''p''"
  by code_simp+

lemma demo_name: "display_device_name '' Lamp '' = ''Lamp''"
  by (simp add: display_device_name_def collapse_whitespace_def trim_def is_ws_def)

lemma demo_norm: "normalize_device_name (\<lambda>s. s) ''Lamp'' = ''lamp''"
  by (simp add: normalize_device_name_def collapse_whitespace_def trim_def is_ws_def to_lower_def)

lemma nfkc_ascii_id: "nfkc_ascii (\<lambda>s. s)"
  by (simp add: nfkc_ascii_def)

lemmas demo_defs = demo_db_def empty_db_def demo_account_def demo_identity_def demo_add_def
  demo_control_def

lemma demo_add_eval:
  "add_device (\<lambda>s. s) (\<lambda>s. s) 5 ''dev_1'' (demo_identity ''ann'') (demo_add '' Lamp '' (Some ''k'')) demo_db
   = (Inr (to_device (new_device_row 5 ''dev_1'' ''ann'' ''Lamp'' ''lamp'')), demo_one)"
  by (simp add: demo_one_def add_device_def add_device_at_def add_device_tx_def demo_defs demo_name
      demo_norm replay_of_def find_by_idempotency_key_def device_count_def name_taken_def
      account_exists_def run_tx_def Let_def)

lemma demo_one_devices: "t_devices demo_one = [new_device_row 5 ''dev_1'' ''ann'' ''Lamp'' ''lamp'']"
  by (simp add: demo_one_def add_device_def add_device_at_def add_device_tx_def demo_defs demo_name
      demo_norm replay_of_def find_by_idempotency_key_def device_count_def name_taken_def
      account_exists_def run_tx_def Let_def)

lemma demo_db_inv: "device_inv nfkc demo_db"
  by (simp add: device_inv_def wf_devices_def wf_audit_def wf_idempotency_def device_count_def demo_defs)

lemma demo_one_inv: "device_inv (\<lambda>s. s) demo_one"
  using add_device_at_inv [OF demo_db_inv demo_add_eval [unfolded add_device_def]] .

section \<open>Invariant and audit trail\<close>

text \<open>C1. From an empty device store, whatever sequence of creates and controls is run, by whatever accounts, the
  store keeps its rules: identifiers are unique, no account has two devices whose folded names agree, no account
  has more than 100 devices, every device belongs to an account, has a tidy name of 1 to 64 characters and a
  version between 1 and the largest four-byte integer.\<close>

theorem device_rules_hold:
  assumes "t_devices db = []" "t_audit db = []" "t_idempotency db = []"
    and "run_ops nfkc sha256 xs db = (rs, db')"
  shows "wf_devices nfkc db'"
proof -
  have "device_inv nfkc db"
    using assms(1-3)
    by (simp add: device_inv_def wf_devices_def wf_audit_def wf_idempotency_def device_count_def)
  then have "device_inv nfkc db'" using assms(4) by (rule run_ops_inv)
  then show ?thesis by (simp add: device_inv_def)
qed

theorem device_rules_hold_witness:
  "t_devices demo_db = [] \<and> wf_devices (\<lambda>s. s)
     (snd (run_ops (\<lambda>s. s) (\<lambda>s. s) [Op_add 5 ''dev_1'' (demo_identity ''ann'') (demo_add '' Lamp '' (Some ''k''))] demo_db))"
  using device_rules_hold [of demo_db "\<lambda>s. s" "\<lambda>s. s"
      "[Op_add 5 ''dev_1'' (demo_identity ''ann'') (demo_add '' Lamp '' (Some ''k''))]"]
  by (simp add: demo_db_def empty_db_def split: prod.splits)

text \<open>C9. The audit trail accounts for every device: after any sequence of operations the accepted events of a device
  are its creation followed by one event for every version after the first, the last of them records the state the
  device is in, and a device is on exactly when its version is even.\<close>

theorem audit_accounts_for_devices:
  assumes "t_devices db = []" "t_audit db = []" "t_idempotency db = []"
    and "run_ops nfkc sha256 xs db = (rs, db')" "r \<in> set (t_devices db')"
  shows "int (length (ok_events (dev_id r) db')) = dev_version r
    \<and> au_action (hd (ok_events (dev_id r) db')) = ''device.create''
    \<and> au_new (last (ok_events (dev_id r) db')) = Some (state_str (dev_state r))
    \<and> (dev_state r = On \<longleftrightarrow> even (dev_version r))"
proof -
  have "device_inv nfkc db"
    using assms(1-3)
    by (simp add: device_inv_def wf_devices_def wf_audit_def wf_idempotency_def device_count_def)
  then have "device_inv nfkc db'" using assms(4) by (rule run_ops_inv)
  with assms(5) have "audited db' r" by (simp add: device_inv_def wf_audit_def)
  then show ?thesis by (simp add: audited_def)
qed

lemma demo_run_one:
  "run_ops (\<lambda>s. s) (\<lambda>s. s) [Op_add 5 ''dev_1'' (demo_identity ''ann'') (demo_add '' Lamp '' (Some ''k''))] demo_db
   = ([(Op_add 5 ''dev_1'' (demo_identity ''ann'') (demo_add '' Lamp '' (Some ''k'')),
        Inr (to_device (new_device_row 5 ''dev_1'' ''ann'' ''Lamp'' ''lamp'')))], demo_one)"
  by (simp add: demo_add_eval)

theorem audit_accounts_for_devices_witness:
  "int (length (ok_events ''dev_1'' demo_one)) = 1
    \<and> au_new (last (ok_events ''dev_1'' demo_one)) = Some ''off''"
  using audit_accounts_for_devices [OF _ _ _ demo_run_one,
      of "new_device_row 5 ''dev_1'' ''ann'' ''Lamp'' ''lamp''"]
  by (simp add: demo_one_devices demo_db_def empty_db_def)

section \<open>Ownership\<close>

lemma owned_row_None_foreign:
  "distinct (map dev_id (t_devices db)) \<Longrightarrow> r \<in> set (t_devices db) \<Longrightarrow> dev_owner r \<noteq> w \<Longrightarrow>
   owned_row (dev_id r) w db = None"
  by (auto simp: owned_row_def find_None_iff dest: distinct_key_eq)

lemma control_not_owned:
  assumes "owned_row (ci_device inp) (id_account ident) db = None"
    "parse_state (ci_state inp) = Some st" "positive_integer (ci_expected inp) = Some v" "v \<le> int4_max"
  shows "control_device now ident inp db = (Inl (app_err DEVICE_NOT_FOUND), db)"
proof -
  have "find (control_match (ci_device inp) (id_account ident) v st) (t_devices db) = None"
    using assms(1) by (auto simp: owned_row_def find_None_iff control_match_def)
  with assms show ?thesis
    by (simp add: control_device_def control_device_tx_def run_tx_def Let_def)
qed

text \<open>What the owner gets, when the version is in range.\<close>

lemma control_owned:
  assumes "owned_row (ci_device inp) (id_account ident) db = Some r"
    "parse_state (ci_state inp) = Some st" "positive_integer (ci_expected inp) = Some v"
    "distinct (map dev_id (t_devices db))" "v < int4_max"
    "control_device now ident inp db = (res, db')"
  shows "res = (if dev_version r \<noteq> v then Inl (app_err DEVICE_VERSION_CONFLICT)
                else if dev_state r = st then Inr (to_device r) else Inr (to_device (control_set now st r)))"
proof -
  from assms(1) have r: "r \<in> set (t_devices db)" "dev_id r = ci_device inp" "dev_owner r = id_account ident"
    by (auto simp: owned_row_def dest: find_SomeD)
  have "find (control_match (ci_device inp) (id_account ident) v st) (t_devices db)
      = (if dev_version r = v \<and> dev_state r \<noteq> st then Some r else None)"
  proof (cases "dev_version r = v \<and> dev_state r \<noteq> st")
    case True
    with r show ?thesis
      by (simp, intro find_key_guard [OF assms(4) r(1)]) (auto simp: control_match_def)
  next
    case False
    with r have "\<not> control_match (ci_device inp) (id_account ident) v st q" if "q \<in> set (t_devices db)" for q
      using that distinct_key_eq [OF assms(4) r(1) that] by (auto simp: control_match_def)
    then have "find (control_match (ci_device inp) (id_account ident) v st) (t_devices db) = None"
      by (auto simp: find_None_iff)
    with False show ?thesis by auto
  qed
  with assms(1,2,3,5,6) show ?thesis
    by (auto simp: control_device_def control_device_tx_def run_tx_def Let_def split: if_splits)
qed

text \<open>A device owned by somebody else cannot be told apart from one that does not exist: reading it and
  controlling it give exactly the answer a missing identifier gives, and neither changes anything, not even the audit
  table.\<close>

theorem foreign_device_is_absent:
  assumes "distinct (map dev_id (t_devices db))" "r \<in> set (t_devices db)"
    and "dev_owner r \<noteq> id_account ident" "missing \<notin> dev_id ` set (t_devices db)"
  shows "get_device ident (dev_id r) db = get_device ident missing db
    \<and> control_device now ident (inp\<lparr>ci_device := dev_id r\<rparr>) db
         = control_device now ident (inp\<lparr>ci_device := missing\<rparr>) db
    \<and> snd (control_device now ident (inp\<lparr>ci_device := dev_id r\<rparr>) db) = db"
proof -
  have f: "owned_row (dev_id r) (id_account ident) db = None"
    using assms(1-3) by (rule owned_row_None_foreign)
  moreover have m: "owned_row missing (id_account ident) db = None"
    using assms(4) by (auto simp: owned_row_def find_None_iff)
  ultimately have "get_device ident (dev_id r) db = get_device ident missing db"
    by (simp add: get_device_def)
  moreover have none: "find (control_match i (id_account ident) v st) (t_devices db) = None"
    if "owned_row i (id_account ident) db = None" for i v st
    using that by (auto simp: owned_row_def find_None_iff control_match_def)
  ultimately show ?thesis
    using f m none [OF f] none [OF m]
    by (auto simp: control_device_def control_device_tx_def run_tx_def Let_def split: option.splits)
qed

theorem foreign_device_is_absent_witness:
  "get_device (demo_identity ''bob'') ''dev_1'' demo_one = Inl (app_err DEVICE_NOT_FOUND)
   \<and> snd (control_device 9 (demo_identity ''bob'') (demo_control ''dev_1'' ''on'' 1) demo_one) = demo_one"
  using foreign_device_is_absent [of demo_one "new_device_row 5 ''dev_1'' ''ann'' ''Lamp'' ''lamp''"
      "demo_identity ''bob''" "''x''" 9 "demo_control ''dev_1'' ''on'' 1"]
  by (auto simp: demo_one_devices demo_identity_def demo_control_def get_device_def owned_row_def)

section \<open>Idempotent creation\<close>

definition key_bound :: "string \<Rightarrow> string \<Rightarrow> string \<Rightarrow> string \<Rightarrow> database \<Rightarrow> bool" where
  "key_bound owner key fp i db \<longleftrightarrow>
     (\<exists>k \<in> set (t_idempotency db). ik_pk k = (owner, devices_endpoint, key) \<and> ik_device k = i
        \<and> ik_fingerprint k = Some fp)"

definition has_device :: "string \<Rightarrow> string \<Rightarrow> string \<Rightarrow> string \<Rightarrow> database \<Rightarrow> bool" where
  "has_device owner i name norm db \<longleftrightarrow>
     (\<exists>r \<in> set (t_devices db). dev_id r = i \<and> dev_owner r = owner \<and> dev_name r = name \<and> dev_normalized r = norm)"

lemma key_bound_remember:
  "key_bound owner key fp i db \<Longrightarrow> key_bound owner key fp i (remember_key now w k x f db)"
  by (auto simp: key_bound_def remember_key_def split: option.splits)

lemma key_bound_exec:
  assumes "key_bound owner key fp i db" "exec_op nfkc sha256 x db = (res, db')"
  shows "key_bound owner key fp i db'"
proof (cases x)
  case (Op_add now nid ident inp)
  with assms(2) have "add_device_at nfkc sha256 now nid ident inp db db = (res, db')"
    by (simp add: add_device_def)
  then show ?thesis
  proof (cases rule: add_device_at_cases)
    case (created name norm row)
    have "key_bound owner key fp i (db\<lparr>t_devices := t_devices db @ [row]\<rparr>)"
      using assms(1) by (simp add: key_bound_def)
    from key_bound_remember [OF this] show ?thesis
      unfolding created(12) by (simp add: key_bound_def)
  qed (use assms in simp)
next
  case (Op_control now ident inp)
  with assms(2) have "control_device now ident inp db = (res, db')" by simp
  then show ?thesis
    by (cases rule: control_device_cases) (use assms(1) in \<open>auto simp: key_bound_def\<close>)
qed

lemma has_device_exec:
  assumes "has_device owner i name norm db" "exec_op nfkc sha256 x db = (res, db')"
  shows "has_device owner i name norm db'"
proof (cases x)
  case (Op_add now nid ident inp)
  with assms(2) have "add_device_at nfkc sha256 now nid ident inp db db = (res, db')"
    by (simp add: add_device_def)
  then show ?thesis
    by (cases rule: add_device_at_cases) (use assms(1) in \<open>auto simp: has_device_def\<close>)
next
  case (Op_control now ident inp)
  with assms(2) have "control_device now ident inp db = (res, db')" by simp
  then show ?thesis
  proof (cases rule: control_device_cases)
    case (switched st r)
    let ?P = "control_match (ci_device inp) (id_account ident) (dev_version r) st"
    from assms(1) obtain q where q: "q \<in> set (t_devices db)" "dev_id q = i" "dev_owner q = owner"
      "dev_name q = name" "dev_normalized q = norm" by (auto simp: has_device_def)
    have "q \<in> set (t_devices db') \<or> control_set now st q \<in> set (t_devices db')"
      using q(1) unfolding switched(7) by (cases "?P q") (auto simp: set_update_where)
    then show ?thesis
    proof
      assume "control_set now st q \<in> set (t_devices db')"
      then show ?thesis using q unfolding has_device_def by (intro bexI [of _ "control_set now st q"]) auto
    qed (use q in \<open>auto simp: has_device_def\<close>)
  qed (use assms(1) in \<open>auto simp: has_device_def\<close>)
qed

lemma run_ops_keeps:
  "run_ops nfkc sha256 xs db = (rs, db') \<Longrightarrow> key_bound owner key fp i db \<Longrightarrow> has_device owner i name norm db
   \<Longrightarrow> key_bound owner key fp i db' \<and> has_device owner i name norm db'"
proof (induction xs arbitrary: db rs)
  case (Cons x xs)
  obtain r db1 where x: "exec_op nfkc sha256 x db = (r, db1)" by fastforce
  with Cons.prems(1) obtain rs' where "run_ops nfkc sha256 xs db1 = (rs', db')"
    by (auto simp: Let_def split: prod.splits)
  then show ?case
    using Cons.prems(2,3) key_bound_exec [OF _ x] has_device_exec [OF _ x] by (intro Cons.IH)
qed simp

lemma run_ops_has_device:
  "run_ops nfkc sha256 xs db = (rs, db') \<Longrightarrow> has_device owner i name norm db \<Longrightarrow> has_device owner i name norm db'"
proof (induction xs arbitrary: db rs)
  case (Cons x xs)
  obtain r db1 where x: "exec_op nfkc sha256 x db = (r, db1)" by fastforce
  with Cons.prems(1) obtain rs' where "run_ops nfkc sha256 xs db1 = (rs', db')"
    by (auto simp: Let_def split: prod.splits)
  then show ?case
    using Cons.prems(2) has_device_exec [OF _ x] by (intro Cons.IH)
qed simp

lemma replay_bound:
  assumes "device_inv nfkc db" "key_bound (id_account ident) key fp i db" "key \<noteq> []"
    "has_device (id_account ident) i name norm db"
  shows "\<exists>r \<in> set (t_devices db). dev_id r = i \<and> dev_name r = name \<and>
    replay_of sha256 ident (Some key) norm' db =
      (if fp = fingerprint sha256 norm' then Inr (Some (to_device r))
       else Inl (app_err_field VALIDATION_FAILED
              ''This Idempotency-Key was already used for a different device.'' ''name''))"
proof -
  have d: "distinct (map ik_pk (t_idempotency db))" "distinct (map dev_id (t_devices db))"
    using assms(1) by (auto simp: device_inv_def wf_idempotency_def wf_devices_def)
  from assms(2) obtain k where k: "k \<in> set (t_idempotency db)"
    "ik_pk k = (id_account ident, devices_endpoint, key)" "ik_device k = i" "ik_fingerprint k = Some fp"
    by (auto simp: key_bound_def)
  from assms(4) obtain r where r: "r \<in> set (t_devices db)" "dev_id r = i" "dev_name r = name"
    by (auto simp: has_device_def)
  have "find (\<lambda>k. ik_account k = id_account ident \<and> ik_endpoint k = devices_endpoint \<and> ik_key k = key)
          (t_idempotency db) = Some k"
    using k by (intro find_key_guard [OF d(1) k(1)]) (auto simp: ik_pk_def)
  moreover have "find (\<lambda>r. dev_id r = i) (t_devices db) = Some r"
    using r by (simp add: find_key [OF d(2)])
  ultimately show ?thesis
    using k r assms(3) by (intro bexI [of _ r]) (auto simp: replay_of_def find_by_idempotency_key_def)
qed

lemma add_device_at_binds:
  assumes "add_device_at nfkc sha256 now nid ident inp db db = (Inr d, db1)" "device_inv nfkc db"
    "ad_key inp = Some key" "key \<noteq> []" "ad_name inp = Some raw"
  shows "key_bound (id_account ident) key (fingerprint sha256 (normalize_device_name nfkc raw)) (d_id d) db1
    \<and> (\<exists>norm. has_device (id_account ident) (d_id d) (d_name d) norm db1)
    \<or> db1 = db"
  using assms(1)
proof (cases rule: add_device_at_cases)
  case (created name norm row)
  have n: "norm = normalize_device_name nfkc raw"
    using created(1,4) assms(5) by simp
  have "\<not> list_ex (\<lambda>r. ik_account r = id_account ident \<and> ik_endpoint r = devices_endpoint \<and> ik_key r = key)
            (t_idempotency db)"
  proof
    assume "list_ex (\<lambda>r. ik_account r = id_account ident \<and> ik_endpoint r = devices_endpoint \<and> ik_key r = key)
            (t_idempotency db)"
    then obtain k where "k \<in> set (t_idempotency db)" and
      f: "find (\<lambda>r. ik_account r = id_account ident \<and> ik_endpoint r = devices_endpoint \<and> ik_key r = key)
            (t_idempotency db) = Some k"
      by (metis (no_types, lifting) find_None_iff find_SomeD list_ex_iff option.exhaust)
    with assms(2) obtain r where "r \<in> set (t_devices db)" "dev_id r = ik_device k"
      by (auto simp: device_inv_def wf_idempotency_def)
    then have "find (\<lambda>r. dev_id r = ik_device k) (t_devices db) \<noteq> None"
      by (auto simp: find_None_iff)
    with f created(5) assms(3,4) show False
      by (auto simp: replay_of_def find_by_idempotency_key_def split: option.splits if_splits)
  qed
  with created n assms(3,4) show ?thesis
    by (auto simp: key_bound_def has_device_def ik_pk_def remember_key_def to_device_def)
qed simp

text \<open>C10. A create that went through under an Idempotency-Key can be repeated at any later time, after any other
  operations of any account: the same name (as folded) under the same key gives back the same device, under its
  present version, and changes nothing.\<close>

theorem idempotent_create_replays:
  assumes "device_inv nfkc db" "key \<noteq> []"
    and "add_device nfkc sha256 now nid ident \<lparr>ad_name = Some raw, ad_key = Some key\<rparr> db = (Inr d, db1)"
    and "db1 \<noteq> db" "run_ops nfkc sha256 xs db1 = (rs, db2)"
    and "normalize_device_name nfkc raw' = normalize_device_name nfkc raw"
    and "display_device_name raw' \<noteq> []" "length (display_device_name raw') \<le> device_name_max"
  shows "\<exists>r \<in> set (t_devices db2). dev_id r = d_id d \<and> dev_name r = d_name d
    \<and> add_device nfkc sha256 now' nid' ident \<lparr>ad_name = Some raw', ad_key = Some key\<rparr> db2
      = (Inr (to_device r), db2)"
proof -
  let ?fp = "fingerprint sha256 (normalize_device_name nfkc raw)"
  note add = assms(3) [unfolded add_device_def]
  obtain norm where b: "key_bound (id_account ident) key ?fp (d_id d) db1"
    "has_device (id_account ident) (d_id d) (d_name d) norm db1"
    using add_device_at_binds [OF add assms(1)] assms(2,4) by auto
  have inv: "device_inv nfkc db2"
    using run_ops_inv [OF add_device_at_inv [OF assms(1) add] assms(5)] .
  have "key_bound (id_account ident) key ?fp (d_id d) db2 \<and>
    has_device (id_account ident) (d_id d) (d_name d) norm db2"
    by (rule run_ops_keeps [OF assms(5) b])
  with replay_bound [OF inv _ assms(2), of ident ?fp "d_id d" "d_name d" norm sha256
      "normalize_device_name nfkc raw"]
  obtain r where r: "r \<in> set (t_devices db2)" "dev_id r = d_id d" "dev_name r = d_name d"
    "replay_of sha256 ident (Some key) (normalize_device_name nfkc raw) db2 = Inr (Some (to_device r))"
    by auto
  have "add_device nfkc sha256 now' nid' ident \<lparr>ad_name = Some raw', ad_key = Some key\<rparr> db2
      = (Inr (to_device r), db2)"
    using assms(6-8) r(4) by (simp add: add_device_def add_device_at_def add_device_tx_def run_tx_def Let_def)
  with r show ?thesis by blast
qed

lemma demo_key_norm: "normalize_device_name (\<lambda>s. s) ''lamp'' = ''lamp''"
  by (simp add: normalize_device_name_def collapse_whitespace_def trim_def is_ws_def to_lower_def lower_char_def)

lemma demo_spaced_norm: "normalize_device_name (\<lambda>s. s) '' Lamp '' = ''lamp''"
  by (simp add: normalize_device_name_def collapse_whitespace_def trim_def is_ws_def to_lower_def)

lemma demo_key_name: "display_device_name ''lamp'' = ''lamp''"
  by (simp add: display_device_name_def collapse_whitespace_def trim_def is_ws_def)

lemma demo_one_ne: "demo_one \<noteq> demo_db"
proof
  assume "demo_one = demo_db"
  then have "t_devices demo_one = t_devices demo_db" by (rule arg_cong)
  then show False by (simp add: demo_one_devices) (simp add: demo_db_def empty_db_def)
qed

theorem idempotent_create_replays_witness:
  "\<exists>r \<in> set (t_devices demo_one). dev_id r = ''dev_1'' \<and>
     add_device (\<lambda>s. s) (\<lambda>s. s) 9 ''dev_2'' (demo_identity ''ann'') (demo_add ''lamp'' (Some ''k'')) demo_one
     = (Inr (to_device r), demo_one)"
proof -
  note ne = demo_one_ne
  show ?thesis
    using idempotent_create_replays [OF demo_db_inv _ demo_add_eval [unfolded demo_add_def] ne, of "[]" "[]" demo_one
        "''lamp''" 9 "''dev_2''"]
    by (auto simp: demo_key_norm demo_spaced_norm demo_key_name demo_add_def to_device_def)
qed

text \<open>A key reused for a name that folds differently is refused with VALIDATION_FAILED and changes nothing,
  where SHA-256 tells the two folded names apart.\<close>

theorem reused_key_refused:
  assumes "device_inv nfkc db" "key \<noteq> []"
    and "add_device nfkc sha256 now nid ident \<lparr>ad_name = Some raw, ad_key = Some key\<rparr> db = (Inr d, db1)"
    and "db1 \<noteq> db" "run_ops nfkc sha256 xs db1 = (rs, db2)"
    and "sha256 (normalize_device_name nfkc raw') \<noteq> sha256 (normalize_device_name nfkc raw)"
    and "display_device_name raw' \<noteq> []" "length (display_device_name raw') \<le> device_name_max"
  shows "add_device nfkc sha256 now' nid' ident \<lparr>ad_name = Some raw', ad_key = Some key\<rparr> db2
      = (Inl (app_err_field VALIDATION_FAILED
           ''This Idempotency-Key was already used for a different device.'' ''name''), db2)"
proof -
  let ?fp = "fingerprint sha256 (normalize_device_name nfkc raw)"
  note add = assms(3) [unfolded add_device_def]
  obtain norm where b: "key_bound (id_account ident) key ?fp (d_id d) db1"
    "has_device (id_account ident) (d_id d) (d_name d) norm db1"
    using add_device_at_binds [OF add assms(1)] assms(2,4) by auto
  have inv: "device_inv nfkc db2"
    using run_ops_inv [OF add_device_at_inv [OF assms(1) add] assms(5)] .
  have "key_bound (id_account ident) key ?fp (d_id d) db2 \<and>
    has_device (id_account ident) (d_id d) (d_name d) norm db2"
    by (rule run_ops_keeps [OF assms(5) b])
  moreover have "?fp \<noteq> fingerprint sha256 (normalize_device_name nfkc raw')"
    using assms(6) by (auto simp: fingerprint_def dest: hex_inj)
  ultimately show ?thesis
    using replay_bound [OF inv _ assms(2), of ident ?fp "d_id d" "d_name d" norm sha256
        "normalize_device_name nfkc raw'"] assms(7,8)
    by (auto simp: add_device_def add_device_at_def add_device_tx_def run_tx_def Let_def)
qed

theorem reused_key_refused_witness:
  "fst (add_device (\<lambda>s. s) (\<lambda>s. s) 9 ''dev_2'' (demo_identity ''ann'') (demo_add ''a'' (Some ''k'')) demo_one)
   = Inl (app_err_field VALIDATION_FAILED
           ''This Idempotency-Key was already used for a different device.'' ''name'')"
proof -
  note ne = demo_one_ne
  have n: "normalize_device_name (\<lambda>s. s) ''a'' = ''a''" "display_device_name ''a'' = ''a''"
    by (simp_all add: normalize_device_name_def display_device_name_def collapse_whitespace_def trim_def
        is_ws_def to_lower_def)
  show ?thesis
    using reused_key_refused [OF demo_db_inv _ demo_add_eval [unfolded demo_add_def] ne, of "[]" "[]" demo_one
        "''a''" 9 "''dev_2''"] n
    by (simp add: demo_spaced_norm demo_add_def)
qed


text \<open>Two concurrent creates under one key: the second looked the key up before the first committed, and holds
  the lock after. It gets the first one's device back when the account had room for another device; when the first
  create took the hundredth place, it is refused with DEVICE_LIMIT_REACHED instead. It changes nothing either way.\<close>

theorem raced_create_replays_below_limit:
  assumes "device_inv nfkc db" "key \<noteq> []"
    and "add_device nfkc sha256 now nid ident \<lparr>ad_name = Some raw, ad_key = Some key\<rparr> db = (Inr d, db1)"
    and "db1 \<noteq> db"
  shows "add_device_at nfkc sha256 now' nid' ident \<lparr>ad_name = Some raw, ad_key = Some key\<rparr> db db1
    = (if device_count (id_account ident) db + 1 < max_devices_per_account then Inr d
       else Inl (app_err DEVICE_LIMIT_REACHED), db1)"
  using assms(3) [unfolded add_device_def]
proof (cases rule: add_device_at_cases)
  case (created name norm row)
  note add = assms(3) [unfolded add_device_def]
  have d: "d = to_device row" "dev_id row = nid" "dev_owner row = id_account ident" "dev_normalized row = norm"
    using created by auto
  have inv: "device_inv nfkc db1" using add_device_at_inv [OF assms(1) add] .
  obtain norm' where "key_bound (id_account ident) key (fingerprint sha256 norm) nid db1"
    "has_device (id_account ident) nid (d_name d) norm' db1"
    using add_device_at_binds [OF add assms(1)] assms(2,4) created(1,4) d by (auto simp: to_device_def)
  with replay_bound [OF inv _ assms(2), of ident "fingerprint sha256 norm" nid "d_name d" norm' sha256 norm]
  obtain r where r: "r \<in> set (t_devices db1)" "dev_id r = nid"
    "replay_of sha256 ident (Some key) norm db1 = Inr (Some (to_device r))"
    by auto
  have row: "t_devices db1 = t_devices db @ [row]" using created(12) by simp
  with inv r(1,2) d(2) have "r = row"
    by (auto simp: device_inv_def wf_devices_def intro: distinct_key_eq [of dev_id "t_devices db1"])
  moreover have "device_count (id_account ident) db1 = device_count (id_account ident) db + 1"
    "name_taken (id_account ident) norm db1"
    using row d by (auto simp: device_count_def name_taken_def)
  ultimately show ?thesis
    using created(1-5) r(3) d(1)
    by (auto simp: add_device_at_def add_device_tx_def run_tx_def Let_def)
qed (use assms(4) in simp)

theorem raced_create_replays_below_limit_witness:
  "add_device_at (\<lambda>s. s) (\<lambda>s. s) 9 ''dev_2'' (demo_identity ''ann'') (demo_add '' Lamp '' (Some ''k'')) demo_db demo_one
   = (Inr (to_device (new_device_row 5 ''dev_1'' ''ann'' ''Lamp'' ''lamp'')), demo_one)"
  using raced_create_replays_below_limit [OF demo_db_inv _ demo_add_eval [unfolded demo_add_def] demo_one_ne,
      of 9 "''dev_2''"]
  by (simp add: demo_add_def device_count_def) (simp add: demo_db_def empty_db_def)

text \<open>A name is taken for good: once an account has a device, whatever is run afterwards, creating another whose
  name folds to the same string without an idempotency key is refused with DEVICE_NAME_CONFLICT while there is room,
  and changes nothing.\<close>

theorem folded_name_conflicts:
  assumes "r \<in> set (t_devices db)" "dev_owner r = id_account ident"
    and "run_ops nfkc sha256 xs db = (rs, db')"
    and "normalize_device_name nfkc raw = dev_normalized r"
    and "display_device_name raw \<noteq> []" "length (display_device_name raw) \<le> device_name_max"
    and "device_count (id_account ident) db' < max_devices_per_account"
  shows "add_device nfkc sha256 now nid ident \<lparr>ad_name = Some raw, ad_key = None\<rparr> db'
    = (Inl (app_err DEVICE_NAME_CONFLICT), db')"
proof -
  have "has_device (id_account ident) (dev_id r) (dev_name r) (dev_normalized r) db"
    using assms(1,2) by (auto simp: has_device_def)
  then have "has_device (id_account ident) (dev_id r) (dev_name r) (dev_normalized r) db'"
    by (rule run_ops_has_device [OF assms(3)])
  then have "name_taken (id_account ident) (normalize_device_name nfkc raw) db'"
    using assms(4) by (auto simp: has_device_def name_taken_def list_ex_iff)
  with assms(5-7) show ?thesis
    by (simp add: add_device_def add_device_at_def add_device_tx_def run_tx_def replay_of_def Let_def)
qed

theorem folded_name_conflicts_witness:
  "add_device (\<lambda>s. s) (\<lambda>s. s) 9 ''dev_2'' (demo_identity ''ann'') (demo_add ''lamp'' None) demo_one
   = (Inl (app_err DEVICE_NAME_CONFLICT), demo_one)"
  using folded_name_conflicts [of "new_device_row 5 ''dev_1'' ''ann'' ''Lamp'' ''lamp''" demo_one
      "demo_identity ''ann''" "\<lambda>s. s" "\<lambda>s. s" "[]" "[]" demo_one "''lamp''" 9 "''dev_2''"]
  by (simp add: demo_one_devices demo_key_norm demo_key_name demo_add_def device_count_def demo_identity_def)

section \<open>Switching\<close>

text \<open>
  The abstract registry: each identifier has an owner, a state and a version. A switch succeeds for the owner at the
  present version, and moves the version only when the state changes.
\<close>

type_synonym registry = "string \<rightharpoonup> string \<times> device_state \<times> int"

datatype switch_result = Sw_ok device_state int | Sw_absent | Sw_conflict

definition spec_switch ::
  "string \<Rightarrow> string \<Rightarrow> device_state \<Rightarrow> int \<Rightarrow> registry \<Rightarrow> switch_result \<times> registry" where
  "spec_switch owner i st v reg =
     (case reg i of
        None \<Rightarrow> (Sw_absent, reg)
      | Some (o', s, n) \<Rightarrow>
          if o' \<noteq> owner then (Sw_absent, reg)
          else if n \<noteq> v then (Sw_conflict, reg)
          else if s = st then (Sw_ok s n, reg)
          else (Sw_ok st (n + 1), reg(i \<mapsto> (o', st, n + 1))))"

definition registry_of :: "database \<Rightarrow> registry" where
  "registry_of db = map_of (map (\<lambda>r. (dev_id r, (dev_owner r, dev_state r, dev_version r))) (t_devices db))"

fun switch_view :: "error + device \<Rightarrow> switch_result" where
  "switch_view (Inr d) = Sw_ok (d_state d) (d_version d)"
| "switch_view (Inl e) = (if code_of e = Some DEVICE_NOT_FOUND then Sw_absent else Sw_conflict)"

lemma registry_of_row:
  assumes "distinct (map dev_id (t_devices db))" "r \<in> set (t_devices db)"
  shows "registry_of db (dev_id r) = Some (dev_owner r, dev_state r, dev_version r)"
  unfolding registry_of_def using assms
  by (intro map_of_is_SomeI) (auto simp: comp_def)

lemma registry_of_None:
  "registry_of db i = None \<longleftrightarrow> i \<notin> dev_id ` set (t_devices db)"
  by (auto simp: registry_of_def map_of_eq_None_iff image_image)

lemma registry_of_switched:
  assumes "distinct (map dev_id (t_devices db))" "find (control_match i w v st) (t_devices db) = Some r"
    "t_devices db' = update_where (control_match i w v st) (control_set now st) (t_devices db)"
  shows "registry_of db' = (registry_of db)(dev_id r \<mapsto> (dev_owner r, st, dev_version r + 1))"
proof
  fix j
  have r: "r \<in> set (t_devices db)" using find_SomeD [OF assms(2)] by simp
  have d: "distinct (map dev_id (t_devices db'))"
    unfolding assms(3) using assms(1) by (simp add: map_update_where)
  have mem: "set (t_devices db') = insert (control_set now st r) (set (t_devices db) - {r})"
    unfolding assms(3) using assms(1,2) by (rule set_switched)
  show "registry_of db' j = ((registry_of db)(dev_id r \<mapsto> (dev_owner r, st, dev_version r + 1))) j"
  proof (cases "j \<in> dev_id ` set (t_devices db)")
    case True
    then obtain q where q: "q \<in> set (t_devices db)" "j = dev_id q" by blast
    show ?thesis
    proof (cases "q = r")
      case True
      with q registry_of_row [OF d, of "control_set now st r"] mem show ?thesis by simp
    next
      case False
      with q r have "dev_id q \<noteq> dev_id r" using distinct_key_eq [OF assms(1)] by blast
      with q False registry_of_row [OF d, of q] registry_of_row [OF assms(1), of q] mem show ?thesis by simp
    qed
  next
    case False
    moreover from False r mem have "j \<notin> dev_id ` set (t_devices db')" "j \<noteq> dev_id r" by auto
    ultimately show ?thesis by (simp add: registry_of_None [THEN iffD2])
  qed
qed

text \<open>C8. Switching a device implements the abstract registry: with a valid state and a positive version below the
  four-byte maximum, the answer and the new contents are those of the specification, for every account and device.\<close>

theorem control_refines_switch:
  assumes "device_inv nfkc db" "ci_state inp = JStr (state_str st)" "ci_expected inp = JInt v"
    and "1 \<le> v" "v < int4_max"
  shows "switch_view (fst (control_device now ident inp db))
      = fst (spec_switch (id_account ident) (ci_device inp) st v (registry_of db))
    \<and> registry_of (snd (control_device now ident inp db))
      = snd (spec_switch (id_account ident) (ci_device inp) st v (registry_of db))"
proof -
  have d: "distinct (map dev_id (t_devices db))" using assms(1) by (simp add: device_inv_def wf_devices_def)
  have p: "parse_state (ci_state inp) = Some st" "positive_integer (ci_expected inp) = Some v"
    using assms by (cases st; simp add: parse_state_def)+
  obtain res db' where c: "control_device now ident inp db = (res, db')" by fastforce
  show ?thesis
  proof (cases "owned_row (ci_device inp) (id_account ident) db")
    case None
    then have "case registry_of db (ci_device inp) of None \<Rightarrow> True | Some (o', _) \<Rightarrow> o' \<noteq> id_account ident"
      using registry_of_row [OF d] registry_of_None [of db "ci_device inp"]
      by (auto simp: owned_row_def find_None_iff split: option.splits)
    with control_not_owned [OF None p] assms(5) show ?thesis
      by (auto simp: spec_switch_def split: option.splits)
  next
    case (Some r)
    then have r: "r \<in> set (t_devices db)" "dev_id r = ci_device inp" "dev_owner r = id_account ident"
      by (auto simp: owned_row_def dest: find_SomeD)
    note reg = registry_of_row [OF d r(1)]
    show ?thesis
      using c
    proof (cases rule: control_device_cases)
      case unchanged
      from control_owned [OF Some p d _ c] assms(5) unchanged Some show ?thesis
        using reg r c by (auto simp: spec_switch_def to_device_def split: if_splits)
    next
      case (rejected st' r')
      with Some p reg r c show ?thesis by (auto simp: spec_switch_def registry_of_def)
    next
      case (switched st' r')
      have "r' = r"
        using find_SomeD [OF switched(3)] r by (intro distinct_key_eq [OF d]) (auto simp: control_match_def)
      moreover have "registry_of db' = (registry_of db)(dev_id r' \<mapsto> (dev_owner r', st', dev_version r' + 1))"
        using switched(7) by (intro registry_of_switched [OF d switched(3)]) simp
      ultimately show ?thesis
        using switched(1,2,5,6) p reg r c by (cases st) (auto simp: spec_switch_def to_device_def)
    qed
  qed
qed

theorem control_refines_switch_witness:
  "switch_view (fst (control_device 7 (demo_identity ''ann'') (demo_control ''dev_1'' ''on'' 1) demo_one)) = Sw_ok On 2"
  using control_refines_switch [OF demo_one_inv, of "demo_control ''dev_1'' ''on'' 1" On 1 7 "demo_identity ''ann''"]
  by (simp add: demo_control_def spec_switch_def registry_of_def demo_one_devices demo_identity_def)


text \<open>
  Once device \<open>i\<close> has moved past version \<open>v\<close> it stays past it, and no control with that version
  can switch it.
\<close>

definition past :: "string \<Rightarrow> int \<Rightarrow> database \<Rightarrow> bool" where
  "past i v db \<longleftrightarrow> (\<exists>r \<in> set (t_devices db). dev_id r = i \<and> v < dev_version r)"

text \<open>A run with the database before and after each of its operations.\<close>

fun traced ::
  "(string \<Rightarrow> string) \<Rightarrow> (string \<Rightarrow> string) \<Rightarrow> dev_op list \<Rightarrow> database \<Rightarrow> (dev_op \<times> database \<times> database) list" where
  "traced nfkc sha256 [] db = []"
| "traced nfkc sha256 (x # xs) db =
     (let db1 = snd (exec_op nfkc sha256 x db) in (x, db, db1) # traced nfkc sha256 xs db1)"

definition row_of :: "string \<Rightarrow> database \<Rightarrow> device_row option" where
  "row_of i db = find (\<lambda>r. dev_id r = i) (t_devices db)"

text \<open>An operation changes a device that is there when its row is not the same afterwards, whatever its answer.\<close>

definition changes_device :: "string \<Rightarrow> dev_op \<times> database \<times> database \<Rightarrow> bool" where
  "changes_device i s \<longleftrightarrow> row_of i (fst (snd s)) \<noteq> None \<and> row_of i (snd (snd s)) \<noteq> row_of i (fst (snd s))"

fun presents :: "string \<Rightarrow> int \<Rightarrow> dev_op \<Rightarrow> bool" where
  "presents i v (Op_control now ident inp) \<longleftrightarrow> ci_device inp = i \<and> ci_expected inp = JInt v"
| "presents i v (Op_add now nid ident inp) \<longleftrightarrow> False"

lemma past_exec:
  assumes "past i v db" "exec_op nfkc sha256 x db = (res, db')"
  shows "past i v db'"
proof (cases x)
  case (Op_add now nid ident inp)
  with assms(2) have "add_device_at nfkc sha256 now nid ident inp db db = (res, db')"
    by (simp add: add_device_def)
  then show ?thesis
    by (cases rule: add_device_at_cases) (use assms(1) in \<open>auto simp: past_def\<close>)
next
  case (Op_control now ident inp)
  with assms(2) have "control_device now ident inp db = (res, db')" by simp
  then show ?thesis
  proof (cases rule: control_device_cases)
    case (switched st r)
    let ?P = "control_match (ci_device inp) (id_account ident) (dev_version r) st"
    from assms(1) obtain q where q: "q \<in> set (t_devices db)" "dev_id q = i" "v < dev_version q"
      by (auto simp: past_def)
    have "q \<in> set (t_devices db') \<or> control_set now st q \<in> set (t_devices db')"
      using q(1) unfolding switched(7) by (cases "?P q") (auto simp: set_update_where)
    then show ?thesis
    proof
      assume "control_set now st q \<in> set (t_devices db')"
      then show ?thesis using q unfolding past_def by (intro bexI [of _ "control_set now st q"]) auto
    qed (use q in \<open>auto simp: past_def\<close>)
  qed (use assms(1) in \<open>auto simp: past_def\<close>)
qed

lemma row_of_Some:
  "device_inv nfkc db \<Longrightarrow> row_of i db = Some r \<longleftrightarrow> r \<in> set (t_devices db) \<and> dev_id r = i"
  by (auto simp: row_of_def device_inv_def wf_devices_def find_key)

lemma positive_integer_Some: "positive_integer v = Some n \<longleftrightarrow> v = JInt n \<and> 1 \<le> n"
  by (cases v) auto

text \<open>What it takes to change a device: its owner, its version and another state.\<close>

lemma device_changed_by:
  assumes inv: "device_inv nfkc db" and x: "exec_op nfkc sha256 x db = (res, db')"
    and r: "row_of i db = Some r" "row_of i db' \<noteq> Some r"
  shows "\<exists>now ident inp st. x = Op_control now ident inp \<and> ci_device inp = i \<and> ci_expected inp = JInt (dev_version r)
    \<and> id_account ident = dev_owner r \<and> parse_state (ci_state inp) = Some st \<and> dev_state r = other_state st
    \<and> row_of i db' = Some (control_set now st r)"
proof -
  have inv': "device_inv nfkc db'" using exec_op_inv [OF inv x] .
  note here = row_of_Some [OF inv] and there = row_of_Some [OF inv']
  have kept: "r \<notin> set (t_devices db')" using r there here by blast
  show ?thesis
  proof (cases x)
    case (Op_add now nid ident inp)
    with x have "add_device_at nfkc sha256 now nid ident inp db db = (res, db')" by (simp add: add_device_def)
    then show ?thesis
      by (cases rule: add_device_at_cases) (use kept r(1) here in auto)
  next
    case (Op_control now ident inp)
    with x have "control_device now ident inp db = (res, db')" by simp
    then show ?thesis
    proof (cases rule: control_device_cases)
      case (switched st q)
      let ?P = "control_match (ci_device inp) (id_account ident) (dev_version q) st"
      have P: "?P r" using kept r(1) here unfolding switched(7) by (auto simp: set_update_where)
      have "control_set now st r \<in> set (t_devices db')"
        using P r(1) here unfolding switched(7) by (auto simp: set_update_where)
      then have "row_of i db' = Some (control_set now st r)" using r(1) here there by (simp add: control_set_def)
      moreover have "ci_device inp = i" "dev_version r = dev_version q" "id_account ident = dev_owner r" "dev_state r \<noteq> st"
        using P r(1) here by (auto simp: control_match_def)
      moreover from this(4) have "dev_state r = other_state st" by (cases st; cases "dev_state r") auto
      moreover have "ci_expected inp = JInt (dev_version q)" using switched(2) by (simp add: positive_integer_Some)
      ultimately show ?thesis using switched(1) Op_control by simp
    qed (use kept r(1) here in auto)
  qed
qed

lemma changed_past:
  assumes "device_inv nfkc db" "exec_op nfkc sha256 x db = (res, db')" "changes_device i (x, db, db')" "presents i v x"
  shows "past i v db'" "\<not> past i v db"
proof -
  obtain r where r: "row_of i db = Some r" "row_of i db' \<noteq> Some r" using assms(3) by (auto simp: changes_device_def)
  from device_changed_by [OF assms(1,2) r] assms(4) obtain now st where
    v: "dev_version r = v" and r': "row_of i db' = Some (control_set now st r)" by auto
  have "control_set now st r \<in> set (t_devices db') \<and> dev_id (control_set now st r) = i"
    using r' row_of_Some [OF exec_op_inv [OF assms(1,2)]] by blast
  with v show "past i v db'" unfolding past_def by (intro bexI [of _ "control_set now st r"]) (auto simp: control_set_def)
  have "q = r" if "q \<in> set (t_devices db)" "dev_id q = i" for q
    using that r(1) row_of_Some [OF assms(1), of i q] by simp
  with v show "\<not> past i v db" by (auto simp: past_def)
qed

lemma traced_past:
  "device_inv nfkc db \<Longrightarrow> past i v db \<Longrightarrow>
   filter (\<lambda>s. presents i v (fst s) \<and> changes_device i s) (traced nfkc sha256 xs db) = []"
proof (induction xs arbitrary: db)
  case (Cons x xs)
  obtain r db1 where x: "exec_op nfkc sha256 x db = (r, db1)" by fastforce
  with Cons.IH [OF exec_op_inv [OF Cons.prems(1) x] past_exec [OF Cons.prems(2) x]] changed_past(2) [OF Cons.prems(1) x] Cons.prems(2)
  show ?case by auto
qed simp

lemma traced_step:
  "device_inv nfkc db \<Longrightarrow> (x, a, b) \<in> set (traced nfkc sha256 xs db) \<Longrightarrow> device_inv nfkc a \<and> b = snd (exec_op nfkc sha256 x a)"
proof (induction xs arbitrary: db)
  case (Cons y ys)
  obtain r db1 where y: "exec_op nfkc sha256 y db = (r, db1)" by fastforce
  with Cons.IH [OF exec_op_inv [OF Cons.prems(1) y]] Cons.prems show ?case by auto
qed simp

lemma traced_once:
  "device_inv nfkc db \<Longrightarrow> length (filter (\<lambda>s. presents i v (fst s) \<and> changes_device i s) (traced nfkc sha256 xs db)) \<le> 1"
proof (induction xs arbitrary: db)
  case (Cons x xs)
  obtain r db1 where x: "exec_op nfkc sha256 x db = (r, db1)" by fastforce
  note inv = exec_op_inv [OF Cons.prems x]
  show ?case
  proof (cases "presents i v x \<and> changes_device i (x, db, db1)")
    case True
    with traced_past [OF inv changed_past(1) [OF Cons.prems x]] x show ?thesis by simp
  next
    case False
    then show ?thesis using Cons.IH [OF inv] x by auto
  qed
qed simp

text \<open>C2. Optimistic concurrency: whatever operations are run, by whatever accounts, at most one control that presents a
  given version of a device changes that device. And whenever a device that is there changes, the operation was a control
  of that device by its owner that presented the version the device had and asked for the state it was not in; afterwards
  the device is in that state, its version is one higher, and nothing else of it but the time of the change differs.\<close>

theorem one_switch_per_version:
  assumes "device_inv nfkc db"
  shows "length (filter (\<lambda>s. presents i v (fst s) \<and> changes_device i s) (traced nfkc sha256 xs db)) \<le> 1
    \<and> (\<forall>x a b r. (x, a, b) \<in> set (traced nfkc sha256 xs db) \<and> row_of i a = Some r \<and> row_of i b \<noteq> Some r \<longrightarrow>
        (\<exists>now ident inp st. x = Op_control now ident inp \<and> ci_device inp = i \<and> ci_expected inp = JInt (dev_version r)
           \<and> id_account ident = dev_owner r \<and> parse_state (ci_state inp) = Some st \<and> dev_state r = other_state st
           \<and> row_of i b = Some (r\<lparr>dev_state := st, dev_version := dev_version r + 1, dev_updated_at := now\<rparr>)))"
proof -
  have "\<exists>now ident inp st. x = Op_control now ident inp \<and> ci_device inp = i \<and> ci_expected inp = JInt (dev_version r)
      \<and> id_account ident = dev_owner r \<and> parse_state (ci_state inp) = Some st \<and> dev_state r = other_state st
      \<and> row_of i b = Some (control_set now st r)"
    if "(x, a, b) \<in> set (traced nfkc sha256 xs db)" "row_of i a = Some r" "row_of i b \<noteq> Some r" for x a b r
    using device_changed_by [of nfkc a sha256 x "fst (exec_op nfkc sha256 x a)" b] traced_step [OF assms that(1)] that(2,3) by simp
  then show ?thesis using traced_once [OF assms] unfolding control_set_def by blast
qed

theorem one_switch_per_version_witness:
  "length (filter (\<lambda>s. presents ''dev_1'' 1 (fst s) \<and> changes_device ''dev_1'' s) (traced (\<lambda>s. s) (\<lambda>s. s)
     [Op_control 7 (demo_identity ''ann'') (demo_control ''dev_1'' ''on'' 1),
      Op_control 8 (demo_identity ''ann'') (demo_control ''dev_1'' ''off'' 1)] demo_one)) \<le> 1"
  by (rule one_switch_per_version [OF demo_one_inv, THEN conjunct1])

section \<open>Listing\<close>

text \<open>The list is exactly the account's devices, oldest first with ties by identifier, never more than a hundred
  of them, and every device listed is the one reading its identifier gives.\<close>

theorem list_is_sorted_and_complete:
  assumes "device_inv nfkc db"
  shows "(\<exists>rs. list_devices ident db = map to_device rs \<and> sorted (map list_key_of rs)
      \<and> distinct rs \<and> set rs = {r \<in> set (t_devices db). dev_owner r = id_account ident})
    \<and> length (list_devices ident db) \<le> max_devices_per_account
    \<and> (\<forall>d \<in> set (list_devices ident db). get_device ident (d_id d) db = Inr d)"
proof -
  have d: "distinct (map dev_id (t_devices db))"
    and n: "device_count (id_account ident) db \<le> max_devices_per_account"
    using assms by (simp_all add: device_inv_def wf_devices_def)
  let ?own = "\<lambda>r. dev_owner r = id_account ident"
  have "distinct (filter ?own (t_devices db))" using d by (auto simp: distinct_map)
  then have "\<exists>rs. list_devices ident db = map to_device rs \<and> sorted (map list_key_of rs)
      \<and> distinct rs \<and> set rs = {r \<in> set (t_devices db). ?own r}"
    by (intro exI [of _ "sort_key list_key_of (filter ?own (t_devices db))"]) (simp add: list_devices_def)
  moreover have "length (list_devices ident db) \<le> max_devices_per_account"
    using n by (simp add: list_devices_def device_count_def)
  moreover have "get_device ident (d_id x) db = Inr x" if x: "x \<in> set (list_devices ident db)" for x
  proof -
    obtain r where r: "r \<in> set (t_devices db)" "?own r" "x = to_device r"
      using x by (auto simp: list_devices_def)
    then have "owned_row (d_id x) (id_account ident) db = Some r"
      unfolding owned_row_def by (intro find_key_guard [OF d r(1)]) (auto simp: to_device_def)
    with r show ?thesis by (simp add: get_device_def)
  qed
  ultimately show ?thesis by blast
qed

theorem list_is_sorted_and_complete_witness:
  "list_devices (demo_identity ''ann'') demo_one = [to_device (new_device_row 5 ''dev_1'' ''ann'' ''Lamp'' ''lamp'')]
   \<and> get_device (demo_identity ''ann'') ''dev_1'' demo_one
      = Inr (to_device (new_device_row 5 ''dev_1'' ''ann'' ''Lamp'' ''lamp''))"
proof -
  have l: "list_devices (demo_identity ''ann'') demo_one = [to_device (new_device_row 5 ''dev_1'' ''ann'' ''Lamp'' ''lamp'')]"
    by (simp add: list_devices_def demo_one_devices demo_identity_def)
  with list_is_sorted_and_complete [OF demo_one_inv, of "demo_identity ''ann''"] show ?thesis
    by (simp add: to_device_def)
qed

section \<open>A version beyond the column\<close>

text \<open>An expected version the four-byte column cannot hold passes validation and reaches the database, which
  raises SQLSTATE 22003: the caller gets an internal error where any other stale version is answered with
  DEVICE_NOT_FOUND or DEVICE_VERSION_CONFLICT. Nothing changes.\<close>

theorem version_beyond_column:
  assumes "ci_expected inp = JInt v" "int4_max < v" "parse_state (ci_state inp) \<noteq> None"
  shows "control_device now ident inp db = (Inl (DbError numeric_out_of_range), db)"
  using assms by (auto simp: control_device_def control_device_tx_def run_tx_def Let_def)

theorem version_beyond_column_witness:
  "control_device 7 (demo_identity ''ann'') (demo_control ''dev_1'' ''on'' 2147483648) demo_one
   = (Inl (DbError ''22003''), demo_one)"
  by (rule version_beyond_column [where v = 2147483648]) (simp_all add: demo_control_def parse_state_def)

end
