(* ===== verification/Accounts.thy ===== *)
theory Accounts
  imports Names Tokens Schema
begin

text \<open>
  \<open>server/src/domain/accounts.ts\<close> and \<open>server/src/password.ts\<close>: what a username and a password must look like,
  sign-up, and checking credentials. Argon2id is a parameter: \<open>argon_hash salt p\<close> is the encoded hash the library
  makes of the peppered password, and \<open>argon_verify encoded p\<close> its verdict, \<^const>\<open>None\<close> where it throws.
\<close>

abbreviation username_min :: nat where "username_min \<equiv> 3"
abbreviation username_max :: nat where "username_max \<equiv> 32"
abbreviation password_min :: nat where "password_min \<equiv> 12"
abbreviation password_max :: nat where "password_max \<equiv> 128"

section \<open>Validation\<close>

definition username_char :: "char \<Rightarrow> bool" where
  "username_char c \<longleftrightarrow> is_alnum c \<or> c = CHR ''.'' \<or> c = CHR ''_'' \<or> c = CHR ''-''"

text \<open>\<open>USERNAME_PATTERN\<close>: an alphanumeric, or two of them with anything of the class between.\<close>

definition username_pattern :: "string \<Rightarrow> bool" where
  "username_pattern s \<longleftrightarrow> s \<noteq> [] \<and> is_alnum (hd s) \<and> is_alnum (last s) \<and> (\<forall>c \<in> set s. username_char c)"

definition validate_username :: "jsval \<Rightarrow> error + string" where
  "validate_username raw =
     (case as_str raw of
        None \<Rightarrow> Inl (app_err_field VALIDATION_FAILED ''Username is required.'' ''username'')
      | Some s \<Rightarrow>
          (let username = trim s in
           if length username < username_min \<or> username_max < length username
           then Inl (app_err_field VALIDATION_FAILED ''Username must be between 3 and 32 characters.'' ''username'')
           else if \<not> username_pattern username
           then Inl (app_err_field VALIDATION_FAILED
             ''Username may use letters, digits, dots, underscores and hyphens, and must start and end with a letter or digit.''
             ''username'')
           else Inr username))"

definition validate_password :: "jsval \<Rightarrow> error + string" where
  "validate_password raw =
     (case as_str raw of
        None \<Rightarrow> Inl (app_err_field VALIDATION_FAILED ''Password is required.'' ''password'')
      | Some s \<Rightarrow>
          if length s < password_min \<or> password_max < length s
          then Inl (app_err_field VALIDATION_FAILED ''Password must be between 12 and 128 characters.'' ''password'')
          else Inr s)"

section \<open>Passwords\<close>

definition b64_std_digit :: "nat \<Rightarrow> char" where
  "b64_std_digit n = ''ABCDEFGHIJKLMNOPQRSTUVWXYZabcdefghijklmnopqrstuvwxyz0123456789+/'' ! n"

fun base64 :: "string \<Rightarrow> string" where
  "base64 [] = []"
| "base64 [a] = [b64_std_digit (byte a div 4), b64_std_digit (byte a mod 4 * 16), CHR ''='', CHR ''='']"
| "base64 [a, b] =
     [b64_std_digit (byte a div 4), b64_std_digit (byte a mod 4 * 16 + byte b div 16),
      b64_std_digit (byte b mod 16 * 4), CHR ''='']"
| "base64 (a # b # c # r) =
     b64_std_digit (byte a div 4) # b64_std_digit (byte a mod 4 * 16 + byte b div 16)
     # b64_std_digit (byte b mod 16 * 4 + byte c div 64) # b64_std_digit (byte c mod 64) # base64 r"

definition peppered :: "(string \<Rightarrow> string \<Rightarrow> string) \<Rightarrow> key_material \<Rightarrow> string \<Rightarrow> string" where
  "peppered hmac ks password = base64 (hmac (snd (password_pepper ks)) password)"

record password_hash =
  ph_encoded :: string
  ph_pepper_version :: nat

definition hash_password ::
  "(string \<Rightarrow> string \<Rightarrow> string) \<Rightarrow> (string \<Rightarrow> string \<Rightarrow> string) \<Rightarrow> key_material \<Rightarrow> string \<Rightarrow> string \<Rightarrow> password_hash" where
  "hash_password hmac argon_hash ks salt password =
     \<lparr>ph_encoded = argon_hash salt (peppered hmac ks password),
      ph_pepper_version = fst (password_pepper ks)\<rparr>"

definition verify_password ::
  "(string \<Rightarrow> string \<Rightarrow> string) \<Rightarrow> (string \<Rightarrow> string \<Rightarrow> bool option) \<Rightarrow> key_material \<Rightarrow> string \<Rightarrow> string \<Rightarrow> bool" where
  "verify_password hmac argon_verify ks encoded password =
     (case argon_verify encoded (peppered hmac ks password) of None \<Rightarrow> False | Some ok \<Rightarrow> ok)"

section \<open>Accounts\<close>

definition to_account :: "account_row \<Rightarrow> account" where
  "to_account r = \<lparr>a_id = acc_id r, a_username = acc_username r, a_created_at = to_ms (acc_created_at r)\<rparr>"

text \<open>\<open>createAccount\<close>: one insert, where the unique index on the folded name decides. \<open>rnd\<close> are the nine random bytes.\<close>

definition create_account ::
  "(string \<Rightarrow> string \<Rightarrow> string) \<Rightarrow> (string \<Rightarrow> string \<Rightarrow> string) \<Rightarrow> (string \<Rightarrow> string) \<Rightarrow> key_material \<Rightarrow> int \<Rightarrow> string \<Rightarrow> string
   \<Rightarrow> jsval \<Rightarrow> jsval \<Rightarrow> database \<Rightarrow> (error + account) \<times> database" where
  "create_account hmac argon_hash nfkc ks now rnd salt raw_username raw_password db =
     (case validate_username raw_username of
        Inl e \<Rightarrow> (Inl e, db)
      | Inr username \<Rightarrow>
          (case validate_password raw_password of
             Inl e \<Rightarrow> (Inl e, db)
           | Inr password \<Rightarrow>
               (let normalized = normalize_username nfkc username;
                    ph = hash_password hmac argon_hash ks salt password;
                    new_id = ''acc_'' @ base64url rnd;
                    row = \<lparr>acc_id = new_id, acc_username = username, acc_normalized = normalized,
                           acc_password_hash = ph_encoded ph, acc_pepper_version = ph_pepper_version ph,
                           acc_created_at = now\<rparr>
                in if normalized \<in> acc_normalized ` set (t_accounts db)
                   then (Inl (AppError (new_app_error USERNAME_TAKEN None (Some ''username''))), db)
                   else if new_id \<in> acc_id ` set (t_accounts db) then (Inl (DbError unique_violation), db)
                   else (Inr (to_account row), db\<lparr>t_accounts := t_accounts db @ [row]\<rparr>))))"

definition account_named :: "string \<Rightarrow> database \<Rightarrow> account_row option" where
  "account_named normalized db = find (\<lambda>r. acc_normalized r = normalized) (t_accounts db)"

text \<open>
  \<open>verifyCredentials\<close>. Beside the answer it returns the encoded hashes that were verified, in order: the expensive
  work a caller could time. \<open>decoy\<close> is the hash the process made of a random password.
\<close>

definition verify_credentials ::
  "(string \<Rightarrow> string \<Rightarrow> string) \<Rightarrow> (string \<Rightarrow> string \<Rightarrow> bool option) \<Rightarrow> (string \<Rightarrow> string) \<Rightarrow> key_material \<Rightarrow> password_hash
   \<Rightarrow> jsval \<Rightarrow> jsval \<Rightarrow> database \<Rightarrow> account option \<times> string list" where
  "verify_credentials hmac argon_verify nfkc ks decoy raw_username raw_password db =
     (case (as_str raw_username, as_str raw_password) of
        (Some u, Some p) \<Rightarrow>
          (case account_named (normalize_username nfkc u) db of
             None \<Rightarrow> (let _ = verify_password hmac argon_verify ks (ph_encoded decoy) p
                      in (None, [ph_encoded decoy]))
           | Some row \<Rightarrow>
               if \<not> verify_password hmac argon_verify ks (acc_password_hash row) p
               then (None, [acc_password_hash row])
               else (Some (to_account row), [acc_password_hash row]))
      | _ \<Rightarrow> (None, []))"

definition get_account :: "string \<Rightarrow> database \<Rightarrow> account option" where
  "get_account account_id db = map_option to_account (find (\<lambda>r. acc_id r = account_id) (t_accounts db))"

section \<open>What they guarantee\<close>

definition wf_accounts :: "database \<Rightarrow> bool" where
  "wf_accounts db \<longleftrightarrow> distinct (map acc_id (t_accounts db)) \<and> distinct (map acc_normalized (t_accounts db))
     \<and> (\<forall>r \<in> set (t_accounts db). username_pattern (acc_username r)
          \<and> username_min \<le> length (acc_username r) \<and> length (acc_username r) \<le> username_max)"

lemma validate_username_Inr:
  "validate_username raw = Inr u \<longleftrightarrow>
     (\<exists>s. raw = JStr s \<and> u = trim s \<and> username_min \<le> length u \<and> length u \<le> username_max \<and> username_pattern u)"
  by (auto simp: validate_username_def Let_def split: option.splits)

lemma validate_password_Inr:
  "validate_password raw = Inr p \<longleftrightarrow> raw = JStr p \<and> password_min \<le> length p \<and> length p \<le> password_max"
  by (auto simp: validate_password_def split: option.splits)

lemma create_account_cases:
  assumes "create_account hmac argon_hash nfkc ks now rnd salt ru rp db = (res, db')"
  obtains (unchanged) "isl res" "db' = db"
  | (created) u p row where
      "validate_username ru = Inr u" "validate_password rp = Inr p"
      "row = \<lparr>acc_id = ''acc_'' @ base64url rnd, acc_username = u, acc_normalized = normalize_username nfkc u,
         acc_password_hash = argon_hash salt (peppered hmac ks p),
         acc_pepper_version = fst (password_pepper ks), acc_created_at = now\<rparr>"
      "acc_normalized row \<notin> acc_normalized ` set (t_accounts db)" "acc_id row \<notin> acc_id ` set (t_accounts db)"
      "res = Inr (to_account row)" "db' = db\<lparr>t_accounts := t_accounts db @ [row]\<rparr>"
proof (cases "validate_username ru")
  case (Inl e)
  with assms show ?thesis by (intro unchanged) (auto simp: create_account_def)
next
  case u: (Inr u)
  show ?thesis
  proof (cases "validate_password rp")
    case (Inl e)
    with assms u show ?thesis by (intro unchanged) (auto simp: create_account_def)
  next
    case p: (Inr p)
    let ?row = "\<lparr>acc_id = ''acc_'' @ base64url rnd, acc_username = u, acc_normalized = normalize_username nfkc u,
         acc_password_hash = argon_hash salt (peppered hmac ks p),
         acc_pepper_version = fst (password_pepper ks), acc_created_at = now\<rparr>"
    show ?thesis
    proof (cases "acc_normalized ?row \<in> acc_normalized ` set (t_accounts db) \<or> acc_id ?row \<in> acc_id ` set (t_accounts db)")
      case True
      with assms u p show ?thesis
        by (intro unchanged) (auto simp: create_account_def Let_def split: if_splits)
    next
      case False
      with assms u p show ?thesis
        by (intro created [OF u p refl]) (simp_all add: create_account_def hash_password_def Let_def)
    qed
  qed
qed

lemma create_account_wf:
  assumes "wf_accounts db" "create_account hmac argon_hash nfkc ks now rnd salt ru rp db = (res, db')"
  shows "wf_accounts db'"
  using assms(2)
  by (cases rule: create_account_cases) (use assms(1) in \<open>auto simp: wf_accounts_def validate_username_Inr\<close>)

lemma account_named_created:
  assumes "acc_normalized row \<notin> acc_normalized ` set (t_accounts db)"
    "db' = db\<lparr>t_accounts := t_accounts db @ [row]\<rparr>"
  shows "account_named (acc_normalized row) db' = Some row"
proof -
  have "find (\<lambda>r. acc_normalized r = acc_normalized row) (t_accounts db) = None"
    using assms(1) unfolding find_None_iff by (metis image_eqI)
  with assms(2) show ?thesis by (simp add: account_named_def find_append)
qed

text \<open>
  What is relied on of Argon2: verifying against a hash it made says whether the password is the one it was made of.
\<close>

definition argon_law :: "(string \<Rightarrow> string \<Rightarrow> string) \<Rightarrow> (string \<Rightarrow> string \<Rightarrow> bool option) \<Rightarrow> bool" where
  "argon_law argon_hash argon_verify \<longleftrightarrow> (\<forall>salt p q. argon_verify (argon_hash salt p) q = Some (p = q))"

lemma b64_std_digit_eq: "m < 64 \<Longrightarrow> n < 64 \<Longrightarrow> b64_std_digit m = b64_std_digit n \<longleftrightarrow> m = n"
proof -
  let ?ds = "''ABCDEFGHIJKLMNOPQRSTUVWXYZabcdefghijklmnopqrstuvwxyz0123456789+/''"
  have "distinct ?ds" by code_simp
  moreover have "length ?ds = 64" by simp
  ultimately show "m < 64 \<Longrightarrow> n < 64 \<Longrightarrow> b64_std_digit m = b64_std_digit n \<longleftrightarrow> m = n"
    using nth_eq_iff_index_eq [of ?ds m n] by (simp only: b64_std_digit_def)
qed

lemma b64_std_digit_pad: "n < 64 \<Longrightarrow> b64_std_digit n \<noteq> CHR ''=''"
proof -
  let ?ds = "''ABCDEFGHIJKLMNOPQRSTUVWXYZabcdefghijklmnopqrstuvwxyz0123456789+/''"
  assume "n < 64"
  then have "b64_std_digit n \<in> set ?ds"
    unfolding b64_std_digit_def by (intro nth_mem) simp
  then show ?thesis by auto
qed

lemmas b64_eqs = b64_std_digit_eq byte_bounds b64_std_digit_pad b64_std_digit_pad [symmetric]

lemma base64_inj: "base64 s = base64 t \<Longrightarrow> s = t"
proof (induction s arbitrary: t rule: base64.induct)
  case 1
  then show ?case by (cases t rule: base64.cases) simp_all
next
  case (2 a)
  then show ?case
    by (cases t rule: base64.cases) (auto simp: b64_eqs intro: same_byte)
next
  case (3 a b)
  then show ?case
    by (cases t rule: base64.cases)
      (auto simp: b64_eqs dest: b64_join intro: same_byte)
next
  case (4 a b c r)
  from 4(2) show ?case
  proof (cases t rule: base64.cases)
    case (4 a' b' c' r')
    with \<open>base64 (a # b # c # r) = base64 t\<close>
    have e: "byte a div 4 = byte a' div 4" "byte a mod 4 * 16 + byte b div 16 = byte a' mod 4 * 16 + byte b' div 16"
      "byte b mod 16 * 4 + byte c div 64 = byte b' mod 16 * 4 + byte c' div 64" "byte c mod 64 = byte c' mod 64"
      "base64 r = base64 r'"
      by (simp_all add: b64_eqs)
    have "a = a'" "byte b div 16 = byte b' div 16" using b64_join [OF e(1,2)] by simp_all
    moreover have "b = b'" "byte c div 64 = byte c' div 64"
      using b64_join' [OF calculation(2) e(3)] by simp_all
    moreover have "c = c'" using calculation(4) e(4) by (rule same_byte)
    moreover have "r = r'" using e(5) by (rule \<open>\<And>t. base64 r = base64 t \<Longrightarrow> r = t\<close>)
    ultimately show ?thesis using 4 by simp
  qed (simp_all add: b64_eqs)
qed

lemma verify_password_made:
  assumes "argon_law argon_hash argon_verify" "hmac_injective hmac"
  shows "verify_password hmac argon_verify ks (argon_hash salt (peppered hmac ks p)) q \<longleftrightarrow> p = q"
  using assms by (auto simp: verify_password_def argon_law_def peppered_def dest!: base64_inj hmac_injectiveD)

section \<open>Properties\<close>

definition demo_keys :: key_material where
  "demo_keys = \<lparr>token_peppers = [(1, ''pep'')], password_pepper = (1, ''pw''), internal_mac_key = ''mac''\<rparr>"

definition demo_signup :: "string \<Rightarrow> database \<Rightarrow> (error + account) \<times> database" where
  "demo_signup u db = create_account (@) (\<lambda>s p. p) (\<lambda>s. s) demo_keys 7 ''rnd'' [] (JStr u) (JStr ''abcdefghijkl'') db"

lemma demo_lower: "to_lower ''Ann'' = ''ann''" "to_lower ''ann'' = ''ann''" "to_lower ''ANN'' = ''ann''"
  by code_simp+

lemma demo_username: "validate_username (JStr ''Ann'') = Inr ''Ann''"
  by (simp add: validate_username_def Let_def trim_def is_ws_def username_pattern_def username_char_def is_alnum_def)

definition demo_account_row :: account_row where
  "demo_account_row = \<lparr>acc_id = ''acc_'' @ base64url ''rnd'', acc_username = ''Ann'', acc_normalized = ''ann'',
     acc_password_hash = peppered (@) demo_keys ''abcdefghijkl'', acc_pepper_version = 1, acc_created_at = 7\<rparr>"

lemma demo_signup_eval:
  "demo_signup ''Ann'' empty_db = (Inr (to_account demo_account_row), empty_db\<lparr>t_accounts := [demo_account_row]\<rparr>)"
  by (simp add: demo_signup_def create_account_def demo_username validate_password_def hash_password_def demo_lower
      normalize_username_def trim_def is_ws_def empty_db_def demo_account_row_def demo_keys_def Let_def)

text \<open>C11. Signing up makes an account that its username, in any spelling that folds the same, and exactly its own
  password open: any other password gets nothing, and so does any username that folds differently from every account.\<close>

theorem signup_then_login:
  assumes "argon_law argon_hash argon_verify" "hmac_injective hmac"
    and "create_account hmac argon_hash nfkc ks now rnd salt (JStr raw) (JStr pw) db = (Inr a, db')"
    and "normalize_username nfkc u = normalize_username nfkc (trim raw)"
  shows "fst (verify_credentials hmac argon_verify nfkc ks decoy (JStr u) (JStr q) db')
    = (if q = pw then Some a else None)"
  using assms(3)
proof (cases rule: create_account_cases)
  case (created v p row)
  then have v: "v = trim raw" "p = pw" "acc_normalized row = normalize_username nfkc u"
    using assms(4) by (auto simp: validate_username_Inr validate_password_Inr)
  have "account_named (normalize_username nfkc u) db' = Some row"
    using account_named_created [OF created(4,7)] v(3) by simp
  moreover have "verify_password hmac argon_verify ks (acc_password_hash row) q \<longleftrightarrow> pw = q"
    using verify_password_made [OF assms(1,2)] created(3) v(2) by simp
  ultimately show ?thesis
    using created(6) by (auto simp: verify_credentials_def)
qed simp

text \<open>A keyed hash that satisfies the law: the key's length in unary, then the key and the message.\<close>

definition toy_hmac :: "string \<Rightarrow> string \<Rightarrow> string" where
  "toy_hmac k m = replicate (length k) (CHR ''1'') @ ''0'' @ k @ m"

lemma replicate_mark_eq:
  "replicate m (CHR ''1'') @ CHR ''0'' # s = replicate n (CHR ''1'') @ CHR ''0'' # t \<Longrightarrow> m = n \<and> s = t"
proof (induction m arbitrary: n)
  case 0
  then show ?case by (cases n) auto
next
  case (Suc m)
  then show ?case by (cases n) auto
qed

lemma toy_hmac_injective: "hmac_injective toy_hmac"
  unfolding hmac_injective_def toy_hmac_def
  by (auto dest!: replicate_mark_eq)

theorem signup_then_login_witness:
  "fst (verify_credentials toy_hmac (\<lambda>h p. Some (h = p)) (\<lambda>s. s) demo_keys \<lparr>ph_encoded = [], ph_pepper_version = 1\<rparr>
     (JStr ''ANN'') (JStr ''wrong'')
     (snd (create_account toy_hmac (\<lambda>s p. p) (\<lambda>s. s) demo_keys 7 ''rnd'' [] (JStr ''Ann'') (JStr ''abcdefghijkl'') empty_db)))
   = None"
proof -
  obtain a db' where c: "create_account toy_hmac (\<lambda>s p. p) (\<lambda>s. s) demo_keys 7 ''rnd'' [] (JStr ''Ann'')
      (JStr ''abcdefghijkl'') empty_db = (Inr a, db')"
    by (simp add: create_account_def demo_username validate_password_def empty_db_def Let_def)
  have l: "argon_law (\<lambda>s p. p) (\<lambda>h p. Some (h = p))" by (simp add: argon_law_def)
  show ?thesis
    using signup_then_login [OF l toy_hmac_injective c, of "''ANN''" _ "''wrong''"] c
    by (simp add: normalize_username_def trim_def is_ws_def demo_lower)
qed

text \<open>No two accounts have usernames that differ only in case: once a name made of ASCII characters is taken,
  signing up with any other spelling of it is refused with USERNAME_TAKEN and changes nothing, and every sign-up keeps
  the names of 3 to 32 allowed characters and distinct after folding.\<close>

theorem usernames_differ_beyond_case:
  assumes "wf_accounts db" "nfkc_ascii nfkc"
    and "create_account hmac argon_hash nfkc ks now rnd salt (JStr raw) rp db = (Inr a, db')"
    and "validate_username (JStr raw') = Inr u'" "to_lower u' = to_lower (trim raw)"
    and "is_ascii raw" "is_ascii raw'" "validate_password rp' = Inr p'"
  shows "wf_accounts db'
    \<and> create_account hmac argon_hash nfkc ks now' rnd' salt' (JStr raw') rp' db'
      = (Inl (AppError (new_app_error USERNAME_TAKEN None (Some ''username''))), db')"
  using assms(3)
proof (cases rule: create_account_cases)
  case (created u p row)
  have u: "u = trim raw" "u' = trim raw'" using created(1) assms(4) by (auto simp: validate_username_Inr)
  have "normalize_username nfkc u = to_lower u" "normalize_username nfkc u' = to_lower u'"
    using u assms(2,6,7) by (simp_all add: normalize_username_def nfkc_ascii_def is_ascii_trim)
  then have "normalize_username nfkc u' \<in> acc_normalized ` set (t_accounts db')"
    using created(3,7) assms(5) u by simp
  with create_account_wf [OF assms(1,3)] assms(4,8) show ?thesis
    by (simp add: create_account_def Let_def)
qed simp

lemma empty_accounts_wf: "wf_accounts empty_db"
  by (simp add: wf_accounts_def empty_db_def)

theorem usernames_differ_beyond_case_witness:
  "fst (demo_signup ''Ann'' (snd (demo_signup ''Ann'' empty_db)))
   = Inl (AppError (new_app_error USERNAME_TAKEN None (Some ''username'')))"
proof -
  have n: "nfkc_ascii (\<lambda>s. s)" by (simp add: nfkc_ascii_def)
  have p: "validate_password (JStr ''abcdefghijkl'') = Inr ''abcdefghijkl''" by (simp add: validate_password_def)
  show ?thesis
    using usernames_differ_beyond_case [OF empty_accounts_wf n demo_signup_eval [unfolded demo_signup_def]
        demo_username _ _ _ p, of 7 "''rnd''" "[]"]
    by (simp add: demo_signup_def demo_signup_eval [unfolded demo_signup_def] trim_def is_ws_def is_ascii_def)
qed

text \<open>Whether the username exists makes no difference to the work a login does: with two strings, exactly one
  stored hash is verified, the account's own or the decoy, and the database is only read; a value that is not a string
  gets nothing.\<close>

theorem login_verifies_once:
  "length (snd (verify_credentials hmac argon_verify nfkc ks decoy ru rp db))
     = (if as_str ru \<noteq> None \<and> as_str rp \<noteq> None then 1 else 0)
   \<and> (as_str ru = None \<or> as_str rp = None \<longrightarrow> fst (verify_credentials hmac argon_verify nfkc ks decoy ru rp db) = None)"
  by (auto simp: verify_credentials_def Let_def split: option.splits)

theorem login_verifies_once_witness:
  "length (snd (verify_credentials (@) (\<lambda>h p. None) (\<lambda>s. s) demo_keys \<lparr>ph_encoded = ''d'', ph_pepper_version = 1\<rparr>
     (JStr ''nobody'') (JStr ''x'') empty_db)) = 1"
  using login_verifies_once [of "(@)" "\<lambda>h p. None" "\<lambda>s. s" demo_keys "\<lparr>ph_encoded = ''d'', ph_pepper_version = 1\<rparr>"
      "JStr ''nobody''" "JStr ''x''" empty_db]
  by simp

end
