(* ===== verification/Stores.thy ===== *)
theory Stores
  imports Errors
begin

text \<open>
  The short-lived shared state of \<open>server/src/security/rate-limit.ts\<close> and \<open>server/src/security/replay.ts\<close>,
  and its client \<open>server/src/write-budgets.ts\<close>; sealed responses are in Sealer. Each TypeScript interface
  (\<open>BucketStore\<close>, \<open>ReplayStore\<close>) is a locale that states what its users rely on; the in-memory
  class of each is a list of entries, and the interpretation shows that it keeps the contract. Times are the
  milliseconds of \<open>Date.now()\<close>. The result of \<open>hit\<close> is read before the next \<open>hit\<close> on the same window.
\<close>

section \<open>Interfaces\<close>

text \<open>
  \<open>window s k t\<close> is the open window of key \<open>k\<close> at time \<open>t\<close>: its count so far and the time it ends.
\<close>

locale bucket_store =
  fixes hit :: "int \<Rightarrow> string \<Rightarrow> int \<Rightarrow> 's \<Rightarrow> (nat \<times> int) \<times> 's"
    and window :: "'s \<Rightarrow> string \<Rightarrow> int \<Rightarrow> (nat \<times> int) option"
    and store_ok :: "'s \<Rightarrow> bool"
  assumes hit_ok: "store_ok s \<Longrightarrow> store_ok (snd (hit now k w s))"
    and hit_result: "store_ok s \<Longrightarrow> fst (hit now k w s) =
          (case window s k now of None \<Rightarrow> (1, now + w) | Some (c, e) \<Rightarrow> (c + 1, e))"
    and hit_same: "store_ok s \<Longrightarrow> now \<le> t \<Longrightarrow> window (snd (hit now k w s)) k t =
          (if t < snd (fst (hit now k w s)) then Some (fst (hit now k w s)) else None)"
    and hit_other: "store_ok s \<Longrightarrow> now \<le> t \<Longrightarrow> k' \<noteq> k \<Longrightarrow> window (snd (hit now k w s)) k' t = window s k' t"
    and window_open: "window s k t = Some (c, e) \<Longrightarrow> t < e"
    and window_later: "window s k t = Some (c, e) \<Longrightarrow> t \<le> t' \<Longrightarrow> window s k t' = (if t' < e then Some (c, e) else None)"
    and window_closed: "window s k t = None \<Longrightarrow> t \<le> t' \<Longrightarrow> window s k t' = None"

text \<open>
  \<open>held s k t\<close>: the identifier was claimed and its lifetime has not run out. Every caller gives a positive lifetime; a
  store may refuse any other.
\<close>

locale replay_store =
  fixes claim :: "int \<Rightarrow> string \<Rightarrow> int \<Rightarrow> 's \<Rightarrow> bool \<times> 's"
    and held :: "'s \<Rightarrow> string \<Rightarrow> int \<Rightarrow> bool"
    and seen_ok :: "'s \<Rightarrow> bool"
  assumes held_earlier: "held s k t \<Longrightarrow> t0 \<le> t \<Longrightarrow> held s k t0"
    and claim_ok: "seen_ok s \<Longrightarrow> seen_ok (snd (claim now k ttl s))"
    and claim_result: "seen_ok s \<Longrightarrow> 0 < ttl \<or> held s k now \<Longrightarrow> fst (claim now k ttl s) \<longleftrightarrow> \<not> held s k now"
    and claim_holds: "seen_ok s \<Longrightarrow> fst (claim now k ttl s) \<Longrightarrow>
          held (snd (claim now k ttl s)) k t \<longleftrightarrow> t < now + ttl * 1000"
    and claim_keeps: "seen_ok s \<Longrightarrow> now \<le> t \<Longrightarrow> held s k' t \<Longrightarrow> held (snd (claim now k ttl s)) k' t"
    and claim_other: "seen_ok s \<Longrightarrow> now \<le> t \<Longrightarrow> k' \<noteq> k \<Longrightarrow> held (snd (claim now k ttl s)) k' t \<longleftrightarrow> held s k' t"

section \<open>The in-memory stores\<close>

type_synonym windows = "(string \<times> (nat \<times> int)) list"

abbreviation sweep_above :: nat where "sweep_above \<equiv> 10000"

definition memory_hit :: "int \<Rightarrow> string \<Rightarrow> int \<Rightarrow> windows \<Rightarrow> (nat \<times> int) \<times> windows" where
  "memory_hit now key window_ms ws =
     (let fresh = (1, now + window_ms);
          opened = (let ws1 = AList.update key fresh ws
                    in if sweep_above < length ws1 then sweep (\<lambda>(c, reset_at). reset_at \<le> now) ws1 else ws1)
      in case map_of ws key of
           None \<Rightarrow> (fresh, opened)
         | Some (count, reset_at) \<Rightarrow>
             if reset_at \<le> now then (fresh, opened)
             else ((count + 1, reset_at), AList.update key (count + 1, reset_at) ws))"

type_synonym seen = "(string \<times> int) list"

definition memory_claim :: "int \<Rightarrow> string \<Rightarrow> int \<Rightarrow> seen \<Rightarrow> bool \<times> seen" where
  "memory_claim now key ttl_seconds m =
     (let m1 = (if sweep_above < length m then sweep (\<lambda>expiry. expiry \<le> now) m else m)
      in case map_of m1 key of
           Some expiry \<Rightarrow>
             if now < expiry then (False, m1) else (True, AList.update key (now + ttl_seconds * 1000) m1)
         | None \<Rightarrow> (True, AList.update key (now + ttl_seconds * 1000) m1))"

definition memory_window :: "windows \<Rightarrow> string \<Rightarrow> int \<Rightarrow> (nat \<times> int) option" where
  "memory_window ws k t = (case map_of ws k of Some (c, e) \<Rightarrow> if t < e then Some (c, e) else None | None \<Rightarrow> None)"

definition memory_held :: "seen \<Rightarrow> string \<Rightarrow> int \<Rightarrow> bool" where
  "memory_held m k t \<longleftrightarrow> (case map_of m k of Some e \<Rightarrow> t < e | None \<Rightarrow> False)"

definition distinct_keys :: "(string \<times> 'v) list \<Rightarrow> bool" where
  "distinct_keys m \<longleftrightarrow> distinct (map fst m)"

lemma distinct_keys_update [intro, simp]: "distinct_keys m \<Longrightarrow> distinct_keys (AList.update k v m)"
  by (simp add: distinct_keys_def distinct_update)

lemma distinct_keys_sweep [intro, simp]: "distinct_keys m \<Longrightarrow> distinct_keys (sweep p m)"
  unfolding distinct_keys_def by (rule distinct_sweep)

lemma distinct_keys_delete [intro, simp]: "distinct_keys m \<Longrightarrow> distinct_keys (AList.delete k m)"
  unfolding distinct_keys_def by (rule distinct_delete)

lemma map_of_sweep_keys:
  "distinct_keys m \<Longrightarrow> map_of (sweep dead m) k = (case map_of m k of Some v \<Rightarrow> if dead v then None else Some v | None \<Rightarrow> None)"
  unfolding distinct_keys_def by (rule map_of_sweep)

lemmas memory_defs = memory_hit_def memory_window_def memory_claim_def memory_held_def
  Let_def map_of_sweep_keys update_conv' delete_conv'

interpretation memory_buckets: bucket_store memory_hit memory_window distinct_keys
proof
  show "distinct_keys s \<Longrightarrow> distinct_keys (snd (memory_hit now k w s))" for s now k w
    by (auto simp: memory_hit_def Let_def split: option.splits)
  show "distinct_keys s \<Longrightarrow> fst (memory_hit now k w s) =
      (case memory_window s k now of None \<Rightarrow> (1, now + w) | Some (c, e) \<Rightarrow> (c + 1, e))" for s now k w
    by (auto simp: memory_hit_def memory_window_def Let_def split: option.splits)
  show "distinct_keys s \<Longrightarrow> now \<le> t \<Longrightarrow> memory_window (snd (memory_hit now k w s)) k t =
      (if t < snd (fst (memory_hit now k w s)) then Some (fst (memory_hit now k w s)) else None)" for s now k w t
    by (auto simp: memory_defs split: option.splits)
  show "distinct_keys s \<Longrightarrow> now \<le> t \<Longrightarrow> k' \<noteq> k \<Longrightarrow>
      memory_window (snd (memory_hit now k w s)) k' t = memory_window s k' t" for s now k w t k'
    by (auto simp: memory_defs split: option.splits)
qed (auto simp: memory_window_def split: option.splits if_splits)

interpretation memory_replays: replay_store memory_claim memory_held distinct_keys
proof
  show "memory_held s k t \<Longrightarrow> t0 \<le> t \<Longrightarrow> memory_held s k t0" for s k t t0
    by (auto simp: memory_held_def split: option.splits)
  show "distinct_keys s \<Longrightarrow> distinct_keys (snd (memory_claim now k ttl s))" for s now k ttl
    by (auto simp: memory_claim_def Let_def split: option.splits)
  show "distinct_keys s \<Longrightarrow> fst (memory_claim now k ttl s) \<longleftrightarrow> \<not> memory_held s k now" for s now k ttl
    by (auto simp: memory_defs split: option.splits)
  show "distinct_keys s \<Longrightarrow> fst (memory_claim now k ttl s) \<Longrightarrow>
      memory_held (snd (memory_claim now k ttl s)) k t \<longleftrightarrow> t < now + ttl * 1000" for s now k ttl t
    by (auto simp: memory_defs split: option.splits if_splits)
  show "distinct_keys s \<Longrightarrow> now \<le> t \<Longrightarrow> memory_held s k' t \<Longrightarrow> memory_held (snd (memory_claim now k ttl s)) k' t"
    for s now k ttl t k'
    by (auto simp: memory_defs split: option.splits if_splits)
  show "distinct_keys s \<Longrightarrow> now \<le> t \<Longrightarrow> k' \<noteq> k \<Longrightarrow>
      memory_held (snd (memory_claim now k ttl s)) k' t \<longleftrightarrow> memory_held s k' t" for s now k ttl t k'
    by (auto simp: memory_defs split: option.splits if_splits)
qed

section \<open>Buckets\<close>

datatype bucket_result = Granted | Refused int

definition ceil_div :: "int \<Rightarrow> int \<Rightarrow> int" where
  "ceil_div a b = - ((- a) div b)"

text \<open>
  \<open>bucket(store, limit, windowMs)\<close> applied to a key: a hit at \<open>now\<close>, and the clock read again at \<open>now'\<close> for the
  time to wait.
\<close>

definition take_bucket ::
  "(int \<Rightarrow> string \<Rightarrow> int \<Rightarrow> 's \<Rightarrow> (nat \<times> int) \<times> 's) \<Rightarrow> nat \<Rightarrow> int \<Rightarrow> int \<Rightarrow> int \<Rightarrow> string \<Rightarrow> 's \<Rightarrow> bucket_result \<times> 's" where
  "take_bucket hit limit window_ms now now' key s =
     (case hit now key window_ms s of
        ((count, reset_at), s') \<Rightarrow>
          (if count \<le> limit then Granted else Refused (max 1 (ceil_div (reset_at - now') 1000)), s'))"

text \<open>\<open>rateLimit\<close>: the handler goes on, or fails with RATE_LIMITED and the header \<open>retry-after\<close>.\<close>

definition rate_limit ::
  "(int \<Rightarrow> string \<Rightarrow> int \<Rightarrow> 's \<Rightarrow> (nat \<times> int) \<times> 's) \<Rightarrow> nat \<Rightarrow> int \<Rightarrow> int \<Rightarrow> int \<Rightarrow> string \<Rightarrow> 's
   \<Rightarrow> (error \<times> int + unit) \<times> 's" where
  "rate_limit hit limit window_ms now now' key s =
     (case take_bucket hit limit window_ms now now' key s of
        (Granted, s') \<Rightarrow> (Inr (), s')
      | (Refused retry_after, s') \<Rightarrow> (Inl (app_err RATE_LIMITED, retry_after), s'))"

text \<open>A series of requests, each with its time, key, limit and window, and how many of key \<open>k\<close> were granted.\<close>

datatype request = Req (rq_time: int) (rq_key: string) (rq_limit: nat) (rq_window: int)

fun serve ::
  "(int \<Rightarrow> string \<Rightarrow> int \<Rightarrow> 's \<Rightarrow> (nat \<times> int) \<times> 's) \<Rightarrow> request list \<Rightarrow> 's \<Rightarrow> (request \<times> bucket_result) list \<times> 's" where
  "serve hit [] s = ([], s)"
| "serve hit (q # qs) s =
     (let (r, s1) = take_bucket hit (rq_limit q) (rq_window q) (rq_time q) (rq_time q) (rq_key q) s;
          (rs, s2) = serve hit qs s1
      in ((q, r) # rs, s2))"

definition granted :: "string \<Rightarrow> (request \<times> bucket_result) list \<Rightarrow> nat" where
  "granted k rs = length (filter (\<lambda>(q, r). rq_key q = k \<and> r = Granted) rs)"

lemma granted_Nil [simp]: "granted k [] = 0"
  by (simp add: granted_def)

lemma granted_Cons [simp]:
  "granted k ((q, r) # rs) = (if rq_key q = k \<and> r = Granted then 1 else 0) + granted k rs"
  by (simp add: granted_def)

lemma granted_append [simp]: "granted k (xs @ ys) = granted k xs + granted k ys"
  by (simp add: granted_def)

lemma serve_append:
  "serve hit (xs @ ys) s = (let (rs, s1) = serve hit xs s; (rs', s2) = serve hit ys s1 in (rs @ rs', s2))"
  by (induction xs arbitrary: s) (auto simp: Let_def split: prod.splits)

text \<open>All requests of \<open>k\<close> are under one limit and window.\<close>

definition uniform :: "string \<Rightarrow> nat \<Rightarrow> int \<Rightarrow> request list \<Rightarrow> bool" where
  "uniform k limit w qs \<longleftrightarrow> (\<forall>q \<in> set qs. rq_key q = k \<longrightarrow> rq_limit q = limit \<and> rq_window q = w)"

lemma uniform_Cons [simp]:
  "uniform k limit w (q # qs) \<longleftrightarrow> (rq_key q = k \<longrightarrow> rq_limit q = limit \<and> rq_window q = w) \<and> uniform k limit w qs"
  by (auto simp: uniform_def)

lemma ceil_div_bound: "0 < b \<Longrightarrow> a \<le> b * ceil_div a b \<and> b * ceil_div a b < a + b"
  unfolding ceil_div_def
  by (smt (verit, best) minus_mult_right mult_div_mod_eq pos_mod_bound pos_mod_sign)

context bucket_store begin

abbreviation serve_all :: "request list \<Rightarrow> 's \<Rightarrow> (request \<times> bucket_result) list" where
  "serve_all qs s \<equiv> fst (serve hit qs s)"

text \<open>How many more requests of \<open>k\<close> the open window admits.\<close>

definition room :: "nat \<Rightarrow> string \<Rightarrow> int \<Rightarrow> 's \<Rightarrow> nat" where
  "room limit k t s = (case window s k t of None \<Rightarrow> 0 | Some (c, e) \<Rightarrow> limit - c)"

lemma window_earlier: "window s k t = Some ce \<Longrightarrow> t0 \<le> t \<Longrightarrow> window s k t0 = Some ce"
proof (cases "window s k t0")
  case None
  moreover assume "window s k t = Some ce" "t0 \<le> t"
  ultimately show ?thesis using window_closed [of s k t0 t] by simp
next
  case (Some ce')
  moreover assume "window s k t = Some ce" "t0 \<le> t"
  ultimately show ?thesis
    using window_later [of s k t0 "fst ce'" "snd ce'" t] by (simp split: if_splits)
qed

lemma room_later: "t0 \<le> t \<Longrightarrow> room limit k t s \<le> room limit k t0 s"
  using window_earlier [of s k t _ t0] by (cases "window s k t") (auto simp: room_def)

lemma take_bucket_state: "snd (take_bucket hit limit w t t' k s) = snd (hit t k w s)"
  by (simp add: take_bucket_def split: prod.splits)

lemma take_bucket_grants: "fst (take_bucket hit limit w t t' k s) = Granted \<longleftrightarrow> fst (fst (hit t k w s)) \<le> limit"
  by (simp add: take_bucket_def split: prod.splits)

lemma serve_Cons:
  "serve_all (q # qs) s
   = (q, fst (take_bucket hit (rq_limit q) (rq_window q) (rq_time q) (rq_time q) (rq_key q) s))
     # serve_all qs (snd (hit (rq_time q) (rq_key q) (rq_window q) s))"
  by (simp add: Let_def take_bucket_state split: prod.splits)
    (metis fst_conv prod.collapse snd_conv take_bucket_state)

text \<open>Within one window: no more than its room.\<close>

lemma window_bound:
  assumes "store_ok s" "window s k t0 = Some (c, e)" "sorted (t0 # map rq_time qs)" "\<forall>q \<in> set qs. rq_time q < e"
    "uniform k limit w qs"
  shows "granted k (serve_all qs s) \<le> limit - c"
  using assms
proof (induction qs arbitrary: s t0 c)
  case (Cons q qs)
  obtain t k' l' w' where q: "q = Req t k' l' w'" by (cases q)
  have le: "t0 \<le> t" "t < e" "sorted (t # map rq_time qs)" "\<forall>q \<in> set qs. rq_time q < e"
    "uniform k limit w qs" "k' = k \<longrightarrow> l' = limit \<and> w' = w"
    using Cons.prems(3-5) q by auto
  have w: "window s k t = Some (c, e)" using window_later [OF Cons.prems(2) le(1)] le(2) by simp
  note ok = hit_ok [OF Cons.prems(1), of t k' w']
  show ?case
  proof (cases "k' = k")
    case True
    have h: "fst (hit t k w' s) = (c + 1, e)" using hit_result [OF Cons.prems(1)] w by simp
    then have "window (snd (hit t k w' s)) k t = Some (c + 1, e)"
      using hit_same [OF Cons.prems(1), of t t k w'] le(2) by simp
    from Cons.IH [OF ok [unfolded True] this le(3-5)] show ?thesis
      using h True le(6) by (auto simp: q serve_Cons take_bucket_grants simp del: serve.simps)
  next
    case False
    then have "window (snd (hit t k' w' s)) k t = Some (c, e)"
      using hit_other [OF Cons.prems(1), of t t k k'] w by simp
    from Cons.IH [OF ok this le(3-5)] show ?thesis
      using False by (auto simp: q serve_Cons simp del: serve.simps)
  qed
qed simp

text \<open>Within any interval no longer than a window: the rest of the open window and one fresh one.\<close>

lemma sliding_room:
  assumes "store_ok s" "sorted (t0 # map rq_time qs)" "\<forall>q \<in> set qs. rq_time q < t0 + w" "uniform k limit w qs"
  shows "granted k (serve_all qs s) \<le> room limit k t0 s + limit"
  using assms
proof (induction qs arbitrary: s t0)
  case (Cons q qs)
  obtain t k' l' w' where q: "q = Req t k' l' w'" by (cases q)
  have le: "t0 \<le> t" "t < t0 + w" "sorted (t # map rq_time qs)" "\<forall>q \<in> set qs. rq_time q < t0 + w"
    "uniform k limit w qs" "k' = k \<longrightarrow> l' = limit \<and> w' = w"
    using Cons.prems(2-4) q by auto
  then have le': "\<forall>q \<in> set qs. rq_time q < t + w" by auto
  note ok = hit_ok [OF Cons.prems(1), of t k' w']
  note IH = Cons.IH [OF ok le(3) le' le(5)]
  show ?case
  proof (cases "k' = k")
    case True
    with le(6) have lw: "l' = limit" "w' = w" by simp_all
    show ?thesis
    proof (cases "window s k t")
      case None
      then have h: "fst (hit t k w s) = (1, t + w)" using hit_result [OF Cons.prems(1)] by simp
      then have "window (snd (hit t k w s)) k t = Some (1, t + w)"
        using hit_same [OF Cons.prems(1), of t t k w] le(1,2) by simp
      from window_bound [OF ok [unfolded True lw] this le(3) le' le(5)] show ?thesis
        using h True lw by (auto simp: q serve_Cons take_bucket_grants simp del: serve.simps)
    next
      case (Some ce)
      obtain c e where ce: "ce = (c, e)" by force
      have t0: "window s k t0 = Some (c, e)" using window_earlier [OF _ le(1)] Some ce by simp
      have h: "fst (hit t k w s) = (c + 1, e)" using hit_result [OF Cons.prems(1)] Some ce by simp
      then have "window (snd (hit t k w s)) k t = Some (c + 1, e)"
        using hit_same [OF Cons.prems(1), of t t k w] window_open Some ce by simp
      with IH h t0 True lw show ?thesis
        by (auto simp: q serve_Cons take_bucket_grants room_def simp del: serve.simps)
    qed
  next
    case False
    then have "window (snd (hit t k' w' s)) k t = window s k t"
      using hit_other [OF Cons.prems(1), of t t k k'] by simp
    then have "room limit k t (snd (hit t k' w' s)) \<le> room limit k t0 s"
      using room_later [OF le(1), of limit k s] by (simp add: room_def)
    with IH False show ?thesis
      by (auto simp: q serve_Cons simp del: serve.simps)
  qed
qed simp

lemma sliding_bound:
  assumes "store_ok s" "sorted (map rq_time qs)" "\<forall>q \<in> set qs. t0 \<le> rq_time q \<and> rq_time q < t0 + w"
    "uniform k limit w qs"
  shows "granted k (serve_all qs s) \<le> 2 * limit"
proof -
  have "granted k (serve_all qs s) \<le> room limit k t0 s + limit"
    using assms by (intro sliding_room) auto
  moreover have "room limit k t0 s \<le> limit" by (auto simp: room_def split: option.splits)
  ultimately show ?thesis by simp
qed

text \<open>The wait a refusal names is at least a second and ends no earlier than the window and less than a second after.\<close>

lemma refusal_wait:
  assumes "store_ok s" "fst (take_bucket hit limit w t t' k s) = Refused n"
  shows "1 \<le> n \<and> (\<exists>c e. fst (hit t k w s) = (c, e) \<and> limit < c \<and> e \<le> t' + n * 1000 \<and> (n = 1 \<or> t' + n * 1000 < e + 1000))"
proof -
  obtain c e s' where h: "hit t k w s = ((c, e), s')" by (metis prod.collapse)
  with assms(2) have n: "limit < c" "n = max 1 (ceil_div (e - t') 1000)"
    by (auto simp: take_bucket_def split: if_splits)
  show ?thesis
    using n h ceil_div_bound [of 1000 "e - t'"] by (auto simp: max_def)
qed

end

context replay_store begin

text \<open>A claim that went through stands in the way of every other until its lifetime is over.\<close>

fun claims :: "(int \<times> string \<times> int) list \<Rightarrow> 's \<Rightarrow> bool list" where
  "claims [] s = []"
| "claims ((t, k, ttl) # xs) s = fst (claim t k ttl s) # claims xs (snd (claim t k ttl s))"

lemma claimed_blocks:
  assumes "seen_ok s" "held s k t" "sorted (map fst xs)" "\<forall>(t', _) \<in> set xs. t' \<le> t"
  shows "\<forall>i < length xs. fst (snd (xs ! i)) = k \<longrightarrow> \<not> claims xs s ! i"
  using assms
proof (induction xs arbitrary: s)
  case (Cons x xs)
  obtain t' k' ttl where x: "x = (t', k', ttl)" by (cases x)
  have t': "t' \<le> t" using Cons.prems(4) x by auto
  have "held s k t'" if "k' = k"
    using Cons.prems(2) t' that held_earlier by blast
  with Cons.prems(1) have "k' = k \<Longrightarrow> \<not> fst (claim t' k' ttl s)" by (simp add: claim_result)
  moreover have "held (snd (claim t' k' ttl s)) k t"
    using Cons.prems(1,2) t' by (intro claim_keeps)
  then have "\<forall>i < length xs. fst (snd (xs ! i)) = k \<longrightarrow> \<not> claims xs (snd (claim t' k' ttl s)) ! i"
    using Cons.prems claim_ok by (intro Cons.IH) (auto simp: x)
  ultimately show ?case
    by (auto simp: x less_Suc_eq_0_disj)
qed simp

end

end
