(* ===== verification/Budgets.thy ===== *)
theory Budgets
  imports Stores
begin

text \<open>
  \<open>server/src/write-budgets.ts\<close>, and what the in-memory stores guarantee their users. One call of \<open>spend\<close> reads
  the clock once here. Reporting (metrics, log lines) is left out.
\<close>

datatype write_kind = Write_control | Write_create

abbreviation minute_ms :: int where "minute_ms \<equiv> 60000"
abbreviation hour_ms :: int where "hour_ms \<equiv> 3600000"

definition control_grant_key :: "string \<Rightarrow> string" where "control_grant_key g = ''control-grant:'' @ g"
definition control_device_key :: "string \<Rightarrow> string" where "control_device_key d = ''control-device:'' @ d"
definition create_grant_key :: "string \<Rightarrow> string" where "create_grant_key g = ''create-grant:'' @ g"

text \<open>\<open>spend\<close>: every bucket the write falls under is counted, then the first refusal decides.\<close>

definition spend ::
  "(int \<Rightarrow> string \<Rightarrow> int \<Rightarrow> 's \<Rightarrow> (nat \<times> int) \<times> 's) \<Rightarrow> bool \<Rightarrow> int \<Rightarrow> write_kind \<Rightarrow> string \<Rightarrow> string option \<Rightarrow> 's
   \<Rightarrow> bucket_result \<times> 's" where
  "spend hit enforcing now kind grant device s =
     (let (results, s') =
        (case kind of
           Write_control \<Rightarrow>
             (let (r1, s1) = take_bucket hit 20 minute_ms now now (control_grant_key grant) s
              in (case truthy device of
                    None \<Rightarrow> ([r1], s1)
                  | Some d \<Rightarrow>
                      (let (r2, s2) = take_bucket hit 6 minute_ms now now (control_device_key d) s1
                       in ([r1, r2], s2))))
         | Write_create \<Rightarrow>
             (let (r1, s1) = take_bucket hit 10 hour_ms now now (create_grant_key grant) s in ([r1], s1)))
      in case find (\<lambda>r. r \<noteq> Granted) results of
           None \<Rightarrow> (Granted, s')
         | Some r \<Rightarrow> if \<not> enforcing then (Granted, s') else (r, s'))"

datatype write_event = Write (wr_time: int) (wr_kind: write_kind) (wr_grant: string) (wr_device: "string option")

fun spend_all ::
  "(int \<Rightarrow> string \<Rightarrow> int \<Rightarrow> 's \<Rightarrow> (nat \<times> int) \<times> 's) \<Rightarrow> write_event list \<Rightarrow> 's \<Rightarrow> (write_event \<times> bucket_result) list \<times> 's" where
  "spend_all hit [] s = ([], s)"
| "spend_all hit (x # xs) s =
     (let (r, s1) = spend hit True (wr_time x) (wr_kind x) (wr_grant x) (wr_device x) s;
          (rs, s2) = spend_all hit xs s1
      in ((x, r) # rs, s2))"

definition allowed :: "(write_event \<Rightarrow> bool) \<Rightarrow> (write_event \<times> bucket_result) list \<Rightarrow> nat" where
  "allowed P rs = length (filter (\<lambda>(x, r). P x \<and> r = Granted) rs)"

text \<open>The bucket requests a write makes.\<close>

fun requests_of :: "write_event \<Rightarrow> request list" where
  "requests_of (Write t Write_control g dev) =
     Req t (control_grant_key g) 20 minute_ms
     # (case truthy dev of None \<Rightarrow> [] | Some d \<Rightarrow> [Req t (control_device_key d) 6 minute_ms])"
| "requests_of (Write t Write_create g dev) = [Req t (create_grant_key g) 10 hour_ms]"

lemma key_simps [simp]:
  "control_grant_key g = control_grant_key g' \<longleftrightarrow> g = g'"
  "control_device_key d = control_device_key d' \<longleftrightarrow> d = d'"
  "create_grant_key g = create_grant_key g' \<longleftrightarrow> g = g'"
  "control_grant_key g \<noteq> control_device_key d" "control_device_key d \<noteq> control_grant_key g"
  "control_grant_key g \<noteq> create_grant_key g'" "create_grant_key g' \<noteq> control_grant_key g"
  "control_device_key d \<noteq> create_grant_key g'" "create_grant_key g' \<noteq> control_device_key d"
  by (simp_all add: control_grant_key_def control_device_key_def create_grant_key_def)

lemma requests_time: "q \<in> set (requests_of x) \<Longrightarrow> rq_time q = wr_time x"
  by (cases x rule: requests_of.cases) (auto split: option.splits)

lemma requests_sorted:
  "sorted (map wr_time xs) \<Longrightarrow> sorted (map rq_time (concat (map requests_of xs)))"
proof (induction xs)
  case (Cons x xs)
  have "sorted (map rq_time (requests_of x))"
    by (cases x rule: requests_of.cases) (auto split: option.splits)
  with Cons show ?case
    by (fastforce simp: sorted_append dest!: requests_time)
qed simp

lemma requests_range:
  "\<forall>x \<in> set xs. P (wr_time x) \<Longrightarrow> \<forall>q \<in> set (concat (map requests_of xs)). P (rq_time q)"
  by (auto dest!: requests_time)

lemma requests_uniform:
  "uniform (control_device_key d) 6 minute_ms (concat (map requests_of xs))"
  "uniform (control_grant_key g) 20 minute_ms (concat (map requests_of xs))"
  "uniform (create_grant_key g) 10 hour_ms (concat (map requests_of xs))"
proof -
  have "uniform (control_device_key d) 6 minute_ms (requests_of x)
      \<and> uniform (control_grant_key g) 20 minute_ms (requests_of x)
      \<and> uniform (create_grant_key g) 10 hour_ms (requests_of x)" for x
    by (cases x rule: requests_of.cases) (auto simp: uniform_def split: option.splits)
  then show "uniform (control_device_key d) 6 minute_ms (concat (map requests_of xs))"
    "uniform (control_grant_key g) 20 minute_ms (concat (map requests_of xs))"
    "uniform (create_grant_key g) 10 hour_ms (concat (map requests_of xs))"
    by (auto simp: uniform_def)
qed

lemma spend_serve:
  "snd (spend hit True t kind g dev s) = snd (serve hit (requests_of (Write t kind g dev)) s)"
  "fst (spend hit True t kind g dev s) = Granted \<Longrightarrow>
     \<forall>(q, r) \<in> set (fst (serve hit (requests_of (Write t kind g dev)) s)). r = Granted"
  by (cases kind; cases "truthy dev"; auto simp: spend_def Let_def split: prod.splits if_splits)+

lemma serve_requests: "map fst (fst (serve hit qs s)) = qs"
proof (induction qs arbitrary: s)
  case (Cons q qs)
  show ?case
    using Cons by (simp add: Let_def case_prod_beta)
qed simp

lemma granted_all:
  "\<forall>(q, r) \<in> set rs. r = Granted \<Longrightarrow> k \<in> rq_key ` set (map fst rs) \<Longrightarrow> 1 \<le> granted k rs"
  by (induction rs) (force simp: image_iff)+

text \<open>The writes allowed are among the requests granted of any bucket they all go through.\<close>

lemma allowed_granted:
  assumes "\<And>x. P x \<Longrightarrow> k \<in> rq_key ` set (requests_of x)"
  shows "allowed P (fst (spend_all hit xs s)) \<le> granted k (fst (serve hit (concat (map requests_of xs)) s))"
proof (induction xs arbitrary: s)
  case (Cons x xs)
  obtain t kind g dev where x: "x = Write t kind g dev" by (cases x)
  obtain r s1 where sp: "spend hit True t kind g dev s = (r, s1)" by force
  obtain rs1 where sv: "serve hit (requests_of x) s = (rs1, s1)"
    using spend_serve(1) [of hit t kind g dev s] sp x by (cases "serve hit (requests_of x) s") auto
  have "(if P x \<and> r = Granted then 1 else 0) \<le> granted k rs1"
    using assms [of x] spend_serve(2) [of hit t kind g dev s] sp sv x serve_requests [of hit "requests_of x" s]
      granted_all [of rs1 k] by auto
  moreover have "granted k (fst (serve hit (concat (map requests_of (x # xs))) s))
      = granted k rs1 + granted k (fst (serve hit (concat (map requests_of xs)) s1))"
    by (simp add: serve_append sv case_prod_beta Let_def)
  moreover have "allowed P (fst (spend_all hit (x # xs) s))
      = (if P x \<and> r = Granted then 1 else 0) + allowed P (fst (spend_all hit xs s1))"
    using sp by (simp add: x case_prod_beta Let_def allowed_def)
  ultimately show ?case using Cons [of s1] by simp
qed (simp add: allowed_def)

section \<open>Properties\<close>

text \<open>A rate limit over the in-memory store: whatever keys are mixed in, a key is let through at most
  twice its limit in any interval of one window, and at most its limit when a window opens with the interval.\<close>

theorem rate_limit_bounds:
  assumes "distinct_keys s" "sorted (map rq_time qs)" "uniform k limit w qs"
    and "\<forall>q \<in> set qs. t0 \<le> rq_time q \<and> rq_time q < t0 + w"
  shows "granted k (fst (serve memory_hit qs s)) \<le> 2 * limit
    \<and> (memory_window s k t0 = None \<longrightarrow> granted k (fst (serve memory_hit qs s)) \<le> limit)"
proof -
  have "granted k (fst (serve memory_hit qs s)) \<le> memory_buckets.room limit k t0 s + limit"
    using assms by (intro memory_buckets.sliding_room) auto
  then show ?thesis
    using memory_buckets.sliding_bound [OF assms(1,2,4,3)] by (auto simp: memory_buckets.room_def)
qed

theorem rate_limit_bounds_witness:
  "granted ''k'' (fst (serve memory_hit [Req 1 ''k'' 1 10, Req 2 ''k'' 1 10, Req 3 ''j'' 1 10] [])) \<le> 1"
  using rate_limit_bounds [of "[]" "[Req 1 ''k'' 1 10, Req 2 ''k'' 1 10, Req 3 ''j'' 1 10]" "''k''" 1 10 1]
  by (simp add: distinct_keys_def uniform_def memory_window_def)

text \<open>A refused request is told how long to wait: RATE_LIMITED, with a wait of at least one second that ends no
  earlier than the window and, beyond that one second, less than a second after it.\<close>

theorem rate_limited_wait:
  assumes "distinct_keys s" "fst (rate_limit memory_hit limit w now now' k s) = Inl (err, wait)"
  shows "err = app_err RATE_LIMITED \<and> 1 \<le> wait
    \<and> (\<exists>c e. fst (memory_hit now k w s) = (c, e) \<and> limit < c
         \<and> e \<le> now' + wait * 1000 \<and> (wait = 1 \<or> now' + wait * 1000 < e + 1000))"
proof -
  have "fst (take_bucket memory_hit limit w now now' k s) = Refused wait" "err = app_err RATE_LIMITED"
    using assms(2) by (auto simp: rate_limit_def split: prod.splits bucket_result.splits)
  with memory_buckets.refusal_wait [OF assms(1)] show ?thesis by blast
qed

theorem rate_limited_wait_witness:
  "\<exists>c e. fst (memory_hit 4000 ''k'' 9000 [(''k'', (1, 9500))]) = (c, e) \<and> 1 < c \<and> e \<le> 4000 + 6 * 1000"
  using rate_limited_wait [of "[(''k'', (1, 9500))]" 1 9000 4000 4000 "''k''" "app_err RATE_LIMITED" 6]
  by (simp add: distinct_keys_def rate_limit_def take_bucket_def memory_hit_def ceil_div_def)

text \<open>A single-use identifier is accepted once: after a claim that went through, no other claim of the same key
  succeeds until its lifetime has run out, whatever else is claimed in between and however often the store is swept.\<close>

theorem claimed_once:
  assumes "distinct_keys s" "memory_claim t k ttl s = (True, s1)"
    and "sorted (map fst xs)" "\<forall>(t', _) \<in> set xs. t' < t + ttl * 1000" "i < length xs" "fst (snd (xs ! i)) = k"
  shows "\<not> memory_replays.claims xs s1 ! i"
proof (cases "xs = []")
  case False
  let ?last = "t + ttl * 1000 - 1"
  have "memory_held s1 k ?last"
    using memory_replays.claim_holds [OF assms(1), of t k ttl ?last] assms(2) by simp
  moreover have "distinct_keys s1"
    using memory_replays.claim_ok [OF assms(1), of t k ttl] assms(2) by simp
  moreover have "\<forall>(t', _) \<in> set xs. t' \<le> ?last" using assms(4) by auto
  ultimately show ?thesis
    using memory_replays.claimed_blocks [of s1 k ?last xs] assms(3,5,6) by blast
qed (use assms(5) in simp)

theorem claimed_once_witness:
  "\<not> memory_replays.claims [(6, ''other'', 60), (9, ''jti'', 60)] [(''jti'', 60005)] ! 1"
  using claimed_once [of "[]" 5 "''jti''" 60 "[(''jti'', 60005)]" "[(6, ''other'', 60), (9, ''jti'', 60)]" 1]
  by (simp add: distinct_keys_def memory_claim_def)

text \<open>C12. What a runaway agent can do: over any minute the budgets allow at most 12 switches of one device, from any
  grants together, and at most 40 switches by one grant, and over any hour at most 20 new devices by one grant,
  whatever the other writes are.\<close>

theorem write_budget_bounds:
  assumes "distinct_keys s" "sorted (map wr_time xs)" "d \<noteq> []"
  shows "((\<forall>x \<in> set xs. t0 \<le> wr_time x \<and> wr_time x < t0 + minute_ms) \<longrightarrow>
      allowed (\<lambda>x. wr_kind x = Write_control \<and> wr_device x = Some d) (fst (spend_all memory_hit xs s)) \<le> 12
      \<and> allowed (\<lambda>x. wr_kind x = Write_control \<and> wr_grant x = g) (fst (spend_all memory_hit xs s)) \<le> 40)
    \<and> ((\<forall>x \<in> set xs. t0 \<le> wr_time x \<and> wr_time x < t0 + hour_ms) \<longrightarrow>
      allowed (\<lambda>x. wr_kind x = Write_create \<and> wr_grant x = g) (fst (spend_all memory_hit xs s)) \<le> 20)"
proof -
  note srt = requests_sorted [OF assms(2)]
  have bound: "allowed P (fst (spend_all memory_hit xs s)) \<le> 2 * limit"
    if "uniform k limit w (concat (map requests_of xs))" "\<forall>x \<in> set xs. t0 \<le> wr_time x \<and> wr_time x < t0 + w"
      "\<And>x. P x \<Longrightarrow> k \<in> rq_key ` set (requests_of x)" for P k limit w
    using memory_buckets.sliding_bound [OF assms(1) srt requests_range [OF that(2)] that(1)]
      allowed_granted [of P k memory_hit xs s] that(3) by (meson order_trans)
  have keys: "wr_kind x = Write_control \<and> wr_device x = Some d \<Longrightarrow> control_device_key d \<in> rq_key ` set (requests_of x)"
    "wr_kind x = Write_control \<and> wr_grant x = g \<Longrightarrow> control_grant_key g \<in> rq_key ` set (requests_of x)"
    "wr_kind x = Write_create \<and> wr_grant x = g \<Longrightarrow> create_grant_key g \<in> rq_key ` set (requests_of x)" for x
    using assms(3) by (cases x rule: requests_of.cases; auto)+
  show ?thesis
    using bound [OF requests_uniform(1) _ keys(1)] bound [OF requests_uniform(2) _ keys(2)]
      bound [OF requests_uniform(3) _ keys(3)] by simp
qed

theorem write_budget_bounds_witness:
  "allowed (\<lambda>x. wr_kind x = Write_control \<and> wr_device x = Some ''dev_1'')
     (fst (spend_all memory_hit [Write 1 Write_control ''g'' (Some ''dev_1''), Write 2 Write_create ''g'' None] [])) \<le> 12"
  using write_budget_bounds [of "[]" "[Write 1 Write_control ''g'' (Some ''dev_1''), Write 2 Write_create ''g'' None]"
      "''dev_1''" 0]
  by (simp add: distinct_keys_def)

end
