(* ===== verification/OAuth_Config.thy ===== *)
theory OAuth_Config
  imports Names Tokens Schema "HOL-Library.Sublist"
begin

text \<open>
  \<open>server/src/oauth/config.ts\<close> and \<open>server/src/oauth/crypto.ts\<close>: scopes, resources, lifetimes, identifiers and PKCE.
  The process's configuration and its cryptographic primitives are one record, an argument of the functions that use
  them. A scope is its string.
\<close>

record env =
  en_hmac :: "string \<Rightarrow> string \<Rightarrow> string"
  en_sha256 :: "string \<Rightarrow> string"
  en_keys :: key_material
  en_auth_base :: string
  en_mcp_base :: string
  en_api_base :: string
  en_native_ttl :: int
  en_grace :: int
  en_require_offline :: bool
  en_first_party_uris :: "string option"

definition digest :: "env \<Rightarrow> string \<Rightarrow> error + string" where
  "digest env t = token_digest (en_hmac env) (en_keys env) t"

definition digests :: "env \<Rightarrow> string \<Rightarrow> string list" where
  "digests env t = token_digest_candidates (en_hmac env) (en_keys env) t"

section \<open>Scopes\<close>

definition scopes_all :: "string list" where
  "scopes_all = [''devices:read'', ''devices:control'', ''devices:create'']"

definition scopes_supported :: "string list" where
  "scopes_supported = scopes_all @ [''offline_access'']"

definition requests_offline_access :: "jsval \<Rightarrow> bool" where
  "requests_offline_access raw = (case as_str raw of None \<Rightarrow> False | Some s \<Rightarrow> ''offline_access'' \<in> set (words_on is_ws s))"

definition is_scope :: "string \<Rightarrow> bool" where
  "is_scope v \<longleftrightarrow> v \<in> set scopes_all"

definition parse_scopes :: "jsval \<Rightarrow> string list" where
  "parse_scopes raw =
     (case as_str raw of
        None \<Rightarrow> []
      | Some s \<Rightarrow> (let unique = set (filter is_scope (words_on is_ws s)) in filter (\<lambda>sc. sc \<in> unique) scopes_all))"

text \<open>Space-delimited, as the tables keep them.\<close>

definition scope_str :: "string list \<Rightarrow> string" where
  "scope_str ss = join_with '' '' ss"

definition scope_list :: "string \<Rightarrow> string list" where
  "scope_list s = words_on is_space s"

section \<open>Resources and lifetimes\<close>

definition resource_uri :: "env \<Rightarrow> string" where
  "resource_uri env = en_mcp_base env @ ''/mcp''"

definition api_resource :: "env \<Rightarrow> string" where
  "api_resource env = en_api_base env"

definition first_party_client :: string where
  "first_party_client = ''iot-switch-ios''"

definition is_comma :: "char \<Rightarrow> bool" where
  "is_comma c \<longleftrightarrow> c = CHR '',''"

definition first_party_redirect_uris :: "env \<Rightarrow> string list" where
  "first_party_redirect_uris env =
     (let configured = (case en_first_party_uris env of
            Some u \<Rightarrow> u
          | None \<Rightarrow> ''com.example.iotswitch:/oauth/callback,'' @ en_api_base env @ ''/oauth/callback'')
      in filter (\<lambda>w. w \<noteq> []) (map trim (split_on is_comma configured)))"

abbreviation par_ttl :: int where "par_ttl \<equiv> 60"
abbreviation code_ttl :: int where "code_ttl \<equiv> 60"
abbreviation pending_ttl :: int where "pending_ttl \<equiv> 900"
abbreviation access_ttl :: int where "access_ttl \<equiv> 3600"
abbreviation refresh_ttl :: int where "refresh_ttl \<equiv> 2592000"
abbreviation max_registered_clients :: nat where "max_registered_clients \<equiv> 500"
abbreviation unused_client_ttl :: int where "unused_client_ttl \<equiv> 86400"

section \<open>Identifiers and PKCE\<close>

definition new_id :: "string \<Rightarrow> string \<Rightarrow> string" where
  "new_id pre rnd = pre @ ''_'' @ base64url rnd"

definition pkce_char :: "char \<Rightarrow> bool" where
  "pkce_char c \<longleftrightarrow> is_alnum c \<or> c \<in> set ''-._~''"

definition verify_pkce :: "env \<Rightarrow> jsval \<Rightarrow> string \<Rightarrow> bool" where
  "verify_pkce env verifier challenge =
     (case as_str verifier of
        None \<Rightarrow> False
      | Some v \<Rightarrow>
          if length v < 43 \<or> 128 < length v then False
          else if \<not> (v \<noteq> [] \<and> (\<forall>c \<in> set v. pkce_char c)) then False
          else base64url (en_sha256 env v) = challenge)"

section \<open>Facts\<close>

lemma scopes_words: "\<forall>w \<in> set scopes_supported. w \<noteq> [] \<and> (\<forall>c \<in> set w. \<not> is_ws c)"
  by (simp add: scopes_supported_def scopes_all_def is_ws_def)

lemma scope_list_str:
  "\<forall>w \<in> set ss. w \<noteq> [] \<and> (\<forall>c \<in> set w. \<not> is_space c) \<Longrightarrow> scope_list (scope_str ss) = ss"
  unfolding scope_list_def scope_str_def by (rule words_on_space_join)

lemma parse_scopes_subset: "set (parse_scopes raw) \<subseteq> set scopes_all"
  by (auto simp: parse_scopes_def Let_def split: option.splits)

lemma parse_scopes_distinct: "distinct (parse_scopes raw)"
  by (auto simp: parse_scopes_def scopes_all_def Let_def split: option.splits)

lemma scopes_no_space:
  assumes "set ss \<subseteq> set scopes_all"
  shows "\<forall>w \<in> set ss. w \<noteq> [] \<and> (\<forall>c \<in> set w. \<not> is_space c)"
  using assms scopes_words is_space_ws by (fastforce simp: scopes_supported_def)

lemma words_on_ws_chars: "w \<in> set (words_on is_ws s) \<Longrightarrow> w \<noteq> [] \<and> (\<forall>c \<in> set w. \<not> is_space c)"
  using words_on_chars is_space_ws by blast

lemma digest_in_digests: "digest env t = Inr d \<Longrightarrow> d \<in> set (digests env t)"
  unfolding digest_def digests_def by (rule token_digest_candidate)

lemma digests_eq:
  "hmac_injective (en_hmac env) \<Longrightarrow> d \<in> set (digests env t) \<Longrightarrow> d \<in> set (digests env t') \<Longrightarrow> t = t'"
  unfolding digests_def by (rule candidates_eq)

text \<open>The stored form of scopes loses nothing: whatever scope parameter a client sends, writing the scopes kept
  from it into a column and reading them back gives the same scopes, which are known, in the canonical order and
  without repetition.\<close>

theorem scopes_roundtrip:
  "scope_list (scope_str (parse_scopes raw)) = parse_scopes raw
   \<and> parse_scopes (JStr (scope_str (parse_scopes raw))) = parse_scopes raw
   \<and> subseq (parse_scopes raw) scopes_all"
proof -
  have l: "words_on is_ws (join_with '' '' (parse_scopes raw)) = parse_scopes raw"
    using parse_scopes_subset [of raw] scopes_words
    by (intro words_on_join) (auto simp: scopes_supported_def)
  have f: "filter (\<lambda>sc. sc \<in> set (parse_scopes raw)) scopes_all = parse_scopes raw"
    by (auto simp: parse_scopes_def Let_def split: option.splits intro!: filter_cong)
  moreover have "filter is_scope (parse_scopes raw) = parse_scopes raw"
    using parse_scopes_subset [of raw] by (intro filter_True) (auto simp: is_scope_def)
  ultimately have "parse_scopes (JStr (scope_str (parse_scopes raw))) = parse_scopes raw"
    by (simp add: parse_scopes_def [of "JStr _"] scope_str_def l)
  moreover have "scope_list (scope_str (parse_scopes raw)) = parse_scopes raw"
    by (rule scope_list_str [OF scopes_no_space [OF parse_scopes_subset]])
  moreover have "subseq (parse_scopes raw) scopes_all"
    by (metis f subseq_filter_left)
  ultimately show ?thesis by blast
qed

end
