(* ===== verification/Sessions.thy ===== *)
theory Sessions
  imports OAuth_Config Accounts
begin

text \<open>
  \<open>server/src/oauth/session.ts\<close> and \<open>server/src/oauth/grant-usage.ts\<close>: the authorization server's browser
  sessions, and the record of when a grant was last used. Each statement reads the database clock \<open>now\<close>, in
  microseconds; \<open>touchGrant\<close> also reads the process clock \<open>now_ms\<close>.
\<close>

abbreviation session_idle :: int where "session_idle \<equiv> 1800"
abbreviation session_absolute :: int where "session_absolute \<equiv> 43200"

record as_session =
  se_account :: string
  se_auth_time :: int
  se_auth_age :: int
  se_acr :: string

definition start_as_session :: "env \<Rightarrow> int \<Rightarrow> string \<Rightarrow> string \<Rightarrow> string \<Rightarrow> database \<Rightarrow> (error + string) \<times> database" where
  "start_as_session env now rnd account acr db =
     (let token = mint Session rnd in
      case digest env token of
        Inl e \<Rightarrow> (Inl e, db)
      | Inr h \<Rightarrow>
          if h \<in> ss_hash ` set (t_sessions db) then (Inl (DbError unique_violation), db)
          else if \<not> account_exists account db then (Inl (DbError foreign_key_violation), db)
          else (Inr token, db\<lparr>t_sessions := t_sessions db @
                 [\<lparr>ss_hash = h, ss_account = account, ss_auth_time = now, ss_acr = acr,
                   ss_idle_expires = now + secs session_idle, ss_absolute_expires = now + secs session_absolute,
                   ss_revoked_at = None, ss_created_at = now\<rparr>]\<rparr>))"

definition session_live :: "env \<Rightarrow> int \<Rightarrow> string \<Rightarrow> session_row \<Rightarrow> bool" where
  "session_live env now token r \<longleftrightarrow>
     ss_hash r \<in> set (digests env token) \<and> ss_revoked_at r = None \<and> now < ss_idle_expires r \<and> now < ss_absolute_expires r"

definition session_extend :: "int \<Rightarrow> session_row \<Rightarrow> session_row" where
  "session_extend now r = r\<lparr>ss_idle_expires := min (now + secs session_idle) (ss_absolute_expires r)\<rparr>"

definition read_as_session :: "env \<Rightarrow> int \<Rightarrow> jsval \<Rightarrow> database \<Rightarrow> as_session option \<times> database" where
  "read_as_session env now token db =
     (case (well_formed Session token, token) of
        (True, JStr t) \<Rightarrow>
          (case find (session_live env now t) (t_sessions db) of
             None \<Rightarrow> (None, db)
           | Some r \<Rightarrow>
               (Some \<lparr>se_account = ss_account r, se_auth_time = to_ms (ss_auth_time r),
                      se_auth_age = epoch_int (now - ss_auth_time r), se_acr = ss_acr r\<rparr>,
                db\<lparr>t_sessions := update_where (session_live env now t) (session_extend now) (t_sessions db)\<rparr>))
      | _ \<Rightarrow> (None, db))"

definition session_end :: "int \<Rightarrow> session_row \<Rightarrow> session_row" where
  "session_end now r = r\<lparr>ss_revoked_at := Some now\<rparr>"

definition revoke_as_session :: "env \<Rightarrow> int \<Rightarrow> jsval \<Rightarrow> database \<Rightarrow> database" where
  "revoke_as_session env now token db =
     (case (well_formed Session token, token) of
        (True, JStr t) \<Rightarrow>
          db\<lparr>t_sessions := update_where (\<lambda>r. ss_hash r \<in> set (digests env t) \<and> ss_revoked_at r = None)
                 (session_end now) (t_sessions db)\<rparr>
      | _ \<Rightarrow> db)"

definition revoke_all_as_sessions :: "int \<Rightarrow> string \<Rightarrow> database \<Rightarrow> database" where
  "revoke_all_as_sessions now account db =
     db\<lparr>t_sessions := update_where (\<lambda>r. ss_account r = account \<and> ss_revoked_at r = None) (session_end now) (t_sessions db)\<rparr>"

section \<open>Grant usage\<close>

text \<open>\<open>touchGrant\<close>; \<open>touched\<close> is the module's map of the last touch of each grant.\<close>

definition touch_grant ::
  "int \<Rightarrow> int \<Rightarrow> string \<Rightarrow> (string \<times> int) list \<Rightarrow> database \<Rightarrow> (string \<times> int) list \<times> database" where
  "touch_grant now_ms now grant touched db =
     (let recent = (case map_of touched grant of None \<Rightarrow> False | Some previous \<Rightarrow> now_ms - previous < 60000) in
      if recent then (touched, db)
      else (let touched1 = AList.update grant now_ms touched;
                touched2 = (if 50000 < length touched1 then sweep (\<lambda>at. 60000 \<le> now_ms - at) touched1 else touched1)
            in (touched2,
                db\<lparr>t_grants := update_where
                     (\<lambda>g. gr_id g = grant \<and> (case gr_last_used g of None \<Rightarrow> True | Some u \<Rightarrow> u < now - secs 60))
                     (\<lambda>g. g\<lparr>gr_last_used := Some now\<rparr>) (t_grants db)\<rparr>)))"

section \<open>What they guarantee\<close>

datatype session_op =
    Se_start int string string string
  | Se_read int jsval
  | Se_revoke int jsval
  | Se_revoke_all int string

fun exec_session :: "env \<Rightarrow> session_op \<Rightarrow> database \<Rightarrow> database" where
  "exec_session env (Se_start now rnd account acr) db = snd (start_as_session env now rnd account acr db)"
| "exec_session env (Se_read now token) db = snd (read_as_session env now token db)"
| "exec_session env (Se_revoke now token) db = revoke_as_session env now token db"
| "exec_session env (Se_revoke_all now account) db = revoke_all_as_sessions now account db"

definition session_dead :: "env \<Rightarrow> string \<Rightarrow> database \<Rightarrow> bool" where
  "session_dead env t db \<longleftrightarrow>
     (\<exists>r \<in> set (t_sessions db). digest env t = Inr (ss_hash r))
     \<and> (\<forall>r \<in> set (t_sessions db). ss_hash r \<in> set (digests env t) \<longrightarrow> ss_revoked_at r \<noteq> None)"

lemma session_step_simps [simp]:
  "ss_hash (session_extend now r) = ss_hash r" "ss_revoked_at (session_extend now r) = ss_revoked_at r"
  "ss_hash (session_end now r) = ss_hash r" "ss_revoked_at (session_end now r) = Some now"
  "ss_absolute_expires (session_extend now r) = ss_absolute_expires r"
  by (simp_all add: session_extend_def session_end_def)

lemma session_dead_update:
  assumes "session_dead env t db" "\<And>r. ss_hash (f r) = ss_hash r"
    "\<And>r. ss_revoked_at r \<noteq> None \<Longrightarrow> ss_revoked_at (f r) \<noteq> None"
  shows "session_dead env t (db\<lparr>t_sessions := update_where P f (t_sessions db)\<rparr>)"
  using assms by (simp add: session_dead_def ball_update_where bex_update_where)

lemma session_dead_exec:
  assumes "session_dead env t db" "hmac_injective (en_hmac env)"
  shows "session_dead env t (exec_session env x db)"
proof (cases x)
  case (Se_start now rnd account acr)
  show ?thesis
  proof (cases "start_as_session env now rnd account acr db")
    case (Pair res db')
    show ?thesis
    proof (cases "db' = db")
      case False
      with Pair obtain h r where h: "digest env (mint Session rnd) = Inr h" "h \<notin> ss_hash ` set (t_sessions db)"
        "t_sessions db' = t_sessions db @ [r]" "ss_hash r = h"
        by (auto simp: start_as_session_def Let_def split: sum.splits if_splits)
      have "h \<notin> set (digests env t)"
      proof
        assume "h \<in> set (digests env t)"
        then have "t = mint Session rnd" using digests_eq [OF assms(2)] digest_in_digests [OF h(1)] by blast
        with h assms(1) show False by (auto simp: session_dead_def)
      qed
      with h assms(1) Pair show ?thesis unfolding Se_start by (auto simp: session_dead_def)
    qed (use assms Pair Se_start in simp)
  qed
next
  case (Se_read now token)
  with assms show ?thesis
    by (auto simp: read_as_session_def split: bool.splits jsval.splits option.splits intro!: session_dead_update)
next
  case (Se_revoke now token)
  with assms show ?thesis
    by (auto simp: revoke_as_session_def split: bool.splits jsval.splits intro!: session_dead_update)
next
  case (Se_revoke_all now account)
  with assms show ?thesis
    by (auto simp: revoke_all_as_sessions_def intro!: session_dead_update)
qed

lemma session_dead_run:
  "session_dead env t db \<Longrightarrow> hmac_injective (en_hmac env) \<Longrightarrow> session_dead env t (fold (exec_session env) xs db)"
  by (induction xs arbitrary: db) (simp_all add: session_dead_exec)

lemma session_dead_read: "session_dead env t db \<Longrightarrow> fst (read_as_session env now (JStr t) db) = None"
  by (auto simp: read_as_session_def session_dead_def session_live_def split: bool.splits option.splits dest!: find_SomeD)

text \<open>A started session, and what the rows of its token are afterwards.\<close>

definition session_row_of :: "env \<Rightarrow> string \<Rightarrow> session_row \<Rightarrow> database \<Rightarrow> bool" where
  "session_row_of env t r db \<longleftrightarrow>
     digest env t = Inr (ss_hash r) \<and> r \<in> set (t_sessions db)
     \<and> (\<forall>q \<in> set (t_sessions db). ss_hash q \<in> set (digests env t) \<longrightarrow> q = r)"

lemma session_row_read:
  assumes "session_row_of env t r db" "well_formed_str Session t"
  shows "read_as_session env now (JStr t) db =
    (if ss_revoked_at r = None \<and> now < ss_idle_expires r \<and> now < ss_absolute_expires r
     then (Some \<lparr>se_account = ss_account r, se_auth_time = to_ms (ss_auth_time r),
             se_auth_age = epoch_int (now - ss_auth_time r), se_acr = ss_acr r\<rparr>,
           db\<lparr>t_sessions := update_where (session_live env now t) (session_extend now) (t_sessions db)\<rparr>)
     else (None, db))"
proof -
  have d: "ss_hash r \<in> set (digests env t)"
    using assms(1) by (auto simp: session_row_of_def intro: digest_in_digests)
  show ?thesis
  proof (cases "session_live env now t r")
    case True
    then obtain q where q: "find (session_live env now t) (t_sessions db) = Some q"
      using assms(1) by (cases "find (session_live env now t) (t_sessions db)")
        (auto simp: session_row_of_def find_None_iff)
    moreover from find_SomeD [OF q] assms(1) have "q = r"
      by (auto simp: session_row_of_def session_live_def)
    ultimately show ?thesis using True assms(2) by (auto simp: read_as_session_def session_live_def)
  next
    case False
    with assms(1) have "find (session_live env now t) (t_sessions db) = None"
      by (auto simp: find_None_iff session_row_of_def session_live_def)
    with False d assms(2) show ?thesis by (auto simp: read_as_session_def session_live_def)
  qed
qed

lemma session_row_extended:
  assumes "session_row_of env t r db" "session_live env now t r"
  shows "session_row_of env t (session_extend now r)
    (db\<lparr>t_sessions := update_where (session_live env now t) (session_extend now) (t_sessions db)\<rparr>)"
  using assms by (auto simp: session_row_of_def set_update_where)

text \<open>When reads at the given times succeed: the specification of the two limits.\<close>

fun session_spec :: "int \<Rightarrow> int \<Rightarrow> int list \<Rightarrow> bool list" where
  "session_spec idle_end absolute_end [] = []"
| "session_spec idle_end absolute_end (t # ts) =
     (let ok = t < idle_end \<and> t < absolute_end
      in ok # session_spec (if ok then t + secs session_idle else idle_end) absolute_end ts)"

fun session_reads :: "env \<Rightarrow> string \<Rightarrow> int list \<Rightarrow> database \<Rightarrow> as_session option list" where
  "session_reads env t [] db = []"
| "session_reads env t (now # ts) db =
     (let (r, db1) = read_as_session env now (JStr t) db in r # session_reads env t ts db1)"

lemma session_reads_spec:
  assumes "session_row_of env t r db" "well_formed_str Session t" "ss_revoked_at r = None"
    "ss_idle_expires r = min i (ss_absolute_expires r)"
  shows "map (\<lambda>s. s \<noteq> None) (session_reads env t ts db) = session_spec i (ss_absolute_expires r) ts"
  using assms
proof (induction ts arbitrary: db r i)
  case (Cons now ts)
  have d: "ss_hash r \<in> set (digests env t)"
    using Cons.prems(1) by (auto simp: session_row_of_def intro: digest_in_digests)
  show ?case
  proof (cases "now < i \<and> now < ss_absolute_expires r")
    case True
    then have live: "session_live env now t r" using d Cons.prems(3,4) by (simp add: session_live_def)
    have "map (\<lambda>s. s \<noteq> None) (session_reads env t ts
        (db\<lparr>t_sessions := update_where (session_live env now t) (session_extend now) (t_sessions db)\<rparr>))
      = session_spec (now + secs session_idle) (ss_absolute_expires r) ts"
      using Cons.IH [OF session_row_extended [OF Cons.prems(1) live] Cons.prems(2), of "now + secs session_idle"]
        Cons.prems(3) by (simp add: session_extend_def)
    with True Cons.prems show ?thesis
      by (simp add: session_row_read [OF Cons.prems(1,2)])
  next
    case False
    with Cons.prems Cons.IH [OF Cons.prems] show ?thesis
      by (auto simp: session_row_read [OF Cons.prems(1,2)] Let_def)
  qed
qed simp

lemma start_session_row:
  assumes "start_as_session env now rnd account acr db = (Inr t, db')"
    "\<forall>q \<in> set (t_sessions db). ss_hash q \<notin> set (digests env (mint Session rnd))"
  obtains r where "t = mint Session rnd" "session_row_of env t r db'" "ss_revoked_at r = None"
    "ss_idle_expires r = now + secs session_idle" "ss_absolute_expires r = now + secs session_absolute"
    "ss_account r = account" "ss_auth_time r = now"
proof -
  from assms(1) obtain h where h: "digest env (mint Session rnd) = Inr h" "t = mint Session rnd"
    "db' = db\<lparr>t_sessions := t_sessions db @
                 [\<lparr>ss_hash = h, ss_account = account, ss_auth_time = now, ss_acr = acr,
                   ss_idle_expires = now + secs session_idle, ss_absolute_expires = now + secs session_absolute,
                   ss_revoked_at = None, ss_created_at = now\<rparr>]\<rparr>"
    by (auto simp: start_as_session_def Let_def split: sum.splits if_splits)
  show ?thesis
    by (rule that [of "last (t_sessions db')"]) (use h assms(2) in \<open>auto simp: session_row_of_def\<close>)
qed

section \<open>Properties\<close>

definition demo_env :: env where
  "demo_env = \<lparr>en_hmac = toy_hmac, en_sha256 = (\<lambda>s. s), en_keys = demo_keys, en_auth_base = ''https://auth'',
     en_mcp_base = ''https://mcp'', en_api_base = ''https://api'', en_native_ttl = 600, en_grace = 30,
     en_require_offline = False, en_first_party_uris = None\<rparr>"

definition demo_account_db :: database where
  "demo_account_db = empty_db\<lparr>t_accounts := [demo_account_row\<lparr>acc_id := ''ann''\<rparr>]\<rparr>"

definition demo_rnd :: string where
  "demo_rnd = replicate 32 (CHR ''r'')"

lemma demo_env_simps [simp]:
  "en_hmac demo_env = toy_hmac" "en_keys demo_env = demo_keys"
  by (simp_all add: demo_env_def)

lemma demo_digest: "digest demo_env t = Inr (hex (toy_hmac ''pep'' t))" "digests demo_env t = [hex (toy_hmac ''pep'' t)]"
  by (simp_all add: digest_def digests_def token_digest_def token_digest_candidates_def demo_keys_def hmac_hex_def)

lemma demo_rnd_length: "length demo_rnd = 32"
  by (simp add: demo_rnd_def)

lemma demo_start:
  "fst (start_as_session demo_env 0 demo_rnd ''ann'' ''pwd'' demo_account_db) = Inr (mint Session demo_rnd)"
  by (simp add: start_as_session_def demo_digest demo_account_db_def empty_db_def account_exists_def Let_def)

text \<open>A browser session works exactly while both limits hold: reads of a new session succeed as the two-limit
  specification says, at the times they are made: within 30 minutes of the last one that succeeded (or of the sign-in)
  and within 12 hours of the sign-in.\<close>

theorem session_lifetime:
  assumes "start_as_session env now rnd account acr db = (Inr t, db')" "length rnd = 32"
    and "\<forall>q \<in> set (t_sessions db). ss_hash q \<notin> set (digests env (mint Session rnd))"
  shows "map (\<lambda>s. s \<noteq> None) (session_reads env t ts db')
    = session_spec (now + secs session_idle) (now + secs session_absolute) ts"
proof -
  obtain r where r: "t = mint Session rnd" "session_row_of env t r db'" "ss_revoked_at r = None"
    "ss_idle_expires r = now + secs session_idle" "ss_absolute_expires r = now + secs session_absolute"
    using start_session_row [OF assms(1,3)] by metis
  have "well_formed_str Session t" using r(1) assms(2) by (simp add: mint_well_formed_str)
  from session_reads_spec [OF r(2) this r(3), of "now + secs session_idle" ts] r(4,5) show ?thesis
    by (simp add: secs_def)
qed

theorem session_lifetime_witness:
  "map (\<lambda>s. s \<noteq> None) (session_reads demo_env (mint Session demo_rnd) [secs 1799, secs 3600]
     (snd (start_as_session demo_env 0 demo_rnd ''ann'' ''pwd'' demo_account_db))) = [True, False]"
  using session_lifetime [OF prod.collapse [symmetric, of "start_as_session demo_env 0 demo_rnd ''ann'' ''pwd'' demo_account_db",
        unfolded demo_start] demo_rnd_length, of "[secs 1799, secs 3600]"]
  by (simp add: demo_account_db_def empty_db_def secs_def Let_def)

text \<open>Signing out is final: once a session has been revoked, by itself or with every session of its account, no
  later operation makes its token work again.\<close>

theorem revoked_session_stays_dead:
  assumes "hmac_injective (en_hmac env)"
    and "start_as_session env now rnd account acr db = (Inr t, db0)" "length rnd = 32"
    and "\<forall>q \<in> set (t_sessions db). ss_hash q \<notin> set (digests env (mint Session rnd))"
    and "x = Se_revoke at (JStr t) \<or> x = Se_revoke_all at account"
  shows "fst (read_as_session env later (JStr t) (fold (exec_session env) xs (exec_session env x db0))) = None"
proof -
  obtain r where r: "t = mint Session rnd" "session_row_of env t r db0" "ss_account r = account"
    using start_session_row [OF assms(2,4)] by metis
  have wf: "well_formed_str Session t" using r(1) assms(3) by (simp add: mint_well_formed_str)
  have "\<exists>P. exec_session env x db0 = db0\<lparr>t_sessions := update_where P (session_end at) (t_sessions db0)\<rparr>
      \<and> (ss_revoked_at r = None \<longrightarrow> P r)"
  proof (cases "x = Se_revoke at (JStr t)")
    case True
    then show ?thesis
      using r(2) wf digest_in_digests
      by (intro exI [of _ "\<lambda>r. ss_hash r \<in> set (digests env t) \<and> ss_revoked_at r = None"])
        (auto simp: revoke_as_session_def session_row_of_def)
  next
    case False
    then show ?thesis
      using assms(5) r(3)
      by (intro exI [of _ "\<lambda>r. ss_account r = account \<and> ss_revoked_at r = None"])
        (auto simp: revoke_all_as_sessions_def)
  qed
  then obtain P where P: "exec_session env x db0 = db0\<lparr>t_sessions := update_where P (session_end at) (t_sessions db0)\<rparr>"
    "ss_revoked_at r = None \<longrightarrow> P r" by (elim exE conjE) (rule that)
  have "\<exists>q \<in> set (update_where P (session_end at) (t_sessions db0)). digest env t = Inr (ss_hash q)"
    unfolding bex_update_where using r(2) by (intro bexI [of _ r]) (simp_all add: session_row_of_def)
  moreover have "\<forall>q \<in> set (update_where P (session_end at) (t_sessions db0)).
      ss_hash q \<in> set (digests env t) \<longrightarrow> ss_revoked_at q \<noteq> None"
    unfolding ball_update_where using r(2) P(2) unfolding session_row_of_def
    by (metis session_step_simps(3,4) option.distinct(1))
  ultimately have "session_dead env t (exec_session env x db0)"
    unfolding P(1) by (simp add: session_dead_def)
  then show ?thesis
    using session_dead_run [OF _ assms(1)] session_dead_read by blast
qed

theorem revoked_session_stays_dead_witness:
  "fst (read_as_session demo_env 9 (JStr (mint Session demo_rnd))
     (exec_session demo_env (Se_revoke_all 5 ''ann'')
       (snd (start_as_session demo_env 0 demo_rnd ''ann'' ''pwd'' demo_account_db)))) = None"
  using revoked_session_stays_dead [of demo_env 0 demo_rnd "''ann''" "''pwd''" demo_account_db, OF _
      prod.collapse [symmetric, of "start_as_session demo_env 0 demo_rnd ''ann'' ''pwd'' demo_account_db",
        unfolded demo_start] demo_rnd_length, of "Se_revoke_all 5 ''ann''" 5 9 "[]"]
  by (simp add: demo_account_db_def empty_db_def toy_hmac_injective)

end
