(* ===== verification/OAuth_Store.thy ===== *)
theory OAuth_Store
  imports OAuth_Config Sessions
begin

text \<open>
  \<open>server/src/oauth/store.ts\<close>: authorizations in flight, authorization codes, grants with their access and refresh
  tokens, and pushed requests. \<open>now\<close> is the database clock of the statement or transaction. A transaction is one
  step: the row locks and guarded updates of the source serialise it against every other that touches its rows.
  Random bytes are arguments.
\<close>

section \<open>Authorizations in flight\<close>

record pending =
  pe_id :: string
  pe_client :: string
  pe_client_host :: string
  pe_kind :: client_kind
  pe_trust :: client_trust
  pe_digest :: "string option"
  pe_redirect :: string
  pe_state :: "string option"
  pe_challenge :: string
  pe_resource :: string
  pe_scopes :: "string list"
  pe_offline :: bool
  pe_binding :: string
  pe_jkt :: "string option"
  pe_first_party :: bool

text \<open>The identifier and the binding digest of the argument are not read: they are made here.\<close>

definition create_pending :: "env \<Rightarrow> int \<Rightarrow> string \<Rightarrow> pending \<Rightarrow> string \<Rightarrow> database \<Rightarrow> (error + string) \<times> database" where
  "create_pending env now rnd p binding_value db =
     (let new = new_id ''pa'' rnd in
      case digest env binding_value of
        Inl e \<Rightarrow> (Inl e, db)
      | Inr h \<Rightarrow>
          if new \<in> pa_id ` set (t_pending db) then (Inl (DbError unique_violation), db)
          else (Inr new, db\<lparr>t_pending := t_pending db @
                 [\<lparr>pa_id = new, pa_client = pe_client p, pa_client_host = pe_client_host p, pa_client_kind = pe_kind p,
                   pa_client_trust = pe_trust p, pa_document_digest = pe_digest p, pa_redirect_uri = pe_redirect p,
                   pa_state = pe_state p, pa_code_challenge = pe_challenge p, pa_resource = pe_resource p,
                   pa_scope = scope_str (pe_scopes p), pa_offline = pe_offline p, pa_binding_hash = h,
                   pa_dpop_jkt = pe_jkt p, pa_first_party = pe_first_party p, pa_created_at = now,
                   pa_expires_at = now + secs pending_ttl\<rparr>]\<rparr>))"

definition read_pending :: "int \<Rightarrow> jsval \<Rightarrow> database \<Rightarrow> pending option" where
  "read_pending now key db =
     (case as_str key of
        None \<Rightarrow> None
      | Some i \<Rightarrow>
          if length i = 0 \<or> 64 < length i then None
          else (case find (\<lambda>r. pa_id r = i \<and> now < pa_expires_at r) (t_pending db) of
            None \<Rightarrow> None
          | Some r \<Rightarrow> Some
              \<lparr>pe_id = pa_id r, pe_client = pa_client r, pe_client_host = pa_client_host r, pe_kind = pa_client_kind r,
               pe_trust = pa_client_trust r, pe_digest = pa_document_digest r, pe_redirect = pa_redirect_uri r,
               pe_state = pa_state r, pe_challenge = pa_code_challenge r, pe_resource = pa_resource r,
               pe_scopes = scope_list (pa_scope r), pe_offline = pa_offline r, pe_binding = pa_binding_hash r,
               pe_jkt = pa_dpop_jkt r, pe_first_party = pa_first_party r\<rparr>))"

definition pending_belongs_to :: "env \<Rightarrow> pending \<Rightarrow> jsval \<Rightarrow> bool" where
  "pending_belongs_to env p binding_value =
     (case (well_formed Binding binding_value, binding_value) of
        (True, JStr v) \<Rightarrow> pe_binding p \<in> set (digests env v)
      | _ \<Rightarrow> False)"

definition delete_pending :: "string \<Rightarrow> database \<Rightarrow> database" where
  "delete_pending key db = db\<lparr>t_pending := delete_where (\<lambda>r. pa_id r = key) (t_pending db)\<rparr>"

section \<open>Codes\<close>

record code_context =
  cx_auth_time :: int
  cx_consent :: "string option"

definition issue_code ::
  "env \<Rightarrow> int \<Rightarrow> string \<Rightarrow> string \<Rightarrow> pending \<Rightarrow> code_context \<Rightarrow> database \<Rightarrow> error + string \<times> database" where
  "issue_code env now rnd account p cx db =
     (let code = mint Code rnd in
      case digest env code of
        Inl e \<Rightarrow> Inl e
      | Inr h \<Rightarrow>
          if h \<in> co_hash ` set (t_codes db) then Inl (DbError unique_violation)
          else if \<not> account_exists account db then Inl (DbError foreign_key_violation)
          else Inr (code, db\<lparr>t_codes := t_codes db @
                 [\<lparr>co_hash = h, co_account = account, co_client = pe_client p, co_redirect_uri = pe_redirect p,
                   co_challenge = pe_challenge p, co_resource = pe_resource p, co_scope = scope_str (pe_scopes p),
                   co_offline = pe_offline p, co_auth_time = Some (cx_auth_time cx * 1000),
                   co_consent = cx_consent cx, co_dpop_jkt = pe_jkt p, co_consumed_at = None, co_grant = None,
                   co_created_at = now, co_expires_at = now + secs code_ttl\<rparr>]\<rparr>))"

text \<open>\<open>claimAndIssueCode\<close>: the authorization is deleted and its code minted in one transaction.\<close>

definition claim_and_issue_code ::
  "env \<Rightarrow> int \<Rightarrow> string \<Rightarrow> string \<Rightarrow> pending \<Rightarrow> code_context \<Rightarrow> database \<Rightarrow> (error + string option) \<times> database" where
  "claim_and_issue_code env now rnd account p cx =
     run_tx (\<lambda>db.
       if length (filter (\<lambda>r. pa_id r = pe_id p) (t_pending db)) \<noteq> 1
       then Inr (None, delete_pending (pe_id p) db)
       else (case issue_code env now rnd account p cx (delete_pending (pe_id p) db) of
               Inl e \<Rightarrow> Inl e
             | Inr (code, db') \<Rightarrow> Inr (Some code, db')))"

record code_record =
  cr_account :: string
  cr_client :: string
  cr_redirect :: string
  cr_challenge :: string
  cr_resource :: string
  cr_scope :: string
  cr_consumed :: bool
  cr_expired :: bool
  cr_grant :: "string option"
  cr_offline :: bool
  cr_jkt :: "string option"

definition to_code_record :: "code_row \<Rightarrow> bool \<Rightarrow> bool \<Rightarrow> code_record" where
  "to_code_record r consumed expired =
     \<lparr>cr_account = co_account r, cr_client = co_client r, cr_redirect = co_redirect_uri r,
      cr_challenge = co_challenge r, cr_resource = co_resource r, cr_scope = co_scope r, cr_consumed = consumed,
      cr_expired = expired, cr_grant = co_grant r, cr_offline = co_offline r, cr_jkt = co_dpop_jkt r\<rparr>"

definition code_fresh :: "env \<Rightarrow> int \<Rightarrow> string \<Rightarrow> code_row \<Rightarrow> bool" where
  "code_fresh env now code r \<longleftrightarrow>
     co_hash r \<in> set (digests env code) \<and> co_consumed_at r = None \<and> now < co_expires_at r"

definition code_spend :: "int \<Rightarrow> code_row \<Rightarrow> code_row" where
  "code_spend now r = r\<lparr>co_consumed_at := Some now\<rparr>"

definition consume_code :: "env \<Rightarrow> int \<Rightarrow> jsval \<Rightarrow> database \<Rightarrow> code_record option \<times> database" where
  "consume_code env now code db =
     (case (well_formed Code code, code) of
        (True, JStr c) \<Rightarrow>
          (case find (code_fresh env now c) (t_codes db) of
             Some r \<Rightarrow> (Some (to_code_record r False False),
                        db\<lparr>t_codes := update_where (code_fresh env now c) (code_spend now) (t_codes db)\<rparr>)
           | None \<Rightarrow>
               (case find (\<lambda>r. co_hash r \<in> set (digests env c)) (t_codes db) of
                  None \<Rightarrow> (None, db)
                | Some m \<Rightarrow> (Some (to_code_record m (co_consumed_at m \<noteq> None) (co_expires_at m \<le> now)), db)))
      | _ \<Rightarrow> (None, db))"

section \<open>Grants and their tokens\<close>

datatype token_type = DPoP_token | Bearer_token

record issued =
  it_access :: string
  it_refresh :: "string option"
  it_type :: token_type
  it_expires_in :: int
  it_scope :: string

definition access_lifetime :: "env \<Rightarrow> string \<Rightarrow> int" where
  "access_lifetime env audience = (if audience = api_resource env then en_native_ttl env else access_ttl)"

definition issue_tokens ::
  "env \<Rightarrow> int \<Rightarrow> string \<Rightarrow> string \<Rightarrow> string \<Rightarrow> string \<Rightarrow> string \<Rightarrow> bool \<Rightarrow> string option \<Rightarrow> database
   \<Rightarrow> error + issued \<times> database" where
  "issue_tokens env now rnd_a rnd_r grant audience scope with_refresh cnf db =
     (let access = mint Access rnd_a;
          refresh = (if with_refresh then Some (mint Refresh rnd_r) else None);
          lifetime = access_lifetime env audience;
          result = \<lparr>it_access = access, it_refresh = refresh,
                    it_type = (if truthy cnf \<noteq> None then DPoP_token else Bearer_token),
                    it_expires_in = lifetime, it_scope = scope\<rparr>
      in case digest env access of
        Inl e \<Rightarrow> Inl e
      | Inr ha \<Rightarrow>
          if ha \<in> at_hash ` set (t_access db) then Inl (DbError unique_violation)
          else if \<not> grant_exists grant db then Inl (DbError foreign_key_violation)
          else
            (let db1 = db\<lparr>t_access := t_access db @
                   [\<lparr>at_hash = ha, at_grant = grant, at_audience = audience, at_scope = scope, at_cnf_jkt = cnf,
                     at_expires_at = now + secs lifetime\<rparr>]\<rparr>
             in case refresh of
                  None \<Rightarrow> Inr (result, db1)
                | Some t \<Rightarrow>
                    (case digest env t of
                       Inl e \<Rightarrow> Inl e
                     | Inr hr \<Rightarrow>
                         if hr \<in> rt_hash ` set (t_refresh db1) then Inl (DbError unique_violation)
                         else Inr (result, db1\<lparr>t_refresh := t_refresh db1 @
                                [\<lparr>rt_hash = hr, rt_grant = grant, rt_audience = audience, rt_scope = scope,
                                  rt_replaced_by = None, rt_replaced_at = None, rt_revoked_at = None,
                                  rt_created_at = now, rt_expires_at = now + secs refresh_ttl\<rparr>]\<rparr>))))"

text \<open>\<open>revokeGrant\<close>: three statements, and the announcement.\<close>

definition revoke_grant :: "int \<Rightarrow> string \<Rightarrow> database \<Rightarrow> database" where
  "revoke_grant now grant db =
     db\<lparr>t_grants := update_where (\<lambda>g. gr_id g = grant \<and> gr_revoked_at g = None)
                      (\<lambda>g. g\<lparr>gr_revoked_at := Some now\<rparr>) (t_grants db),
        t_access := delete_where (\<lambda>a. at_grant a = grant) (t_access db),
        t_refresh := update_where (\<lambda>r. rt_grant r = grant \<and> rt_revoked_at r = None)
                       (\<lambda>r. r\<lparr>rt_revoked_at := Some now\<rparr>) (t_refresh db),
        t_notified := t_notified db @ [grant]\<rparr>"

definition revoke_grant_now :: "int \<Rightarrow> string \<Rightarrow> database \<Rightarrow> database" where
  "revoke_grant_now now grant db = snd (run_tx (\<lambda>d. Inr ((), revoke_grant now grant d)) db)"

section \<open>Refresh tokens\<close>

record refresh_record =
  rr_hash :: string
  rr_grant :: string
  rr_account :: string
  rr_client :: string
  rr_audience :: string
  rr_scope :: string
  rr_replaced :: bool
  rr_revoked :: bool
  rr_expired :: bool
  rr_grant_revoked :: bool

text \<open>The row a presented token names, joined with its grant.\<close>

definition refresh_join :: "env \<Rightarrow> string \<Rightarrow> database \<Rightarrow> (refresh_row \<times> grant_row) option" where
  "refresh_join env t db =
     (case find (\<lambda>r. rt_hash r \<in> set (digests env t) \<and> grant_exists (rt_grant r) db) (t_refresh db) of
        None \<Rightarrow> None
      | Some r \<Rightarrow> map_option (Pair r) (find (\<lambda>g. gr_id g = rt_grant r) (t_grants db)))"

definition read_refresh :: "env \<Rightarrow> int \<Rightarrow> jsval \<Rightarrow> database \<Rightarrow> refresh_record option" where
  "read_refresh env now token db =
     (case (well_formed Refresh token, token) of
        (True, JStr t) \<Rightarrow>
          map_option (\<lambda>(r, g).
            \<lparr>rr_hash = rt_hash r, rr_grant = rt_grant r, rr_account = gr_account g, rr_client = gr_client g,
             rr_audience = rt_audience r, rr_scope = rt_scope r, rr_replaced = (rt_replaced_by r \<noteq> None),
             rr_revoked = (rt_revoked_at r \<noteq> None), rr_expired = (rt_expires_at r \<le> now),
             rr_grant_revoked = (gr_revoked_at g \<noteq> None)\<rparr>) (refresh_join env t db)
      | _ \<Rightarrow> None)"

datatype invalid_reason = Unknown_token | Dead_token | Wrong_client

datatype refresh_outcome =
    Rotated issued
  | Replay
  | Theft
  | Invalid invalid_reason
  | Invalid_target
  | Invalid_scope
  | Invalid_dpop

record 'm refresh_request =
  rq_client :: string
  rq_resource :: jsval
  rq_scope :: jsval
  rq_grace :: int
  rq_jkt :: "string option"
  rq_seal :: "issued \<Rightarrow> 'm \<Rightarrow> error + 'm"

text \<open>The two computed columns of the locked row.\<close>

definition within_grace :: "int \<Rightarrow> int \<Rightarrow> refresh_row \<Rightarrow> bool" where
  "within_grace now grace r = (case rt_replaced_at r of None \<Rightarrow> False | Some at \<Rightarrow> now - secs grace < at)"

definition successor_used :: "refresh_row \<Rightarrow> database \<Rightarrow> bool" where
  "successor_used r db \<longleftrightarrow>
     list_ex (\<lambda>s. rt_replaced_by r = Some (rt_hash s) \<and> (rt_replaced_by s \<noteq> None \<or> rt_revoked_at s \<noteq> None)) (t_refresh db)"

text \<open>The scope of the new tokens: \<^const>\<open>None\<close> where the request asks for more than the token has.\<close>

definition refresh_scope :: "jsval \<Rightarrow> string \<Rightarrow> string option" where
  "refresh_scope requested current =
     (case as_str requested of
        Some s \<Rightarrow>
          if length (trim s) > 0 then
            (let granted = scope_list current; asked = words_on is_ws s
             in if list_ex (\<lambda>e. e \<notin> set granted) asked then None else Some (scope_str asked))
          else Some current
      | None \<Rightarrow> Some current)"

definition rotate_tx ::
  "env \<Rightarrow> int \<Rightarrow> string \<Rightarrow> string \<Rightarrow> string \<Rightarrow> 'm refresh_request \<Rightarrow> 'm \<Rightarrow> database
   \<Rightarrow> error + (refresh_outcome \<times> 'm) \<times> database" where
  "rotate_tx env now rnd_a rnd_r presented rq m db =
     (case refresh_join env presented db of
        None \<Rightarrow> Inr ((Invalid Unknown_token, m), db)
      | Some (r, g) \<Rightarrow>
          if truthy (gr_dpop_jkt g) \<noteq> None \<and> gr_dpop_jkt g \<noteq> rq_jkt rq then Inr ((Invalid_dpop, m), db)
          else if rt_replaced_by r \<noteq> None then
            (if gr_revoked_at g \<noteq> None then Inr ((Invalid Dead_token, m), db)
             else if within_grace now (rq_grace rq) r \<and> \<not> successor_used r db \<and> gr_client g = rq_client rq
             then Inr ((Replay, m), db)
             else Inr ((Theft, m), revoke_grant now (rt_grant r) db))
          else if rt_revoked_at r \<noteq> None \<or> gr_revoked_at g \<noteq> None \<or> rt_expires_at r \<le> now
          then Inr ((Invalid Dead_token, m), db)
          else if gr_client g \<noteq> rq_client rq then Inr ((Invalid Wrong_client, m), db)
          else if rq_resource rq \<noteq> JUndefined \<and> rq_resource rq \<noteq> JStr (rt_audience r) then Inr ((Invalid_target, m), db)
          else (case refresh_scope (rq_scope rq) (rt_scope r) of
            None \<Rightarrow> Inr ((Invalid_scope, m), db)
          | Some scope \<Rightarrow>
              (case issue_tokens env now rnd_a rnd_r (rt_grant r) (rt_audience r) scope True (gr_dpop_jkt g) db of
                 Inl e \<Rightarrow> Inl e
               | Inr (it, db1) \<Rightarrow>
                   (case digest env (case it_refresh it of None \<Rightarrow> [] | Some t \<Rightarrow> t) of
                      Inl e \<Rightarrow> Inl e
                    | Inr h \<Rightarrow>
                        (let db2 = db1\<lparr>t_refresh := update_where
                               (\<lambda>q. rt_hash q = rt_hash r \<and> rt_replaced_by q = None)
                               (\<lambda>q. q\<lparr>rt_replaced_by := Some h, rt_replaced_at := Some now\<rparr>) (t_refresh db1)\<rparr>
                         in case rq_seal rq it m of
                              Inl e \<Rightarrow> Inl e
                            | Inr m' \<Rightarrow> Inr ((Rotated it, m'), db2))))))"

definition rotate_refresh ::
  "env \<Rightarrow> int \<Rightarrow> string \<Rightarrow> string \<Rightarrow> jsval \<Rightarrow> 'm refresh_request \<Rightarrow> 'm \<Rightarrow> database
   \<Rightarrow> (error + refresh_outcome \<times> 'm) \<times> database" where
  "rotate_refresh env now rnd_a rnd_r presented rq m db =
     (case (well_formed Refresh presented, presented) of
        (True, JStr t) \<Rightarrow> run_tx (rotate_tx env now rnd_a rnd_r t rq m) db
      | _ \<Rightarrow> (Inr (Invalid Unknown_token, m), db))"

record grant_options =
  go_code :: string
  go_account :: string
  go_client :: string
  go_resource :: string
  go_scope :: string
  go_refresh :: bool
  go_jkt :: "string option"

definition establish_tx ::
  "env \<Rightarrow> int \<Rightarrow> string \<Rightarrow> string \<Rightarrow> string \<Rightarrow> grant_options \<Rightarrow> database \<Rightarrow> error + issued \<times> database" where
  "establish_tx env now rnd_g rnd_a rnd_r opts db =
     (let grant = new_id ''grant'' rnd_g in
      if grant \<in> gr_id ` set (t_grants db) then Inl (DbError unique_violation)
      else if \<not> account_exists (go_account opts) db then Inl (DbError foreign_key_violation)
      else
        (let db1 = db\<lparr>t_grants := t_grants db @
                [\<lparr>gr_id = grant, gr_account = go_account opts, gr_client = go_client opts, gr_resource = go_resource opts,
                  gr_scope = go_scope opts, gr_dpop_jkt = go_jkt opts, gr_created_at = now, gr_last_used = None,
                  gr_revoked_at = None\<rparr>]\<rparr>;
             db2 = db1\<lparr>t_codes := update_where (\<lambda>c. co_hash c \<in> set (digests env (go_code opts)))
                         (\<lambda>c. c\<lparr>co_grant := Some grant\<rparr>) (t_codes db1)\<rparr>
         in issue_tokens env now rnd_a rnd_r grant (go_resource opts) (go_scope opts) (go_refresh opts) (go_jkt opts) db2))"

definition establish_grant ::
  "env \<Rightarrow> int \<Rightarrow> string \<Rightarrow> string \<Rightarrow> string \<Rightarrow> grant_options \<Rightarrow> database \<Rightarrow> (error + issued) \<times> database" where
  "establish_grant env now rnd_g rnd_a rnd_r opts = run_tx (establish_tx env now rnd_g rnd_a rnd_r opts)"

definition revoke_by_refresh :: "env \<Rightarrow> int \<Rightarrow> string \<Rightarrow> database \<Rightarrow> database" where
  "revoke_by_refresh env now token db =
     (case read_refresh env now (JStr token) db of None \<Rightarrow> db | Some rec \<Rightarrow> revoke_grant_now now (rr_grant rec) db)"

definition revoke_by_access :: "env \<Rightarrow> int \<Rightarrow> string \<Rightarrow> database \<Rightarrow> database" where
  "revoke_by_access env now token db =
     (if \<not> well_formed_str Access token then db
      else (case find (\<lambda>a. at_hash a \<in> set (digests env token)) (t_access db) of
              None \<Rightarrow> db
            | Some a \<Rightarrow> if at_grant a = [] then db else revoke_grant_now now (at_grant a) db))"

definition prune_expired :: "int \<Rightarrow> database \<Rightarrow> database" where
  "prune_expired now db =
     db\<lparr>t_access := delete_where (\<lambda>r. at_expires_at r \<le> now) (t_access db),
        t_refresh := delete_where (\<lambda>r. rt_expires_at r \<le> now) (t_refresh db),
        t_codes := delete_where (\<lambda>r. co_expires_at r \<le> now) (t_codes db),
        t_pending := delete_where (\<lambda>r. pa_expires_at r \<le> now) (t_pending db),
        t_par := delete_where (\<lambda>r. pr_expires_at r \<le> now) (t_par db),
        t_challenges := delete_where (\<lambda>r. ch_expires_at r \<le> now) (t_challenges db)\<rparr>"

section \<open>Pushed requests\<close>

definition store_pushed :: "int \<Rightarrow> string \<Rightarrow> string \<Rightarrow> (string \<times> string) list \<Rightarrow> database \<Rightarrow> (error + string) \<times> database" where
  "store_pushed now rnd client params db =
     (let new = new_id ''par'' rnd in
      if new \<in> pr_id ` set (t_par db) then (Inl (DbError unique_violation), db)
      else (Inr new, db\<lparr>t_par := t_par db @
             [\<lparr>pr_id = new, pr_client = client, pr_params = params, pr_expires_at = now + secs par_ttl\<rparr>]\<rparr>))"

definition take_pushed :: "int \<Rightarrow> string \<Rightarrow> string \<Rightarrow> database \<Rightarrow> (string \<times> string) list option \<times> database" where
  "take_pushed now key client db =
     (let P = (\<lambda>r. pr_id r = key \<and> pr_client r = client \<and> now < pr_expires_at r)
      in (map_option pr_params (find P (t_par db)), db\<lparr>t_par := delete_where P (t_par db)\<rparr>))"

section \<open>Sequences of operations\<close>

datatype store_op =
    St_pending int string pending string
  | St_drop string
  | St_claim int string string pending code_context
  | St_consume int jsval
  | St_establish int string string string grant_options
  | St_revoke int string
  | St_rotate int string string jsval "unit refresh_request"
  | St_prune int
  | St_push int string string "(string \<times> string) list"
  | St_take int string string

fun exec_store :: "env \<Rightarrow> store_op \<Rightarrow> database \<Rightarrow> database" where
  "exec_store env (St_pending now rnd p v) db = snd (create_pending env now rnd p v db)"
| "exec_store env (St_drop i) db = delete_pending i db"
| "exec_store env (St_claim now rnd account p cx) db = snd (claim_and_issue_code env now rnd account p cx db)"
| "exec_store env (St_consume now code) db = snd (consume_code env now code db)"
| "exec_store env (St_establish now rg ra rr opts) db = snd (establish_grant env now rg ra rr opts db)"
| "exec_store env (St_revoke now grant) db = revoke_grant_now now grant db"
| "exec_store env (St_rotate now ra rr presented rq) db = snd (rotate_refresh env now ra rr presented rq () db)"
| "exec_store env (St_prune now) db = prune_expired now db"
| "exec_store env (St_push now rnd client params) db = snd (store_pushed now rnd client params db)"
| "exec_store env (St_take now i client) db = snd (take_pushed now i client db)"

definition run_store :: "env \<Rightarrow> store_op list \<Rightarrow> database \<Rightarrow> database" where
  "run_store env xs db = fold (exec_store env) xs db"

end
