(* ===== verification/OAuth_Rules.thy ===== *)
theory OAuth_Rules
  imports OAuth_Store
begin

text \<open>
  The invariant of the grant tables and that every operation of the store keeps it: tokens never exceed their grant, a
  revoked grant has no access token and no usable refresh token, and a grant has at most one refresh token that was
  not rotated away.
\<close>

section \<open>The invariant\<close>

definition scope_within :: "string \<Rightarrow> string \<Rightarrow> bool" where
  "scope_within s t \<longleftrightarrow> set (scope_list s) \<subseteq> set (scope_list t)"

definition access_of :: "grant_row \<Rightarrow> access_row \<Rightarrow> bool" where
  "access_of g a \<longleftrightarrow> at_grant a = gr_id g \<and> gr_revoked_at g = None \<and> at_audience a = gr_resource g
     \<and> at_cnf_jkt a = gr_dpop_jkt g \<and> scope_within (at_scope a) (gr_scope g)"

definition refresh_of :: "grant_row \<Rightarrow> refresh_row \<Rightarrow> bool" where
  "refresh_of g r \<longleftrightarrow> rt_grant r = gr_id g \<and> rt_audience r = gr_resource g \<and> scope_within (rt_scope r) (gr_scope g)
     \<and> (gr_revoked_at g \<noteq> None \<longrightarrow> rt_revoked_at r \<noteq> None)"

abbreviation heads :: "refresh_row list \<Rightarrow> refresh_row list" where
  "heads rs \<equiv> filter (\<lambda>r. rt_replaced_by r = None) rs"

definition keys_ok :: "database \<Rightarrow> bool" where
  "keys_ok db \<longleftrightarrow> distinct (map gr_id (t_grants db)) \<and> distinct (map at_hash (t_access db))
     \<and> distinct (map rt_hash (t_refresh db)) \<and> distinct (map co_hash (t_codes db))"

definition oauth_inv :: "database \<Rightarrow> bool" where
  "oauth_inv db \<longleftrightarrow> keys_ok db
     \<and> (\<forall>a \<in> set (t_access db). \<exists>g \<in> set (t_grants db). access_of g a)
     \<and> (\<forall>r \<in> set (t_refresh db). \<exists>g \<in> set (t_grants db). refresh_of g r)
     \<and> distinct (map rt_grant (heads (t_refresh db)))"

lemma oauth_inv_frame:
  assumes "oauth_inv db" "t_grants db' = t_grants db" "t_access db' = t_access db" "t_refresh db' = t_refresh db"
    "distinct (map co_hash (t_codes db'))"
  shows "oauth_inv db'"
  using assms by (simp add: oauth_inv_def keys_ok_def)

lemma scope_within_refl [simp]: "scope_within s s"
  by (simp add: scope_within_def)

lemma scope_within_trans: "scope_within s t \<Longrightarrow> scope_within t u \<Longrightarrow> scope_within s u"
  by (auto simp: scope_within_def)

lemma refresh_scope_within: "refresh_scope requested current = Some s \<Longrightarrow> scope_within s current"
proof (cases "as_str requested")
  case (Some q)
  moreover have "set (scope_list (scope_str (words_on is_ws q))) = set (words_on is_ws q)"
    using words_on_ws_chars by (subst scope_list_str) auto
  moreover assume "refresh_scope requested current = Some s"
  ultimately show ?thesis
    by (auto simp: refresh_scope_def scope_within_def Let_def list_ex_iff split: if_splits)
qed (simp add: refresh_scope_def)

section \<open>Elimination rules\<close>

definition new_access :: "env \<Rightarrow> int \<Rightarrow> string \<Rightarrow> string \<Rightarrow> string \<Rightarrow> string \<Rightarrow> string option \<Rightarrow> access_row" where
  "new_access env now h grant audience scope cnf =
     \<lparr>at_hash = h, at_grant = grant, at_audience = audience, at_scope = scope, at_cnf_jkt = cnf,
      at_expires_at = now + secs (access_lifetime env audience)\<rparr>"

definition new_refresh :: "int \<Rightarrow> string \<Rightarrow> string \<Rightarrow> string \<Rightarrow> string \<Rightarrow> refresh_row" where
  "new_refresh now h grant audience scope =
     \<lparr>rt_hash = h, rt_grant = grant, rt_audience = audience, rt_scope = scope, rt_replaced_by = None,
      rt_replaced_at = None, rt_revoked_at = None, rt_created_at = now, rt_expires_at = now + secs refresh_ttl\<rparr>"

lemma new_token_simps [simp]:
  "at_hash (new_access env now h g aud sc cnf) = h" "at_grant (new_access env now h g aud sc cnf) = g"
  "at_audience (new_access env now h g aud sc cnf) = aud" "at_scope (new_access env now h g aud sc cnf) = sc"
  "at_cnf_jkt (new_access env now h g aud sc cnf) = cnf"
  "at_expires_at (new_access env now h g aud sc cnf) = now + secs (access_lifetime env aud)"
  "rt_hash (new_refresh now h g aud sc) = h" "rt_grant (new_refresh now h g aud sc) = g"
  "rt_audience (new_refresh now h g aud sc) = aud" "rt_scope (new_refresh now h g aud sc) = sc"
  "rt_replaced_by (new_refresh now h g aud sc) = None" "rt_replaced_at (new_refresh now h g aud sc) = None"
  "rt_revoked_at (new_refresh now h g aud sc) = None"
  "rt_expires_at (new_refresh now h g aud sc) = now + secs refresh_ttl"
  by (simp_all add: new_access_def new_refresh_def)

lemma issue_tokens_cases:
  assumes "issue_tokens env now ra rr g aud sc with cnf db = Inr (it, db')"
  obtains (access_only) ha where "\<not> with" "digest env (mint Access ra) = Inr ha" "ha \<notin> at_hash ` set (t_access db)"
      "grant_exists g db" "it_access it = mint Access ra" "it_refresh it = None" "it_scope it = sc"
      "db' = db\<lparr>t_access := t_access db @ [new_access env now ha g aud sc cnf]\<rparr>"
  | (both) ha hr where "with" "digest env (mint Access ra) = Inr ha" "ha \<notin> at_hash ` set (t_access db)"
      "grant_exists g db" "it_access it = mint Access ra" "it_scope it = sc"
      "digest env (mint Refresh rr) = Inr hr" "hr \<notin> rt_hash ` set (t_refresh db)" "it_refresh it = Some (mint Refresh rr)"
      "db' = db\<lparr>t_access := t_access db @ [new_access env now ha g aud sc cnf],
               t_refresh := t_refresh db @ [new_refresh now hr g aud sc]\<rparr>"
proof -
  obtain ha where ha: "digest env (mint Access ra) = Inr ha" "ha \<notin> at_hash ` set (t_access db)" "grant_exists g db"
    using assms by (auto simp: issue_tokens_def Let_def split: sum.splits if_splits)
  show ?thesis
  proof (cases "with")
    case False
    with assms ha show ?thesis
      by (intro access_only [of ha]) (auto simp: issue_tokens_def Let_def new_access_def)
  next
    case True
    then obtain hr where "digest env (mint Refresh rr) = Inr hr" "hr \<notin> rt_hash ` set (t_refresh db)"
      using assms ha by (auto simp: issue_tokens_def Let_def split: sum.splits if_splits)
    with True assms ha show ?thesis
      by (intro both [of ha hr]) (auto simp: issue_tokens_def Let_def new_access_def new_refresh_def)
  qed
qed

lemma refresh_join_Some:
  assumes "refresh_join env t db = Some (r, g)"
  shows "r \<in> set (t_refresh db) \<and> rt_hash r \<in> set (digests env t) \<and> g \<in> set (t_grants db) \<and> gr_id g = rt_grant r"
  using assms by (auto simp: refresh_join_def split: option.splits dest!: find_SomeD)

definition retire :: "int \<Rightarrow> string \<Rightarrow> refresh_row \<Rightarrow> refresh_row" where
  "retire now h q = q\<lparr>rt_replaced_by := Some h, rt_replaced_at := Some now\<rparr>"

lemma retire_simps [simp]:
  "rt_hash (retire now h q) = rt_hash q" "rt_grant (retire now h q) = rt_grant q"
  "rt_audience (retire now h q) = rt_audience q" "rt_scope (retire now h q) = rt_scope q"
  "rt_replaced_by (retire now h q) = Some h" "rt_revoked_at (retire now h q) = rt_revoked_at q"
  "rt_expires_at (retire now h q) = rt_expires_at q" "rt_replaced_at (retire now h q) = Some now"
  by (simp_all add: retire_def)

text \<open>Every outcome of a rotation and what it did.\<close>

lemma rotate_cases:
  assumes "rotate_tx env now ra rr t rq m db = Inr ((out, m'), db')"
  obtains (kept) "db' = db" "m' = m" "out \<noteq> Theft" "\<And>it. out \<noteq> Rotated it"
      "out = Replay \<Longrightarrow> \<exists>r g. refresh_join env t db = Some (r, g) \<and> rt_replaced_by r \<noteq> None \<and> gr_revoked_at g = None
          \<and> within_grace now (rq_grace rq) r \<and> \<not> successor_used r db \<and> gr_client g = rq_client rq
          \<and> (truthy (gr_dpop_jkt g) = None \<or> gr_dpop_jkt g = rq_jkt rq)"
  | (theft) r g where "refresh_join env t db = Some (r, g)" "rt_replaced_by r \<noteq> None" "gr_revoked_at g = None"
      "out = Theft" "m' = m" "db' = revoke_grant now (rt_grant r) db"
      "\<not> within_grace now (rq_grace rq) r \<or> successor_used r db \<or> gr_client g \<noteq> rq_client rq"
  | (rotated) r g scope it ha hr where "refresh_join env t db = Some (r, g)" "rt_replaced_by r = None"
      "rt_revoked_at r = None" "gr_revoked_at g = None" "now < rt_expires_at r" "gr_client g = rq_client rq"
      "truthy (gr_dpop_jkt g) = None \<or> gr_dpop_jkt g = rq_jkt rq"
      "rq_resource rq = JUndefined \<or> rq_resource rq = JStr (rt_audience r)"
      "refresh_scope (rq_scope rq) (rt_scope r) = Some scope" "out = Rotated it" "rq_seal rq it m = Inr m'"
      "it_access it = mint Access ra" "it_refresh it = Some (mint Refresh rr)" "it_scope it = scope"
      "digest env (mint Access ra) = Inr ha" "ha \<notin> at_hash ` set (t_access db)"
      "digest env (mint Refresh rr) = Inr hr" "hr \<notin> rt_hash ` set (t_refresh db)"
      "db' = db\<lparr>t_access := t_access db @ [new_access env now ha (rt_grant r) (rt_audience r) scope (gr_dpop_jkt g)],
         t_refresh := update_where (\<lambda>q. rt_hash q = rt_hash r \<and> rt_replaced_by q = None) (retire now hr) (t_refresh db)
            @ [new_refresh now hr (rt_grant r) (rt_audience r) scope]\<rparr>"
proof (cases "refresh_join env t db")
  case None
  with assms show ?thesis by (intro kept) (auto simp: rotate_tx_def)
next
  case (Some rg)
  obtain r g where rg: "rg = (r, g)" by force
  note tx = assms [unfolded rotate_tx_def, unfolded Some rg, simplified]
  show ?thesis
  proof (cases "truthy (gr_dpop_jkt g) \<noteq> None \<and> gr_dpop_jkt g \<noteq> rq_jkt rq")
    case True
    with tx show ?thesis by (intro kept) auto
  next
    case dpop: False
    show ?thesis
    proof (cases "rt_replaced_by r")
      case (Some h)
      with tx dpop rg \<open>refresh_join env t db = Some rg\<close> show ?thesis
        by (cases "out = Theft"; (intro theft [of r g] kept)?) (auto split: if_splits)
    next
      case None
      show ?thesis
      proof (cases "\<exists>it. out = Rotated it")
        case False
        with tx dpop None show ?thesis
          by (intro kept) (auto simp: Let_def split: if_splits option.splits sum.splits prod.splits)
      next
        case True
        then obtain it where it: "out = Rotated it" by blast
        from tx dpop None it obtain scope db1 h where g: "rt_revoked_at r = None" "gr_revoked_at g = None"
            "now < rt_expires_at r" "gr_client g = rq_client rq"
            "rq_resource rq = JUndefined \<or> rq_resource rq = JStr (rt_audience r)"
            "refresh_scope (rq_scope rq) (rt_scope r) = Some scope" "rq_seal rq it m = Inr m'"
            and i: "issue_tokens env now ra rr (rt_grant r) (rt_audience r) scope True (gr_dpop_jkt g) db = Inr (it, db1)"
            and h: "digest env (case it_refresh it of None \<Rightarrow> [] | Some t \<Rightarrow> t) = Inr h"
              "db' = db1\<lparr>t_refresh := update_where (\<lambda>q. rt_hash q = rt_hash r \<and> rt_replaced_by q = None)
                 (retire now h) (t_refresh db1)\<rparr>"
          by (auto simp: Let_def retire_def [abs_def] split: if_splits option.splits sum.splits prod.splits)
        from i show ?thesis
        proof (cases rule: issue_tokens_cases)
          case (both ha hr)
          have "r \<in> set (t_refresh db)" using refresh_join_Some Some rg by blast
          then have "hr \<noteq> rt_hash r" using both(8) by blast
          then have "update_where (\<lambda>q. rt_hash q = rt_hash r \<and> rt_replaced_by q = None) (retire now h) (t_refresh db1)
            = update_where (\<lambda>q. rt_hash q = rt_hash r \<and> rt_replaced_by q = None) (retire now h) (t_refresh db)
              @ [new_refresh now hr (rt_grant r) (rt_audience r) scope]"
            using both(10) by (simp add: update_where_def)
          moreover have "h = hr" using h(1) both(7,9) by simp
          ultimately have "db' = db\<lparr>t_access := t_access db @ [new_access env now ha (rt_grant r) (rt_audience r) scope (gr_dpop_jkt g)],
             t_refresh := update_where (\<lambda>q. rt_hash q = rt_hash r \<and> rt_replaced_by q = None) (retire now hr) (t_refresh db)
               @ [new_refresh now hr (rt_grant r) (rt_audience r) scope]\<rparr>"
            using h(2) both(10) by simp
          with g both dpop None it Some rg show ?thesis
            by (intro rotated [of r g scope it ha hr]) simp_all
        qed simp
      qed
    qed
  qed
qed

lemma rotate_refresh_db:
  assumes "rotate_refresh env now ra rr p rq m db = (res, db')"
  shows "db' = db \<or> (\<exists>t out m'. p = JStr t \<and> well_formed_str Refresh t \<and> res = Inr (out, m')
    \<and> rotate_tx env now ra rr t rq m db = Inr ((out, m'), db'))"
  using assms
  by (cases p; cases res) (auto simp: rotate_refresh_def run_tx_Inl run_tx_Inr split: bool.splits if_splits)

section \<open>Preservation\<close>

lemma revoke_grant_frame [simp]:
  "t_codes (revoke_grant now g db) = t_codes db" "t_pending (revoke_grant now g db) = t_pending db"
  "t_par (revoke_grant now g db) = t_par db" "t_accounts (revoke_grant now g db) = t_accounts db"
  "t_notified (revoke_grant now g db) = t_notified db @ [g]"
  "t_access (revoke_grant now g db) = delete_where (\<lambda>a. at_grant a = g) (t_access db)"
  by (simp_all add: revoke_grant_def)

lemma revoke_grant_grants:
  "q \<in> set (t_grants (revoke_grant now g db)) \<longleftrightarrow>
     (\<exists>p \<in> set (t_grants db). q = (if gr_id p = g \<and> gr_revoked_at p = None then p\<lparr>gr_revoked_at := Some now\<rparr> else p))"
  by (simp add: revoke_grant_def in_update_where)

lemma revoke_grant_refresh:
  "q \<in> set (t_refresh (revoke_grant now g db)) \<longleftrightarrow>
     (\<exists>p \<in> set (t_refresh db). q = (if rt_grant p = g \<and> rt_revoked_at p = None then p\<lparr>rt_revoked_at := Some now\<rparr> else p))"
  by (simp add: revoke_grant_def in_update_where)

lemma heads_revoked:
  "map rt_grant (heads (t_refresh (revoke_grant now g db))) = map rt_grant (heads (t_refresh db))"
  by (simp add: revoke_grant_def filter_update_where map_update_where)

lemma revoke_grant_keys: "keys_ok db \<Longrightarrow> keys_ok (revoke_grant now g db)"
  by (auto simp: keys_ok_def revoke_grant_def map_update_where)

lemma revoke_grant_inv:
  assumes "oauth_inv db"
  shows "oauth_inv (revoke_grant now g db)"
proof -
  have "\<exists>q \<in> set (t_grants (revoke_grant now g db)). access_of q a"
    if a: "a \<in> set (t_access (revoke_grant now g db))" for a
  proof -
    from a obtain p where p: "p \<in> set (t_grants db)" "access_of p a" "at_grant a \<noteq> g"
      using assms by (auto simp: oauth_inv_def set_delete_where)
    then have "gr_id p \<noteq> g" by (simp add: access_of_def)
    with p show ?thesis by (intro bexI [of _ p]) (auto simp: revoke_grant_grants)
  qed
  moreover have "\<exists>q \<in> set (t_grants (revoke_grant now g db)). refresh_of q r"
    if r: "r \<in> set (t_refresh (revoke_grant now g db))" for r
  proof -
    from r obtain p where p: "p \<in> set (t_refresh db)"
      "r = (if rt_grant p = g \<and> rt_revoked_at p = None then p\<lparr>rt_revoked_at := Some now\<rparr> else p)"
      by (auto simp: revoke_grant_refresh)
    with assms obtain q where q: "q \<in> set (t_grants db)" "refresh_of q p" by (auto simp: oauth_inv_def)
    let ?q = "if gr_id q = g \<and> gr_revoked_at q = None then q\<lparr>gr_revoked_at := Some now\<rparr> else q"
    have "?q \<in> set (t_grants (revoke_grant now g db))" 
      using q(1) unfolding revoke_grant_grants by (intro bexI [of _ q]) simp_all
    moreover have "refresh_of ?q r" using p q(2) by (auto simp: refresh_of_def)
    ultimately show ?thesis by blast
  qed
  ultimately show ?thesis
    using assms revoke_grant_keys [of db now g] by (simp add: oauth_inv_def heads_revoked)
qed

lemma grant_exists_iff: "grant_exists g db \<longleftrightarrow> (\<exists>q \<in> set (t_grants db). gr_id q = g)"
  by (auto simp: grant_exists_def)

lemma heads_retired:
  assumes "distinct (map rt_hash rs)" "r \<in> set rs" "rt_replaced_by r = None"
  shows "heads (update_where (\<lambda>q. rt_hash q = rt_hash r \<and> rt_replaced_by q = None) (retire now h) rs)
     = filter (\<lambda>q. q \<noteq> r) (heads rs)"
proof -
  have "heads (update_where (\<lambda>q. rt_hash q = rt_hash r \<and> rt_replaced_by q = None) (retire now h) rs)
      = filter (\<lambda>q. rt_replaced_by q = None \<and> rt_hash q \<noteq> rt_hash r) rs"
    by (induction rs) (auto simp: update_where_def)
  also have "\<dots> = filter (\<lambda>q. q \<noteq> r) (heads rs)"
    unfolding filter_filter using distinct_key_eq [OF assms(1)] assms(2) by (intro filter_cong) auto
  finally show ?thesis .
qed

lemma rotated_inv:
  assumes "oauth_inv db" "refresh_join env t db = Some (r, g)" "rt_replaced_by r = None" "gr_revoked_at g = None"
    "scope_within scope (rt_scope r)" "ha \<notin> at_hash ` set (t_access db)" "hr \<notin> rt_hash ` set (t_refresh db)"
    "db' = db\<lparr>t_access := t_access db @ [new_access env now ha (rt_grant r) (rt_audience r) scope (gr_dpop_jkt g)],
       t_refresh := update_where (\<lambda>q. rt_hash q = rt_hash r \<and> rt_replaced_by q = None) (retire now hr) (t_refresh db)
          @ [new_refresh now hr (rt_grant r) (rt_audience r) scope]\<rparr>"
  shows "oauth_inv db'"
proof -
  let ?P = "\<lambda>q. rt_hash q = rt_hash r \<and> rt_replaced_by q = None"
  note j = refresh_join_Some [OF assms(2)]
  from assms(1) have k: "keys_ok db" "distinct (map rt_grant (heads (t_refresh db)))" by (auto simp: oauth_inv_def)
  from j assms(1) obtain q where q: "q \<in> set (t_grants db)" "refresh_of q r" by (auto simp: oauth_inv_def)
  with j k have "q = g" by (auto simp: keys_ok_def refresh_of_def intro: distinct_key_eq [of gr_id "t_grants db"])
  with q have ref: "refresh_of g r" by simp
  have sc: "scope_within scope (gr_scope g)"
    using scope_within_trans [OF assms(5)] ref by (simp add: refresh_of_def)
  have "keys_ok db'"
    using k(1) assms(6,7) unfolding assms(8) keys_ok_def
    by (simp add: map_update_where image_update_where)
  moreover have "\<exists>g \<in> set (t_grants db'). access_of g a" if "a \<in> set (t_access db')" for a
  proof (cases "a \<in> set (t_access db)")
    case True
    with assms(1) show ?thesis unfolding assms(8) by (simp add: oauth_inv_def)
  next
    case False
    with that have a: "a = new_access env now ha (rt_grant r) (rt_audience r) scope (gr_dpop_jkt g)"
      unfolding assms(8) by simp
    have "access_of g a" using a ref sc assms(4) j by (simp add: access_of_def refresh_of_def)
    with j show ?thesis unfolding assms(8) by auto
  qed
  moreover have "\<exists>g \<in> set (t_grants db'). refresh_of g p" if p: "p \<in> set (t_refresh db')" for p
  proof -
    have "(\<exists>p' \<in> set (t_refresh db). p = p' \<or> p = retire now hr p')
        \<or> p = new_refresh now hr (rt_grant r) (rt_audience r) scope"
      using p unfolding assms(8) by (auto simp: set_update_where)
    then show ?thesis
    proof
      assume "\<exists>p' \<in> set (t_refresh db). p = p' \<or> p = retire now hr p'"
      then obtain p' where "p' \<in> set (t_refresh db)" "p = p' \<or> p = retire now hr p'" by blast
      with assms(1) show ?thesis unfolding assms(8) by (auto simp: oauth_inv_def refresh_of_def)
    next
      assume "p = new_refresh now hr (rt_grant r) (rt_audience r) scope"
      then have "refresh_of g p" using ref sc assms(4) j by (simp add: refresh_of_def)
      with j show ?thesis unfolding assms(8) by auto
    qed
  qed
  moreover have "distinct (map rt_grant (heads (t_refresh db')))"
  proof -
    have h: "heads (t_refresh db') = filter (\<lambda>q. q \<noteq> r) (heads (t_refresh db))
        @ [new_refresh now hr (rt_grant r) (rt_audience r) scope]"
      using heads_retired [of "t_refresh db" r now hr] k(1) j assms(3) unfolding assms(8) keys_ok_def by simp
    have "rt_grant q \<noteq> rt_grant r" if "q \<in> set (heads (t_refresh db))" "q \<noteq> r" for q
      using that j assms(3) distinct_key_eq [OF k(2), of q r] by auto
    then have "rt_grant r \<notin> rt_grant ` set (filter (\<lambda>q. q \<noteq> r) (heads (t_refresh db)))" by force
    moreover have "distinct (map rt_grant (filter (\<lambda>q. q \<noteq> r) (heads (t_refresh db))))"
      using k(2) by (rule distinct_map_filter)
    ultimately show ?thesis unfolding h by (simp del: filter_filter)
  qed
  ultimately show ?thesis by (simp add: oauth_inv_def)
qed

lemma establish_cases:
  assumes "establish_tx env now rg ra rr opts db = Inr (it, db')"
  obtains G ha where "G = \<lparr>gr_id = new_id ''grant'' rg, gr_account = go_account opts, gr_client = go_client opts,
        gr_resource = go_resource opts, gr_scope = go_scope opts, gr_dpop_jkt = go_jkt opts, gr_created_at = now,
        gr_last_used = None, gr_revoked_at = None\<rparr>"
      "gr_id G \<notin> gr_id ` set (t_grants db)" "account_exists (go_account opts) db"
      "digest env (mint Access ra) = Inr ha" "ha \<notin> at_hash ` set (t_access db)" "it_access it = mint Access ra"
      "it_scope it = go_scope opts" "t_grants db' = t_grants db @ [G]"
      "t_access db' = t_access db @ [new_access env now ha (gr_id G) (go_resource opts) (go_scope opts) (go_jkt opts)]"
      "t_codes db' = update_where (\<lambda>c. co_hash c \<in> set (digests env (go_code opts))) (\<lambda>c. c\<lparr>co_grant := Some (gr_id G)\<rparr>) (t_codes db)"
      "t_notified db' = t_notified db"
      "if go_refresh opts then \<exists>hr. digest env (mint Refresh rr) = Inr hr \<and> hr \<notin> rt_hash ` set (t_refresh db)
           \<and> it_refresh it = Some (mint Refresh rr)
           \<and> t_refresh db' = t_refresh db @ [new_refresh now hr (gr_id G) (go_resource opts) (go_scope opts)]
       else t_refresh db' = t_refresh db \<and> it_refresh it = None"
proof -
  let ?G = "\<lparr>gr_id = new_id ''grant'' rg, gr_account = go_account opts, gr_client = go_client opts,
        gr_resource = go_resource opts, gr_scope = go_scope opts, gr_dpop_jkt = go_jkt opts, gr_created_at = now,
        gr_last_used = None, gr_revoked_at = None\<rparr>"
  let ?db2 = "db\<lparr>t_grants := t_grants db @ [?G], t_codes := update_where (\<lambda>c. co_hash c \<in> set (digests env (go_code opts)))
         (\<lambda>c. c\<lparr>co_grant := Some (gr_id ?G)\<rparr>) (t_codes db)\<rparr>"
  have ne: "gr_id ?G \<notin> gr_id ` set (t_grants db)" "account_exists (go_account opts) db"
    and "issue_tokens env now ra rr (gr_id ?G) (go_resource opts) (go_scope opts) (go_refresh opts) (go_jkt opts) ?db2 = Inr (it, db')"
    using assms by (auto simp: establish_tx_def Let_def split: if_splits)
  from this(3) show ?thesis
  proof (cases rule: issue_tokens_cases)
    case (access_only ha)
    with ne show ?thesis by (intro that [OF refl, of ha]) simp_all
  next
    case (both ha hr)
    with ne show ?thesis by (intro that [OF refl, of ha]) simp_all
  qed
qed

lemma establish_inv:
  assumes "oauth_inv db" "establish_tx env now rg ra rr opts db = Inr (it, db')"
  shows "oauth_inv db'"
  using assms(2)
proof (cases rule: establish_cases)
  case (1 G ha)
  from assms(1) have k: "keys_ok db" "distinct (map rt_grant (heads (t_refresh db)))" by (auto simp: oauth_inv_def)
  have acc: "access_of G (new_access env now ha (gr_id G) (go_resource opts) (go_scope opts) (go_jkt opts))"
    using 1(1) by (simp add: access_of_def)
  have refr: "refresh_of G (new_refresh now hr (gr_id G) (go_resource opts) (go_scope opts))" for hr
    using 1(1) by (simp add: refresh_of_def)
  have no: "rt_grant r \<noteq> gr_id G" if "r \<in> set (t_refresh db)" for r
  proof -
    from assms(1) that obtain g where "g \<in> set (t_grants db)" "refresh_of g r" by (auto simp: oauth_inv_def)
    then show ?thesis using 1(2) unfolding refresh_of_def by (metis image_eqI)
  qed
  have "keys_ok db'"
    using k(1) 1(2,5,12) unfolding keys_ok_def 1(8-10) by (auto simp: map_update_where split: if_splits)
  moreover have "\<exists>g \<in> set (t_grants db'). access_of g a" if "a \<in> set (t_access db')" for a
    using that assms(1) acc unfolding 1(8,9) by (auto simp: oauth_inv_def)
  moreover have "\<exists>g \<in> set (t_grants db'). refresh_of g r" if "r \<in> set (t_refresh db')" for r
    using that assms(1) refr 1(12) unfolding 1(8) by (auto simp: oauth_inv_def split: if_splits)
  moreover have "distinct (map rt_grant (heads (t_refresh db')))"
    using k(2) 1(12) by (auto split: if_splits dest: no no [symmetric])
  ultimately show ?thesis by (simp add: oauth_inv_def)
qed

lemma oauth_inv_fewer:
  assumes "oauth_inv db" "t_grants db' = t_grants db" "t_access db' = delete_where P (t_access db)"
    "t_refresh db' = delete_where Q (t_refresh db)" "t_codes db' = delete_where R (t_codes db)"
  shows "oauth_inv db'"
proof -
  have "heads (delete_where Q (t_refresh db)) = delete_where Q (heads (t_refresh db))"
    by (simp add: delete_where_def conj_commute)
  with assms show ?thesis
    by (auto simp: oauth_inv_def keys_ok_def set_delete_where intro!: distinct_delete_where)
qed

lemma code_step_keys:
  "distinct (map co_hash cs) \<Longrightarrow> distinct (map co_hash (update_where P (code_spend now) cs))"
  by (simp add: map_update_where code_spend_def)

lemma issue_code_frame:
  assumes "issue_code env now rnd account p cx db = Inr (code, db')"
  obtains h r where "code = mint Code rnd" "digest env code = Inr h" "h \<notin> co_hash ` set (t_codes db)" "co_hash r = h"
    "co_consumed_at r = None" "co_grant r = None" "db' = db\<lparr>t_codes := t_codes db @ [r]\<rparr>"
    "co_client r = pe_client p" "co_account r = account" "co_scope r = scope_str (pe_scopes p)"
    "co_challenge r = pe_challenge p" "co_expires_at r = now + secs code_ttl"
proof -
  let ?r = "\<lambda>h. \<lparr>co_hash = h, co_account = account, co_client = pe_client p, co_redirect_uri = pe_redirect p,
     co_challenge = pe_challenge p, co_resource = pe_resource p, co_scope = scope_str (pe_scopes p),
     co_offline = pe_offline p, co_auth_time = Some (cx_auth_time cx * 1000), co_consent = cx_consent cx,
     co_dpop_jkt = pe_jkt p, co_consumed_at = None, co_grant = None, co_created_at = now,
     co_expires_at = now + secs code_ttl\<rparr>"
  obtain h where "code = mint Code rnd" "digest env code = Inr h" "h \<notin> co_hash ` set (t_codes db)"
    "db' = db\<lparr>t_codes := t_codes db @ [?r h]\<rparr>"
    using assms by (auto simp: issue_code_def Let_def split: sum.splits if_splits)
  then show ?thesis by (intro that [of h "?r h"]) simp_all
qed

lemma exec_store_inv:
  assumes "oauth_inv db"
  shows "oauth_inv (exec_store env x db)"
proof (cases x)
  case (St_claim now rnd account p cx)
  let ?db' = "exec_store env x db"
  have "?db' = db \<or> ?db' = delete_pending (pe_id p) db
    \<or> (\<exists>code. issue_code env now rnd account p cx (delete_pending (pe_id p) db) = Inr (code, ?db'))"
    unfolding St_claim by (auto simp: claim_and_issue_code_def run_tx_def split: sum.splits)
  moreover have d: "oauth_inv (delete_pending (pe_id p) db)"
    using assms by (intro oauth_inv_frame [OF assms]) (auto simp: delete_pending_def oauth_inv_def keys_ok_def)
  moreover have "oauth_inv ?db'" if "issue_code env now rnd account p cx (delete_pending (pe_id p) db) = Inr (code, ?db')" for code
    using that
  proof (rule issue_code_frame)
    fix h r
    assume "digest env code = Inr h" "h \<notin> co_hash ` set (t_codes (delete_pending (pe_id p) db))" "co_hash r = h"
      and e: "?db' = delete_pending (pe_id p) db\<lparr>t_codes := t_codes (delete_pending (pe_id p) db) @ [r]\<rparr>"
    with d show ?thesis
      unfolding e by (intro oauth_inv_frame [OF d]) (auto simp: oauth_inv_def keys_ok_def)
  qed
  ultimately show ?thesis using assms by metis
next
  case (St_establish now rg ra rr opts)
  show ?thesis
  proof (cases "establish_tx env now rg ra rr opts db")
    case (Inl e)
    with assms St_establish show ?thesis by (simp add: establish_grant_def run_tx_def)
  next
    case (Inr b)
    with assms St_establish show ?thesis
      by (cases b) (auto simp: establish_grant_def run_tx_def intro: establish_inv)
  qed
next
  case (St_rotate now ra rr p rq)
  obtain res db' where e: "rotate_refresh env now ra rr p rq () db = (res, db')" by fastforce
  from rotate_refresh_db [OF e] have "oauth_inv db'"
  proof
    assume "\<exists>t out m'. p = JStr t \<and> well_formed_str Refresh t \<and> res = Inr (out, m')
      \<and> rotate_tx env now ra rr t rq () db = Inr ((out, m'), db')"
    then obtain t out m' where "rotate_tx env now ra rr t rq () db = Inr ((out, m'), db')" by blast
    then show ?thesis
    proof (cases rule: rotate_cases)
      case (rotated r g scope it ha hr)
      show ?thesis
        by (rule rotated_inv [OF assms rotated(1,2,4) refresh_scope_within [OF rotated(9)] rotated(16,18,19)])
    qed (use assms revoke_grant_inv in auto)
  qed (use assms in simp)
  with e St_rotate show ?thesis by simp
next
  case (St_prune now)
  with assms show ?thesis
    by (intro oauth_inv_fewer [OF assms]) (auto simp: prune_expired_def)
next
  case (St_consume now code)
  have "map co_hash (t_codes (snd (consume_code env now code db))) = map co_hash (t_codes db)"
    by (auto simp: consume_code_def map_update_where code_spend_def split: bool.splits jsval.splits option.splits)
  moreover have "t_grants (snd (consume_code env now code db)) = t_grants db"
    "t_access (snd (consume_code env now code db)) = t_access db"
    "t_refresh (snd (consume_code env now code db)) = t_refresh db"
    by (auto simp: consume_code_def split: bool.splits jsval.splits option.splits)
  ultimately show ?thesis
    using assms St_consume by (intro oauth_inv_frame [OF assms]) (auto simp: oauth_inv_def keys_ok_def)
next
  case (St_revoke now g)
  with revoke_grant_inv [OF assms] show ?thesis by (simp add: revoke_grant_now_def run_tx_def)
next
  case (St_pending now rnd p v)
  then show ?thesis
    using assms
    by (intro oauth_inv_frame [OF assms])
      (auto simp: create_pending_def Let_def oauth_inv_def keys_ok_def split: sum.splits)
next
  case (St_drop i)
  then show ?thesis
    using assms by (intro oauth_inv_frame [OF assms]) (auto simp: delete_pending_def oauth_inv_def keys_ok_def)
next
  case (St_push now rnd client params)
  then show ?thesis
    using assms by (intro oauth_inv_frame [OF assms]) (auto simp: store_pushed_def Let_def oauth_inv_def keys_ok_def)
next
  case (St_take now i client)
  then show ?thesis
    using assms by (intro oauth_inv_frame [OF assms]) (auto simp: take_pushed_def Let_def oauth_inv_def keys_ok_def)
qed

lemma run_store_inv: "oauth_inv db \<Longrightarrow> oauth_inv (run_store env xs db)"
  by (induction xs arbitrary: db) (simp_all add: run_store_def exec_store_inv)

end
