(* ===== verification/OAuth_Theorems.thy ===== *)
theory OAuth_Theorems
  imports OAuth_Rules
begin

text \<open>
  What the grant store guarantees over any sequence of its operations: the invariant of the grant tables, the end of a
  revoked grant, and the single use of refresh tokens, codes, authorizations in flight and pushed requests.
\<close>

section \<open>How rows evolve\<close>

fun minted_refresh :: "store_op \<Rightarrow> string list" where
  "minted_refresh (St_establish now rg ra rr opts) = [mint Refresh rr]"
| "minted_refresh (St_rotate now ra rr p rq) = [mint Refresh rr]"
| "minted_refresh _ = []"

fun minted_code :: "store_op \<Rightarrow> string list" where
  "minted_code (St_claim now rnd account p cx) = [mint Code rnd]"
| "minted_code _ = []"

definition refresh_le :: "refresh_row \<Rightarrow> refresh_row \<Rightarrow> bool" where
  "refresh_le r r' \<longleftrightarrow> rt_hash r' = rt_hash r \<and> rt_grant r' = rt_grant r
     \<and> (rt_replaced_by r \<noteq> None \<longrightarrow> rt_replaced_by r' \<noteq> None) \<and> (rt_revoked_at r \<noteq> None \<longrightarrow> rt_revoked_at r' \<noteq> None)"

definition code_le :: "code_row \<Rightarrow> code_row \<Rightarrow> bool" where
  "code_le c c' \<longleftrightarrow> co_hash c' = co_hash c \<and> (co_consumed_at c \<noteq> None \<longrightarrow> co_consumed_at c' \<noteq> None)"

definition grant_le :: "grant_row \<Rightarrow> grant_row \<Rightarrow> bool" where
  "grant_le g g' \<longleftrightarrow> gr_id g' = gr_id g \<and> gr_account g' = gr_account g \<and> gr_client g' = gr_client g
     \<and> (gr_revoked_at g \<noteq> None \<longrightarrow> gr_revoked_at g' \<noteq> None)"

lemma le_refl [simp]: "refresh_le r r" "code_le c c" "grant_le g g"
  by (simp_all add: refresh_le_def code_le_def grant_le_def)

lemma keeps_row [intro]:
  "r \<in> set rs \<Longrightarrow> \<exists>q \<in> set rs. refresh_le q r" "c \<in> set cs \<Longrightarrow> \<exists>d \<in> set cs. code_le d c"
  "g \<in> set gs \<Longrightarrow> \<exists>h \<in> set gs. grant_le g h"
  using le_refl by blast+

lemma update_refresh_le:
  assumes "r' \<in> set (update_where P f rs)" "\<And>r. refresh_le r (f r)"
  shows "\<exists>r \<in> set rs. refresh_le r r'"
  using assms le_refl(1) unfolding in_update_where by metis

lemma revoke_refresh_le:
  "r' \<in> set (t_refresh (revoke_grant now g db)) \<Longrightarrow> \<exists>r \<in> set (t_refresh db). refresh_le r r'"
  by (rule update_refresh_le [of r' "\<lambda>r. rt_grant r = g \<and> rt_revoked_at r = None" "\<lambda>r. r\<lparr>rt_revoked_at := Some now\<rparr>"])
    (simp_all add: revoke_grant_def refresh_le_def)

text \<open>The three tables after an operation, for the two operations whose cases are long.\<close>

lemma establish_store:
  "exec_store env (St_establish now rg ra rr opts) db = db
   \<or> (\<exists>it. establish_tx env now rg ra rr opts db = Inr (it, exec_store env (St_establish now rg ra rr opts) db))"
  by (auto simp: establish_grant_def run_tx_def split: sum.splits)

lemma rotate_store:
  "exec_store env (St_rotate now ra rr p rq) db = db
   \<or> (\<exists>t out. p = JStr t \<and> rotate_tx env now ra rr t rq () db = Inr ((out, ()), exec_store env (St_rotate now ra rr p rq) db))"
proof -
  obtain res db' where e: "rotate_refresh env now ra rr p rq () db = (res, db')" by fastforce
  from rotate_refresh_db [OF e] show ?thesis by (auto simp: e)
qed

lemma refresh_evolves:
  assumes "r' \<in> set (t_refresh (exec_store env x db))"
  shows "(\<exists>r \<in> set (t_refresh db). refresh_le r r') \<or> (\<exists>t \<in> set (minted_refresh x). digest env t = Inr (rt_hash r'))"
proof (cases x)
  case (St_establish now rg ra rr opts)
  from establish_store [of env now rg ra rr opts db] show ?thesis
  proof
    assume "exec_store env (St_establish now rg ra rr opts) db = db"
    with assms St_establish show ?thesis by (metis le_refl(1))
  next
    assume "\<exists>it. establish_tx env now rg ra rr opts db = Inr (it, exec_store env (St_establish now rg ra rr opts) db)"
    then obtain it where "establish_tx env now rg ra rr opts db = Inr (it, exec_store env x db)" using St_establish by blast
    then show ?thesis
    proof (cases rule: establish_cases)
      case (1 G ha)
      from assms 1(12) have "r' \<in> set (t_refresh db) \<or> digest env (mint Refresh rr) = Inr (rt_hash r')"
        by (auto split: if_splits)
      then show ?thesis using St_establish by auto
    qed
  qed
next
  case (St_rotate now ra rr p rq)
  from rotate_store [of env now ra rr p rq db] show ?thesis
  proof
    assume "exec_store env (St_rotate now ra rr p rq) db = db"
    with assms St_rotate show ?thesis by (metis le_refl(1))
  next
    assume "\<exists>t out. p = JStr t \<and> rotate_tx env now ra rr t rq () db = Inr ((out, ()), exec_store env (St_rotate now ra rr p rq) db)"
    then obtain t out where "rotate_tx env now ra rr t rq () db = Inr ((out, ()), exec_store env x db)"
      using St_rotate by blast
    then show ?thesis
    proof (cases rule: rotate_cases)
      case kept
      with assms show ?thesis by (metis le_refl(1))
    next
      case (theft r g)
      with assms revoke_refresh_le show ?thesis by metis
    next
      case (rotated r g scope it ha hr)
      with assms have "r' \<in> set (update_where (\<lambda>q. rt_hash q = rt_hash r \<and> rt_replaced_by q = None) (retire now hr) (t_refresh db))
          \<or> r' = new_refresh now hr (rt_grant r) (rt_audience r) scope" by auto
      then show ?thesis
      proof
        assume "r' \<in> set (update_where (\<lambda>q. rt_hash q = rt_hash r \<and> rt_replaced_by q = None) (retire now hr) (t_refresh db))"
        then show ?thesis
          by (intro disjI1, elim update_refresh_le) (simp add: refresh_le_def)
      qed (use rotated(17) St_rotate in simp)
    qed
  qed
qed (use assms in \<open>auto simp: create_pending_def delete_pending_def claim_and_issue_code_def consume_code_def
      revoke_grant_now_def run_tx_def issue_code_def store_pushed_def take_pushed_def prune_expired_def Let_def
      set_delete_where dest: revoke_refresh_le
      split: sum.splits bool.splits jsval.splits option.splits if_splits\<close>)

lemma code_evolves:
  assumes "c' \<in> set (t_codes (exec_store env x db))"
  shows "(\<exists>c \<in> set (t_codes db). code_le c c') \<or> (\<exists>t \<in> set (minted_code x). digest env t = Inr (co_hash c'))"
proof (cases x)
  case (St_establish now rg ra rr opts)
  from establish_store [of env now rg ra rr opts db] show ?thesis
  proof
    assume "exec_store env (St_establish now rg ra rr opts) db = db"
    with assms St_establish show ?thesis by (metis le_refl(2))
  next
    assume "\<exists>it. establish_tx env now rg ra rr opts db = Inr (it, exec_store env (St_establish now rg ra rr opts) db)"
    then obtain it where "establish_tx env now rg ra rr opts db = Inr (it, exec_store env x db)" using St_establish by blast
    then show ?thesis
      by (cases rule: establish_cases) (use assms in \<open>auto simp: in_update_where code_le_def\<close>)
  qed
next
  case (St_rotate now ra rr p rq)
  from rotate_store [of env now ra rr p rq db] show ?thesis
  proof
    assume "exec_store env (St_rotate now ra rr p rq) db = db"
    with assms St_rotate show ?thesis by (metis le_refl(2))
  next
    assume "\<exists>t out. p = JStr t \<and> rotate_tx env now ra rr t rq () db = Inr ((out, ()), exec_store env (St_rotate now ra rr p rq) db)"
    then obtain t out where "rotate_tx env now ra rr t rq () db = Inr ((out, ()), exec_store env x db)"
      using St_rotate by blast
    then show ?thesis
      by (cases rule: rotate_cases) (use assms keeps_row(2) in auto)
  qed
qed (use assms in \<open>auto simp: create_pending_def delete_pending_def claim_and_issue_code_def consume_code_def
      revoke_grant_now_def run_tx_def issue_code_def store_pushed_def take_pushed_def prune_expired_def Let_def
      set_delete_where in_update_where code_le_def code_spend_def
      split: sum.splits bool.splits jsval.splits option.splits if_splits\<close>)

lemma grant_persists:
  assumes "g \<in> set (t_grants db)"
  shows "\<exists>g' \<in> set (t_grants (exec_store env x db)). grant_le g g'"
proof -
  have rev: "\<exists>g' \<in> set (t_grants (revoke_grant now i db)). grant_le g g'" for now i
  proof -
    have "(if gr_id g = i \<and> gr_revoked_at g = None then g\<lparr>gr_revoked_at := Some now\<rparr> else g)
        \<in> set (t_grants (revoke_grant now i db))"
      using assms unfolding revoke_grant_grants by blast
    then show ?thesis by (rule rev_bexI) (simp add: grant_le_def)
  qed
  show ?thesis
  proof (cases x)
    case (St_establish now rg ra rr opts)
    from establish_store [of env now rg ra rr opts db] show ?thesis
    proof
      assume "exec_store env (St_establish now rg ra rr opts) db = db"
      with assms St_establish show ?thesis by (metis le_refl(3))
    next
      assume "\<exists>it. establish_tx env now rg ra rr opts db = Inr (it, exec_store env (St_establish now rg ra rr opts) db)"
      then obtain it where "establish_tx env now rg ra rr opts db = Inr (it, exec_store env x db)" using St_establish by blast
      then show ?thesis
        by (cases rule: establish_cases) (use assms keeps_row(3) in auto)
    qed
  next
    case (St_rotate now ra rr p rq)
    from rotate_store [of env now ra rr p rq db] show ?thesis
    proof
      assume "exec_store env (St_rotate now ra rr p rq) db = db"
      with assms St_rotate show ?thesis by (metis le_refl(3))
    next
      assume "\<exists>t out. p = JStr t \<and> rotate_tx env now ra rr t rq () db = Inr ((out, ()), exec_store env (St_rotate now ra rr p rq) db)"
      then obtain t out where "rotate_tx env now ra rr t rq () db = Inr ((out, ()), exec_store env x db)"
        using St_rotate by blast
      then show ?thesis
      proof (cases rule: rotate_cases)
        case (theft r q)
        with rev show ?thesis by simp
      qed (use assms keeps_row(3) in auto)
    qed
  next
    case (St_revoke now i)
    with rev show ?thesis by (simp add: revoke_grant_now_def run_tx_def)
  qed (use assms in \<open>auto simp: create_pending_def delete_pending_def claim_and_issue_code_def consume_code_def
        run_tx_def issue_code_def store_pushed_def take_pushed_def prune_expired_def Let_def
        split: sum.splits bool.splits jsval.splits option.splits if_splits intro!: bexI [of _ g]\<close>)
qed

lemma grant_persists_run:
  assumes "g \<in> set (t_grants db)"
  shows "\<exists>g' \<in> set (t_grants (run_store env xs db)). grant_le g g'"
  using assms
proof (induction xs arbitrary: db g)
  case (Cons x xs)
  obtain g1 where g1: "g1 \<in> set (t_grants (exec_store env x db))" "grant_le g g1"
    using grant_persists [OF Cons.prems] by blast
  from Cons.IH [OF g1(1)] g1(2) show ?case by (auto simp: run_store_def grant_le_def)
qed (simp add: run_store_def keeps_row)

section \<open>Spent credentials\<close>

definition refresh_spent :: "env \<Rightarrow> string \<Rightarrow> database \<Rightarrow> bool" where
  "refresh_spent env t db \<longleftrightarrow>
     (\<forall>r \<in> set (t_refresh db). rt_hash r \<in> set (digests env t) \<longrightarrow> rt_replaced_by r \<noteq> None)"

definition code_spent :: "env \<Rightarrow> string \<Rightarrow> database \<Rightarrow> bool" where
  "code_spent env t db \<longleftrightarrow>
     (\<forall>c \<in> set (t_codes db). co_hash c \<in> set (digests env t) \<longrightarrow> co_consumed_at c \<noteq> None)"

lemma refresh_spent_run:
  assumes "refresh_spent env t db" "hmac_injective (en_hmac env)" "\<forall>x \<in> set xs. t \<notin> set (minted_refresh x)"
  shows "refresh_spent env t (run_store env xs db)"
  using assms
proof (induction xs arbitrary: db)
  case (Cons x xs)
  have "refresh_spent env t (exec_store env x db)"
    unfolding refresh_spent_def
  proof (intro ballI impI)
    fix r'
    assume r': "r' \<in> set (t_refresh (exec_store env x db))" "rt_hash r' \<in> set (digests env t)"
    from refresh_evolves [OF r'(1)] show "rt_replaced_by r' \<noteq> None"
    proof
      assume "\<exists>r \<in> set (t_refresh db). refresh_le r r'"
      with Cons.prems(1) r'(2) show ?thesis by (auto simp: refresh_spent_def refresh_le_def)
    next
      assume "\<exists>t \<in> set (minted_refresh x). digest env t = Inr (rt_hash r')"
      then obtain u where u: "u \<in> set (minted_refresh x)" "digest env u = Inr (rt_hash r')" by blast
      then have "u = t" using digests_eq [OF Cons.prems(2)] digest_in_digests r'(2) by blast
      with u Cons.prems(3) show ?thesis by simp
    qed
  qed
  with Cons.IH Cons.prems show ?case by (simp add: run_store_def)
qed (simp add: run_store_def)

lemma code_spent_run:
  assumes "code_spent env t db" "hmac_injective (en_hmac env)" "\<forall>x \<in> set xs. t \<notin> set (minted_code x)"
  shows "code_spent env t (run_store env xs db)"
  using assms
proof (induction xs arbitrary: db)
  case (Cons x xs)
  have "code_spent env t (exec_store env x db)"
    unfolding code_spent_def
  proof (intro ballI impI)
    fix r'
    assume r': "r' \<in> set (t_codes (exec_store env x db))" "co_hash r' \<in> set (digests env t)"
    from code_evolves [OF r'(1)] show "co_consumed_at r' \<noteq> None"
    proof
      assume "\<exists>r \<in> set (t_codes db). code_le r r'"
      with Cons.prems(1) r'(2) show ?thesis by (auto simp: code_spent_def code_le_def)
    next
      assume "\<exists>t \<in> set (minted_code x). digest env t = Inr (co_hash r')"
      then obtain u where u: "u \<in> set (minted_code x)" "digest env u = Inr (co_hash r')" by blast
      then have "u = t" using digests_eq [OF Cons.prems(2)] digest_in_digests r'(2) by blast
      with u Cons.prems(3) show ?thesis by simp
    qed
  qed
  with Cons.IH Cons.prems show ?case by (simp add: run_store_def)
qed (simp add: run_store_def)

text \<open>Every stored refresh token is stored under the current pepper, so a token names at most one row.\<close>

definition stored :: "env \<Rightarrow> database \<Rightarrow> bool" where
  "stored env db \<longleftrightarrow> (\<forall>r \<in> set (t_refresh db). \<exists>t. digest env t = Inr (rt_hash r))"

lemma stored_run: "stored env db \<Longrightarrow> stored env (run_store env xs db)"
proof (induction xs arbitrary: db)
  case (Cons x xs)
  have "stored env (exec_store env x db)"
    unfolding stored_def
  proof
    fix r' assume "r' \<in> set (t_refresh (exec_store env x db))"
    from refresh_evolves [OF this] Cons.prems show "\<exists>t. digest env t = Inr (rt_hash r')"
      by (auto simp: stored_def refresh_le_def)
  qed
  with Cons.IH show ?case by (simp add: run_store_def)
qed (simp add: run_store_def)

lemma stored_unique:
  assumes "stored env db" "oauth_inv db" "hmac_injective (en_hmac env)" "r \<in> set (t_refresh db)" "q \<in> set (t_refresh db)"
    "rt_hash r \<in> set (digests env t)" "rt_hash q \<in> set (digests env t)"
  shows "q = r"
proof -
  obtain u v where u: "digest env u = Inr (rt_hash r)" "digest env v = Inr (rt_hash q)"
    using assms(1,4,5) unfolding stored_def by blast
  then have "u = t" "v = t" using digests_eq [OF assms(3)] digest_in_digests assms(6,7) by blast+
  with u have "rt_hash q = rt_hash r" by simp
  moreover have "distinct (map rt_hash (t_refresh db))" using assms(2) by (simp add: oauth_inv_def keys_ok_def)
  ultimately show ?thesis using distinct_key_eq assms(4,5) by metis
qed

definition no_grants :: "database \<Rightarrow> bool" where
  "no_grants db \<longleftrightarrow> t_grants db = [] \<and> t_access db = [] \<and> t_refresh db = [] \<and> t_codes db = []"

lemma no_grants_inv: "no_grants db \<Longrightarrow> oauth_inv db \<and> stored env db"
  by (simp add: no_grants_def oauth_inv_def keys_ok_def stored_def)

section \<open>A small authorization server\<close>

definition demo_rnd2 :: string where
  "demo_rnd2 = replicate 32 (CHR ''a'')"

lemma mint_first: "length (mint k (c # cs)) > 9 \<and> mint k (c # cs) ! 9 = b64_digit (byte c div 4)"
proof -
  have "\<exists>s. base64url (c # cs) = b64_digit (byte c div 4) # s"
    by (cases "(c # cs)" rule: base64url.cases) auto
  then obtain s where "base64url (c # cs) = b64_digit (byte c div 4) # s" by blast
  then show ?thesis by (simp add: mint_def Let_def nth_append)
qed

lemma demo_mint_ne: "mint k demo_rnd \<noteq> mint k demo_rnd2"
proof
  assume e: "mint k demo_rnd = mint k demo_rnd2"
  have r: "demo_rnd = CHR ''r'' # replicate 31 (CHR ''r'')" "demo_rnd2 = CHR ''a'' # replicate 31 (CHR ''a'')"
    by (simp_all add: demo_rnd_def demo_rnd2_def eval_nat_numeral)
  have "mint k demo_rnd ! 9 = b64_digit 28" "mint k demo_rnd2 ! 9 = b64_digit 24"
    using mint_first [of k "CHR ''r''" "replicate 31 (CHR ''r'')"] mint_first [of k "CHR ''a''" "replicate 31 (CHR ''a'')"]
    by (simp_all add: r byte_def)
  with e have "b64_digit 28 = b64_digit 24" by simp
  then show False by (simp add: b64_digit_def)
qed

lemma toy_digest_eq: "toy_hmac k s = toy_hmac k t \<longleftrightarrow> s = t"
  using toy_hmac_injective by (auto dest: hmac_injectiveD)

lemma hex_eq [simp]: "hex s = hex t \<longleftrightarrow> s = t"
  by (auto dest: hex_inj)

definition demo_options :: grant_options where
  "demo_options = \<lparr>go_code = ''c'', go_account = ''ann'', go_client = ''app'', go_resource = ''https://mcp/mcp'',
     go_scope = ''devices:read devices:control'', go_refresh = True, go_jkt = None\<rparr>"

definition demo_grants :: database where
  "demo_grants = exec_store demo_env (St_establish 0 ''g'' demo_rnd demo_rnd demo_options) demo_account_db"

definition demo_request :: "unit refresh_request" where
  "demo_request = \<lparr>rq_client = ''app'', rq_resource = JUndefined, rq_scope = JUndefined, rq_grace = 30,
     rq_jkt = None, rq_seal = (\<lambda>it m. Inr m)\<rparr>"

definition demo_grant_row :: grant_row where
  "demo_grant_row = \<lparr>gr_id = new_id ''grant'' ''g'', gr_account = ''ann'', gr_client = ''app'',
     gr_resource = ''https://mcp/mcp'', gr_scope = ''devices:read devices:control'', gr_dpop_jkt = None,
     gr_created_at = 0, gr_last_used = None, gr_revoked_at = None\<rparr>"

abbreviation demo_hash :: "token_kind \<Rightarrow> string \<Rightarrow> string" where
  "demo_hash k rnd \<equiv> hex (toy_hmac ''pep'' (mint k rnd))"

lemma demo_grants_eval:
  "demo_grants = demo_account_db\<lparr>t_grants := [demo_grant_row],
     t_access := [new_access demo_env 0 (demo_hash Access demo_rnd) (gr_id demo_grant_row) ''https://mcp/mcp''
        ''devices:read devices:control'' None],
     t_refresh := [new_refresh 0 (demo_hash Refresh demo_rnd) (gr_id demo_grant_row) ''https://mcp/mcp''
        ''devices:read devices:control'']\<rparr>"
  by (simp add: demo_grants_def establish_grant_def run_tx_def establish_tx_def issue_tokens_def demo_digest
      demo_account_db_def empty_db_def account_exists_def grant_exists_def demo_options_def update_where_def
      demo_grant_row_def new_access_def new_refresh_def Let_def)

lemma demo_start_ok: "no_grants demo_account_db"
  by (simp add: no_grants_def demo_account_db_def empty_db_def)

lemma demo_grants_inv: "oauth_inv demo_grants \<and> stored demo_env demo_grants"
  using no_grants_inv [OF demo_start_ok] exec_store_inv [of demo_account_db demo_env "St_establish 0 ''g'' demo_rnd demo_rnd demo_options"]
    stored_run [of demo_env demo_account_db "[St_establish 0 ''g'' demo_rnd demo_rnd demo_options]"]
  by (simp add: demo_grants_def run_store_def del: exec_store.simps)

lemma demo_grants_tables:
  "t_grants demo_grants = [demo_grant_row]"
  "t_access demo_grants = [new_access demo_env 0 (demo_hash Access demo_rnd) (gr_id demo_grant_row) ''https://mcp/mcp''
        ''devices:read devices:control'' None]"
  "t_refresh demo_grants = [new_refresh 0 (demo_hash Refresh demo_rnd) (gr_id demo_grant_row) ''https://mcp/mcp''
        ''devices:read devices:control'']"
  by (simp_all add: demo_grants_eval)

lemma demo_lifetime: "access_lifetime demo_env ''https://mcp/mcp'' = 3600"
  by (simp add: access_lifetime_def api_resource_def demo_env_def)

lemma demo_join: "refresh_join demo_env (mint Refresh demo_rnd) demo_grants
   = Some (new_refresh 0 (demo_hash Refresh demo_rnd) (gr_id demo_grant_row) ''https://mcp/mcp''
        ''devices:read devices:control'', demo_grant_row)"
  by (simp add: refresh_join_def demo_grants_eval demo_digest grant_exists_def)

lemma demo_grant_simps:
  "gr_dpop_jkt demo_grant_row = None" "gr_revoked_at demo_grant_row = None" "gr_client demo_grant_row = ''app''"
  by (simp_all add: demo_grant_row_def)

definition demo_issued :: issued where
  "demo_issued = \<lparr>it_access = mint Access demo_rnd2, it_refresh = Some (mint Refresh demo_rnd2), it_type = Bearer_token,
     it_expires_in = 3600, it_scope = ''devices:read devices:control''\<rparr>"

lemma demo_rotate:
  "fst (rotate_refresh demo_env 5 demo_rnd2 demo_rnd2 (JStr (mint Refresh demo_rnd)) demo_request () demo_grants)
   = Inr (Rotated demo_issued, ())"
  using demo_mint_ne [of Access] demo_mint_ne [of Refresh]
  by (simp add: rotate_refresh_def mint_well_formed_str demo_rnd_length run_tx_def rotate_tx_def demo_join demo_request_def
      refresh_scope_def issue_tokens_def demo_digest demo_grants_tables grant_exists_def toy_digest_eq
      secs_def demo_lifetime demo_issued_def demo_grant_simps Let_def)

section \<open>Properties\<close>

text \<open>C3. Starting without grants, after any sequence of operations every access token belongs to a grant that is not
  revoked, is for that grant's resource and key, and has no scope the grant lacks; every refresh token is within its
  grant's resource and scope and is revoked when the grant is; and no grant has more than one refresh token that was not
  rotated away, so a token family is a line and never forks.\<close>

theorem tokens_within_grants:
  assumes "no_grants db" "db' = run_store env xs db"
  shows "(\<forall>a \<in> set (t_access db'). \<exists>g \<in> set (t_grants db'). at_grant a = gr_id g \<and> gr_revoked_at g = None
       \<and> at_audience a = gr_resource g \<and> at_cnf_jkt a = gr_dpop_jkt g
       \<and> set (scope_list (at_scope a)) \<subseteq> set (scope_list (gr_scope g)))
    \<and> (\<forall>r \<in> set (t_refresh db'). \<exists>g \<in> set (t_grants db'). rt_grant r = gr_id g \<and> rt_audience r = gr_resource g
       \<and> set (scope_list (rt_scope r)) \<subseteq> set (scope_list (gr_scope g))
       \<and> (gr_revoked_at g \<noteq> None \<longrightarrow> rt_revoked_at r \<noteq> None))
    \<and> (\<forall>g. length (filter (\<lambda>r. rt_grant r = g \<and> rt_replaced_by r = None) (t_refresh db')) \<le> 1)"
proof -
  have inv: "oauth_inv db'" unfolding assms(2) using no_grants_inv [OF assms(1)] run_store_inv by blast
  have "length (filter (\<lambda>r. rt_grant r = g \<and> rt_replaced_by r = None) (t_refresh db')) \<le> 1" for g
  proof -
    have "filter (\<lambda>r. rt_grant r = g \<and> rt_replaced_by r = None) (t_refresh db') = filter (\<lambda>r. rt_grant r = g) (heads (t_refresh db'))"
      by (simp add: conj_commute)
    moreover have "length (filter (\<lambda>r. k r = g) rs) \<le> 1" if "distinct (map k rs)" for k :: "refresh_row \<Rightarrow> string" and rs
      using that by (induction rs) (auto simp: filter_empty_conv image_iff)
    ultimately show ?thesis using inv by (metis oauth_inv_def)
  qed
  with inv show ?thesis
    by (simp add: oauth_inv_def access_of_def refresh_of_def scope_within_def)
qed

theorem tokens_within_grants_witness:
  "\<forall>g. length (filter (\<lambda>r. rt_grant r = g \<and> rt_replaced_by r = None) (t_refresh demo_grants)) \<le> 1"
  using tokens_within_grants [OF demo_start_ok, of demo_grants demo_env "[St_establish 0 ''g'' demo_rnd demo_rnd demo_options]"]
  by (simp add: run_store_def demo_grants_def)

text \<open>C5. Revoking a grant is final: whatever is done afterwards, the grant has no access token, and a refresh token of
  it is answered as dead or as lacking its DPoP key; it never yields tokens, and never its sealed response either.\<close>

theorem revocation_is_final:
  assumes "oauth_inv db" "g \<in> set (t_grants db)" "db' = run_store env xs (revoke_grant_now now (gr_id g) db)"
  shows "(\<forall>a \<in> set (t_access db'). at_grant a \<noteq> gr_id g)
    \<and> (\<forall>r q. refresh_join env t db' = Some (r, q) \<and> rt_grant r = gr_id g \<longrightarrow>
        rotate_tx env later ra rr t rq m db' \<in> {Inr ((Invalid Dead_token, m), db'), Inr ((Invalid_dpop, m), db')})"
proof -
  let ?db1 = "revoke_grant_now now (gr_id g) db"
  have inv1: "oauth_inv ?db1" using revoke_grant_inv [OF assms(1)] by (simp add: revoke_grant_now_def run_tx_def)
  have "\<exists>g1 \<in> set (t_grants ?db1). gr_id g1 = gr_id g \<and> gr_revoked_at g1 \<noteq> None"
    using assms(2)
    by (auto simp: revoke_grant_now_def run_tx_def revoke_grant_def bex_update_where intro!: bexI [of _ g])
  then obtain g1 where g1: "g1 \<in> set (t_grants ?db1)" "gr_id g1 = gr_id g" "gr_revoked_at g1 \<noteq> None" by blast
  obtain g2 where g2: "g2 \<in> set (t_grants db')" "gr_id g2 = gr_id g" "gr_revoked_at g2 \<noteq> None"
    using grant_persists_run [OF g1(1), of env xs] g1(2,3) unfolding assms(3) by (auto simp: grant_le_def)
  have inv: "oauth_inv db'" unfolding assms(3) using inv1 by (rule run_store_inv)
  then have uniq: "q = g2" if "q \<in> set (t_grants db')" "gr_id q = gr_id g" for q
    using that g2 by (auto simp: oauth_inv_def keys_ok_def intro: distinct_key_eq [of gr_id "t_grants db'"])
  have "at_grant a \<noteq> gr_id g" if a: "a \<in> set (t_access db')" for a
  proof
    assume "at_grant a = gr_id g"
    moreover obtain q where "q \<in> set (t_grants db')" "access_of q a" using inv a by (auto simp: oauth_inv_def)
    ultimately show False using uniq [of q] g2(3) by (simp add: access_of_def)
  qed
  moreover have "rotate_tx env later ra rr t rq m db' \<in> {Inr ((Invalid Dead_token, m), db'), Inr ((Invalid_dpop, m), db')}"
    if j: "refresh_join env t db' = Some (r, q)" "rt_grant r = gr_id g" for r q
  proof -
    have "q = g2" using refresh_join_Some [OF j(1)] j(2) uniq [of q] by simp
    with g2(3) j show ?thesis by (auto simp: rotate_tx_def)
  qed
  ultimately show ?thesis by blast
qed

theorem revocation_is_final_witness:
  "filter (\<lambda>a. at_grant a = gr_id demo_grant_row)
     (t_access (run_store demo_env [St_prune 9] (revoke_grant_now 7 (gr_id demo_grant_row) demo_grants))) = []"
  using revocation_is_final [OF conjunct1 [OF demo_grants_inv] _ refl, of demo_grant_row demo_env "[St_prune 9]" 7, THEN conjunct1]
  by (auto simp: demo_grants_tables filter_empty_conv)

text \<open>C4. A refresh token rotates at most once: after it was exchanged for new tokens, and whatever happens between
  (short of the same random token being minted again), presenting it again never issues tokens.\<close>

theorem refresh_rotates_once:
  assumes "no_grants db0" "db = run_store env xs0 db0" "hmac_injective (en_hmac env)"
    and "rotate_refresh env now ra rr (JStr t) rq m db = (Inr (Rotated it, m'), db1)"
    and "mint Refresh rr \<noteq> t" "\<forall>x \<in> set xs. t \<notin> set (minted_refresh x)"
  shows "fst (rotate_refresh env later ra' rr' (JStr t) rq' m'' (run_store env xs db1)) \<noteq> Inr (Rotated it', m3)"
proof
  assume again: "fst (rotate_refresh env later ra' rr' (JStr t) rq' m'' (run_store env xs db1)) = Inr (Rotated it', m3)"
  have base: "oauth_inv db" "stored env db"
    using no_grants_inv [OF assms(1)] run_store_inv stored_run unfolding assms(2) by blast+
  obtain t0 where "rotate_tx env now ra rr t rq m db = Inr ((Rotated it, m'), db1)"
    using rotate_refresh_db [OF assms(4)] assms(4)
    by (auto simp: rotate_refresh_def run_tx_def split: bool.splits sum.splits prod.splits)
  then have "refresh_spent env t db1"
  proof (cases rule: rotate_cases)
    case (rotated r g scope i ha hr)
    have "rt_hash r \<in> set (digests env t)" "r \<in> set (t_refresh db)" using refresh_join_Some [OF rotated(1)] by auto
    then have u: "q = r" if "q \<in> set (t_refresh db)" "rt_hash q \<in> set (digests env t)" for q
      using stored_unique [OF base(2,1) assms(3)] that by blast
    have n: "hr \<notin> set (digests env t)"
      using digests_eq [OF assms(3)] digest_in_digests [OF rotated(17)] assms(5) by blast
    show ?thesis unfolding refresh_spent_def rotated(19)
    proof (intro ballI impI)
      fix q
      assume q: "q \<in> set (t_refresh (db
          \<lparr>t_access := t_access db @ [new_access env now ha (rt_grant r) (rt_audience r) scope (gr_dpop_jkt g)],
           t_refresh := update_where (\<lambda>q. rt_hash q = rt_hash r \<and> rt_replaced_by q = None) (retire now hr) (t_refresh db)
              @ [new_refresh now hr (rt_grant r) (rt_audience r) scope]\<rparr>))" "rt_hash q \<in> set (digests env t)"
      with n have "q \<in> set (update_where (\<lambda>q. rt_hash q = rt_hash r \<and> rt_replaced_by q = None) (retire now hr) (t_refresh db))"
        by auto
      then obtain p where p: "p \<in> set (t_refresh db)"
        "q = (if rt_hash p = rt_hash r \<and> rt_replaced_by p = None then retire now hr p else p)"
        unfolding in_update_where by (elim bexE) (rule that)
      then have "rt_hash p = rt_hash q" by simp
      with q(2) u p(1) have "p = r" by simp
      with p(2) rotated(2) show "rt_replaced_by q \<noteq> None" by simp
    qed
  qed auto
  then have spent: "refresh_spent env t (run_store env xs db1)"
    using refresh_spent_run [OF _ assms(3,6)] by blast
  obtain db2 where "rotate_tx env later ra' rr' t rq' m'' (run_store env xs db1) = Inr ((Rotated it', m3), db2)"
    using again by (auto simp: rotate_refresh_def run_tx_def split: bool.splits sum.splits prod.splits)
  then show False
  proof (cases rule: rotate_cases)
    case (rotated r g scope i ha hr)
    then show False using refresh_join_Some [OF rotated(1)] spent by (auto simp: refresh_spent_def)
  qed auto
qed

theorem refresh_rotates_once_witness:
  "fst (rotate_refresh demo_env 6 demo_rnd demo_rnd (JStr (mint Refresh demo_rnd)) demo_request ()
     (snd (rotate_refresh demo_env 5 demo_rnd2 demo_rnd2 (JStr (mint Refresh demo_rnd)) demo_request () demo_grants)))
   \<noteq> Inr (Rotated demo_issued, ())"
proof -
  have g: "demo_grants = run_store demo_env [St_establish 0 ''g'' demo_rnd demo_rnd demo_options] demo_account_db"
    by (simp add: run_store_def demo_grants_def)
  obtain db1 where r: "rotate_refresh demo_env 5 demo_rnd2 demo_rnd2 (JStr (mint Refresh demo_rnd)) demo_request () demo_grants
      = (Inr (Rotated demo_issued, ()), db1)"
    using demo_rotate by (metis prod.collapse)
  show ?thesis
    using refresh_rotates_once [OF demo_start_ok g _ r, of "[]" 6 demo_rnd demo_rnd demo_request "()"]
      demo_mint_ne [of Refresh] toy_hmac_injective r
    by (auto simp: run_store_def)
qed

text \<open>C6. Reuse is taken for theft: presenting a rotated token after the grace window, or once its successor was used,
  or as another client, revokes exactly the whole grant while it was live. Then the grant is announced as revoked, has no
  access token left, and every refresh token of it, the thief's and the owner's, is revoked. The rows of every other grant,
  their access tokens and their refresh tokens are as they were, of the grant's own rows only the marks of the revocation
  differ, and every other table is untouched.\<close>

theorem reuse_revokes_family:
  assumes "oauth_inv db" "refresh_join env t db = Some (r, g)" "rt_replaced_by r \<noteq> None" "gr_revoked_at g = None"
    and "truthy (gr_dpop_jkt g) = None \<or> gr_dpop_jkt g = rq_jkt rq"
    and "\<not> within_grace now (rq_grace rq) r \<or> successor_used r db \<or> gr_client g \<noteq> rq_client rq"
    and "rotate_tx env now ra rr t rq m db = Inr ((out, m'), db')"
  shows "out = Theft \<and> t_notified db' = t_notified db @ [gr_id g]
    \<and> g\<lparr>gr_revoked_at := Some now\<rparr> \<in> set (t_grants db')
    \<and> filter (\<lambda>p. gr_id p \<noteq> gr_id g) (t_grants db') = filter (\<lambda>p. gr_id p \<noteq> gr_id g) (t_grants db)
    \<and> map gr_id (t_grants db') = map gr_id (t_grants db)
    \<and> (\<forall>a \<in> set (t_access db'). at_grant a \<noteq> gr_id g)
    \<and> (\<forall>q \<in> set (t_refresh db'). rt_grant q = gr_id g \<longrightarrow> rt_revoked_at q \<noteq> None)
    \<and> filter (\<lambda>a. at_grant a \<noteq> gr_id g) (t_access db') = filter (\<lambda>a. at_grant a \<noteq> gr_id g) (t_access db)
    \<and> filter (\<lambda>q. rt_grant q \<noteq> gr_id g) (t_refresh db') = filter (\<lambda>q. rt_grant q \<noteq> gr_id g) (t_refresh db)
    \<and> map (\<lambda>q. q\<lparr>rt_revoked_at := None\<rparr>) (t_refresh db') = map (\<lambda>q. q\<lparr>rt_revoked_at := None\<rparr>) (t_refresh db)
    \<and> db'\<lparr>t_grants := t_grants db, t_access := t_access db, t_refresh := t_refresh db, t_notified := t_notified db\<rparr> = db"
proof -
  note j = refresh_join_Some [OF assms(2)]
  have d: "out = Theft" "db' = revoke_grant now (gr_id g) db"
    using assms(2-7) j by (auto simp: rotate_tx_def split: if_splits)
  have "filter (\<lambda>q. rt_grant q \<noteq> gr_id g) (t_refresh db') = filter (\<lambda>q. rt_grant q \<noteq> gr_id g) (t_refresh db)"
    unfolding d(2) revoke_grant_def by (simp add: filter_update_where) (rule update_where_none, auto)
  moreover have "\<forall>q \<in> set (t_refresh db'). rt_grant q = gr_id g \<longrightarrow> rt_revoked_at q \<noteq> None"
    unfolding d(2) revoke_grant_def by (auto simp: in_update_where)
  moreover have "g\<lparr>gr_revoked_at := Some now\<rparr> \<in> set (t_grants db')"
    unfolding d(2) revoke_grant_def using j assms(4) by (auto simp: set_update_where)
  moreover have "filter (\<lambda>p. gr_id p \<noteq> gr_id g) (t_grants db') = filter (\<lambda>p. gr_id p \<noteq> gr_id g) (t_grants db)"
    unfolding d(2) revoke_grant_def by (simp add: filter_update_where) (rule update_where_none, auto)
  moreover have "map gr_id (t_grants db') = map gr_id (t_grants db)" unfolding d(2) revoke_grant_def by (simp add: update_where_def)
  moreover have "map (\<lambda>q. q\<lparr>rt_revoked_at := None\<rparr>) (t_refresh db') = map (\<lambda>q. q\<lparr>rt_revoked_at := None\<rparr>) (t_refresh db)"
    unfolding d(2) revoke_grant_def by (simp add: update_where_def)
  moreover have "db'\<lparr>t_grants := t_grants db, t_access := t_access db, t_refresh := t_refresh db, t_notified := t_notified db\<rparr> = db"
    unfolding d(2) revoke_grant_def by simp
  moreover have "t_notified db' = t_notified db @ [gr_id g]" "\<forall>a \<in> set (t_access db'). at_grant a \<noteq> gr_id g"
    "filter (\<lambda>a. at_grant a \<noteq> gr_id g) (t_access db') = filter (\<lambda>a. at_grant a \<noteq> gr_id g) (t_access db)"
    unfolding d(2) revoke_grant_def by (auto simp: set_delete_where delete_where_def)
  ultimately show ?thesis using d(1) by (intro conjI)
qed

theorem reuse_revokes_family_witness:
  "\<exists>db'. rotate_tx demo_env (secs 60) demo_rnd2 demo_rnd2 (mint Refresh demo_rnd) demo_request ()
      (demo_grants\<lparr>t_refresh := map (retire 5 ''h'') (t_refresh demo_grants)\<rparr>) = Inr ((Theft, ()), db')
    \<and> filter (\<lambda>a. at_grant a = gr_id demo_grant_row) (t_access db') = []"
proof -
  let ?db = "demo_grants\<lparr>t_refresh := map (retire 5 ''h'') (t_refresh demo_grants)\<rparr>"
  let ?r = "retire 5 ''h'' (new_refresh 0 (demo_hash Refresh demo_rnd) (gr_id demo_grant_row) ''https://mcp/mcp''
        ''devices:read devices:control'')"
  have inv: "oauth_inv ?db"
    using demo_grants_inv by (simp add: oauth_inv_def keys_ok_def demo_grants_eval refresh_of_def access_of_def)
  have join: "refresh_join demo_env (mint Refresh demo_rnd) ?db = Some (?r, demo_grant_row)"
    by (simp add: refresh_join_def demo_grants_eval demo_digest grant_exists_def)
  have old: "\<not> within_grace (secs 60) (rq_grace demo_request) ?r"
    by (simp add: within_grace_def demo_request_def secs_def)
  obtain out m' db' where tx: "rotate_tx demo_env (secs 60) demo_rnd2 demo_rnd2 (mint Refresh demo_rnd) demo_request () ?db
      = Inr ((out, m'), db')"
    using join old by (auto simp: rotate_tx_def demo_grant_row_def)
  have live: "gr_revoked_at demo_grant_row = None" "truthy (gr_dpop_jkt demo_grant_row) = None"
    by (simp_all add: demo_grant_row_def)
  show ?thesis
    using reuse_revokes_family [OF inv join _ live(1) _ _ tx] old live(2) tx by (auto simp: filter_empty_conv)
qed

text \<open>C7. An authorization code is redeemed at most once: after a redemption found it fresh, and whatever happens between
  (short of the same random code being minted again), redeeming it again finds it spent or finds nothing.\<close>

theorem code_single_use:
  assumes "hmac_injective (en_hmac env)" "consume_code env now (JStr c) db = (Some rec, db1)"
    and "\<not> cr_consumed rec" "\<not> cr_expired rec" "\<forall>x \<in> set xs. c \<notin> set (minted_code x)"
    and "\<forall>q \<in> set (t_codes db). \<forall>q' \<in> set (t_codes db). co_hash q \<in> set (digests env c) \<and> co_hash q' \<in> set (digests env c) \<longrightarrow> q = q'"
  shows "case fst (consume_code env later (JStr c) (run_store env xs db1)) of None \<Rightarrow> True | Some rec' \<Rightarrow> cr_consumed rec'"
proof -
  obtain r where r: "find (code_fresh env now c) (t_codes db) = Some r"
    "db1 = db\<lparr>t_codes := update_where (code_fresh env now c) (code_spend now) (t_codes db)\<rparr>"
  proof (cases "find (code_fresh env now c) (t_codes db)")
    case None
    with assms(2) obtain m where m: "find (\<lambda>r. co_hash r \<in> set (digests env c)) (t_codes db) = Some m"
      "rec = to_code_record m (co_consumed_at m \<noteq> None) (co_expires_at m \<le> now)"
      by (auto simp: consume_code_def split: bool.splits option.splits)
    with assms(3,4) find_SomeD [OF m(1)] have "m \<in> set (t_codes db)" "code_fresh env now c m"
      by (simp_all add: to_code_record_def code_fresh_def)
    with None show ?thesis by (auto simp: find_None_iff)
  next
    case (Some r)
    with assms(2) show ?thesis by (intro that [of r]) (auto simp: consume_code_def split: bool.splits)
  qed
  note fr = find_SomeD [OF r(1)]
  have "code_spent env c db1"
    unfolding code_spent_def
  proof (intro ballI impI)
    fix q
    assume q: "q \<in> set (t_codes db1)" "co_hash q \<in> set (digests env c)"
    then obtain p where p: "p \<in> set (t_codes db)" "q = (if code_fresh env now c p then code_spend now p else p)"
      unfolding r(2) by (auto simp: in_update_where simp del: split_paired_Ex)
    then have "co_hash p = co_hash q" by (simp add: code_spend_def)
    with assms(6) p(1) q(2) fr have "p = r" unfolding code_fresh_def by metis
    with p(2) fr show "co_consumed_at q \<noteq> None" by (simp add: code_spend_def)
  qed
  then have "code_spent env c (run_store env xs db1)" by (rule code_spent_run [OF _ assms(1,5)])
  then show ?thesis
    by (auto simp: consume_code_def code_spent_def to_code_record_def code_fresh_def
        split: bool.splits option.splits dest!: find_SomeD)
qed

definition demo_pending :: pending where
  "demo_pending = \<lparr>pe_id = new_id ''pa'' ''p'', pe_client = ''app'', pe_client_host = ''app.example'', pe_kind = Cimd,
     pe_trust = Verified, pe_digest = None, pe_redirect = ''https://app.example/cb'', pe_state = None,
     pe_challenge = ''x'', pe_resource = ''https://mcp/mcp'', pe_scopes = [''devices:read''], pe_offline = False,
     pe_binding = [], pe_jkt = None, pe_first_party = False\<rparr>"

definition demo_cx :: code_context where
  "demo_cx = \<lparr>cx_auth_time = 0, cx_consent = None\<rparr>"

definition demo_code_db :: database where
  "demo_code_db = snd (claim_and_issue_code demo_env 0 demo_rnd ''ann'' demo_pending demo_cx
     (snd (create_pending demo_env 0 ''p'' demo_pending (mint Binding demo_rnd) demo_account_db)))"

lemma demo_code_eval:
  "\<exists>r. t_codes demo_code_db = [r] \<and> co_hash r = demo_hash Code demo_rnd \<and> co_consumed_at r = None
     \<and> co_expires_at r = secs 60 \<and> co_grant r = None"
  by (simp add: demo_code_db_def claim_and_issue_code_def run_tx_def create_pending_def demo_digest demo_pending_def
      demo_account_db_def empty_db_def issue_code_def delete_pending_def account_exists_def delete_where_def Let_def)

theorem code_single_use_witness:
  "case fst (consume_code demo_env 9 (JStr (mint Code demo_rnd)) (snd (consume_code demo_env 5 (JStr (mint Code demo_rnd)) demo_code_db)))
   of None \<Rightarrow> True | Some rec \<Rightarrow> cr_consumed rec"
proof -
  obtain r where r: "t_codes demo_code_db = [r]" "co_hash r = demo_hash Code demo_rnd" "co_consumed_at r = None"
     "co_expires_at r = secs 60" using demo_code_eval by blast
  have f: "code_fresh demo_env 5 (mint Code demo_rnd) r"
    using r by (simp add: code_fresh_def demo_digest secs_def)
  then obtain db1 where c: "consume_code demo_env 5 (JStr (mint Code demo_rnd)) demo_code_db = (Some (to_code_record r False False), db1)"
    using r(1) by (simp add: consume_code_def mint_well_formed_str demo_rnd_length)
  show ?thesis
    using code_single_use [OF _ c, of "[]" 9] c r(1) toy_hmac_injective by (simp add: to_code_record_def run_store_def)
qed

text \<open>An authorization in flight belongs to the browser that started it: read back within its fifteen minutes it is
  what was stored, and it belongs to a presented cookie exactly when that is the binding value it was started with.
  Afterwards it is gone.\<close>

theorem pending_roundtrip:
  assumes "hmac_injective (en_hmac env)" "create_pending env now rnd p v db = (Inr i, db')" "length i \<le> 64"
    and "well_formed_str Binding v" "set (pe_scopes p) \<subseteq> set scopes_all" "now \<le> later"
  shows "if later < now + secs pending_ttl
     then \<exists>q. read_pending later (JStr i) db' = Some q
            \<and> q = p\<lparr>pe_id := i, pe_binding := pe_binding q\<rparr>
            \<and> (\<forall>w. pending_belongs_to env q w \<longleftrightarrow> w = JStr v)
     else read_pending later (JStr i) db' = None"
proof -
  obtain h where h: "digest env v = Inr h" "i = new_id ''pa'' rnd" "i \<notin> pa_id ` set (t_pending db)"
    using assms(2) by (auto simp: create_pending_def Let_def split: sum.splits if_splits)
  obtain r where r: "t_pending db' = t_pending db @ [r]" "pa_id r = i" "pa_expires_at r = now + secs pending_ttl"
    "pa_binding_hash r = h" and
    f: "\<lparr>pe_id = pa_id r, pe_client = pa_client r, pe_client_host = pa_client_host r, pe_kind = pa_client_kind r,
         pe_trust = pa_client_trust r, pe_digest = pa_document_digest r, pe_redirect = pa_redirect_uri r,
         pe_state = pa_state r, pe_challenge = pa_code_challenge r, pe_resource = pa_resource r,
         pe_scopes = scope_list (pa_scope r), pe_offline = pa_offline r, pe_binding = pa_binding_hash r,
         pe_jkt = pa_dpop_jkt r, pe_first_party = pa_first_party r\<rparr> = p\<lparr>pe_id := i, pe_binding := h\<rparr>"
    using assms(2) h scope_list_str [OF scopes_no_space [OF assms(5)]]
    by (auto simp: create_pending_def Let_def split: sum.splits if_splits)
  have none: "find (\<lambda>r. pa_id r = i \<and> later < pa_expires_at r) (t_pending db) = None"
    unfolding find_None_iff using h(3) by blast
  have i: "length i \<noteq> 0" using h(2) by (simp add: new_id_def)
  have "pending_belongs_to env (p\<lparr>pe_id := i, pe_binding := h\<rparr>) w \<longleftrightarrow> w = JStr v" for w
  proof (cases w)
    case (JStr s)
    have "h \<in> set (digests env s) \<longleftrightarrow> s = v"
      using digest_in_digests [OF h(1)] digests_eq [OF assms(1)] by metis
    with JStr assms(4) show ?thesis by (auto simp: pending_belongs_to_def split: bool.splits)
  qed (simp_all add: pending_belongs_to_def split: bool.splits)
  moreover have "read_pending later (JStr i) db' =
      (if later < now + secs pending_ttl then Some (p\<lparr>pe_id := i, pe_binding := h\<rparr>) else None)"
    using i assms(3) none f r(4) by (simp add: read_pending_def r(1-3) find_append)
  ultimately show ?thesis by simp
qed

theorem pending_roundtrip_witness:
  "\<exists>q. read_pending (secs 60) (JStr (new_id ''pa'' ''p''))
      (snd (create_pending demo_env 0 ''p'' demo_pending (mint Binding demo_rnd) demo_account_db)) = Some q
    \<and> pending_belongs_to demo_env q (JStr (mint Binding demo_rnd))"
proof -
  obtain db' where c: "create_pending demo_env 0 ''p'' demo_pending (mint Binding demo_rnd) demo_account_db = (Inr (new_id ''pa'' ''p''), db')"
    by (simp add: create_pending_def demo_digest demo_account_db_def empty_db_def Let_def)
  show ?thesis
    using pending_roundtrip [OF _ c, of "secs 60"] c toy_hmac_injective
    by (auto simp: new_id_def mint_well_formed_str demo_rnd_length demo_pending_def scopes_all_def secs_def)
qed

text \<open>A pushed request is single use and its client's own: the client that pushed it gets exactly the parameters
  back, once, within a minute; any other client gets nothing and leaves it in place.\<close>

theorem pushed_request_single_use:
  assumes "store_pushed now rnd client params db = (Inr i, db1)"
  shows "fst (take_pushed t i client db1) = (if t < now + secs par_ttl then Some params else None)
    \<and> (t < now + secs par_ttl \<longrightarrow> fst (take_pushed t' i client' (snd (take_pushed t i client db1))) = None)
    \<and> (client' \<noteq> client \<longrightarrow> take_pushed t i client' db1 = (None, db1))"
proof -
  let ?row = "\<lparr>pr_id = i, pr_client = client, pr_params = params, pr_expires_at = now + secs par_ttl\<rparr>"
  have db1: "t_par db1 = t_par db @ [?row]" and fresh: "i \<notin> pr_id ` set (t_par db)"
    using assms by (auto simp: store_pushed_def Let_def split: if_splits)
  have none: "find (\<lambda>r. pr_id r = i \<and> P r) (t_par db) = None" "delete_where (\<lambda>r. pr_id r = i \<and> P r) (t_par db) = t_par db" for P
    using fresh by (auto simp: find_None_iff image_iff intro!: delete_where_none)
  have split: "delete_where Q (xs @ [x]) = delete_where Q xs @ (if Q x then [] else [x])" for Q xs and x :: par_row
    by (simp add: delete_where_def)
  have keep: "db1\<lparr>t_par := t_par db @ [?row]\<rparr> = db1" using db1 by (metis database.surjective database.update_convs(7))
  have take: "take_pushed u i c db1 = (if c = client \<and> u < now + secs par_ttl then (Some params, db1\<lparr>t_par := t_par db\<rparr>) else (None, db1))" for u c
    by (auto simp: take_pushed_def db1 find_append none split keep)
  have "fst (take_pushed u i c (db1\<lparr>t_par := t_par db\<rparr>)) = None" for u c
    by (simp add: take_pushed_def none)
  then show ?thesis by (simp add: take)
qed

theorem pushed_request_single_use_witness:
  "fst (take_pushed 5 (new_id ''par'' ''r'') ''app'' (snd (store_pushed 0 ''r'' ''app'' [(''a'', ''b'')] empty_db))) = Some [(''a'', ''b'')]"
proof -
  obtain db1 where c: "store_pushed 0 ''r'' ''app'' [(''a'', ''b'')] empty_db = (Inr (new_id ''par'' ''r''), db1)"
    by (simp add: store_pushed_def empty_db_def Let_def)
  from pushed_request_single_use [OF this, of 5] c show ?thesis by (simp add: secs_def)
qed

end
