(* ===== verification/Urls.thy ===== *)
theory Urls
  imports Errors
begin

text \<open>
  The parts of a parsed URL the server looks at. The parser (\<open>new URL\<close> of the JavaScript engine) is a parameter of
  the functions that use it, \<^const>\<open>None\<close> where it throws. As the URL standard says, the protocol ends in a colon, the
  host carries a port only where it is not the default one, and search and hash are empty or start with their mark.
\<close>

record url =
  url_protocol :: string
  url_host :: string
  url_hostname :: string
  url_path :: string
  url_search :: string
  url_hash :: string
  url_username :: string
  url_password :: string

type_synonym url_parser = "string \<Rightarrow> url option"

abbreviation invalid_url :: error where "invalid_url \<equiv> OtherError ''Invalid URL''"

end
