(* ===== verification/Consents.thy ===== *)
theory Consents
  imports OAuth_Theorems Urls
begin

text \<open>
  \<open>server/src/oauth/consents.ts\<close>: what a person has approved, and when it may be reused.
\<close>

abbreviation unverified_days :: int where "unverified_days \<equiv> 30"
abbreviation verified_days :: int where "verified_days \<equiv> 365"

definition redirect_host :: "url_parser \<Rightarrow> string \<Rightarrow> error + string" where
  "redirect_host parse redirect =
     (case parse redirect of
        None \<Rightarrow> Inl invalid_url
      | Some u \<Rightarrow> Inr (if url_host u \<noteq> [] then url_host u else url_protocol u))"

definition rememberable :: "pending \<Rightarrow> bool" where
  "rememberable p \<longleftrightarrow> pe_kind p \<noteq> Dcr"

definition trust_days :: "pending \<Rightarrow> int" where
  "trust_days p = (if pe_trust p = Verified then verified_days else unverified_days)"

definition consent_key :: "consent_row \<Rightarrow> string \<times> string \<times> string" where
  "consent_key c = (cn_account c, cn_client c, cn_host c)"

definition find_remembered_consent ::
  "url_parser \<Rightarrow> int \<Rightarrow> string \<Rightarrow> pending \<Rightarrow> database \<Rightarrow> error + string option" where
  "find_remembered_consent parse now account p db =
     (if \<not> rememberable p then Inr None
      else (case redirect_host parse (pe_redirect p) of
        Inl e \<Rightarrow> Inl e
      | Inr host \<Rightarrow>
          (case find (\<lambda>c. consent_key c = (account, pe_client p, host)
                       \<and> now - secs (trust_days p * 86400) < cn_granted_at c) (t_consents db) of
             None \<Rightarrow> Inr None
           | Some c \<Rightarrow>
               if cn_digest c \<noteq> pe_digest p then Inr None
               else if list_all (\<lambda>s. s \<in> set (split_on is_space (cn_scopes c))) (pe_scopes p)
               then Inr (Some (cn_id c)) else Inr None)))"

text \<open>The union of what is approved now and what was under an unchanged document, sorted.\<close>

definition consent_union :: "pending \<Rightarrow> consent_row option \<Rightarrow> string list" where
  "consent_union p previous =
     sort (remdups (pe_scopes p @
       (case previous of
          Some c \<Rightarrow> if cn_digest c = pe_digest p then scope_list (cn_scopes c) else []
        | None \<Rightarrow> [])))"

definition record_consent ::
  "url_parser \<Rightarrow> int \<Rightarrow> string \<Rightarrow> string \<Rightarrow> pending \<Rightarrow> database \<Rightarrow> (error + string option) \<times> database" where
  "record_consent parse now rnd account p db =
     (if \<not> rememberable p then (Inr None, db)
      else (case redirect_host parse (pe_redirect p) of
        Inl e \<Rightarrow> (Inl e, db)
      | Inr host \<Rightarrow>
          (let key = (account, pe_client p, host);
               previous = find (\<lambda>c. consent_key c = key) (t_consents db);
               scopes = scope_str (consent_union p previous);
               new = new_id ''consent'' rnd
           in case previous of
                Some c \<Rightarrow>
                  (Inr (Some (cn_id c)),
                   db\<lparr>t_consents := update_where (\<lambda>c. consent_key c = key)
                        (\<lambda>c. c\<lparr>cn_scopes := scopes, cn_digest := pe_digest p, cn_granted_at := now\<rparr>) (t_consents db)\<rparr>)
              | None \<Rightarrow>
                  if new \<in> cn_id ` set (t_consents db) then (Inl (DbError unique_violation), db)
                  else if \<not> account_exists account db then (Inl (DbError foreign_key_violation), db)
                  else (Inr (Some new),
                        db\<lparr>t_consents := t_consents db @
                          [\<lparr>cn_id = new, cn_account = account, cn_client = pe_client p, cn_host = host,
                            cn_scopes = scopes, cn_digest = pe_digest p, cn_granted_at = now\<rparr>]\<rparr>))))"

section \<open>What they guarantee\<close>

definition consents_ok :: "database \<Rightarrow> bool" where
  "consents_ok db \<longleftrightarrow> distinct (map consent_key (t_consents db))"

lemma record_consent_cases:
  assumes "record_consent parse now rnd account p db = (Inr (Some i), db')"
  obtains host where "rememberable p" "redirect_host parse (pe_redirect p) = Inr host"
    "\<exists>c \<in> set (t_consents db'). cn_id c = i \<and> consent_key c = (account, pe_client p, host)
       \<and> cn_scopes c = scope_str (consent_union p (find (\<lambda>c. consent_key c = (account, pe_client p, host)) (t_consents db)))
       \<and> cn_digest c = pe_digest p \<and> cn_granted_at c = now"
    "\<And>k. k \<noteq> (account, pe_client p, host) \<Longrightarrow>
       filter (\<lambda>c. consent_key c = k) (t_consents db') = filter (\<lambda>c. consent_key c = k) (t_consents db)"
    "map consent_key (t_consents db') = map consent_key (t_consents db)
     \<or> map consent_key (t_consents db') = map consent_key (t_consents db) @ [(account, pe_client p, host)]
        \<and> (account, pe_client p, host) \<notin> set (map consent_key (t_consents db))"
proof -
  obtain host where h: "rememberable p" "redirect_host parse (pe_redirect p) = Inr host"
    using assms by (auto simp: record_consent_def split: if_splits sum.splits)
  let ?k = "(account, pe_client p, host)"
  let ?s = "scope_str (consent_union p (find (\<lambda>c. consent_key c = ?k) (t_consents db)))"
  show ?thesis
  proof (cases "find (\<lambda>c. consent_key c = ?k) (t_consents db)")
    case None
    then have no: "?k \<notin> consent_key ` set (t_consents db)" unfolding find_None_iff by (metis imageE)
    let ?new = "\<lparr>cn_id = new_id ''consent'' rnd, cn_account = account, cn_client = pe_client p, cn_host = host,
        cn_scopes = ?s, cn_digest = pe_digest p, cn_granted_at = now\<rparr>"
    have db': "t_consents db' = t_consents db @ [?new]" "i = new_id ''consent'' rnd"
      using assms h None by (auto simp: record_consent_def Let_def split: if_splits)
    show ?thesis
      using no by (intro that [OF h]) (auto simp: db' consent_key_def)
  next
    case (Some c)
    let ?f = "\<lambda>c. c\<lparr>cn_scopes := ?s, cn_digest := pe_digest p, cn_granted_at := now\<rparr>"
    have db': "t_consents db' = update_where (\<lambda>c. consent_key c = ?k) ?f (t_consents db)" "i = cn_id c"
      using assms h Some by (auto simp: record_consent_def Let_def split: if_splits)
    have kf: "consent_key (?f q) = consent_key q" for q by (simp add: consent_key_def)
    have "?f c \<in> set (t_consents db')"
      using find_SomeD [OF Some] unfolding db' in_update_where by (intro bexI [of _ c]) auto
    moreover have "filter (\<lambda>c. consent_key c = k) (t_consents db') = filter (\<lambda>c. consent_key c = k) (t_consents db)"
      if "k \<noteq> ?k" for k
      unfolding db' using that kf by (simp add: filter_update_where) (rule update_where_none, auto)
    moreover have "map consent_key (t_consents db') = map consent_key (t_consents db)"
      unfolding db' using kf by (simp add: map_update_where)
    ultimately show ?thesis
      using find_SomeD [OF Some] db'(2) kf by (intro that [OF h]) (auto intro!: bexI [of _ "?f c"])
  qed
qed

lemma find_filter: "find (\<lambda>x. P x \<and> Q x) xs = find Q (filter P xs)"
  by (induction xs) auto

definition clean_scopes :: "string list \<Rightarrow> bool" where
  "clean_scopes ss \<longleftrightarrow> (\<forall>w \<in> set ss. w \<noteq> [] \<and> (\<forall>c \<in> set w. \<not> is_space c))"

lemma split_scope_str:
  "clean_scopes ss \<Longrightarrow> s \<noteq> [] \<Longrightarrow> s \<in> set (split_on is_space (scope_str ss)) \<longleftrightarrow> s \<in> set ss"
proof -
  assume c: "clean_scopes ss" and s: "s \<noteq> []"
  have "s \<in> set (split_on is_space (scope_str ss)) \<longleftrightarrow> s \<in> set (scope_list (scope_str ss))"
    using s by (simp add: scope_list_def words_on_def)
  also have "\<dots> \<longleftrightarrow> s \<in> set ss" using scope_list_str [of ss] c by (simp add: clean_scopes_def)
  finally show ?thesis .
qed

lemma consent_union_clean:
  "clean_scopes (pe_scopes p) \<Longrightarrow> clean_scopes (consent_union p previous)"
  using words_on_chars unfolding clean_scopes_def consent_union_def scope_list_def
  by (fastforce split: option.splits if_splits)

text \<open>Consent is reused narrowly. After an approval is recorded, another authorization of the same person, client and
  redirect host skips the consent page exactly when the client is not dynamically registered, its document is the one
  approved, every scope it asks for was approved then or before under the same document, and the approval is younger than
  30 days (a year for a verified client). Approvals for any other person, client or host are as before.\<close>

theorem consent_reuse:
  assumes "consents_ok db" "record_consent parse now rnd account p db = (Inr (Some i), db')"
    and "clean_scopes (pe_scopes p)" "clean_scopes (pe_scopes q)" "redirect_host parse (pe_redirect p) = Inr host"
    and "redirect_host parse (pe_redirect q) = Inr host'"
  shows "find_remembered_consent parse later account' q db' =
    (if (account', pe_client q, host') = (account, pe_client p, host) then
       Inr (if pe_kind q \<noteq> Dcr \<and> pe_digest q = pe_digest p
              \<and> set (pe_scopes q) \<subseteq> set (consent_union p (find (\<lambda>c. consent_key c = (account, pe_client p, host)) (t_consents db)))
              \<and> later < now + secs (trust_days q * 86400)
            then Some i else None)
     else find_remembered_consent parse later account' q db)"
  using assms(2)
proof (cases rule: record_consent_cases)
  case (1 h)
  let ?k = "(account, pe_client p, host)"
  let ?u = "consent_union p (find (\<lambda>c. consent_key c = ?k) (t_consents db))"
  have h: "h = host" using 1(2) assms(5) by simp
  obtain c where c: "c \<in> set (t_consents db')" "cn_id c = i" "consent_key c = ?k" "cn_scopes c = scope_str ?u"
    "cn_digest c = pe_digest p" "cn_granted_at c = now" using 1(3) h by blast
  have d: "distinct (map consent_key (t_consents db'))"
    using 1(5) h assms(1) by (auto simp: consents_ok_def)
  show ?thesis
  proof (cases "(account', pe_client q, host') = ?k")
    case True
    have f: "find (\<lambda>x. consent_key x = ?k \<and> later - secs (trust_days q * 86400) < cn_granted_at x) (t_consents db')
      = (if later < now + secs (trust_days q * 86400) then Some c else None)"
    proof (cases "later < now + secs (trust_days q * 86400)")
      case True
      with c show ?thesis by (simp, intro find_key_guard [OF d c(1)]) auto
    next
      case False
      have "x = c" if "x \<in> set (t_consents db')" "consent_key x = ?k" for x
        using that c distinct_key_eq [OF d] by metis
      with False c(6) show ?thesis by (auto simp: find_None_iff)
    qed
    have s: "list_all (\<lambda>s. s \<in> set (split_on is_space (cn_scopes c))) (pe_scopes q) \<longleftrightarrow> set (pe_scopes q) \<subseteq> set ?u"
      using split_scope_str [OF consent_union_clean [OF assms(3)]] assms(4) c(4)
      by (auto simp: list_all_iff clean_scopes_def)
    show ?thesis
      using True f s c(2,5) assms(6) by (auto simp: find_remembered_consent_def rememberable_def)
  next
    case False
    have "find (\<lambda>x. consent_key x = (account', pe_client q, host') \<and> Q x) (t_consents db')
        = find (\<lambda>x. consent_key x = (account', pe_client q, host') \<and> Q x) (t_consents db)" for Q
      unfolding find_filter using 1(4) [of "(account', pe_client q, host')"] False h by simp
    with False assms(6) show ?thesis by (auto simp: find_remembered_consent_def)
  qed
qed

definition demo_url :: url_parser where
  "demo_url s = (if s = ''https://app.example/cb'' then Some \<lparr>url_protocol = ''https:'', url_host = ''app.example'',
     url_hostname = ''app.example'', url_path = ''/cb'', url_search = [], url_hash = [], url_username = [], url_password = []\<rparr>
   else None)"

lemma demo_host: "redirect_host demo_url (pe_redirect demo_pending) = Inr ''app.example''"
  by (simp add: redirect_host_def demo_url_def demo_pending_def)

theorem consent_reuse_witness:
  "find_remembered_consent demo_url (secs 100) ''ann'' demo_pending
     (snd (record_consent demo_url 0 ''r'' ''ann'' demo_pending demo_account_db)) = Inr (Some (new_id ''consent'' ''r''))"
proof -
  obtain db' where r: "record_consent demo_url 0 ''r'' ''ann'' demo_pending demo_account_db = (Inr (Some (new_id ''consent'' ''r'')), db')"
    using demo_host
    by (simp add: record_consent_def rememberable_def demo_pending_def demo_account_db_def empty_db_def account_exists_def Let_def)
  have cl: "clean_scopes (pe_scopes demo_pending)" by (simp add: clean_scopes_def demo_pending_def is_space_def)
  have ok: "consents_ok demo_account_db" by (simp add: consents_ok_def demo_account_db_def empty_db_def)
  have "set (consent_union demo_pending None) = {''devices:read''}" by (simp add: consent_union_def demo_pending_def)
  then show ?thesis
    using consent_reuse [OF ok r cl cl demo_host demo_host, of "secs 100" "''ann''"] r
    by (simp add: demo_account_db_def empty_db_def secs_def trust_days_def demo_pending_def)
qed

end
