(* ===== verification/Dpop.thy ===== *)
theory Dpop
  imports OAuth_Config Urls Stores Accounts
begin

text \<open>
  \<open>server/src/oauth/dpop.ts\<close>: DPoP nonces and the verification of a proof. The JOSE library is a record of
  parameters: \<open>jo_header\<close> decodes the protected header of a compact JWT, \<open>jo_verify\<close> verifies the JWT against the key
  embedded in its header (type \<open>dpop+jwt\<close>, the accepted algorithms, sixty seconds of age and five of tolerance, at the
  given time) and gives its claims or a message, \<open>jo_thumbprint\<close> is the JWK thumbprint. The replay store is that of
  \<open>security/replay.ts\<close>.
\<close>

record jose =
  jo_header :: "string \<Rightarrow> jsval option"
  jo_verify :: "int \<Rightarrow> string \<Rightarrow> string + jsval"
  jo_thumbprint :: "jsval \<Rightarrow> string"

abbreviation nonce_window_ms :: int where "nonce_window_ms \<equiv> 300000"
abbreviation jti_ttl :: int where "jti_ttl \<equiv> 120"

section \<open>Nonces\<close>

definition nonce_for :: "env \<Rightarrow> int \<Rightarrow> string" where
  "nonce_for env w = base64url (en_hmac env (internal_mac_key (en_keys env)) (''dpop-nonce:'' @ int_str w))"

definition current_dpop_nonce :: "env \<Rightarrow> int \<Rightarrow> string" where
  "current_dpop_nonce env now_ms = nonce_for env (now_ms div nonce_window_ms)"

definition nonce_valid :: "env \<Rightarrow> int \<Rightarrow> jsval \<Rightarrow> bool" where
  "nonce_valid env now_ms nonce =
     (case as_str nonce of
        None \<Rightarrow> False
      | Some n \<Rightarrow> (let w = now_ms div nonce_window_ms in n = nonce_for env w \<or> n = nonce_for env (w - 1)))"

lemma fst_eq_iff: "fst x = a \<longleftrightarrow> (\<exists>b. x = (a, b))"
  by (cases x) auto

lemma fst_true_iff: "fst x \<longleftrightarrow> (\<exists>b. x = (True, b))"
  by (cases x) auto

section \<open>Proofs\<close>

definition normalize_htu :: "url_parser \<Rightarrow> string \<Rightarrow> string option" where
  "normalize_htu parse v = map_option (\<lambda>u. url_protocol u @ ''//'' @ url_host u @ url_path u) (parse v)"

record proof_check =
  ck_htm :: string
  ck_htu :: string
  ck_token :: "string option"
  ck_expected :: "string option"

abbreviation bad_proof :: "string \<Rightarrow> dpop_reason \<Rightarrow> error" where
  "bad_proof m r \<equiv> DpopError Invalid_dpop_proof m r"

text \<open>\<open>'d' in jwk\<close>, for a value that is an object; a primitive throws.\<close>

fun has_d :: "jsval \<Rightarrow> bool option" where
  "has_d (JObj fs) = Some (''d'' \<in> fst ` set fs)"
| "has_d (JArr vs) = Some False"
| "has_d _ = None"

definition is_truthy :: "string option \<Rightarrow> bool" where
  "is_truthy s \<longleftrightarrow> truthy s \<noteq> None"

text \<open>The checks after the signature, up to the nonce: the claims of the proof against the request.\<close>

definition check_claims :: "env \<Rightarrow> url_parser \<Rightarrow> proof_check \<Rightarrow> jsval \<Rightarrow> string \<Rightarrow> error + string" where
  "check_claims env parse ck payload jkt =
     (case as_str (jfield payload ''jti'') of
        None \<Rightarrow> Inl (bad_proof ''The proof needs a unique jti.'' R_jti)
      | Some jti \<Rightarrow>
          if length jti < 8 \<or> 256 < length jti then Inl (bad_proof ''The proof needs a unique jti.'' R_jti)
          else if jfield payload ''htm'' \<noteq> JStr (to_upper (ck_htm ck))
          then Inl (bad_proof ''htm does not match this request.'' R_htm)
          else
            (let presented = (case as_str (jfield payload ''htu'') of None \<Rightarrow> None | Some h \<Rightarrow> normalize_htu parse h) in
             if \<not> is_truthy presented \<or> presented \<noteq> normalize_htu parse (ck_htu ck)
             then Inl (bad_proof ''htu does not match this request.'' R_htu)
             else if (case ck_token ck of
                        None \<Rightarrow> False
                      | Some t \<Rightarrow> jfield payload ''ath'' \<noteq> JStr (base64url (en_sha256 env t)))
             then Inl (bad_proof ''ath does not match the access token.'' R_ath)
             else if is_truthy (ck_expected ck) \<and> Some jkt \<noteq> ck_expected ck
             then Inl (bad_proof ''The proof was not signed by the key this token is bound to.'' R_key_mismatch)
             else Inr jti))"

definition jti_key :: "string \<Rightarrow> string \<Rightarrow> string" where
  "jti_key jkt jti = ''dpop-jti:'' @ jkt @ '':'' @ jti"

definition verify_proof ::
  "env \<Rightarrow> jose \<Rightarrow> url_parser \<Rightarrow> (int \<Rightarrow> string \<Rightarrow> int \<Rightarrow> 's \<Rightarrow> bool \<times> 's) \<Rightarrow> int \<Rightarrow> jsval \<Rightarrow> proof_check \<Rightarrow> 's
   \<Rightarrow> (error + string) \<times> 's" where
  "verify_proof env jose parse claim now_ms proof_v ck s =
     (case as_str proof_v of
        None \<Rightarrow> (Inl (bad_proof ''A DPoP proof is required.'' R_missing), s)
      | Some pf \<Rightarrow>
          if length pf = 0 \<or> 4096 < length pf then (Inl (bad_proof ''A DPoP proof is required.'' R_missing), s)
          else (case jo_header jose pf of
            None \<Rightarrow> (Inl (bad_proof ''The DPoP proof is malformed.'' R_malformed), s)
          | Some header \<Rightarrow>
              (let jwk = jfield header ''jwk'' in
               if \<not> js_truthy jwk then (Inl (bad_proof ''The proof must carry a public key.'' R_private_key), s)
               else (case has_d jwk of
                 None \<Rightarrow> (Inl (OtherError ''TypeError''), s)
               | Some d \<Rightarrow>
                   if d then (Inl (bad_proof ''The proof must carry a public key.'' R_private_key), s)
                   else (case jo_verify jose now_ms pf of
                     Inl m \<Rightarrow> (Inl (bad_proof (''The DPoP proof did not verify: '' @ m) R_signature), s)
                   | Inr payload \<Rightarrow>
                       (let jkt = jo_thumbprint jose jwk in
                        case check_claims env parse ck payload jkt of
                          Inl e \<Rightarrow> (Inl e, s)
                        | Inr jti \<Rightarrow>
                            if \<not> nonce_valid env now_ms (jfield payload ''nonce'')
                            then (Inl (DpopError Use_dpop_nonce ''Use the nonce in the DPoP-Nonce header.'' R_nonce), s)
                            else (case claim now_ms (jti_key jkt jti) jti_ttl s of
                              (False, s') \<Rightarrow> (Inl (bad_proof ''This proof was already used.'' R_replay), s')
                            | (True, s') \<Rightarrow> (Inr jkt, s'))))))))"

text \<open>\<open>verifyDpopProof\<close> counts a refusal by its reason and rethrows.\<close>

definition verify_dpop_proof ::
  "env \<Rightarrow> jose \<Rightarrow> url_parser \<Rightarrow> (int \<Rightarrow> string \<Rightarrow> int \<Rightarrow> 's \<Rightarrow> bool \<times> 's) \<Rightarrow> int \<Rightarrow> jsval \<Rightarrow> proof_check \<Rightarrow> 's
   \<Rightarrow> (error + string) \<times> dpop_reason list \<times> 's" where
  "verify_dpop_proof env jose parse claim now_ms proof_v ck s =
     (case verify_proof env jose parse claim now_ms proof_v ck s of
        (Inl (DpopError c m r), s') \<Rightarrow> (Inl (DpopError c m r), [r], s')
      | (res, s') \<Rightarrow> (res, [], s'))"

section \<open>What an accepted proof says\<close>

text \<open>Everything a proof is checked for, at the time \<open>now_ms\<close>.\<close>

definition proof_of ::
  "env \<Rightarrow> jose \<Rightarrow> url_parser \<Rightarrow> int \<Rightarrow> string \<Rightarrow> proof_check \<Rightarrow> string \<Rightarrow> string \<Rightarrow> bool" where
  "proof_of env jose parse now_ms pf ck jkt jti \<longleftrightarrow>
     (\<exists>header payload.
        0 < length pf \<and> length pf \<le> 4096 \<and> jo_header jose pf = Some header
        \<and> js_truthy (jfield header ''jwk'') \<and> has_d (jfield header ''jwk'') = Some False
        \<and> jo_verify jose now_ms pf = Inr payload \<and> jkt = jo_thumbprint jose (jfield header ''jwk'')
        \<and> jfield payload ''jti'' = JStr jti \<and> 8 \<le> length jti \<and> length jti \<le> 256
        \<and> jfield payload ''htm'' = JStr (to_upper (ck_htm ck))
        \<and> (\<exists>h u. jfield payload ''htu'' = JStr h \<and> normalize_htu parse h = Some u \<and> u \<noteq> [] \<and> normalize_htu parse (ck_htu ck) = Some u)
        \<and> (\<forall>t. ck_token ck = Some t \<longrightarrow> jfield payload ''ath'' = JStr (base64url (en_sha256 env t)))
        \<and> (truthy (ck_expected ck) = None \<or> ck_expected ck = Some jkt)
        \<and> nonce_valid env now_ms (jfield payload ''nonce''))"

lemma is_truthy_simps [simp]: "is_truthy (Some s) \<longleftrightarrow> s \<noteq> []" "\<not> is_truthy None"
  by (simp_all add: is_truthy_def)

lemma check_claims_Inr:
  "check_claims env parse ck payload jkt = Inr jti \<longleftrightarrow>
     jfield payload ''jti'' = JStr jti \<and> 8 \<le> length jti \<and> length jti \<le> 256
     \<and> jfield payload ''htm'' = JStr (to_upper (ck_htm ck))
     \<and> (\<exists>h u. jfield payload ''htu'' = JStr h \<and> normalize_htu parse h = Some u \<and> u \<noteq> [] \<and> normalize_htu parse (ck_htu ck) = Some u)
     \<and> (\<forall>t. ck_token ck = Some t \<longrightarrow> jfield payload ''ath'' = JStr (base64url (en_sha256 env t)))
     \<and> (truthy (ck_expected ck) = None \<or> ck_expected ck = Some jkt)"
proof (cases "as_str (jfield payload ''jti'')")
  case None
  then show ?thesis by (auto simp: check_claims_def)
next
  case (Some j)
  show ?thesis
  proof (cases "as_str (jfield payload ''htu'')")
    case None
    with Some show ?thesis by (auto simp: check_claims_def Let_def)
  next
    case htu: (Some h)
    show ?thesis
      using Some htu
      by (cases "ck_token ck"; cases "normalize_htu parse h") (auto simp: check_claims_def Let_def is_truthy_def not_less)
  qed
qed

lemma check_claims_error: "check_claims env parse ck payload jkt = Inl e \<Longrightarrow> \<exists>m r. e = bad_proof m r"
  by (auto simp: check_claims_def Let_def split: option.splits if_splits)

lemma proof_of_unique:
  "proof_of env jose parse now pf ck jkt jti \<Longrightarrow> proof_of env jose parse now pf ck jkt' jti' \<Longrightarrow> jkt' = jkt \<and> jti' = jti"
  by (auto simp: proof_of_def)

text \<open>A proof is accepted exactly when it is one and its identifier can be claimed.\<close>

lemma verify_proof_iff:
  "verify_proof env jose parse claim now (JStr pf) ck s = (Inr jkt, s') \<longleftrightarrow>
     (\<exists>jti. proof_of env jose parse now pf ck jkt jti \<and> claim now (jti_key jkt jti) jti_ttl s = (True, s'))"
proof (cases "jo_header jose pf")
  case None
  then show ?thesis by (auto simp: verify_proof_def proof_of_def)
next
  case h: (Some header)
  show ?thesis
  proof (cases "has_d (jfield header ''jwk'') = Some False \<and> js_truthy (jfield header ''jwk'')")
    case False
    with h show ?thesis
      by (cases "has_d (jfield header ''jwk'')") (auto simp: verify_proof_def proof_of_def Let_def)
  next
    case d: True
    show ?thesis
    proof (cases "jo_verify jose now pf")
      case (Inl m)
      with h d show ?thesis by (auto simp: verify_proof_def proof_of_def Let_def)
    next
      case p: (Inr payload)
      let ?jkt = "jo_thumbprint jose (jfield header ''jwk'')"
      have pf: "proof_of env jose parse now pf ck jkt jti \<longleftrightarrow>
          0 < length pf \<and> length pf \<le> 4096 \<and> jkt = ?jkt \<and> check_claims env parse ck payload ?jkt = Inr jti
          \<and> nonce_valid env now (jfield payload ''nonce'')" for jti
        using h d p by (auto simp: proof_of_def check_claims_Inr)
      show ?thesis
        unfolding pf using h d p
        by (cases "check_claims env parse ck payload ?jkt")
          (auto simp: verify_proof_def Let_def split: prod.splits bool.splits)
    qed
  qed
qed

lemma verify_proof_state:
  "snd (verify_proof env jose parse claim now p ck s) = s
   \<or> (\<exists>k. snd (verify_proof env jose parse claim now p ck s) = snd (claim now k jti_ttl s)
        \<and> fst (verify_proof env jose parse claim now p ck s) \<noteq> Inl (DpopError Use_dpop_nonce m R_nonce))"
  by (auto simp: verify_proof_def Let_def split: option.splits sum.splits prod.splits bool.splits if_splits)
    (metis snd_conv)+

lemma verify_proof_nonce:
  assumes "fst (verify_proof env jose parse claim now (JStr pf) ck s) = Inl (DpopError Use_dpop_nonce m r)"
  shows "snd (verify_proof env jose parse claim now (JStr pf) ck s) = s"
proof (cases "jo_header jose pf")
  case None
  then show ?thesis by (simp add: verify_proof_def)
next
  case h: (Some header)
  show ?thesis
  proof (cases "has_d (jfield header ''jwk'') = Some False \<and> js_truthy (jfield header ''jwk'')")
    case False
    with h show ?thesis by (cases "has_d (jfield header ''jwk'')") (auto simp: verify_proof_def Let_def)
  next
    case d: True
    show ?thesis
    proof (cases "jo_verify jose now pf")
      case (Inl m)
      with h d show ?thesis by (simp add: verify_proof_def Let_def)
    next
      case p: (Inr payload)
      let ?c = "check_claims env parse ck payload (jo_thumbprint jose (jfield header ''jwk''))"
      show ?thesis
      proof (cases ?c)
        case (Inl e)
        with h d p show ?thesis by (simp add: verify_proof_def Let_def)
      next
        case (Inr jti)
        with assms h d p show ?thesis
          by (cases "nonce_valid env now (jfield payload ''nonce'')")
            (auto simp: verify_proof_def Let_def split: prod.splits bool.splits if_splits)
      qed
    qed
  qed
qed

text \<open>A series of verifications over one replay store, each with its time, proof and request.\<close>

fun verify_series ::
  "env \<Rightarrow> jose \<Rightarrow> url_parser \<Rightarrow> (int \<Rightarrow> string \<Rightarrow> int \<Rightarrow> 's \<Rightarrow> bool \<times> 's) \<Rightarrow> (int \<times> jsval \<times> proof_check) list \<Rightarrow> 's \<Rightarrow> 's" where
  "verify_series env jose parse claim [] s = s"
| "verify_series env jose parse claim ((now, p, ck) # xs) s =
     verify_series env jose parse claim xs (snd (verify_proof env jose parse claim now p ck s))"

context replay_store begin

lemma verify_proof_seen_ok: "seen_ok s \<Longrightarrow> seen_ok (snd (verify_proof env jose parse claim now p ck s))"
  using verify_proof_state [of env jose parse claim now p ck s] claim_ok by metis

lemma verify_proof_held:
  "seen_ok s \<Longrightarrow> now \<le> t \<Longrightarrow> held s k t \<Longrightarrow> held (snd (verify_proof env jose parse claim now p ck s)) k t"
  using verify_proof_state [of env jose parse claim now p ck s] claim_keeps by metis

lemma verify_series_held:
  "seen_ok s \<Longrightarrow> held s k t \<Longrightarrow> \<forall>(now, _) \<in> set xs. now \<le> t \<Longrightarrow>
   held (verify_series env jose parse claim xs s) k t \<and> seen_ok (verify_series env jose parse claim xs s)"
proof (induction xs arbitrary: s)
  case (Cons x xs)
  obtain now p ck where x: "x = (now, p, ck)" by (cases x)
  with Cons.prems show ?case
    using Cons.IH [of "snd (verify_proof env jose parse claim now p ck s)"] verify_proof_held verify_proof_seen_ok
    by auto
qed simp

lemma proof_once:
  assumes "seen_ok s" "verify_proof env jose parse claim t (JStr pf) ck s = (Inr jkt, s1)"
    "proof_of env jose parse t pf ck jkt jti" "\<forall>(now, _) \<in> set xs. now \<le> t'" "t' < t + jti_ttl * 1000"
    "proof_of env jose parse t' pf' ck' jkt jti"
  shows "fst (verify_proof env jose parse claim t' (JStr pf') ck' (verify_series env jose parse claim xs s1)) \<noteq> Inr jkt'"
proof
  assume again: "fst (verify_proof env jose parse claim t' (JStr pf') ck' (verify_series env jose parse claim xs s1)) = Inr jkt'"
  have c: "claim t (jti_key jkt jti) jti_ttl s = (True, s1)"
    using assms(2,3) proof_of_unique unfolding verify_proof_iff by metis
  then have "held s1 (jti_key jkt jti) t'" "seen_ok s1"
    using claim_holds [OF assms(1), of t "jti_key jkt jti" jti_ttl t'] assms(5) claim_ok [OF assms(1), of t "jti_key jkt jti" jti_ttl]
    by simp_all
  then have h: "held (verify_series env jose parse claim xs s1) (jti_key jkt jti) t'" "seen_ok (verify_series env jose parse claim xs s1)"
    using verify_series_held assms(4) by blast+
  obtain s2 where "verify_proof env jose parse claim t' (JStr pf') ck' (verify_series env jose parse claim xs s1) = (Inr jkt', s2)"
    using again by (metis prod.collapse)
  then obtain jti' where "proof_of env jose parse t' pf' ck' jkt' jti'"
    "claim t' (jti_key jkt' jti') jti_ttl (verify_series env jose parse claim xs s1) = (True, s2)"
    unfolding verify_proof_iff by blast
  with proof_of_unique [OF assms(6)] have "fst (claim t' (jti_key jkt jti) jti_ttl (verify_series env jose parse claim xs s1))"
    by (metis fst_conv)
  with h claim_result [OF h(2)] show False by blast
qed

end

section \<open>Properties\<close>

lemma nonce_for_inj: "hmac_injective (en_hmac env) \<Longrightarrow> nonce_for env v = nonce_for env w \<Longrightarrow> v = w"
  using int_str_inj by (auto simp: nonce_for_def dest!: base64url_inj hmac_injectiveD)


definition demo_jwk :: jsval where
  "demo_jwk = JObj [(''kty'', JStr ''EC'')]"

definition demo_env0 :: env where
  "demo_env0 = \<lparr>en_hmac = (\<lambda>k m. k @ m), en_sha256 = (\<lambda>s. s),
     en_keys = \<lparr>token_peppers = [], password_pepper = (1, []), internal_mac_key = ''mac''\<rparr>, en_auth_base = ''https://auth'',
     en_mcp_base = ''https://mcp'', en_api_base = ''https://api'', en_native_ttl = 600, en_grace = 30,
     en_require_offline = False, en_first_party_uris = None\<rparr>"

definition demo_jose :: jose where
  "demo_jose = \<lparr>jo_header = (\<lambda>s. Some (JObj [(''jwk'', demo_jwk)])),
     jo_verify = (\<lambda>now s. Inr (JObj [(''jti'', JStr ''12345678''), (''htm'', JStr ''POST''), (''htu'', JStr ''u''),
        (''nonce'', JStr (nonce_for demo_env0 0))])),
     jo_thumbprint = (\<lambda>j. ''jkt'')\<rparr>"

definition demo_parser :: url_parser where
  "demo_parser s = Some \<lparr>url_protocol = ''https:'', url_host = ''auth'', url_hostname = ''auth'', url_path = ''/token'',
     url_search = [], url_hash = [], url_username = [], url_password = []\<rparr>"

definition demo_check :: proof_check where
  "demo_check = \<lparr>ck_htm = ''post'', ck_htu = ''u'', ck_token = None, ck_expected = None\<rparr>"

lemma demo_upper: "to_upper ''post'' = ''POST''"
  by code_simp

lemma demo_proof: "0 \<le> now \<Longrightarrow> now < 300000 \<Longrightarrow> proof_of demo_env0 demo_jose demo_parser now ''pf'' demo_check ''jkt'' ''12345678''"
  by (simp add: proof_of_def demo_jose_def demo_jwk_def demo_check_def demo_upper normalize_htu_def demo_parser_def
      nonce_valid_def Let_def)

text \<open>A DPoP proof works once. After a proof was accepted, no proof of the same key with the same identifier is
  accepted for two minutes, for any request, whatever other proofs are verified in between: a captured proof cannot be
  replayed while its claims are still fresh.\<close>

theorem dpop_proof_single_use:
  assumes "distinct_keys s" "verify_proof env jose parse memory_claim t (JStr pf) ck s = (Inr jkt, s1)"
    and "proof_of env jose parse t pf ck jkt jti" "\<forall>(now, _) \<in> set xs. now \<le> t'" "t' < t + jti_ttl * 1000"
    and "proof_of env jose parse t' pf' ck' jkt jti"
  shows "fst (verify_proof env jose parse memory_claim t' (JStr pf') ck' (verify_series env jose parse memory_claim xs s1)) \<noteq> Inr jkt'"
  using assms by (rule memory_replays.proof_once)

lemma demo_verify:
  "verify_proof demo_env0 demo_jose demo_parser memory_claim 5 (JStr ''pf'') demo_check []
   = (Inr ''jkt'', [(jti_key ''jkt'' ''12345678'', 120005)])"
  unfolding verify_proof_iff
  by (intro exI [of _ "''12345678''"] conjI demo_proof) (simp_all add: memory_claim_def)

theorem dpop_proof_single_use_witness:
  "fst (verify_proof demo_env0 demo_jose demo_parser memory_claim 9 (JStr ''pf'') demo_check [(jti_key ''jkt'' ''12345678'', 120005)])
   \<noteq> Inr ''jkt''"
  using dpop_proof_single_use [OF _ demo_verify demo_proof, of "[]" 9 "''pf''" demo_check] demo_proof
  by (simp add: distinct_keys_def)

text \<open>C18. An accepted proof says all it must: it is signed by the key embedded in its header, whose thumbprint is what
  the caller learns, names this method and URL, hashes the access token presented, is by the bound key where the token is
  bound, and echoes a nonce of the current or the previous window; and every proof that says so is accepted unless its
  identifier was seen. Being refused for the nonce alone leaves the identifier unclaimed.\<close>

theorem dpop_proof_accepted_iff:
  "(fst (verify_proof env jose parse memory_claim now (JStr pf) ck s) = Inr jkt \<longleftrightarrow>
      (\<exists>jti. proof_of env jose parse now pf ck jkt jti \<and> fst (memory_claim now (jti_key jkt jti) jti_ttl s)))
   \<and> (\<forall>m r. fst (verify_proof env jose parse memory_claim now (JStr pf) ck s) = Inl (DpopError Use_dpop_nonce m r)
       \<longrightarrow> snd (verify_proof env jose parse memory_claim now (JStr pf) ck s) = s)"
proof -
  have "fst (verify_proof env jose parse memory_claim now (JStr pf) ck s) = Inr jkt \<longleftrightarrow>
      (\<exists>jti. proof_of env jose parse now pf ck jkt jti \<and> fst (memory_claim now (jti_key jkt jti) jti_ttl s))"
    unfolding fst_eq_iff [where a = "Inr jkt"] fst_true_iff verify_proof_iff by blast
  moreover have "\<forall>m r. fst (verify_proof env jose parse memory_claim now (JStr pf) ck s) = Inl (DpopError Use_dpop_nonce m r)
       \<longrightarrow> snd (verify_proof env jose parse memory_claim now (JStr pf) ck s) = s"
    by (intro allI impI) (rule verify_proof_nonce)
  ultimately show ?thesis by blast
qed

theorem dpop_proof_accepted_iff_witness:
  "fst (verify_proof demo_env0 demo_jose demo_parser memory_claim 5 (JStr ''pf'') demo_check []) = Inr ''jkt''"
  using dpop_proof_accepted_iff [of demo_env0 demo_jose demo_parser 5 "''pf''" demo_check "[]" "''jkt''"] demo_proof [of 5]
  by (auto simp: memory_claim_def)

text \<open>A nonce lasts: the one a response carries is accepted for at least the next five minutes and never ten minutes
  later.\<close>

theorem nonce_lifetime:
  assumes "hmac_injective (en_hmac env)"
  shows "(t \<le> t' \<and> t' \<le> t + nonce_window_ms \<longrightarrow> nonce_valid env t' (JStr (current_dpop_nonce env t)))
    \<and> (t + 2 * nonce_window_ms \<le> t' \<longrightarrow> \<not> nonce_valid env t' (JStr (current_dpop_nonce env t)))"
proof -
  have v: "nonce_valid env t' (JStr (current_dpop_nonce env t)) \<longleftrightarrow>
      t' div nonce_window_ms = t div nonce_window_ms \<or> t' div nonce_window_ms = t div nonce_window_ms + 1"
  proof -
    have "nonce_for env v = nonce_for env w \<longleftrightarrow> v = w" for v w using nonce_for_inj [OF assms] by blast
    then show ?thesis by (auto simp: nonce_valid_def current_dpop_nonce_def Let_def)
  qed
  show ?thesis unfolding v by linarith
qed

theorem nonce_lifetime_witness:
  "nonce_valid (demo_env0\<lparr>en_hmac := toy_hmac\<rparr>) 200000 (JStr (current_dpop_nonce (demo_env0\<lparr>en_hmac := toy_hmac\<rparr>) 5))"
  using nonce_lifetime [of "demo_env0\<lparr>en_hmac := toy_hmac\<rparr>" 5 200000] toy_hmac_injective by simp

text \<open>A proof whose header carries a key that is not an object (a string, say) is not refused as a bad proof: looking
  for its private part throws a TypeError, which reaches the client as an internal error.\<close>

theorem primitive_jwk_throws:
  assumes "0 < length pf" "length pf \<le> 4096" "jo_header jose pf = Some header" "jfield header ''jwk'' = JStr v" "v \<noteq> []"
  shows "verify_proof env jose parse claim now (JStr pf) ck s = (Inl (OtherError ''TypeError''), s)"
  using assms by (simp add: verify_proof_def Let_def)

theorem primitive_jwk_throws_witness:
  "verify_proof demo_env0 (demo_jose\<lparr>jo_header := (\<lambda>s. Some (JObj [(''jwk'', JStr ''x'')]))\<rparr>) demo_parser memory_claim 5
     (JStr ''pf'') demo_check [] = (Inl (OtherError ''TypeError''), [])"
  by (rule primitive_jwk_throws [where v = "''x''" and header = "JObj [(''jwk'', JStr ''x'')]"]) simp_all

end
