(* ===== verification/Token_Endpoint.thy ===== *)
theory Token_Endpoint
  imports OAuth_Theorems Dpop
begin

text \<open>
  \<open>server/src/oauth/token.ts\<close>: the token endpoint. The state is the database with the sealed-response store and the
  replay store; the two stores and the verification of proofs come in through \<open>infra\<close>. The process clock \<open>now_ms\<close> and
  the database clocks of the two statements of an exchange are arguments. Metrics and log lines are left out.
\<close>

section \<open>Replies\<close>

record reply =
  rp_status :: nat
  rp_headers :: "(string \<times> string) list"
  rp_body :: jsval

definition no_store :: "(string \<times> string) list" where
  "no_store = [(''Cache-Control'', ''no-store''), (''Pragma'', ''no-cache'')]"

definition fail_reply :: "nat \<Rightarrow> string \<Rightarrow> string \<Rightarrow> reply" where
  "fail_reply status err description =
     \<lparr>rp_status = status, rp_headers = no_store,
      rp_body = JObj [(''error'', JStr err), (''error_description'', JStr description)]\<rparr>"

fun token_type_str :: "token_type \<Rightarrow> string" where
  "token_type_str DPoP_token = ''DPoP''"
| "token_type_str Bearer_token = ''Bearer''"

definition token_body :: "issued \<Rightarrow> jsval" where
  "token_body it =
     JObj ([(''access_token'', JStr (it_access it)), (''token_type'', JStr (token_type_str (it_type it))),
            (''expires_in'', JInt (it_expires_in it))]
           @ (case truthy (it_refresh it) of None \<Rightarrow> [] | Some t \<Rightarrow> [(''refresh_token'', JStr t)])
           @ [(''scope'', JStr (it_scope it))])"

definition send_tokens :: "jsval \<Rightarrow> reply" where
  "send_tokens body = \<lparr>rp_status = 200, rp_headers = no_store, rp_body = body\<rparr>"

section \<open>State and requests\<close>

record ('m, 's) token_infra =
  ti_jose :: jose
  ti_parse :: url_parser
  ti_claim :: "int \<Rightarrow> string \<Rightarrow> int \<Rightarrow> 's \<Rightarrow> bool \<times> 's"
  ti_seal :: "int \<Rightarrow> string \<Rightarrow> jsval \<Rightarrow> int \<Rightarrow> 'm \<Rightarrow> error + 'm"
  ti_unseal :: "int \<Rightarrow> string \<Rightarrow> 'm \<Rightarrow> (error + jsval option) \<times> 'm"

record ('m, 's) token_state =
  tk_db :: database
  tk_sealed :: 'm
  tk_replay :: 's

record token_request =
  tq_body :: jsval
  tq_dpop :: "string option"

record token_draw =
  td_now_ms :: int
  td_now :: int
  td_now2 :: int
  td_grant :: string
  td_access :: string
  td_refresh :: string

datatype proof_result = Proof_jkt "string option" | Proof_reply reply | Proof_error error

fun dpop_code_str :: "dpop_code \<Rightarrow> string" where
  "dpop_code_str Invalid_dpop_proof = ''invalid_dpop_proof''"
| "dpop_code_str Use_dpop_nonce = ''use_dpop_nonce''"

text \<open>\<open>proofOf\<close>: the thumbprint of the request's proof, none without one, or the error reply.\<close>

definition proof_of_request ::
  "env \<Rightarrow> ('m, 's) token_infra \<Rightarrow> int \<Rightarrow> token_request \<Rightarrow> 's \<Rightarrow> proof_result \<times> 's" where
  "proof_of_request env infra now_ms rq s =
     (case tq_dpop rq of
        None \<Rightarrow> (Proof_jkt None, s)
      | Some p \<Rightarrow>
          (case verify_proof env (ti_jose infra) (ti_parse infra) (ti_claim infra) now_ms (JStr p)
                  \<lparr>ck_htm = ''POST'', ck_htu = en_auth_base env @ ''/token'', ck_token = None, ck_expected = None\<rparr> s of
             (Inr jkt, s') \<Rightarrow> (Proof_jkt (Some jkt), s')
           | (Inl (DpopError c m r), s') \<Rightarrow> (Proof_reply (fail_reply 400 (dpop_code_str c) m), s')
           | (Inl e, s') \<Rightarrow> (Proof_error e, s')))"

section \<open>Exchanging a code\<close>

text \<open>What is wrong with redeeming the record, in the order it is checked; the first entry is for a spent code.\<close>

definition code_refusal :: "env \<Rightarrow> jsval \<Rightarrow> string option \<Rightarrow> code_record \<Rightarrow> reply option" where
  "code_refusal env body jkt rec =
     (if cr_expired rec then Some (fail_reply 400 ''invalid_grant'' ''This authorization code has expired.'')
      else if jfield body ''client_id'' \<noteq> JStr (cr_client rec)
      then Some (fail_reply 400 ''invalid_grant'' ''This code was issued to a different client.'')
      else if (case as_str (jfield body ''redirect_uri'') of None \<Rightarrow> False | Some u \<Rightarrow> u \<noteq> cr_redirect rec)
      then Some (fail_reply 400 ''invalid_grant'' ''redirect_uri does not match the authorization request.'')
      else if \<not> verify_pkce env (jfield body ''code_verifier'') (cr_challenge rec)
      then Some (fail_reply 400 ''invalid_grant'' ''PKCE verification failed.'')
      else if jfield body ''resource'' \<noteq> JUndefined \<and> jfield body ''resource'' \<noteq> JStr (cr_resource rec)
      then Some (fail_reply 400 ''invalid_target'' ''resource does not match the authorization request.'')
      else if truthy (cr_jkt rec) \<noteq> None \<and> jkt \<noteq> cr_jkt rec
      then Some (fail_reply 400 ''invalid_dpop_proof'' ''This code is bound to a different DPoP key.'')
      else None)"

definition code_options :: "env \<Rightarrow> string \<Rightarrow> string option \<Rightarrow> code_record \<Rightarrow> grant_options" where
  "code_options env code jkt rec =
     \<lparr>go_code = code, go_account = cr_account rec, go_client = cr_client rec, go_resource = cr_resource rec,
      go_scope = cr_scope rec, go_refresh = (\<not> en_require_offline env \<or> cr_offline rec), go_jkt = jkt\<rparr>"

definition redeem_code ::
  "env \<Rightarrow> token_draw \<Rightarrow> jsval \<Rightarrow> string option \<Rightarrow> database \<Rightarrow> (error + reply) \<times> database" where
  "redeem_code env dr body jkt db =
     (case consume_code env (td_now dr) (jfield body ''code'') db of
        (None, db1) \<Rightarrow> (Inr (fail_reply 400 ''invalid_grant'' ''Unknown authorization code.''), db1)
      | (Some rec, db1) \<Rightarrow>
          if cr_consumed rec then
            (Inr (fail_reply 400 ''invalid_grant'' ''This authorization code has already been used.''),
             case truthy (cr_grant rec) of None \<Rightarrow> db1 | Some g \<Rightarrow> revoke_grant_now (td_now2 dr) g db1)
          else (case code_refusal env body jkt rec of
            Some r \<Rightarrow> (Inr r, db1)
          | None \<Rightarrow>
              (case establish_grant env (td_now2 dr) (td_grant dr) (td_access dr) (td_refresh dr)
                      (code_options env (case as_str (jfield body ''code'') of None \<Rightarrow> [] | Some c \<Rightarrow> c) jkt rec) db1 of
                 (Inl e, db2) \<Rightarrow> (Inl e, db2)
               | (Inr it, db2) \<Rightarrow> (Inr (send_tokens (token_body it)), db2))))"

definition client_id_missing :: "jsval \<Rightarrow> bool" where
  "client_id_missing body \<longleftrightarrow> (case as_str (jfield body ''client_id'') of None \<Rightarrow> True | Some c \<Rightarrow> length c = 0)"

definition exchange_code ::
  "env \<Rightarrow> ('m, 's) token_infra \<Rightarrow> token_draw \<Rightarrow> token_request \<Rightarrow> ('m, 's) token_state
   \<Rightarrow> (error + reply) \<times> ('m, 's) token_state" where
  "exchange_code env infra dr rq st =
     (let body = tq_body rq in
      if client_id_missing body then (Inr (fail_reply 400 ''invalid_request'' ''client_id is required.''), st)
      else (case proof_of_request env infra (td_now_ms dr) rq (tk_replay st) of
        (Proof_error e, s) \<Rightarrow> (Inl e, st\<lparr>tk_replay := s\<rparr>)
      | (Proof_reply r, s) \<Rightarrow> (Inr r, st\<lparr>tk_replay := s\<rparr>)
      | (Proof_jkt jkt, s) \<Rightarrow>
          if jfield body ''client_id'' = JStr first_party_client \<and> \<not> is_truthy jkt
          then (Inr (fail_reply 400 ''invalid_dpop_proof'' ''This client must present a DPoP proof.''), st\<lparr>tk_replay := s\<rparr>)
          else (case redeem_code env dr body jkt (tk_db st) of
            (res, db') \<Rightarrow> (res, st\<lparr>tk_db := db', tk_replay := s\<rparr>))))"

section \<open>Refreshing\<close>

definition seal_key :: "env \<Rightarrow> string \<Rightarrow> jsval \<Rightarrow> error + string" where
  "seal_key env client token =
     (case as_str token of
        None \<Rightarrow> Inr []
      | Some t \<Rightarrow> (case digest env t of Inl e \<Rightarrow> Inl e | Inr h \<Rightarrow> Inr (client @ '':'' @ h)))"

fun invalid_message :: "invalid_reason \<Rightarrow> string" where
  "invalid_message Unknown_token = ''Unknown refresh token.''"
| "invalid_message Dead_token = ''This refresh token is no longer valid.''"
| "invalid_message Wrong_client = ''This refresh token was issued to a different client.''"

definition refresh_reply ::
  "('m, 's) token_infra \<Rightarrow> int \<Rightarrow> string \<Rightarrow> refresh_outcome \<Rightarrow> 'm \<Rightarrow> (error + reply) \<times> 'm" where
  "refresh_reply infra now_ms key out m =
     (case out of
        Rotated it \<Rightarrow> (Inr (send_tokens (token_body it)), m)
      | Replay \<Rightarrow>
          (case ti_unseal infra now_ms key m of
             (Inl e, m') \<Rightarrow> (Inl e, m')
           | (Inr None, m') \<Rightarrow> (Inr (fail_reply 400 ''invalid_grant'' ''This refresh token was already used.''), m')
           | (Inr (Some body), m') \<Rightarrow>
               if js_truthy body then (Inr (send_tokens body), m')
               else (Inr (fail_reply 400 ''invalid_grant'' ''This refresh token was already used.''), m'))
      | Theft \<Rightarrow> (Inr (fail_reply 400 ''invalid_grant'' ''This refresh token was already used. The grant has been revoked.''), m)
      | Invalid_target \<Rightarrow> (Inr (fail_reply 400 ''invalid_target'' ''resource does not match this grant.''), m)
      | Invalid_scope \<Rightarrow> (Inr (fail_reply 400 ''invalid_scope'' ''A refresh cannot request scopes beyond the original grant.''), m)
      | Invalid_dpop \<Rightarrow>
          (Inr (fail_reply 400 ''invalid_dpop_proof'' ''This refresh token is bound to a DPoP key; prove possession of it.''), m)
      | Invalid reason \<Rightarrow> (Inr (fail_reply 400 ''invalid_grant'' (invalid_message reason)), m))"

definition refresh_request_of ::
  "env \<Rightarrow> ('m, 's) token_infra \<Rightarrow> int \<Rightarrow> jsval \<Rightarrow> string \<Rightarrow> string option \<Rightarrow> string \<Rightarrow> 'm refresh_request" where
  "refresh_request_of env infra now_ms body client jkt key =
     \<lparr>rq_client = client, rq_resource = jfield body ''resource'', rq_scope = jfield body ''scope'',
      rq_grace = en_grace env, rq_jkt = jkt,
      rq_seal = (\<lambda>it. ti_seal infra now_ms key (token_body it) (en_grace env))\<rparr>"

definition exchange_refresh ::
  "env \<Rightarrow> ('m, 's) token_infra \<Rightarrow> token_draw \<Rightarrow> token_request \<Rightarrow> ('m, 's) token_state
   \<Rightarrow> (error + reply) \<times> ('m, 's) token_state" where
  "exchange_refresh env infra dr rq st =
     (let body = tq_body rq in
      if client_id_missing body then (Inr (fail_reply 400 ''invalid_request'' ''client_id is required.''), st)
      else (case proof_of_request env infra (td_now_ms dr) rq (tk_replay st) of
        (Proof_error e, s) \<Rightarrow> (Inl e, st\<lparr>tk_replay := s\<rparr>)
      | (Proof_reply r, s) \<Rightarrow> (Inr r, st\<lparr>tk_replay := s\<rparr>)
      | (Proof_jkt jkt, s) \<Rightarrow>
          (let client = (case as_str (jfield body ''client_id'') of None \<Rightarrow> [] | Some c \<Rightarrow> c);
               token = jfield body ''refresh_token''
           in case seal_key env client token of
                Inl e \<Rightarrow> (Inl e, st\<lparr>tk_replay := s\<rparr>)
              | Inr key \<Rightarrow>
                  (case rotate_refresh env (td_now dr) (td_access dr) (td_refresh dr) token
                          (refresh_request_of env infra (td_now_ms dr) body client jkt key) (tk_sealed st) (tk_db st) of
                     (Inl e, db') \<Rightarrow> (Inl e, st\<lparr>tk_db := db', tk_replay := s\<rparr>)
                   | (Inr (out, m), db') \<Rightarrow>
                       (case refresh_reply infra (td_now_ms dr) key out m of
                          (r, m') \<Rightarrow> (r, st\<lparr>tk_db := db', tk_sealed := m', tk_replay := s\<rparr>))))))"

section \<open>The route\<close>

definition token_route ::
  "env \<Rightarrow> ('m, 's) token_infra \<Rightarrow> token_draw \<Rightarrow> token_request \<Rightarrow> ('m, 's) token_state
   \<Rightarrow> (error + reply) \<times> ('m, 's) token_state" where
  "token_route env infra dr rq st =
     (let kind = jfield (tq_body rq) ''grant_type'';
          answer = (if kind = JStr ''authorization_code'' then exchange_code env infra dr rq st
                    else if kind = JStr ''refresh_token'' then exchange_refresh env infra dr rq st
                    else (Inr (fail_reply 400 ''unsupported_grant_type''
                           ''Supported grant types are authorization_code and refresh_token.''), st))
      in case answer of
           (Inl e, st') \<Rightarrow> (Inl e, st')
         | (Inr r, st') \<Rightarrow>
             (Inr (r\<lparr>rp_headers := (''DPoP-Nonce'', current_dpop_nonce env (td_now_ms dr)) # rp_headers r\<rparr>), st'))"

section \<open>Facts\<close>

lemma fail_reply_status [simp]: "rp_status (fail_reply n e d) = n"
  by (simp add: fail_reply_def)

lemma send_tokens_status [simp]: "rp_status (send_tokens b) = 200"
  by (simp add: send_tokens_def)

lemma code_refusal_status: "code_refusal env body jkt rec = Some r \<Longrightarrow> rp_status r = 400"
  by (auto simp: code_refusal_def split: if_splits)

lemma proof_reply_status: "proof_of_request env infra t rq s = (Proof_reply r, s') \<Longrightarrow> rp_status r = 400"
  by (auto simp: proof_of_request_def split: option.splits prod.splits sum.splits error.splits)

abbreviation token_check :: "env \<Rightarrow> proof_check" where
  "token_check env \<equiv> \<lparr>ck_htm = ''POST'', ck_htu = en_auth_base env @ ''/token'', ck_token = None, ck_expected = None\<rparr>"

text \<open>The key a request is made with: none without a proof, otherwise that of its proof.\<close>

definition request_key :: "env \<Rightarrow> ('m, 's) token_infra \<Rightarrow> int \<Rightarrow> token_request \<Rightarrow> string option \<Rightarrow> bool" where
  "request_key env infra now_ms rq jkt \<longleftrightarrow>
     (case tq_dpop rq of
        None \<Rightarrow> jkt = None
      | Some p \<Rightarrow> (\<exists>k jti. jkt = Some k \<and> proof_of env (ti_jose infra) (ti_parse infra) now_ms p (token_check env) k jti))"

lemma proof_of_request_key:
  "proof_of_request env infra t rq s = (Proof_jkt jkt, s') \<Longrightarrow> request_key env infra t rq jkt"
proof (cases "tq_dpop rq")
  case (Some p)
  assume "proof_of_request env infra t rq s = (Proof_jkt jkt, s')"
  with Some obtain k where "jkt = Some k"
    "verify_proof env (ti_jose infra) (ti_parse infra) (ti_claim infra) t (JStr p) (token_check env) s = (Inr k, s')"
    by (auto simp: proof_of_request_def split: prod.splits sum.splits error.splits)
  with Some show ?thesis unfolding verify_proof_iff by (auto simp: request_key_def)
qed (auto simp: proof_of_request_def request_key_def)

lemma consume_code_Some:
  assumes "consume_code env now v db = (Some rec, db1)"
  obtains c r where "v = JStr c" "well_formed_str Code c" "r \<in> set (t_codes db)" "co_hash r \<in> set (digests env c)"
    "rec = to_code_record r (cr_consumed rec) (cr_expired rec)"
    "\<not> cr_consumed rec \<Longrightarrow> \<not> cr_expired rec \<Longrightarrow> code_fresh env now c r
       \<and> db1 = db\<lparr>t_codes := update_where (code_fresh env now c) (code_spend now) (t_codes db)\<rparr>"
    "cr_consumed rec \<Longrightarrow> db1 = db"
proof -
  obtain c where c: "v = JStr c" "well_formed_str Code c"
    using assms by (auto simp: consume_code_def split: bool.splits jsval.splits)
  show ?thesis
  proof (cases "find (code_fresh env now c) (t_codes db)")
    case None
    with assms c obtain m where m: "find (\<lambda>r. co_hash r \<in> set (digests env c)) (t_codes db) = Some m"
      "rec = to_code_record m (co_consumed_at m \<noteq> None) (co_expires_at m \<le> now)" "db1 = db"
      by (auto simp: consume_code_def split: option.splits)
    have "\<not> code_fresh env now c m" using None find_SomeD [OF m(1)] by (auto simp: find_None_iff)
    with m(2,3) find_SomeD [OF m(1)] show ?thesis
      by (intro that [OF c, of m]) (auto simp: to_code_record_def code_fresh_def)
  next
    case (Some r)
    with assms c find_SomeD [OF Some] show ?thesis
      by (intro that [OF c, of r]) (auto simp: consume_code_def to_code_record_def code_fresh_def)
  qed
qed

lemma redeem_code_200:
  assumes "redeem_code env dr body jkt db = (Inr r, db')" "rp_status r = 200"
  obtains c row it db1 where "jfield body ''code'' = JStr c" "row \<in> set (t_codes db)" "code_fresh env (td_now dr) c row"
    "db1 = db\<lparr>t_codes := update_where (code_fresh env (td_now dr) c) (code_spend (td_now dr)) (t_codes db)\<rparr>"
    "code_refusal env body jkt (to_code_record row False False) = None"
    "establish_tx env (td_now2 dr) (td_grant dr) (td_access dr) (td_refresh dr)
       (code_options env c jkt (to_code_record row False False)) db1 = Inr (it, db')"
    "r = send_tokens (token_body it)"
proof -
  obtain rec db1 where c: "consume_code env (td_now dr) (jfield body ''code'') db = (Some rec, db1)" "\<not> cr_consumed rec"
    using assms by (auto simp: redeem_code_def split: prod.splits option.splits if_splits)
  then have n: "code_refusal env body jkt rec = None"
    using assms code_refusal_status by (force simp: redeem_code_def split: prod.splits option.splits if_splits)
  then have e: "\<not> cr_expired rec" by (auto simp: code_refusal_def)
  from c(1) obtain k row where k: "jfield body ''code'' = JStr k" "row \<in> set (t_codes db)" "code_fresh env (td_now dr) k row"
    "rec = to_code_record row False False"
    "db1 = db\<lparr>t_codes := update_where (code_fresh env (td_now dr) k) (code_spend (td_now dr)) (t_codes db)\<rparr>"
    by (rule consume_code_Some) (use c(2) e in auto)
  obtain it where "establish_tx env (td_now2 dr) (td_grant dr) (td_access dr) (td_refresh dr) (code_options env k jkt rec) db1
      = Inr (it, db')" "r = send_tokens (token_body it)"
    using assms c n k(1) by (auto simp: redeem_code_def establish_grant_def run_tx_def split: sum.splits prod.splits)
  with k n show ?thesis by (intro that [of k row db1 it]) auto
qed

lemma exchange_code_200:
  assumes "exchange_code env infra dr rq st = (Inr r, st')" "rp_status r = 200"
  obtains jkt where "request_key env infra (td_now_ms dr) rq jkt" "\<not> client_id_missing (tq_body rq)"
    "jfield (tq_body rq) ''client_id'' \<noteq> JStr first_party_client \<or> is_truthy jkt"
    "redeem_code env dr (tq_body rq) jkt (tk_db st) = (Inr r, tk_db st')"
  using assms proof_of_request_key [of env infra "td_now_ms dr" rq "tk_replay st"]
    proof_reply_status [of env infra "td_now_ms dr" rq "tk_replay st"]
  by (force simp: exchange_code_def Let_def split: if_splits prod.splits proof_result.splits)

end
