(* ===== verification/Base64.thy ===== *)
theory Base64
  imports Accounts
begin

text \<open>
  \<open>Buffer.from(text, 'base64')\<close>, the reader of what \<open>toString('base64')\<close> writes: both alphabets are read, reading ends at
  the padding, every other character is passed over, and bits that do not fill a byte are dropped.
\<close>

definition b64_value :: "char \<Rightarrow> nat option" where
  "b64_value c =
     (let n = byte c in
      if 65 \<le> n \<and> n \<le> 90 then Some (n - 65)
      else if 97 \<le> n \<and> n \<le> 122 then Some (n - 71)
      else if 48 \<le> n \<and> n \<le> 57 then Some (n + 4)
      else if c = CHR ''+'' \<or> c = CHR ''-'' then Some 62
      else if c = CHR ''/'' \<or> c = CHR ''_'' then Some 63
      else None)"

fun b64_bytes :: "nat list \<Rightarrow> string" where
  "b64_bytes [a, b] = [char_of (a * 4 + b div 16)]"
| "b64_bytes [a, b, c] = [char_of (a * 4 + b div 16), char_of (b mod 16 * 16 + c div 4)]"
| "b64_bytes (a # b # c # d # r) =
     char_of (a * 4 + b div 16) # char_of (b mod 16 * 16 + c div 4) # char_of (c mod 4 * 64 + d) # b64_bytes r"
| "b64_bytes _ = []"

definition from_base64 :: "string \<Rightarrow> string" where
  "from_base64 s = b64_bytes (List.map_filter b64_value (takeWhile (\<lambda>c. c \<noteq> CHR ''='') s))"

lemma b64_value_digit: "n < 64 \<Longrightarrow> b64_value (b64_std_digit n) = Some n" "n < 64 \<Longrightarrow> b64_std_digit n \<noteq> CHR ''=''"
proof -
  define ds where "ds = ''ABCDEFGHIJKLMNOPQRSTUVWXYZabcdefghijklmnopqrstuvwxyz0123456789+/''"
  have ds: "map b64_value ds = map Some [0..<64]" by (simp add: ds_def b64_value_def byte_def upt_conv_Cons)
  have len: "length ds = 64" by (simp add: ds_def)
  assume n: "n < 64"
  have "map b64_value ds ! n = map Some [0..<64] ! n" by (simp only: ds)
  then show v: "b64_value (b64_std_digit n) = Some n" using n len by (simp add: b64_std_digit_def flip: ds_def)
  have "b64_value (CHR ''='') = None" by (simp add: b64_value_def byte_def)
  with v show "b64_std_digit n \<noteq> CHR ''=''" by auto
qed

lemma whole_byte: "char_of (byte c) = c" "m = byte c \<Longrightarrow> char_of m = c"
  by (simp_all add: byte_def)

lemma byte_parts [simp]:
  "char_of (byte b + byte c div 64 div 4) = b"
  "char_of (byte c div 64 mod 4 * 64 + byte c mod 64) = c"
proof -
  have c: "byte c div 64 < 4" using byte_div by simp
  then have "byte b + byte c div 64 div 4 = byte b" by simp
  then show "char_of (byte b + byte c div 64 div 4) = b" by (simp only: byte_def char_of_char)
  from c have "byte c div 64 mod 4 * 64 + byte c mod 64 = byte c" by simp
  then show "char_of (byte c div 64 mod 4 * 64 + byte c mod 64) = c" by (simp only: byte_def char_of_char)
qed

theorem from_base64_base64 [simp]: "from_base64 (base64 s) = s"
  unfolding from_base64_def
  by (induction s rule: base64.induct)
    (simp_all add: b64_value_digit byte_bounds whole_byte map_filter_simps)

end
