(* ===== verification/Json.thy ===== *)
theory Json
  imports Tokens
begin

text \<open>
  \<open>JSON.stringify\<close> and \<open>Buffer.from(text)\<close> of the values the server assembles by hand before signing them. A field that
  is undefined is left out, and an undefined element of an array is null; the only numbers are integers. The lemmas say
  when a text determines its value.
\<close>

abbreviation quote_char :: char where "quote_char \<equiv> CHR 0x22"
abbreviation backslash :: char where "backslash \<equiv> CHR 0x5C"

definition short_escapes :: "(char \<times> char) list" where
  "short_escapes = [(quote_char, quote_char), (backslash, backslash), (CHR 0x08, CHR ''b''), (CHR 0x09, CHR ''t''),
     (CHR 0x0A, CHR 0x6E), (CHR 0x0C, CHR ''f''), (CHR 0x0D, CHR ''r'')]"

definition json_escape :: "char \<Rightarrow> string" where
  "json_escape c =
     (case map_of short_escapes c of
        Some e \<Rightarrow> [backslash, e]
      | None \<Rightarrow> if (of_char c :: nat) < 32 then backslash # ''u00'' @ hex [c] else [c])"

definition json_quote :: "string \<Rightarrow> string" where
  "json_quote s = quote_char # concat (map json_escape s) @ [quote_char]"

fun json :: "jsval \<Rightarrow> string" where
  "json JUndefined = ''null''"
| "json JNull = ''null''"
| "json (JBool b) = (if b then ''true'' else ''false'')"
| "json (JInt i) = int_str i"
| "json JNonInt = ''null''"
| "json (JStr s) = json_quote s"
| "json (JArr vs) = ''['' @ join_with '','' (map json vs) @ '']''"
| "json (JObj fs) =
     ''{'' @ join_with '',''
        (concat (map (\<lambda>(k, v). if v = JUndefined then [] else [json_quote k @ '':'' @ json v]) fs)) @ ''}''"

definition utf8_char :: "char \<Rightarrow> string" where
  "utf8_char c = (let n = (of_char c :: nat) in
     if n < 128 then [c] else [char_of (192 + n div 64), char_of (128 + n mod 64)])"

definition utf8 :: "string \<Rightarrow> string" where
  "utf8 s = concat (map utf8_char s)"

section \<open>Texts determine their values\<close>

text \<open>A code in which no word continues another.\<close>

definition prefix_code :: "('a \<Rightarrow> 'b list) \<Rightarrow> bool" where
  "prefix_code f \<longleftrightarrow> (\<forall>c d x y. f c @ x = f d @ y \<longrightarrow> c = d \<and> x = y) \<and> (\<forall>c. f c \<noteq> [])"

lemma prefix_code_concat:
  assumes "prefix_code f" "\<And>c x. f c \<noteq> q # x" "concat (map f s) @ q # x = concat (map f t) @ q # y"
  shows "s = t \<and> x = y"
  using assms(3)
proof (induction s arbitrary: t)
  case Nil
  with assms(1,2) show ?case by (cases t; cases "f (hd t)") (auto simp: prefix_code_def)
next
  case (Cons c s)
  show ?case
  proof (cases t)
    case Nil
    with Cons.prems assms(1,2) show ?thesis by (cases "f c") (auto simp: prefix_code_def)
  next
    case (Cons d t')
    with Cons.prems have "f c @ concat (map f s) @ q # x = f d @ concat (map f t') @ q # y" by simp
    with assms(1) have "c = d \<and> concat (map f s) @ q # x = concat (map f t') @ q # y"
      unfolding prefix_code_def by blast
    with Cons.IH Cons show ?thesis by blast
  qed
qed

lemma prefix_code_inj: "prefix_code f \<Longrightarrow> concat (map f s) = concat (map f t) \<Longrightarrow> s = t"
proof (induction s arbitrary: t)
  case Nil
  then show ?case by (cases t) (auto simp: prefix_code_def)
next
  case (Cons c s)
  show ?case
  proof (cases t)
    case Nil
    with Cons.prems show ?thesis by (auto simp: prefix_code_def)
  next
    case (Cons d t')
    with Cons.prems have "c = d \<and> concat (map f s) = concat (map f t')"
      unfolding prefix_code_def by simp
    with Cons.IH [OF Cons.prems(1)] Cons show ?thesis by blast
  qed
qed

lemma short_escape_inj: "map_of short_escapes c = Some e \<Longrightarrow> map_of short_escapes d = Some e \<Longrightarrow> c = d"
  by (auto simp: short_escapes_def split: if_splits)

lemma short_escape_u: "map_of short_escapes c \<noteq> Some (CHR ''u'')"
  by (auto simp: short_escapes_def)

lemma no_short_escape: "map_of short_escapes c = None \<Longrightarrow> c \<noteq> quote_char \<and> c \<noteq> backslash"
  by (auto simp: short_escapes_def split: if_splits)

lemma json_escape_code: "prefix_code json_escape"
proof -
  have "c = d \<and> x = y" if e: "json_escape c @ x = json_escape d @ y" for c d x y
  proof (cases "map_of short_escapes c")
    case None
    note c = None no_short_escape [OF None]
    show ?thesis
    proof (cases "map_of short_escapes d")
      case None
      with e c no_short_escape [OF None] show ?thesis
        using hex_inj [of "[c]" "[d]"] by (auto simp: json_escape_def split: if_splits)
    next
      case (Some u)
      with e c short_escape_u [of d] show ?thesis by (auto simp: json_escape_def split: if_splits)
    qed
  next
    case c: (Some u)
    show ?thesis
    proof (cases "map_of short_escapes d")
      case None
      with e c no_short_escape [OF None] short_escape_u [of c] show ?thesis by (auto simp: json_escape_def split: if_splits)
    next
      case (Some v)
      with e c short_escape_inj [of c u d] show ?thesis by (auto simp: json_escape_def)
    qed
  qed
  moreover have "json_escape c \<noteq> []" for c by (auto simp: json_escape_def split: option.splits)
  ultimately show ?thesis unfolding prefix_code_def by blast
qed

lemma json_escape_no_quote: "json_escape c \<noteq> quote_char # x"
  using no_short_escape [of c] by (auto simp: json_escape_def split: option.splits)

lemma json_quote_eq [simp]: "json_quote s @ x = json_quote t @ y \<longleftrightarrow> s = t \<and> x = y"
  using prefix_code_concat [OF json_escape_code json_escape_no_quote, of s x t y] by (auto simp: json_quote_def)

lemma json_quote_inj [simp]: "json_quote s = json_quote t \<longleftrightarrow> s = t"
  using json_quote_eq [of s "[]" t "[]"] by simp

lemma int_str_comma [simp]: "int_str i @ CHR '','' # x = int_str j @ CHR '','' # y \<longleftrightarrow> i = j \<and> x = y"
proof
  assume e: "int_str i @ CHR '','' # x = int_str j @ CHR '','' # y"
  have c: "CHR '','' \<notin> set (int_str n)" for n
    using dec_digit_range [of "CHR '',''"] by (auto simp: int_str_def)
  have tw: "takeWhile (\<lambda>z. z \<noteq> CHR '','') (int_str n @ CHR '','' # z) = int_str n" for n z
    using c [of n] by (subst takeWhile_append2) auto
  have "int_str i = int_str j" using tw [of i x] tw [of j y] e by simp
  with e show "i = j \<and> x = y" using int_str_inj by auto
qed simp

lemma of_char_char_of_less: "k < 256 \<Longrightarrow> (of_char (char_of k :: char) :: nat) = k"
  by simp

lemma utf8_inj: "utf8 s = utf8 t \<Longrightarrow> s = t"
proof -
  have "c = d \<and> x = y" if e: "utf8_char c @ x = utf8_char d @ y" for c d x y
  proof -
    let ?m = "of_char c :: nat" and ?n = "of_char d :: nat"
    have b: "?m < 256" "?n < 256" by simp_all
    have h: "(of_char (char_of (192 + k div 64) :: char) :: nat) = 192 + k div 64"
      "(of_char (char_of (128 + k mod 64) :: char) :: nat) = 128 + k mod 64" if "k < 256" for k :: nat
      using that by (simp_all add: of_char_char_of_less)
    consider "?m < 128" "?n < 128" | "?m < 128" "128 \<le> ?n" | "128 \<le> ?m" "?n < 128" | "128 \<le> ?m" "128 \<le> ?n" by linarith
    then show ?thesis
    proof cases
      case 2
      with e have "c = char_of (192 + ?n div 64)" by (simp add: utf8_char_def Let_def)
      with h(1) [OF b(2)] 2(1) show ?thesis by simp
    next
      case 3
      with e have "d = char_of (192 + ?m div 64)" by (simp add: utf8_char_def Let_def)
      with h(1) [OF b(1)] 3(2) show ?thesis by simp
    next
      case 4
      with e have q: "char_of (192 + ?m div 64) = (char_of (192 + ?n div 64) :: char)"
        "char_of (128 + ?m mod 64) = (char_of (128 + ?n mod 64) :: char)" "x = y"
        by (simp_all add: utf8_char_def Let_def)
      have "192 + ?m div 64 = 192 + ?n div 64" "128 + ?m mod 64 = 128 + ?n mod 64"
        using arg_cong [OF q(1), of "of_char :: char \<Rightarrow> nat"] arg_cong [OF q(2), of "of_char :: char \<Rightarrow> nat"]
        unfolding h [OF b(1)] h [OF b(2)] by blast+
      then have "?m = ?n" by (metis add_left_cancel div_mult_mod_eq)
      with q(3) show ?thesis by simp
    qed (use e in \<open>simp add: utf8_char_def\<close>)
  qed
  moreover have "utf8_char c \<noteq> []" for c by (simp add: utf8_char_def Let_def)
  ultimately have "prefix_code utf8_char" unfolding prefix_code_def by blast
  then show "utf8 s = utf8 t \<Longrightarrow> s = t" unfolding utf8_def by (rule prefix_code_inj)
qed

end
