(* ===== verification/Sealer.thy ===== *)
theory Sealer
  imports Stores Base64 Json
begin

text \<open>
  The short-lived sealed responses of \<open>server/src/oauth/sealed.ts\<close>: the class \<open>Sealer\<close> with its layout of nonce, tag and
  ciphertext, the contract of \<open>SealedResponses\<close> as a locale, and the in-memory class that keeps it. AES-256-GCM is a pair of
  functions with the laws of \<open>gcm_cipher\<close>; \<open>JSON.parse\<close> of decoded bytes is a function, and a body is \<open>readable\<close> if it gives
  back what \<open>JSON.stringify\<close> wrote. The bodies are the token responses, which are objects. The twelve random bytes of a
  nonce are an argument.
\<close>

section \<open>The cipher\<close>

text \<open>AES-256-GCM: from key, nonce, associated data and plaintext, sealing gives the authentication tag and the ciphertext;
  opening takes key, nonce, associated data, tag and ciphertext, and throws when the tag does not fit.\<close>

record gcm =
  gc_seal :: "string \<Rightarrow> string \<Rightarrow> string \<Rightarrow> string \<Rightarrow> string \<times> string"
  gc_open :: "string \<Rightarrow> string \<Rightarrow> string \<Rightarrow> string \<Rightarrow> string \<Rightarrow> string option"

text \<open>What is relied on of AES-256-GCM: tags of sixteen bytes, opening what was sealed, and refusing it under other associated data.\<close>

locale gcm_cipher =
  fixes g :: gcm
  assumes tag_length: "length (fst (gc_seal g k iv a p)) = 16"
    and gcm_opens: "gc_open g k iv a (fst (gc_seal g k iv a p)) (snd (gc_seal g k iv a p)) = Some p"
    and gcm_binds: "a' \<noteq> a \<Longrightarrow> gc_open g k iv a' (fst (gc_seal g k iv a p)) (snd (gc_seal g k iv a p)) = None"

section \<open>The class Sealer\<close>

record sealer =
  se_gcm :: gcm
  se_parse :: "string \<Rightarrow> error + jsval"
  se_secret :: string

definition new_sealer :: "gcm \<Rightarrow> (string \<Rightarrow> error + jsval) \<Rightarrow> string \<Rightarrow> error + sealer" where
  "new_sealer g parse secret =
     (if length secret \<noteq> 32 then Inl (OtherError ''The sealing key must be 32 bytes'')
      else Inr \<lparr>se_gcm = g, se_parse = parse, se_secret = secret\<rparr>)"

definition sealer_seal :: "sealer \<Rightarrow> string \<Rightarrow> string \<Rightarrow> jsval \<Rightarrow> string" where
  "sealer_seal sl iv key body =
     (case gc_seal (se_gcm sl) (se_secret sl) iv (utf8 key) (utf8 (json body)) of (tag, data) \<Rightarrow> iv @ tag @ data)"

definition sealer_open :: "sealer \<Rightarrow> string \<Rightarrow> string \<Rightarrow> error + jsval" where
  "sealer_open sl key sealed =
     (case gc_open (se_gcm sl) (se_secret sl) (take 12 sealed) (utf8 key) (take 16 (drop 12 sealed)) (drop 28 sealed) of
        None \<Rightarrow> Inl (OtherError ''Unsupported state or unable to authenticate data'')
      | Some text \<Rightarrow> se_parse sl text)"

definition readable :: "sealer \<Rightarrow> jsval \<Rightarrow> bool" where
  "readable sl body \<longleftrightarrow> se_parse sl (utf8 (json body)) = Inr body"

definition nonce :: "string \<Rightarrow> bool" where
  "nonce iv \<longleftrightarrow> length iv = 12"

locale sealing = gcm_cipher "se_gcm sl" for sl :: sealer
begin

text \<open>A sealed body opens under its key, and under no other.\<close>

lemma opens_sealed:
  assumes "nonce iv"
  shows "readable sl b \<Longrightarrow> sealer_open sl k (sealer_seal sl iv k b) = Inr b"
    and "k' \<noteq> k \<Longrightarrow> sealer_open sl k' (sealer_seal sl iv k b) = Inl (OtherError ''Unsupported state or unable to authenticate data'')"
proof -
  obtain tag data where t: "gc_seal (se_gcm sl) (se_secret sl) iv (utf8 k) (utf8 (json b)) = (tag, data)" by fastforce
  then have "length tag = 16" using tag_length [of "se_secret sl" iv "utf8 k" "utf8 (json b)"] by simp
  then have cut: "take 12 (iv @ tag @ data) = iv" "take 16 (drop 12 (iv @ tag @ data)) = tag" "drop 28 (iv @ tag @ data) = data"
    using assms by (simp_all add: nonce_def)
  have op: "sealer_open sl key (sealer_seal sl iv k b) =
      (case gc_open (se_gcm sl) (se_secret sl) iv (utf8 key) tag data of
         None \<Rightarrow> Inl (OtherError ''Unsupported state or unable to authenticate data'') | Some text \<Rightarrow> se_parse sl text)" for key
    by (simp only: sealer_open_def sealer_seal_def t prod.case cut)
  show "readable sl b \<Longrightarrow> sealer_open sl k (sealer_seal sl iv k b) = Inr b"
    using gcm_opens [of "se_secret sl" iv "utf8 k" "utf8 (json b)"] by (simp add: op t readable_def)
  assume "k' \<noteq> k"
  then have "utf8 k' \<noteq> utf8 k" using utf8_inj by blast
  then show "sealer_open sl k' (sealer_seal sl iv k b) = Inl (OtherError ''Unsupported state or unable to authenticate data'')"
    using gcm_binds [of "utf8 k'" "utf8 k" "se_secret sl" iv "utf8 (json b)"] by (simp add: op t)
qed

end

section \<open>The interface\<close>

text \<open>
  \<open>drawn\<close> are the draws a sealing may be given, \<open>plain\<close> the bodies that come back; unsealing may throw.
\<close>

locale sealed_store =
  fixes seal :: "'d \<Rightarrow> int \<Rightarrow> string \<Rightarrow> 'b \<Rightarrow> int \<Rightarrow> 's \<Rightarrow> 's"
    and unseal :: "int \<Rightarrow> string \<Rightarrow> 's \<Rightarrow> (error + 'b option) \<times> 's"
    and sealed_ok :: "'s \<Rightarrow> bool"
    and drawn :: "'d \<Rightarrow> bool"
    and plain :: "'b \<Rightarrow> bool"
  assumes seal_ok: "sealed_ok s \<Longrightarrow> sealed_ok (seal d now k b ttl s)"
    and unseal_ok: "sealed_ok s \<Longrightarrow> sealed_ok (snd (unseal now k s))"
    and unseal_sealed: "sealed_ok s \<Longrightarrow> drawn d \<Longrightarrow> plain b \<Longrightarrow> 0 < ttl \<Longrightarrow>
          fst (unseal t k (seal d now k b ttl s)) = Inr (if t < now + ttl * 1000 then Some b else None)"
    and unseal_other: "sealed_ok s \<Longrightarrow> now \<le> t \<Longrightarrow> k' \<noteq> k \<Longrightarrow> fst (unseal t k' (seal d now k b ttl s)) = fst (unseal t k' s)"
    and unseal_again: "sealed_ok s \<Longrightarrow> now \<le> t \<Longrightarrow> fst (unseal t k' (snd (unseal now k s))) = fst (unseal t k' s)"

section \<open>The in-memory store\<close>

type_synonym sealed_entries = "(string \<times> (string \<times> int)) list"

definition memory_seal :: "sealer \<Rightarrow> string \<Rightarrow> int \<Rightarrow> string \<Rightarrow> jsval \<Rightarrow> int \<Rightarrow> sealed_entries \<Rightarrow> sealed_entries" where
  "memory_seal sl iv now key body ttl_seconds m =
     AList.update key (sealer_seal sl iv key body, now + ttl_seconds * 1000)
       (sweep (\<lambda>(c, expires_at). expires_at \<le> now) m)"

definition memory_unseal :: "sealer \<Rightarrow> int \<Rightarrow> string \<Rightarrow> sealed_entries \<Rightarrow> (error + jsval option) \<times> sealed_entries" where
  "memory_unseal sl now key m =
     (case map_of m key of
        None \<Rightarrow> (Inr None, m)
      | Some (sealed, expires_at) \<Rightarrow>
          if expires_at \<le> now then (Inr None, AList.delete key m)
          else (map_sum id Some (sealer_open sl key sealed), m))"

lemmas sealed_defs = memory_seal_def memory_unseal_def map_of_sweep_keys update_conv' delete_conv'

sublocale sealing \<subseteq> memory_sealed: sealed_store "memory_seal sl" "memory_unseal sl" distinct_keys nonce "readable sl"
proof
  show "distinct_keys s \<Longrightarrow> distinct_keys (memory_seal sl d now k b ttl s)" for s d now k b ttl
    by (simp add: memory_seal_def)
  show "distinct_keys s \<Longrightarrow> distinct_keys (snd (memory_unseal sl now k s))" for s now k
    by (auto simp: memory_unseal_def split: option.splits)
  show "distinct_keys s \<Longrightarrow> nonce d \<Longrightarrow> readable sl b \<Longrightarrow> fst (memory_unseal sl t k (memory_seal sl d now k b ttl s))
      = Inr (if t < now + ttl * 1000 then Some b else None)" for s t k d now b ttl
    by (auto simp: sealed_defs opens_sealed)
  show "distinct_keys s \<Longrightarrow> now \<le> t \<Longrightarrow> k' \<noteq> k \<Longrightarrow>
      fst (memory_unseal sl t k' (memory_seal sl d now k b ttl s)) = fst (memory_unseal sl t k' s)"
    for s now t k' k d b ttl
    by (auto simp: sealed_defs split: option.splits)
  show "distinct_keys s \<Longrightarrow> now \<le> t \<Longrightarrow>
      fst (memory_unseal sl t k' (snd (memory_unseal sl now k s))) = fst (memory_unseal sl t k' s)"
    for s now t k' k
    by (auto simp: sealed_defs split: option.splits)
qed

context sealing begin

lemma seal_then_unseal:
  assumes "distinct_keys s" "nonce iv" "readable sl b" "t < now + ttl * 1000"
  shows "fst (memory_unseal sl t k (memory_seal sl iv now k b ttl s)) = Inr (Some b)"
  using assms by (simp add: sealed_defs opens_sealed)

end

section \<open>An instance of the laws\<close>

text \<open>A cipher with these laws: the ciphertext names the associated data.\<close>

definition demo_gcm :: gcm where
  "demo_gcm = \<lparr>gc_seal = (\<lambda>k iv a p. (replicate 16 (CHR 0x00), base64url a @ CHR 0x0A # p)),
     gc_open = (\<lambda>k iv a t d. if starts_with (base64url a @ [CHR 0x0A]) d then Some (drop (Suc (length (base64url a))) d) else None)\<rparr>"

lemma marked_eq: "c \<notin> set xs \<Longrightarrow> c \<notin> set ys \<Longrightarrow> starts_with (xs @ [c]) (ys @ c # zs) \<Longrightarrow> xs = ys"
proof (induction xs arbitrary: ys)
  case Nil
  then show ?case by (cases ys) (auto simp: starts_with_def)
next
  case (Cons x xs)
  then show ?case by (cases ys) (auto simp: starts_with_def)
qed

lemma newline_free: "CHR 0x0A \<notin> set (base64url a)"
proof
  assume "CHR 0x0A \<in> set (base64url a)"
  then have "b64url_char (CHR 0x0A)" by (rule base64url_chars)
  then show False by (simp add: b64url_char_def is_alnum_def)
qed

interpretation demo_cipher: gcm_cipher demo_gcm
proof
  show "length (fst (gc_seal demo_gcm k iv a p)) = 16" for k iv a p by (simp add: demo_gcm_def)
  show "gc_open demo_gcm k iv a (fst (gc_seal demo_gcm k iv a p)) (snd (gc_seal demo_gcm k iv a p)) = Some p" for k iv a p
    by (simp add: demo_gcm_def starts_with_def)
  show "gc_open demo_gcm k iv a' (fst (gc_seal demo_gcm k iv a p)) (snd (gc_seal demo_gcm k iv a p)) = None" if "a' \<noteq> a" for a' a k iv p
    using that marked_eq [OF newline_free newline_free] base64url_inj by (auto simp: demo_gcm_def)
qed

text \<open>A reader of JSON that knows the texts of the given values.\<close>

definition reader_of :: "jsval list \<Rightarrow> string \<Rightarrow> error + jsval" where
  "reader_of vs text = (case find (\<lambda>v. utf8 (json v) = text) vs of Some v \<Rightarrow> Inr v | None \<Rightarrow> Inl (OtherError ''SyntaxError''))"

definition demo_sealer :: "jsval \<Rightarrow> sealer" where
  "demo_sealer v = \<lparr>se_gcm = demo_gcm, se_parse = reader_of [v], se_secret = replicate 32 (CHR ''s'')\<rparr>"

definition demo_iv :: string where
  "demo_iv = replicate 12 (CHR ''n'')"

lemma demo_readable [simp]: "readable (demo_sealer v) v"
  by (simp add: readable_def demo_sealer_def reader_of_def)

lemma demo_nonce [simp]: "nonce demo_iv"
  by (simp add: nonce_def demo_iv_def)

interpretation demo_sealing: sealing "demo_sealer v" for v
  by (simp add: sealing_def demo_sealer_def demo_cipher.gcm_cipher_axioms)

end
