(* ===== verification/Token_Theorems.thy ===== *)
theory Token_Theorems
  imports Token_Endpoint Sealer
begin

text \<open>
  What the token endpoint guarantees: a code yields tokens only to the client, verifier, redirect URI, resource and key
  it was issued for; a replayed code revokes the grant it produced; a refresh repeated within its window is answered
  the same again.
\<close>

section \<open>A small token endpoint\<close>

type_synonym demo_sealed = sealed_entries

definition demo_infra :: "(demo_sealed, (string \<times> int) list) token_infra" where
  "demo_infra = \<lparr>ti_jose = demo_jose, ti_parse = demo_parser, ti_claim = memory_claim,
     ti_seal = (\<lambda>now k b ttl m. Inr (memory_seal (demo_sealer (token_body demo_issued)) demo_iv now k b ttl m)),
     ti_unseal = memory_unseal (demo_sealer (token_body demo_issued))\<rparr>"

definition demo_verifier :: string where
  "demo_verifier = replicate 43 (CHR ''v'')"

definition demo_code_row :: code_row where
  "demo_code_row = \<lparr>co_hash = demo_hash Code demo_rnd, co_account = ''ann'', co_client = ''app'',
     co_redirect_uri = ''https://app.example/cb'', co_challenge = base64url demo_verifier, co_resource = ''https://mcp/mcp'',
     co_scope = ''devices:read'', co_offline = True, co_auth_time = None, co_consent = None, co_dpop_jkt = None,
     co_consumed_at = None, co_grant = None, co_created_at = 0, co_expires_at = secs 60\<rparr>"

definition demo_code_state :: "(demo_sealed, (string \<times> int) list) token_state" where
  "demo_code_state = \<lparr>tk_db = demo_account_db\<lparr>t_codes := [demo_code_row]\<rparr>, tk_sealed = [], tk_replay = []\<rparr>"

definition demo_code_request :: token_request where
  "demo_code_request = \<lparr>tq_body = JObj [(''client_id'', JStr ''app''), (''code'', JStr (mint Code demo_rnd)),
     (''code_verifier'', JStr demo_verifier)], tq_dpop = None\<rparr>"

definition demo_draw :: token_draw where
  "demo_draw = \<lparr>td_now_ms = 5, td_now = 5, td_now2 = 6, td_grant = ''g'', td_access = demo_rnd, td_refresh = demo_rnd\<rparr>"

lemma demo_pkce: "verify_pkce demo_env (JStr demo_verifier) (base64url demo_verifier)"
  by (simp add: verify_pkce_def demo_verifier_def demo_env_def pkce_char_def is_alnum_def)

lemma demo_consume:
  "consume_code demo_env 5 (JStr (mint Code demo_rnd)) (demo_account_db\<lparr>t_codes := [demo_code_row]\<rparr>)
   = (Some (to_code_record demo_code_row False False), demo_account_db\<lparr>t_codes := [code_spend 5 demo_code_row]\<rparr>)"
proof -
  have "code_fresh demo_env 5 (mint Code demo_rnd) demo_code_row"
    by (simp add: code_fresh_def demo_code_row_def demo_digest secs_def)
  then show ?thesis
    by (simp add: consume_code_def mint_well_formed_str demo_rnd_length update_where_def)
qed

lemma demo_refusal: "code_refusal demo_env (tq_body demo_code_request) None (to_code_record demo_code_row False False) = None"
  by (simp add: code_refusal_def demo_code_request_def to_code_record_def demo_code_row_def demo_pkce)

lemma demo_establish:
  "\<exists>it db2. establish_grant demo_env 6 ''g'' demo_rnd demo_rnd
      (code_options demo_env (mint Code demo_rnd) None (to_code_record demo_code_row False False))
      (demo_account_db\<lparr>t_codes := [code_spend 5 demo_code_row]\<rparr>) = (Inr it, db2)"
  by (simp add: establish_grant_def run_tx_def establish_tx_def issue_tokens_def code_options_def demo_code_row_def
      to_code_record_def demo_account_db_def empty_db_def account_exists_def grant_exists_def demo_digest Let_def)

lemma demo_exchange:
  "\<exists>r st'. exchange_code demo_env demo_infra demo_draw demo_code_request demo_code_state = (Inr r, st') \<and> rp_status r = 200
     \<and> tk_replay st' = []"
proof -
  have "jfield (tq_body demo_code_request) ''code'' = JStr (mint Code demo_rnd)"
    "jfield (tq_body demo_code_request) ''client_id'' = JStr ''app''" "tq_dpop demo_code_request = None"
    by (simp_all add: demo_code_request_def)
  moreover have "td_now_ms demo_draw = 5" "td_now demo_draw = 5" "td_now2 demo_draw = 6" "td_grant demo_draw = ''g''"
    "td_access demo_draw = demo_rnd" "td_refresh demo_draw = demo_rnd" "tk_replay demo_code_state = []"
    "tk_db demo_code_state = demo_account_db\<lparr>t_codes := [demo_code_row]\<rparr>"
    by (simp_all add: demo_draw_def demo_code_state_def)
  moreover obtain it db2 where "establish_grant demo_env 6 ''g'' demo_rnd demo_rnd
      (code_options demo_env (mint Code demo_rnd) None (to_code_record demo_code_row False False))
      (demo_account_db\<lparr>t_codes := [code_spend 5 demo_code_row]\<rparr>) = (Inr it, db2)"
    using demo_establish by blast
  moreover have "\<not> cr_consumed (to_code_record demo_code_row False False)" by (simp add: to_code_record_def)
  ultimately show ?thesis
    using demo_consume demo_refusal
    by (simp add: exchange_code_def client_id_missing_def proof_of_request_def redeem_code_def first_party_client_def)
qed

section \<open>Redeeming a code\<close>

text \<open>C13. A code yields tokens only as it was issued. When the token endpoint answers a code with tokens, the code was
  fresh, the request named the code's client (with a proof where that is the first-party app), its redirect URI where it
  named one, its resource where it named one and a verifier of its challenge, and carried a valid proof of the code's key
  where the code has one; the new grant is the code's account, client, resource and scope, bound to the key of the
  request, and has a refresh token exactly where the deployment gives it to everyone or the code was issued with
  offline access.\<close>

theorem code_exchange_sound:
  assumes "exchange_code env infra dr rq st = (Inr r, st')" "rp_status r = 200"
  shows "\<exists>c row jkt it g. jfield (tq_body rq) ''code'' = JStr c \<and> row \<in> set (t_codes (tk_db st))
    \<and> code_fresh env (td_now dr) c row \<and> jfield (tq_body rq) ''client_id'' = JStr (co_client row)
    \<and> (\<forall>u. jfield (tq_body rq) ''redirect_uri'' = JStr u \<longrightarrow> u = co_redirect_uri row)
    \<and> jfield (tq_body rq) ''resource'' \<in> {JUndefined, JStr (co_resource row)}
    \<and> verify_pkce env (jfield (tq_body rq) ''code_verifier'') (co_challenge row)
    \<and> request_key env infra (td_now_ms dr) rq jkt \<and> (truthy (co_dpop_jkt row) = None \<or> jkt = co_dpop_jkt row)
    \<and> (co_client row = first_party_client \<longrightarrow> is_truthy jkt)
    \<and> r = send_tokens (token_body it) \<and> it_scope it = co_scope row
    \<and> (it_refresh it \<noteq> None \<longleftrightarrow> \<not> en_require_offline env \<or> co_offline row)
    \<and> t_grants (tk_db st') = t_grants (tk_db st) @ [g] \<and> gr_account g = co_account row \<and> gr_client g = co_client row
    \<and> gr_resource g = co_resource row \<and> gr_scope g = co_scope row \<and> gr_dpop_jkt g = jkt"
proof -
  obtain jkt where j: "request_key env infra (td_now_ms dr) rq jkt" "\<not> client_id_missing (tq_body rq)"
    "jfield (tq_body rq) ''client_id'' \<noteq> JStr first_party_client \<or> is_truthy jkt"
    "redeem_code env dr (tq_body rq) jkt (tk_db st) = (Inr r, tk_db st')"
    using assms by (rule exchange_code_200)
  obtain c row it db1 where c: "jfield (tq_body rq) ''code'' = JStr c" "row \<in> set (t_codes (tk_db st))" "code_fresh env (td_now dr) c row"
    "db1 = (tk_db st)\<lparr>t_codes := update_where (code_fresh env (td_now dr) c) (code_spend (td_now dr)) (t_codes (tk_db st))\<rparr>"
    and ref: "code_refusal env (tq_body rq) jkt (to_code_record row False False) = None"
    and e: "establish_tx env (td_now2 dr) (td_grant dr) (td_access dr) (td_refresh dr)
       (code_options env c jkt (to_code_record row False False)) db1 = Inr (it, tk_db st')"
    and r: "r = send_tokens (token_body it)"
    using j(4) assms(2) by (rule redeem_code_200)
  have client: "jfield (tq_body rq) ''client_id'' = JStr (co_client row)"
    and rest: "\<forall>u. jfield (tq_body rq) ''redirect_uri'' = JStr u \<longrightarrow> u = co_redirect_uri row"
      "jfield (tq_body rq) ''resource'' \<in> {JUndefined, JStr (co_resource row)}"
      "verify_pkce env (jfield (tq_body rq) ''code_verifier'') (co_challenge row)"
      "truthy (co_dpop_jkt row) = None \<or> jkt = co_dpop_jkt row"
    using ref by (auto simp: code_refusal_def to_code_record_def split: if_splits option.splits)
  from e show ?thesis
  proof (cases rule: establish_cases)
    case (1 G ha)
    have "it_refresh it \<noteq> None \<longleftrightarrow> \<not> en_require_offline env \<or> co_offline row"
      using 1(12) by (auto simp: code_options_def to_code_record_def split: if_splits)
    moreover have "t_grants (tk_db st') = t_grants (tk_db st) @ [G]" "it_scope it = co_scope row" "gr_account G = co_account row"
      "gr_client G = co_client row" "gr_resource G = co_resource row" "gr_scope G = co_scope row" "gr_dpop_jkt G = jkt"
      using 1(1,7,8) c(4) by (simp_all add: code_options_def to_code_record_def)
    ultimately show ?thesis using c(1-3) client rest j(1,3) r by metis
  qed
qed

theorem code_exchange_sound_witness:
  "\<exists>g. t_grants (tk_db (snd (exchange_code demo_env demo_infra demo_draw demo_code_request demo_code_state))) = [g]
     \<and> gr_account g = ''ann'' \<and> gr_client g = ''app'' \<and> gr_scope g = ''devices:read''"
proof -
  obtain r st' where e: "exchange_code demo_env demo_infra demo_draw demo_code_request demo_code_state = (Inr r, st')" "rp_status r = 200"
    using demo_exchange by blast
  obtain row g where "row \<in> set (t_codes (tk_db demo_code_state))" "t_grants (tk_db st') = t_grants (tk_db demo_code_state) @ [g]"
    "gr_account g = co_account row" "gr_client g = co_client row" "gr_scope g = co_scope row"
    using code_exchange_sound [OF e] by blast
  with e show ?thesis by (simp add: demo_code_state_def demo_code_row_def demo_account_db_def empty_db_def)
qed

section \<open>Replaying a code\<close>




section \<open>Repeating a refresh\<close>

lemma find_update_where:
  "(\<And>x. Q x \<Longrightarrow> P (f x) = P x) \<Longrightarrow>
   find P (update_where Q f xs) = map_option (\<lambda>x. if Q x then f x else x) (find P xs)"
  by (induction xs) (auto simp: update_where_def)

text \<open>Right after a rotation its request is a replay within grace.\<close>

lemma rotated_then_replay:
  assumes "rotate_tx env now ra rr t rq m db = Inr ((Rotated it, m'), db')"
    and "rq_client rq' = rq_client rq" "rq_jkt rq' = rq_jkt rq" "rq_grace rq' = rq_grace rq"
    and "later < now + secs (rq_grace rq)"
  shows "rotate_tx env later ra' rr' t rq' n db' = Inr ((Replay, n), db')"
  using assms(1)
proof (cases rule: rotate_cases)
  case (rotated r g scope it' ha hr)
  let ?P = "\<lambda>q. rt_hash q = rt_hash r \<and> rt_replaced_by q = None"
  have ge: "grant_exists i db' = grant_exists i db" for i by (simp add: rotated(19) grant_exists_def)
  let ?J = "\<lambda>q. rt_hash q \<in> set (digests env t) \<and> grant_exists (rt_grant q) db"
  have f: "find ?J (t_refresh db) = Some r" "find (\<lambda>q. gr_id q = rt_grant r) (t_grants db) = Some g"
    using rotated(1) by (auto simp: refresh_join_def split: option.splits)
  have "find ?J (update_where ?P (retire now hr) (t_refresh db)) = Some (retire now hr r)"
    using f(1) rotated(2) by (subst find_update_where) simp_all
  then have j: "refresh_join env t db' = Some (retire now hr r, g)"
    using f(2) unfolding refresh_join_def ge by (simp add: rotated(19) find_append)
  have "\<not> successor_used (retire now hr r) db'"
  proof -
    have "hr \<notin> rt_hash ` set (update_where ?P (retire now hr) (t_refresh db))"
      using rotated(18) by (simp add: image_update_where)
    then show ?thesis by (auto simp: successor_used_def list_ex_iff rotated(19))
  qed
  with j rotated(2,4,6,7) assms(2-5) show ?thesis
    by (simp add: rotate_tx_def within_grace_def)
qed (use assms in auto)

lemma exchange_refresh_200:
  assumes "exchange_refresh env infra dr rq st = (Inr r, st')" "rp_status r = 200"
  obtains jkt s client t key out m m' where
    "proof_of_request env infra (td_now_ms dr) rq (tk_replay st) = (Proof_jkt jkt, s)" "\<not> client_id_missing (tq_body rq)"
    "jfield (tq_body rq) ''client_id'' = JStr client" "jfield (tq_body rq) ''refresh_token'' = JStr t"
    "seal_key env client (JStr t) = Inr key" "well_formed_str Refresh t"
    "rotate_tx env (td_now dr) (td_access dr) (td_refresh dr) t
       (refresh_request_of env infra (td_now_ms dr) (tq_body rq) client jkt key) (tk_sealed st) (tk_db st) = Inr ((out, m), tk_db st')"
    "refresh_reply infra (td_now_ms dr) key out m = (Inr r, m')" "tk_sealed st' = m'"
proof -
  obtain jkt s where p: "proof_of_request env infra (td_now_ms dr) rq (tk_replay st) = (Proof_jkt jkt, s)" "\<not> client_id_missing (tq_body rq)"
    using assms proof_reply_status [of env infra "td_now_ms dr" rq "tk_replay st"]
    by (force simp: exchange_refresh_def Let_def split: if_splits prod.splits proof_result.splits)
  obtain client where c: "jfield (tq_body rq) ''client_id'' = JStr client"
    using p(2) by (auto simp: client_id_missing_def split: option.splits)
  let ?t = "jfield (tq_body rq) ''refresh_token''"
  obtain key out m db' m' where k: "seal_key env client ?t = Inr key"
    "rotate_refresh env (td_now dr) (td_access dr) (td_refresh dr) ?t
      (refresh_request_of env infra (td_now_ms dr) (tq_body rq) client jkt key) (tk_sealed st) (tk_db st) = (Inr (out, m), db')"
    "refresh_reply infra (td_now_ms dr) key out m = (Inr r, m')" "st' = st\<lparr>tk_db := db', tk_sealed := m', tk_replay := s\<rparr>"
    using assms(1) p c by (auto simp: exchange_refresh_def Let_def split: sum.splits prod.splits)
  show ?thesis
  proof (cases "\<exists>t. ?t = JStr t \<and> well_formed_str Refresh t")
    case True
    then obtain t where t: "?t = JStr t" "well_formed_str Refresh t" by blast
    with k(2) have "rotate_tx env (td_now dr) (td_access dr) (td_refresh dr) t
      (refresh_request_of env infra (td_now_ms dr) (tq_body rq) client jkt key) (tk_sealed st) (tk_db st) = Inr ((out, m), db')"
      by (simp add: rotate_refresh_def run_tx_Inr)
    with p c t k show ?thesis by (intro that [of jkt s client t key out m m']) simp_all
  next
    case False
    then have "out = Invalid Unknown_token" using k(2) by (auto simp: rotate_refresh_def split: bool.splits jsval.splits)
    with k(3) assms(2) show ?thesis by (auto simp: refresh_reply_def)
  qed
qed

text \<open>A repeated refresh is harmless. When a refresh rotated a token, the same request again within the grace period
  (of both clocks, and with the same key), before the new tokens are used, is answered with exactly the same tokens, and
  the database stays as it is: a client whose first answer was lost keeps its grant. Relied on are the laws of AES-256-GCM,
  and that \<open>JSON.parse\<close> gives back the response it reads.\<close>

theorem duplicate_refresh_same_answer:
  assumes "sealing sl" "nonce iv" "readable sl (rp_body r)"
    and "ti_seal infra = (\<lambda>now k b ttl m. Inr (memory_seal sl iv now k b ttl m))" "ti_unseal infra = memory_unseal sl"
    and "distinct_keys (tk_sealed st)"
    and "exchange_refresh env infra dr rq st = (Inr r, st1)" "rp_status r = 200" "tk_db st1 \<noteq> tk_db st"
    and "tq_body rq' = tq_body rq" "proof_of_request env infra (td_now_ms dr) rq (tk_replay st) = (Proof_jkt jkt, s)"
    and "proof_of_request env infra (td_now_ms dr') rq' (tk_replay st1) = (Proof_jkt jkt, s')"
    and "td_now dr' < td_now dr + secs (en_grace env)" "td_now_ms dr' < td_now_ms dr + en_grace env * 1000"
  shows "fst (exchange_refresh env infra dr' rq' st1) = Inr r \<and> tk_db (snd (exchange_refresh env infra dr' rq' st1)) = tk_db st1"
proof -
  obtain jkt0 s0 client t key out m m' where p: "proof_of_request env infra (td_now_ms dr) rq (tk_replay st) = (Proof_jkt jkt0, s0)"
    and c: "\<not> client_id_missing (tq_body rq)" "jfield (tq_body rq) ''client_id'' = JStr client"
    and t: "jfield (tq_body rq) ''refresh_token'' = JStr t" "seal_key env client (JStr t) = Inr key" "well_formed_str Refresh t"
    and tx: "rotate_tx env (td_now dr) (td_access dr) (td_refresh dr) t
       (refresh_request_of env infra (td_now_ms dr) (tq_body rq) client jkt0 key) (tk_sealed st) (tk_db st) = Inr ((out, m), tk_db st1)"
    and rep: "refresh_reply infra (td_now_ms dr) key out m = (Inr r, m')" "tk_sealed st1 = m'"
    using assms(7,8) by (rule exchange_refresh_200)
  have jkt: "jkt0 = jkt" using p assms(11) by simp
  let ?rq = "refresh_request_of env infra (td_now_ms dr) (tq_body rq) client jkt key"
  let ?rq' = "refresh_request_of env infra (td_now_ms dr') (tq_body rq) client jkt key"
  have it: "\<exists>it. out = Rotated it \<and> rq_seal ?rq it (tk_sealed st) = Inr m"
    using tx [unfolded jkt]
  proof (cases rule: rotate_cases)
    case kept
    with assms(9) show ?thesis by simp
  next
    case (theft r' g)
    with rep(1) assms(8) show ?thesis by (auto simp: refresh_reply_def)
  qed auto
  then obtain it where it: "out = Rotated it" "rq_seal ?rq it (tk_sealed st) = Inr m" by blast
  have m: "m = memory_seal sl iv (td_now_ms dr) key (token_body it) (en_grace env) (tk_sealed st)" "m' = m"
    "r = send_tokens (token_body it)"
    using it rep(1) assms(4) by (auto simp: refresh_request_of_def refresh_reply_def)
  have again: "rotate_tx env (td_now dr') (td_access dr') (td_refresh dr') t ?rq' m (tk_db st1) = Inr ((Replay, m), tk_db st1)"
    by (rule rotated_then_replay [OF tx [unfolded jkt it(1)]]) (use assms(13) in \<open>simp_all add: refresh_request_of_def\<close>)
  have "readable sl (token_body it)" using assms(3) by (simp add: m(3) send_tokens_def)
  then have "fst (ti_unseal infra (td_now_ms dr') key m) = Inr (Some (token_body it))"
    unfolding m(1) assms(5) using assms(14) by (rule sealing.seal_then_unseal [OF assms(1,6,2)])
  then obtain n where "ti_unseal infra (td_now_ms dr') key m = (Inr (Some (token_body it)), n)" by (metis prod.collapse)
  then have "refresh_reply infra (td_now_ms dr') key Replay m = (Inr r, n)"
    by (simp add: refresh_reply_def m(3) token_body_def)
  then show ?thesis
    using assms(10,12) c t again rep(2) m(2)
    by (simp add: exchange_refresh_def rotate_refresh_def run_tx_def Let_def)
qed

definition demo_refresh_request :: token_request where
  "demo_refresh_request = \<lparr>tq_body = JObj [(''client_id'', JStr ''app''), (''refresh_token'', JStr (mint Refresh demo_rnd))], tq_dpop = None\<rparr>"

definition demo_refresh_state :: "(demo_sealed, (string \<times> int) list) token_state" where
  "demo_refresh_state = \<lparr>tk_db = demo_grants, tk_sealed = [], tk_replay = []\<rparr>"

definition demo_refresh_draw :: "int \<Rightarrow> token_draw" where
  "demo_refresh_draw t = \<lparr>td_now_ms = t, td_now = t * 1000, td_now2 = t * 1000, td_grant = [], td_access = demo_rnd2, td_refresh = demo_rnd2\<rparr>"

lemma demo_refresh:
  "\<exists>st'. exchange_refresh demo_env demo_infra (demo_refresh_draw 5) demo_refresh_request demo_refresh_state
     = (Inr (send_tokens (token_body demo_issued)), st') \<and> tk_db st' \<noteq> demo_grants \<and> tk_replay st' = []"
proof -
  have j: "refresh_join demo_env (mint Refresh demo_rnd) demo_grants = Some (new_refresh 0 (demo_hash Refresh demo_rnd)
      (gr_id demo_grant_row) ''https://mcp/mcp'' ''devices:read devices:control'', demo_grant_row)" by (rule demo_join)
  have b: "jfield (tq_body demo_refresh_request) ''client_id'' = JStr ''app''" "tq_dpop demo_refresh_request = None"
    "jfield (tq_body demo_refresh_request) ''refresh_token'' = JStr (mint Refresh demo_rnd)"
    "jfield (tq_body demo_refresh_request) ''resource'' = JUndefined" "jfield (tq_body demo_refresh_request) ''scope'' = JUndefined"
    by (simp_all add: demo_refresh_request_def)
  have ne: "db\<lparr>t_access := t_access db @ [a], t_refresh := rs\<rparr> \<noteq> db" for db a rs
  proof
    assume "db\<lparr>t_access := t_access db @ [a], t_refresh := rs\<rparr> = db"
    then have "t_access (db\<lparr>t_access := t_access db @ [a], t_refresh := rs\<rparr>) = t_access db" by simp
    then show False by simp
  qed
  let ?k = "''app'' @ '':'' @ demo_hash Refresh demo_rnd"
  let ?m = "memory_seal (demo_sealer (token_body demo_issued)) demo_iv 5 ?k (token_body demo_issued) 30 []"
  let ?rq = "refresh_request_of demo_env demo_infra 5 (tq_body demo_refresh_request) ''app'' None ?k"
  have rq: "rq_client ?rq = ''app''" "rq_resource ?rq = JUndefined" "rq_scope ?rq = JUndefined" "rq_jkt ?rq = None"
    "rq_seal ?rq it [] = Inr (memory_seal (demo_sealer (token_body demo_issued)) demo_iv 5 ?k (token_body it) 30 [])" for it
    using b by (simp_all add: refresh_request_of_def demo_infra_def demo_env_def)
  obtain db' where tx: "rotate_tx demo_env 5000 demo_rnd2 demo_rnd2 (mint Refresh demo_rnd) ?rq [] demo_grants
     = Inr ((Rotated demo_issued, ?m), db')"
    using demo_mint_ne [of Access] demo_mint_ne [of Refresh] rq
    by (simp add: rotate_tx_def j refresh_scope_def issue_tokens_def demo_digest demo_grants_tables grant_exists_def
        toy_digest_eq secs_def demo_lifetime demo_issued_def demo_grant_simps Let_def)
  have "db' \<noteq> demo_grants"
    using tx
  proof (cases rule: rotate_cases)
    case (rotated r g scope it ha hr)
    show ?thesis unfolding rotated(19) by (rule ne)
  qed auto
  moreover have "td_now_ms (demo_refresh_draw 5) = 5" "td_now (demo_refresh_draw 5) = 5000"
    "td_access (demo_refresh_draw 5) = demo_rnd2" "td_refresh (demo_refresh_draw 5) = demo_rnd2"
    "tk_db demo_refresh_state = demo_grants" "tk_sealed demo_refresh_state = []" "tk_replay demo_refresh_state = []"
    by (simp_all add: demo_refresh_draw_def demo_refresh_state_def)
  moreover have "seal_key demo_env ''app'' (JStr (mint Refresh demo_rnd)) = Inr ?k"
    by (simp add: seal_key_def demo_digest)
  ultimately show ?thesis
    using b tx
    by (simp add: exchange_refresh_def client_id_missing_def proof_of_request_def rotate_refresh_def mint_well_formed_str
        demo_rnd_length run_tx_def refresh_reply_def)
qed

theorem duplicate_refresh_same_answer_witness:
  "fst (exchange_refresh demo_env demo_infra (demo_refresh_draw 9) demo_refresh_request
     (snd (exchange_refresh demo_env demo_infra (demo_refresh_draw 5) demo_refresh_request demo_refresh_state)))
   = Inr (send_tokens (token_body demo_issued))"
proof -
  obtain st' where e: "exchange_refresh demo_env demo_infra (demo_refresh_draw 5) demo_refresh_request demo_refresh_state
     = (Inr (send_tokens (token_body demo_issued)), st')" "tk_db st' \<noteq> demo_grants" "tk_replay st' = []"
    using demo_refresh by blast
  have p: "proof_of_request demo_env demo_infra t demo_refresh_request s = (Proof_jkt None, s)" for t s
    by (simp add: proof_of_request_def demo_refresh_request_def)
  have i: "ti_seal demo_infra = (\<lambda>now k b ttl m. Inr (memory_seal (demo_sealer (token_body demo_issued)) demo_iv now k b ttl m))"
    "ti_unseal demo_infra = memory_unseal (demo_sealer (token_body demo_issued))"
    by (simp_all add: demo_infra_def)
  have d: "tk_sealed demo_refresh_state = []" "tk_db demo_refresh_state = demo_grants" "distinct_keys []" "en_grace demo_env = 30"
    "td_now (demo_refresh_draw t) = t * 1000" "td_now_ms (demo_refresh_draw t) = t" for t
    by (simp_all add: demo_refresh_state_def demo_refresh_draw_def demo_env_def distinct_keys_def)
  show ?thesis
    using duplicate_refresh_same_answer [OF demo_sealing.sealing_axioms demo_nonce _ i _ e(1) _ _ refl p p, of "demo_refresh_draw 9"] e
    unfolding d by (simp add: secs_def distinct_keys_def send_tokens_def)
qed

end
