(* ===== verification/Verify.thy ===== *)
theory Verify
  imports OAuth_Theorems
begin

text \<open>
  \<open>server/src/oauth/verify.ts\<close> and \<open>server/src/security/verifier.ts\<close>: the verification of an OAuth access token, which
  every protected request of the REST API and of the MCP endpoint goes through. \<open>now\<close> is the database clock of the
  select, \<open>now2\<close> that of the update that records the use of the grant, \<open>now_ms\<close> the process clock; \<open>touched\<close> is the
  map of \<open>grant-usage.ts\<close>.
\<close>

record verified =
  ve_account :: string
  ve_client :: string
  ve_grant :: string
  ve_scopes :: "string list"
  ve_expires_in :: int
  ve_jkt :: "string option"

datatype verified_token =
    Token_ok verified
  | Invalid_token
  | Insufficient_scope string "string list" "string list"

text \<open>The join of the select: live tokens with the live grant they belong to.\<close>

definition live_grant :: "access_row \<Rightarrow> grant_row \<Rightarrow> bool" where
  "live_grant a g \<longleftrightarrow> gr_id g = at_grant a \<and> gr_revoked_at g = None"

definition access_live :: "env \<Rightarrow> int \<Rightarrow> string \<Rightarrow> database \<Rightarrow> access_row \<Rightarrow> bool" where
  "access_live env now t db a \<longleftrightarrow>
     at_hash a \<in> set (digests env t) \<and> now < at_expires_at a \<and> list_ex (live_grant a) (t_grants db)"

definition access_join :: "env \<Rightarrow> int \<Rightarrow> string \<Rightarrow> database \<Rightarrow> (access_row \<times> grant_row) option" where
  "access_join env now t db =
     (case find (access_live env now t db) (t_access db) of
        None \<Rightarrow> None
      | Some a \<Rightarrow> map_option (Pair a) (find (live_grant a) (t_grants db)))"

definition verified_of :: "int \<Rightarrow> access_row \<Rightarrow> grant_row \<Rightarrow> verified" where
  "verified_of now a g =
     \<lparr>ve_account = gr_account g, ve_client = gr_client g, ve_grant = at_grant a, ve_scopes = scope_list (at_scope a),
      ve_expires_in = max 0 (epoch_int (at_expires_at a - now)), ve_jkt = at_cnf_jkt a\<rparr>"

type_synonym touched = "(string \<times> int) list"

record clocks =
  ck_ms :: int
  ck_db :: int
  ck_db2 :: int

definition verify_access ::
  "env \<Rightarrow> clocks \<Rightarrow> jsval \<Rightarrow> string list \<Rightarrow> string option \<Rightarrow> touched \<times> database \<Rightarrow> verified_token \<times> touched \<times> database" where
  "verify_access env ck token required audience s =
     (let (touched, db) = s; aud = (case audience of None \<Rightarrow> resource_uri env | Some a \<Rightarrow> a) in
      case (well_formed Access token, token) of
        (True, JStr t) \<Rightarrow>
          (case access_join env (ck_db ck) t db of
             None \<Rightarrow> (Invalid_token, s)
           | Some (a, g) \<Rightarrow>
               if at_audience a \<noteq> aud then (Invalid_token, s)
               else (let granted = scope_list (at_scope a);
                         missing = filter (\<lambda>sc. sc \<notin> set granted) required
                     in if 0 < length missing then (Insufficient_scope (at_grant a) granted required, s)
                        else (Token_ok (verified_of (ck_db ck) a g),
                              touch_grant (ck_ms ck) (ck_db2 ck) (at_grant a) touched db)))
      | _ \<Rightarrow> (Invalid_token, s))"

text \<open>\<open>localVerifier\<close>: the interface of \<open>TokenVerifier\<close> over a database.\<close>

definition local_oauth ::
  "env \<Rightarrow> clocks \<Rightarrow> jsval \<Rightarrow> string list \<Rightarrow> string option \<Rightarrow> touched \<times> database \<Rightarrow> verified_token \<times> touched \<times> database" where
  "local_oauth env ck token scopes audience s = verify_access env ck token scopes audience s"

definition local_account :: "string \<Rightarrow> database \<Rightarrow> account option" where
  "local_account account db = get_account account db"

section \<open>Facts\<close>

lemma touch_grant_frame:
  "touch_grant now_ms now i touched db = (touched', db') \<Longrightarrow>
     t_access db' = t_access db \<and> t_refresh db' = t_refresh db \<and> t_codes db' = t_codes db \<and> t_accounts db' = t_accounts db
     \<and> t_devices db' = t_devices db \<and> map gr_id (t_grants db') = map gr_id (t_grants db)
     \<and> map gr_revoked_at (t_grants db') = map gr_revoked_at (t_grants db)"
  by (auto simp: touch_grant_def Let_def map_update_where split: if_splits)

lemma access_join_Some:
  assumes "access_join env now t db = Some (a, g)"
  shows "a \<in> set (t_access db) \<and> at_hash a \<in> set (digests env t) \<and> now < at_expires_at a \<and> g \<in> set (t_grants db)
    \<and> live_grant a g"
  using assms by (auto simp: access_join_def access_live_def split: option.splits dest!: find_SomeD)

lemma access_join_None:
  assumes "access_join env now t db = None" "a \<in> set (t_access db)" "at_hash a \<in> set (digests env t)" "now < at_expires_at a"
    "g \<in> set (t_grants db)"
  shows "\<not> live_grant a g"
proof (cases "find (access_live env now t db) (t_access db)")
  case None
  with assms(2-5) show ?thesis by (auto simp: find_None_iff access_live_def list_ex_iff)
next
  case (Some b)
  with assms(1) have "find (live_grant b) (t_grants db) = None" by (simp add: access_join_def)
  moreover have "list_ex (live_grant b) (t_grants db)" using find_SomeD [OF Some] by (simp add: access_live_def)
  ultimately show ?thesis by (auto simp: find_None_iff list_ex_iff)
qed

lemma verify_access_ok:
  "fst (verify_access env ck token required audience s) = Token_ok v \<longleftrightarrow>
     (\<exists>t a g. token = JStr t \<and> well_formed_str Access t \<and> access_join env (ck_db ck) t (snd s) = Some (a, g)
        \<and> at_audience a = (case audience of None \<Rightarrow> resource_uri env | Some r \<Rightarrow> r)
        \<and> set required \<subseteq> set (scope_list (at_scope a)) \<and> v = verified_of (ck_db ck) a g)"
  by (cases token; cases s)
    (auto simp: verify_access_def Let_def filter_empty_conv split: bool.splits option.splits if_splits)

lemma verify_access_state:
  "snd (verify_access env ck token required audience s) = s
   \<or> (\<exists>v. fst (verify_access env ck token required audience s) = Token_ok v
        \<and> snd (verify_access env ck token required audience s) = touch_grant (ck_ms ck) (ck_db2 ck) (ve_grant v) (fst s) (snd s))"
  by (cases token; cases s)
    (auto simp: verify_access_def verified_of_def Let_def split: bool.splits option.splits if_splits)

section \<open>Properties\<close>

lemma revoked_no_access:
  assumes "oauth_inv db" "g \<in> set (t_grants db)" "db' = run_store env xs (revoke_grant_now now (gr_id g) db)"
    "a \<in> set (t_access db')"
  shows "at_grant a \<noteq> gr_id g"
proof -
  let ?db1 = "revoke_grant_now now (gr_id g) db"
  have inv: "oauth_inv db'"
    unfolding assms(3) using run_store_inv revoke_grant_inv [OF assms(1)] by (simp add: revoke_grant_now_def run_tx_def)
  have "\<exists>g1 \<in> set (t_grants ?db1). gr_id g1 = gr_id g \<and> gr_revoked_at g1 \<noteq> None"
    using assms(2)
    by (auto simp: revoke_grant_now_def run_tx_def revoke_grant_def bex_update_where intro!: bexI [of _ g])
  then obtain g1 where g1: "g1 \<in> set (t_grants ?db1)" "gr_id g1 = gr_id g" "gr_revoked_at g1 \<noteq> None" by blast
  obtain g2 where g2: "g2 \<in> set (t_grants db')" "gr_id g2 = gr_id g" "gr_revoked_at g2 \<noteq> None"
    using grant_persists_run [OF g1(1), of env xs] g1(2,3) unfolding assms(3) by (auto simp: grant_le_def)
  obtain q where q: "q \<in> set (t_grants db')" "access_of q a" using inv assms(4) by (auto simp: oauth_inv_def)
  then have "q \<noteq> g2" using g2(3) by (auto simp: access_of_def)
  moreover have "distinct (map gr_id (t_grants db'))" using inv by (simp add: oauth_inv_def keys_ok_def)
  ultimately show ?thesis
    using q g2(1,2) distinct_key_eq [of gr_id "t_grants db'" q g2] by (auto simp: access_of_def)
qed

text \<open>A verified token is a live delegation. Starting without grants, after any sequence of operations of the store, a
  token that verifies for a resource has not expired and belongs to a grant that is not revoked, was given for exactly
  that resource and is bound to the same key; the caller it names is the grant's account and client, and the scopes it
  carries include all that were required and none that the grant lacks. Verifying changes nothing but when the grant was
  last used.\<close>

theorem verified_token_within_grant:
  assumes "no_grants db0" "db = run_store env xs db0"
    and "verify_access env ck token required audience (touched, db) = (Token_ok v, touched', db')"
  shows "(\<exists>g \<in> set (t_grants db). gr_id g = ve_grant v \<and> gr_revoked_at g = None \<and> gr_account g = ve_account v
        \<and> gr_client g = ve_client v \<and> gr_resource g = (case audience of None \<Rightarrow> resource_uri env | Some r \<Rightarrow> r)
        \<and> gr_dpop_jkt g = ve_jkt v \<and> set required \<subseteq> set (ve_scopes v) \<and> set (ve_scopes v) \<subseteq> set (scope_list (gr_scope g)))
    \<and> (\<exists>t. \<exists>a \<in> set (t_access db). token = JStr t \<and> at_hash a \<in> set (digests env t) \<and> ck_db ck < at_expires_at a)
    \<and> t_access db' = t_access db \<and> map gr_revoked_at (t_grants db') = map gr_revoked_at (t_grants db)"
proof -
  have inv: "oauth_inv db" unfolding assms(2) using no_grants_inv [OF assms(1)] run_store_inv by blast
  have "fst (verify_access env ck token required audience (touched, db)) = Token_ok v" by (simp add: assms(3))
  then obtain t a g where t: "token = JStr t" "access_join env (ck_db ck) t db = Some (a, g)"
    "at_audience a = (case audience of None \<Rightarrow> resource_uri env | Some r \<Rightarrow> r)"
    "set required \<subseteq> set (scope_list (at_scope a))" "v = verified_of (ck_db ck) a g"
    unfolding verify_access_ok by auto
  note j = access_join_Some [OF t(2)]
  obtain q where q: "q \<in> set (t_grants db)" "access_of q a" using inv j by (auto simp: oauth_inv_def)
  with j inv have "q = g"
    by (auto simp: oauth_inv_def keys_ok_def access_of_def live_grant_def intro: distinct_key_eq [of gr_id "t_grants db"])
  with q j t have g: "\<exists>g \<in> set (t_grants db). gr_id g = ve_grant v \<and> gr_revoked_at g = None \<and> gr_account g = ve_account v
        \<and> gr_client g = ve_client v \<and> gr_resource g = (case audience of None \<Rightarrow> resource_uri env | Some r \<Rightarrow> r)
        \<and> gr_dpop_jkt g = ve_jkt v \<and> set required \<subseteq> set (ve_scopes v) \<and> set (ve_scopes v) \<subseteq> set (scope_list (gr_scope g))"
    by (intro bexI [of _ g]) (auto simp: verified_of_def access_of_def scope_within_def)
  have "t_access db' = t_access db \<and> map gr_revoked_at (t_grants db') = map gr_revoked_at (t_grants db)"
    using verify_access_state [of env ck token required audience "(touched, db)"] assms(3)
    by (auto dest!: sym [of "(touched', db')"] touch_grant_frame)
  with g j t(1) show ?thesis by blast
qed

text \<open>Signing out ends every session at once. After a grant is revoked, whatever is done afterwards, no token verifies
  as that grant's, at any time and for any resource.\<close>

theorem revoked_grant_never_verifies:
  assumes "oauth_inv db" "g \<in> set (t_grants db)" "db' = run_store env xs (revoke_grant_now now (gr_id g) db)"
  shows "fst (verify_access env ck token required audience (touched, db')) = Token_ok v \<Longrightarrow> ve_grant v \<noteq> gr_id g"
proof -
  assume "fst (verify_access env ck token required audience (touched, db')) = Token_ok v"
  then obtain t a q where "access_join env (ck_db ck) t db' = Some (a, q)" "v = verified_of (ck_db ck) a q"
    unfolding verify_access_ok by auto
  with access_join_Some revoked_no_access [OF assms] show ?thesis by (auto simp: verified_of_def)
qed

definition demo_clocks :: clocks where
  "demo_clocks = \<lparr>ck_ms = 5, ck_db = 5, ck_db2 = 5\<rparr>"

lemma demo_verified:
  "\<exists>touched' db'. verify_access demo_env demo_clocks (JStr (mint Access demo_rnd)) [''devices:read''] None ([], demo_grants)
     = (Token_ok \<lparr>ve_account = ''ann'', ve_client = ''app'', ve_grant = gr_id demo_grant_row,
          ve_scopes = [''devices:read'', ''devices:control''], ve_expires_in = 3600, ve_jkt = None\<rparr>, touched', db')"
proof -
  have "access_join demo_env 5 (mint Access demo_rnd) demo_grants
    = Some (new_access demo_env 0 (demo_hash Access demo_rnd) (gr_id demo_grant_row) ''https://mcp/mcp''
        ''devices:read devices:control'' None, demo_grant_row)"
    by (simp add: access_join_def access_live_def live_grant_def demo_grants_tables demo_digest demo_lifetime secs_def demo_grant_simps)
  moreover have "scope_list ''devices:read devices:control'' = [''devices:read'', ''devices:control'']"
    by (simp add: scope_list_def words_on_def is_space_def)
  ultimately show ?thesis
    by (simp add: verify_access_def demo_clocks_def mint_well_formed_str demo_rnd_length resource_uri_def demo_env_def
        verified_of_def demo_lifetime [unfolded demo_env_def] epoch_int_def secs_def demo_grant_row_def Let_def)
qed

theorem verified_token_within_grant_witness:
  "\<exists>v g. fst (verify_access demo_env demo_clocks (JStr (mint Access demo_rnd)) [''devices:read''] None ([], demo_grants)) = Token_ok v
     \<and> g \<in> set (t_grants demo_grants) \<and> gr_id g = ve_grant v \<and> gr_revoked_at g = None"
proof -
  obtain v touched' db' where v: "verify_access demo_env demo_clocks (JStr (mint Access demo_rnd)) [''devices:read''] None ([], demo_grants)
     = (Token_ok v, touched', db')" using demo_verified by blast
  have "demo_grants = run_store demo_env [St_establish 0 ''g'' demo_rnd demo_rnd demo_options] demo_account_db"
    by (simp add: run_store_def demo_grants_def)
  from verified_token_within_grant [OF demo_start_ok this v] v show ?thesis by auto
qed

theorem revoked_grant_never_verifies_witness:
  "fst (verify_access demo_env demo_clocks (JStr (mint Access demo_rnd)) [''devices:read''] None
      ([], revoke_grant_now 3 (gr_id demo_grant_row) demo_grants)) = Invalid_token"
proof -
  let ?r = "verify_access demo_env demo_clocks (JStr (mint Access demo_rnd)) [''devices:read''] None
      ([], revoke_grant_now 3 (gr_id demo_grant_row) demo_grants)"
  have inv: "oauth_inv demo_grants" "demo_grant_row \<in> set (t_grants demo_grants)"
    using demo_grants_inv by (auto simp: demo_grants_tables)
  have "ve_grant v \<noteq> gr_id demo_grant_row" if "fst ?r = Token_ok v" for v
    using revoked_grant_never_verifies [OF inv, of _ demo_env "[]" 3] that by (simp add: run_store_def)
  then show ?thesis
    by (simp add: verify_access_def access_join_def access_live_def revoke_grant_now_def run_tx_def delete_where_def
        demo_grants_tables mint_well_formed_str demo_rnd_length)
qed

end
