(* ===== verification/Internal_Tokens.thy ===== *)
theory Internal_Tokens
  imports Verify Json Devices
begin

text \<open>
  Internal tokens: \<open>server/src/security/workload.ts\<close> (who calls the Device Service), \<open>server/src/oauth/exchange.ts\<close> (an edge
  credential in, a one-minute internal token out) and \<open>server/src/device-service/\<close> (what is checked before anything is
  done, and the four operations). A signing key is its identifier and its signing function; the verification of a JWT by
  the JOSE library, with the options the source passes it, is a parameter.
\<close>

section \<open>Workloads\<close>

datatype workload_name = Mcp_rs | Api_gw

fun workload_name_str :: "workload_name \<Rightarrow> string" where
  "workload_name_str Mcp_rs = ''mcp-rs''"
| "workload_name_str Api_gw = ''api-gw''"

datatype confirmation = Cnf_jkt string | Cnf_x5t string

record workload =
  wl_name :: workload_name
  wl_cnf :: confirmation

definition create_workload :: "env \<Rightarrow> string \<Rightarrow> workload_name \<Rightarrow> workload" where
  "create_workload env rnd n = \<lparr>wl_name = n, wl_cnf = Cnf_jkt (base64url (en_sha256 env rnd))\<rparr>"

definition certificate_workload :: "env \<Rightarrow> string \<Rightarrow> workload_name \<Rightarrow> workload" where
  "certificate_workload env der n = \<lparr>wl_name = n, wl_cnf = Cnf_x5t (base64url (en_sha256 env der))\<rparr>"

fun cnf_entry :: "confirmation \<Rightarrow> string \<times> string" where
  "cnf_entry (Cnf_jkt k) = (''jkt'', k)"
| "cnf_entry (Cnf_x5t k) = (''x5t#S256'', k)"

definition cnf_value :: "confirmation \<Rightarrow> jsval" where
  "cnf_value c = (case cnf_entry c of (k, v) \<Rightarrow> JObj [(k, JStr v)])"

definition confirms :: "jsval \<Rightarrow> confirmation \<Rightarrow> bool" where
  "confirms claim expected =
     (case claim of
        JObj fs \<Rightarrow> (case cnf_entry expected of (k, v) \<Rightarrow> jfield claim k = JStr v \<and> length (remdups (map fst fs)) = 1)
      | _ \<Rightarrow> False)"

definition workload_uri :: "workload \<Rightarrow> string" where
  "workload_uri w = ''spiffe://iot-switch/'' @ workload_name_str (wl_name w)"

definition workload_named :: "string \<Rightarrow> workload_name option" where
  "workload_named uri =
     (if uri = ''spiffe://iot-switch/'' @ workload_name_str Mcp_rs then Some Mcp_rs
      else if uri = ''spiffe://iot-switch/'' @ workload_name_str Api_gw then Some Api_gw else None)"

section \<open>The exchange\<close>

abbreviation internal_audience :: string where "internal_audience \<equiv> ''https://device.internal''"
abbreviation internal_ttl :: int where "internal_ttl \<equiv> 60"

record signer =
  sg_kid :: string
  sg_sign :: "string \<Rightarrow> error + string"

record exchange_request =
  xr_workload :: workload
  xr_subject :: string
  xr_scope :: string

record exchanged =
  xd_token :: string
  xd_expires_in :: int
  xd_grant :: string

record subject =
  su_account :: string
  su_client :: string
  su_grant :: string
  su_channel :: channel
  su_auth_method :: string
  su_expires_in :: int

definition not_signed_in :: error where
  "not_signed_in = app_err_msg UNAUTHENTICATED ''Sign in to continue.''"

text \<open>\<open>resolveSubject\<close>.\<close>

definition resolve_subject ::
  "env \<Rightarrow> clocks \<Rightarrow> exchange_request \<Rightarrow> touched \<times> database \<Rightarrow> (error + subject) \<times> touched \<times> database" where
  "resolve_subject env ck rq s =
     (if wl_name (xr_workload rq) = Mcp_rs then
        (case verify_access env ck (JStr (xr_subject rq)) [xr_scope rq] None s of
           (Token_ok v, s') \<Rightarrow>
             (Inr \<lparr>su_account = ve_account v, su_client = ve_client v, su_grant = ve_grant v, su_channel = Ch_mcp,
                   su_auth_method = ''oauth'', su_expires_in = ve_expires_in v\<rparr>, s')
         | (Insufficient_scope g gs rs, s') \<Rightarrow> (Inl (app_err INSUFFICIENT_SCOPE), s')
         | (Invalid_token, s') \<Rightarrow> (Inl not_signed_in, s'))
      else
        (case verify_access env ck (JStr (xr_subject rq)) [xr_scope rq] (Some (api_resource env)) s of
           (Token_ok v, s') \<Rightarrow>
             (Inr \<lparr>su_account = ve_account v, su_client = ve_client v, su_grant = ve_grant v, su_channel = Ch_native,
                   su_auth_method = (if truthy (ve_jkt v) \<noteq> None then ''oauth-dpop'' else ''oauth''),
                   su_expires_in = ve_expires_in v\<rparr>, s')
         | (Insufficient_scope g gs rs, s') \<Rightarrow> (Inl (app_err INSUFFICIENT_SCOPE), s')
         | (Invalid_token, s') \<Rightarrow> (Inl not_signed_in, s')))"

definition b64url_json :: "jsval \<Rightarrow> string" where
  "b64url_json v = base64url (utf8 (json v))"

definition token_header :: "signer \<Rightarrow> jsval" where
  "token_header sk = JObj [(''alg'', JStr ''ES256''), (''typ'', JStr ''at+jwt''), (''kid'', JStr (sg_kid sk))]"

definition internal_claims :: "env \<Rightarrow> int \<Rightarrow> int \<Rightarrow> string \<Rightarrow> exchange_request \<Rightarrow> subject \<Rightarrow> jsval" where
  "internal_claims env now expires_in rnd rq su =
     JObj [(''iss'', JStr (en_auth_base env)), (''aud'', JStr internal_audience), (''sub'', JStr (su_account su)),
           (''iat'', JInt now), (''exp'', JInt (now + expires_in)), (''jti'', JStr (new_id ''tb'' rnd)),
           (''client_id'', JStr (su_client su)), (''grant_id'', JStr (su_grant su)), (''scope'', JStr (xr_scope rq)),
           (''channel'', JStr (channel_str (su_channel su))), (''auth_method'', JStr (su_auth_method su)),
           (''act'', JObj [(''sub'', JStr (workload_uri (xr_workload rq)))]), (''cnf'', cnf_value (wl_cnf (xr_workload rq)))]"

definition signing_input :: "signer \<Rightarrow> jsval \<Rightarrow> string" where
  "signing_input sk claims = b64url_json (token_header sk) @ ''.'' @ b64url_json claims"

definition compact_jwt :: "signer \<Rightarrow> jsval \<Rightarrow> string \<Rightarrow> string" where
  "compact_jwt sk claims signature = signing_input sk claims @ ''.'' @ base64url signature"

definition exchange_token ::
  "env \<Rightarrow> signer list \<Rightarrow> clocks \<Rightarrow> string \<Rightarrow> exchange_request \<Rightarrow> touched \<times> database
   \<Rightarrow> (error + exchanged) \<times> touched \<times> database" where
  "exchange_token env signers ck rnd rq s =
     (case resolve_subject env ck rq s of
        (Inl e, s') \<Rightarrow> (Inl e, s')
      | (Inr su, s') \<Rightarrow>
          (let expires_in = min internal_ttl (su_expires_in su) in
           if expires_in \<le> 0 then (Inl not_signed_in, s')
           else (case signers of
             [] \<Rightarrow> (Inl (OtherError ''No signing key configured''), s')
           | sk # _ \<Rightarrow>
               (let claims = internal_claims env (ck_ms ck div 1000) expires_in rnd rq su in
                case sg_sign sk (utf8 (signing_input sk claims)) of
                  Inl e \<Rightarrow> (Inl e, s')
                | Inr signature \<Rightarrow>
                    (Inr \<lparr>xd_token = compact_jwt sk claims signature, xd_expires_in = expires_in, xd_grant = su_grant su\<rparr>, s')))))"

section \<open>What the Device Service checks\<close>

type_synonym jwt_verifier = "int \<Rightarrow> string \<Rightarrow> string + jsval"

definition verify_internal ::
  "jwt_verifier \<Rightarrow> int \<Rightarrow> string \<Rightarrow> workload \<Rightarrow> string \<Rightarrow> string \<Rightarrow> error + identity" where
  "verify_internal jwt now_ms token peer required request_id =
     (case jwt now_ms token of
        Inl m \<Rightarrow> Inl (InternalTokenRefused m)
      | Inr p \<Rightarrow>
          if jfield (jfield p ''act'') ''sub'' \<noteq> JStr (workload_uri peer)
          then Inl (InternalTokenRefused ''act does not name the caller'')
          else if \<not> confirms (jfield p ''cnf'') (wl_cnf peer) then Inl (InternalTokenRefused ''not bound to the caller'')
          else if jfield p ''scope'' \<noteq> JStr required
          then Inl (InternalTokenRefused (''scope '' @ required @ '' required''))
          else (case (as_str (jfield p ''sub''), as_str (jfield p ''client_id''), as_str (jfield p ''grant_id'')) of
            (Some sub, Some client, Some grant) \<Rightarrow>
              (case (if jfield p ''channel'' = JStr ''native'' then Some Ch_native
                     else if jfield p ''channel'' = JStr ''mcp'' then Some Ch_mcp else None) of
                 None \<Rightarrow> Inl (InternalTokenRefused ''unknown channel'')
               | Some ch \<Rightarrow> Inr
                   \<lparr>id_account = sub, id_channel = ch, id_request = Some request_id, id_client = Some client,
                    id_grant = Some grant, id_via = Some (workload_uri peer),
                    id_auth_method = Some (case as_str (jfield p ''auth_method'') of Some m \<Rightarrow> m | None \<Rightarrow> ''unknown'')\<rparr>)
          | _ \<Rightarrow> Inl (InternalTokenRefused ''missing subject claims'')))"

section \<open>The Device Service\<close>

definition service_list :: "jwt_verifier \<Rightarrow> int \<Rightarrow> string \<Rightarrow> workload \<Rightarrow> string \<Rightarrow> database \<Rightarrow> error + device list" where
  "service_list jwt now_ms token peer request_id db =
     (case verify_internal jwt now_ms token peer ''devices:read'' request_id of
        Inl e \<Rightarrow> Inl e | Inr ident \<Rightarrow> Inr (list_devices ident db))"

definition service_get ::
  "jwt_verifier \<Rightarrow> int \<Rightarrow> string \<Rightarrow> workload \<Rightarrow> string \<Rightarrow> string \<Rightarrow> database \<Rightarrow> error + device" where
  "service_get jwt now_ms token peer request_id device_id db =
     (case verify_internal jwt now_ms token peer ''devices:read'' request_id of
        Inl e \<Rightarrow> Inl e | Inr ident \<Rightarrow> get_device ident device_id db)"

definition service_add ::
  "jwt_verifier \<Rightarrow> (string \<Rightarrow> string) \<Rightarrow> (string \<Rightarrow> string) \<Rightarrow> int \<Rightarrow> int \<Rightarrow> string \<Rightarrow> string \<Rightarrow> workload \<Rightarrow> string \<Rightarrow> add_input
   \<Rightarrow> database \<Rightarrow> (error + device) \<times> database" where
  "service_add jwt nfkc sha256 now_ms now fresh token peer request_id inp db =
     (case verify_internal jwt now_ms token peer ''devices:create'' request_id of
        Inl e \<Rightarrow> (Inl e, db) | Inr ident \<Rightarrow> add_device nfkc sha256 now fresh ident inp db)"

definition service_control ::
  "jwt_verifier \<Rightarrow> int \<Rightarrow> int \<Rightarrow> string \<Rightarrow> workload \<Rightarrow> string \<Rightarrow> control_input \<Rightarrow> database \<Rightarrow> (error + device) \<times> database" where
  "service_control jwt now_ms now token peer request_id inp db =
     (case verify_internal jwt now_ms token peer ''devices:control'' request_id of
        Inl e \<Rightarrow> (Inl e, db) | Inr ident \<Rightarrow> control_device now ident inp db)"

section \<open>What they guarantee\<close>

text \<open>
  What is relied on of the signature: a compact JWT of internal claims made with a published key verifies to its claims
  until thirty seconds past its expiry. (Issuer, audience, type, algorithm and required claims are those the verifier is
  asked for.)
\<close>

definition jwt_law :: "env \<Rightarrow> signer \<Rightarrow> jwt_verifier \<Rightarrow> bool" where
  "jwt_law env sk jwt \<longleftrightarrow>
     (\<forall>now_ms now x rnd rq su signature.
        let claims = internal_claims env now x rnd rq su in
        sg_sign sk (utf8 (signing_input sk claims)) = Inr signature \<and> now_ms div 1000 < now + x + 30
        \<longrightarrow> jwt now_ms (compact_jwt sk claims signature) = Inr claims)"

lemma claim_fields [simp]:
  "jfield (internal_claims env now x rnd rq su) ''iss'' = JStr (en_auth_base env)"
  "jfield (internal_claims env now x rnd rq su) ''aud'' = JStr internal_audience"
  "jfield (internal_claims env now x rnd rq su) ''sub'' = JStr (su_account su)"
  "jfield (internal_claims env now x rnd rq su) ''iat'' = JInt now"
  "jfield (internal_claims env now x rnd rq su) ''exp'' = JInt (now + x)"
  "jfield (internal_claims env now x rnd rq su) ''jti'' = JStr (new_id ''tb'' rnd)"
  "jfield (internal_claims env now x rnd rq su) ''client_id'' = JStr (su_client su)"
  "jfield (internal_claims env now x rnd rq su) ''grant_id'' = JStr (su_grant su)"
  "jfield (internal_claims env now x rnd rq su) ''scope'' = JStr (xr_scope rq)"
  "jfield (internal_claims env now x rnd rq su) ''channel'' = JStr (channel_str (su_channel su))"
  "jfield (internal_claims env now x rnd rq su) ''auth_method'' = JStr (su_auth_method su)"
  "jfield (jfield (internal_claims env now x rnd rq su) ''act'') ''sub'' = JStr (workload_uri (xr_workload rq))"
  "jfield (internal_claims env now x rnd rq su) ''cnf'' = cnf_value (wl_cnf (xr_workload rq))"
  by (simp_all add: internal_claims_def)

lemma confirms_iff: "confirms (cnf_value c) d \<longleftrightarrow> c = d"
  by (cases c; cases d) (auto simp: confirms_def cnf_value_def)

lemma workload_uri_inj: "workload_uri v = workload_uri w \<longleftrightarrow> wl_name v = wl_name w"
  by (cases "wl_name v"; cases "wl_name w") (auto simp: workload_uri_def)

lemma workload_named_uri: "workload_named (workload_uri w) = Some (wl_name w)"
  by (cases "wl_name w") (auto simp: workload_named_def workload_uri_def)

lemma workload_eq: "wl_name v = wl_name w \<Longrightarrow> wl_cnf v = wl_cnf w \<Longrightarrow> (v :: workload) = w"
  by simp

text \<open>Which resource a workload may present tokens of.\<close>

fun workload_resource :: "env \<Rightarrow> workload_name \<Rightarrow> string" where
  "workload_resource env Mcp_rs = resource_uri env"
| "workload_resource env Api_gw = api_resource env"

fun workload_channel :: "workload_name \<Rightarrow> channel" where
  "workload_channel Mcp_rs = Ch_mcp"
| "workload_channel Api_gw = Ch_native"

lemma exchange_token_Inr:
  assumes "exchange_token env signers ck rnd rq s = (Inr x, s')"
  obtains sk sks su v signature where "signers = sk # sks"
    "fst (verify_access env ck (JStr (xr_subject rq)) [xr_scope rq]
        (if wl_name (xr_workload rq) = Mcp_rs then None else Some (api_resource env)) s) = Token_ok v"
    "su_account su = ve_account v" "su_client su = ve_client v" "su_grant su = ve_grant v"
    "su_channel su = workload_channel (wl_name (xr_workload rq))" "su_expires_in su = ve_expires_in v"
    "su_auth_method su = (if wl_name (xr_workload rq) = Api_gw \<and> truthy (ve_jkt v) \<noteq> None then ''oauth-dpop'' else ''oauth'')"
    "sg_sign sk (utf8 (signing_input sk (internal_claims env (ck_ms ck div 1000) (xd_expires_in x) rnd rq su))) = Inr signature"
    "xd_token x = compact_jwt sk (internal_claims env (ck_ms ck div 1000) (xd_expires_in x) rnd rq su) signature"
    "xd_expires_in x = min internal_ttl (ve_expires_in v)" "0 < xd_expires_in x" "xd_grant x = ve_grant v"
proof -
  obtain su s1 where su: "resolve_subject env ck rq s = (Inr su, s1)" "0 < min internal_ttl (su_expires_in su)"
    using assms by (auto simp: exchange_token_def Let_def split: prod.splits sum.splits if_splits)
  with assms obtain sk sks signature where k: "signers = sk # sks"
    "sg_sign sk (utf8 (signing_input sk (internal_claims env (ck_ms ck div 1000) (min internal_ttl (su_expires_in su)) rnd rq su)))
      = Inr signature"
    "x = \<lparr>xd_token = compact_jwt sk (internal_claims env (ck_ms ck div 1000) (min internal_ttl (su_expires_in su)) rnd rq su) signature,
          xd_expires_in = min internal_ttl (su_expires_in su), xd_grant = su_grant su\<rparr>"
    by (auto simp: exchange_token_def Let_def split: list.splits sum.splits if_splits)
  from su(1) obtain v where "fst (verify_access env ck (JStr (xr_subject rq)) [xr_scope rq]
        (if wl_name (xr_workload rq) = Mcp_rs then None else Some (api_resource env)) s) = Token_ok v"
    "su_account su = ve_account v" "su_client su = ve_client v" "su_grant su = ve_grant v"
    "su_channel su = workload_channel (wl_name (xr_workload rq))" "su_expires_in su = ve_expires_in v"
    "su_auth_method su = (if wl_name (xr_workload rq) = Api_gw \<and> truthy (ve_jkt v) \<noteq> None then ''oauth-dpop'' else ''oauth'')"
    by (cases "wl_name (xr_workload rq)") (auto simp: resolve_subject_def split: prod.splits verified_token.splits)
  with k su(2) show ?thesis by (intro that) simp_all
qed

lemma exchange_verifies:
  assumes "jwt_law env sk jwt" "exchange_token env (sk # sks) ck rnd rq s = (Inr x, s')"
    and "now_ms div 1000 < ck_ms ck div 1000 + xd_expires_in x + 30"
  shows "\<exists>v. fst (verify_access env ck (JStr (xr_subject rq)) [xr_scope rq]
        (if wl_name (xr_workload rq) = Mcp_rs then None else Some (api_resource env)) s) = Token_ok v
    \<and> (if peer = xr_workload rq \<and> required = xr_scope rq
       then verify_internal jwt now_ms (xd_token x) peer required request_id
         = Inr \<lparr>id_account = ve_account v, id_channel = workload_channel (wl_name peer), id_request = Some request_id,
                id_client = Some (ve_client v), id_grant = Some (ve_grant v), id_via = Some (workload_uri peer),
                id_auth_method = Some (if wl_name peer = Api_gw \<and> truthy (ve_jkt v) \<noteq> None then ''oauth-dpop'' else ''oauth'')\<rparr>
       else \<exists>m. verify_internal jwt now_ms (xd_token x) peer required request_id = Inl (InternalTokenRefused m))"
proof -
  obtain su v signature where v: "fst (verify_access env ck (JStr (xr_subject rq)) [xr_scope rq]
        (if wl_name (xr_workload rq) = Mcp_rs then None else Some (api_resource env)) s) = Token_ok v"
    and su: "su_account su = ve_account v" "su_client su = ve_client v" "su_grant su = ve_grant v"
    "su_channel su = workload_channel (wl_name (xr_workload rq))"
    "su_auth_method su = (if wl_name (xr_workload rq) = Api_gw \<and> truthy (ve_jkt v) \<noteq> None then ''oauth-dpop'' else ''oauth'')"
    and sg: "sg_sign sk (utf8 (signing_input sk (internal_claims env (ck_ms ck div 1000) (xd_expires_in x) rnd rq su))) = Inr signature"
    "xd_token x = compact_jwt sk (internal_claims env (ck_ms ck div 1000) (xd_expires_in x) rnd rq su) signature"
    using assms(2) by (rule exchange_token_Inr) auto
  let ?c = "internal_claims env (ck_ms ck div 1000) (xd_expires_in x) rnd rq su"
  have j: "jwt now_ms (xd_token x) = Inr ?c"
    using assms(1,3) sg unfolding jwt_law_def Let_def sg(2) by blast
  have w: "peer = xr_workload rq \<longleftrightarrow> wl_name peer = wl_name (xr_workload rq) \<and> wl_cnf peer = wl_cnf (xr_workload rq)"
    using workload_eq by blast
  have ch: "channel_str (workload_channel n) = (if n = Mcp_rs then ''mcp'' else ''native'')" for n
    by (cases n) simp_all
  have ch2: "workload_channel n = (if n = Mcp_rs then Ch_mcp else Ch_native)" for n
    by (cases n) simp_all
  show ?thesis
    using v unfolding w
    by (auto simp: verify_internal_def j su confirms_iff workload_uri_inj ch ch2)
qed

text \<open>C17. An internal token says who, for what and to whom, and nothing more. A token made by the exchange is accepted by the
  Device Service, until thirty seconds past its expiry, exactly from the workload it was made for and for the one scope
  it was asked for; the identity it then gives is the account, client and grant of the verified credential, and the
  channel of the workload. Presented by any other workload or for any other scope it is refused.\<close>

theorem exchange_roundtrip:
  assumes "jwt_law env sk jwt" "exchange_token env (sk # sks) ck rnd rq s = (Inr x, s')"
    and "now_ms div 1000 < ck_ms ck div 1000 + xd_expires_in x + 30"
  shows "\<exists>v. fst (verify_access env ck (JStr (xr_subject rq)) [xr_scope rq]
        (if wl_name (xr_workload rq) = Mcp_rs then None else Some (api_resource env)) s) = Token_ok v
    \<and> (if peer = xr_workload rq \<and> required = xr_scope rq
       then verify_internal jwt now_ms (xd_token x) peer required request_id
         = Inr \<lparr>id_account = ve_account v, id_channel = workload_channel (wl_name peer), id_request = Some request_id,
                id_client = Some (ve_client v), id_grant = Some (ve_grant v), id_via = Some (workload_uri peer),
                id_auth_method = Some (if wl_name peer = Api_gw \<and> truthy (ve_jkt v) \<noteq> None then ''oauth-dpop'' else ''oauth'')\<rparr>
       else \<exists>m. verify_internal jwt now_ms (xd_token x) peer required request_id = Inl (InternalTokenRefused m))"
  using assms by (rule exchange_verifies)

definition demo_signer :: signer where
  "demo_signer = \<lparr>sg_kid = ''k'', sg_sign = (\<lambda>m. Inr ''sig'')\<rparr>"

definition demo_workload :: workload where
  "demo_workload = create_workload demo_env ''w'' Mcp_rs"

definition demo_exchange_request :: exchange_request where
  "demo_exchange_request = \<lparr>xr_workload = demo_workload, xr_subject = mint Access demo_rnd, xr_scope = ''devices:read''\<rparr>"

lemma demo_exchange_token:
  "\<exists>x s'. exchange_token demo_env [demo_signer] demo_clocks ''r'' demo_exchange_request ([], demo_grants) = (Inr x, s')
     \<and> xd_expires_in x = 60"
proof -
  obtain touched' db' where "verify_access demo_env demo_clocks (JStr (mint Access demo_rnd)) [''devices:read''] None ([], demo_grants)
     = (Token_ok \<lparr>ve_account = ''ann'', ve_client = ''app'', ve_grant = gr_id demo_grant_row,
          ve_scopes = [''devices:read'', ''devices:control''], ve_expires_in = 3600, ve_jkt = None\<rparr>, touched', db')"
    using demo_verified by blast
  then show ?thesis
    by (simp add: exchange_token_def resolve_subject_def demo_exchange_request_def demo_workload_def create_workload_def
        demo_signer_def Let_def)
qed

text \<open>An internal token is short-lived: between one second and a minute, and when the clocks of the process and of the
  database agree it ends no more than half a second after the credential it was made from.\<close>

theorem internal_token_lifetime:
  assumes "exchange_token env signers ck rnd rq (touched, db) = (Inr x, s')" "ck_ms ck * 1000 \<le> ck_db ck"
  shows "1 \<le> xd_expires_in x \<and> xd_expires_in x \<le> internal_ttl
    \<and> (\<exists>a \<in> set (t_access db). at_hash a \<in> set (digests env (xr_subject rq))
        \<and> secs (ck_ms ck div 1000 + xd_expires_in x) \<le> at_expires_at a + 500000)"
proof -
  obtain v where v: "fst (verify_access env ck (JStr (xr_subject rq)) [xr_scope rq]
        (if wl_name (xr_workload rq) = Mcp_rs then None else Some (api_resource env)) (touched, db)) = Token_ok v"
    "xd_expires_in x = min internal_ttl (ve_expires_in v)" "0 < xd_expires_in x"
    using assms(1) by (rule exchange_token_Inr)
  obtain a g where a: "access_join env (ck_db ck) (xr_subject rq) db = Some (a, g)" "v = verified_of (ck_db ck) a g"
    using v(1) unfolding verify_access_ok by auto
  note j = access_join_Some [OF a(1)]
  have "secs (ve_expires_in v) \<le> at_expires_at a - ck_db ck + 500000"
    using epoch_int_bounds [of "at_expires_at a - ck_db ck"] j v(2,3) a(2)
    by (simp add: verified_of_def max_def split: if_splits)
  moreover have "secs (ck_ms ck div 1000) \<le> ck_db ck"
    using assms(2) by (simp add: secs_def)
  moreover have "secs (xd_expires_in x) \<le> secs (ve_expires_in v)" using v(2) by (simp add: secs_def)
  ultimately have "secs (ck_ms ck div 1000 + xd_expires_in x) \<le> at_expires_at a + 500000"
    by (simp add: secs_def algebra_simps)
  with v(2,3) j show ?thesis by auto
qed

theorem internal_token_lifetime_witness:
  "\<exists>x s'. exchange_token demo_env [demo_signer] (demo_clocks\<lparr>ck_ms := 0\<rparr>) ''r'' demo_exchange_request ([], demo_grants) = (Inr x, s')
     \<and> 1 \<le> xd_expires_in x \<and> xd_expires_in x \<le> 60"
proof -
  have "fst (verify_access demo_env (demo_clocks\<lparr>ck_ms := 0\<rparr>) (JStr (mint Access demo_rnd)) [''devices:read''] None ([], demo_grants))
      = fst (verify_access demo_env demo_clocks (JStr (mint Access demo_rnd)) [''devices:read''] None ([], demo_grants))"
    by (simp add: verify_access_def demo_clocks_def Let_def split: option.splits prod.splits bool.splits)
  then obtain s1 where "verify_access demo_env (demo_clocks\<lparr>ck_ms := 0\<rparr>) (JStr (mint Access demo_rnd)) [''devices:read''] None ([], demo_grants)
     = (Token_ok \<lparr>ve_account = ''ann'', ve_client = ''app'', ve_grant = gr_id demo_grant_row,
          ve_scopes = [''devices:read'', ''devices:control''], ve_expires_in = 3600, ve_jkt = None\<rparr>, s1)"
    using demo_verified by (metis fst_conv prod.collapse)
  then obtain x s' where x: "exchange_token demo_env [demo_signer] (demo_clocks\<lparr>ck_ms := 0\<rparr>) ''r'' demo_exchange_request ([], demo_grants) = (Inr x, s')"
    by (simp add: exchange_token_def resolve_subject_def demo_exchange_request_def demo_workload_def create_workload_def
        demo_signer_def Let_def)
  from internal_token_lifetime [OF this] x show ?thesis by (simp add: demo_clocks_def)
qed

text \<open>Rounding can make it outlive the credential: six tenths of a second before the end, one second is left.\<close>

lemma internal_token_outlives:
  "secs (3600 + min internal_ttl (max 0 (epoch_int (secs 3600 + 600000 - secs 3600)))) = secs 3600 + 600000 + 400000"
  by (simp add: epoch_int_def secs_def)

text \<open>The law can hold: the text of internal claims determines them.\<close>

lemma channel_str_inj: "channel_str a = channel_str b \<longleftrightarrow> a = b"
  by (cases a; cases b) auto

lemma internal_claims_inj:
  assumes "json (internal_claims env n x r q u) = json (internal_claims env n' x' r' q' u')"
  shows "internal_claims env n x r q u = internal_claims env n' x' r' q' u'"
  using assms
  by (auto simp: internal_claims_def cnf_value_def split: prod.splits)

definition demo_claims :: jsval where
  "demo_claims = internal_claims demo_env 0 60 ''r'' demo_exchange_request
     \<lparr>su_account = ''ann'', su_client = ''app'', su_grant = gr_id demo_grant_row, su_channel = Ch_mcp,
      su_auth_method = ''oauth'', su_expires_in = 3600\<rparr>"

definition demo_one_signer :: signer where
  "demo_one_signer = \<lparr>sg_kid = ''k'',
     sg_sign = (\<lambda>m. if m = utf8 (signing_input demo_signer demo_claims) then Inr ''sig'' else Inl (OtherError ''unavailable''))\<rparr>"

definition demo_jwt :: jwt_verifier where
  "demo_jwt now_ms t = (if t = compact_jwt demo_one_signer demo_claims ''sig'' then Inr demo_claims else Inl ''signature verification failed'')"

lemma demo_signing_input: "signing_input demo_one_signer c = signing_input demo_signer c"
  by (simp add: signing_input_def token_header_def demo_one_signer_def demo_signer_def)

lemma signing_input_inj: "signing_input sk c = signing_input sk d \<Longrightarrow> json c = json d"
  by (auto simp: signing_input_def b64url_json_def dest!: base64url_inj utf8_inj)

lemma demo_jwt_law: "jwt_law demo_env demo_one_signer demo_jwt"
  unfolding jwt_law_def Let_def
proof (intro allI impI, elim conjE)
  fix now_ms now x rnd rq su signature
  let ?c = "internal_claims demo_env now x rnd rq su"
  assume "sg_sign demo_one_signer (utf8 (signing_input demo_one_signer ?c)) = Inr signature"
  then have "utf8 (signing_input demo_signer ?c) = utf8 (signing_input demo_signer demo_claims)" "signature = ''sig''"
    by (simp_all add: demo_one_signer_def demo_signing_input [unfolded demo_one_signer_def] split: if_splits)
  then have "?c = demo_claims" "signature = ''sig''"
    by (auto simp: demo_claims_def dest!: utf8_inj signing_input_inj intro: internal_claims_inj)
  then show "demo_jwt now_ms (compact_jwt demo_one_signer ?c signature) = Inr ?c" by (simp add: demo_jwt_def)
qed

theorem exchange_roundtrip_witness:
  "\<exists>x s' ident. exchange_token demo_env [demo_one_signer] demo_clocks ''r'' demo_exchange_request ([], demo_grants) = (Inr x, s')
     \<and> verify_internal demo_jwt 9 (xd_token x) demo_workload ''devices:read'' ''q'' = Inr ident \<and> id_account ident = ''ann''"
proof -
  let ?v = "\<lparr>ve_account = ''ann'', ve_client = ''app'', ve_grant = gr_id demo_grant_row,
          ve_scopes = [''devices:read'', ''devices:control''], ve_expires_in = 3600, ve_jkt = None\<rparr>"
  obtain touched' db' where v: "verify_access demo_env demo_clocks (JStr (mint Access demo_rnd)) [''devices:read''] None ([], demo_grants)
     = (Token_ok ?v, touched', db')"
    using demo_verified by blast
  have "sg_sign demo_one_signer (utf8 (signing_input demo_one_signer demo_claims)) = Inr ''sig''"
    by (simp add: demo_one_signer_def demo_signing_input [unfolded demo_one_signer_def])
  with v obtain x s' where x: "exchange_token demo_env [demo_one_signer] demo_clocks ''r'' demo_exchange_request ([], demo_grants) = (Inr x, s')"
    "xd_expires_in x = 60"
    by (simp add: exchange_token_def resolve_subject_def demo_exchange_request_def demo_workload_def create_workload_def
        demo_claims_def demo_clocks_def Let_def)
  have m: "wl_name (xr_workload demo_exchange_request) = Mcp_rs" "xr_subject demo_exchange_request = mint Access demo_rnd"
    "xr_scope demo_exchange_request = ''devices:read''" "xr_workload demo_exchange_request = demo_workload"
    "wl_name demo_workload = Mcp_rs"
    by (simp_all add: demo_exchange_request_def demo_workload_def create_workload_def)
  from exchange_roundtrip [OF demo_jwt_law x(1), of 9 demo_workload "''devices:read''" "''q''"] x v
  show ?thesis by (simp add: m demo_clocks_def)
qed

end
