(* ===== verification/Exchange_Client.thy ===== *)
theory Exchange_Client
  imports Internal_Tokens Stores
begin

text \<open>
  \<open>server/src/revocation.ts\<close> and \<open>server/src/exchange-client.ts\<close>: the process's revocation hub, and how an edge adapter
  obtains internal tokens: it exchanges once, reuses while more than ten seconds are left, and forgets what is revoked.
  The state is the cache with whatever the exchange and the call change. An exchange takes a draw (its clocks and random
  bytes); the process clock is read before the lookup and after the exchange. Metrics and log lines are left out.
\<close>

section \<open>The hub\<close>

datatype revocation_event =
    Grant_revoked string
  | Account_revoked string
  | Client_blocked string

text \<open>Listeners have an identity, as functions have in a \<open>Set\<close>; a listener that throws leaves the state as it was.\<close>

type_synonym 's listener = "revocation_event \<Rightarrow> 's \<Rightarrow> error + 's"
type_synonym 's hub = "(nat \<times> 's listener) list"

definition subscribe :: "nat \<Rightarrow> 's listener \<Rightarrow> 's hub \<Rightarrow> 's hub" where
  "subscribe i l h = (if i \<in> fst ` set h then h else h @ [(i, l)])"

definition unsubscribe :: "nat \<Rightarrow> 's hub \<Rightarrow> 's hub" where
  "unsubscribe i h = filter (\<lambda>(j, l). j \<noteq> i) h"

definition publish :: "revocation_event \<Rightarrow> 's hub \<Rightarrow> 's \<Rightarrow> 's" where
  "publish e h s = fold (\<lambda>(i, l) s. case l e s of Inl err \<Rightarrow> s | Inr s' \<Rightarrow> s') h s"

definition grant_revoked :: "string \<Rightarrow> 's hub \<Rightarrow> 's \<Rightarrow> 's" where
  "grant_revoked grant h s = publish (Grant_revoked grant) h s"

definition account_revoked :: "string \<Rightarrow> 's hub \<Rightarrow> 's \<Rightarrow> 's" where
  "account_revoked account h s = publish (Account_revoked account) h s"

section \<open>Callers\<close>

record verified_caller =
  vc_account :: string
  vc_client :: string
  vc_grant :: string
  vc_channel :: channel
  vc_scopes :: "string list"
  vc_request :: string
  vc_credential :: string

datatype caller = Anonymous_caller string | Verified_caller verified_caller

section \<open>The cache\<close>

abbreviation reuse_margin_ms :: int where "reuse_margin_ms \<equiv> 10000"

record cache_entry =
  ce_token :: string
  ce_expires_at :: int
  ce_grant :: string
  ce_account :: string
  ce_client :: string

type_synonym token_cache = "(string \<times> cache_entry) list"

fun revokes :: "revocation_event \<Rightarrow> cache_entry \<Rightarrow> bool" where
  "revokes (Grant_revoked g) e \<longleftrightarrow> ce_grant e = g"
| "revokes (Account_revoked a) e \<longleftrightarrow> ce_account e = a"
| "revokes (Client_blocked c) e \<longleftrightarrow> ce_client e = c"

definition cache_key :: "string \<Rightarrow> string \<Rightarrow> string" where
  "cache_key grant scope = grant @ CHR 0x00 # scope"

text \<open>The listener of the constructor.\<close>

definition on_revocation :: "revocation_event \<Rightarrow> token_cache \<Rightarrow> token_cache" where
  "on_revocation e cache = sweep (revokes e) cache"

definition cached_token :: "int \<Rightarrow> verified_caller \<Rightarrow> string \<Rightarrow> token_cache \<Rightarrow> string option" where
  "cached_token now c scope cache =
     (case map_of cache (cache_key (vc_grant c) scope) of
        None \<Rightarrow> None
      | Some e \<Rightarrow> if reuse_margin_ms < ce_expires_at e - now then Some (ce_token e) else None)"

definition remember_token :: "int \<Rightarrow> verified_caller \<Rightarrow> string \<Rightarrow> string \<Rightarrow> int \<Rightarrow> token_cache \<Rightarrow> token_cache" where
  "remember_token now c scope token expires_in cache =
     AList.update (cache_key (vc_grant c) scope)
       \<lparr>ce_token = token, ce_expires_at = now + expires_in * 1000, ce_grant = vc_grant c, ce_account = vc_account c,
        ce_client = vc_client c\<rparr> cache"

type_synonym ('x, 's) exchanger = "'x \<Rightarrow> string \<Rightarrow> string \<Rightarrow> 's \<Rightarrow> (error + string \<times> int) \<times> 's"

text \<open>One attempt: its draw, and the clock before the lookup and after the exchange.\<close>

record 'x attempt =
  tr_draw :: 'x
  tr_lookup :: int
  tr_store :: int

definition token_for ::
  "('x, 's) exchanger \<Rightarrow> 'x attempt \<Rightarrow> verified_caller \<Rightarrow> string \<Rightarrow> token_cache \<times> 's \<Rightarrow> (error + string) \<times> token_cache \<times> 's" where
  "token_for ex tr c scope st =
     (let (cache, s) = st in
      case cached_token (tr_lookup tr) c scope cache of
        Some t \<Rightarrow> (Inr t, cache, s)
      | None \<Rightarrow>
          (case ex (tr_draw tr) (vc_credential c) scope s of
             (Inl e, s') \<Rightarrow> (Inl e, cache, s')
           | (Inr (t, expires_in), s') \<Rightarrow> (Inr t, remember_token (tr_store tr) c scope t expires_in cache, s')))"

definition forget :: "verified_caller \<Rightarrow> string \<Rightarrow> token_cache \<Rightarrow> token_cache" where
  "forget c scope cache = AList.delete (cache_key (vc_grant c) scope) cache"

type_synonym ('a, 's) device_call = "string \<Rightarrow> workload \<Rightarrow> 's \<Rightarrow> (error + 'a) \<times> 's"

definition try_call ::
  "('x, 's) exchanger \<Rightarrow> workload \<Rightarrow> 'x attempt \<Rightarrow> verified_caller \<Rightarrow> string \<Rightarrow> ('a, 's) device_call
   \<Rightarrow> token_cache \<times> 's \<Rightarrow> (error + 'a) \<times> token_cache \<times> 's" where
  "try_call ex w tr c scope call st =
     (case token_for ex tr c scope st of
        (Inl e, st') \<Rightarrow> (Inl e, st')
      | (Inr t, cache, s) \<Rightarrow> (case call t w s of (r, s') \<Rightarrow> (r, cache, s')))"

text \<open>\<open>run\<close>: one retry with a fresh token after a refusal; a second refusal is a fault of the server.\<close>

definition run_call ::
  "('x, 's) exchanger \<Rightarrow> workload \<Rightarrow> 'x attempt \<Rightarrow> 'x attempt \<Rightarrow> verified_caller \<Rightarrow> string \<Rightarrow> ('a, 's) device_call
   \<Rightarrow> token_cache \<times> 's \<Rightarrow> (error + 'a) \<times> token_cache \<times> 's" where
  "run_call ex w tr tr' c scope call st =
     (case try_call ex w tr c scope call st of
        (Inl (InternalTokenRefused m), cache, s) \<Rightarrow>
          (case try_call ex w tr' c scope call (forget c scope cache, s) of
             (Inl (InternalTokenRefused m'), st') \<Rightarrow> (Inl (app_err INTERNAL_ERROR), st')
           | r \<Rightarrow> r)
      | r \<Rightarrow> r)"

section \<open>What the cache holds\<close>

text \<open>
  \<open>minted credential scope token\<close>: the token was made from that credential for that scope. A cached token was made from a
  credential of a caller of its grant, for its scope. An identifier of a grant has no null character, so the key of an
  entry determines both.
\<close>

definition plain_grant :: "verified_caller \<Rightarrow> bool" where
  "plain_grant c \<longleftrightarrow> CHR 0x00 \<notin> set (vc_grant c)"

definition entry_ok :: "(string \<Rightarrow> string \<Rightarrow> string \<Rightarrow> bool) \<Rightarrow> string \<Rightarrow> cache_entry \<Rightarrow> bool" where
  "entry_ok minted k e \<longleftrightarrow> (\<exists>(c :: verified_caller) scope. plain_grant c \<and> k = cache_key (vc_grant c) scope \<and> ce_grant e = vc_grant c
     \<and> ce_account e = vc_account c \<and> ce_client e = vc_client c \<and> minted (vc_credential c) scope (ce_token e))"

definition cache_ok :: "(string \<Rightarrow> string \<Rightarrow> string \<Rightarrow> bool) \<Rightarrow> token_cache \<Rightarrow> bool" where
  "cache_ok minted cache \<longleftrightarrow> distinct_keys cache \<and> (\<forall>k e. map_of cache k = Some e \<longrightarrow> entry_ok minted k e)"

lemma cache_key_eq:
  "CHR 0x00 \<notin> set g \<Longrightarrow> CHR 0x00 \<notin> set g' \<Longrightarrow> cache_key g sc = cache_key g' sc' \<longleftrightarrow> g = g' \<and> sc = sc'"
proof -
  assume "CHR 0x00 \<notin> set g" "CHR 0x00 \<notin> set g'"
  then have "takeWhile (\<lambda>z. z \<noteq> CHR 0x00) (cache_key g sc) = g" "takeWhile (\<lambda>z. z \<noteq> CHR 0x00) (cache_key g' sc') = g'"
    unfolding cache_key_def by (subst takeWhile_append2; auto)+
  then have "cache_key g sc = cache_key g' sc' \<Longrightarrow> g = g'" by metis
  then show ?thesis by (auto simp: cache_key_def)
qed

lemma cache_ok_empty [simp]: "cache_ok minted []"
  by (simp add: cache_ok_def distinct_keys_def)

lemma cache_ok_revocation: "cache_ok minted cache \<Longrightarrow> cache_ok minted (on_revocation e cache)"
  by (auto simp: cache_ok_def on_revocation_def map_of_sweep_keys split: option.splits if_splits)

lemma cache_ok_forget: "cache_ok minted cache \<Longrightarrow> cache_ok minted (forget c scope cache)"
  by (auto simp: cache_ok_def forget_def delete_conv split: if_splits)

lemma cache_ok_remember:
  "cache_ok minted cache \<Longrightarrow> plain_grant c \<Longrightarrow> minted (vc_credential c) scope t \<Longrightarrow>
   cache_ok minted (remember_token now c scope t x cache)"
  by (auto simp: cache_ok_def remember_token_def update_conv entry_ok_def split: if_splits)

text \<open>The tokens a caller may present for a scope.\<close>

definition own_token :: "(string \<Rightarrow> string \<Rightarrow> string \<Rightarrow> bool) \<Rightarrow> verified_caller \<Rightarrow> string \<Rightarrow> string \<Rightarrow> bool" where
  "own_token minted c scope t \<longleftrightarrow> (\<exists>c' :: verified_caller. vc_grant c' = vc_grant c \<and> minted (vc_credential c') scope t)"

lemma cached_token_own:
  "cache_ok minted cache \<Longrightarrow> plain_grant c \<Longrightarrow> cached_token now c scope cache = Some t \<Longrightarrow> own_token minted c scope t"
  by (auto simp: cached_token_def cache_ok_def entry_ok_def own_token_def plain_grant_def cache_key_eq
      split: option.splits if_splits) (metis cache_key_eq)

lemma cached_token_fresh:
  "cached_token now c scope cache = Some t \<Longrightarrow>
   \<exists>e. map_of cache (cache_key (vc_grant c) scope) = Some e \<and> ce_token e = t \<and> now + reuse_margin_ms < ce_expires_at e"
  by (auto simp: cached_token_def split: option.splits if_splits)

section \<open>The exchange a client relies on\<close>

locale exchange_provider =
  fixes ex :: "('x, 's) exchanger" and minted :: "string \<Rightarrow> string \<Rightarrow> string \<Rightarrow> bool"
  assumes ex_minted: "ex x cred scope s = (Inr (t, n), s') \<Longrightarrow> minted cred scope t"
begin

lemma token_for_ok:
  assumes "cache_ok minted (fst st)" "plain_grant c" "token_for ex tr c scope st = (r, cache, s)"
  shows "cache_ok minted cache \<and> (\<forall>t. r = Inr t \<longrightarrow> own_token minted c scope t)"
proof (cases "cached_token (tr_lookup tr) c scope (fst st)")
  case (Some t)
  with assms show ?thesis by (auto simp: token_for_def cached_token_own split: prod.splits)
next
  case None
  obtain q s' where q: "ex (tr_draw tr) (vc_credential c) scope (snd st) = (q, s')" by fastforce
  show ?thesis
  proof (cases q)
    case (Inl e)
    with None q assms show ?thesis by (auto simp: token_for_def split: prod.splits)
  next
    case (Inr tx)
    then have "minted (vc_credential c) scope (fst tx)" using ex_minted q by (metis prod.collapse)
    with None q assms Inr show ?thesis
      by (auto simp: token_for_def own_token_def intro!: cache_ok_remember split: prod.splits)
  qed
qed

lemma try_call_cong:
  assumes "cache_ok minted (fst st)" "plain_grant c" "\<And>t s. own_token minted c scope t \<Longrightarrow> call t w s = call' t w s"
  shows "try_call ex w tr c scope call st = try_call ex w tr c scope call' st
    \<and> cache_ok minted (fst (snd (try_call ex w tr c scope call st)))"
proof -
  obtain r cache s where t: "token_for ex tr c scope st = (r, cache, s)" by (metis prod.collapse)
  from token_for_ok [OF assms(1,2) t] assms(3) show ?thesis
    by (auto simp: try_call_def t split: sum.splits prod.splits)
qed

lemma run_call_cong:
  assumes "cache_ok minted (fst st)" "plain_grant c" "\<And>t s. own_token minted c scope t \<Longrightarrow> call t w s = call' t w s"
  shows "run_call ex w tr tr' c scope call st = run_call ex w tr tr' c scope call' st
    \<and> cache_ok minted (fst (snd (run_call ex w tr tr' c scope call st)))"
proof -
  note one = try_call_cong [OF assms(1,2), of scope call w call' tr, OF assms(3)]
  obtain r cache s where t: "try_call ex w tr c scope call' st = (r, cache, s)" by (metis prod.collapse)
  have ok: "cache_ok minted cache" using one t by (metis fst_conv snd_conv)
  have two: "try_call ex w tr' c scope call (forget c scope cache, s) = try_call ex w tr' c scope call' (forget c scope cache, s)
    \<and> cache_ok minted (fst (snd (try_call ex w tr' c scope call (forget c scope cache, s))))"
    by (rule try_call_cong) (simp_all add: cache_ok_forget [OF ok] assms(2,3))
  show ?thesis
    using one two ok by (auto simp: run_call_def t split: sum.splits error.splits prod.splits)
qed

end

lemma run_call_never_refused: "fst (run_call ex w tr tr' c scope call st) \<noteq> Inl (InternalTokenRefused m)"
  by (auto simp: run_call_def split: sum.splits error.splits prod.splits)

section \<open>The exchange of one process\<close>

text \<open>\<open>ExchangeClient.local\<close>.\<close>

definition local_exchanger ::
  "env \<Rightarrow> signer list \<Rightarrow> workload \<Rightarrow> (clocks \<times> string, touched \<times> database) exchanger" where
  "local_exchanger env signers w x cred scope s =
     (case exchange_token env signers (fst x) (snd x) \<lparr>xr_workload = w, xr_subject = cred, xr_scope = scope\<rparr> s of
        (Inl e, s') \<Rightarrow> (Inl e, s')
      | (Inr d, s') \<Rightarrow> (Inr (xd_token d, xd_expires_in d), s'))"

text \<open>A token signed by one of the keys, with the claims of an exchange of that credential.\<close>

definition minted_by :: "env \<Rightarrow> signer list \<Rightarrow> workload \<Rightarrow> string \<Rightarrow> string \<Rightarrow> string \<Rightarrow> bool" where
  "minted_by env signers w cred scope t \<longleftrightarrow>
     (\<exists>sk \<in> set signers. \<exists>now x rnd su signature.
        let claims = internal_claims env now x rnd \<lparr>xr_workload = w, xr_subject = cred, xr_scope = scope\<rparr> su in
        sg_sign sk (utf8 (signing_input sk claims)) = Inr signature \<and> t = compact_jwt sk claims signature)"

interpretation local_exchange: exchange_provider "local_exchanger env signers w" "minted_by env signers w"
proof
  fix x cred scope s t n s'
  assume "local_exchanger env signers w x cred scope s = (Inr (t, n), s')"
  then obtain d where d: "exchange_token env signers (fst x) (snd x) \<lparr>xr_workload = w, xr_subject = cred, xr_scope = scope\<rparr> s = (Inr d, s')"
    "t = xd_token d" by (auto simp: local_exchanger_def split: prod.splits sum.splits)
  from d(1) obtain sk sks su signature where k: "signers = sk # sks"
    "sg_sign sk (utf8 (signing_input sk (internal_claims env (ck_ms (fst x) div 1000) (xd_expires_in d) (snd x)
        \<lparr>xr_workload = w, xr_subject = cred, xr_scope = scope\<rparr> su))) = Inr signature"
    "t = compact_jwt sk (internal_claims env (ck_ms (fst x) div 1000) (xd_expires_in d) (snd x)
        \<lparr>xr_workload = w, xr_subject = cred, xr_scope = scope\<rparr> su) signature"
    unfolding d(2) by (rule exchange_token_Inr)
  then have "sk \<in> set signers" by simp
  with k(2,3) show "minted_by env signers w cred scope t" unfolding minted_by_def Let_def by blast
qed

section \<open>Properties\<close>

text \<open>An adapter presents a person only their own tokens. Whatever is in the cache of an exchange client after any calls
  and revocations, a run for a caller and a scope passes to the Device Service only tokens that were made for that very
  scope from a credential of a caller of the same grant: it behaves the same for any two services that agree on those.
  The cache keeps what makes this so.\<close>

theorem run_presents_own_tokens:
  assumes "cache_ok (minted_by env signers w) cache" "CHR 0x00 \<notin> set (vc_grant c)"
    and "\<And>t s. own_token (minted_by env signers w) c scope t \<Longrightarrow> call t w s = call' t w s"
  shows "run_call (local_exchanger env signers w) w tr tr' c scope call (cache, s)
      = run_call (local_exchanger env signers w) w tr tr' c scope call' (cache, s)
    \<and> cache_ok (minted_by env signers w)
        (on_revocation e (fst (snd (run_call (local_exchanger env signers w) w tr tr' c scope call (cache, s)))))"
proof -
  have "plain_grant c" using assms(2) by (simp add: plain_grant_def)
  with local_exchange.run_call_cong [where st = "(cache, s)" and call = call and call' = call' and tr = tr and tr' = tr',
      of env signers w c scope w] assms(1,3)
  show ?thesis by (auto intro: cache_ok_revocation)
qed

text \<open>A refused internal token never surfaces: a run ends with an answer, with an error of the exchange or of the call,
  or, after a second refusal, with INTERNAL_ERROR; and where the first call is not refused it is the only one.\<close>

theorem run_hides_refusals:
  "fst (run_call ex w tr tr' c scope call st) \<noteq> Inl (InternalTokenRefused m)
   \<and> ((\<forall>m'. fst (try_call ex w tr c scope call st) \<noteq> Inl (InternalTokenRefused m')) \<longrightarrow>
        run_call ex w tr tr' c scope call st = try_call ex w tr c scope call st)"
proof -
  have "(\<forall>m'. fst (try_call ex w tr c scope call st) \<noteq> Inl (InternalTokenRefused m')) \<longrightarrow>
        run_call ex w tr tr' c scope call st = try_call ex w tr c scope call st"
    by (cases "try_call ex w tr c scope call st") (auto simp: run_call_def split: sum.splits error.splits)
  with run_call_never_refused show ?thesis by blast
qed

text \<open>Revocation empties the cache of what it ends. After a revocation event no caller it concerns (by its grant, its
  account or its client) is given a cached token, and every entry that it does not concern is as before. A token that is
  reused has more than ten seconds left.\<close>

theorem revocation_empties_cache:
  assumes "cache_ok minted cache" "plain_grant c"
  shows "cached_token now c scope (on_revocation (Grant_revoked (vc_grant c)) cache) = None
    \<and> (\<forall>e k. (case map_of cache k of None \<Rightarrow> map_of (on_revocation e cache) k = None
        | Some entry \<Rightarrow> map_of (on_revocation e cache) k = (if revokes e entry then None else Some entry)))
    \<and> (\<forall>t. cached_token now c scope cache = Some t \<longrightarrow>
        (\<exists>entry. map_of cache (cache_key (vc_grant c) scope) = Some entry \<and> ce_token entry = t \<and> now + 10000 < ce_expires_at entry))"
proof -
  have d: "distinct_keys cache" using assms(1) by (simp add: cache_ok_def)
  have "ce_grant entry = vc_grant c" if "map_of cache (cache_key (vc_grant c) scope) = Some entry" for entry
    using assms that unfolding cache_ok_def entry_ok_def plain_grant_def by (metis cache_key_eq)
  then have "cached_token now c scope (on_revocation (Grant_revoked (vc_grant c)) cache) = None"
    by (auto simp: cached_token_def on_revocation_def map_of_sweep_keys [OF d] split: option.splits)
  moreover have "\<forall>e k. (case map_of cache k of None \<Rightarrow> map_of (on_revocation e cache) k = None
        | Some entry \<Rightarrow> map_of (on_revocation e cache) k = (if revokes e entry then None else Some entry))"
    by (auto simp: on_revocation_def map_of_sweep_keys [OF d] split: option.splits)
  ultimately show ?thesis using cached_token_fresh by blast
qed

text \<open>
  The comment of \<open>revocation.ts\<close> says that no internal token minted for a revoked grant survives. One does when the
  event arrives while the exchange is still under way: the entry is stored after the event has swept the cache.
\<close>

lemma revocation_races_exchange:
  "10 < x \<Longrightarrow> cached_token now c scope
     (remember_token now c scope t x (on_revocation (Grant_revoked (vc_grant c)) cache)) = Some t"
  by (simp add: cached_token_def remember_token_def update_conv)

definition demo_caller :: verified_caller where
  "demo_caller = \<lparr>vc_account = ''ann'', vc_client = ''app'', vc_grant = ''g1'', vc_channel = Ch_mcp,
     vc_scopes = [''devices:read''], vc_request = ''q'', vc_credential = mint Access demo_rnd\<rparr>"

definition demo_attempt :: "(clocks \<times> string) attempt" where
  "demo_attempt = \<lparr>tr_draw = (demo_clocks, ''r''), tr_lookup = 5, tr_store = 5\<rparr>"

theorem run_presents_own_tokens_witness:
  "cache_ok (minted_by demo_env [demo_signer] demo_workload) (on_revocation (Grant_revoked ''g2'')
     (fst (snd (run_call (local_exchanger demo_env [demo_signer] demo_workload) demo_workload demo_attempt demo_attempt
        demo_caller ''devices:read'' (\<lambda>t w s. (Inr (), s)) ([], ([], demo_grants))))))"
  using run_presents_own_tokens [of demo_env "[demo_signer]" demo_workload "[]" demo_caller "''devices:read''"
      "\<lambda>t w s. (Inr (), s)" "\<lambda>t w s. (Inr (), s)" demo_attempt demo_attempt "([], demo_grants)" "Grant_revoked ''g2''"]
  by (simp add: demo_caller_def)

theorem revocation_empties_cache_witness:
  "cached_token 0 demo_caller ''devices:read'' (on_revocation (Grant_revoked ''g1'')
     (remember_token 0 demo_caller ''devices:read'' ''t'' 60 [])) = None"
proof -
  have "cache_ok (\<lambda>c s t. t = ''t'') (remember_token 0 demo_caller ''devices:read'' ''t'' 60 [])"
    by (rule cache_ok_remember) (simp_all add: plain_grant_def demo_caller_def)
  from revocation_empties_cache [OF this, of demo_caller 0 "''devices:read''"] show ?thesis
    by (simp add: plain_grant_def demo_caller_def)
qed

end
