(* ===== verification/Wire.thy ===== *)
theory Wire
  imports Exchange_Client
begin

text \<open>
  How values go over the wire: dates as \<open>toISOString\<close> writes them, devices and accounts as the JSON objects of
  \<open>server/src/domain/types.ts\<close>, and the interface \<open>DeviceService\<close> of \<open>server/src/device-service/service.ts\<close> that the two
  edge adapters call, with its implementation in one process.
\<close>

section \<open>Dates\<close>

text \<open>The civil date of a day number (days since 1970-01-01), by eras of 400 years that start on the first of March.\<close>

definition civil_of_days :: "int \<Rightarrow> int \<times> int \<times> int" where
  "civil_of_days d =
     (let z = d + 719468; era = z div 146097; doe = z mod 146097;
          yoe = (doe - doe div 1460 + doe div 36524 - doe div 146096) div 365;
          doy = doe - (365 * yoe + yoe div 4 - yoe div 100);
          mp = (5 * doy + 2) div 153;
          m = (if mp < 10 then mp + 3 else mp - 9)
      in (yoe + era * 400 + (if m \<le> 2 then 1 else 0), m, doy - (153 * mp + 2) div 5 + 1))"

definition pad :: "nat \<Rightarrow> int \<Rightarrow> string" where
  "pad w i = (let s = int_str i in replicate (w - length s) (CHR ''0'') @ s)"

text \<open>For the years 0 to 9999.\<close>

definition iso_string :: "int \<Rightarrow> string" where
  "iso_string ms =
     (let (y, m, d) = civil_of_days (ms div 86400000); t = ms mod 86400000
      in pad 4 y @ ''-'' @ pad 2 m @ ''-'' @ pad 2 d @ ''T'' @ pad 2 (t div 3600000) @ '':'' @ pad 2 (t div 60000 mod 60)
         @ '':'' @ pad 2 (t div 1000 mod 60) @ ''.'' @ pad 3 (t mod 1000) @ ''Z'')"

section \<open>Devices and accounts\<close>

definition device_json :: "device \<Rightarrow> jsval" where
  "device_json d =
     JObj [(''id'', JStr (d_id d)), (''name'', JStr (d_name d)), (''state'', JStr (state_str (d_state d))),
           (''version'', JInt (d_version d)), (''createdAt'', JStr (iso_string (d_created_at d))),
           (''updatedAt'', JStr (iso_string (d_updated_at d)))]"

definition account_json :: "account \<Rightarrow> jsval" where
  "account_json a =
     JObj [(''id'', JStr (a_id a)), (''username'', JStr (a_username a)), (''createdAt'', JStr (iso_string (a_created_at a)))]"

section \<open>The Device Service as its callers see it\<close>

text \<open>The operations answer with the objects a client sees.\<close>

record 's device_service =
  sv_list :: "string \<Rightarrow> workload \<Rightarrow> string \<Rightarrow> 's \<Rightarrow> (error + jsval list) \<times> 's"
  sv_get :: "string \<Rightarrow> workload \<Rightarrow> string \<Rightarrow> string \<Rightarrow> 's \<Rightarrow> (error + jsval) \<times> 's"
  sv_add :: "string \<Rightarrow> workload \<Rightarrow> string \<Rightarrow> add_input \<Rightarrow> 's \<Rightarrow> (error + jsval) \<times> 's"
  sv_control :: "string \<Rightarrow> workload \<Rightarrow> string \<Rightarrow> control_input \<Rightarrow> 's \<Rightarrow> (error + jsval) \<times> 's"

record service_draw =
  sd_jwt :: jwt_verifier
  sd_nfkc :: "string \<Rightarrow> string"
  sd_sha256 :: "string \<Rightarrow> string"
  sd_now_ms :: int
  sd_now :: int
  sd_new_id :: string

text \<open>
  The state of an edge in one process: the map of grants touched, the database, the counters and the proof identifiers
  seen. An operation on the first two leaves the others.
\<close>

record edge_state =
  es_touched :: touched
  es_db :: database
  es_windows :: windows
  es_seen :: seen

definition on_db :: "(touched \<times> database \<Rightarrow> 'r \<times> touched \<times> database) \<Rightarrow> edge_state \<Rightarrow> 'r \<times> edge_state" where
  "on_db f s = (case f (es_touched s, es_db s) of (r, tc, db) \<Rightarrow> (r, s\<lparr>es_touched := tc, es_db := db\<rparr>))"

text \<open>\<open>createDeviceService\<close>.\<close>

definition local_devices :: "service_draw \<Rightarrow> edge_state device_service" where
  "local_devices d =
     \<lparr>sv_list = (\<lambda>t peer rid s. (map_sum id (map device_json) (service_list (sd_jwt d) (sd_now_ms d) t peer rid (es_db s)), s)),
      sv_get = (\<lambda>t peer rid i s. (map_sum id device_json (service_get (sd_jwt d) (sd_now_ms d) t peer rid i (es_db s)), s)),
      sv_add = (\<lambda>t peer rid inp s.
        (case service_add (sd_jwt d) (sd_nfkc d) (sd_sha256 d) (sd_now_ms d) (sd_now d) (sd_new_id d) t peer rid inp (es_db s) of
           (r, db') \<Rightarrow> (map_sum id device_json r, s\<lparr>es_db := db'\<rparr>))),
      sv_control = (\<lambda>t peer rid inp s.
        (case service_control (sd_jwt d) (sd_now_ms d) (sd_now d) t peer rid inp (es_db s) of
           (r, db') \<Rightarrow> (map_sum id device_json r, s\<lparr>es_db := db'\<rparr>)))\<rparr>"

text \<open>The exchange of an edge in one process.\<close>

definition edge_exchanger :: "env \<Rightarrow> signer list \<Rightarrow> workload \<Rightarrow> (clocks \<times> string, edge_state) exchanger" where
  "edge_exchanger env signers w x cred scope = on_db (local_exchanger env signers w x cred scope)"

interpretation edge_exchange: exchange_provider "edge_exchanger env signers w" "minted_by env signers w"
proof
  fix x cred scope s t n s'
  assume "edge_exchanger env signers w x cred scope s = (Inr (t, n), s')"
  then obtain s1 where "local_exchanger env signers w x cred scope (es_touched s, es_db s) = (Inr (t, n), s1)"
    by (auto simp: edge_exchanger_def on_db_def split: prod.splits)
  then show "minted_by env signers w cred scope t" by (rule local_exchange.ex_minted)
qed

end
