(* ===== verification/Http.thy ===== *)
theory Http
  imports Wire Dpop Token_Endpoint
begin

text \<open>
  What the HTTP edges share: the credential of a request (\<open>server/src/security/credentials.ts\<close>), the authentication of the
  REST API and the one place an error becomes a response (\<open>server/src/http/middleware.ts\<close>), and the mounting of a router
  on a host (\<open>server/src/http/app.ts\<close>, \<open>server/src/config.ts\<close>).
\<close>

section \<open>Origins\<close>

text \<open>\<open>replace(/\/$/, '')\<close>.\<close>

definition strip_slash :: "string \<Rightarrow> string" where
  "strip_slash s = (if s \<noteq> [] \<and> List.last s = CHR ''/'' then butlast s else s)"

definition base_url :: "string option \<Rightarrow> string \<Rightarrow> string" where
  "base_url configured port = strip_slash (case configured of Some u \<Rightarrow> u | None \<Rightarrow> ''http://localhost:'' @ port)"

definition origin :: "string \<Rightarrow> string option \<Rightarrow> string" where
  "origin base configured = strip_slash (case configured of Some u \<Rightarrow> u | None \<Rightarrow> base)"

definition single_origin :: "env \<Rightarrow> bool" where
  "single_origin env \<longleftrightarrow> en_auth_base env = en_mcp_base env \<and> en_mcp_base env = en_api_base env"

text \<open>\<open>onHost\<close>: whether a router mounted for \<open>base\<close> sees a request with this Host header; building it throws on a bad URL.\<close>

definition on_host :: "env \<Rightarrow> url_parser \<Rightarrow> string \<Rightarrow> string option \<Rightarrow> error + bool" where
  "on_host env parse base host =
     (if single_origin env then Inr True
      else (case parse base of
        None \<Rightarrow> Inl invalid_url
      | Some u \<Rightarrow> Inr (to_lower (case host of None \<Rightarrow> [] | Some h \<Rightarrow> h) = to_lower (url_host u))))"

section \<open>Requests\<close>

record http_request =
  hq_method :: string
  hq_path :: string
  hq_original_url :: string
  hq_authorization :: "string option"
  hq_dpop :: "string option"
  hq_idempotency_key :: "string option"
  hq_verified_client :: "string option"
  hq_ip :: "string option"
  hq_body :: jsval

datatype scheme = Bearer_scheme | DPoP_scheme

record credential =
  cd_scheme :: scheme
  cd_token :: string

text \<open>
  \<open>credentialFrom\<close>: \<open>/^(bearer|dpop) +(.+)$/i\<close> on the trimmed header. The dot matches no line break; as the header was
  trimmed, something other than white space follows the spaces.
\<close>

definition scheme_rest :: "string \<Rightarrow> (scheme \<times> string) option" where
  "scheme_rest h =
     (if to_lower (take 6 h) = ''bearer'' then Some (Bearer_scheme, drop 6 h)
      else if to_lower (take 4 h) = ''dpop'' then Some (DPoP_scheme, drop 4 h) else None)"

definition line_break :: "char \<Rightarrow> bool" where
  "line_break c \<longleftrightarrow> c = CHR 0x0A \<or> c = CHR 0x0D"

definition credential_from :: "http_request \<Rightarrow> credential option" where
  "credential_from rq =
     (case truthy (hq_authorization rq) of
        None \<Rightarrow> None
      | Some header \<Rightarrow>
          (case scheme_rest (trim header) of
             None \<Rightarrow> None
           | Some (sc, rest) \<Rightarrow>
               (let body = dropWhile is_space rest in
                if rest = [] \<or> \<not> is_space (hd rest) \<or> body = [] \<or> (\<exists>c \<in> set body. line_break c) then None
                else Some \<lparr>cd_scheme = sc, cd_token = trim body\<rparr>)))"

definition question_mark :: "char \<Rightarrow> bool" where
  "question_mark c \<longleftrightarrow> c = CHR ''?''"

definition request_htu :: "string \<Rightarrow> http_request \<Rightarrow> string" where
  "request_htu base rq = base @ hd (split_on question_mark (hq_original_url rq))"

section \<open>Errors as responses\<close>

text \<open>What reaches the error handler: an exception of the model, or one of the body parser, known by its \<open>type\<close>.\<close>

datatype thrown = Thrown error | Parser_error string

definition rpc_error :: "int \<Rightarrow> string \<Rightarrow> string \<Rightarrow> string \<Rightarrow> jsval" where
  "rpc_error code message app_code request_id =
     JObj [(''jsonrpc'', JStr ''2.0''),
           (''error'', JObj [(''code'', JInt code), (''message'', JStr message),
              (''data'', JObj [(''code'', JStr app_code), (''requestId'', JStr request_id)])]),
           (''id'', JNull)]"

abbreviation json_reply :: "nat \<Rightarrow> jsval \<Rightarrow> reply" where
  "json_reply status body \<equiv> \<lparr>rp_status = status, rp_headers = [], rp_body = body\<rparr>"

definition send_error :: "bool \<Rightarrow> string \<Rightarrow> nat \<Rightarrow> int \<Rightarrow> string \<Rightarrow> error_code \<Rightarrow> reply" where
  "send_error rpc request_id status rpc_code message code =
     json_reply status
       (if rpc then rpc_error rpc_code message (code_name code) request_id
        else to_body (new_app_error code (Some message) None) request_id)"

text \<open>\<open>errorHandler\<close>, for a response whose headers are not sent yet.\<close>

definition error_handler :: "string list \<Rightarrow> string \<Rightarrow> string \<Rightarrow> thrown \<Rightarrow> reply" where
  "error_handler json_rpc_paths path request_id th =
     (let rpc = path \<in> set json_rpc_paths in
      case th of
        Thrown (AppError e) \<Rightarrow>
          json_reply (app_status e)
            (if rpc then rpc_error (- 32000) (ae_message e) (code_name (ae_code e)) request_id else to_body e request_id)
      | Parser_error ty \<Rightarrow>
          if ty = ''entity.too.large'' then send_error rpc request_id 413 (- 32600) ''Request body is too large.'' VALIDATION_FAILED
          else if ty = ''entity.parse.failed'' \<or> ty = ''encoding.unsupported''
          then send_error rpc request_id 400 (- 32700)
                 (if rpc then ''Parse error'' else ''The request body could not be read.'') MALFORMED_REQUEST
          else send_error rpc request_id 500 (- 32603) (if rpc then ''Internal error'' else ''Unexpected error.'') INTERNAL_ERROR
      | Thrown _ \<Rightarrow>
          send_error rpc request_id 500 (- 32603) (if rpc then ''Internal error'' else ''Unexpected error.'') INTERNAL_ERROR)"

section \<open>Authentication of the REST API\<close>

text \<open>The interface \<open>TokenVerifier\<close>: verification can fail, where it is remote.\<close>

type_synonym 's oauth_op = "jsval \<Rightarrow> string list \<Rightarrow> string option \<Rightarrow> 's \<Rightarrow> (error + verified_token) \<times> 's"

record 's edge =
  eg_oauth :: "'s oauth_op"
  eg_account :: "string \<Rightarrow> 's \<Rightarrow> (error + account option) \<times> 's"
  eg_claim :: "int \<Rightarrow> string \<Rightarrow> int \<Rightarrow> 's \<Rightarrow> bool \<times> 's"
  eg_jose :: jose
  eg_parse :: url_parser

text \<open>In one process: \<open>localVerifier\<close> and the process's proof store, at the given clocks.\<close>

definition local_edge :: "env \<Rightarrow> clocks \<Rightarrow> jose \<Rightarrow> url_parser \<Rightarrow> edge_state edge" where
  "local_edge env ck jose parse =
     \<lparr>eg_oauth = (\<lambda>t scopes audience s.
        (case on_db (local_oauth env ck t scopes audience) s of (v, s') \<Rightarrow> (Inr v, s'))),
      eg_account = (\<lambda>a s. (Inr (local_account a (es_db s)), s)),
      eg_claim = (\<lambda>now k ttl s. (case memory_claim now k ttl (es_seen s) of (b, m) \<Rightarrow> (b, s\<lparr>es_seen := m\<rparr>))),
      eg_jose = jose, eg_parse = parse\<rparr>"

definition dpop_algorithms :: "string list" where
  "dpop_algorithms = [''ES256'', ''EdDSA'']"

definition quoted :: "string \<Rightarrow> string" where
  "quoted s = quote_char # s @ [quote_char]"

definition dpop_authenticate :: "dpop_code \<Rightarrow> string \<Rightarrow> string" where
  "dpop_authenticate code message =
     ''DPoP error='' @ quoted (dpop_code_str code) @ '', error_description='' @ quoted message
     @ '', algs='' @ quoted (join_with '' '' dpop_algorithms)"

text \<open>The proof of a request whose token is bound to the key \<open>jkt\<close>.\<close>

definition bound_proof ::
  "env \<Rightarrow> 's edge \<Rightarrow> int \<Rightarrow> scheme \<Rightarrow> http_request \<Rightarrow> string \<Rightarrow> string \<Rightarrow> string \<Rightarrow> 's \<Rightarrow> (error + string) \<times> 's" where
  "bound_proof env eg now_ms sc rq htu token jkt s =
     (if sc \<noteq> DPoP_scheme
      then (Inl (bad_proof ''This token must be presented with the DPoP scheme.'' R_scheme), s)
      else verify_proof env (eg_jose eg) (eg_parse eg) (eg_claim eg) now_ms
             (case hq_dpop rq of None \<Rightarrow> JUndefined | Some p \<Rightarrow> JStr p)
             \<lparr>ck_htm = hq_method rq, ck_htu = htu, ck_token = Some token, ck_expected = Some jkt\<rparr> s)"

type_synonym headers = "(string \<times> string) list"

definition nonce_header :: "env \<Rightarrow> int \<Rightarrow> headers" where
  "nonce_header env now_ms = [(''DPoP-Nonce'', current_dpop_nonce env now_ms)]"

definition caller_of_token :: "channel \<Rightarrow> string \<Rightarrow> string \<Rightarrow> verified \<Rightarrow> verified_caller" where
  "caller_of_token ch request_id token v =
     \<lparr>vc_account = ve_account v, vc_client = ve_client v, vc_grant = ve_grant v, vc_channel = ch, vc_scopes = ve_scopes v,
      vc_request = request_id, vc_credential = token\<rparr>"

text \<open>
  \<open>authenticate\<close>: an error for the error handler, or the caller, if any; with the headers set on the way.
\<close>

definition authenticate ::
  "env \<Rightarrow> 's edge \<Rightarrow> int \<Rightarrow> bool \<Rightarrow> string \<Rightarrow> http_request \<Rightarrow> 's
   \<Rightarrow> (error + verified_caller option) \<times> headers \<times> 's" where
  "authenticate env eg now_ms required request_id rq s =
     (let cred = credential_from rq;
          sc = (case cred of Some c \<Rightarrow> cd_scheme c | None \<Rightarrow> Bearer_scheme);
          hs = (if sc = DPoP_scheme then nonce_header env now_ms else []);
          none = (if required then Inl not_signed_in else Inr None)
      in case truthy (map_option cd_token cred) of
           None \<Rightarrow> (none, hs, s)
         | Some token \<Rightarrow>
             (case eg_oauth eg (JStr token) [] (Some (api_resource env)) s of
                (Inl e, s1) \<Rightarrow> (Inl e, hs, s1)
              | (Inr (Token_ok v), s1) \<Rightarrow>
                  (case truthy (ve_jkt v) of
                     None \<Rightarrow> (Inl (app_err_msg UNAUTHENTICATED ''This API requires DPoP-bound tokens.''), hs, s1)
                   | Some jkt \<Rightarrow>
                       (case bound_proof env eg now_ms sc rq (request_htu (en_api_base env) rq) token jkt s1 of
                          (Inl (DpopError c m r), s2) \<Rightarrow>
                            (Inl (app_err_msg UNAUTHENTICATED m),
                             hs @ [(''WWW-Authenticate'', dpop_authenticate c m)] @ nonce_header env now_ms, s2)
                        | (Inl e, s2) \<Rightarrow> (Inl e, hs, s2)
                        | (Inr k, s2) \<Rightarrow> (Inr (Some (caller_of_token Ch_native request_id token v)), hs, s2)))
              | (Inr _, s1) \<Rightarrow> (none, hs, s1)))"

definition caller_of :: "verified_caller option \<Rightarrow> error + verified_caller" where
  "caller_of c = (case c of None \<Rightarrow> Inl not_signed_in | Some v \<Rightarrow> Inr v)"

definition request_id_of :: "string \<Rightarrow> string" where
  "request_id_of rnd = ''req_'' @ hex rnd"

end
