(* ===== verification/Gate.thy ===== *)
theory Gate
  imports Http
begin

text \<open>
  The authorization gate of the MCP endpoint: \<open>server/src/mcp/policy.ts\<close> and \<open>server/src/mcp/config.ts\<close> (what each tool
  requires), \<open>server/src/mcp/security-schemes.ts\<close>, and \<open>server/src/mcp/gate.ts\<close>, which decides on the parsed JSON-RPC
  body before the MCP library sees it. The rate limits, the verifier and the proof store are operations on one state.
  Metrics are left out.
\<close>

section \<open>Policies\<close>

record annotations =
  an_read_only :: bool
  an_destructive :: bool
  an_idempotent :: bool
  an_open_world :: bool

datatype budget_kind = No_budget | Control_budget | Create_budget

record tool_policy =
  tp_scope :: "string option"
  tp_annotations :: annotations
  tp_budget :: budget_kind

definition read_only :: annotations where
  "read_only = \<lparr>an_read_only = True, an_destructive = False, an_idempotent = True, an_open_world = False\<rparr>"

definition write_tool :: annotations where
  "write_tool = \<lparr>an_read_only = False, an_destructive = False, an_idempotent = False, an_open_world = False\<rparr>"

definition tool_policies :: "(string \<times> tool_policy) list" where
  "tool_policies =
     [(''list_devices'', \<lparr>tp_scope = Some ''devices:read'', tp_annotations = read_only, tp_budget = No_budget\<rparr>),
      (''get_device'', \<lparr>tp_scope = Some ''devices:read'', tp_annotations = read_only, tp_budget = No_budget\<rparr>),
      (''control_device'', \<lparr>tp_scope = Some ''devices:control'', tp_annotations = write_tool, tp_budget = Control_budget\<rparr>),
      (''add_device'', \<lparr>tp_scope = Some ''devices:create'', tp_annotations = write_tool, tp_budget = Create_budget\<rparr>),
      (''get_auth_status'', \<lparr>tp_scope = None, tp_annotations = read_only, tp_budget = No_budget\<rparr>),
      (''show_auth'', \<lparr>tp_scope = None, tp_annotations = read_only, tp_budget = No_budget\<rparr>),
      (''show_add_device'', \<lparr>tp_scope = None, tp_annotations = read_only, tp_budget = No_budget\<rparr>)]"

definition policy_for :: "string \<Rightarrow> tool_policy option" where
  "policy_for name = map_of tool_policies name"

definition annotations_for :: "string \<Rightarrow> error + annotations" where
  "annotations_for name =
     (case policy_for name of
        None \<Rightarrow> Inl (OtherError (''No policy for tool '' @ name))
      | Some p \<Rightarrow> Inr (tp_annotations p))"

definition required_scope_for :: "string \<Rightarrow> string option" where
  "required_scope_for name = (case policy_for name of None \<Rightarrow> None | Some p \<Rightarrow> tp_scope p)"

datatype security_scheme = Noauth | Oauth2 "string list"

definition security_schemes_for :: "string \<Rightarrow> security_scheme list" where
  "security_schemes_for name = (case truthy (required_scope_for name) of Some sc \<Rightarrow> [Oauth2 [sc]] | None \<Rightarrow> [Noauth])"

fun scheme_json :: "security_scheme \<Rightarrow> jsval" where
  "scheme_json Noauth = JObj [(''type'', JStr ''noauth'')]"
| "scheme_json (Oauth2 scs) = JObj [(''type'', JStr ''oauth2''), (''scopes'', JArr (map JStr scs))]"

text \<open>\<open>{ ...o, k: v }\<close>: in place for a present key, at the end otherwise.\<close>

fun fields_of :: "jsval \<Rightarrow> (string \<times> jsval) list" where
  "fields_of (JObj fs) = fs"
| "fields_of _ = []"

text \<open>The wrapped \<open>tools/list\<close>: every tool declares its schemes, at the top level and in its metadata.\<close>

definition expose_schemes :: "jsval \<Rightarrow> jsval" where
  "expose_schemes tool =
     (let schemes = JArr (map scheme_json (security_schemes_for (case as_str (jfield tool ''name'') of Some n \<Rightarrow> n | None \<Rightarrow> ''undefined'')));
          meta = fields_of (jfield tool ''_meta'')
      in JObj (AList.update ''_meta'' (JObj (AList.update ''securitySchemes'' schemes meta))
                 (AList.update ''securitySchemes'' schemes (fields_of tool))))"

section \<open>Protected calls\<close>

definition messages :: "jsval \<Rightarrow> jsval list" where
  "messages body = (case body of JArr vs \<Rightarrow> vs | v \<Rightarrow> [v])"

text \<open>The name of the tool a message calls.\<close>

definition called_tool :: "jsval \<Rightarrow> string option" where
  "called_tool m = (if jfield m ''method'' \<noteq> JStr ''tools/call'' then None else as_str (jfield (jfield m ''params'') ''name''))"

text \<open>A name this server does not have counts as protected.\<close>

definition is_protected :: "string \<Rightarrow> bool" where
  "is_protected name \<longleftrightarrow> (case policy_for name of None \<Rightarrow> True | Some p \<Rightarrow> truthy (tp_scope p) \<noteq> None)"

definition some_list :: "'a option list \<Rightarrow> 'a list" where
  "some_list xs = concat (map (\<lambda>x. case x of None \<Rightarrow> [] | Some a \<Rightarrow> [a]) xs)"

definition protected_tools :: "jsval \<Rightarrow> string list" where
  "protected_tools body = filter is_protected (some_list (map called_tool (messages body)))"

text \<open>A \<open>Set\<close> keeps the order of first insertion.\<close>

definition protected_scopes :: "jsval \<Rightarrow> string list" where
  "protected_scopes body = rev (remdups (rev (some_list (map (\<lambda>n. truthy (required_scope_for n)) (protected_tools body)))))"

section \<open>Challenges\<close>

definition prm_url :: "env \<Rightarrow> string" where
  "prm_url env = en_mcp_base env @ ''/.well-known/oauth-protected-resource/mcp''"

definition challenge_value :: "env \<Rightarrow> string \<Rightarrow> string \<Rightarrow> string list \<Rightarrow> string" where
  "challenge_value env err description scopes =
     ''Bearer error='' @ quoted err @ '', error_description='' @ quoted description
     @ '', resource_metadata='' @ quoted (prm_url env) @ '', scope='' @ quoted (join_with '' '' scopes)"

definition challenge_reply :: "env \<Rightarrow> nat \<Rightarrow> string \<Rightarrow> string \<Rightarrow> string list \<Rightarrow> reply" where
  "challenge_reply env status err description scopes =
     \<lparr>rp_status = status, rp_headers = [(''WWW-Authenticate'', challenge_value env err description scopes)],
      rp_body = JObj [(''error'', JStr err), (''error_description'', JStr description)]\<rparr>"

definition dpop_challenge :: "env \<Rightarrow> int \<Rightarrow> dpop_code \<Rightarrow> string \<Rightarrow> reply" where
  "dpop_challenge env now_ms code message =
     \<lparr>rp_status = 401, rp_headers = (''WWW-Authenticate'', dpop_authenticate code message) # nonce_header env now_ms,
      rp_body = JObj [(''error'', JStr (dpop_code_str code)), (''error_description'', JStr message)]\<rparr>"

section \<open>The gate\<close>

record gate_config =
  gc_tool_challenge :: "string option"
  gc_trust_proxy :: "string option"

definition wants_tool_challenge :: "gate_config \<Rightarrow> http_request \<Rightarrow> bool" where
  "wants_tool_challenge cfg rq \<longleftrightarrow>
     gc_tool_challenge cfg = Some ''trusted-header'' \<and> truthy (gc_trust_proxy cfg) \<noteq> None
     \<and> hq_verified_client rq = Some ''chatgpt''"

record 's gate_limits =
  gl_address :: "string \<Rightarrow> 's \<Rightarrow> bucket_result \<times> 's"
  gl_grant :: "string \<Rightarrow> 's \<Rightarrow> bucket_result \<times> 's"

datatype gate_outcome = Proceed caller "string option" | Answered reply

text \<open>The grant of a token that is live, whether or not it has the scopes.\<close>

fun token_grant :: "verified_token option \<Rightarrow> string option" where
  "token_grant (Some (Token_ok v)) = truthy (Some (ve_grant v))"
| "token_grant (Some (Insufficient_scope g gs rs)) = truthy (Some g)"
| "token_grant _ = None"

definition gate_limit :: "'s gate_limits \<Rightarrow> http_request \<Rightarrow> verified_token option \<Rightarrow> 's \<Rightarrow> bucket_result \<times> 's" where
  "gate_limit lim rq verified s =
     (case token_grant verified of
        Some g \<Rightarrow> gl_grant lim (''mcp-grant:'' @ g) s
      | None \<Rightarrow> gl_address lim (''mcp-ip:'' @ (case hq_ip rq of Some ip \<Rightarrow> ip | None \<Rightarrow> ''unknown'')) s)"

text \<open>The last step: what a request that wants \<open>tools\<close> gets, given its caller.\<close>

definition gate_decision :: "env \<Rightarrow> gate_config \<Rightarrow> http_request \<Rightarrow> string \<Rightarrow> verified_token option \<Rightarrow> caller \<Rightarrow> gate_outcome" where
  "gate_decision env cfg rq request_id verified c =
     (if length (protected_tools (hq_body rq)) = 0 then Proceed c None
      else (case c of
        Verified_caller v \<Rightarrow> Proceed c None
      | Anonymous_caller r \<Rightarrow>
          (let insufficient = (case verified of Some (Insufficient_scope g gs rs) \<Rightarrow> True | _ \<Rightarrow> False);
               err = (if insufficient then ''insufficient_scope'' else ''invalid_token'');
               description = (if insufficient then ''Scope '' @ join_with '' '' (protected_scopes (hq_body rq)) @ '' is required''
                              else ''Authentication required for this tool'')
           in if wants_tool_challenge cfg rq
              then Proceed (Anonymous_caller request_id) (Some (challenge_value env err description scopes_supported))
              else Answered (challenge_reply env (if insufficient then 403 else 401) err description scopes_supported))))"

definition gate ::
  "env \<Rightarrow> gate_config \<Rightarrow> 's edge \<Rightarrow> 's gate_limits \<Rightarrow> int \<Rightarrow> string \<Rightarrow> http_request \<Rightarrow> 's
   \<Rightarrow> (error + gate_outcome) \<times> headers \<times> 's" where
  "gate env cfg eg lim now_ms request_id rq s =
     (let cred = credential_from rq; token = truthy (map_option cd_token cred);
          sc = (case cred of Some c \<Rightarrow> cd_scheme c | None \<Rightarrow> Bearer_scheme)
      in case (case token of
                 None \<Rightarrow> (Inr None, s)
               | Some t \<Rightarrow> (case eg_oauth eg (JStr t) (protected_scopes (hq_body rq)) None s of
                              (Inl e, s1) \<Rightarrow> (Inl e, s1) | (Inr v, s1) \<Rightarrow> (Inr (Some v), s1))) of
           (Inl e, s1) \<Rightarrow> (Inl e, [], s1)
         | (Inr verified, s1) \<Rightarrow>
             (case gate_limit lim rq verified s1 of
                (Refused retry, s2) \<Rightarrow> (Inl (app_err RATE_LIMITED), [(''retry-after'', int_str retry)], s2)
              | (Granted, s2) \<Rightarrow>
                  (case (verified, token) of
                     (Some (Token_ok v), Some t) \<Rightarrow>
                       (let c = Verified_caller (caller_of_token Ch_mcp request_id t v) in
                        case truthy (ve_jkt v) of
                          None \<Rightarrow> (Inr (gate_decision env cfg rq request_id verified c), [], s2)
                        | Some jkt \<Rightarrow>
                            (case bound_proof env eg now_ms sc rq (resource_uri env) t jkt s2 of
                               (Inl (DpopError cd m r), s3) \<Rightarrow> (Inr (Answered (dpop_challenge env now_ms cd m)), [], s3)
                             | (Inl e, s3) \<Rightarrow> (Inl e, [], s3)
                             | (Inr k, s3) \<Rightarrow> (Inr (gate_decision env cfg rq request_id verified c), [], s3)))
                   | _ \<Rightarrow> (Inr (gate_decision env cfg rq request_id verified (Anonymous_caller request_id)), [], s2))))"

end
