(* ===== verification/Mcp_Tools.thy ===== *)
theory Mcp_Tools
  imports Gate Budgets
begin

text \<open>
  \<open>server/src/mcp/tools.ts\<close> and \<open>server/src/mcp/resources.ts\<close>: the handlers of the MCP tools, with the arguments the MCP
  library has validated, and \<open>server/src/mcp/routes.ts\<close>: the limits of the endpoint. The library calls the handler of
  every \<open>tools/call\<close> message of a body the gate let through, with the caller the gate decided on.
\<close>

section \<open>Results\<close>

definition text_content :: "string \<Rightarrow> string \<times> jsval" where
  "text_content t = (''content'', JArr [JObj [(''type'', JStr ''text''), (''text'', JStr t)]])"

definition tool_error :: "error \<Rightarrow> string option \<Rightarrow> jsval" where
  "tool_error e challenge =
     (let (code, message) = (case e of AppError a \<Rightarrow> (code_name (ae_code a), ae_message a)
                             | _ \<Rightarrow> (''INTERNAL_ERROR'', ''Unexpected error.''))
      in JObj [(''isError'', JBool True), text_content message,
               (''_meta'', JObj ((''iot/error'', JObj [(''code'', JStr code), (''message'', JStr message)])
                  # (case truthy challenge of None \<Rightarrow> [] | Some c \<Rightarrow> [(''mcp/www_authenticate'', JArr [JStr c])])))])"

definition unauthenticated :: error where
  "unauthenticated = app_err_msg UNAUTHENTICATED ''No verified identity on this request.''"

definition over_budget :: "int \<Rightarrow> error" where
  "over_budget retry = app_err_msg RATE_LIMITED (''Too many changes in a short time. Try again in '' @ int_str retry @ '' seconds.'')"

text \<open>A device object has a string name.\<close>

definition device_name :: "jsval \<Rightarrow> string" where
  "device_name d = (case as_str (jfield d ''name'') of Some n \<Rightarrow> n | None \<Rightarrow> ''undefined'')"

definition describe :: "jsval \<Rightarrow> string" where
  "describe d = device_name d @ '' is '' @ (if jfield d ''state'' = JStr ''on'' then ''On'' else ''Off'') @ ''.''"

definition list_text :: "jsval list \<Rightarrow> string" where
  "list_text ds =
     (if length ds = 0 then ''This account has no devices yet.''
      else dec (length ds) @ '' device'' @ (if length ds = 1 then '''' else ''s'') @ '': '' @ join_with '' '' (map describe ds))"

section \<open>Handlers\<close>

record ('x, 's) tool_deps =
  dp_exchanger :: "('x, 's) exchanger"
  dp_workload :: workload
  dp_attempt :: "'x attempt"
  dp_retry :: "'x attempt"
  dp_devices :: "'s device_service"
  dp_account :: "string \<Rightarrow> 's \<Rightarrow> (error + account option) \<times> 's"
  dp_spend :: "write_kind \<Rightarrow> string \<Rightarrow> string option \<Rightarrow> 's \<Rightarrow> bucket_result \<times> 's"

definition run_for ::
  "('x, 's) tool_deps \<Rightarrow> verified_caller \<Rightarrow> string \<Rightarrow> ('a, 's) device_call \<Rightarrow> token_cache \<times> 's \<Rightarrow> (error + 'a) \<times> token_cache \<times> 's" where
  "run_for dp c scope call st = run_call (dp_exchanger dp) (dp_workload dp) (dp_attempt dp) (dp_retry dp) c scope call st"

text \<open>The write budget, on the part of the state that is not the cache.\<close>

definition spend_for ::
  "('x, 's) tool_deps \<Rightarrow> write_kind \<Rightarrow> string \<Rightarrow> string option \<Rightarrow> token_cache \<times> 's \<Rightarrow> bucket_result \<times> token_cache \<times> 's" where
  "spend_for dp kind grant device st = (case dp_spend dp kind grant device (snd st) of (b, s) \<Rightarrow> (b, fst st, s))"

definition control_key :: "verified_caller \<Rightarrow> string \<Rightarrow> string" where
  "control_key c device_id = vc_account c @ '':'' @ device_id"

definition device_result :: "string \<Rightarrow> jsval \<Rightarrow> jsval" where
  "device_result t d = JObj [text_content t, (''structuredContent'', JObj [(''device'', d)])]"

definition list_tool :: "('x, 's) tool_deps \<Rightarrow> caller \<Rightarrow> string option \<Rightarrow> token_cache \<times> 's \<Rightarrow> jsval \<times> token_cache \<times> 's" where
  "list_tool dp cl challenge st =
     (case cl of
        Anonymous_caller r \<Rightarrow> (tool_error unauthenticated challenge, st)
      | Verified_caller c \<Rightarrow>
          (case run_for dp c ''devices:read'' (\<lambda>t peer. sv_list (dp_devices dp) t peer (vc_request c)) st of
             (Inl e, st') \<Rightarrow> (tool_error e None, st')
           | (Inr ds, st') \<Rightarrow>
               (JObj [text_content (list_text ds), (''structuredContent'', JObj [(''devices'', JArr ds)])], st')))"

definition get_tool ::
  "('x, 's) tool_deps \<Rightarrow> caller \<Rightarrow> string option \<Rightarrow> string \<Rightarrow> token_cache \<times> 's \<Rightarrow> jsval \<times> token_cache \<times> 's" where
  "get_tool dp cl challenge device_id st =
     (case cl of
        Anonymous_caller r \<Rightarrow> (tool_error unauthenticated challenge, st)
      | Verified_caller c \<Rightarrow>
          (case run_for dp c ''devices:read'' (\<lambda>t peer. sv_get (dp_devices dp) t peer (vc_request c) device_id) st of
             (Inl e, st') \<Rightarrow> (tool_error e None, st')
           | (Inr d, st') \<Rightarrow> (device_result (describe d) d, st')))"

definition control_tool ::
  "('x, 's) tool_deps \<Rightarrow> caller \<Rightarrow> string option \<Rightarrow> control_input \<Rightarrow> token_cache \<times> 's \<Rightarrow> jsval \<times> token_cache \<times> 's" where
  "control_tool dp cl challenge inp st =
     (case cl of
        Anonymous_caller r \<Rightarrow> (tool_error unauthenticated challenge, st)
      | Verified_caller c \<Rightarrow>
          (case spend_for dp Write_control (vc_grant c) (Some (control_key c (ci_device inp))) st of
             (Refused retry, st1) \<Rightarrow> (tool_error (over_budget retry) None, st1)
           | (Granted, st1) \<Rightarrow>
               (case run_for dp c ''devices:control'' (\<lambda>t peer. sv_control (dp_devices dp) t peer (vc_request c) inp) st1 of
                  (Inl e, st') \<Rightarrow> (tool_error e None, st')
                | (Inr d, st') \<Rightarrow> (device_result (describe d) d, st'))))"

definition add_tool ::
  "('x, 's) tool_deps \<Rightarrow> caller \<Rightarrow> string option \<Rightarrow> string \<Rightarrow> token_cache \<times> 's \<Rightarrow> jsval \<times> token_cache \<times> 's" where
  "add_tool dp cl challenge name st =
     (case cl of
        Anonymous_caller r \<Rightarrow> (tool_error unauthenticated challenge, st)
      | Verified_caller c \<Rightarrow>
          (case spend_for dp Write_create (vc_grant c) None st of
             (Refused retry, st1) \<Rightarrow> (tool_error (over_budget retry) None, st1)
           | (Granted, st1) \<Rightarrow>
               (case run_for dp c ''devices:create'' (\<lambda>t peer.
                        sv_add (dp_devices dp) t peer (vc_request c) \<lparr>ad_name = Some name, ad_key = None\<rparr>) st1 of
                  (Inl e, st') \<Rightarrow> (tool_error e None, st')
                | (Inr d, st') \<Rightarrow> (device_result (''Added '' @ device_name d @ ''. It starts Off.'') d, st'))))"

definition auth_status_tool :: "('x, 's) tool_deps \<Rightarrow> caller \<Rightarrow> token_cache \<times> 's \<Rightarrow> jsval \<times> token_cache \<times> 's" where
  "auth_status_tool dp cl st =
     (case (case cl of
              Anonymous_caller r \<Rightarrow> (Inr None, snd st)
            | Verified_caller c \<Rightarrow> dp_account dp (vc_account c) (snd st)) of
        (Inl e, s) \<Rightarrow> (tool_error e None, fst st, s)
      | (Inr None, s) \<Rightarrow>
          (JObj [text_content ''Not signed in.'', (''structuredContent'', JObj [(''authenticated'', JBool False)])], fst st, s)
      | (Inr (Some a), s) \<Rightarrow>
          (JObj [text_content (''Signed in as '' @ a_username a @ ''.''),
                 (''structuredContent'', JObj [(''authenticated'', JBool True), (''accountId'', JStr (a_id a)),
                    (''username'', JStr (a_username a))])], fst st, s))"

text \<open>The presentation tools of \<open>resources.ts\<close>.\<close>

definition show_auth_tool :: "string option \<Rightarrow> jsval" where
  "show_auth_tool mode =
     JObj [text_content ''Sign in to IoT Switch to see and control your devices.'',
           (''structuredContent'', JObj [(''mode'', JStr (case mode of Some m \<Rightarrow> m | None \<Rightarrow> ''login'')), (''authenticated'', JBool False)])]"

definition show_add_device_tool :: jsval where
  "show_add_device_tool =
     JObj [text_content ''Enter a name for the new device. It will start Off.'', (''structuredContent'', JObj [(''ready'', JBool True)])]"

section \<open>Dispatch\<close>

datatype tool_call =
    Call_list
  | Call_get string
  | Call_control control_input
  | Call_add string
  | Call_auth_status
  | Call_show_auth "string option"
  | Call_show_add_device

fun tool_name :: "tool_call \<Rightarrow> string" where
  "tool_name Call_list = ''list_devices''"
| "tool_name (Call_get i) = ''get_device''"
| "tool_name (Call_control inp) = ''control_device''"
| "tool_name (Call_add n) = ''add_device''"
| "tool_name Call_auth_status = ''get_auth_status''"
| "tool_name (Call_show_auth m) = ''show_auth''"
| "tool_name Call_show_add_device = ''show_add_device''"

fun run_tool ::
  "('x, 's) tool_deps \<Rightarrow> caller \<Rightarrow> string option \<Rightarrow> tool_call \<Rightarrow> token_cache \<times> 's \<Rightarrow> jsval \<times> token_cache \<times> 's" where
  "run_tool dp cl challenge Call_list st = list_tool dp cl challenge st"
| "run_tool dp cl challenge (Call_get i) st = get_tool dp cl challenge i st"
| "run_tool dp cl challenge (Call_control inp) st = control_tool dp cl challenge inp st"
| "run_tool dp cl challenge (Call_add n) st = add_tool dp cl challenge n st"
| "run_tool dp cl challenge Call_auth_status st = auth_status_tool dp cl st"
| "run_tool dp cl challenge (Call_show_auth m) st = (show_auth_tool m, st)"
| "run_tool dp cl challenge Call_show_add_device st = (show_add_device_tool, st)"

section \<open>The endpoint\<close>

text \<open>The limits of \<open>mcpRoutes\<close>, over the memory store.\<close>

definition mcp_limits :: "int \<Rightarrow> edge_state gate_limits" where
  "mcp_limits now =
     \<lparr>gl_address = (\<lambda>k s. case take_bucket memory_hit 60 60000 now now k (es_windows s) of (b, w) \<Rightarrow> (b, s\<lparr>es_windows := w\<rparr>)),
      gl_grant = (\<lambda>k s. case take_bucket memory_hit 600 60000 now now k (es_windows s) of (b, w) \<Rightarrow> (b, s\<lparr>es_windows := w\<rparr>))\<rparr>"

text \<open>What \<open>createApp\<close> gives the tools: everything in this process.\<close>

definition local_tools :: "env \<Rightarrow> signer list \<Rightarrow> workload \<Rightarrow> (clocks \<times> string) attempt \<Rightarrow> (clocks \<times> string) attempt \<Rightarrow> service_draw
   \<Rightarrow> bool \<Rightarrow> int \<Rightarrow> (clocks \<times> string, edge_state) tool_deps" where
  "local_tools env signers w tr tr' d enforcing now =
     \<lparr>dp_exchanger = edge_exchanger env signers w, dp_workload = w, dp_attempt = tr, dp_retry = tr',
      dp_devices = local_devices d, dp_account = (\<lambda>a s. (Inr (local_account a (es_db s)), s)),
      dp_spend = (\<lambda>kind g dev s. case spend memory_hit enforcing now kind g dev (es_windows s) of
                    (b, w') \<Rightarrow> (b, s\<lparr>es_windows := w'\<rparr>))\<rparr>"

end
