(* ===== verification/Edge_Theorems.thy ===== *)
theory Edge_Theorems
  imports Mcp_Tools
begin

text \<open>
  What the two edges guarantee in one process: the REST API's authentication, the gate of the MCP endpoint over a whole
  JSON-RPC body, and the error handler.
\<close>

section \<open>Facts\<close>

lemma local_oauth_ok:
  assumes "eg_oauth (local_edge env ck jose parse) token required audience s = (Inr (Token_ok v), s')"
  obtains t a g where "token = JStr t" "well_formed_str Access t" "access_join env (ck_db ck) t (es_db s) = Some (a, g)"
    "at_audience a = (case audience of None \<Rightarrow> resource_uri env | Some r \<Rightarrow> r)"
    "set required \<subseteq> set (scope_list (at_scope a))" "v = verified_of (ck_db ck) a g"
proof -
  have "fst (verify_access env ck token required audience (es_touched s, es_db s)) = Token_ok v"
    using assms by (auto simp: local_edge_def on_db_def local_oauth_def split: prod.splits)
  with that show ?thesis unfolding verify_access_ok by auto
qed

lemma local_oauth_live:
  assumes "access_join env (ck_db ck) t (es_db s) = Some (a, g)" "well_formed_str Access t"
    "at_audience a = (case audience of None \<Rightarrow> resource_uri env | Some r \<Rightarrow> r)" "set required \<subseteq> set (scope_list (at_scope a))"
  obtains tc db where "eg_oauth (local_edge env ck jose parse) (JStr t) required audience s
    = (Inr (Token_ok (verified_of (ck_db ck) a g)), s\<lparr>es_touched := tc, es_db := db\<rparr>)"
proof -
  have "fst (verify_access env ck (JStr t) required audience (es_touched s, es_db s)) = Token_ok (verified_of (ck_db ck) a g)"
    unfolding verify_access_ok using assms by auto
  then obtain tc db where "verify_access env ck (JStr t) required audience (es_touched s, es_db s)
      = (Token_ok (verified_of (ck_db ck) a g), tc, db)" by (metis prod.collapse)
  then have "eg_oauth (local_edge env ck jose parse) (JStr t) required audience s
    = (Inr (Token_ok (verified_of (ck_db ck) a g)), s\<lparr>es_touched := tc, es_db := db\<rparr>)"
    by (simp add: local_edge_def on_db_def local_oauth_def)
  with that show ?thesis by blast
qed

text \<open>A token bound to the key \<open>jkt\<close> came with the DPoP scheme and a proof by that key of this request and token.\<close>

definition proven :: "env \<Rightarrow> jose \<Rightarrow> url_parser \<Rightarrow> int \<Rightarrow> http_request \<Rightarrow> string \<Rightarrow> string \<Rightarrow> string \<Rightarrow> bool" where
  "proven env jose parse now_ms rq htu token jkt \<longleftrightarrow>
     (\<exists>p jti. hq_dpop rq = Some p
        \<and> proof_of env jose parse now_ms p
            \<lparr>ck_htm = hq_method rq, ck_htu = htu, ck_token = Some token, ck_expected = Some jkt\<rparr> jkt jti)"

lemma bound_proof_proven:
  assumes "bound_proof env eg now_ms sc rq htu token jkt s = (Inr k, s')" "truthy (Some jkt) \<noteq> None"
  shows "sc = DPoP_scheme \<and> k = jkt \<and> proven env (eg_jose eg) (eg_parse eg) now_ms rq htu token jkt"
proof (cases "hq_dpop rq")
  case None
  with assms show ?thesis by (auto simp: bound_proof_def verify_proof_def split: if_splits)
next
  case (Some p)
  let ?ck = "\<lparr>ck_htm = hq_method rq, ck_htu = htu, ck_token = Some token, ck_expected = Some jkt\<rparr>"
  have sc: "sc = DPoP_scheme" using assms(1) by (auto simp: bound_proof_def split: if_splits)
  with assms(1) Some obtain jti where j: "proof_of env (eg_jose eg) (eg_parse eg) now_ms p ?ck k jti"
    by (auto simp: bound_proof_def verify_proof_iff)
  then have "k = jkt" using assms(2) by (auto simp: proof_of_def)
  with sc Some j show ?thesis by (auto simp: proven_def)
qed

lemma local_edge_simps [simp]:
  "eg_jose (local_edge env ck jose parse) = jose" "eg_parse (local_edge env ck jose parse) = parse"
  by (simp_all add: local_edge_def)

text \<open>The live delegation behind a caller.\<close>

definition delegated :: "env \<Rightarrow> clocks \<Rightarrow> string \<Rightarrow> string \<Rightarrow> database \<Rightarrow> verified_caller \<Rightarrow> access_row \<Rightarrow> grant_row \<Rightarrow> bool" where
  "delegated env ck token audience db c a g \<longleftrightarrow>
     access_join env (ck_db ck) token db = Some (a, g) \<and> at_audience a = audience
     \<and> vc_account c = gr_account g \<and> vc_client c = gr_client g \<and> vc_grant c = gr_id g
     \<and> vc_scopes c = scope_list (at_scope a) \<and> vc_credential c = token"

lemma delegated_of_token:
  "access_join env (ck_db ck) t db = Some (a, g) \<Longrightarrow> at_audience a = aud \<Longrightarrow>
   delegated env ck t aud db (caller_of_token ch rid t (verified_of (ck_db ck) a g)) a g"
  using access_join_Some [of env "ck_db ck" t db a g]
  by (simp add: delegated_def caller_of_token_def verified_of_def live_grant_def)

section \<open>The REST API\<close>

text \<open>C16. The REST API knows a caller only by a live token of its own resource with a proof of possession: the token came
  in the Authorization header under the DPoP scheme, has not expired, belongs to a grant that is not revoked, was issued
  for the REST API and is bound to a key, and the request carries a fresh proof by that key for exactly this method, URL
  and token. The caller is the grant's account and client with the token's scopes.\<close>

theorem rest_caller_is_proven:
  assumes "authenticate env (local_edge env ck jose parse) now_ms required rid rq s = (Inr (Some c), hs, s')"
  shows "\<exists>t a g jkt. credential_from rq = Some \<lparr>cd_scheme = DPoP_scheme, cd_token = t\<rparr>
    \<and> delegated env ck t (api_resource env) (es_db s) c a g \<and> vc_channel c = Ch_native
    \<and> at_cnf_jkt a = Some jkt \<and> jkt \<noteq> []
    \<and> proven env jose parse now_ms rq (request_htu (en_api_base env) rq) t jkt"
proof -
  let ?eg = "local_edge env ck jose parse"
  obtain cred where cr: "credential_from rq = Some cred"
    using assms by (cases "credential_from rq") (auto simp: authenticate_def Let_def split: if_splits)
  let ?t = "cd_token cred"
  obtain v s1 jkt k s2 where v: "eg_oauth ?eg (JStr ?t) [] (Some (api_resource env)) s = (Inr (Token_ok v), s1)"
    "truthy (ve_jkt v) = Some jkt"
    "bound_proof env ?eg now_ms (cd_scheme cred) rq (request_htu (en_api_base env) rq) ?t jkt s1 = (Inr k, s2)"
    "c = caller_of_token Ch_native rid ?t v"
    using assms cr
    by (auto simp: authenticate_def Let_def split: if_splits prod.splits sum.splits verified_token.splits option.splits error.splits)
  have j: "ve_jkt v = Some jkt" "jkt \<noteq> []" "truthy (Some jkt) \<noteq> None"
    using v(2) by (cases "ve_jkt v"; auto split: if_splits)+
  obtain a g where a: "access_join env (ck_db ck) ?t (es_db s) = Some (a, g)" "at_audience a = api_resource env" "v = verified_of (ck_db ck) a g"
    using v(1) by (rule local_oauth_ok) auto
  have "cd_scheme cred = DPoP_scheme" "proven env jose parse now_ms rq (request_htu (en_api_base env) rq) ?t jkt"
    using bound_proof_proven [OF v(3) j(3)] by simp_all
  moreover have "at_cnf_jkt a = Some jkt" using j(1) a(3) by (simp add: verified_of_def)
  moreover have "vc_channel c = Ch_native" by (simp add: v(4) caller_of_token_def)
  ultimately show ?thesis
    using cr j(2) delegated_of_token [OF a(1,2), of Ch_native rid] a(3) v(4) by (cases cred) auto
qed

section \<open>The gate\<close>

lemma gate_caller:
  assumes "gate env cfg (local_edge env ck jose parse) lim now_ms rid rq s = (Inr (Proceed (Verified_caller c) ch), hs, s')"
  shows "\<exists>cred a g. credential_from rq = Some cred \<and> delegated env ck (cd_token cred) (resource_uri env) (es_db s) c a g
    \<and> vc_channel c = Ch_mcp \<and> set (protected_scopes (hq_body rq)) \<subseteq> set (vc_scopes c)
    \<and> (case truthy (at_cnf_jkt a) of None \<Rightarrow> True
       | Some jkt \<Rightarrow> cd_scheme cred = DPoP_scheme \<and> proven env jose parse now_ms rq (resource_uri env) (cd_token cred) jkt)"
proof -
  let ?eg = "local_edge env ck jose parse"
  obtain cred where cr: "credential_from rq = Some cred"
    using assms by (cases "credential_from rq")
      (auto simp: gate_def gate_decision_def Let_def split: if_splits prod.splits bucket_result.splits)
  let ?t = "cd_token cred"
  obtain v s1 where v: "eg_oauth ?eg (JStr ?t) (protected_scopes (hq_body rq)) None s = (Inr (Token_ok v), s1)"
    "c = caller_of_token Ch_mcp rid ?t v"
    "truthy (ve_jkt v) = None \<or> (\<exists>jkt s2 k s3. truthy (ve_jkt v) = Some jkt
       \<and> bound_proof env ?eg now_ms (cd_scheme cred) rq (resource_uri env) ?t jkt s2 = (Inr k, s3))"
    using assms cr
    by (auto simp: gate_def gate_decision_def Let_def
        split: if_splits prod.splits sum.splits verified_token.splits option.splits error.splits bucket_result.splits)
  obtain a g where a: "access_join env (ck_db ck) ?t (es_db s) = Some (a, g)" "at_audience a = resource_uri env"
    "set (protected_scopes (hq_body rq)) \<subseteq> set (scope_list (at_scope a))" "v = verified_of (ck_db ck) a g"
    using v(1) by (rule local_oauth_ok) auto
  have j: "ve_jkt v = at_cnf_jkt a" using a(4) by (simp add: verified_of_def)
  have "case truthy (at_cnf_jkt a) of None \<Rightarrow> True
       | Some jkt \<Rightarrow> cd_scheme cred = DPoP_scheme \<and> proven env jose parse now_ms rq (resource_uri env) ?t jkt"
  proof (cases "truthy (at_cnf_jkt a)")
    case (Some jkt)
    then have "truthy (Some jkt) \<noteq> None" by (cases "at_cnf_jkt a") (auto split: if_splits)
    with v(3) j Some bound_proof_proven [of env ?eg now_ms "cd_scheme cred" rq "resource_uri env" ?t jkt] show ?thesis by fastforce
  qed simp
  moreover have "vc_channel c = Ch_mcp" "vc_scopes c = scope_list (at_scope a)"
    by (simp_all add: v(2) a(4) caller_of_token_def verified_of_def)
  ultimately show ?thesis
    using cr delegated_of_token [OF a(1,2), of Ch_mcp rid] a(3,4) v(2) by auto
qed

lemma gate_scopes:
  "gate env cfg (local_edge env ck jose parse) lim now_ms rid rq s = (Inr (Proceed (Verified_caller c) ch), hs, s') \<Longrightarrow>
   set (protected_scopes (hq_body rq)) \<subseteq> set (vc_scopes c)"
  using gate_caller by metis

text \<open>The MCP endpoint knows a caller only by a live token of the MCP resource that has every scope any protected call of
  the body needs; and where the token is bound to a key, only with the DPoP scheme and a proof by that key for this
  method, the endpoint's URL and this token. The caller is the grant's account and client with the token's scopes.\<close>

theorem gate_caller_is_genuine:
  assumes "gate env cfg (local_edge env ck jose parse) lim now_ms rid rq s = (Inr (Proceed (Verified_caller c) ch), hs, s')"
  shows "\<exists>cred a g. credential_from rq = Some cred \<and> delegated env ck (cd_token cred) (resource_uri env) (es_db s) c a g
    \<and> vc_channel c = Ch_mcp \<and> set (protected_scopes (hq_body rq)) \<subseteq> set (vc_scopes c)
    \<and> (case truthy (at_cnf_jkt a) of None \<Rightarrow> True
       | Some jkt \<Rightarrow> cd_scheme cred = DPoP_scheme \<and> proven env jose parse now_ms rq (resource_uri env) (cd_token cred) jkt)"
  using assms by (rule gate_caller)

lemma remdups_scopes: "set (protected_scopes body) = {sc. \<exists>n \<in> set (protected_tools body). truthy (required_scope_for n) = Some sc}"
  by (force simp: protected_scopes_def some_list_def split: option.splits)

lemma protected_tools_iff:
  "n \<in> set (protected_tools body) \<longleftrightarrow> is_protected n \<and> (\<exists>m \<in> set (messages body). called_tool m = Some n)"
  by (force simp: protected_tools_def some_list_def split: option.splits)

lemma protected_scope:
  "required_scope_for n = Some sc \<Longrightarrow> is_protected n \<and> truthy (required_scope_for n) = Some sc"
  by (auto simp: required_scope_for_def is_protected_def policy_for_def tool_policies_def split: option.splits if_splits)

lemma run_tool_anonymous:
  "is_protected (tool_name call) \<Longrightarrow> run_tool dp (Anonymous_caller r) ch call st = (tool_error unauthenticated ch, st)"
  by (cases call)
    (simp_all add: list_tool_def get_tool_def control_tool_def add_tool_def is_protected_def policy_for_def tool_policies_def)

text \<open>C15. A batch runs nothing that was not authorised. When the gate lets a body through, then for every tool that any message
  of the body calls: a verified caller's token has the scope of that tool; and for an anonymous caller a protected tool
  refuses without touching anything, which happens only where the deployment wants challenges as tool results. A call of
  a tool that does not exist counts as protected.\<close>

theorem gate_authorizes_batch:
  assumes "gate env cfg (local_edge env ck jose parse) lim now_ms rid rq s = (Inr (Proceed cl ch), hs, s')"
    and "m \<in> set (messages (hq_body rq))" "called_tool m = Some n"
  shows "(\<forall>c sc. cl = Verified_caller c \<and> required_scope_for n = Some sc \<longrightarrow> sc \<in> set (vc_scopes c))
    \<and> (\<forall>r. cl = Anonymous_caller r \<and> is_protected n \<longrightarrow> wants_tool_challenge cfg rq
        \<and> (\<forall>call. tool_name call = n \<longrightarrow> run_tool dp cl ch call st = (tool_error unauthenticated ch, st)))"
proof (intro conjI allI impI)
  fix c sc
  assume a: "cl = Verified_caller c \<and> required_scope_for n = Some sc"
  then have "gate env cfg (local_edge env ck jose parse) lim now_ms rid rq s = (Inr (Proceed (Verified_caller c) ch), hs, s')"
    using assms(1) by simp
  from gate_scopes [OF this] have "set (protected_scopes (hq_body rq)) \<subseteq> set (vc_scopes c)" .
  moreover have "sc \<in> set (protected_scopes (hq_body rq))"
    unfolding remdups_scopes using protected_scope a assms(2,3) protected_tools_iff by blast
  ultimately show "sc \<in> set (vc_scopes c)" by blast
next
  fix r
  assume a: "cl = Anonymous_caller r \<and> is_protected n"
  then have "n \<in> set (protected_tools (hq_body rq))" unfolding protected_tools_iff using assms(2,3) by blast
  then have "length (protected_tools (hq_body rq)) \<noteq> 0" by auto
  with assms(1) a show "wants_tool_challenge cfg rq"
    by (auto simp: gate_def gate_decision_def Let_def
        split: if_splits prod.splits sum.splits verified_token.splits option.splits error.splits bucket_result.splits)
next
  fix r call
  assume "cl = Anonymous_caller r \<and> is_protected n" "tool_name call = n"
  then show "run_tool dp cl ch call st = (tool_error unauthenticated ch, st)" using run_tool_anonymous by blast
qed

section \<open>A small edge\<close>

lemma trim_no_ws: "\<forall>c \<in> set s. \<not> is_ws c \<Longrightarrow> trim s = s"
  by (simp add: trim_def dropWhile_eq_self_iff hd_rev) (metis hd_in_set dropWhile_eq_self_iff rev_rev_ident set_rev)

lemma b64url_char_ws: "b64url_char c \<Longrightarrow> \<not> is_ws c"
  by (auto simp: b64url_char_def is_ws_def is_alnum_def Let_def)

lemma base62_digit_ws: "n < 62 \<Longrightarrow> \<not> is_ws (base62_digit n)"
  using nth_mem [of n "''0123456789ABCDEFGHIJKLMNOPQRSTUVWXYZabcdefghijklmnopqrstuvwxyz''"]
  by (auto simp: base62_digit_def is_ws_def)

lemma base62_loop_plain: "\<forall>c \<in> set out. \<not> is_ws c \<Longrightarrow> \<forall>c \<in> set (base62_loop w r out). \<not> is_ws c"
proof (induction w arbitrary: r out)
  case (Suc w)
  have "\<forall>c \<in> set (base62_digit (r mod 62) # out). \<not> is_ws c" using Suc.prems by (simp add: base62_digit_ws)
  from Suc.IH [OF this] show ?case by simp
qed simp

lemma mint_plain: "\<forall>c \<in> set (mint k rnd). \<not> is_ws c"
proof -
  have "\<forall>c \<in> set (token_prefix k). \<not> is_ws c" by (cases k) (simp_all add: is_ws_def)
  then show ?thesis
    using b64url_char_ws base64url_chars base62_loop_plain [of "[]"]
    by (auto simp: mint_def Let_def checksum_def base62_def)
qed

text \<open>A header of scheme, space and token is read back.\<close>

lemma lower_scheme:
  "map lower_char ''DPoP'' = ''dpop''" "map lower_char ''Bearer'' = ''bearer''" "lower_char (CHR ''D'') = CHR ''d''"
  "lower_char (CHR ''P'') = CHR ''p''" "lower_char (CHR ''o'') = CHR ''o''" "lower_char (CHR ''B'') = CHR ''b''"
  "lower_char (CHR ''e'') = CHR ''e''" "lower_char (CHR ''a'') = CHR ''a''" "lower_char (CHR ''r'') = CHR ''r''"
  by code_simp+

lemma credential_roundtrip:
  assumes "t \<noteq> []" "\<forall>c \<in> set t. \<not> is_ws c"
  shows "hq_authorization rq = Some (''DPoP '' @ t) \<Longrightarrow> credential_from rq = Some \<lparr>cd_scheme = DPoP_scheme, cd_token = t\<rparr>"
    "hq_authorization rq = Some (''Bearer '' @ t) \<Longrightarrow> credential_from rq = Some \<lparr>cd_scheme = Bearer_scheme, cd_token = t\<rparr>"
proof -
  have l: "List.last t \<in> set t" "hd t \<in> set t" using assms(1) by simp_all
  have tr: "trim (c # s @ t) = c # s @ t" if "\<not> is_ws c" for c s
  proof -
    have "dropWhile is_ws (rev t @ rev s @ [c]) = rev t @ rev s @ [c]"
      using assms l by (cases "rev t") (auto simp: dropWhile_eq_self_iff)
    then show ?thesis using that by (simp add: trim_def)
  qed
  have d: "dropWhile is_space t = t" using assms l by (cases t) (auto simp: is_space_def is_ws_def)
  have b: "\<not> (\<exists>c \<in> set t. line_break c)" using assms(2) by (auto simp: line_break_def is_ws_def)
  have ns: "\<exists>x \<in> set t. \<not> is_space x" using assms l(2) is_space_ws by blast
  have ws: "\<not> is_ws (CHR ''D'')" "\<not> is_ws (CHR ''B'')" "is_space (CHR '' '')" by (simp_all add: is_ws_def is_space_def)
  show "hq_authorization rq = Some (''DPoP '' @ t) \<Longrightarrow> credential_from rq = Some \<lparr>cd_scheme = DPoP_scheme, cd_token = t\<rparr>"
    using tr [OF ws(1), of "''PoP ''"] ws(3) d b ns assms
    by (simp add: credential_from_def scheme_rest_def to_lower_def lower_scheme trim_no_ws)
  show "hq_authorization rq = Some (''Bearer '' @ t) \<Longrightarrow> credential_from rq = Some \<lparr>cd_scheme = Bearer_scheme, cd_token = t\<rparr>"
    using tr [OF ws(2), of "''earer ''"] ws(3) d b ns assms
    by (simp add: credential_from_def scheme_rest_def to_lower_def lower_scheme trim_no_ws)
qed

definition demo_api_access :: access_row where
  "demo_api_access = \<lparr>at_hash = demo_hash Access demo_rnd, at_grant = ''g1'', at_audience = ''https://api'',
     at_scope = ''devices:read'', at_cnf_jkt = Some ''jkt'', at_expires_at = secs 600\<rparr>"

definition demo_api_grant :: grant_row where
  "demo_api_grant = \<lparr>gr_id = ''g1'', gr_account = ''ann'', gr_client = ''app'', gr_resource = ''https://api'',
     gr_scope = ''devices:read'', gr_dpop_jkt = Some ''jkt'', gr_created_at = 0, gr_last_used = None, gr_revoked_at = None\<rparr>"

definition demo_edge_state :: "database \<Rightarrow> edge_state" where
  "demo_edge_state db = \<lparr>es_touched = [], es_db = db, es_windows = [], es_seen = []\<rparr>"

definition demo_api_state :: edge_state where
  "demo_api_state = demo_edge_state (demo_account_db\<lparr>t_access := [demo_api_access], t_grants := [demo_api_grant]\<rparr>)"

definition demo_edge_jose :: jose where
  "demo_edge_jose = \<lparr>jo_header = (\<lambda>s. Some (JObj [(''jwk'', demo_jwk)])),
     jo_verify = (\<lambda>now s. Inr (JObj [(''jti'', JStr ''12345678''), (''htm'', JStr ''GET''), (''htu'', JStr ''u''),
        (''ath'', JStr (base64url (mint Access demo_rnd))), (''nonce'', JStr (nonce_for demo_env 0))])),
     jo_thumbprint = (\<lambda>j. ''jkt'')\<rparr>"

definition demo_http_request :: http_request where
  "demo_http_request = \<lparr>hq_method = ''GET'', hq_path = ''/v1/me'', hq_original_url = ''/v1/me'',
     hq_authorization = Some (''DPoP '' @ mint Access demo_rnd), hq_dpop = Some ''p'', hq_idempotency_key = None,
     hq_verified_client = None, hq_ip = None, hq_body = JUndefined\<rparr>"

lemma demo_upper_get: "to_upper ''GET'' = ''GET''"
  by code_simp

lemma demo_mint_ne_Nil: "mint k demo_rnd \<noteq> []"
  using length_mint [OF demo_rnd_length, of k] by auto

lemma demo_authenticate:
  "\<exists>c hs s'. authenticate demo_env (local_edge demo_env demo_clocks demo_edge_jose demo_parser) 5 True ''q'' demo_http_request demo_api_state
     = (Inr (Some c), hs, s')"
proof -
  let ?eg = "local_edge demo_env demo_clocks demo_edge_jose demo_parser" and ?t = "mint Access demo_rnd"
  have cr: "credential_from demo_http_request = Some \<lparr>cd_scheme = DPoP_scheme, cd_token = ?t\<rparr>"
    by (rule credential_roundtrip(1) [OF demo_mint_ne_Nil mint_plain]) (simp add: demo_http_request_def)
  have j: "access_join demo_env 5 ?t (es_db demo_api_state) = Some (demo_api_access, demo_api_grant)"
    by (simp add: access_join_def access_live_def live_grant_def demo_api_state_def demo_edge_state_def demo_api_access_def
        demo_api_grant_def demo_digest secs_def)
  have api: "api_resource demo_env = ''https://api''" by (simp add: api_resource_def demo_env_def)
  have c5: "ck_db demo_clocks = 5" by (simp add: demo_clocks_def)
  have aud: "at_audience demo_api_access = (case Some (api_resource demo_env) of None \<Rightarrow> resource_uri demo_env | Some r \<Rightarrow> r)"
    by (simp add: api demo_api_access_def)
  obtain tc db where o: "eg_oauth ?eg (JStr ?t) [] (Some (api_resource demo_env)) demo_api_state
      = (Inr (Token_ok (verified_of (ck_db demo_clocks) demo_api_access demo_api_grant)), demo_api_state\<lparr>es_touched := tc, es_db := db\<rparr>)"
    by (rule local_oauth_live [OF j [folded c5] mint_well_formed_str [OF demo_rnd_length] aud, of "[]" demo_edge_jose demo_parser])
      simp_all
  obtain s1 where v: "eg_oauth ?eg (JStr ?t) [] (Some (api_resource demo_env)) demo_api_state
      = (Inr (Token_ok (verified_of 5 demo_api_access demo_api_grant)), s1)" "es_seen s1 = []"
    using o by (simp add: c5 demo_api_state_def demo_edge_state_def)
  have pf: "proof_of demo_env demo_edge_jose demo_parser 5 ''p''
      \<lparr>ck_htm = ''GET'', ck_htu = htu, ck_token = Some ?t, ck_expected = Some ''jkt''\<rparr> ''jkt'' ''12345678''" for htu
    by (simp add: proof_of_def demo_edge_jose_def demo_jwk_def normalize_htu_def demo_parser_def nonce_valid_def demo_upper_get Let_def)
      (simp add: demo_env_def)
  have "eg_claim ?eg 5 (jti_key ''jkt'' ''12345678'') jti_ttl s1
      = (True, s1\<lparr>es_seen := snd (memory_claim 5 (jti_key ''jkt'' ''12345678'') jti_ttl [])\<rparr>)"
    by (simp add: local_edge_def v(2) memory_claim_def split: prod.splits)
  with pf have "\<exists>s2. bound_proof demo_env ?eg 5 DPoP_scheme demo_http_request htu ?t ''jkt'' s1 = (Inr ''jkt'', s2)" for htu
    unfolding bound_proof_def by (simp add: demo_http_request_def verify_proof_iff) blast
  then obtain s2 where "bound_proof demo_env ?eg 5 DPoP_scheme demo_http_request
      (request_htu (en_api_base demo_env) demo_http_request) ?t ''jkt'' s1 = (Inr ''jkt'', s2)" by blast
  moreover have "truthy (ve_jkt (verified_of 5 demo_api_access demo_api_grant)) = Some ''jkt''"
    by (simp add: verified_of_def demo_api_access_def)
  ultimately show ?thesis
    using cr v(1) demo_mint_ne_Nil by (simp add: authenticate_def)
qed

theorem rest_caller_is_proven_witness:
  "\<exists>c hs s' jkt. authenticate demo_env (local_edge demo_env demo_clocks demo_edge_jose demo_parser) 5 True ''q'' demo_http_request
       demo_api_state = (Inr (Some c), hs, s')
     \<and> proven demo_env demo_edge_jose demo_parser 5 demo_http_request (request_htu (en_api_base demo_env) demo_http_request)
         (mint Access demo_rnd) jkt"
proof -
  obtain c hs s' where e: "authenticate demo_env (local_edge demo_env demo_clocks demo_edge_jose demo_parser) 5 True ''q''
      demo_http_request demo_api_state = (Inr (Some c), hs, s')"
    using demo_authenticate by blast
  have "credential_from demo_http_request = Some \<lparr>cd_scheme = DPoP_scheme, cd_token = mint Access demo_rnd\<rparr>"
    by (rule credential_roundtrip(1) [OF demo_mint_ne_Nil mint_plain]) (simp add: demo_http_request_def)
  with rest_caller_is_proven [OF e] e show ?thesis by fastforce
qed

definition demo_mcp_request :: http_request where
  "demo_mcp_request = \<lparr>hq_method = ''POST'', hq_path = ''/mcp'', hq_original_url = ''/mcp'',
     hq_authorization = Some (''Bearer '' @ mint Access demo_rnd), hq_dpop = None, hq_idempotency_key = None,
     hq_verified_client = None, hq_ip = None,
     hq_body = JArr [JObj [(''method'', JStr ''tools/call''), (''params'', JObj [(''name'', JStr ''list_devices'')])]]\<rparr>"

definition demo_gate_config :: gate_config where
  "demo_gate_config = \<lparr>gc_tool_challenge = None, gc_trust_proxy = None\<rparr>"

lemma demo_gate:
  "\<exists>c hs s'. gate demo_env demo_gate_config (local_edge demo_env demo_clocks demo_edge_jose demo_parser) (mcp_limits 5) 5 ''q''
     demo_mcp_request (demo_edge_state demo_grants) = (Inr (Proceed (Verified_caller c) None), hs, s')"
proof -
  let ?eg = "local_edge demo_env demo_clocks demo_edge_jose demo_parser" and ?t = "mint Access demo_rnd"
  let ?a = "new_access demo_env 0 (demo_hash Access demo_rnd) (gr_id demo_grant_row) ''https://mcp/mcp'' ''devices:read devices:control'' None"
  have cr: "credential_from demo_mcp_request = Some \<lparr>cd_scheme = Bearer_scheme, cd_token = ?t\<rparr>"
    by (rule credential_roundtrip(2) [OF demo_mint_ne_Nil mint_plain]) (simp add: demo_mcp_request_def)
  have c5: "ck_db demo_clocks = 5" by (simp add: demo_clocks_def)
  have j: "access_join demo_env (ck_db demo_clocks) ?t (es_db (demo_edge_state demo_grants)) = Some (?a, demo_grant_row)"
    by (simp add: c5 demo_edge_state_def access_join_def access_live_def live_grant_def demo_grants_tables demo_digest demo_lifetime
        secs_def demo_grant_simps)
  have aud: "at_audience ?a = (case None of None \<Rightarrow> resource_uri demo_env | Some r \<Rightarrow> r)"
    by (simp add: resource_uri_def demo_env_def)
  have sc: "protected_scopes (hq_body demo_mcp_request) = [''devices:read'']"
    by (simp add: demo_mcp_request_def protected_scopes_def protected_tools_def messages_def called_tool_def some_list_def
        is_protected_def policy_for_def tool_policies_def required_scope_for_def)
  have "set (protected_scopes (hq_body demo_mcp_request)) \<subseteq> set (scope_list (at_scope ?a))"
    by (simp add: sc scope_list_def words_on_def is_space_def)
  then obtain tc db where o: "eg_oauth ?eg (JStr ?t) (protected_scopes (hq_body demo_mcp_request)) None (demo_edge_state demo_grants)
      = (Inr (Token_ok (verified_of (ck_db demo_clocks) ?a demo_grant_row)), (demo_edge_state demo_grants)\<lparr>es_touched := tc, es_db := db\<rparr>)"
    using local_oauth_live [OF j mint_well_formed_str [OF demo_rnd_length] aud] by metis
  have "\<exists>s2. gate_limit (mcp_limits 5) demo_mcp_request (Some (Token_ok (verified_of (ck_db demo_clocks) ?a demo_grant_row)))
      ((demo_edge_state demo_grants)\<lparr>es_touched := tc, es_db := db\<rparr>) = (Granted, s2)"
    by (simp add: gate_limit_def mcp_limits_def verified_of_def demo_grant_row_def new_id_def demo_edge_state_def take_bucket_def
        memory_hit_def Let_def split: prod.splits option.splits)
  moreover have "truthy (ve_jkt (verified_of (ck_db demo_clocks) ?a demo_grant_row)) = None" by (simp add: verified_of_def)
  ultimately show ?thesis
    using cr o demo_mint_ne_Nil by (auto simp: gate_def gate_decision_def Let_def)
qed

theorem gate_caller_is_genuine_witness:
  "\<exists>c hs s' cred a g. gate demo_env demo_gate_config (local_edge demo_env demo_clocks demo_edge_jose demo_parser) (mcp_limits 5) 5 ''q''
     demo_mcp_request (demo_edge_state demo_grants) = (Inr (Proceed (Verified_caller c) None), hs, s')
     \<and> credential_from demo_mcp_request = Some cred
     \<and> delegated demo_env demo_clocks (cd_token cred) (resource_uri demo_env) demo_grants c a g \<and> ''devices:read'' \<in> set (vc_scopes c)"
proof -
  obtain c hs s' where e: "gate demo_env demo_gate_config (local_edge demo_env demo_clocks demo_edge_jose demo_parser) (mcp_limits 5) 5 ''q''
     demo_mcp_request (demo_edge_state demo_grants) = (Inr (Proceed (Verified_caller c) None), hs, s')"
    using demo_gate by blast
  have "''devices:read'' \<in> set (protected_scopes (hq_body demo_mcp_request))"
    by (simp add: demo_mcp_request_def protected_scopes_def protected_tools_def messages_def called_tool_def some_list_def
        is_protected_def policy_for_def tool_policies_def required_scope_for_def)
  moreover have db: "es_db (demo_edge_state demo_grants) = demo_grants" by (simp add: demo_edge_state_def)
  obtain cred a g where "credential_from demo_mcp_request = Some cred"
    "delegated demo_env demo_clocks (cd_token cred) (resource_uri demo_env) demo_grants c a g"
    "set (protected_scopes (hq_body demo_mcp_request)) \<subseteq> set (vc_scopes c)"
    using gate_caller_is_genuine [OF e, unfolded db] by (elim exE conjE) (rule that)
  ultimately show ?thesis using e by blast
qed

theorem gate_authorizes_batch_witness:
  "\<exists>c hs s'. gate demo_env demo_gate_config (local_edge demo_env demo_clocks demo_edge_jose demo_parser) (mcp_limits 5) 5 ''q''
     demo_mcp_request (demo_edge_state demo_grants) = (Inr (Proceed (Verified_caller c) None), hs, s')
     \<and> ''devices:read'' \<in> set (vc_scopes c)"
proof -
  obtain c hs s' where e: "gate demo_env demo_gate_config (local_edge demo_env demo_clocks demo_edge_jose demo_parser) (mcp_limits 5) 5 ''q''
     demo_mcp_request (demo_edge_state demo_grants) = (Inr (Proceed (Verified_caller c) None), hs, s')"
    using demo_gate by blast
  let ?m = "JObj [(''method'', JStr ''tools/call''), (''params'', JObj [(''name'', JStr ''list_devices'')])]"
  have m: "?m \<in> set (messages (hq_body demo_mcp_request))" "called_tool ?m = Some ''list_devices''"
    "required_scope_for ''list_devices'' = Some ''devices:read''"
    by (simp_all add: demo_mcp_request_def messages_def called_tool_def required_scope_for_def policy_for_def tool_policies_def)
  from gate_authorizes_batch [OF e m(1,2)] m(3) e show ?thesis by blast
qed

section \<open>Errors\<close>

text \<open>One of the two envelopes: of the REST API, or of JSON-RPC.\<close>

definition error_body :: "string \<Rightarrow> jsval \<Rightarrow> bool" where
  "error_body rid b \<longleftrightarrow> (\<exists>e. b = to_body e rid \<or> (\<exists>n. b = rpc_error n (ae_message e) (code_name (ae_code e)) rid))"

lemma error_body_send: "error_body rid (rp_body (send_error rpc rid st n m c))"
  unfolding error_body_def by (cases rpc) (auto simp: send_error_def intro!: exI [of _ "new_app_error c (Some m) None"])

lemma error_body_handler: "error_body rid (rp_body (error_handler ps path rid th))"
proof (cases th)
  case (Thrown e)
  show ?thesis
  proof (cases e)
    case (AppError a)
    with Thrown show ?thesis by (auto simp: error_handler_def error_body_def)
  qed (simp_all add: Thrown error_handler_def error_body_send Let_def)
qed (simp add: error_handler_def error_body_send Let_def)

text \<open>Errors disclose nothing. Every response of the error handler carries the request id and a code of the closed set;
  an application error keeps its status, code and message; and any other exception, whatever it is and whatever its
  message says, is answered with the same fixed response, status 500.\<close>

theorem error_handler_discloses_nothing:
  "(is_app_error e \<or> error_handler ps path rid (Thrown e) =
        json_reply 500 (if path \<in> set ps then rpc_error (- 32603) ''Internal error'' ''INTERNAL_ERROR'' rid
                        else to_body (new_app_error INTERNAL_ERROR (Some ''Unexpected error.'') None) rid))
   \<and> rp_status (error_handler ps path rid (Thrown (AppError a))) = error_status (ae_code a)
   \<and> error_body rid (rp_body (error_handler ps path rid th))"
proof (intro conjI)
  show "is_app_error e \<or> error_handler ps path rid (Thrown e) =
        json_reply 500 (if path \<in> set ps then rpc_error (- 32603) ''Internal error'' ''INTERNAL_ERROR'' rid
                        else to_body (new_app_error INTERNAL_ERROR (Some ''Unexpected error.'') None) rid)"
    by (cases e) (simp_all add: error_handler_def send_error_def Let_def)
qed (simp_all add: error_body_handler, simp add: error_handler_def app_status_def)

end
