(* ===== verification/Rest_Api.thy ===== *)
theory Rest_Api
  imports Mcp_Tools
begin

text \<open>
  The REST API: \<open>server/src/http/routes-devices.ts\<close>, \<open>server/src/http/routes-account.ts\<close> and \<open>apiRouter\<close> of
  \<open>server/src/http/app.ts\<close>. A handler runs after \<open>authenticate\<close> and gives the response, or an exception for the error
  handler with the headers set so far.
\<close>

type_synonym 's handler_result = "(error \<times> headers + reply) \<times> token_cache \<times> 's"

definition ok_reply :: "nat \<Rightarrow> jsval \<Rightarrow> error \<times> headers + reply" where
  "ok_reply status body = Inr (json_reply status body)"

text \<open>\<open>refuseOverBudget\<close>.\<close>

definition refuse_over_budget :: "int \<Rightarrow> error \<times> headers" where
  "refuse_over_budget retry = (over_budget retry, [(''retry-after'', int_str retry)])"

definition get_devices :: "('x, 's) tool_deps \<Rightarrow> verified_caller \<Rightarrow> token_cache \<times> 's \<Rightarrow> 's handler_result" where
  "get_devices dp c st =
     (case run_for dp c ''devices:read'' (\<lambda>t peer. sv_list (dp_devices dp) t peer (vc_request c)) st of
        (Inl e, st') \<Rightarrow> (Inl (e, []), st')
      | (Inr ds, st') \<Rightarrow> (ok_reply 200 (JObj [(''devices'', JArr ds)]), st'))"

definition get_device_route :: "('x, 's) tool_deps \<Rightarrow> verified_caller \<Rightarrow> string \<Rightarrow> token_cache \<times> 's \<Rightarrow> 's handler_result" where
  "get_device_route dp c device_id st =
     (case run_for dp c ''devices:read'' (\<lambda>t peer. sv_get (dp_devices dp) t peer (vc_request c) device_id) st of
        (Inl e, st') \<Rightarrow> (Inl (e, []), st')
      | (Inr d, st') \<Rightarrow> (ok_reply 200 (JObj [(''device'', d)]), st'))"

definition put_state :: "('x, 's) tool_deps \<Rightarrow> verified_caller \<Rightarrow> string \<Rightarrow> jsval \<Rightarrow> token_cache \<times> 's \<Rightarrow> 's handler_result" where
  "put_state dp c device_id body st =
     (if jfield body ''expectedVersion'' = JUndefined
      then (Inl (app_err_field VALIDATION_FAILED ''expectedVersion is required.'' ''expectedVersion'', []), st)
      else (case spend_for dp Write_control (vc_grant c) (Some (control_key c device_id)) st of
        (Refused retry, st1) \<Rightarrow> (Inl (refuse_over_budget retry), st1)
      | (Granted, st1) \<Rightarrow>
          (case run_for dp c ''devices:control'' (\<lambda>t peer. sv_control (dp_devices dp) t peer (vc_request c)
                   \<lparr>ci_device = device_id, ci_state = jfield body ''state'', ci_expected = jfield body ''expectedVersion''\<rparr>) st1 of
             (Inl e, st') \<Rightarrow> (Inl (e, []), st')
           | (Inr d, st') \<Rightarrow> (ok_reply 200 (JObj [(''device'', d)]), st'))))"

text \<open>The Idempotency-Key header counts when it is there, not empty and at most 200 characters long.\<close>

definition usable_key :: "string option \<Rightarrow> string option" where
  "usable_key key = (case truthy key of None \<Rightarrow> None | Some k \<Rightarrow> if length k \<le> 200 then Some k else None)"

definition post_device ::
  "('x, 's) tool_deps \<Rightarrow> verified_caller \<Rightarrow> string option \<Rightarrow> jsval \<Rightarrow> token_cache \<times> 's \<Rightarrow> 's handler_result" where
  "post_device dp c key body st =
     (case as_str (jfield body ''name'') of
        None \<Rightarrow> (Inl (app_err_field VALIDATION_FAILED ''Device name is required.'' ''name'', []), st)
      | Some name \<Rightarrow>
          (case spend_for dp Write_create (vc_grant c) None st of
             (Refused retry, st1) \<Rightarrow> (Inl (refuse_over_budget retry), st1)
           | (Granted, st1) \<Rightarrow>
               (case run_for dp c ''devices:create'' (\<lambda>t peer. sv_add (dp_devices dp) t peer (vc_request c)
                        \<lparr>ad_name = Some name, ad_key = usable_key key\<rparr>) st1 of
                  (Inl e, st') \<Rightarrow> (Inl (e, []), st')
                | (Inr d, st') \<Rightarrow> (ok_reply 201 (JObj [(''device'', d)]), st'))))"

definition get_me :: "('x, 's) tool_deps \<Rightarrow> verified_caller \<Rightarrow> token_cache \<times> 's \<Rightarrow> 's handler_result" where
  "get_me dp c st =
     (case dp_account dp (vc_account c) (snd st) of
        (Inl e, s) \<Rightarrow> (Inl (e, []), fst st, s)
      | (Inr None, s) \<Rightarrow> (Inl (app_err UNAUTHENTICATED, []), fst st, s)
      | (Inr (Some a), s) \<Rightarrow> (ok_reply 200 (JObj [(''account'', account_json a)]), fst st, s))"

section \<open>Routing\<close>

datatype route = Route_me | Route_devices | Route_device string | Route_state string | Route_new_device

definition is_slash :: "char \<Rightarrow> bool" where
  "is_slash c \<longleftrightarrow> c = CHR ''/''"

text \<open>Express matches case-insensitively, and a slash at the end is optional; a parameter is not empty.\<close>

definition path_parts :: "string \<Rightarrow> string list" where
  "path_parts path = (let ps = split_on is_slash path in if 1 < length ps \<and> List.last ps = [] then butlast ps else ps)"

definition route_of :: "string \<Rightarrow> string \<Rightarrow> route option" where
  "route_of verb path =
     (let ps = path_parts path; ls = map to_lower ps in
      if verb = ''GET'' \<and> ls = ['''', ''v1'', ''me''] then Some Route_me
      else if verb = ''GET'' \<and> ls = ['''', ''v1'', ''devices''] then Some Route_devices
      else if verb = ''POST'' \<and> ls = ['''', ''v1'', ''devices''] then Some Route_new_device
      else if verb = ''GET'' \<and> length ls = 4 \<and> take 3 ls = ['''', ''v1'', ''devices''] \<and> ps ! 3 \<noteq> [] then Some (Route_device (ps ! 3))
      else if verb = ''PUT'' \<and> length ls = 5 \<and> take 3 ls = ['''', ''v1'', ''devices''] \<and> ls ! 4 = ''state'' \<and> ps ! 3 \<noteq> []
      then Some (Route_state (ps ! 3))
      else None)"

fun run_route :: "('x, 's) tool_deps \<Rightarrow> verified_caller \<Rightarrow> http_request \<Rightarrow> route \<Rightarrow> token_cache \<times> 's \<Rightarrow> 's handler_result" where
  "run_route dp c rq Route_me st = get_me dp c st"
| "run_route dp c rq Route_devices st = get_devices dp c st"
| "run_route dp c rq (Route_device i) st = get_device_route dp c i st"
| "run_route dp c rq (Route_state i) st = put_state dp c i (hq_body rq) st"
| "run_route dp c rq Route_new_device st = post_device dp c (hq_idempotency_key rq) (hq_body rq) st"

text \<open>
  A request to the API: the route, authentication, the handler, and the error handler for whatever was thrown. A path
  below \<open>/v1/devices\<close> without a route is authenticated first; anything else is not found. (A path parameter is taken as
  it is, without percent-decoding.)
\<close>

definition device_path :: "string \<Rightarrow> bool" where
  "device_path path \<longleftrightarrow> take 3 (map to_lower (split_on is_slash path)) = ['''', ''v1'', ''devices'']"

definition answer_error :: "string \<Rightarrow> string \<Rightarrow> headers \<Rightarrow> error \<Rightarrow> reply" where
  "answer_error path request_id hs e =
     (error_handler [''/mcp''] path request_id (Thrown e))\<lparr>rp_headers := (''x-request-id'', request_id) # hs\<rparr>"

definition api_request ::
  "env \<Rightarrow> 's edge \<Rightarrow> ('x, 's) tool_deps \<Rightarrow> int \<Rightarrow> string \<Rightarrow> http_request \<Rightarrow> token_cache \<times> 's \<Rightarrow> reply \<times> token_cache \<times> 's" where
  "api_request env eg dp now_ms request_id rq st =
     (let r = route_of (hq_method rq) (hq_path rq) in
      if r = None \<and> \<not> device_path (hq_path rq) then (answer_error (hq_path rq) request_id [] (app_err NOT_FOUND), st)
      else (case authenticate env eg now_ms True request_id rq (snd st) of
        (Inl e, hs, s) \<Rightarrow> (answer_error (hq_path rq) request_id hs e, fst st, s)
      | (Inr None, hs, s) \<Rightarrow> (answer_error (hq_path rq) request_id hs not_signed_in, fst st, s)
      | (Inr (Some c), hs, s) \<Rightarrow>
          (case r of
             None \<Rightarrow> (answer_error (hq_path rq) request_id hs (app_err NOT_FOUND), fst st, s)
           | Some rt \<Rightarrow>
               (case run_route dp c rq rt (fst st, s) of
                  (Inl (e, hs'), st') \<Rightarrow> (answer_error (hq_path rq) request_id (hs @ hs') e, st')
                | (Inr rep, st') \<Rightarrow> (rep\<lparr>rp_headers := (''x-request-id'', request_id) # hs @ rp_headers rep\<rparr>, st')))))"

end
