(* ===== verification/Clients.thy ===== *)
theory Clients
  imports OAuth_Store Stores Urls Json
begin

text \<open>
  \<open>server/src/oauth/clients.ts\<close>: what a \<open>client_id\<close> stands for. A metadata document fetched from the client's own host, a
  dynamic registration, or the app itself; and which redirect URIs each may use. Node's resolver and HTTPS client, the
  library \<open>ipaddr.js\<close>, \<open>new URL\<close> and \<open>JSON.parse\<close> are parameters. The columns that keep a JSON array hold the list.
\<close>

section \<open>Clients\<close>

record resolved_client =
  rc_id :: string
  rc_redirect_uris :: "string list"
  rc_host :: "string option"
  rc_kind :: client_kind
  rc_trust :: client_trust
  rc_digest :: "string option"
  rc_first_party :: bool

definition default_known_clients :: "string list" where
  "default_known_clients = [''https://claude.ai/oauth/mcp-oauth-client-metadata'', ''https://chatgpt.com/oauth/client.json'']"

text \<open>\<open>configured\<close> is the environment variable KNOWN_CLIENTS.\<close>

definition known_clients :: "string option \<Rightarrow> string list" where
  "known_clients configured =
     (let list = (case configured of Some s \<Rightarrow> s | None \<Rightarrow> join_with '','' default_known_clients)
      in filter (\<lambda>w. w \<noteq> []) (map trim (split_on is_comma list)))"

definition trust_of :: "string option \<Rightarrow> string \<Rightarrow> client_trust" where
  "trust_of configured client = (if client \<in> set (known_clients configured) then Verified else Unverified)"

section \<open>Redirect URIs\<close>

definition is_loopback :: "url \<Rightarrow> bool" where
  "is_loopback u \<longleftrightarrow> to_lower (url_hostname u) \<in> {''127.0.0.1'', ''[::1]'', ''::1'', ''localhost''}"

definition redirect_uri_allowed :: "url_parser \<Rightarrow> string \<Rightarrow> string list \<Rightarrow> bool" where
  "redirect_uri_allowed parse requested allowed =
     (case parse requested of
        None \<Rightarrow> False
      | Some candidate \<Rightarrow>
          url_hash candidate = [] \<and>
          list_ex (\<lambda>entry. entry = requested \<or>
            (case parse entry of
               None \<Rightarrow> False
             | Some known \<Rightarrow> is_loopback candidate \<and> is_loopback known
                 \<and> url_protocol candidate = url_protocol known \<and> url_path candidate = url_path known)) allowed)"

definition forbidden_schemes :: "string list" where
  "forbidden_schemes = [''javascript:'', ''data:'', ''vbscript:'', ''file:'', ''blob:'', ''about:'', ''filesystem:'']"

definition is_letter :: "char \<Rightarrow> bool" where
  "is_letter c \<longleftrightarrow> (let n = (of_char c :: nat) in (65 \<le> n \<and> n \<le> 90) \<or> (97 \<le> n \<and> n \<le> 122))"

definition scheme_char :: "char \<Rightarrow> bool" where
  "scheme_char c \<longleftrightarrow> is_alnum c \<or> c \<in> set ''+.-''"

text \<open>\<open>/^[a-z][a-z0-9+.-]*\.[a-z0-9+.-]+:$/i\<close>: a dot that is neither the first nor the last character of the scheme.\<close>

definition reverse_dns :: "string \<Rightarrow> bool" where
  "reverse_dns protocol \<longleftrightarrow>
     protocol \<noteq> [] \<and> last protocol = CHR '':'' \<and>
     (let s = butlast protocol in s \<noteq> [] \<and> is_letter (hd s) \<and> list_all scheme_char s \<and> CHR ''.'' \<in> set (butlast (tl s)))"

definition is_registerable_redirect_uri :: "url_parser \<Rightarrow> string \<Rightarrow> bool" where
  "is_registerable_redirect_uri parse uri =
     (if length uri = 0 \<or> 2048 < length uri then False
      else (case parse uri of
        None \<Rightarrow> False
      | Some u \<Rightarrow>
          if url_hash u \<noteq> [] then False
          else if to_lower (url_protocol u) \<in> set forbidden_schemes then False
          else if url_protocol u = ''https:'' then True
          else if url_protocol u = ''http:'' then is_loopback u
          else reverse_dns (url_protocol u)))"

datatype application_type = Web | Native

text \<open>For a URI already known to parse.\<close>

definition suits_application_type :: "url_parser \<Rightarrow> string \<Rightarrow> application_type \<Rightarrow> bool" where
  "suits_application_type parse uri ty =
     (case parse uri of
        None \<Rightarrow> False
      | Some u \<Rightarrow> (case ty of Web \<Rightarrow> url_protocol u = ''https:'' \<and> \<not> is_loopback u | Native \<Rightarrow> True))"

section \<open>Dynamic registration\<close>

record client_registration =
  cg_redirect_uris :: jsval
  cg_name :: jsval
  cg_type :: jsval

record registered_client =
  rg_id :: string
  rg_redirect_uris :: "string list"
  rg_name :: "string option"
  rg_type :: application_type

datatype registration_error = Invalid_redirect_uri | Invalid_client_metadata | Registration_closed

datatype registration_outcome = Registered registered_client | Not_registered registration_error

fun type_str :: "application_type \<Rightarrow> string" where
  "type_str Web = ''web''"
| "type_str Native = ''native''"

definition type_of :: "jsval \<Rightarrow> application_type option" where
  "type_of v = (if v = JStr ''web'' then Some Web else if v = JStr ''native'' then Some Native else None)"

text \<open>The list, if every element is an acceptable string.\<close>

fun acceptable_uris :: "url_parser \<Rightarrow> application_type \<Rightarrow> jsval list \<Rightarrow> string list option" where
  "acceptable_uris parse ty [] = Some []"
| "acceptable_uris parse ty (v # vs) =
     (case as_str v of
        None \<Rightarrow> None
      | Some uri \<Rightarrow>
          if \<not> is_registerable_redirect_uri parse uri then None
          else if \<not> suits_application_type parse uri ty then None
          else map_option ((#) uri) (acceptable_uris parse ty vs))"

definition control_char :: "char \<Rightarrow> bool" where
  "control_char c \<longleftrightarrow> (let n = (of_char c :: nat) in n \<le> 31 \<or> n = 127)"

definition client_name_of :: "jsval \<Rightarrow> string option" where
  "client_name_of v =
     (case as_str v of None \<Rightarrow> None | Some s \<Rightarrow> truthy (Some (take 100 (trim (filter (\<lambda>c. \<not> control_char c) s)))))"

definition unused_client :: "int \<Rightarrow> database \<Rightarrow> client_row \<Rightarrow> bool" where
  "unused_client now db c \<longleftrightarrow>
     oc_source c = ''dcr'' \<and> oc_created_at c < now - secs unused_client_ttl \<and> oc_id c \<notin> gr_client ` set (t_grants db)"

definition evict_unused_clients :: "int \<Rightarrow> database \<Rightarrow> database" where
  "evict_unused_clients now db = db\<lparr>t_clients := delete_where (unused_client now db) (t_clients db)\<rparr>"

definition array_of :: "jsval \<Rightarrow> jsval list" where
  "array_of v = (case v of JArr vs \<Rightarrow> vs | _ \<Rightarrow> [])"

text \<open>What \<open>registerClient\<close> checks before it asks the database for anything.\<close>

record checked_registration =
  cx_type :: application_type
  cx_uris :: "string list"
  cx_name :: "string option"

definition check_registration :: "url_parser \<Rightarrow> client_registration \<Rightarrow> registration_error + checked_registration" where
  "check_registration parse reg =
     (case type_of (cg_type reg) of
        None \<Rightarrow> Inl Invalid_client_metadata
      | Some ty \<Rightarrow>
          let uris = array_of (cg_redirect_uris reg) in
          if length uris = 0 \<or> 10 < length uris then Inl Invalid_redirect_uri
          else (case acceptable_uris parse ty uris of
            None \<Rightarrow> Inl Invalid_redirect_uri
          | Some us \<Rightarrow> Inr \<lparr>cx_type = ty, cx_uris = us, cx_name = client_name_of (cg_name reg)\<rparr>))"

text \<open>The count, and the insertion.\<close>

definition room_for_client :: "database \<Rightarrow> bool" where
  "room_for_client db \<longleftrightarrow> length (t_clients db) < max_registered_clients"

definition insert_client ::
  "int \<Rightarrow> string \<Rightarrow> checked_registration \<Rightarrow> database \<Rightarrow> (error + registration_outcome) \<times> database" where
  "insert_client now rnd c db =
     (let i = new_id ''client'' rnd in
      case insert_pk oc_id \<lparr>oc_id = i, oc_name = cx_name c, oc_redirect_uris = cx_uris c, oc_source = ''dcr'',
             oc_application_type = Some (type_str (cx_type c)), oc_created_at = now\<rparr> (t_clients db) of
        None \<Rightarrow> (Inl (DbError unique_violation), db)
      | Some cs \<Rightarrow> (Inr (Registered \<lparr>rg_id = i, rg_redirect_uris = cx_uris c, rg_name = cx_name c, rg_type = cx_type c\<rparr>),
                    db\<lparr>t_clients := cs\<rparr>))"

text \<open>
  \<open>registerClient\<close> runs three statements outside a transaction and awaits each: the eviction, the count and the insertion.
  Between two of them anything else may happen to the database, other registrations included. \<open>register_step\<close> is one of
  its runs to the next statement; the clock and the random bytes are those of that moment.
\<close>

datatype registering =
    Arrived client_registration
  | Evicted checked_registration
  | Counted checked_registration
  | Answered "error + registration_outcome"

fun register_step :: "url_parser \<Rightarrow> int \<Rightarrow> string \<Rightarrow> registering \<Rightarrow> database \<Rightarrow> registering \<times> database" where
  "register_step parse now rnd (Arrived reg) db =
     (case check_registration parse reg of
        Inl e \<Rightarrow> (Answered (Inr (Not_registered e)), db)
      | Inr c \<Rightarrow> (Evicted c, evict_unused_clients now db))"
| "register_step parse now rnd (Evicted c) db =
     (if room_for_client db then (Counted c, db) else (Answered (Inr (Not_registered Registration_closed)), db))"
| "register_step parse now rnd (Counted c) db = (case insert_client now rnd c db of (r, db') \<Rightarrow> (Answered r, db'))"
| "register_step parse now rnd (Answered r) db = (Answered r, db)"

text \<open>A registration that nothing comes between.\<close>

definition register_client ::
  "url_parser \<Rightarrow> int \<Rightarrow> int \<Rightarrow> string \<Rightarrow> client_registration \<Rightarrow> database \<Rightarrow> (error + registration_outcome) \<times> database" where
  "register_client parse now now2 rnd reg db =
     (case check_registration parse reg of
        Inl e \<Rightarrow> (Inr (Not_registered e), db)
      | Inr c \<Rightarrow>
          (let db1 = evict_unused_clients now db in
           if room_for_client db1 then insert_client now2 rnd c db1 else (Inr (Not_registered Registration_closed), db1)))"

lemma register_client_steps:
  "register_client parse now now2 rnd reg db = (r, db') \<longleftrightarrow>
   (\<exists>p1 db1 p2 db2. register_step parse now rnd (Arrived reg) db = (p1, db1) \<and> register_step parse now' rnd p1 db1 = (p2, db2)
      \<and> register_step parse now2 rnd p2 db2 = (Answered r, db'))"
  by (auto simp: register_client_def Let_def split: sum.splits prod.splits)

section \<open>Fetching a metadata document\<close>

text \<open>
  What \<open>ipaddr.js\<close> says of a valid address: its range, and for an IPv4-mapped IPv6 address the range of the IPv4 one.
\<close>

record ip_class =
  ip_range :: string
  ip_mapped_range :: "string option"

definition is_forbidden_address :: "(string \<Rightarrow> ip_class option) \<Rightarrow> string \<Rightarrow> bool" where
  "is_forbidden_address classify address =
     (case classify address of
        None \<Rightarrow> True
      | Some c \<Rightarrow> (case ip_mapped_range c of Some r \<Rightarrow> r | None \<Rightarrow> ip_range c) \<noteq> ''unicast'')"

type_synonym pinned = "string \<times> nat"

text \<open>Node: \<open>isIP\<close> (0, 4 or 6), \<open>lookup\<close> with all addresses (\<^const>\<open>None\<close> where it rejects).\<close>

record network =
  nw_is_ip :: "string \<Rightarrow> nat"
  nw_lookup :: "string \<Rightarrow> pinned list option"
  nw_classify :: "string \<Rightarrow> ip_class option"

definition resolve_pinned_address :: "network \<Rightarrow> string \<Rightarrow> pinned option" where
  "resolve_pinned_address nw hostname =
     (if nw_is_ip nw hostname \<noteq> 0
      then (if \<not> is_forbidden_address (nw_classify nw) hostname then Some (hostname, nw_is_ip nw hostname) else None)
      else (case nw_lookup nw hostname of
        None \<Rightarrow> None
      | Some [] \<Rightarrow> None
      | Some (a # as) \<Rightarrow>
          if list_ex (\<lambda>e. is_forbidden_address (nw_classify nw) (fst e)) (a # as) then None else Some a))"

text \<open>\<open>pinnedLookup\<close>: the answer to whatever name is asked, as a list or as a single address.\<close>

definition pinned_lookup :: "pinned \<Rightarrow> string \<Rightarrow> bool \<Rightarrow> pinned list + pinned" where
  "pinned_lookup p hostname all_addresses = (if all_addresses then Inl [p] else Inr p)"

record fetched_document =
  fd_status :: nat
  fd_cache_control :: "string option"
  fd_body :: string

abbreviation cimd_max_bytes :: nat where "cimd_max_bytes \<equiv> 5120"

text \<open>A response as it arrives: its head, the chunks of its body, and whether it ends or breaks off.\<close>

datatype connection =
    No_response
  | Response nat "string option" "string list" bool

text \<open>The body's bytes, unless they exceed the limit on the way.\<close>

fun collect_chunks :: "nat \<Rightarrow> string list \<Rightarrow> bool \<Rightarrow> string option" where
  "collect_chunks got [] ended = (if ended then Some [] else None)"
| "collect_chunks got (c # cs) ended =
     (if cimd_max_bytes < got + length c then None
      else map_option ((@) c) (collect_chunks (got + length c) cs ended))"

text \<open>
  \<open>fetchPinned\<close>: \<open>connect\<close> is given the URL and the lookup that answers the pinned address; \<open>decode\<close> reads UTF-8.
\<close>

definition fetch_pinned ::
  "(url \<Rightarrow> (string \<Rightarrow> bool \<Rightarrow> pinned list + pinned) \<Rightarrow> connection) \<Rightarrow> (string \<Rightarrow> string) \<Rightarrow> url \<Rightarrow> pinned \<Rightarrow> fetched_document option" where
  "fetch_pinned connect decode u p =
     (case connect u (pinned_lookup p) of
        No_response \<Rightarrow> None
      | Response status cc chunks ended \<Rightarrow>
          if 300 \<le> status \<and> status < 400 then None
          else (case collect_chunks 0 chunks ended of
                  None \<Rightarrow> None
                | Some body \<Rightarrow> Some \<lparr>fd_status = status, fd_cache_control = cc, fd_body = decode body\<rparr>))"

type_synonym fetcher = "url \<Rightarrow> fetched_document option"

definition pinned_fetcher ::
  "network \<Rightarrow> (url \<Rightarrow> (string \<Rightarrow> bool \<Rightarrow> pinned list + pinned) \<Rightarrow> connection) \<Rightarrow> (string \<Rightarrow> string) \<Rightarrow> fetcher" where
  "pinned_fetcher nw connect decode u =
     (case resolve_pinned_address nw (url_hostname u) of None \<Rightarrow> None | Some p \<Rightarrow> fetch_pinned connect decode u p)"

section \<open>The cache\<close>

definition word_char :: "char \<Rightarrow> bool" where
  "word_char c \<longleftrightarrow> is_alnum c \<or> c = CHR ''_''"

text \<open>\<open>\b\<close> between the character before, if any, and the rest.\<close>

definition word_boundary :: "char option \<Rightarrow> string \<Rightarrow> bool" where
  "word_boundary before rest \<longleftrightarrow>
     (case before of None \<Rightarrow> False | Some c \<Rightarrow> word_char c) \<noteq> (case rest of [] \<Rightarrow> False | c # _ \<Rightarrow> word_char c)"

text \<open>\<open>/\bno-(store|cache)\b/\<close>, on the header in lower case.\<close>

fun says_no :: "char option \<Rightarrow> string \<Rightarrow> bool" where
  "says_no before [] = False"
| "says_no before (c # cs) =
     (word_boundary before (c # cs)
        \<and> list_ex (\<lambda>w. starts_with w (c # cs) \<and> word_boundary (Some (last w)) (drop (length w) (c # cs))) [''no-store'', ''no-cache'']
      \<or> says_no (Some c) cs)"

definition is_dec_digit :: "char \<Rightarrow> bool" where
  "is_dec_digit c \<longleftrightarrow> 48 \<le> (of_char c :: nat) \<and> (of_char c :: nat) \<le> 57"

definition dec_value :: "string \<Rightarrow> int" where
  "dec_value s = foldl (\<lambda>n c. n * 10 + (of_char c - 48)) 0 s"

text \<open>\<open>/\bmax-age=(\d+)/\<close>: the digits of the first match.\<close>

fun max_age :: "char option \<Rightarrow> string \<Rightarrow> string option" where
  "max_age before [] = None"
| "max_age before (c # cs) =
     (let digits = takeWhile is_dec_digit (drop 8 (c # cs)) in
      if word_boundary before (c # cs) \<and> starts_with ''max-age='' (c # cs) \<and> digits \<noteq> []
      then Some digits else max_age (Some c) cs)"

definition cimd_cache_seconds :: "string option \<Rightarrow> int" where
  "cimd_cache_seconds cache_control =
     (case truthy cache_control of
        None \<Rightarrow> 300
      | Some cc \<Rightarrow>
          if says_no None (to_lower cc) then 0
          else (case max_age None (to_lower cc) of None \<Rightarrow> 300 | Some n \<Rightarrow> min (max (dec_value n) 60) 86400))"

text \<open>The process's configuration, its fetcher and limiter, and the clocks of the statements.\<close>

record 's resolver =
  rs_parse :: url_parser
  rs_known :: "string option"
  rs_json :: "string \<Rightarrow> jsval option"
  rs_fetch :: fetcher
  rs_hit :: "int \<Rightarrow> string \<Rightarrow> int \<Rightarrow> 's \<Rightarrow> (nat \<times> int) \<times> 's"
  rs_now_ms :: int
  rs_now :: int
  rs_now2 :: int

definition cimd_client :: "string option \<Rightarrow> string \<Rightarrow> string list \<Rightarrow> string \<Rightarrow> string \<Rightarrow> resolved_client" where
  "cimd_client known client uris host dig =
     \<lparr>rc_id = client, rc_redirect_uris = uris, rc_host = Some host, rc_kind = Cimd, rc_trust = trust_of known client,
      rc_digest = Some dig, rc_first_party = False\<rparr>"

definition cached_document :: "string option \<Rightarrow> int \<Rightarrow> string \<Rightarrow> database \<Rightarrow> resolved_client option" where
  "cached_document known now client db =
     map_option (\<lambda>r. cimd_client known client (cc_redirect_uris r) (cc_display_host r) (cc_digest r))
       (find (\<lambda>r. cc_client r = client \<and> now < cc_expires_at r) (t_cimd db))"

definition store_document :: "int \<Rightarrow> string \<Rightarrow> string list \<Rightarrow> string \<Rightarrow> string \<Rightarrow> int \<Rightarrow> database \<Rightarrow> database" where
  "store_document now client uris host dig ttl db =
     (let row = \<lparr>cc_client = client, cc_redirect_uris = uris, cc_display_host = host, cc_digest = dig, cc_fetched_at = now,
                 cc_expires_at = now + secs ttl\<rparr>
      in db\<lparr>t_cimd := (if client \<in> cc_client ` set (t_cimd db)
                       then update_where (\<lambda>r. cc_client r = client) (\<lambda>_. row) (t_cimd db)
                       else t_cimd db @ [row])\<rparr>)"

definition strings_of :: "jsval list \<Rightarrow> string list" where
  "strings_of vs = map (\<lambda>v. case v of JStr s \<Rightarrow> s | _ \<Rightarrow> []) (filter (\<lambda>v. as_str v \<noteq> None) vs)"

text \<open>The redirect URIs of an acceptable response.\<close>

definition document_uris :: "(string \<Rightarrow> jsval option) \<Rightarrow> string \<Rightarrow> fetched_document \<Rightarrow> string list option" where
  "document_uris parse_json client r =
     (if fd_status r < 200 \<or> 300 \<le> fd_status r then None
      else if cimd_max_bytes < length (utf8 (fd_body r)) then None
      else (case parse_json (fd_body r) of
        None \<Rightarrow> None
      | Some doc \<Rightarrow>
          if jfield doc ''client_id'' \<noteq> JStr client then None
          else (let uris = strings_of (array_of (jfield doc ''redirect_uris'')) in if uris = [] then None else Some uris)))"

definition resolve_metadata_document ::
  "env \<Rightarrow> 's resolver \<Rightarrow> string \<Rightarrow> 's \<times> database \<Rightarrow> resolved_client option \<times> 's \<times> database" where
  "resolve_metadata_document env d client st =
     (case rs_parse d client of
        None \<Rightarrow> (None, st)
      | Some u \<Rightarrow>
          if url_protocol u \<noteq> ''https:'' \<or> url_hash u \<noteq> [] then (None, st)
          else (case cached_document (rs_known d) (rs_now d) client (snd st) of
            Some c \<Rightarrow> (Some c, st)
          | None \<Rightarrow>
              (case take_bucket (rs_hit d) 20 60000 (rs_now_ms d) (rs_now_ms d) (''cimd-host:'' @ to_lower (url_host u)) (fst st) of
                 (Refused _, s) \<Rightarrow> (None, s, snd st)
               | (Granted, s) \<Rightarrow>
                   (case rs_fetch d u of
                      None \<Rightarrow> (None, s, snd st)
                    | Some r \<Rightarrow>
                        (case document_uris (rs_json d) client r of
                           None \<Rightarrow> (None, s, snd st)
                         | Some uris \<Rightarrow>
                             let dig = hex (en_sha256 env (utf8 (fd_body r))); ttl = cimd_cache_seconds (fd_cache_control r)
                             in (Some (cimd_client (rs_known d) client uris (url_host u) dig), s,
                                 if 0 < ttl then store_document (rs_now2 d) client uris (url_host u) dig ttl (snd st) else snd st))))))"

definition resolve_registered_client :: "string \<Rightarrow> database \<Rightarrow> resolved_client option" where
  "resolve_registered_client client db =
     map_option (\<lambda>r. let pre = (oc_source r = ''preregistered'') in
         \<lparr>rc_id = client, rc_redirect_uris = oc_redirect_uris r, rc_host = None, rc_kind = (if pre then Preregistered else Dcr),
          rc_trust = (if pre then Verified else Unverified), rc_digest = None, rc_first_party = False\<rparr>)
       (find (\<lambda>r. oc_id r = client) (t_clients db))"

definition resolve_client :: "env \<Rightarrow> 's resolver \<Rightarrow> jsval \<Rightarrow> 's \<times> database \<Rightarrow> resolved_client option \<times> 's \<times> database" where
  "resolve_client env d client_id st =
     (case as_str client_id of
        None \<Rightarrow> (None, st)
      | Some client \<Rightarrow>
          if length client = 0 \<or> 2048 < length client then (None, st)
          else if client = first_party_client
          then (Some \<lparr>rc_id = client, rc_redirect_uris = first_party_redirect_uris env, rc_host = Some ''the IoT Switch app'',
                      rc_kind = Preregistered, rc_trust = Verified, rc_digest = None, rc_first_party = True\<rparr>, st)
          else if starts_with ''https://'' client then resolve_metadata_document env d client st
          else (resolve_registered_client client (snd st), st))"

end
