(* ===== verification/Client_Theorems.thy ===== *)
theory Client_Theorems
  imports Clients
begin

text \<open>
  What \<open>clients.ts\<close> guarantees: where a client may have people sent, what the server connects to on a client's behalf, and
  how long a metadata document counts.
\<close>

section \<open>Redirects\<close>

definition safe_redirect :: "url_parser \<Rightarrow> string \<Rightarrow> bool" where
  "safe_redirect parse uri \<longleftrightarrow>
     (case parse uri of
        None \<Rightarrow> False
      | Some u \<Rightarrow> url_hash u = []
          \<and> (url_protocol u = ''https:'' \<or> (url_protocol u = ''http:'' \<and> is_loopback u) \<or> reverse_dns (url_protocol u)))"

definition client_ok :: "url_parser \<Rightarrow> client_row \<Rightarrow> bool" where
  "client_ok parse c \<longleftrightarrow> (\<exists>ty. oc_application_type c = Some (type_str ty) \<and>
     (\<forall>u \<in> set (oc_redirect_uris c). is_registerable_redirect_uri parse u \<and> suits_application_type parse u ty))"

text \<open>
  Any number of registrations under way at once, each a list element at its own point: a request arrives, one of them runs
  to its next statement, the eviction is run on its own account, or the other tables change.
\<close>

record registry =
  ry_db :: database
  ry_requests :: "registering list"

datatype client_event =
    Arrives client_registration
  | Goes_on nat int string
  | Sweeps int
  | Elsewhere database

fun exec_client :: "url_parser \<Rightarrow> client_event \<Rightarrow> registry \<Rightarrow> registry" where
  "exec_client parse (Arrives reg) s = s\<lparr>ry_requests := ry_requests s @ [Arrived reg]\<rparr>"
| "exec_client parse (Goes_on i now rnd) s =
     (if i < length (ry_requests s)
      then (case register_step parse now rnd (ry_requests s ! i) (ry_db s) of
          (p, db) \<Rightarrow> \<lparr>ry_db = db, ry_requests = (ry_requests s)[i := p]\<rparr>)
      else s)"
| "exec_client parse (Sweeps now) s = s\<lparr>ry_db := evict_unused_clients now (ry_db s)\<rparr>"
| "exec_client parse (Elsewhere other) s = s\<lparr>ry_db := other\<lparr>t_clients := t_clients (ry_db s)\<rparr>\<rparr>"

definition no_requests :: "database \<Rightarrow> registry" where
  "no_requests db = \<lparr>ry_db = db, ry_requests = []\<rparr>"

fun is_counted :: "registering \<Rightarrow> bool" where
  "is_counted (Counted c) \<longleftrightarrow> True"
| "is_counted p \<longleftrightarrow> False"

text \<open>How many registrations are between their count and their insertion.\<close>

definition counted_now :: "registry \<Rightarrow> nat" where
  "counted_now s = length (filter is_counted (ry_requests s))"

definition checked_ok :: "url_parser \<Rightarrow> checked_registration \<Rightarrow> bool" where
  "checked_ok parse c \<longleftrightarrow> (\<forall>u \<in> set (cx_uris c). is_registerable_redirect_uri parse u \<and> suits_application_type parse u (cx_type c))"

fun request_ok :: "url_parser \<Rightarrow> registering \<Rightarrow> bool" where
  "request_ok parse (Evicted c) \<longleftrightarrow> checked_ok parse c"
| "request_ok parse (Counted c) \<longleftrightarrow> checked_ok parse c"
| "request_ok parse p \<longleftrightarrow> True"

definition clients_ok :: "url_parser \<Rightarrow> registry \<Rightarrow> bool" where
  "clients_ok parse s \<longleftrightarrow> distinct (map oc_id (t_clients (ry_db s))) \<and> (\<forall>c \<in> set (t_clients (ry_db s)). client_ok parse c)
     \<and> (\<forall>p \<in> set (ry_requests s). request_ok parse p)"

lemma acceptable_urisD:
  "acceptable_uris parse ty vs = Some us \<Longrightarrow>
     vs = map JStr us \<and> (\<forall>u \<in> set us. is_registerable_redirect_uri parse u \<and> suits_application_type parse u ty)"
  by (induction vs arbitrary: us) (auto split: option.splits if_splits)

lemma check_registration_ok: "check_registration parse reg = Inr c \<Longrightarrow> checked_ok parse c"
  by (auto simp: check_registration_def checked_ok_def Let_def dest: acceptable_urisD split: option.splits if_splits)

lemma evict_clients:
  "t_clients (evict_unused_clients now db) = filter (\<lambda>c. \<not> unused_client now db c) (t_clients db)"
  by (simp add: evict_unused_clients_def delete_where_def)

lemma insert_clientE:
  assumes "insert_client now rnd c db = (r, db')"
  obtains (clash) "db' = db"
  | (row) q where "t_clients db' = t_clients db @ [q]" "oc_id q \<notin> oc_id ` set (t_clients db)" "checked_ok parse c \<Longrightarrow> client_ok parse q"
  using assms unfolding insert_client_def Let_def
  by (force simp: insert_pk_Some client_ok_def checked_ok_def split: option.splits)

lemma clients_ok_exec: "clients_ok parse s \<Longrightarrow> clients_ok parse (exec_client parse x s)"
proof (induction parse x s rule: exec_client.induct)
  case (2 parse i now rnd s)
  show ?case
  proof (cases "i < length (ry_requests s)")
    case True
    obtain p db where p: "register_step parse now rnd (ry_requests s ! i) (ry_db s) = (p, db)" by fastforce
    have at: "request_ok parse (ry_requests s ! i)" using 2 True by (simp add: clients_ok_def)
    have "distinct (map oc_id (t_clients db)) \<and> (\<forall>c \<in> set (t_clients db). client_ok parse c) \<and> request_ok parse p"
    proof (cases "ry_requests s ! i")
      case (Counted c)
      obtain r where "insert_client now rnd c (ry_db s) = (r, db)" "p = Answered r"
        using p Counted by (auto split: prod.splits)
      then show ?thesis
        by (cases rule: insert_clientE [where parse = parse]) (use 2 at Counted in \<open>auto simp: clients_ok_def\<close>)
    qed (use 2 p at in \<open>auto simp: clients_ok_def evict_clients distinct_map_filter check_registration_ok split: sum.splits if_splits\<close>)
    then show ?thesis using 2 True p by (auto simp: clients_ok_def dest!: set_update_subset_insert [THEN subsetD])
  qed (use 2 in simp)
qed (auto simp: clients_ok_def evict_clients distinct_map_filter)

lemma clients_ok_fold: "clients_ok parse s \<Longrightarrow> clients_ok parse (fold (exec_client parse) evs s)"
  by (induction evs arbitrary: s) (simp_all add: clients_ok_exec)

text \<open>The count is of the moment: what holds is that the clients and the registrations that were let through are together within
  the limit plus the number of registrations let through at once.\<close>

lemma counted_update:
  "i < length ps \<Longrightarrow> length (filter is_counted (ps[i := p])) + (if is_counted (ps ! i) then 1 else 0)
     = length (filter is_counted ps) + (if is_counted p then 1 else 0)"
proof (induction ps arbitrary: i)
  case (Cons q ps)
  then show ?case by (cases i) auto
qed simp

lemma room_exec:
  assumes "length (t_clients (ry_db s)) + counted_now s \<le> 499 + n" "counted_now (exec_client parse x s) \<le> n"
  shows "length (t_clients (ry_db (exec_client parse x s))) + counted_now (exec_client parse x s) \<le> 499 + n"
  using assms
proof (induction parse x s rule: exec_client.induct)
  case (2 parse i now rnd s)
  show ?case
  proof (cases "i < length (ry_requests s)")
    case True
    obtain p db where p: "register_step parse now rnd (ry_requests s ! i) (ry_db s) = (p, db)" by fastforce
    have s': "exec_client parse (Goes_on i now rnd) s = \<lparr>ry_db = db, ry_requests = (ry_requests s)[i := p]\<rparr>" using True p by simp
    note c = counted_update [OF True, of p]
    show ?thesis
    proof (cases "ry_requests s ! i")
      case (Arrived reg)
      have "length (t_clients db) \<le> length (t_clients (ry_db s))" "\<not> is_counted p"
        using p Arrived by (auto simp: evict_clients split: sum.splits)
      with c 2 Arrived show ?thesis unfolding s' by (simp add: counted_now_def)
    next
      case (Evicted x)
      then show ?thesis
      proof (cases "room_for_client (ry_db s)")
        case True
        with p Evicted 2(2) show ?thesis unfolding s' by (simp add: room_for_client_def)
      next
        case False
        with p Evicted have "p = Answered (Inr (Not_registered Registration_closed))" "db = ry_db s" by auto
        with c 2(1) Evicted show ?thesis unfolding s' by (simp add: counted_now_def)
      qed
    next
      case (Counted x)
      obtain r where r: "insert_client now rnd x (ry_db s) = (r, db)" "p = Answered r" using p Counted by (auto split: prod.splits)
      then have "length (t_clients db) \<le> Suc (length (t_clients (ry_db s)))" by (cases rule: insert_clientE) auto
      with c 2(1) Counted r(2) show ?thesis unfolding s' by (simp add: counted_now_def)
    next
      case (Answered r)
      with p c 2(1) show ?thesis unfolding s' by (simp add: counted_now_def)
    qed
  qed (use 2 in simp)
next
  case (3 parse now s)
  have "length (t_clients (evict_unused_clients now (ry_db s))) \<le> length (t_clients (ry_db s))" by (simp add: evict_clients)
  with 3 show ?case by (simp add: counted_now_def)
qed (simp_all add: counted_now_def)

lemma room_fold:
  assumes "\<forall>k \<le> length evs. counted_now (fold (exec_client parse) (take k evs) s) \<le> n"
    and "length (t_clients (ry_db s)) + counted_now s \<le> 499 + n"
  shows "length (t_clients (ry_db (fold (exec_client parse) evs s))) + counted_now (fold (exec_client parse) evs s) \<le> 499 + n"
  using assms
proof (induction evs rule: rev_induct)
  case (snoc x evs)
  have "counted_now (fold (exec_client parse) (take k evs) s) \<le> n" if "k \<le> length evs" for k
    using snoc.prems(1) [rule_format, of k] that by simp
  then have "length (t_clients (ry_db (fold (exec_client parse) evs s))) + counted_now (fold (exec_client parse) evs s) \<le> 499 + n"
    using snoc by blast
  from room_exec [OF this] snoc.prems(1) [rule_format, of "length (evs @ [x])"] show ?case by simp
qed simp

lemma registerable_safe: "is_registerable_redirect_uri parse uri \<Longrightarrow> safe_redirect parse uri"
  by (auto simp: is_registerable_redirect_uri_def safe_redirect_def split: option.splits if_splits)

lemma allowed_safe:
  assumes "redirect_uri_allowed parse uri uris" "\<forall>u \<in> set uris. is_registerable_redirect_uri parse u"
  shows "safe_redirect parse uri"
proof -
  from assms(1) obtain c entry where c: "parse uri = Some c" "url_hash c = []" "entry \<in> set uris"
    "entry = uri \<or> (\<exists>k. parse entry = Some k \<and> is_loopback c \<and> url_protocol c = url_protocol k)"
    by (auto simp: redirect_uri_allowed_def list_ex_iff split: option.splits)
  have "safe_redirect parse entry" using assms(2) c(3) registerable_safe by blast
  with c show ?thesis by (auto simp: safe_redirect_def)
qed

lemma allowed_web:
  assumes "redirect_uri_allowed parse uri uris" "\<forall>u \<in> set uris. suits_application_type parse u Web"
  shows "uri \<in> set uris"
  using assms
  by (fastforce simp: redirect_uri_allowed_def list_ex_iff suits_application_type_def split: option.splits)

text \<open>C21. No redirect to a script, and no open redirector. Whatever registrations are under way at once, however their
  statements fall between one another and whatever else is done to the database, every redirect URI that passes for a
  registered client is without a fragment, and is https, http to this very device, or a reverse-DNS private scheme, and for
  a web client it is one of the URIs it registered, literally; each identifier is there once. And while no more than
  \<open>n\<close> registrations are ever between their count and their insertion, there are at most 499 + n clients: five hundred when
  they come one after the other.\<close>

theorem registered_redirects_safe:
  assumes "t_clients db0 = []" "s = fold (exec_client parse) evs (no_requests db0)" "c \<in> set (t_clients (ry_db s))"
    and "redirect_uri_allowed parse uri (oc_redirect_uris c)"
  shows "safe_redirect parse uri \<and> (oc_application_type c = Some ''web'' \<longrightarrow> uri \<in> set (oc_redirect_uris c))
    \<and> find (\<lambda>r. oc_id r = oc_id c) (t_clients (ry_db s)) = Some c
    \<and> (\<forall>n. (\<forall>k \<le> length evs. counted_now (fold (exec_client parse) (take k evs) (no_requests db0)) \<le> n)
         \<longrightarrow> length (t_clients (ry_db s)) \<le> 499 + n)"
proof -
  have ok: "clients_ok parse s"
    unfolding assms(2) by (rule clients_ok_fold) (simp add: clients_ok_def no_requests_def assms(1))
  then obtain ty where ty: "oc_application_type c = Some (type_str ty)"
    "\<forall>u \<in> set (oc_redirect_uris c). is_registerable_redirect_uri parse u \<and> suits_application_type parse u ty"
    using assms(3) by (auto simp: clients_ok_def client_ok_def)
  have "find (\<lambda>r. oc_id r = oc_id c) (t_clients (ry_db s)) = Some c"
    using ok assms(3) by (simp add: clients_ok_def find_key)
  moreover have "oc_application_type c = Some ''web'' \<longrightarrow> uri \<in> set (oc_redirect_uris c)"
    using ty allowed_web [OF assms(4)] by (cases ty) auto
  moreover have "length (t_clients (ry_db s)) \<le> 499 + n"
    if "\<forall>k \<le> length evs. counted_now (fold (exec_client parse) (take k evs) (no_requests db0)) \<le> n" for n
    using room_fold [OF that] assms(1) by (simp add: assms(2) no_requests_def counted_now_def)
  ultimately show ?thesis using ty allowed_safe [OF assms(4)] by blast
qed

text \<open>Why the limit is not five hundred: two registrations that both count 499 clients make 501.\<close>

lemma registrations_overrun_limit:
  assumes "length (t_clients db) = 499" "checked_ok parse a" "new_id ''client'' r \<notin> oc_id ` set (t_clients db)"
    "new_id ''client'' r' \<notin> oc_id ` set (t_clients db)" "r \<noteq> r'" "new_id ''client'' r \<noteq> new_id ''client'' r'"
  shows "length (t_clients (ry_db (fold (exec_client parse) [Goes_on 0 t [], Goes_on 1 t [], Goes_on 0 t r, Goes_on 1 t r']
      \<lparr>ry_db = db, ry_requests = [Evicted a, Evicted b]\<rparr>))) = 501"
  using assms by (auto simp: room_for_client_def insert_client_def insert_pk_def Let_def image_iff split: option.splits)

definition demo_url :: url where
  "demo_url = \<lparr>url_protocol = ''https:'', url_host = ''a.b'', url_hostname = ''a.b'', url_path = ''/c'', url_search = [],
     url_hash = [], url_username = [], url_password = []\<rparr>"

definition demo_urls :: url_parser where
  "demo_urls s = (if s = ''https://a.b/c'' then Some demo_url else None)"

definition demo_registration :: client_registration where
  "demo_registration = \<lparr>cg_redirect_uris = JArr [JStr ''https://a.b/c''], cg_name = JStr ''App'', cg_type = JStr ''web''\<rparr>"

definition demo_client :: client_row where
  "demo_client = \<lparr>oc_id = new_id ''client'' ''r'', oc_name = Some ''App'', oc_redirect_uris = [''https://a.b/c''], oc_source = ''dcr'',
     oc_application_type = Some ''web'', oc_created_at = 5\<rparr>"

lemma demo_https [simp]:
  "is_registerable_redirect_uri demo_urls ''https://a.b/c''" "suits_application_type demo_urls ''https://a.b/c'' Web"
  "redirect_uri_allowed demo_urls ''https://a.b/c'' [''https://a.b/c'']"
  by code_simp+

lemma demo_client_name [simp]: "client_name_of (JStr ''App'') = Some ''App''"
  by code_simp

definition demo_events :: "client_event list" where
  "demo_events = [Arrives demo_registration, Goes_on 0 5 ''r'', Goes_on 0 5 ''r'', Goes_on 0 5 ''r'']"

lemma demo_registered [simp]:
  "t_clients (ry_db (fold (exec_client demo_urls) demo_events (no_requests empty_db))) = [demo_client]"
  by (simp add: demo_events_def no_requests_def check_registration_def demo_registration_def type_of_def array_of_def
      evict_unused_clients_def empty_db_def delete_where_def room_for_client_def insert_client_def insert_pk_def demo_client_def Let_def)

theorem registered_redirects_safe_witness:
  "safe_redirect demo_urls ''https://a.b/c'' \<and> ''https://a.b/c'' \<in> set (oc_redirect_uris demo_client)"
proof -
  have "redirect_uri_allowed demo_urls ''https://a.b/c'' (oc_redirect_uris demo_client)" by (simp add: demo_client_def)
  with registered_redirects_safe [OF _ refl, of empty_db demo_client demo_urls demo_events "''https://a.b/c''"]
  have "safe_redirect demo_urls ''https://a.b/c''" using demo_registered by (simp add: empty_db_def)
  then show ?thesis by (simp add: demo_client_def)
qed

section \<open>Outgoing connections\<close>

lemma resolve_pinned_public:
  "resolve_pinned_address nw h = Some (a, f) \<Longrightarrow> \<not> is_forbidden_address (nw_classify nw) a"
  by (auto simp: resolve_pinned_address_def split: if_splits option.splits list.splits)

lemma pinned_fetcher_cong:
  assumes "\<And>u a f. \<not> is_forbidden_address (nw_classify nw) a \<Longrightarrow> connect u (pinned_lookup (a, f)) = connect' u (pinned_lookup (a, f))"
  shows "pinned_fetcher nw connect decode = pinned_fetcher nw connect' decode"
  using assms resolve_pinned_public [of nw]
  by (fastforce simp: pinned_fetcher_def fetch_pinned_def fun_eq_iff split: option.splits prod.splits)

text \<open>C22. No request forgery. Whatever client identifier an authorization names, the server connects only to addresses that
  are ordinary public unicast, and only to the address that was checked: two networks that agree on those give the same
  result, whatever either answers elsewhere. An identifier that is not an https URL makes no connection at all.\<close>

theorem cimd_connects_to_public_only:
  assumes "\<And>u a f. \<not> is_forbidden_address (nw_classify nw) a \<Longrightarrow> connect u (pinned_lookup (a, f)) = connect' u (pinned_lookup (a, f))"
  shows "resolve_client env (d\<lparr>rs_fetch := pinned_fetcher nw connect decode\<rparr>) client_id st
      = resolve_client env (d\<lparr>rs_fetch := pinned_fetcher nw connect' decode\<rparr>) client_id st
    \<and> (\<forall>s. client_id = JStr s \<and> \<not> starts_with ''https://'' s \<longrightarrow>
        resolve_client env (d\<lparr>rs_fetch := fetch\<rparr>) client_id st = resolve_client env (d\<lparr>rs_fetch := fetch'\<rparr>) client_id st)"
  using pinned_fetcher_cong [of nw connect connect' decode] assms by (simp add: resolve_client_def Let_def)

definition demo_network :: network where
  "demo_network = \<lparr>nw_is_ip = (\<lambda>h. 0), nw_lookup = (\<lambda>h. Some [(''10.0.0.1'', 4)]),
     nw_classify = (\<lambda>a. Some \<lparr>ip_range = (if a = ''10.0.0.1'' then ''private'' else ''unicast''), ip_mapped_range = None\<rparr>)\<rparr>"

section \<open>The cache of documents\<close>

lemma cimd_cache_seconds_bounds:
  "cimd_cache_seconds cc = 0 \<or> 60 \<le> cimd_cache_seconds cc \<and> cimd_cache_seconds cc \<le> 86400"
  by (simp add: cimd_cache_seconds_def split: option.splits)

lemma find_only:
  assumes "row \<in> set rows" "\<forall>r \<in> set rows. K r \<longrightarrow> r = row" "\<And>r. P r \<Longrightarrow> K r"
  shows "find P rows = (if P row then Some row else None)"
proof (cases "P row")
  case True
  then obtain r where "find P rows = Some r" using assms(1) by (metis find_None_iff not_None_eq)
  with find_SomeD [OF this] assms(2,3) True show ?thesis by auto
next
  case False
  then show ?thesis using assms(2,3) by (metis (mono_tags, lifting) find_None_iff)
qed

lemma store_document_find:
  "cached_document known t client (store_document now client uris host dig ttl db)
    = (if t < now + secs ttl then Some (cimd_client known client uris host dig) else None)"
proof -
  let ?row = "\<lparr>cc_client = client, cc_redirect_uris = uris, cc_display_host = host, cc_digest = dig, cc_fetched_at = now,
                 cc_expires_at = now + secs ttl\<rparr>"
  let ?db = "store_document now client uris host dig ttl db"
  have "?row \<in> set (t_cimd ?db)" "\<forall>r \<in> set (t_cimd ?db). cc_client r = client \<longrightarrow> r = ?row"
    by (auto simp: store_document_def Let_def in_update_where ball_update_where)
  from find_only [OF this, of "\<lambda>r. cc_client r = client \<and> t < cc_expires_at r"]
  have "find (\<lambda>r. cc_client r = client \<and> t < cc_expires_at r) (t_cimd ?db) = (if t < now + secs ttl then Some ?row else None)"
    by simp
  then show ?thesis by (simp add: cached_document_def)
qed

lemma cached_document_later:
  "cached_document known now client db = None \<Longrightarrow> now \<le> t \<Longrightarrow> cached_document known t client db = None"
  by (fastforce simp: cached_document_def find_None_iff)

lemma resolve_fetched:
  assumes "resolve_metadata_document env d client (s, db) = (Some c, s', db')"
    and "cached_document (rs_known d) (rs_now d) client db = None"
  obtains u r uris where "rs_parse d client = Some u" "url_protocol u = ''https:''" "url_hash u = []" "rs_fetch d u = Some r"
    "document_uris (rs_json d) client r = Some uris"
    "c = cimd_client (rs_known d) client uris (url_host u) (hex (en_sha256 env (utf8 (fd_body r))))"
    "db' = (if 0 < cimd_cache_seconds (fd_cache_control r)
       then store_document (rs_now2 d) client uris (url_host u) (hex (en_sha256 env (utf8 (fd_body r))))
              (cimd_cache_seconds (fd_cache_control r)) db else db)"
proof -
  let ?b = "\<lambda>u. take_bucket (rs_hit d) 20 60000 (rs_now_ms d) (rs_now_ms d) (''cimd-host:'' @ to_lower (url_host u)) s"
  from assms obtain u where u: "rs_parse d client = Some u" "url_protocol u = ''https:''" "url_hash u = []"
    by (auto simp: resolve_metadata_document_def split: option.splits if_splits)
  with assms obtain s1 where b: "?b u = (Granted, s1)"
    by (cases "?b u"; cases "fst (?b u)") (simp_all add: resolve_metadata_document_def)
  with assms u obtain r where r: "rs_fetch d u = Some r"
    by (cases "rs_fetch d u") (simp_all add: resolve_metadata_document_def)
  with assms u b obtain uris where "document_uris (rs_json d) client r = Some uris"
    by (cases "document_uris (rs_json d) client r") (simp_all add: resolve_metadata_document_def)
  then show ?thesis using that [OF u r] assms u b r by (simp add: resolve_metadata_document_def Let_def cong: if_cong)
qed

text \<open>A metadata document counts for as long as it says. What the server learns from one is self-referential and its
  digest is of the very body; the same identifier then resolves to the same client, without a fetch and without spending
  the budget, exactly until the document's time is up, which is nothing or between a minute and a day.\<close>

theorem cimd_document_reused:
  assumes "resolve_metadata_document env d client (s, db) = (Some c, s', db')"
    and "cached_document (rs_known d) (rs_now d) client db = None" "rs_now d \<le> rs_now2 d" "rs_now2 d \<le> rs_now d'"
    and "rs_parse d' = rs_parse d" "rs_known d' = rs_known d"
  shows "\<exists>u r doc. rs_parse d client = Some u \<and> rs_fetch d u = Some r \<and> rs_json d (fd_body r) = Some doc
    \<and> jfield doc ''client_id'' = JStr client \<and> rc_id c = client \<and> rc_host c = Some (url_host u)
    \<and> rc_digest c = Some (hex (en_sha256 env (utf8 (fd_body r)))) \<and> length (utf8 (fd_body r)) \<le> 5120
    \<and> cimd_cache_seconds (fd_cache_control r) \<in> insert 0 {60..86400}
    \<and> (if rs_now d' < rs_now2 d + secs (cimd_cache_seconds (fd_cache_control r))
       then resolve_metadata_document env d' client (s2, db') = (Some c, s2, db')
       else cached_document (rs_known d') (rs_now d') client db' = None)"
proof -
  obtain u r uris where u: "rs_parse d client = Some u" "url_protocol u = ''https:''" "url_hash u = []" "rs_fetch d u = Some r"
    and uris: "document_uris (rs_json d) client r = Some uris"
    and c: "c = cimd_client (rs_known d) client uris (url_host u) (hex (en_sha256 env (utf8 (fd_body r))))"
    and db': "db' = (if 0 < cimd_cache_seconds (fd_cache_control r)
       then store_document (rs_now2 d) client uris (url_host u) (hex (en_sha256 env (utf8 (fd_body r))))
              (cimd_cache_seconds (fd_cache_control r)) db else db)"
    using assms(1,2) by (rule resolve_fetched)
  obtain doc where doc: "rs_json d (fd_body r) = Some doc" "jfield doc ''client_id'' = JStr client"
      "length (utf8 (fd_body r)) \<le> 5120"
    using uris by (auto simp: document_uris_def not_less split: option.splits if_splits)
  have ttl: "cimd_cache_seconds (fd_cache_control r) \<in> insert 0 {60..86400}" using cimd_cache_seconds_bounds by auto
  have "cached_document (rs_known d') (rs_now d') client db'
      = (if rs_now d' < rs_now2 d + secs (cimd_cache_seconds (fd_cache_control r)) then Some c else None)"
  proof (cases "0 < cimd_cache_seconds (fd_cache_control r)")
    case True
    then show ?thesis by (simp add: db' c store_document_find assms(6))
  next
    case False
    then have "cimd_cache_seconds (fd_cache_control r) = 0" using ttl by auto
    with cached_document_later [OF assms(2)] assms(3,4,6) show ?thesis by (simp add: db' secs_def)
  qed
  moreover from this have "resolve_metadata_document env d' client (s2, db') = (Some c, s2, db')"
    if "rs_now d' < rs_now2 d + secs (cimd_cache_seconds (fd_cache_control r))"
    using that u(1-3) assms(5) by (simp add: resolve_metadata_document_def)
  ultimately show ?thesis using u(1,4) doc ttl by (auto simp: c cimd_client_def)
qed

definition demo_resolver :: "int \<Rightarrow> windows resolver" where
  "demo_resolver now = \<lparr>rs_parse = demo_urls, rs_known = None,
     rs_json = (\<lambda>s. Some (JObj [(''client_id'', JStr ''https://a.b/c''), (''redirect_uris'', JArr [JStr ''https://a.b/r''])])),
     rs_fetch = (\<lambda>u. Some \<lparr>fd_status = 200, fd_cache_control = Some ''public, max-age=600'', fd_body = ''doc''\<rparr>),
     rs_hit = memory_hit, rs_now_ms = now div 1000, rs_now = now, rs_now2 = now\<rparr>"

lemma demo_max_age: "cimd_cache_seconds (Some ''public, max-age=600'') = 600"
  by code_simp

lemma demo_resolved:
  "\<exists>c s' db'. resolve_metadata_document demo_env (demo_resolver 5) ''https://a.b/c'' ([], empty_db) = (Some c, s', db')"
  by (simp add: resolve_metadata_document_def demo_resolver_def demo_urls_def demo_url_def cached_document_def empty_db_def
      take_bucket_def memory_hit_def document_uris_def strings_of_def array_of_def utf8_def utf8_char_def Let_def)

theorem cimd_connects_to_public_only_witness:
  "resolve_client demo_env ((demo_resolver 5)\<lparr>rs_fetch := pinned_fetcher demo_network
       (\<lambda>u look. if look [] False = Inr (''10.0.0.1'', 4) then Response 200 None [''secret''] True else No_response) (\<lambda>s. s)\<rparr>)
     (JStr ''https://a.b/c'') ([], empty_db)
   = resolve_client demo_env ((demo_resolver 5)\<lparr>rs_fetch := pinned_fetcher demo_network (\<lambda>u look. No_response) (\<lambda>s. s)\<rparr>) (JStr ''https://a.b/c'') ([], empty_db)"
  by (rule conjunct1 [OF cimd_connects_to_public_only])
    (auto simp: demo_network_def is_forbidden_address_def pinned_lookup_def split: if_splits)

theorem cimd_document_reused_witness:
  "\<exists>c s' db'. resolve_metadata_document demo_env (demo_resolver 5) ''https://a.b/c'' ([], empty_db) = (Some c, s', db')
     \<and> resolve_metadata_document demo_env (demo_resolver 1000000) ''https://a.b/c'' ([], db') = (Some c, [], db')"
proof -
  obtain c s' db' where r: "resolve_metadata_document demo_env (demo_resolver 5) ''https://a.b/c'' ([], empty_db) = (Some c, s', db')"
    using demo_resolved by blast
  have "cached_document (rs_known (demo_resolver 5)) (rs_now (demo_resolver 5)) ''https://a.b/c'' empty_db = None"
    by (simp add: cached_document_def empty_db_def)
  from cimd_document_reused [OF r this, of "demo_resolver 1000000" "[]"]
  have "resolve_metadata_document demo_env (demo_resolver 1000000) ''https://a.b/c'' ([], db') = (Some c, [], db')"
    by (auto simp: demo_resolver_def demo_max_age secs_def)
  with r show ?thesis by blast
qed

text \<open>For loopback redirects more than the port is ignored: the name of the host, the query and the user as well.\<close>

lemma loopback_ignores_query:
  assumes "parse requested = Some c" "parse entry = Some k" "url_hash c = []" "is_loopback c" "is_loopback k"
    "url_protocol c = url_protocol k" "url_path c = url_path k" "url_search c \<noteq> url_search k" "url_hostname c \<noteq> url_hostname k"
  shows "redirect_uri_allowed parse requested [entry]"
  using assms by (simp add: redirect_uri_allowed_def)

end
