(* ===== verification/Passkeys.thy ===== *)
theory Passkeys
  imports OAuth_Store Urls
begin

text \<open>
  \<open>server/src/oauth/passkeys.ts\<close>: WebAuthn registration and sign-in. The library \<open>@simplewebauthn/server\<close> is a record of
  parameters: the options it makes (with their fresh challenge) and its verdicts on a response, \<^const>\<open>None\<close> where it
  throws. Reading \<open>clientDataJSON\<close> (base64url, UTF-8, \<open>JSON.parse\<close>) is one too.
\<close>

abbreviation challenge_ttl :: int where "challenge_ttl \<equiv> 300"
abbreviation max_passkeys :: nat where "max_passkeys \<equiv> 10"

record rp_identity =
  rp_id :: string
  rp_origin :: string
  rp_name :: string

definition url_origin :: "url \<Rightarrow> string" where
  "url_origin u = (if url_protocol u \<in> {''http:'', ''https:'', ''ftp:'', ''ws:'', ''wss:''}
     then url_protocol u @ ''//'' @ url_host u else ''null'')"

definition relying_party :: "url_parser \<Rightarrow> string \<Rightarrow> error + rp_identity" where
  "relying_party parse issuer =
     (case parse issuer of
        None \<Rightarrow> Inl invalid_url
      | Some u \<Rightarrow> Inr \<lparr>rp_id = url_hostname u, rp_origin = url_origin u, rp_name = ''IoT Switch''\<rparr>)"

record passkey =
  py_id :: string
  py_name :: string
  py_created_at :: int
  py_last_used :: "int option"

definition to_passkey :: "passkey_row \<Rightarrow> passkey" where
  "to_passkey r = \<lparr>py_id = pk_id r, py_name = pk_name r, py_created_at = to_ms (pk_created_at r),
     py_last_used = map_option to_ms (pk_last_used r)\<rparr>"

definition list_passkeys :: "string \<Rightarrow> database \<Rightarrow> passkey list" where
  "list_passkeys account db = map to_passkey (sort_key pk_created_at (filter (\<lambda>r. pk_account r = account) (t_passkeys db)))"

definition delete_passkey :: "string \<Rightarrow> string \<Rightarrow> database \<Rightarrow> bool \<times> database" where
  "delete_passkey account key db =
     (let P = (\<lambda>r. pk_id r = key \<and> pk_account r = account)
      in (length (filter P (t_passkeys db)) = 1, db\<lparr>t_passkeys := delete_where P (t_passkeys db)\<rparr>))"

section \<open>Challenges\<close>

definition store_challenge :: "int \<Rightarrow> string \<Rightarrow> purpose \<Rightarrow> string option \<Rightarrow> string option \<Rightarrow> database \<Rightarrow> (error + unit) \<times> database" where
  "store_challenge now challenge p account binding_value db =
     (if challenge \<in> ch_challenge ` set (t_challenges db) then (Inl (DbError unique_violation), db)
      else if (case account of None \<Rightarrow> False | Some a \<Rightarrow> \<not> account_exists a db) then (Inl (DbError foreign_key_violation), db)
      else (Inr (), db\<lparr>t_challenges := t_challenges db @
             [\<lparr>ch_challenge = challenge, ch_purpose = p, ch_account = account, ch_binding = binding_value,
               ch_expires_at = now + secs challenge_ttl\<rparr>]\<rparr>))"

definition challenge_for :: "int \<Rightarrow> string \<Rightarrow> purpose \<Rightarrow> string option \<Rightarrow> string option \<Rightarrow> challenge_row \<Rightarrow> bool" where
  "challenge_for now challenge p account binding_value r \<longleftrightarrow>
     ch_challenge r = challenge \<and> ch_purpose r = p \<and> now < ch_expires_at r \<and> ch_account r = account \<and> ch_binding r = binding_value"

definition take_challenge :: "int \<Rightarrow> string \<Rightarrow> purpose \<Rightarrow> string option \<Rightarrow> string option \<Rightarrow> database \<Rightarrow> bool \<times> database" where
  "take_challenge now challenge p account binding_value db =
     (let P = challenge_for now challenge p account binding_value
      in (length (filter P (t_challenges db)) = 1, db\<lparr>t_challenges := delete_where P (t_challenges db)\<rparr>))"

text \<open>\<open>read_client_data\<close> is \<^const>\<open>None\<close> where decoding or parsing throws.\<close>

definition challenge_in :: "(string \<Rightarrow> jsval option) \<Rightarrow> jsval \<Rightarrow> string option" where
  "challenge_in read_client_data response =
     (case as_str (jfield (jfield response ''response'') ''clientDataJSON'') of
        None \<Rightarrow> None
      | Some encoded \<Rightarrow>
          if 4096 < length encoded then None
          else (case read_client_data encoded of None \<Rightarrow> None | Some v \<Rightarrow> as_str (jfield v ''challenge'')))"

section \<open>The library\<close>

record new_credential =
  nc_id :: string
  nc_public_key :: string
  nc_counter :: int
  nc_transports :: "string list"

record stored_credential =
  sc_id :: string
  sc_public_key :: string
  sc_counter :: int
  sc_transports :: "string list option"

text \<open>
  \<open>wa_register\<close> and \<open>wa_login\<close> are given the response, the expected challenge and the relying party, and require user
  verification; the inner option says whether the response is verified. The options are a function of the arguments the
  source passes, and of the library's random challenge.
\<close>

record webauthn =
  wa_client_data :: "string \<Rightarrow> jsval option"
  wa_registration_options :: "jsval \<Rightarrow> string \<Rightarrow> jsval"
  wa_authentication_options :: "jsval \<Rightarrow> string \<Rightarrow> jsval"
  wa_register :: "jsval \<Rightarrow> string \<Rightarrow> rp_identity \<Rightarrow> new_credential option option"
  wa_login :: "jsval \<Rightarrow> string \<Rightarrow> rp_identity \<Rightarrow> stored_credential \<Rightarrow> int option option"

definition transport_list :: "string \<Rightarrow> string list option" where
  "transport_list s = map_option (split_on is_comma) (truthy (Some s))"

section \<open>Registration\<close>

definition exclude_entry :: "passkey_row \<Rightarrow> jsval" where
  "exclude_entry r = JObj [(''id'', JStr (pk_id r)),
     (''transports'', case transport_list (pk_transports r) of None \<Rightarrow> JUndefined | Some ts \<Rightarrow> JArr (map JStr ts))]"

definition registration_arguments :: "rp_identity \<Rightarrow> string \<Rightarrow> string \<Rightarrow> passkey_row list \<Rightarrow> jsval" where
  "registration_arguments rp account username existing =
     JObj [(''rpName'', JStr (rp_name rp)), (''rpID'', JStr (rp_id rp)), (''userName'', JStr username), (''userID'', JStr account),
           (''attestationType'', JStr ''none''), (''excludeCredentials'', JArr (map exclude_entry existing)),
           (''authenticatorSelection'', JObj [(''residentKey'', JStr ''required''), (''userVerification'', JStr ''required'')]),
           (''supportedAlgorithmIDs'', JArr [JInt (- 7), JInt (- 8)])]"

definition registration_options ::
  "webauthn \<Rightarrow> url_parser \<Rightarrow> env \<Rightarrow> int \<Rightarrow> string \<Rightarrow> string \<Rightarrow> string \<Rightarrow> database \<Rightarrow> (error + jsval) \<times> database" where
  "registration_options wa parse env now challenge account username db =
     (case relying_party parse (en_auth_base env) of
        Inl e \<Rightarrow> (Inl e, db)
      | Inr rp \<Rightarrow>
          (case store_challenge now challenge P_register (Some account) None db of
             (Inl e, db') \<Rightarrow> (Inl e, db')
           | (Inr _, db') \<Rightarrow>
               (Inr (wa_registration_options wa
                  (registration_arguments rp account username (filter (\<lambda>r. pk_account r = account) (t_passkeys db))) challenge), db')))"

definition passkey_name :: "jsval \<Rightarrow> string" where
  "passkey_name raw = (case as_str raw of
       None \<Rightarrow> ''Passkey'' | Some s \<Rightarrow> if trim s \<noteq> [] then take 60 (trim s) else ''Passkey'')"

text \<open>A reason, or the new passkey.\<close>

definition finish_registration ::
  "webauthn \<Rightarrow> url_parser \<Rightarrow> env \<Rightarrow> int \<Rightarrow> int \<Rightarrow> string \<Rightarrow> jsval \<Rightarrow> jsval \<Rightarrow> database \<Rightarrow> (error + (string + passkey)) \<times> database" where
  "finish_registration wa parse env now now2 account response raw_name db =
     (case truthy (challenge_in (wa_client_data wa) response) of
        None \<Rightarrow> (Inr (Inl ''This request has expired. Try again.''), db)
      | Some challenge \<Rightarrow>
          (case take_challenge now challenge P_register (Some account) None db of
             (False, db1) \<Rightarrow> (Inr (Inl ''This request has expired. Try again.''), db1)
           | (True, db1) \<Rightarrow>
               if max_passkeys \<le> length (filter (\<lambda>r. pk_account r = account) (t_passkeys db1))
               then (Inr (Inl ''At most 10 passkeys per account.''), db1)
               else (case relying_party parse (en_auth_base env) of
                 Inl e \<Rightarrow> (Inl e, db1)
               | Inr rp \<Rightarrow>
                   (case wa_register wa response challenge rp of
                      Some (Some c) \<Rightarrow>
                        let row = \<lparr>pk_id = nc_id c, pk_account = account, pk_public_key = nc_public_key c,
                                pk_counter = nc_counter c, pk_transports = join_with '','' (nc_transports c),
                                pk_name = passkey_name raw_name, pk_created_at = now2, pk_last_used = None\<rparr>
                        in (case insert_pk pk_id row (t_passkeys db1) of
                              None \<Rightarrow> (Inr (Inl ''That passkey is already registered.''), db1)
                            | Some rows \<Rightarrow>
                                if account_exists account db1 then (Inr (Inr (to_passkey row)), db1\<lparr>t_passkeys := rows\<rparr>)
                                else (Inl (DbError foreign_key_violation), db1))
                    | _ \<Rightarrow> (Inr (Inl ''That passkey could not be verified.''), db1)))))"

section \<open>Sign-in\<close>

definition authentication_options ::
  "webauthn \<Rightarrow> url_parser \<Rightarrow> env \<Rightarrow> int \<Rightarrow> string \<Rightarrow> string \<Rightarrow> database \<Rightarrow> (error + jsval) \<times> database" where
  "authentication_options wa parse env now challenge binding_value db =
     (case relying_party parse (en_auth_base env) of
        Inl e \<Rightarrow> (Inl e, db)
      | Inr rp \<Rightarrow>
          (case store_challenge now challenge P_authenticate None (Some binding_value) db of
             (Inl e, db') \<Rightarrow> (Inl e, db')
           | (Inr _, db') \<Rightarrow>
               (Inr (wa_authentication_options wa
                  (JObj [(''rpID'', JStr (rp_id rp)), (''userVerification'', JStr ''required'')]) challenge), db')))"

definition credential_of :: "passkey_row \<Rightarrow> stored_credential" where
  "credential_of r = \<lparr>sc_id = pk_id r, sc_public_key = pk_public_key r, sc_counter = pk_counter r,
     sc_transports = transport_list (pk_transports r)\<rparr>"

definition counter_moves :: "string \<Rightarrow> int \<Rightarrow> passkey_row \<Rightarrow> bool" where
  "counter_moves key n r \<longleftrightarrow> pk_id r = key \<and> (pk_counter r < n \<or> (pk_counter r = 0 \<and> n = 0))"

definition finish_authentication ::
  "webauthn \<Rightarrow> url_parser \<Rightarrow> env \<Rightarrow> int \<Rightarrow> int \<Rightarrow> string \<Rightarrow> jsval \<Rightarrow> database \<Rightarrow> (error + string option) \<times> database" where
  "finish_authentication wa parse env now now2 binding_value response db =
     (case truthy (challenge_in (wa_client_data wa) response) of
        None \<Rightarrow> (Inr None, db)
      | Some challenge \<Rightarrow>
          (case take_challenge now challenge P_authenticate None (Some binding_value) db of
             (False, db1) \<Rightarrow> (Inr None, db1)
           | (True, db1) \<Rightarrow>
               (case as_str (jfield response ''id'') of
                  None \<Rightarrow> (Inr None, db1)
                | Some key \<Rightarrow>
                    if 1024 < length key then (Inr None, db1)
                    else (case find (\<lambda>r. pk_id r = key) (t_passkeys db1) of
                      None \<Rightarrow> (Inr None, db1)
                    | Some stored \<Rightarrow>
                        (case relying_party parse (en_auth_base env) of
                           Inl e \<Rightarrow> (Inl e, db1)
                         | Inr rp \<Rightarrow>
                             (case wa_login wa response challenge rp (credential_of stored) of
                                Some (Some n) \<Rightarrow>
                                  if length (filter (counter_moves (pk_id stored) n) (t_passkeys db1)) \<noteq> 1 then (Inr None, db1)
                                  else (Inr (Some (pk_account stored)),
                                        db1\<lparr>t_passkeys := update_where (counter_moves (pk_id stored) n)
                                              (\<lambda>r. r\<lparr>pk_counter := n, pk_last_used := Some now2\<rparr>) (t_passkeys db1)\<rparr>)
                              | _ \<Rightarrow> (Inr None, db1)))))))"

section \<open>What they guarantee\<close>

datatype passkey_op =
    Py_register_options int string string string
  | Py_register int int string jsval jsval
  | Py_login_options int string string
  | Py_login int int string jsval
  | Py_delete string string

fun exec_passkey :: "webauthn \<Rightarrow> url_parser \<Rightarrow> env \<Rightarrow> passkey_op \<Rightarrow> database \<Rightarrow> database" where
  "exec_passkey wa parse env (Py_register_options now ch a u) db = snd (registration_options wa parse env now ch a u db)"
| "exec_passkey wa parse env (Py_register now now2 a r n) db = snd (finish_registration wa parse env now now2 a r n db)"
| "exec_passkey wa parse env (Py_login_options now ch b) db = snd (authentication_options wa parse env now ch b db)"
| "exec_passkey wa parse env (Py_login now now2 b r) db = snd (finish_authentication wa parse env now now2 b r db)"
| "exec_passkey wa parse env (Py_delete a i) db = snd (delete_passkey a i db)"

fun draws_challenge :: "string \<Rightarrow> passkey_op \<Rightarrow> bool" where
  "draws_challenge c (Py_register_options now ch a u) \<longleftrightarrow> ch = c"
| "draws_challenge c (Py_login_options now ch b) \<longleftrightarrow> ch = c"
| "draws_challenge c _ \<longleftrightarrow> False"

fun deletes_passkey :: "string \<Rightarrow> passkey_op \<Rightarrow> bool" where
  "deletes_passkey key (Py_delete a i) \<longleftrightarrow> i = key"
| "deletes_passkey key _ \<longleftrightarrow> False"

definition no_challenge :: "string \<Rightarrow> database \<Rightarrow> bool" where
  "no_challenge c db \<longleftrightarrow> c \<notin> ch_challenge ` set (t_challenges db)"

definition counted :: "string \<Rightarrow> string \<Rightarrow> int \<Rightarrow> database \<Rightarrow> bool" where
  "counted key a n db \<longleftrightarrow> distinct (map pk_id (t_passkeys db))
     \<and> (\<exists>r \<in> set (t_passkeys db). pk_id r = key \<and> pk_account r = a \<and> n \<le> pk_counter r)"

lemma snd_take_challenge:
  "snd (take_challenge now c p a b db) = db\<lparr>t_challenges := delete_where (challenge_for now c p a b) (t_challenges db)\<rparr>"
  by (simp add: take_challenge_def Let_def)

lemma no_challenge_take: "no_challenge c db \<Longrightarrow> no_challenge c (snd (take_challenge now c' p a b db))"
  by (auto simp: no_challenge_def snd_take_challenge set_delete_where)

lemma no_challenge_passkeys [simp]: "no_challenge c (db\<lparr>t_passkeys := x\<rparr>) = no_challenge c db"
  by (simp add: no_challenge_def)

lemma store_challenge_frame:
  "t_passkeys (snd (store_challenge now ch p a b db)) = t_passkeys db"
  "no_challenge c db \<Longrightarrow> ch \<noteq> c \<Longrightarrow> no_challenge c (snd (store_challenge now ch p a b db))"
  by (auto simp: store_challenge_def no_challenge_def)

text \<open>What a registration and a sign-in leave: the challenge taken, and a passkey more, or its counter moved.\<close>

lemma finish_registration_state:
  assumes "Q db" "\<And>c. Q (snd (take_challenge now c P_register (Some a) None db))"
    and "\<And>c row rows. insert_pk pk_id row (t_passkeys db) = Some rows \<Longrightarrow>
      Q ((snd (take_challenge now c P_register (Some a) None db))\<lparr>t_passkeys := rows\<rparr>)"
  shows "Q (snd (finish_registration wa parse env now now2 a r n db))"
proof (cases "truthy (challenge_in (wa_client_data wa) r)")
  case None
  then show ?thesis using assms(1) by (simp add: finish_registration_def)
next
  case (Some c)
  obtain b db1 where t: "take_challenge now c P_register (Some a) None db = (b, db1)" by fastforce
  have p: "t_passkeys db1 = t_passkeys db" using snd_take_challenge [of now c P_register "Some a" None db] t by simp
  show ?thesis
    using assms(2) [of c] assms(3) [of _ _ c]
    by (cases b) (auto simp: finish_registration_def Some t p Let_def split: option.splits sum.splits)
qed

lemma finish_authentication_state:
  assumes "Q db" "\<And>c. Q (snd (take_challenge now c P_authenticate None (Some b) db))"
    and "\<And>c key n. Q ((snd (take_challenge now c P_authenticate None (Some b) db))
           \<lparr>t_passkeys := update_where (counter_moves key n) (\<lambda>r. r\<lparr>pk_counter := n, pk_last_used := Some now2\<rparr>) (t_passkeys db)\<rparr>)"
  shows "Q (snd (finish_authentication wa parse env now now2 b r db))"
proof (cases "truthy (challenge_in (wa_client_data wa) r)")
  case None
  then show ?thesis using assms(1) by (simp add: finish_authentication_def)
next
  case (Some c)
  obtain v db1 where t: "take_challenge now c P_authenticate None (Some b) db = (v, db1)" by fastforce
  have p: "t_passkeys db1 = t_passkeys db" using snd_take_challenge [of now c P_authenticate None "Some b" db] t by simp
  show ?thesis
    using assms(2) [where c = c] assms(3) [where c = c]
    by (cases v) (auto simp: finish_authentication_def Some t p split: option.splits sum.splits)
qed

lemma options_state:
  assumes "Q db" "Q (snd (store_challenge now ch P_register (Some a) None db))"
  shows "Q (snd (registration_options wa parse env now ch a u db))"
  using assms by (auto simp: registration_options_def split: sum.splits prod.splits)

lemma login_options_state:
  assumes "Q db" "Q (snd (store_challenge now ch P_authenticate None (Some b) db))"
  shows "Q (snd (authentication_options wa parse env now ch b db))"
  using assms by (auto simp: authentication_options_def split: sum.splits prod.splits)

lemma no_challenge_exec:
  assumes "no_challenge c db" "\<not> draws_challenge c x"
  shows "no_challenge c (exec_passkey wa parse env x db)"
  using assms
proof (cases x)
  case (Py_register now now2 a r n)
  then show ?thesis using assms
    by (simp, intro finish_registration_state [where Q = "no_challenge c"]) (simp_all add: no_challenge_take)
next
  case (Py_login now now2 b r)
  then show ?thesis using assms
    by (simp, intro finish_authentication_state [where Q = "no_challenge c"]) (simp_all add: no_challenge_take)
next
  case (Py_register_options now ch a u)
  then show ?thesis using assms
    by (simp, intro options_state [where Q = "no_challenge c"]) (simp_all add: store_challenge_frame)
next
  case (Py_login_options now ch b)
  then show ?thesis using assms
    by (simp, intro login_options_state [where Q = "no_challenge c"]) (simp_all add: store_challenge_frame)
qed (simp add: delete_passkey_def Let_def)

lemma counted_passkeys: "t_passkeys db' = t_passkeys db \<Longrightarrow> counted key a n db' = counted key a n db"
  by (simp add: counted_def)

lemma counted_take [simp]: "counted key a n (snd (take_challenge now c p o' b db)) = counted key a n db"
  by (rule counted_passkeys) (simp add: snd_take_challenge)

lemma counted_move:
  assumes "counted key a n db" "t_passkeys db' = update_where (counter_moves i m) (\<lambda>r. r\<lparr>pk_counter := m, pk_last_used := u\<rparr>) (t_passkeys db)"
  shows "counted key a n db'"
proof -
  have "map pk_id (t_passkeys db') = map pk_id (t_passkeys db)" by (simp add: assms(2) map_update_where)
  moreover have "\<exists>r \<in> set (t_passkeys db'). pk_id r = key \<and> pk_account r = a \<and> n \<le> pk_counter r"
    using assms(1) unfolding assms(2) bex_update_where counted_def by (force simp: counter_moves_def)
  ultimately show ?thesis using assms(1) by (simp add: counted_def)
qed

lemma counted_exec:
  assumes "counted key a n db" "\<not> deletes_passkey key x"
  shows "counted key a n (exec_passkey wa parse env x db)"
proof (cases x)
  case (Py_register now now2 o' r nm)
  then show ?thesis using assms(1)
    by (simp, intro finish_registration_state [where Q = "counted key a n"])
      (simp_all, auto simp: counted_def snd_take_challenge insert_pk_Some)
next
  case (Py_login now now2 b r)
  then show ?thesis using assms(1)
    by (simp, intro finish_authentication_state [where Q = "counted key a n"])
      (simp_all add: counted_move [where db = db])
next
  case (Py_register_options now ch o' u)
  then show ?thesis using assms(1) 
    by (simp, intro options_state [where Q = "counted key a n"]) (simp_all add: counted_passkeys [OF store_challenge_frame(1)])
next
  case (Py_login_options now ch b)
  then show ?thesis using assms(1) 
    by (simp, intro login_options_state [where Q = "counted key a n"]) (simp_all add: counted_passkeys [OF store_challenge_frame(1)])
next
  case (Py_delete o' i)
  then show ?thesis using assms by (auto simp: counted_def delete_passkey_def Let_def set_delete_where intro: distinct_delete_where)
qed

lemma filter_one: "length (filter P xs) = 1 \<Longrightarrow> \<exists>x \<in> set xs. P x"
  by (metis filter_False length_0_conv zero_neq_one)

lemma login_accepted:
  assumes "finish_authentication wa parse env now now2 b r db = (Inr (Some a), db')"
  obtains c stored rp n where "challenge_in (wa_client_data wa) r = Some c" "c \<noteq> []"
    "length (filter (challenge_for now c P_authenticate None (Some b)) (t_challenges db)) = 1"
    "jfield r ''id'' = JStr (pk_id stored)" "find (\<lambda>q. pk_id q = pk_id stored) (t_passkeys db) = Some stored"
    "relying_party parse (en_auth_base env) = Inr rp" "wa_login wa r c rp (credential_of stored) = Some (Some n)"
    "length (filter (counter_moves (pk_id stored) n) (t_passkeys db)) = 1" "a = pk_account stored"
    "db' = (snd (take_challenge now c P_authenticate None (Some b) db))
       \<lparr>t_passkeys := update_where (counter_moves (pk_id stored) n) (\<lambda>q. q\<lparr>pk_counter := n, pk_last_used := Some now2\<rparr>) (t_passkeys db)\<rparr>"
proof -
  obtain c where c: "truthy (challenge_in (wa_client_data wa) r) = Some c"
    using assms by (cases "truthy (challenge_in (wa_client_data wa) r)") (auto simp: finish_authentication_def)
  obtain v db1 where t: "take_challenge now c P_authenticate None (Some b) db = (v, db1)" by fastforce
  have p: "t_passkeys db1 = t_passkeys db" using snd_take_challenge [of now c P_authenticate None "Some b" db] t by simp
  have v: "v = (length (filter (challenge_for now c P_authenticate None (Some b)) (t_challenges db)) = 1)"
    using t by (simp add: take_challenge_def Let_def)
  obtain key where key: "v" "jfield r ''id'' = JStr key" "\<not> 1024 < length key"
    using assms by (auto simp: finish_authentication_def c t split: bool.splits option.splits if_splits)
  obtain stored where st: "find (\<lambda>q. pk_id q = key) (t_passkeys db) = Some stored"
    using assms key by (cases "find (\<lambda>q. pk_id q = key) (t_passkeys db)") (auto simp: finish_authentication_def c t p)
  then have k: "key = pk_id stored" by (auto dest: find_SomeD)
  obtain rp where rp: "relying_party parse (en_auth_base env) = Inr rp"
    using assms key st by (cases "relying_party parse (en_auth_base env)") (auto simp: finish_authentication_def c t p)
  obtain n where n: "wa_login wa r c rp (credential_of stored) = Some (Some n)"
    using assms key st rp
    by (cases "wa_login wa r c rp (credential_of stored)"; cases "the (wa_login wa r c rp (credential_of stored))")
      (auto simp: finish_authentication_def c t p)
  have "challenge_in (wa_client_data wa) r = Some c \<and> c \<noteq> []"
    using c by (cases "challenge_in (wa_client_data wa) r") (auto split: if_splits)
  with assms key st rp n k v show ?thesis
    by (intro that [of c stored rp n]) (auto simp: finish_authentication_def c t p split: if_splits)
qed

lemma taken_challenge:
  assumes "length (filter (challenge_for now c p a b) (t_challenges db)) = 1" "distinct (map ch_challenge (t_challenges db))"
  shows "no_challenge c (snd (take_challenge now c p a b db))"
proof -
  obtain r where r: "r \<in> set (t_challenges db)" "challenge_for now c p a b r"
    using assms(1) by (blast dest: filter_one)
  have "challenge_for now c p a b q" if "q \<in> set (t_challenges db)" "ch_challenge q = c" for q
    using r that distinct_key_eq [OF assms(2), of r q] by (auto simp: challenge_for_def)
  then show ?thesis by (auto simp: no_challenge_def snd_take_challenge set_delete_where)
qed

lemma no_challenge_refused:
  assumes "no_challenge c db" "challenge_in (wa_client_data wa) r = Some c" "c \<noteq> []"
  shows "fst (finish_authentication wa parse env now now2 b r db) = Inr None"
    and "fst (finish_registration wa parse env now now2 a r n db) = Inr (Inl ''This request has expired. Try again.'')"
proof -
  have f: "filter (challenge_for now c p x y) (t_challenges db) = []" for p x y
    using assms(1) by (auto simp: no_challenge_def filter_empty_conv challenge_for_def)
  show "fst (finish_authentication wa parse env now now2 b r db) = Inr None"
    "fst (finish_registration wa parse env now now2 a r n db) = Inr (Inl ''This request has expired. Try again.'')"
    using assms(2,3) by (simp_all add: finish_authentication_def finish_registration_def take_challenge_def f Let_def)
qed

text \<open>C23. A passkey response signs in once, here. One is accepted only if it answers an unexpired sign-in challenge that was
  made for this very browser, and the library verified it for the authorization server's own host and origin against the
  stored key of the passkey it names; the account is that passkey's. Whatever is done afterwards, no browser is signed in
  with that response again, and no account registers it.\<close>

theorem passkey_response_once:
  assumes "finish_authentication wa parse env now now2 b r db = (Inr (Some a), db1)"
    and "distinct (map ch_challenge (t_challenges db))"
    and "\<And>x c. x \<in> set ops \<Longrightarrow> challenge_in (wa_client_data wa) r = Some c \<Longrightarrow> \<not> draws_challenge c x"
  shows "(\<exists>c ch stored u n. challenge_in (wa_client_data wa) r = Some c \<and> ch \<in> set (t_challenges db) \<and> ch_challenge ch = c
      \<and> ch_purpose ch = P_authenticate \<and> ch_binding ch = Some b \<and> now < ch_expires_at ch
      \<and> stored \<in> set (t_passkeys db) \<and> pk_account stored = a \<and> jfield r ''id'' = JStr (pk_id stored)
      \<and> parse (en_auth_base env) = Some u
      \<and> wa_login wa r c \<lparr>rp_id = url_hostname u, rp_origin = url_origin u, rp_name = ''IoT Switch''\<rparr> (credential_of stored) = Some (Some n))
    \<and> fst (finish_authentication wa parse env t t2 b' r (fold (exec_passkey wa parse env) ops db1)) = Inr None
    \<and> (\<exists>why. fst (finish_registration wa parse env t t2 a' r nm (fold (exec_passkey wa parse env) ops db1)) = Inr (Inl why))"
proof -
  obtain c stored rp n where l: "challenge_in (wa_client_data wa) r = Some c" "c \<noteq> []"
    "length (filter (challenge_for now c P_authenticate None (Some b)) (t_challenges db)) = 1"
    "jfield r ''id'' = JStr (pk_id stored)" "find (\<lambda>q. pk_id q = pk_id stored) (t_passkeys db) = Some stored"
    "relying_party parse (en_auth_base env) = Inr rp" "wa_login wa r c rp (credential_of stored) = Some (Some n)"
    "a = pk_account stored"
    and db1: "no_challenge c db1 = no_challenge c (snd (take_challenge now c P_authenticate None (Some b) db))"
    using assms(1) by (rule login_accepted) simp
  have "no_challenge c db1" unfolding db1 using l(3) assms(2) by (rule taken_challenge)
  then have "no_challenge c (fold (exec_passkey wa parse env) ops db1)"
    using assms(3) [OF _ l(1)]
  proof (induction ops arbitrary: db1)
    case (Cons x ops)
    then show ?case by (simp add: no_challenge_exec)
  qed simp
  note refused = no_challenge_refused [OF this l(1,2)]
  obtain ch where ch: "ch \<in> set (t_challenges db)" "challenge_for now c P_authenticate None (Some b) ch"
    using l(3) by (blast dest: filter_one)
  obtain u where u: "parse (en_auth_base env) = Some u"
      "rp = \<lparr>rp_id = url_hostname u, rp_origin = url_origin u, rp_name = ''IoT Switch''\<rparr>"
    using l(6) by (auto simp: relying_party_def split: option.splits)
  have "\<exists>c ch stored u n. challenge_in (wa_client_data wa) r = Some c \<and> ch \<in> set (t_challenges db) \<and> ch_challenge ch = c
      \<and> ch_purpose ch = P_authenticate \<and> ch_binding ch = Some b \<and> now < ch_expires_at ch
      \<and> stored \<in> set (t_passkeys db) \<and> pk_account stored = a \<and> jfield r ''id'' = JStr (pk_id stored)
      \<and> parse (en_auth_base env) = Some u
      \<and> wa_login wa r c \<lparr>rp_id = url_hostname u, rp_origin = url_origin u, rp_name = ''IoT Switch''\<rparr> (credential_of stored) = Some (Some n)"
    using l(1,4,7,8) ch u find_SomeD [OF l(5)] unfolding challenge_for_def by blast
  then show ?thesis using refused by simp
qed

text \<open>A cloned passkey is noticed. Between two sign-ins with the same passkey, whatever else happens to any passkey short
  of deleting this one, its signature counter has moved forward, unless it has always been zero; and both sign-ins are to
  the same account.\<close>

theorem passkey_counter_advances:
  assumes "distinct (map pk_id (t_passkeys db))"
    and "finish_authentication wa parse env now now2 b r db = (Inr (Some a), db1)" "jfield r ''id'' = JStr key"
    and "\<And>x. x \<in> set ops \<Longrightarrow> \<not> deletes_passkey key x"
    and "finish_authentication wa parse env t t2 b' r' (fold (exec_passkey wa parse env) ops db1) = (Inr (Some a'), db3)"
    and "jfield r' ''id'' = JStr key"
  shows "\<exists>q \<in> set (t_passkeys db1). \<exists>q' \<in> set (t_passkeys db3). pk_id q = key \<and> pk_id q' = key \<and> a' = a
    \<and> (pk_counter q < pk_counter q' \<or> (pk_counter q = 0 \<and> pk_counter q' = 0))"
proof -
  obtain c stored rp n where l: "jfield r ''id'' = JStr (pk_id stored)" "find (\<lambda>q. pk_id q = pk_id stored) (t_passkeys db) = Some stored"
    "length (filter (counter_moves (pk_id stored) n) (t_passkeys db)) = 1" "a = pk_account stored"
    and db1: "t_passkeys db1 = update_where (counter_moves (pk_id stored) n) (\<lambda>q. q\<lparr>pk_counter := n, pk_last_used := Some now2\<rparr>) (t_passkeys db)"
    using assms(2) by (rule login_accepted) simp
  have key: "pk_id stored = key" using l(1) assms(3) by simp
  have st: "stored \<in> set (t_passkeys db)" using find_SomeD [OF l(2)] by blast
  obtain m where m: "m \<in> set (t_passkeys db)" "counter_moves (pk_id stored) n m"
    using l(3) by (blast dest: filter_one)
  then have "m = stored" using st assms(1) distinct_key_eq by (metis counter_moves_def)
  define q where "q = stored\<lparr>pk_counter := n, pk_last_used := Some now2\<rparr>"
  have q: "q \<in> set (t_passkeys db1)" "pk_id q = key" "pk_counter q = n"
    using st m \<open>m = stored\<close> key unfolding db1 in_update_where q_def by auto
  have "counted key a n db1"
  proof -
    have "map pk_id (t_passkeys db1) = map pk_id (t_passkeys db)" unfolding db1 by (simp add: map_update_where)
    then show ?thesis using q assms(1) l(4) unfolding counted_def by (auto simp: q_def intro!: bexI [of _ q])
  qed
  then have "counted key a n (fold (exec_passkey wa parse env) ops db1)"
    using assms(4)
  proof (induction ops arbitrary: db1)
    case (Cons x ops)
    then show ?case by (simp add: counted_exec)
  qed simp
  then obtain s where s: "distinct (map pk_id (t_passkeys (fold (exec_passkey wa parse env) ops db1)))"
    "s \<in> set (t_passkeys (fold (exec_passkey wa parse env) ops db1))" "pk_id s = key" "pk_account s = a" "n \<le> pk_counter s"
    by (auto simp: counted_def)
  obtain c' stored' rp' n' where l': "jfield r' ''id'' = JStr (pk_id stored')"
    "find (\<lambda>q. pk_id q = pk_id stored') (t_passkeys (fold (exec_passkey wa parse env) ops db1)) = Some stored'"
    "length (filter (counter_moves (pk_id stored') n') (t_passkeys (fold (exec_passkey wa parse env) ops db1))) = 1" "a' = pk_account stored'"
    and db3: "t_passkeys db3 = update_where (counter_moves (pk_id stored') n') (\<lambda>q. q\<lparr>pk_counter := n', pk_last_used := Some t2\<rparr>)
        (t_passkeys (fold (exec_passkey wa parse env) ops db1))"
    using assms(5) by (rule login_accepted) simp
  have key': "pk_id stored' = key" using l'(1) assms(6) by simp
  have eq: "stored' = s" using s(1-3) find_SomeD [OF l'(2)] key' distinct_key_eq by metis
  obtain m' where m': "m' \<in> set (t_passkeys (fold (exec_passkey wa parse env) ops db1))" "counter_moves (pk_id stored') n' m'"
    using l'(3) by (blast dest: filter_one)
  then have "m' = s" using s(1,2) eq distinct_key_eq by (metis counter_moves_def)
  then have "s\<lparr>pk_counter := n', pk_last_used := Some t2\<rparr> \<in> set (t_passkeys db3)" "pk_counter s < n' \<or> (pk_counter s = 0 \<and> n' = 0)"
    using s(2) m' eq unfolding db3 in_update_where by (auto simp: counter_moves_def)
  moreover have "a' = a" using l'(4) eq s(4) by simp
  ultimately show ?thesis using q s(3,5) by (intro bexI [of _ q] bexI [of _ "s\<lparr>pk_counter := n', pk_last_used := Some t2\<rparr>"]) auto
qed

definition demo_webauthn :: webauthn where
  "demo_webauthn = \<lparr>wa_client_data = (\<lambda>e. Some (JObj [(''challenge'', JStr e)])), wa_registration_options = (\<lambda>a c. a),
     wa_authentication_options = (\<lambda>a c. a), wa_register = (\<lambda>r c p. None), wa_login = (\<lambda>r c p s. Some (Some (sc_counter s + 1)))\<rparr>"

definition demo_site :: url_parser where
  "demo_site s = Some \<lparr>url_protocol = ''https:'', url_host = ''auth'', url_hostname = ''auth'', url_path = ''/'', url_search = [],
     url_hash = [], url_username = [], url_password = []\<rparr>"

definition demo_challenge :: "string \<Rightarrow> challenge_row" where
  "demo_challenge c = \<lparr>ch_challenge = c, ch_purpose = P_authenticate, ch_account = None, ch_binding = Some ''b'', ch_expires_at = 100\<rparr>"

definition demo_passkey :: "int \<Rightarrow> int option \<Rightarrow> passkey_row" where
  "demo_passkey n u = \<lparr>pk_id = ''pk'', pk_account = ''ann'', pk_public_key = ''k'', pk_counter = n, pk_transports = [], pk_name = ''Phone'',
     pk_created_at = 0, pk_last_used = u\<rparr>"

definition demo_passkeys :: "string list \<Rightarrow> int \<Rightarrow> int option \<Rightarrow> database" where
  "demo_passkeys cs n u = empty_db\<lparr>t_challenges := map demo_challenge cs, t_passkeys := [demo_passkey n u]\<rparr>"

definition demo_response :: "string \<Rightarrow> jsval" where
  "demo_response c = JObj [(''id'', JStr ''pk''), (''response'', JObj [(''clientDataJSON'', JStr c)])]"

lemma demo_challenge_in [simp]:
  "length c \<le> 4096 \<Longrightarrow> challenge_in (wa_client_data demo_webauthn) (demo_response c) = Some c" "jfield (demo_response c) ''id'' = JStr ''pk''"
  by (simp_all add: challenge_in_def demo_webauthn_def demo_response_def)

lemma demo_take [simp]:
  "take_challenge 5 ''c1'' P_authenticate None (Some ''b'') (demo_passkeys [''c1'', ''c2''] n u) = (True, demo_passkeys [''c2''] n u)"
  "take_challenge 5 ''c2'' P_authenticate None (Some ''b'') (demo_passkeys [''c2''] n u) = (True, demo_passkeys [] n u)"
  by (simp_all add: take_challenge_def demo_passkeys_def challenge_for_def demo_challenge_def delete_where_def Let_def)

lemma demo_sign_in [simp]:
  assumes "c \<in> {''c1'', ''c2''}" "take_challenge 5 c P_authenticate None (Some ''b'') db = (True, demo_passkeys cs n u)" "0 \<le> n"
  shows "finish_authentication demo_webauthn demo_site env 5 6 ''b'' (demo_response c) db = (Inr (Some ''ann''), demo_passkeys cs (n + 1) (Some 6))"
proof -
  have c: "challenge_in (wa_client_data demo_webauthn) (demo_response c) = Some c" "c \<noteq> []"
    using assms(1) by auto
  have w: "wa_login demo_webauthn r c rp s = Some (Some (sc_counter s + 1))" for r rp s by (simp add: demo_webauthn_def)
  have k: "t_passkeys (demo_passkeys cs n u) = [demo_passkey n u]" by (simp add: demo_passkeys_def)
  have m: "counter_moves ''pk'' (n + 1) (demo_passkey n u)" using assms(3) by (simp add: counter_moves_def demo_passkey_def)
  have p: "pk_id (demo_passkey n u) = ''pk''" "pk_account (demo_passkey n u) = ''ann''"
    "sc_counter (credential_of (demo_passkey n u)) = n"
    by (simp_all add: demo_passkey_def credential_of_def)
  have "(demo_passkeys cs n u)\<lparr>t_passkeys := [(demo_passkey n u)\<lparr>pk_counter := n + 1, pk_last_used := Some 6\<rparr>]\<rparr> = demo_passkeys cs (n + 1) (Some 6)"
    by (simp add: demo_passkeys_def demo_passkey_def)
  with c show ?thesis
    by (simp add: finish_authentication_def assms(2) w k m p relying_party_def demo_site_def update_where_def)
qed

theorem passkey_response_once_witness:
  "\<exists>db1. finish_authentication demo_webauthn demo_site demo_env 5 6 ''b'' (demo_response ''c1'') (demo_passkeys [''c1'', ''c2''] 0 None)
       = (Inr (Some ''ann''), db1)
     \<and> fst (finish_authentication demo_webauthn demo_site demo_env 7 8 ''b'' (demo_response ''c1'') db1) = Inr None"
proof -
  have a: "finish_authentication demo_webauthn demo_site demo_env 5 6 ''b'' (demo_response ''c1'') (demo_passkeys [''c1'', ''c2''] 0 None)
      = (Inr (Some ''ann''), demo_passkeys [''c2''] 1 (Some 6))"
    using demo_sign_in [of "''c1''" "demo_passkeys [''c1'', ''c2''] 0 None"] by simp
  have "distinct (map ch_challenge (t_challenges (demo_passkeys [''c1'', ''c2''] 0 None)))"
    by (simp add: demo_passkeys_def demo_challenge_def)
  from passkey_response_once [OF a this, of "[]"] a show ?thesis by auto
qed

theorem passkey_counter_advances_witness:
  "\<exists>q \<in> set (t_passkeys (demo_passkeys [''c2''] 1 (Some 6))). \<exists>q' \<in> set (t_passkeys (demo_passkeys [] 2 (Some 6))). pk_counter q < pk_counter q'"
proof -
  have a: "finish_authentication demo_webauthn demo_site demo_env 5 6 ''b'' (demo_response ''c1'') (demo_passkeys [''c1'', ''c2''] 0 None)
      = (Inr (Some ''ann''), demo_passkeys [''c2''] 1 (Some 6))"
    using demo_sign_in [of "''c1''" "demo_passkeys [''c1'', ''c2''] 0 None"] by simp
  have b: "finish_authentication demo_webauthn demo_site demo_env 5 6 ''b'' (demo_response ''c2'')
      (fold (exec_passkey demo_webauthn demo_site demo_env) [] (demo_passkeys [''c2''] 1 (Some 6))) = (Inr (Some ''ann''), demo_passkeys [] 2 (Some 6))"
    using demo_sign_in [of "''c2''" "demo_passkeys [''c2''] 1 (Some 6)"] by simp
  have "distinct (map pk_id (t_passkeys (demo_passkeys [''c1'', ''c2''] 0 None)))" by (simp add: demo_passkeys_def)
  from passkey_counter_advances [OF this a demo_challenge_in(2) _ b demo_challenge_in(2)] show ?thesis
    by (auto simp: demo_passkeys_def demo_passkey_def)
qed

end
