(* ===== verification/Web.thy ===== *)
theory Web
  imports Passkeys Clients Stores
begin

text \<open>
  What the authorization server's own pages share: \<open>server/src/security/cookies.ts\<close>, \<open>server/src/security/mac.ts\<close>,
  \<open>server/src/security/headers.ts\<close>, and the helpers \<open>sendPage\<close>, \<open>sendError\<close>, \<open>redirectWithError\<close> and \<open>ensureBinding\<close>
  of \<open>server/src/oauth/authorize.ts\<close>. A page is the arguments of its rendering function (\<open>server/src/oauth/pages.ts\<close>); a
  redirect is its URL with the query parameters set on it; \<open>decodeURIComponent\<close> is a parameter.
\<close>

section \<open>Message authentication\<close>

definition mac :: "env \<Rightarrow> string \<Rightarrow> string list \<Rightarrow> string" where
  "mac env purpose parts =
     base64url (en_hmac env (internal_mac_key (en_keys env)) (purpose @ concat (map (\<lambda>p. CHR 0x00 # p) parts)))"

definition mac_matches :: "string \<Rightarrow> jsval \<Rightarrow> bool" where
  "mac_matches expected presented \<longleftrightarrow> as_str presented = Some expected"

section \<open>Cookies\<close>

definition secure_site :: "env \<Rightarrow> bool" where
  "secure_site env \<longleftrightarrow> starts_with ''https://'' (en_auth_base env)"

datatype cookie = As_session | Pa

fun cookie_base :: "cookie \<Rightarrow> string" where
  "cookie_base As_session = ''as_session''"
| "cookie_base Pa = ''pa''"

definition cookie_name :: "env \<Rightarrow> cookie \<Rightarrow> string" where
  "cookie_name env c = (if secure_site env then ''__Host-'' @ cookie_base c else cookie_base c)"

definition is_semicolon :: "char \<Rightarrow> bool" where
  "is_semicolon c \<longleftrightarrow> c = CHR '';''"

definition is_equals :: "char \<Rightarrow> bool" where
  "is_equals c \<longleftrightarrow> c = CHR ''=''"

text \<open>The value of the first part of that name; a part without an equals sign is skipped.\<close>

fun find_cookie :: "string \<Rightarrow> string list \<Rightarrow> string option" where
  "find_cookie name [] = None"
| "find_cookie name (p # ps) =
     (let before = takeWhile (\<lambda>c. \<not> is_equals c) p in
      if length before = length p then find_cookie name ps
      else if trim before = name then Some (trim (drop (Suc (length before)) p)) else find_cookie name ps)"

definition read_cookie :: "(string \<Rightarrow> string option) \<Rightarrow> string option \<Rightarrow> string \<Rightarrow> string option" where
  "read_cookie decode hdr name =
     (case truthy hdr of
        None \<Rightarrow> None
      | Some h \<Rightarrow> (case find_cookie name (split_on is_semicolon h) of None \<Rightarrow> None | Some v \<Rightarrow> decode v))"

text \<open>Beside its value a cookie is HTTP-only, secure where the site is, Lax, and for the path \<open>/\<close>.\<close>

record cookie_options =
  ck_http_only :: bool
  ck_secure :: bool
  ck_same_site :: string
  ck_path :: string
  ck_max_age :: "int option"

datatype cookie_change = Set_cookie string string cookie_options | Clear_cookie string cookie_options

definition cookie_flags :: "env \<Rightarrow> int option \<Rightarrow> cookie_options" where
  "cookie_flags env age =
     \<lparr>ck_http_only = True, ck_secure = secure_site env, ck_same_site = ''lax'', ck_path = ''/'', ck_max_age = age\<rparr>"

definition set_cookie :: "env \<Rightarrow> cookie \<Rightarrow> string \<Rightarrow> int \<Rightarrow> cookie_change" where
  "set_cookie env c v max_age_seconds = Set_cookie (cookie_name env c) v (cookie_flags env (Some (max_age_seconds * 1000)))"

definition clear_cookie :: "env \<Rightarrow> cookie \<Rightarrow> cookie_change" where
  "clear_cookie env c = Clear_cookie (cookie_name env c) (cookie_flags env None)"

section \<open>Requests and replies\<close>

record web_request =
  wq_cookie :: "string option"
  wq_query :: jsval
  wq_body :: jsval
  wq_ip :: "string option"

record login_view =
  lv_pending :: string
  lv_csrf :: string
  lv_host :: string
  lv_signup :: bool
  lv_reauth :: bool
  lv_error :: "string option"
  lv_username :: "string option"

record consent_view =
  nv_pending :: string
  nv_csrf :: string
  nv_username :: string
  nv_host :: string
  nv_kind :: client_kind
  nv_trust :: client_trust
  nv_redirect :: string
  nv_scopes :: "string list"

record connected_app =
  ca_grant :: string
  ca_client :: string
  ca_name :: string
  ca_trust :: client_trust
  ca_destination :: "string option"
  ca_scopes :: "string list"
  ca_created_at :: int
  ca_last_used :: "int option"

datatype page =
    Error_page string string
  | Login_page login_view
  | Consent_page consent_view
  | Account_login_page string "string option" "string option" "string option" bool
  | Account_page string string "passkey list" "string option" "string option"
  | Apps_page string string "connected_app list" "string option"

datatype body =
    Page_body page
  | Json_body jsval
  | Redirect_body string "(string \<times> string) list"
  | Empty_body

record web_reply =
  wp_status :: nat
  wp_headers :: "(string \<times> string) list"
  wp_cookies :: "cookie_change list"
  wp_body :: body

abbreviation with_cookies :: "cookie_change list \<Rightarrow> web_reply \<Rightarrow> web_reply" where
  "with_cookies cs r \<equiv> r\<lparr>wp_cookies := cs @ wp_cookies r\<rparr>"

definition redirect :: "nat \<Rightarrow> string \<Rightarrow> (string \<times> string) list \<Rightarrow> web_reply" where
  "redirect status base query = \<lparr>wp_status = status, wp_headers = [], wp_cookies = [], wp_body = Redirect_body base query\<rparr>"

definition web_json :: "nat \<Rightarrow> (string \<times> string) list \<Rightarrow> jsval \<Rightarrow> web_reply" where
  "web_json status hs v = \<lparr>wp_status = status, wp_headers = hs, wp_cookies = [], wp_body = Json_body v\<rparr>"

section \<open>Page headers\<close>

definition new_nonce :: "string \<Rightarrow> string" where
  "new_nonce rnd = base64 rnd"

definition form_action_source :: "url_parser \<Rightarrow> string \<Rightarrow> error + string" where
  "form_action_source parse uri =
     (case parse uri of
        None \<Rightarrow> Inl invalid_url
      | Some u \<Rightarrow> Inr (if url_origin u = ''null'' then url_protocol u else url_origin u))"

definition csp_quote :: "string \<Rightarrow> string" where
  "csp_quote s = CHR 0x27 # s @ [CHR 0x27]"

definition content_security_policy :: "string \<Rightarrow> string list \<Rightarrow> bool \<Rightarrow> string list" where
  "content_security_policy nonce form_targets script =
     [''default-src '' @ csp_quote ''none'', ''style-src '' @ csp_quote (''nonce-'' @ nonce)]
     @ (if script then [''script-src '' @ csp_quote (''nonce-'' @ nonce), ''connect-src '' @ csp_quote ''self''] else [])
     @ [''img-src '' @ csp_quote ''self'', ''form-action '' @ join_with '' '' (csp_quote ''self'' # form_targets),
        ''frame-ancestors '' @ csp_quote ''none'', ''base-uri '' @ csp_quote ''none'']"

definition auth_page_headers :: "string \<Rightarrow> string list \<Rightarrow> bool \<Rightarrow> (string \<times> string) list" where
  "auth_page_headers nonce form_targets script =
     [(''Content-Security-Policy'', join_with ''; '' (content_security_policy nonce form_targets script)),
      (''X-Frame-Options'', ''DENY''), (''Cross-Origin-Opener-Policy'', ''same-origin''), (''Referrer-Policy'', ''no-referrer''),
      (''Cache-Control'', ''no-store''), (''X-Content-Type-Options'', ''nosniff'')]"

definition send_page :: "string \<Rightarrow> nat \<Rightarrow> page \<Rightarrow> string list \<Rightarrow> bool \<Rightarrow> web_reply" where
  "send_page rnd status p form_targets script =
     \<lparr>wp_status = status, wp_headers = auth_page_headers (new_nonce rnd) form_targets script, wp_cookies = [], wp_body = Page_body p\<rparr>"

definition error_page :: "string \<Rightarrow> nat \<Rightarrow> string \<Rightarrow> string \<Rightarrow> web_reply" where
  "error_page rnd status title detail = send_page rnd status (Error_page title detail) [] False"

text \<open>\<open>redirectWithError\<close>.\<close>

definition redirect_with_error :: "env \<Rightarrow> url_parser \<Rightarrow> string \<Rightarrow> string option \<Rightarrow> string \<Rightarrow> string \<Rightarrow> error + web_reply" where
  "redirect_with_error env parse uri state err description =
     (case parse uri of
        None \<Rightarrow> Inl invalid_url
      | Some _ \<Rightarrow> Inr (redirect 302 uri ([(''error'', err), (''error_description'', description)]
          @ (case truthy state of None \<Rightarrow> [] | Some s \<Rightarrow> [(''state'', s)]) @ [(''iss'', en_auth_base env)])))"

section \<open>The browser binding\<close>

abbreviation binding_cookie_seconds :: int where "binding_cookie_seconds \<equiv> 3600"

definition cookie_val :: "string option \<Rightarrow> jsval" where
  "cookie_val v = (case v of None \<Rightarrow> JNull | Some s \<Rightarrow> JStr s)"

definition ensure_binding :: "env \<Rightarrow> (string \<Rightarrow> string option) \<Rightarrow> string \<Rightarrow> web_request \<Rightarrow> string \<times> cookie_change list" where
  "ensure_binding env decode rnd rq =
     (case read_cookie decode (wq_cookie rq) (cookie_name env Pa) of
        Some v \<Rightarrow> if well_formed_str Binding v then (v, []) else (mint Binding rnd, [set_cookie env Pa (mint Binding rnd) binding_cookie_seconds])
      | None \<Rightarrow> (mint Binding rnd, [set_cookie env Pa (mint Binding rnd) binding_cookie_seconds]))"

definition csrf_for :: "env \<Rightarrow> pending \<Rightarrow> string \<Rightarrow> string" where
  "csrf_for env p binding_value = mac env ''authorize-csrf'' [pe_id p, binding_value]"

definition account_login_csrf :: "env \<Rightarrow> string \<Rightarrow> string" where
  "account_login_csrf env binding_value = mac env ''account-login-csrf'' [binding_value]"

section \<open>Cookies read back\<close>

definition plain_token :: "string \<Rightarrow> bool" where
  "plain_token s \<longleftrightarrow> (\<forall>c \<in> set s. \<not> is_ws c \<and> \<not> is_semicolon c \<and> \<not> is_equals c)"

definition cookie_header :: "(string \<times> string) list \<Rightarrow> string" where
  "cookie_header cs = join_with ''; '' (map (\<lambda>(n, v). n @ ''='' @ v) cs)"

lemma trim_plain: "plain_token s \<Longrightarrow> trim s = s" "plain_token s \<Longrightarrow> trim (CHR '' '' # s) = s"
proof -
  assume p: "plain_token s"
  have d: "dropWhile is_ws s = s" using p by (cases s) (auto simp: plain_token_def)
  have "dropWhile is_ws (rev s) = rev s" using p by (cases "rev s") (auto simp: plain_token_def dest: arg_cong [where f = set])
  with d show "trim s = s" "trim (CHR '' '' # s) = s" by (simp_all add: trim_def)
qed

lemma split_join_semicolon:
  assumes "\<forall>p \<in> set (q # ps). \<forall>c \<in> set p. \<not> is_semicolon c"
  shows "split_on is_semicolon (join_with ''; '' (q # ps)) = q # map ((#) (CHR '' '')) ps"
  using assms
proof (induction ps arbitrary: q)
  case Nil
  then show ?case by (simp add: split_on_word)
next
  case (Cons p ps)
  have "split_on is_semicolon (q @ ''; '' @ join_with ''; '' (p # ps))
      = q # split_on is_semicolon ('' '' @ join_with ''; '' (p # ps))"
    using Cons.prems split_on_word_append [of q is_semicolon "CHR '';''"] by (simp add: is_semicolon_def)
  also have "split_on is_semicolon ('' '' @ join_with ''; '' (p # ps)) = (CHR '' '' # p) # map ((#) (CHR '' '')) ps"
  proof -
    have "split_on is_semicolon (join_with ''; '' (p # ps)) = p # map ((#) (CHR '' '')) ps" using Cons.IH [of p] Cons.prems by simp
    moreover have "\<not> is_semicolon (CHR '' '')" by (simp add: is_semicolon_def)
    ultimately show ?thesis by simp
  qed
  finally show ?case by simp
qed

lemma find_cookie_part:
  assumes "plain_token n" "plain_token v"
  shows "find_cookie name ((n @ CHR ''='' # v) # ps) = (if n = name then Some v else find_cookie name ps)"
    "find_cookie name ((CHR '' '' # n @ CHR ''='' # v) # ps) = (if n = name then Some v else find_cookie name ps)"
proof -
  have t: "takeWhile (\<lambda>c. \<not> is_equals c) (n @ CHR ''='' # v) = n"
    using assms(1) by (subst takeWhile_append2) (auto simp: plain_token_def is_equals_def)
  have e: "\<not> is_equals (CHR '' '')" by (simp add: is_equals_def)
  show "find_cookie name ((n @ CHR ''='' # v) # ps) = (if n = name then Some v else find_cookie name ps)"
    "find_cookie name ((CHR '' '' # n @ CHR ''='' # v) # ps) = (if n = name then Some v else find_cookie name ps)"
    using t e assms by (simp_all add: Let_def trim_plain)
qed

lemma find_cookie_parts:
  assumes "\<forall>(n, v) \<in> set cs. plain_token n \<and> plain_token v"
  shows "find_cookie name (map (\<lambda>(n, v). CHR '' '' # n @ CHR ''='' # v) cs) = map_of cs name"
  using assms by (induction cs) (auto simp: find_cookie_part(2) simp del: find_cookie.simps(2))

text \<open>A header that carries cookies of plain tokens, as a browser writes it, reads back.\<close>

lemma cookies_read_back:
  assumes "\<forall>(n, v) \<in> set cs. plain_token n \<and> plain_token v" "cs \<noteq> []"
  shows "read_cookie decode (Some (cookie_header cs)) name = (case map_of cs name of None \<Rightarrow> None | Some v \<Rightarrow> decode v)"
proof -
  obtain n v cs' where cs: "cs = (n, v) # cs'" using assms(2) by (cases cs) auto
  let ?part = "\<lambda>(n, v). n @ CHR ''='' # v"
  have h: "cookie_header cs = join_with ''; '' ((n @ CHR ''='' # v) # map ?part cs')"
    by (simp add: cookie_header_def cs case_prod_beta)
  have "\<forall>p \<in> set ((n @ CHR ''='' # v) # map ?part cs'). \<forall>c \<in> set p. \<not> is_semicolon c"
    using assms(1) unfolding cs by (fastforce simp: plain_token_def is_semicolon_def)
  from split_join_semicolon [OF this]
  have s: "split_on is_semicolon (cookie_header cs) = (n @ CHR ''='' # v) # map (\<lambda>(n, v). CHR '' '' # n @ CHR ''='' # v) cs'"
    unfolding h by (simp add: case_prod_beta comp_def)
  have "cookie_header cs \<noteq> []" unfolding h by (cases cs') auto
  moreover have "plain_token n" "plain_token v" "\<forall>(n, v) \<in> set cs'. plain_token n \<and> plain_token v"
    using assms(1) by (simp_all add: cs)
  ultimately have "find_cookie name (split_on is_semicolon (cookie_header cs)) = map_of cs name"
    unfolding s by (simp add: find_cookie_part(1) find_cookie_parts cs del: find_cookie.simps(2))
  then show ?thesis using \<open>cookie_header cs \<noteq> []\<close> by (simp add: read_cookie_def)
qed

lemma base62_digit_alnum: "n < 62 \<Longrightarrow> is_alnum (base62_digit n)"
proof -
  have "\<forall>c \<in> set ''0123456789ABCDEFGHIJKLMNOPQRSTUVWXYZabcdefghijklmnopqrstuvwxyz''. is_alnum c"
    by (simp add: is_alnum_def)
  moreover assume "n < 62"
  then have "base62_digit n \<in> set ''0123456789ABCDEFGHIJKLMNOPQRSTUVWXYZabcdefghijklmnopqrstuvwxyz''"
    unfolding base62_digit_def by (intro nth_mem) simp
  ultimately show "is_alnum (base62_digit n)" by blast
qed

lemma plain_checksum: "plain_token (checksum s)"
proof -
  have "list_all is_alnum out \<Longrightarrow> list_all is_alnum (base62_loop w r out)" for w r out
    by (induction w r out rule: base62_loop.induct) (simp_all add: base62_digit_alnum)
  then have "list_all is_alnum (checksum s)" by (simp add: checksum_def base62_def)
  moreover have "is_alnum c \<Longrightarrow> \<not> is_ws c \<and> \<not> is_semicolon c \<and> \<not> is_equals c" for c
    by (auto simp: is_alnum_def is_ws_def is_semicolon_def is_equals_def Let_def)
  ultimately show ?thesis by (auto simp: plain_token_def list_all_iff)
qed

lemma plain_mint: "plain_token (mint k rnd)"
proof -
  have "b64url_char c \<Longrightarrow> \<not> is_ws c \<and> \<not> is_semicolon c \<and> \<not> is_equals c" for c
    by (auto simp: b64url_char_def is_alnum_def is_ws_def is_semicolon_def is_equals_def Let_def)
  moreover have "plain_token (token_prefix k)" by (cases k) (simp_all add: plain_token_def is_ws_def is_semicolon_def is_equals_def)
  ultimately show ?thesis using plain_checksum base64url_chars by (fastforce simp: mint_def plain_token_def Let_def)
qed

end
