(* ===== verification/Authorize.thy ===== *)
theory Authorize
  imports Web Consents Dpop
begin

text \<open>
  \<open>server/src/oauth/authorize.ts\<close>: the authorization endpoint and the pages behind it. The state is the store of rate
  limits, the limiter of metadata fetches and the database. \<open>dw_now k\<close> is the database clock of a request's k-th
  statement. A handler gives its reply or an exception for the error handler.
\<close>

abbreviation recent_sign_in_seconds :: int where "recent_sign_in_seconds \<equiv> 900"

section \<open>What a request draws on\<close>

text \<open>The deployment: configuration and libraries. \<open>si_attempts\<close> is AUTH_RATE_LIMIT_PER_MINUTE.\<close>

record 's site =
  si_env :: env
  si_decode :: "string \<Rightarrow> string option"
  si_resolver :: "'s resolver"
  si_argon_hash :: "string \<Rightarrow> string \<Rightarrow> string"
  si_argon_verify :: "string \<Rightarrow> string \<Rightarrow> bool option"
  si_nfkc :: "string \<Rightarrow> string"
  si_decoy :: password_hash
  si_webauthn :: webauthn
  si_attempts :: nat

record draws =
  dw_now_ms :: int
  dw_now :: "nat \<Rightarrow> int"
  dw_nonce :: string
  dw_binding :: string
  dw_pending :: string
  dw_par :: string
  dw_session :: string
  dw_code :: string
  dw_consent :: string
  dw_account :: string
  dw_salt :: string
  dw_challenge :: string

record 's web_state =
  ws_buckets :: 's
  ws_fetches :: 's
  ws_db :: database

abbreviation si_parse :: "'s site \<Rightarrow> url_parser" where
  "si_parse si \<equiv> rs_parse (si_resolver si)"

definition on_web_db :: "(database \<Rightarrow> 'r \<times> database) \<Rightarrow> 's web_state \<Rightarrow> 'r \<times> 's web_state" where
  "on_web_db f w = (case f (ws_db w) of (r, db) \<Rightarrow> (r, w\<lparr>ws_db := db\<rparr>))"

definition read_request_cookie :: "'s site \<Rightarrow> web_request \<Rightarrow> cookie \<Rightarrow> jsval" where
  "read_request_cookie si rq c = cookie_val (read_cookie (si_decode si) (wq_cookie rq) (cookie_name (si_env si) c))"

section \<open>Validation\<close>

record refused_request =
  rf_title :: string
  rf_detail :: string
  rf_redirect :: "(string \<times> string option \<times> string \<times> string) option"

datatype validated = Valid pending bool | Not_valid refused_request

definition is_thumbprint :: "jsval \<Rightarrow> bool" where
  "is_thumbprint v = (case as_str v of None \<Rightarrow> False | Some s \<Rightarrow> length s = 43 \<and> list_all b64url_char s)"

definition valid_challenge :: "jsval \<Rightarrow> bool" where
  "valid_challenge v = (case as_str v of None \<Rightarrow> False | Some s \<Rightarrow> 43 \<le> length s \<and> length s \<le> 128)"

definition state_value :: "jsval \<Rightarrow> string option" where
  "state_value v = (case as_str v of None \<Rightarrow> None | Some s \<Rightarrow> if length s \<le> 2048 then Some s else None)"

definition expected_resource :: "env \<Rightarrow> resolved_client \<Rightarrow> string" where
  "expected_resource env c = (if rc_first_party c then api_resource env else resource_uri env)"

definition requested_scopes :: "jsval \<Rightarrow> string list" where
  "requested_scopes v = (if v = JUndefined then scopes_all else parse_scopes v)"

definition str_of :: "jsval \<Rightarrow> string" where
  "str_of v = (case as_str v of None \<Rightarrow> [] | Some s \<Rightarrow> s)"

text \<open>The first objection to a request whose client and redirect URI are known.\<close>

definition objection :: "env \<Rightarrow> resolved_client \<Rightarrow> jsval \<Rightarrow> bool \<Rightarrow> (string \<times> string) option" where
  "objection env c params pushed =
     (if rc_first_party c \<and> \<not> pushed
      then Some (''invalid_request'', ''This application must use pushed authorization requests.'')
      else if jfield params ''response_type'' \<noteq> JStr ''code''
      then Some (''unsupported_response_type'', ''Only the authorization code flow is supported.'')
      else if jfield params ''code_challenge_method'' \<noteq> JStr ''S256'' \<or> \<not> valid_challenge (jfield params ''code_challenge'')
      then Some (''invalid_request'', ''PKCE with the S256 challenge method is required.'')
      else if jfield params ''resource'' \<noteq> JUndefined \<and> jfield params ''resource'' \<noteq> JStr (expected_resource env c)
      then Some (''invalid_target'', ''This client may only request tokens for '' @ expected_resource env c @ ''.'')
      else if requested_scopes (jfield params ''scope'') = []
      then Some (''invalid_scope'', ''Supported scopes are: '' @ join_with '' '' scopes_all)
      else if jfield params ''dpop_jkt'' \<noteq> JUndefined \<and> \<not> is_thumbprint (jfield params ''dpop_jkt'')
      then Some (''invalid_request'', ''dpop_jkt must be a base64url SHA-256 JWK thumbprint.'')
      else if rc_first_party c \<and> jfield params ''dpop_jkt'' = JUndefined
      then Some (''invalid_request'', ''This client must bind its authorization to a DPoP key.'')
      else None)"

definition redirect_display :: "url_parser \<Rightarrow> string \<Rightarrow> string" where
  "redirect_display parse uri =
     (case parse uri of None \<Rightarrow> [] | Some u \<Rightarrow> if url_host u \<noteq> [] then url_host u else url_protocol u)"

definition pending_of :: "env \<Rightarrow> url_parser \<Rightarrow> resolved_client \<Rightarrow> string \<Rightarrow> jsval \<Rightarrow> pending" where
  "pending_of env parse c uri params =
     \<lparr>pe_id = [], pe_client = rc_id c,
      pe_client_host = (case rc_host c of Some h \<Rightarrow> h | None \<Rightarrow> redirect_display parse uri),
      pe_kind = rc_kind c, pe_trust = rc_trust c, pe_digest = rc_digest c, pe_redirect = uri,
      pe_state = state_value (jfield params ''state''), pe_challenge = str_of (jfield params ''code_challenge''),
      pe_resource = expected_resource env c, pe_scopes = requested_scopes (jfield params ''scope''),
      pe_offline = (jfield params ''scope'' = JUndefined \<or> requests_offline_access (jfield params ''scope'')),
      pe_binding = [], pe_jkt = as_str (jfield params ''dpop_jkt''), pe_first_party = rc_first_party c\<rparr>"

definition unknown_client :: refused_request where
  "unknown_client = \<lparr>rf_title = ''Unrecognised application'', rf_detail = ''The application that sent you here could not be identified. Its client_id is not registered and does not resolve to a client metadata document.'', rf_redirect = None\<rparr>"

definition unknown_redirect :: refused_request where
  "unknown_redirect = \<lparr>rf_title = ''Unrecognised redirect address'', rf_detail = ''The application asked to be sent somewhere it has not registered, so nothing was sent.'', rf_redirect = None\<rparr>"

text \<open>\<open>validateAuthorization\<close>.\<close>

definition validate_authorization ::
  "env \<Rightarrow> 's resolver \<Rightarrow> jsval \<Rightarrow> bool \<Rightarrow> 's \<times> database \<Rightarrow> validated \<times> 's \<times> database" where
  "validate_authorization env d params pushed st =
     (case resolve_client env d (jfield params ''client_id'') st of
        (None, st') \<Rightarrow> (Not_valid unknown_client, st')
      | (Some c, st') \<Rightarrow>
          (case as_str (jfield params ''redirect_uri'') of
             None \<Rightarrow> (Not_valid unknown_redirect, st')
           | Some uri \<Rightarrow>
               if \<not> redirect_uri_allowed (rs_parse d) uri (rc_redirect_uris c) then (Not_valid unknown_redirect, st')
               else (case objection env c params pushed of
                 Some (err, description) \<Rightarrow>
                   (Not_valid \<lparr>rf_title = ''This request could not be accepted'', rf_detail = description,
                      rf_redirect = Some (uri, state_value (jfield params ''state''), err, description)\<rparr>, st')
               | None \<Rightarrow> (Valid (pending_of env (rs_parse d) c uri params) (jfield params ''prompt'' = JStr ''create''), st'))))"

definition validate_request :: "'s site \<Rightarrow> draws \<Rightarrow> jsval \<Rightarrow> bool \<Rightarrow> 's web_state \<Rightarrow> validated \<times> 's web_state" where
  "validate_request si dw params pushed w =
     (case validate_authorization (si_env si)
        ((si_resolver si)\<lparr>rs_now_ms := dw_now_ms dw, rs_now := dw_now dw 1, rs_now2 := dw_now dw 2\<rparr>) params pushed (ws_fetches w, ws_db w) of
        (v, s, db) \<Rightarrow> (v, w\<lparr>ws_fetches := s, ws_db := db\<rparr>))"

section \<open>Steps\<close>

type_synonym 's handled = "(error + web_reply) \<times> 's web_state"

definition step_query :: "pending \<Rightarrow> (string \<times> string) list" where
  "step_query p = [(''pending'', pe_id p)]"

definition step_redirect :: "string \<Rightarrow> pending \<Rightarrow> (string \<times> string) list \<Rightarrow> web_reply" where
  "step_redirect path p extra = redirect 303 path (step_query p @ extra)"

definition writes :: "pending \<Rightarrow> bool" where
  "writes p \<longleftrightarrow> list_ex (\<lambda>s. s \<noteq> ''devices:read'') (pe_scopes p)"

definition recent_enough :: "pending \<Rightarrow> as_session \<Rightarrow> bool" where
  "recent_enough p s \<longleftrightarrow> \<not> writes p \<or> se_auth_age s \<le> recent_sign_in_seconds"

definition request_uri_prefix :: string where
  "request_uri_prefix = ''urn:ietf:params:oauth:request_uri:''"

definition par_request_id :: "string \<Rightarrow> string" where
  "par_request_id uri = (if starts_with request_uri_prefix uri then drop (length request_uri_prefix) uri else [])"

text \<open>\<open>loadStep\<close>: the pending authorization of this browser with the browser's binding, or the page that says otherwise.\<close>

definition load_step :: "'s site \<Rightarrow> draws \<Rightarrow> web_request \<Rightarrow> jsval \<Rightarrow> 's web_state \<Rightarrow> web_reply + pending \<times> string" where
  "load_step si dw rq key w =
     (case read_pending (dw_now dw 0) key (ws_db w) of
        None \<Rightarrow> Inl (error_page (dw_nonce dw) 400 ''This sign-in link has expired'' ''Authorizations are only valid for a few minutes.'')
      | Some p \<Rightarrow>
          let b = read_request_cookie si rq Pa in
          if pending_belongs_to (si_env si) p b then Inr (p, str_of b)
          else Inl (error_page (dw_nonce dw) 400 ''Open this in the browser you started from''
                 ''This sign-in was started in a different browser, or its cookie was cleared.''))"

definition current_session :: "'s site \<Rightarrow> int \<Rightarrow> web_request \<Rightarrow> 's web_state \<Rightarrow> as_session option \<times> 's web_state" where
  "current_session si now rq w = on_web_db (read_as_session (si_env si) now (read_request_cookie si rq As_session)) w"

text \<open>\<open>complete\<close>: claims the pending authorization and sends the code to the client.\<close>

definition complete :: "'s site \<Rightarrow> draws \<Rightarrow> pending \<Rightarrow> as_session \<Rightarrow> string option \<Rightarrow> 's web_state \<Rightarrow> 's handled" where
  "complete si dw p s consent w =
     (case on_web_db (claim_and_issue_code (si_env si) (dw_now dw 5) (dw_code dw) (se_account s) p
              \<lparr>cx_auth_time = se_auth_time s, cx_consent = consent\<rparr>) w of
        (Inl e, w') \<Rightarrow> (Inl e, w')
      | (Inr None, w') \<Rightarrow> (Inr (error_page (dw_nonce dw) 400 ''This sign-in link has already been used'' ''Start again from the app that sent you here.''), w')
      | (Inr (Some code), w') \<Rightarrow>
          (case si_parse si (pe_redirect p) of
             None \<Rightarrow> (Inl invalid_url, w')
           | Some _ \<Rightarrow>
               (Inr (redirect 302 (pe_redirect p) ([(''code'', code)]
                  @ (case truthy (pe_state p) of None \<Rightarrow> [] | Some st \<Rightarrow> [(''state'', st)]) @ [(''iss'', en_auth_base (si_env si))])), w')))"

definition render_login :: "'s site \<Rightarrow> draws \<Rightarrow> pending \<Rightarrow> string \<Rightarrow> bool \<Rightarrow> bool \<Rightarrow> string option \<Rightarrow> string option \<Rightarrow> error + web_reply" where
  "render_login si dw p b signup reauth err username =
     (case form_action_source (si_parse si) (pe_redirect p) of
        Inl e \<Rightarrow> Inl e
      | Inr src \<Rightarrow> Inr (send_page (dw_nonce dw) 200
          (Login_page \<lparr>lv_pending = pe_id p, lv_csrf = csrf_for (si_env si) p b, lv_host = pe_client_host p, lv_signup = signup,
             lv_reauth = reauth, lv_error = err, lv_username = username\<rparr>) [src] (\<not> signup)))"

definition refuse_form :: "draws \<Rightarrow> web_reply" where
  "refuse_form dw = error_page (dw_nonce dw) 403 ''This form has expired'' ''Reload the page and try again.''"

text \<open>A posted form of a step: the step, and the CSRF value of its form.\<close>

definition with_form :: "'s site \<Rightarrow> draws \<Rightarrow> web_request \<Rightarrow> 's web_state \<Rightarrow> (pending \<Rightarrow> string \<Rightarrow> 's handled) \<Rightarrow> 's handled" where
  "with_form si dw rq w k =
     (case load_step si dw rq (jfield (wq_body rq) ''pending'') w of
        Inl r \<Rightarrow> (Inr r, w)
      | Inr (p, b) \<Rightarrow>
          if mac_matches (csrf_for (si_env si) p b) (jfield (wq_body rq) ''csrf'') then k p b else (Inr (refuse_form dw), w))"

section \<open>The endpoints\<close>

definition jobj_of :: "(string \<times> string) list \<Rightarrow> jsval" where
  "jobj_of params = JObj (map (\<lambda>(k, v). (k, JStr v)) params)"

text \<open>The parameters of \<open>GET /authorize\<close>, validated: its own, or those pushed before.\<close>

definition authorize_params :: "'s site \<Rightarrow> draws \<Rightarrow> web_request \<Rightarrow> 's web_state \<Rightarrow> validated option \<times> 's web_state" where
  "authorize_params si dw rq w =
     (case as_str (jfield (wq_query rq) ''request_uri'') of
        Some uri \<Rightarrow>
          (case as_str (jfield (wq_query rq) ''client_id'') of
             None \<Rightarrow> (None, w)
           | Some client \<Rightarrow>
               (case on_web_db (take_pushed (dw_now dw 0) (par_request_id uri) client) w of
                  (None, w1) \<Rightarrow> (None, w1)
                | (Some params, w1) \<Rightarrow> (case validate_request si dw (jobj_of params) True w1 of (v, w2) \<Rightarrow> (Some v, w2))))
      | None \<Rightarrow> (case validate_request si dw (wq_query rq) False w of (v, w1) \<Rightarrow> (Some v, w1)))"

definition get_authorize :: "'s site \<Rightarrow> draws \<Rightarrow> web_request \<Rightarrow> 's web_state \<Rightarrow> 's handled" where
  "get_authorize si dw rq w =
     (case as_str (jfield (wq_query rq) ''pending'') of
        Some i \<Rightarrow> (Inr (redirect 303 ''/login'' [(''pending'', i)]), w)
      | None \<Rightarrow>
          (case authorize_params si dw rq w of
             (None, w1) \<Rightarrow> (Inr (error_page (dw_nonce dw) 400 ''This sign-in link has expired'' ''Start again from the app that sent you here.''), w1)
           | (Some (Not_valid r), w1) \<Rightarrow>
               (case rf_redirect r of
                  Some (uri, state, err, description) \<Rightarrow> (redirect_with_error (si_env si) (si_parse si) uri state err description, w1)
                | None \<Rightarrow> (Inr (error_page (dw_nonce dw) 400 (rf_title r) (rf_detail r)), w1))
           | (Some (Valid p sign_up), w1) \<Rightarrow>
               (case ensure_binding (si_env si) (si_decode si) (dw_binding dw) rq of
                  (b, cs) \<Rightarrow>
                    (case on_web_db (create_pending (si_env si) (dw_now dw 3) (dw_pending dw) p b) w1 of
                       (Inl e, w2) \<Rightarrow> (Inl e, w2)
                     | (Inr i, w2) \<Rightarrow>
                         (case current_session si (dw_now dw 4) rq w2 of
                            (session, w3) \<Rightarrow>
                              (Inr (with_cookies cs (redirect 303 (if session \<noteq> None then ''/consent'' else ''/login'')
                                 ((''pending'', i) # (if session = None \<and> sign_up then [(''mode'', ''signup'')] else [])))), w3))))))"

definition par_error :: "refused_request \<Rightarrow> string" where
  "par_error r = (case rf_redirect r of Some (_, _, err, _) \<Rightarrow> err
     | None \<Rightarrow> if rf_title r = ''Unrecognised application'' then ''invalid_client'' else ''invalid_request'')"

definition par_description :: "refused_request \<Rightarrow> string" where
  "par_description r = (case rf_redirect r of Some (_, _, _, d) \<Rightarrow> d | None \<Rightarrow> rf_detail r)"

fun string_entries :: "(string \<times> jsval) list \<Rightarrow> (string \<times> string) list" where
  "string_entries [] = []"
| "string_entries ((k, v) # es) = (case as_str v of None \<Rightarrow> string_entries es | Some s \<Rightarrow> (k, s) # string_entries es)"

definition par_headers :: "env \<Rightarrow> int \<Rightarrow> (string \<times> string) list" where
  "par_headers env now_ms = [(''Cache-Control'', ''no-store''), (''DPoP-Nonce'', current_dpop_nonce env now_ms)]"

definition post_par :: "'s site \<Rightarrow> draws \<Rightarrow> web_request \<Rightarrow> 's web_state \<Rightarrow> 's handled" where
  "post_par si dw rq w =
     (let hs = par_headers (si_env si) (dw_now_ms dw) in
      case validate_request si dw (wq_body rq) True w of
        (Not_valid r, w1) \<Rightarrow>
          (Inr (web_json 400 hs (JObj [(''error'', JStr (par_error r)), (''error_description'', JStr (par_description r))])), w1)
      | (Valid p _, w1) \<Rightarrow>
          (case on_web_db (store_pushed (dw_now dw 3) (dw_par dw) (pe_client p)
                  (string_entries (case wq_body rq of JObj es \<Rightarrow> es | _ \<Rightarrow> []))) w1 of
             (Inl e, w2) \<Rightarrow> (Inl e, w2)
           | (Inr i, w2) \<Rightarrow>
               (Inr (web_json 201 hs (JObj [(''request_uri'', JStr (request_uri_prefix @ i)), (''expires_in'', JInt par_ttl)])), w2)))"

definition get_login :: "'s site \<Rightarrow> draws \<Rightarrow> web_request \<Rightarrow> 's web_state \<Rightarrow> 's handled" where
  "get_login si dw rq w =
     (case load_step si dw rq (jfield (wq_query rq) ''pending'') w of
        Inl r \<Rightarrow> (Inr r, w)
      | Inr (p, b) \<Rightarrow>
          (render_login si dw p b (jfield (wq_query rq) ''mode'' = JStr ''signup'') (jfield (wq_query rq) ''reauth'' = JStr ''1'') None None, w))"

definition error_message :: "error \<Rightarrow> string" where
  "error_message e = (case e of AppError a \<Rightarrow> ae_message a | _ \<Rightarrow> ''Could not create that account.'')"

text \<open>A fresh session for \<open>account\<close>, the one the browser had revoked.\<close>

definition fresh_session :: "'s site \<Rightarrow> draws \<Rightarrow> nat \<Rightarrow> web_request \<Rightarrow> string \<Rightarrow> string \<Rightarrow> 's web_state \<Rightarrow> (error + cookie_change) \<times> 's web_state" where
  "fresh_session si dw k rq account acr w =
     (let db = revoke_as_session (si_env si) (dw_now dw k) (read_request_cookie si rq As_session) (ws_db w) in
      case start_as_session (si_env si) (dw_now dw (k + 1)) (dw_session dw) account acr db of
        (Inl e, db') \<Rightarrow> (Inl e, w\<lparr>ws_db := db'\<rparr>)
      | (Inr token, db') \<Rightarrow> (Inr (set_cookie (si_env si) As_session token session_absolute), w\<lparr>ws_db := db'\<rparr>))"

text \<open>The account of a sign-up or a login, or the message its form shows.\<close>

definition credentials_account ::
  "'s site \<Rightarrow> draws \<Rightarrow> bool \<Rightarrow> string \<Rightarrow> string \<Rightarrow> 's web_state \<Rightarrow> (string + string) \<times> 's web_state" where
  "credentials_account si dw signup username password w =
     (if signup
      then (case on_web_db (create_account (en_hmac (si_env si)) (si_argon_hash si) (si_nfkc si) (en_keys (si_env si)) (dw_now dw 1)
                   (dw_account dw) (dw_salt dw) (JStr username) (JStr password)) w of
              (Inl e, w1) \<Rightarrow> (Inl (error_message e), w1)
            | (Inr a, w1) \<Rightarrow> (Inr (a_id a), w1))
      else (case fst (verify_credentials (en_hmac (si_env si)) (si_argon_verify si) (si_nfkc si) (en_keys (si_env si)) (si_decoy si)
                   (JStr username) (JStr password) (ws_db w)) of
              None \<Rightarrow> (Inl ''Invalid username or password.'', w)
            | Some a \<Rightarrow> (Inr (a_id a), w)))"

definition post_login :: "'s site \<Rightarrow> draws \<Rightarrow> web_request \<Rightarrow> 's web_state \<Rightarrow> 's handled" where
  "post_login si dw rq w =
     with_form si dw rq w (\<lambda>p b.
       let signup = (jfield (wq_body rq) ''mode'' = JStr ''signup''); username = str_of (jfield (wq_body rq) ''username'') in
       case credentials_account si dw signup username (str_of (jfield (wq_body rq) ''password'')) w of
         (Inl message, w1) \<Rightarrow> (render_login si dw p b signup False (Some message) (Some username), w1)
       | (Inr account, w1) \<Rightarrow>
           (case fresh_session si dw 2 rq account ''pwd'' w1 of
              (Inl e, w2) \<Rightarrow> (Inl e, w2)
            | (Inr c, w2) \<Rightarrow> (Inr (with_cookies [c] (step_redirect ''/consent'' p [])), w2)))"

definition get_consent :: "'s site \<Rightarrow> draws \<Rightarrow> web_request \<Rightarrow> 's web_state \<Rightarrow> 's handled" where
  "get_consent si dw rq w =
     (case load_step si dw rq (jfield (wq_query rq) ''pending'') w of
        Inl r \<Rightarrow> (Inr r, w)
      | Inr (p, b) \<Rightarrow>
          (case current_session si (dw_now dw 1) rq w of
             (None, w1) \<Rightarrow> (Inr (step_redirect ''/login'' p []), w1)
           | (Some s, w1) \<Rightarrow>
               (case get_account (se_account s) (ws_db w1) of
                  None \<Rightarrow> (Inr (step_redirect ''/login'' p []), w1)
                | Some a \<Rightarrow>
                    if \<not> recent_enough p s then (Inr (step_redirect ''/login'' p [(''reauth'', ''1'')]), w1)
                    else if pe_first_party p then complete si dw p s None w1
                    else (case find_remembered_consent (si_parse si) (dw_now dw 3) (se_account s) p (ws_db w1) of
                      Inl e \<Rightarrow> (Inl e, w1)
                    | Inr remembered \<Rightarrow>
                        (case truthy remembered of
                           Some i \<Rightarrow> complete si dw p s (Some i) w1
                         | None \<Rightarrow>
                             (case form_action_source (si_parse si) (pe_redirect p) of
                                Inl e \<Rightarrow> (Inl e, w1)
                              | Inr src \<Rightarrow> (Inr (send_page (dw_nonce dw) 200
                                  (Consent_page \<lparr>nv_pending = pe_id p, nv_csrf = csrf_for (si_env si) p b, nv_username = a_username a,
                                     nv_host = pe_client_host p, nv_kind = pe_kind p, nv_trust = pe_trust p, nv_redirect = pe_redirect p,
                                     nv_scopes = pe_scopes p\<rparr>) [src] False), w1)))))))"

definition post_consent :: "'s site \<Rightarrow> draws \<Rightarrow> web_request \<Rightarrow> 's web_state \<Rightarrow> 's handled" where
  "post_consent si dw rq w =
     with_form si dw rq w (\<lambda>p b.
       case current_session si (dw_now dw 1) rq w of
         (None, w1) \<Rightarrow> (Inr (step_redirect ''/login'' p []), w1)
       | (Some s, w1) \<Rightarrow>
           if \<not> recent_enough p s then (Inr (step_redirect ''/login'' p [(''reauth'', ''1'')]), w1)
           else (case on_web_db (record_consent (si_parse si) (dw_now dw 2) (dw_consent dw) (se_account s) p) w1 of
                   (Inl e, w2) \<Rightarrow> (Inl e, w2)
                 | (Inr consent, w2) \<Rightarrow> complete si dw p s consent w2))"

section \<open>Passkey sign-in\<close>

definition web_refusal :: "nat \<Rightarrow> string \<Rightarrow> web_reply" where
  "web_refusal status err = web_json status [(''Cache-Control'', ''no-store'')] (JObj [(''error'', JStr err)])"

text \<open>\<open>passkeyContext\<close>: the browser's binding and the authorization in flight, if the request names one.\<close>

definition passkey_context ::
  "'s site \<Rightarrow> draws \<Rightarrow> web_request \<Rightarrow> 's web_state \<Rightarrow> (web_reply + string \<times> pending option) \<times> 's web_state" where
  "passkey_context si dw rq w =
     (case take_bucket (rs_hit (si_resolver si)) (si_attempts si) 60000 (dw_now_ms dw) (dw_now_ms dw)
             (''passkey:'' @ (case wq_ip rq of Some ip \<Rightarrow> ip | None \<Rightarrow> ''unknown'')) (ws_buckets w) of
        (Refused _, s) \<Rightarrow> (Inl (web_refusal 429 ''Too many attempts. Wait a minute and try again.''), w\<lparr>ws_buckets := s\<rparr>)
      | (Granted, s) \<Rightarrow>
          (let w1 = w\<lparr>ws_buckets := s\<rparr>; b = read_request_cookie si rq Pa; csrf = jfield (wq_body rq) ''csrf'' in
           if \<not> well_formed Binding b then (Inl (web_refusal 403 ''Reload the page and try again.''), w1)
           else if jfield (wq_body rq) ''pending'' = JUndefined
           then ((if mac_matches (account_login_csrf (si_env si) (str_of b)) csrf then Inr (str_of b, None)
                  else Inl (web_refusal 403 ''Reload the page and try again.'')), w1)
           else (case read_pending (dw_now dw 0) (jfield (wq_body rq) ''pending'') (ws_db w) of
                   None \<Rightarrow> (Inl (web_refusal 403 ''This sign-in has expired. Start again from the app.''), w1)
                 | Some p \<Rightarrow>
                     if pending_belongs_to (si_env si) p b \<and> mac_matches (csrf_for (si_env si) p (str_of b)) csrf
                     then (Inr (str_of b, Some p), w1)
                     else (Inl (web_refusal 403 ''This sign-in has expired. Start again from the app.''), w1))))"

definition post_passkey_options :: "'s site \<Rightarrow> draws \<Rightarrow> web_request \<Rightarrow> 's web_state \<Rightarrow> 's handled" where
  "post_passkey_options si dw rq w =
     (case passkey_context si dw rq w of
        (Inl r, w1) \<Rightarrow> (Inr r, w1)
      | (Inr (b, _), w1) \<Rightarrow>
          (case on_web_db (authentication_options (si_webauthn si) (si_parse si) (si_env si) (dw_now dw 1) (dw_challenge dw) b) w1 of
             (Inl e, w2) \<Rightarrow> (Inl e, w2)
           | (Inr v, w2) \<Rightarrow> (Inr (web_json 200 [(''Cache-Control'', ''no-store'')] v), w2)))"

definition redirect_json :: "string \<Rightarrow> (string \<times> string) list \<Rightarrow> web_reply" where
  "redirect_json base query =
     \<lparr>wp_status = 200, wp_headers = [(''Cache-Control'', ''no-store'')], wp_cookies = [], wp_body = Redirect_body base query\<rparr>"

text \<open>The reply is the JSON \<open>{redirect}\<close>, which the page's script follows.\<close>

definition post_passkey_login :: "'s site \<Rightarrow> draws \<Rightarrow> web_request \<Rightarrow> 's web_state \<Rightarrow> 's handled" where
  "post_passkey_login si dw rq w =
     (case passkey_context si dw rq w of
        (Inl r, w1) \<Rightarrow> (Inr r, w1)
      | (Inr (b, p), w1) \<Rightarrow>
          (case on_web_db (finish_authentication (si_webauthn si) (si_parse si) (si_env si) (dw_now dw 1) (dw_now dw 2) b
                  (jfield (wq_body rq) ''response'')) w1 of
             (Inl e, w2) \<Rightarrow> (Inl e, w2)
           | (Inr account, w2) \<Rightarrow>
               (case truthy account of
                  None \<Rightarrow> (Inr (web_refusal 400 ''That passkey did not work. Try again, or use your password.''), w2)
                | Some a \<Rightarrow>
                    (case fresh_session si dw 3 rq a ''passkey'' w2 of
                       (Inl e, w3) \<Rightarrow> (Inl e, w3)
                     | (Inr c, w3) \<Rightarrow>
                         (Inr (with_cookies [c] (case p of Some q \<Rightarrow> redirect_json ''/consent'' (step_query q)
                            | None \<Rightarrow> redirect_json ''/account'' [])), w3)))))"

section \<open>Declining and signing out\<close>

definition post_deny :: "'s site \<Rightarrow> draws \<Rightarrow> web_request \<Rightarrow> 's web_state \<Rightarrow> 's handled" where
  "post_deny si dw rq w =
     with_form si dw rq w (\<lambda>p b.
       (redirect_with_error (si_env si) (si_parse si) (pe_redirect p) (pe_state p) ''access_denied''
          ''The person declined to authorize this application.'',
        w\<lparr>ws_db := delete_pending (pe_id p) (ws_db w)\<rparr>))"

definition post_logout :: "'s site \<Rightarrow> draws \<Rightarrow> web_request \<Rightarrow> 's web_state \<Rightarrow> 's handled" where
  "post_logout si dw rq w =
     with_form si dw rq w (\<lambda>p b.
       (Inr (with_cookies [clear_cookie (si_env si) As_session] (step_redirect ''/login'' p [])),
        w\<lparr>ws_db := revoke_as_session (si_env si) (dw_now dw 1) (read_request_cookie si rq As_session) (ws_db w)\<rparr>))"

datatype flow_step =
    Get_authorize | Post_par | Get_login | Post_login | Get_consent | Post_consent | Post_passkey_options | Post_passkey_login
  | Post_deny | Post_logout

text \<open>\<open>authorizeRoutes\<close>.\<close>

fun run_step :: "'s site \<Rightarrow> draws \<Rightarrow> flow_step \<Rightarrow> web_request \<Rightarrow> 's web_state \<Rightarrow> 's handled" where
  "run_step si dw Get_authorize rq w = get_authorize si dw rq w"
| "run_step si dw Post_par rq w = post_par si dw rq w"
| "run_step si dw Get_login rq w = get_login si dw rq w"
| "run_step si dw Post_login rq w = post_login si dw rq w"
| "run_step si dw Get_consent rq w = get_consent si dw rq w"
| "run_step si dw Post_consent rq w = post_consent si dw rq w"
| "run_step si dw Post_passkey_options rq w = post_passkey_options si dw rq w"
| "run_step si dw Post_passkey_login rq w = post_passkey_login si dw rq w"
| "run_step si dw Post_deny rq w = post_deny si dw rq w"
| "run_step si dw Post_logout rq w = post_logout si dw rq w"

end
