(* ===== verification/Authorize_Theorems.thy ===== *)
theory Authorize_Theorems
  imports Authorize Client_Theorems
begin

text \<open>
  What the authorization flow guarantees: who a code is for and what it takes to get one, where people are sent, and what
  a form needs.
\<close>

section \<open>What each step leaves alone\<close>

text \<open>The codes and the authorizations in flight are as before.\<close>

definition flow_kept :: "database \<Rightarrow> database \<Rightarrow> bool" where
  "flow_kept db db' \<longleftrightarrow> t_codes db' = t_codes db \<and> t_pending db' = t_pending db"

lemma flow_kept_refl [simp]: "flow_kept db db"
  by (simp add: flow_kept_def)

lemma flow_kept_trans [trans]: "flow_kept a b \<Longrightarrow> flow_kept b c \<Longrightarrow> flow_kept a c"
  by (simp add: flow_kept_def)

named_theorems kept

lemma resolve_client_kept: "resolve_client env d v st = (c, st') \<Longrightarrow> flow_kept (snd st) (snd st')"
  by (cases st; cases st')
    (auto simp: flow_kept_def resolve_client_def resolve_metadata_document_def store_document_def Let_def
      split: option.splits if_splits prod.splits bucket_result.splits)

lemma validate_request_kept [kept]: "validate_request si dw params pushed w = (v, w') \<Longrightarrow> flow_kept (ws_db w) (ws_db w')"
  by (auto simp: validate_request_def validate_authorization_def dest!: resolve_client_kept split: prod.splits option.splits if_splits)

lemma on_web_db_kept:
  assumes "on_web_db f w = (r, w')" "flow_kept (ws_db w) (snd (f (ws_db w)))"
  shows "flow_kept (ws_db w) (ws_db w')"
  using assms by (auto simp: on_web_db_def split: prod.splits)

lemma current_session_kept [kept]: "current_session si now rq w = (s, w') \<Longrightarrow> flow_kept (ws_db w) (ws_db w')"
  unfolding current_session_def
  by (erule on_web_db_kept) (auto simp: flow_kept_def read_as_session_def split: jsval.splits option.splits bool.splits)

lemma store_pushed_kept [kept]: "on_web_db (store_pushed now rnd c ps) w = (r, w') \<Longrightarrow> flow_kept (ws_db w) (ws_db w')"
  by (erule on_web_db_kept) (auto simp: flow_kept_def store_pushed_def Let_def)

lemma take_pushed_kept [kept]: "on_web_db (take_pushed now k c) w = (r, w') \<Longrightarrow> flow_kept (ws_db w) (ws_db w')"
  by (erule on_web_db_kept) (auto simp: flow_kept_def take_pushed_def Let_def)

lemma create_account_kept:
  "on_web_db (create_account hmac ah nf ks now rnd salt u p) w = (r, w') \<Longrightarrow> flow_kept (ws_db w) (ws_db w')"
  by (erule on_web_db_kept) (auto simp: flow_kept_def create_account_def Let_def split: sum.splits)

lemma credentials_kept [kept]: "credentials_account si dw su u p w = (r, w') \<Longrightarrow> flow_kept (ws_db w) (ws_db w')"
  by (auto simp: credentials_account_def dest: create_account_kept split: if_splits prod.splits sum.splits option.splits)

lemma record_consent_kept [kept]:
  "on_web_db (record_consent parse now rnd a p) w = (r, w') \<Longrightarrow> flow_kept (ws_db w) (ws_db w')"
  by (erule on_web_db_kept) (auto simp: flow_kept_def record_consent_def Let_def split: sum.splits option.splits)

lemma finish_authentication_kept [kept]:
  "on_web_db (finish_authentication wa parse env now now2 b r) w = (v, w') \<Longrightarrow> flow_kept (ws_db w) (ws_db w')"
  by (erule on_web_db_kept) (rule finish_authentication_state, simp_all add: flow_kept_def snd_take_challenge)

lemma authentication_options_kept [kept]:
  "on_web_db (authentication_options wa parse env now ch b) w = (v, w') \<Longrightarrow> flow_kept (ws_db w) (ws_db w')"
  by (erule on_web_db_kept) (rule login_options_state, simp_all add: flow_kept_def store_challenge_def)

lemma revoke_as_session_kept: "flow_kept db (revoke_as_session env now t db)"
  by (simp add: flow_kept_def revoke_as_session_def split: jsval.splits bool.splits)

lemma start_as_session_kept: "start_as_session env now rnd a acr db = (r, db') \<Longrightarrow> flow_kept db db'"
  by (auto simp: flow_kept_def start_as_session_def Let_def split: sum.splits if_splits)

lemma fresh_session_kept [kept]: "fresh_session si dw k rq a acr w = (r, w') \<Longrightarrow> flow_kept (ws_db w) (ws_db w')"
  by (auto simp: fresh_session_def Let_def split: sum.splits prod.splits
      dest!: start_as_session_kept intro: flow_kept_trans [OF revoke_as_session_kept])

lemma passkey_context_kept [kept]: "passkey_context si dw rq w = (r, w') \<Longrightarrow> ws_db w' = ws_db w"
  by (auto simp: passkey_context_def Let_def split: prod.splits bucket_result.splits if_splits option.splits)

lemma authorize_params_kept [kept]: "authorize_params si dw rq w = (v, w') \<Longrightarrow> flow_kept (ws_db w) (ws_db w')"
  by (auto simp: authorize_params_def split: option.splits prod.splits
      dest!: take_pushed_kept validate_request_kept intro: flow_kept_trans)

lemma with_formE:
  assumes "with_form si dw rq w k = (r, w')"
  obtains "w' = w" "\<exists>page. r = Inr (send_page (dw_nonce dw) 400 page [] False) \<or> r = Inr (refuse_form dw)"
  | p b where "load_step si dw rq (jfield (wq_body rq) ''pending'') w = Inr (p, b)"
      "mac_matches (csrf_for (si_env si) p b) (jfield (wq_body rq) ''csrf'')" "k p b = (r, w')"
  using assms
  by (auto simp: with_form_def load_step_def error_page_def Let_def split: option.splits if_splits)

lemma quiet_steps:
  assumes "run_step si dw st rq w = (r, w')" "st \<notin> {Get_authorize, Get_consent, Post_consent, Post_deny}"
  shows "flow_kept (ws_db w) (ws_db w')"
proof (cases st)
  case Post_par
  then show ?thesis using assms
    by (auto simp: post_par_def Let_def split: prod.splits validated.splits sum.splits dest!: kept intro: flow_kept_trans)
next
  case Get_login
  then show ?thesis using assms by (auto simp: get_login_def split: sum.splits prod.splits)
next
  case Post_login
  then have "post_login si dw rq w = (r, w')" using assms by simp
  then show ?thesis unfolding post_login_def
    by (elim with_formE) (auto simp: Let_def split: prod.splits sum.splits dest!: kept intro: flow_kept_trans)
next
  case Post_passkey_options
  then show ?thesis using assms
    by (auto simp: post_passkey_options_def split: prod.splits sum.splits dest!: kept)
next
  case Post_passkey_login
  then show ?thesis using assms
    by (auto simp: post_passkey_login_def split: prod.splits sum.splits option.splits dest!: kept intro: flow_kept_trans)
next
  case Post_logout
  then have "post_logout si dw rq w = (r, w')" using assms by simp
  then show ?thesis unfolding post_logout_def
    by (elim with_formE) (auto simp: revoke_as_session_kept)
qed (use assms in auto)

section \<open>Codes\<close>

text \<open>The code row that stands for the approval of \<open>p\<close> by the account of session \<open>s\<close>.\<close>

definition code_of :: "pending \<Rightarrow> as_session \<Rightarrow> string option \<Rightarrow> code_row \<Rightarrow> bool" where
  "code_of p s consent c \<longleftrightarrow> co_account c = se_account s \<and> co_client c = pe_client p \<and> co_redirect_uri c = pe_redirect p
     \<and> co_challenge c = pe_challenge p \<and> co_resource c = pe_resource p \<and> co_scope c = scope_str (pe_scopes p)
     \<and> co_dpop_jkt c = pe_jkt p \<and> co_consent c = consent \<and> co_consumed_at c = None"

lemma claim_cases:
  assumes "claim_and_issue_code env now rnd a p cx db = (res, db')"
  obtains "t_codes db' = t_codes db" "set (t_pending db') \<subseteq> set (t_pending db)"
  | c where "t_codes db' = t_codes db @ [c]" "co_account c = a" "co_client c = pe_client p" "co_redirect_uri c = pe_redirect p"
      "co_challenge c = pe_challenge p" "co_resource c = pe_resource p" "co_scope c = scope_str (pe_scopes p)"
      "co_dpop_jkt c = pe_jkt p" "co_consent c = cx_consent cx" "co_consumed_at c = None"
      "t_pending db' = delete_where (\<lambda>r. pa_id r = pe_id p) (t_pending db)"
  using assms
  by (auto simp: claim_and_issue_code_def run_tx_def issue_code_def delete_pending_def set_delete_where Let_def
      split: if_splits sum.splits)

lemma complete_cases:
  assumes "complete si dw p s consent w = (r, w')"
  obtains "t_codes (ws_db w') = t_codes (ws_db w)" "set (t_pending (ws_db w')) \<subseteq> set (t_pending (ws_db w))"
  | c where "t_codes (ws_db w') = t_codes (ws_db w) @ [c]" "code_of p s consent c"
      "t_pending (ws_db w') = delete_where (\<lambda>r. pa_id r = pe_id p) (t_pending (ws_db w))"
proof -
  obtain res db' where d: "claim_and_issue_code (si_env si) (dw_now dw 5) (dw_code dw) (se_account s) p
      \<lparr>cx_auth_time = se_auth_time s, cx_consent = consent\<rparr> (ws_db w) = (res, db')" by fastforce
  then have "ws_db w' = db'"
    using assms by (auto simp: complete_def on_web_db_def split: sum.splits option.splits)
  with claim_cases [OF d] show ?thesis using that by (auto simp: code_of_def)
qed

text \<open>The approval a step stands for: the person's own form, or an approval that needs none.\<close>

definition approves :: "'s site \<Rightarrow> draws \<Rightarrow> flow_step \<Rightarrow> web_request \<Rightarrow> 's web_state \<Rightarrow> pending \<Rightarrow> as_session \<Rightarrow> string option \<Rightarrow> bool" where
  "approves si dw st rq w p s consent \<longleftrightarrow>
     (st = Post_consent \<and> read_pending (dw_now dw 0) (jfield (wq_body rq) ''pending'') (ws_db w) = Some p
        \<and> jfield (wq_body rq) ''csrf'' = JStr (csrf_for (si_env si) p (str_of (read_request_cookie si rq Pa))))
     \<or> (st = Get_consent \<and> read_pending (dw_now dw 0) (jfield (wq_query rq) ''pending'') (ws_db w) = Some p
        \<and> (pe_first_party p \<or> (\<exists>i. consent = Some i \<and> find_remembered_consent (si_parse si) (dw_now dw 3) (se_account s) p
              (ws_db (snd (current_session si (dw_now dw 1) rq w))) = Inr (Some i))))"

lemma load_step_Inr:
  "load_step si dw rq key w = Inr (p, b) \<longleftrightarrow>
     read_pending (dw_now dw 0) key (ws_db w) = Some p \<and> pending_belongs_to (si_env si) p (read_request_cookie si rq Pa)
     \<and> b = str_of (read_request_cookie si rq Pa)"
  by (auto simp: load_step_def Let_def split: option.splits if_splits)

lemma current_session_read:
  "current_session si now rq w = (s, w') \<Longrightarrow>
     fst (read_as_session (si_env si) now (read_request_cookie si rq As_session) (ws_db w)) = s"
  by (auto simp: current_session_def on_web_db_def split: prod.splits)

lemma truthy_Some_iff: "truthy x = Some v \<longleftrightarrow> x = Some v \<and> v \<noteq> []"
  by (cases x) auto

text \<open>Only the two consent steps reach \<^const>\<open>complete\<close>, and only so.\<close>

lemma get_consent_cases:
  assumes "get_consent si dw rq w = (r, w')"
  obtains "flow_kept (ws_db w) (ws_db w')"
  | p b s w1 consent where "load_step si dw rq (jfield (wq_query rq) ''pending'') w = Inr (p, b)"
      "current_session si (dw_now dw 1) rq w = (Some s, w1)" "recent_enough p s" "complete si dw p s consent w1 = (r, w')"
      "pe_first_party p \<or> (\<exists>i. consent = Some i \<and> find_remembered_consent (si_parse si) (dw_now dw 3) (se_account s) p (ws_db w1) = Inr (Some i))"
proof (cases "load_step si dw rq (jfield (wq_query rq) ''pending'') w")
  case (Inl page)
  then show ?thesis using assms that(1) by (simp add: get_consent_def)
next
  case (Inr pb)
  obtain p b where pb: "pb = (p, b)" by fastforce
  obtain so w1 where cs: "current_session si (dw_now dw 1) rq w = (so, w1)" by fastforce
  show ?thesis
  proof (cases so)
    case None
    then show ?thesis using assms that(1) Inr pb cs current_session_kept [OF cs] by (auto simp: get_consent_def)
  next
    case (Some s)
    have "flow_kept (ws_db w) (ws_db w1)" using cs by (rule current_session_kept)
    then show ?thesis
      using assms Inr pb cs Some that(1) that(2) [OF _ _ _ _ disjI1] that(2) [OF _ _ _ _ disjI2]
      by (auto simp: get_consent_def truthy_Some_iff split: option.splits if_splits sum.splits)
  qed
qed

lemma post_consent_cases:
  assumes "post_consent si dw rq w = (r, w')"
  obtains "flow_kept (ws_db w) (ws_db w')"
  | p b s w1 w2 consent where "load_step si dw rq (jfield (wq_body rq) ''pending'') w = Inr (p, b)"
      "mac_matches (csrf_for (si_env si) p b) (jfield (wq_body rq) ''csrf'')"
      "current_session si (dw_now dw 1) rq w = (Some s, w1)" "recent_enough p s" "flow_kept (ws_db w) (ws_db w2)"
      "complete si dw p s consent w2 = (r, w')"
proof -
  let ?body = "\<lambda>p b. case current_session si (dw_now dw 1) rq w of
         (None, w1) \<Rightarrow> (Inr (step_redirect ''/login'' p []), w1)
       | (Some s, w1) \<Rightarrow>
           if \<not> recent_enough p s then (Inr (step_redirect ''/login'' p [(''reauth'', ''1'')]), w1)
           else (case on_web_db (record_consent (si_parse si) (dw_now dw 2) (dw_consent dw) (se_account s) p) w1 of
                   (Inl e, w2) \<Rightarrow> (Inl e, w2)
                 | (Inr consent, w2) \<Rightarrow> complete si dw p s consent w2)"
  from assms have "with_form si dw rq w ?body = (r, w')" by (simp add: post_consent_def)
  then show ?thesis
  proof (cases rule: with_formE)
    case 1
    then show ?thesis using that(1) by simp
  next
    case (2 p b)
    obtain so w1 where cs: "current_session si (dw_now dw 1) rq w = (so, w1)" by fastforce
    have kept1: "flow_kept (ws_db w) (ws_db w1)" using cs by (rule current_session_kept)
    show ?thesis
    proof (cases so)
      case None
      then show ?thesis using 2(3) cs kept1 that(1) by auto
    next
      case (Some s)
      obtain co w2 where rc: "on_web_db (record_consent (si_parse si) (dw_now dw 2) (dw_consent dw) (se_account s) p) w1 = (co, w2)"
        by fastforce
      have kept2: "flow_kept (ws_db w) (ws_db w2)" using kept1 record_consent_kept [OF rc] by (rule flow_kept_trans)
      show ?thesis
        using 2 cs Some rc kept1 kept2 that(1) that(2) [OF 2(1,2)] by (auto split: if_splits sum.splits)
    qed
  qed
qed

lemma create_pending_codes: "on_web_db (create_pending env now rnd p b) w = (r, w') \<Longrightarrow> t_codes (ws_db w') = t_codes (ws_db w)"
  by (auto simp: on_web_db_def create_pending_def Let_def split: sum.splits if_splits)

lemma get_authorize_codes: "get_authorize si dw rq w = (r, w') \<Longrightarrow> t_codes (ws_db w') = t_codes (ws_db w)"
  by (auto simp: get_authorize_def split: option.splits prod.splits validated.splits sum.splits
      dest!: kept create_pending_codes simp: flow_kept_def)

lemma post_deny_codes: "post_deny si dw rq w = (r, w') \<Longrightarrow> t_codes (ws_db w') = t_codes (ws_db w)"
  unfolding post_deny_def by (elim with_formE) (auto simp: delete_pending_def)

lemma get_consent_approves:
  assumes "get_consent si dw rq w = (r, w')" "t_codes (ws_db w') \<noteq> t_codes (ws_db w)" "st = Get_consent"
  shows "\<exists>p s c consent. approves si dw st rq w p s consent
    \<and> pending_belongs_to (si_env si) p (read_request_cookie si rq Pa)
    \<and> fst (read_as_session (si_env si) (dw_now dw 1) (read_request_cookie si rq As_session) (ws_db w)) = Some s
    \<and> (writes p \<longrightarrow> se_auth_age s \<le> recent_sign_in_seconds)
    \<and> t_codes (ws_db w') = t_codes (ws_db w) @ [c] \<and> code_of p s consent c
    \<and> pe_id p \<notin> pa_id ` set (t_pending (ws_db w'))"
  using assms(1)
proof (cases rule: get_consent_cases)
  case 1
  then show ?thesis using assms(2) by (simp add: flow_kept_def)
next
  case (2 p b s w1 consent)
  have k: "flow_kept (ws_db w) (ws_db w1)" using 2(2) by (rule current_session_kept)
  from 2(4) obtain c where c: "t_codes (ws_db w') = t_codes (ws_db w1) @ [c]" "code_of p s consent c"
    "t_pending (ws_db w') = delete_where (\<lambda>r. pa_id r = pe_id p) (t_pending (ws_db w1))"
    using assms(2) k by (elim complete_cases) (auto simp: flow_kept_def)
  then have "pe_id p \<notin> pa_id ` set (t_pending (ws_db w'))" by (auto simp: set_delete_where)
  moreover have "approves si dw st rq w p s consent"
    using 2(1,2,5) assms(3) by (auto simp: approves_def load_step_Inr)
  ultimately show ?thesis
    using c(1,2) 2(1-3) k by (auto simp: load_step_Inr recent_enough_def flow_kept_def dest!: current_session_read)
qed

lemma post_consent_approves:
  assumes "post_consent si dw rq w = (r, w')" "t_codes (ws_db w') \<noteq> t_codes (ws_db w)" "st = Post_consent"
  shows "\<exists>p s c consent. approves si dw st rq w p s consent
    \<and> pending_belongs_to (si_env si) p (read_request_cookie si rq Pa)
    \<and> fst (read_as_session (si_env si) (dw_now dw 1) (read_request_cookie si rq As_session) (ws_db w)) = Some s
    \<and> (writes p \<longrightarrow> se_auth_age s \<le> recent_sign_in_seconds)
    \<and> t_codes (ws_db w') = t_codes (ws_db w) @ [c] \<and> code_of p s consent c
    \<and> pe_id p \<notin> pa_id ` set (t_pending (ws_db w'))"
  using assms(1)
proof (cases rule: post_consent_cases)
  case 1
  then show ?thesis using assms(2) by (simp add: flow_kept_def)
next
  case (2 p b s w1 w2 consent)
  from 2(6) obtain c where c: "t_codes (ws_db w') = t_codes (ws_db w2) @ [c]" "code_of p s consent c"
    "t_pending (ws_db w') = delete_where (\<lambda>r. pa_id r = pe_id p) (t_pending (ws_db w2))"
    using assms(2) 2(5) by (elim complete_cases) (auto simp: flow_kept_def)
  then have "pe_id p \<notin> pa_id ` set (t_pending (ws_db w'))" by (auto simp: set_delete_where)
  moreover have "approves si dw st rq w p s consent"
    using 2(1,2) assms(3) by (auto simp: approves_def load_step_Inr mac_matches_def)
  ultimately show ?thesis
    using c(1,2) 2(1,3-5) by (auto simp: load_step_Inr recent_enough_def flow_kept_def dest!: current_session_read)
qed

text \<open>C19. A code needs the person. A step of the flow issues at most one code, and then: the step is the consent page or its
  form, for an authorization started in this very browser; the browser has a live session, recent enough if the scopes
  allow writing; and the person posted the form with its own CSRF value, or the client is the app itself, or an
  equivalent consent of theirs is on record. The code is for that session's account and for exactly the client, redirect
  URI, challenge, resource, scopes and key of the authorization, which is thereby used up.\<close>

theorem code_needs_person:
  assumes "run_step si dw st rq w = (r, w')" "t_codes (ws_db w') \<noteq> t_codes (ws_db w)"
  shows "\<exists>p s c consent. approves si dw st rq w p s consent
    \<and> pending_belongs_to (si_env si) p (read_request_cookie si rq Pa)
    \<and> fst (read_as_session (si_env si) (dw_now dw 1) (read_request_cookie si rq As_session) (ws_db w)) = Some s
    \<and> (writes p \<longrightarrow> se_auth_age s \<le> recent_sign_in_seconds)
    \<and> t_codes (ws_db w') = t_codes (ws_db w) @ [c] \<and> code_of p s consent c
    \<and> pe_id p \<notin> pa_id ` set (t_pending (ws_db w'))"
proof -
  have "st \<in> {Get_authorize, Get_consent, Post_consent, Post_deny}"
    using quiet_steps [OF assms(1)] assms(2) by (auto simp: flow_kept_def)
  moreover have "st \<noteq> Get_authorize" "st \<noteq> Post_deny"
    using assms by (auto dest!: get_authorize_codes post_deny_codes)
  ultimately consider (get) "st = Get_consent" | (post) "st = Post_consent" by blast
  then show ?thesis
  proof cases
    case get
    then show ?thesis using get_consent_approves [OF _ assms(2) get] assms(1) by simp
  next
    case post
    then show ?thesis using post_consent_approves [OF _ assms(2) post] assms(1) by simp
  qed
qed

definition demo_pending_row :: pending_row where
  "demo_pending_row = \<lparr>pa_id = ''pa_1'', pa_client = ''app'', pa_client_host = ''app.example'', pa_client_kind = Preregistered,
     pa_client_trust = Verified, pa_document_digest = None, pa_redirect_uri = ''https://app.example/cb'', pa_state = None,
     pa_code_challenge = ''ch'', pa_resource = ''https://api'', pa_scope = ''devices:read'', pa_offline = True,
     pa_binding_hash = hex (toy_hmac ''pep'' (mint Binding demo_rnd)), pa_dpop_jkt = None, pa_first_party = True,
     pa_created_at = 0, pa_expires_at = 1000\<rparr>"

definition demo_session_row :: session_row where
  "demo_session_row = \<lparr>ss_hash = hex (toy_hmac ''pep'' (mint Session demo_rnd)), ss_account = ''ann'', ss_auth_time = 0, ss_acr = ''pwd'',
     ss_idle_expires = 1000, ss_absolute_expires = 1000, ss_revoked_at = None, ss_created_at = 0\<rparr>"

definition demo_web_state :: "unit web_state" where
  "demo_web_state = \<lparr>ws_buckets = (), ws_fetches = (),
     ws_db = demo_account_db\<lparr>t_pending := [demo_pending_row], t_sessions := [demo_session_row]\<rparr>\<rparr>"

definition demo_deployment :: "unit site" where
  "demo_deployment = \<lparr>si_env = demo_env, si_decode = Some,
     si_resolver = \<lparr>rs_parse = demo_site, rs_known = None, rs_json = (\<lambda>s. None), rs_fetch = (\<lambda>u. None),
        rs_hit = (\<lambda>now k w s. ((1, now + w), s)), rs_now_ms = 0, rs_now = 0, rs_now2 = 0\<rparr>,
     si_argon_hash = (\<lambda>s p. s @ p), si_argon_verify = (\<lambda>e p. None), si_nfkc = (\<lambda>s. s),
     si_decoy = \<lparr>ph_encoded = [], ph_pepper_version = 0\<rparr>, si_webauthn = demo_webauthn, si_attempts = 20\<rparr>"

definition demo_draws :: draws where
  "demo_draws = \<lparr>dw_now_ms = 0, dw_now = (\<lambda>k. 5), dw_nonce = ''n'', dw_binding = ''b'', dw_pending = ''p'', dw_par = ''r'', dw_session = ''s'',
     dw_code = demo_rnd, dw_consent = ''c'', dw_account = ''a'', dw_salt = ''t'', dw_challenge = ''h''\<rparr>"

definition demo_cookies :: string where
  "demo_cookies = cookie_header [(''__Host-pa'', mint Binding demo_rnd), (''__Host-as_session'', mint Session demo_rnd)]"

definition demo_visit :: web_request where
  "demo_visit = \<lparr>wq_cookie = Some demo_cookies, wq_query = JObj [(''pending'', JStr ''pa_1'')], wq_body = JUndefined, wq_ip = None\<rparr>"

lemma demo_visit_cookies [simp]:
  "read_request_cookie demo_deployment demo_visit Pa = JStr (mint Binding demo_rnd)"
  "read_request_cookie demo_deployment demo_visit As_session = JStr (mint Session demo_rnd)"
proof -
  have p: "plain_token ''__Host-pa''" "plain_token ''__Host-as_session''"
    by (simp_all add: plain_token_def is_ws_def is_semicolon_def is_equals_def)
  have n: "cookie_name demo_env Pa = ''__Host-pa''" "cookie_name demo_env As_session = ''__Host-as_session''"
    by (simp_all add: cookie_name_def secure_site_def demo_env_def starts_with_def)
  show "read_request_cookie demo_deployment demo_visit Pa = JStr (mint Binding demo_rnd)"
    "read_request_cookie demo_deployment demo_visit As_session = JStr (mint Session demo_rnd)"
    using p by (simp_all add: read_request_cookie_def demo_deployment_def demo_visit_def demo_cookies_def n cookies_read_back
        plain_mint cookie_val_def)
qed

lemma demo_wf [simp]: "well_formed_str k (mint k demo_rnd)"
  by (rule mint_well_formed_str) (simp add: demo_rnd_def)

lemma demo_env_of [simp]:
  "si_env demo_deployment = demo_env" "dw_now demo_draws k = 5" "dw_code demo_draws = demo_rnd" "si_parse demo_deployment = demo_site"
  "jfield (wq_query demo_visit) ''pending'' = JStr ''pa_1''"
  by (simp_all add: demo_deployment_def demo_draws_def demo_visit_def)

definition demo_flow :: pending where
  "demo_flow = the (read_pending 5 (JStr ''pa_1'') (ws_db demo_web_state))"

lemma demo_flow_simps [simp]:
  "pe_id demo_flow = ''pa_1''" "pe_first_party demo_flow" "pe_scopes demo_flow = [''devices:read'']"
  "pe_redirect demo_flow = ''https://app.example/cb''" "pe_state demo_flow = None"
  by (simp_all add: demo_flow_def read_pending_def demo_web_state_def demo_pending_row_def demo_account_db_def scope_list_def
      words_on_def is_space_def)

lemma demo_load: "load_step demo_deployment demo_draws demo_visit (JStr ''pa_1'') demo_web_state = Inr (demo_flow, mint Binding demo_rnd)"
  by (simp add: demo_flow_def load_step_def read_pending_def demo_web_state_def demo_pending_row_def pending_belongs_to_def demo_digest
      str_of_def demo_account_db_def)

definition demo_seen :: "unit web_state" where
  "demo_seen = snd (current_session demo_deployment 5 demo_visit demo_web_state)"

lemma demo_current:
  "current_session demo_deployment 5 demo_visit demo_web_state
   = (Some \<lparr>se_account = ''ann'', se_auth_time = 0, se_auth_age = 0, se_acr = ''pwd''\<rparr>, demo_seen)"
  by (simp add: demo_seen_def current_session_def on_web_db_def read_as_session_def demo_web_state_def session_live_def
      demo_session_row_def demo_digest to_ms_def epoch_int_def)

lemma demo_seen_db:
  "t_codes (ws_db demo_seen) = []" "t_pending (ws_db demo_seen) = [demo_pending_row]"
  "t_accounts (ws_db demo_seen) = [demo_account_row\<lparr>acc_id := ''ann''\<rparr>]"
  by (simp_all add: demo_seen_def current_session_def on_web_db_def read_as_session_def demo_web_state_def session_live_def
      demo_session_row_def demo_digest demo_account_db_def empty_db_def)

lemma demo_approved:
  "t_codes (ws_db (snd (run_step demo_deployment demo_draws Get_consent demo_visit demo_web_state))) \<noteq> t_codes (ws_db demo_web_state)"
proof -
  have "recent_enough demo_flow s" for s by (simp add: recent_enough_def writes_def)
  moreover have "get_account ''ann'' (ws_db demo_seen) \<noteq> None"
    by (simp add: get_account_def demo_seen_db)
  moreover have "digest demo_env (mint Code demo_rnd) = Inr (hex (toy_hmac ''pep'' (mint Code demo_rnd)))" by (rule demo_digest)
  moreover have "account_exists ''ann'' (delete_pending ''pa_1'' (ws_db demo_seen))"
    by (simp add: account_exists_def delete_pending_def demo_seen_db)
  ultimately show ?thesis
    by (auto simp: get_consent_def demo_load demo_current complete_def on_web_db_def claim_and_issue_code_def run_tx_def issue_code_def
        demo_seen_db demo_pending_row_def demo_site_def delete_pending_def Let_def split: option.splits)
      (simp add: demo_web_state_def demo_account_db_def empty_db_def)
qed

theorem code_needs_person_witness:
  "\<exists>p s c consent. approves demo_deployment demo_draws Get_consent demo_visit demo_web_state p s consent \<and> code_of p s consent c
     \<and> t_codes (ws_db (snd (run_step demo_deployment demo_draws Get_consent demo_visit demo_web_state))) = [c]"
proof -
  have "t_codes (ws_db demo_web_state) = []" by (simp add: demo_web_state_def demo_account_db_def empty_db_def)
  with code_needs_person [OF prod.collapse [symmetric] demo_approved] show ?thesis by fastforce
qed

section \<open>Where people are sent\<close>

text \<open>\<open>asked_for\<close>: the request is a \<open>GET /authorize\<close> whose parameters, its own or pushed ones, name a client that resolves and
  a redirect URI that this client may use.\<close>

definition asked_for :: "'s site \<Rightarrow> draws \<Rightarrow> web_request \<Rightarrow> 's web_state \<Rightarrow> string \<Rightarrow> bool" where
  "asked_for si dw rq w uri \<longleftrightarrow> (\<exists>params db c st'.
     (params = wq_query rq \<or> (\<exists>row \<in> set (t_par (ws_db w)). params = jobj_of (pr_params row)))
     \<and> t_clients db = t_clients (ws_db w) \<and> t_cimd db = t_cimd (ws_db w)
     \<and> resolve_client (si_env si) ((si_resolver si)\<lparr>rs_now_ms := dw_now_ms dw, rs_now := dw_now dw 1, rs_now2 := dw_now dw 2\<rparr>)
         (jfield params ''client_id'') (ws_fetches w, db) = (Some c, st')
     \<and> jfield params ''redirect_uri'' = JStr uri \<and> redirect_uri_allowed (si_parse si) uri (rc_redirect_uris c))"

definition local_path :: "string \<Rightarrow> bool" where
  "local_path base \<longleftrightarrow> base \<in> {''/login'', ''/consent'', ''/account''}"

text \<open>The redirect URI a validation stands for, whether it accepts or objects.\<close>

fun validated_uri :: "validated \<Rightarrow> string option" where
  "validated_uri (Valid p b) = Some (pe_redirect p)"
| "validated_uri (Not_valid r) = map_option fst (rf_redirect r)"

lemma validate_request_uri:
  assumes "validate_request si dw params pushed w = (v, w')" "validated_uri v = Some uri"
  obtains c st' where "resolve_client (si_env si) ((si_resolver si)\<lparr>rs_now_ms := dw_now_ms dw, rs_now := dw_now dw 1, rs_now2 := dw_now dw 2\<rparr>)
      (jfield params ''client_id'') (ws_fetches w, ws_db w) = (Some c, st')"
    "jfield params ''redirect_uri'' = JStr uri" "redirect_uri_allowed (si_parse si) uri (rc_redirect_uris c)"
proof -
  let ?d = "(si_resolver si)\<lparr>rs_now_ms := dw_now_ms dw, rs_now := dw_now dw 1, rs_now2 := dw_now dw 2\<rparr>"
  obtain co st' where r: "resolve_client (si_env si) ?d (jfield params ''client_id'') (ws_fetches w, ws_db w) = (co, st')" by (metis surj_pair)
  show ?thesis
  proof (cases co)
    case None
    then show ?thesis using assms r by (auto simp: validate_request_def validate_authorization_def unknown_client_def split: prod.splits)
  next
    case (Some c)
    then show ?thesis using assms r that [of c st']
      by (auto simp: validate_request_def validate_authorization_def unknown_redirect_def pending_of_def
          split: prod.splits option.splits if_splits)
  qed
qed

lemma authorize_params_uri:
  assumes "authorize_params si dw rq w = (Some v, w')" "validated_uri v = Some uri"
  shows "asked_for si dw rq w uri"
proof (cases "as_str (jfield (wq_query rq) ''request_uri'')")
  case None
  then have "validate_request si dw (wq_query rq) False w = (v, w')"
    using assms(1) by (auto simp: authorize_params_def split: prod.splits)
  then show ?thesis using assms(2) by (rule validate_request_uri) (unfold asked_for_def, blast)
next
  case (Some u)
  then obtain client params w1 where p: "on_web_db (take_pushed (dw_now dw 0) (par_request_id u) client) w = (Some params, w1)"
    "validate_request si dw (jobj_of params) True w1 = (v, w')"
    using assms(1) by (auto simp: authorize_params_def split: option.splits prod.splits)
  then have "\<exists>row \<in> set (t_par (ws_db w)). params = pr_params row" "ws_fetches w1 = ws_fetches w"
    "t_clients (ws_db w1) = t_clients (ws_db w)" "t_cimd (ws_db w1) = t_cimd (ws_db w)"
    by (auto simp: on_web_db_def take_pushed_def Let_def dest: find_SomeD split: prod.splits)
  then show ?thesis
    by (rule_tac validate_request_uri [OF p(2) assms(2)]) (unfold asked_for_def, metis)
qed

lemma read_pending_row:
  "read_pending now key db = Some p \<Longrightarrow> \<exists>row \<in> set (t_pending db). pe_redirect p = pa_redirect_uri row"
  by (auto simp: read_pending_def split: option.splits if_splits dest!: find_SomeD)

lemma load_step_row: "load_step si dw rq key w = Inr (p, b) \<Longrightarrow> \<exists>row \<in> set (t_pending (ws_db w)). pe_redirect p = pa_redirect_uri row"
  using read_pending_row by (fastforce simp: load_step_Inr)

lemma page_not_redirect [simp]:
  "wp_body (send_page n c p ts sc) \<noteq> Redirect_body base q" "wp_body (error_page n c t d) \<noteq> Redirect_body base q"
  "wp_body (refuse_form dw) \<noteq> Redirect_body base q" "wp_body (web_refusal c e) \<noteq> Redirect_body base q"
  "wp_body (web_json c hs v) \<noteq> Redirect_body base q"
  by (simp_all add: send_page_def error_page_def refuse_form_def web_refusal_def web_json_def)

lemma redirect_body [simp]:
  "wp_body (redirect c b q) = Redirect_body b q" "wp_body (step_redirect b p q) = Redirect_body b (step_query p @ q)"
  "wp_body (redirect_json b q) = Redirect_body b q"
  by (simp_all add: redirect_def step_redirect_def redirect_json_def)

lemma redirect_with_error_body:
  "redirect_with_error env parse uri state err d = Inr r \<Longrightarrow> \<exists>q. wp_body r = Redirect_body uri q"
  by (auto simp: redirect_with_error_def split: option.splits)

lemma complete_body:
  "complete si dw p s consent w = (Inr r, w') \<Longrightarrow> wp_body r = Redirect_body base q \<Longrightarrow> base = pe_redirect p"
  by (auto simp: complete_def split: prod.splits sum.splits option.splits)

lemma render_login_body: "render_login si dw p b su re err u = Inr r \<Longrightarrow> wp_body r \<noteq> Redirect_body base q"
  by (auto simp: render_login_def split: sum.splits)

lemma passkey_context_body:
  "passkey_context si dw rq w = (Inl r, w') \<Longrightarrow> wp_body r \<noteq> Redirect_body base q"
  by (auto simp: passkey_context_def Let_def split: prod.splits bucket_result.splits if_splits option.splits)

text \<open>A step's redirect stays here, or goes where an authorization in flight, or this very request, was found to belong.\<close>

lemma step_redirects:
  assumes "run_step si dw st rq w = (Inr r, w')" "wp_body r = Redirect_body base q"
  shows "local_path base \<or> (\<exists>row \<in> set (t_pending (ws_db w)). base = pa_redirect_uri row)
    \<or> (st = Get_authorize \<and> asked_for si dw rq w base)"
proof (cases st)
  case Get_authorize
  then have g: "get_authorize si dw rq w = (Inr r, w')" using assms(1) by simp
  show ?thesis
  proof (cases "as_str (jfield (wq_query rq) ''pending'')")
    case None
    obtain vo w1 where v: "authorize_params si dw rq w = (vo, w1)" by fastforce
    from g None v assms(2) consider "local_path base"
      | rf uri state err d where "vo = Some (Not_valid rf)" "rf_redirect rf = Some (uri, state, err, d)"
          "redirect_with_error (si_env si) (si_parse si) uri state err d = Inr r"
      by (auto simp: get_authorize_def local_path_def split: option.splits validated.splits prod.splits sum.splits if_splits)
    then show ?thesis
    proof cases
      case 2
      then have "base = uri" using redirect_with_error_body [OF 2(3)] assms(2) by auto
      with authorize_params_uri [of si dw rq w "Not_valid rf" w1 uri] v 2 Get_authorize show ?thesis by simp
    qed simp
  qed (use g assms(2) in \<open>auto simp: get_authorize_def local_path_def\<close>)
next
  case Post_par
  then show ?thesis using assms by (auto simp: post_par_def Let_def split: prod.splits validated.splits sum.splits)
next
  case Get_login
  then show ?thesis using assms
    by (auto simp: get_login_def load_step_def Let_def dest: render_login_body split: option.splits if_splits)
next
  case Post_login
  then have "post_login si dw rq w = (Inr r, w')" using assms(1) by simp
  then show ?thesis unfolding post_login_def using assms(2)
    by (elim with_formE) (auto simp: Let_def local_path_def dest: render_login_body split: prod.splits sum.splits)
next
  case Get_consent
  then have "get_consent si dw rq w = (Inr r, w')" using assms(1) by simp
  then show ?thesis using assms(2)
    by (auto simp: get_consent_def local_path_def load_step_def Let_def dest!: complete_body read_pending_row
        split: option.splits prod.splits sum.splits if_splits)
next
  case Post_consent
  then have "post_consent si dw rq w = (Inr r, w')" using assms(1) by simp
  then show ?thesis unfolding post_consent_def using assms(2)
    by (elim with_formE) (auto simp: local_path_def dest!: complete_body load_step_row split: option.splits prod.splits sum.splits if_splits)
next
  case Post_passkey_options
  then show ?thesis using assms
    by (auto simp: post_passkey_options_def dest: passkey_context_body split: prod.splits sum.splits)
next
  case Post_passkey_login
  then show ?thesis using assms
    by (auto simp: post_passkey_login_def local_path_def dest: passkey_context_body split: prod.splits sum.splits option.splits)
next
  case Post_deny
  then have "post_deny si dw rq w = (Inr r, w')" using assms(1) by simp
  then show ?thesis unfolding post_deny_def using assms(2)
    by (elim with_formE) (auto dest!: load_step_row redirect_with_error_body)
next
  case Post_logout
  then have "post_logout si dw rq w = (Inr r, w')" using assms(1) by simp
  then show ?thesis unfolding post_logout_def using assms(2)
    by (elim with_formE) (auto simp: local_path_def)
qed

text \<open>An authorization in flight is a former one, or the one this request asked for.\<close>

lemma step_pending:
  assumes "run_step si dw st rq w = (r, w')" "row \<in> set (t_pending (ws_db w'))"
  shows "row \<in> set (t_pending (ws_db w)) \<or> (st = Get_authorize \<and> asked_for si dw rq w (pa_redirect_uri row))"
proof -
  consider "st \<notin> {Get_authorize, Get_consent, Post_consent, Post_deny}" | "st = Get_authorize" | "st = Get_consent" | "st = Post_consent"
    | "st = Post_deny" by blast
  then show ?thesis
  proof cases
    case 1
    then show ?thesis using quiet_steps [OF assms(1)] assms(2) by (simp add: flow_kept_def)
  next
    case 2
    then have g: "get_authorize si dw rq w = (r, w')" using assms(1) by simp
    obtain vo w1 where v: "authorize_params si dw rq w = (vo, w1)" by fastforce
    note k1 = authorize_params_kept [OF v]
    show ?thesis
    proof (cases "row \<in> set (t_pending (ws_db w))")
      case False
      with g v assms(2) k1 obtain p su b where p: "vo = Some (Valid p su)"
        and c: "row \<in> set (t_pending (snd (create_pending (si_env si) (dw_now dw 3) (dw_pending dw) p b (ws_db w1))))"
        by (auto simp: get_authorize_def on_web_db_def flow_kept_def dest!: current_session_kept
            split: option.splits prod.splits validated.splits sum.splits) (metis snd_conv)+
      have "pa_redirect_uri row = pe_redirect p"
        using c False k1 by (auto simp: create_pending_def flow_kept_def Let_def split: sum.splits if_splits)
      with authorize_params_uri [of si dw rq w "Valid p su" w1 "pe_redirect p"] v p 2 show ?thesis by simp
    qed simp
  next
    case 3
    then have "get_consent si dw rq w = (r, w')" using assms(1) by simp
    then show ?thesis using assms(2)
      by (elim get_consent_cases)
        (auto simp: flow_kept_def set_delete_where elim!: complete_cases dest!: current_session_kept)
  next
    case 4
    then have "post_consent si dw rq w = (r, w')" using assms(1) by simp
    then show ?thesis using assms(2)
      by (elim post_consent_cases) (auto simp: flow_kept_def set_delete_where elim!: complete_cases)
  next
    case 5
    then have "post_deny si dw rq w = (r, w')" using assms(1) by simp
    then show ?thesis unfolding post_deny_def using assms(2)
      by (elim with_formE) (auto simp: delete_pending_def set_delete_where)
  qed
qed

text \<open>Runs of the flow, with the steps so far; elsewhere the database changes, but no authorization in flight is added.\<close>

inductive flow_run :: "'s site \<Rightarrow> 's web_state \<Rightarrow> ('s web_state \<times> draws \<times> flow_step \<times> web_request) list \<Rightarrow> 's web_state \<Rightarrow> bool"
  for si w0 where
  flow_start: "flow_run si w0 [] w0"
| flow_step: "flow_run si w0 trace w \<Longrightarrow> run_step si dw st rq w = (r, w') \<Longrightarrow> flow_run si w0 (trace @ [(w, dw, st, rq)]) w'"
| flow_elsewhere: "flow_run si w0 trace w \<Longrightarrow> set (t_pending db) \<subseteq> set (t_pending (ws_db w)) \<Longrightarrow>
    flow_run si w0 trace (w\<lparr>ws_db := db\<rparr>)"

definition asked_in :: "'s site \<Rightarrow> ('s web_state \<times> draws \<times> flow_step \<times> web_request) list \<Rightarrow> string \<Rightarrow> bool" where
  "asked_in si trace uri \<longleftrightarrow> (\<exists>(w, dw, st, rq) \<in> set trace. st = Get_authorize \<and> asked_for si dw rq w uri)"

lemma asked_in_append [simp]: "asked_in si (xs @ ys) uri \<longleftrightarrow> asked_in si xs uri \<or> asked_in si ys uri"
  by (auto simp: asked_in_def)

lemma flow_run_pending:
  assumes "flow_run si w0 trace w" "t_pending (ws_db w0) = []"
  shows "\<forall>row \<in> set (t_pending (ws_db w)). asked_in si trace (pa_redirect_uri row)"
  using assms
proof (induction rule: flow_run.induct)
  case (flow_step trace w dw st rq r w')
  then show ?case using step_pending [OF flow_step.hyps(2)] by (fastforce simp: asked_in_def)
qed auto

text \<open>C20. The authorization server is no open redirector. In any run of the flow, by any number of browsers, with whatever
  parameters and with anything else done to the database, a redirect leads to one of the server's own pages, or to a
  redirect URI that was checked: some \<open>GET /authorize\<close> of the run named a client that resolved and a redirect URI that
  this client may use, in its own parameters or in pushed ones, and this is that URI.\<close>

theorem no_open_redirect:
  assumes "flow_run si w0 trace w" "t_pending (ws_db w0) = []"
    and "run_step si dw st rq w = (Inr r, w')" "wp_body r = Redirect_body base q"
  shows "local_path base \<or> (\<exists>(w1, dw1, st1, rq1) \<in> set (trace @ [(w, dw, st, rq)]). st1 = Get_authorize \<and> asked_for si dw1 rq1 w1 base)"
  using step_redirects [OF assms(3,4)] flow_run_pending [OF assms(1,2)] unfolding asked_in_def by fastforce

theorem no_open_redirect_witness:
  "\<exists>r w'. run_step demo_deployment demo_draws Get_authorize demo_visit (demo_web_state\<lparr>ws_db := empty_db\<rparr>) = (Inr r, w')
     \<and> wp_body r = Redirect_body ''/login'' [(''pending'', ''pa_1'')] \<and> local_path ''/login''"
proof -
  let ?w = "demo_web_state\<lparr>ws_db := empty_db\<rparr>"
  have s: "run_step demo_deployment demo_draws Get_authorize demo_visit ?w = (Inr (redirect 303 ''/login'' [(''pending'', ''pa_1'')]), ?w)"
    by (simp add: get_authorize_def)
  have "\<not> asked_for demo_deployment demo_draws demo_visit ?w ''/login''"
    by (auto simp: asked_for_def demo_visit_def empty_db_def)
  with no_open_redirect [OF flow_start _ s, of "''/login''" "[(''pending'', ''pa_1'')]"]
  have "local_path ''/login''" by (simp add: empty_db_def)
  with s show ?thesis by simp
qed

section \<open>Forms\<close>

lemma split_first_eq:
  assumes "x @ c # y = x' @ c # y'" "c \<notin> set x" "c \<notin> set x'"
  shows "x = x' \<and> y = y'"
proof -
  have "takeWhile (\<lambda>d. d \<noteq> c) (x @ c # y) = x" "takeWhile (\<lambda>d. d \<noteq> c) (x' @ c # y') = x'"
    using assms(2,3) by (subst takeWhile_append2; auto)+
  then show ?thesis using assms(1) by simp
qed

lemma csrf_for_inj:
  assumes "hmac_injective (en_hmac env)" "CHR 0x00 \<notin> set (pe_id p)" "CHR 0x00 \<notin> set (pe_id q)"
  shows "csrf_for env q b' = csrf_for env p b \<longleftrightarrow> pe_id q = pe_id p \<and> b' = b"
proof
  assume "csrf_for env q b' = csrf_for env p b"
  then have "pe_id q @ CHR 0x00 # b' = pe_id p @ CHR 0x00 # b"
    using assms(1) by (auto simp: csrf_for_def mac_def dest!: base64url_inj hmac_injectiveD)
  with split_first_eq [OF this] assms(2,3) show "pe_id q = pe_id p \<and> b' = b" by simp
qed (simp add: csrf_for_def)

text \<open>A form works only where it was shown. Posting a sign-in, an approval, a refusal or a sign-out of an authorization
  in flight changes nothing at all, and is answered with a page, unless the browser is the one that started the
  authorization and the form carries the value of this very authorization in this very browser: no value that any form of
  another authorization, or of another browser, was given is accepted.\<close>

theorem forms_work_where_shown:
  assumes "st \<in> {Post_login, Post_consent, Post_deny, Post_logout}" "hmac_injective (en_hmac (si_env si))"
    and "read_pending (dw_now dw 0) (jfield (wq_body rq) ''pending'') (ws_db w) = Some p"
    and "\<not> pending_belongs_to (si_env si) p (read_request_cookie si rq Pa) \<or> jfield (wq_body rq) ''csrf'' = JStr (csrf_for (si_env si) q b)"
    and "(pe_id q, b) \<noteq> (pe_id p, str_of (read_request_cookie si rq Pa))" "CHR 0x00 \<notin> set (pe_id p)" "CHR 0x00 \<notin> set (pe_id q)"
  shows "\<exists>title detail. run_step si dw st rq w
    = (Inr (error_page (dw_nonce dw) (if pending_belongs_to (si_env si) p (read_request_cookie si rq Pa) then 403 else 400) title detail), w)"
proof -
  let ?belongs = "pending_belongs_to (si_env si) p (read_request_cookie si rq Pa)"
  have "\<not> mac_matches (csrf_for (si_env si) p (str_of (read_request_cookie si rq Pa))) (jfield (wq_body rq) ''csrf'')"
    if "pending_belongs_to (si_env si) p (read_request_cookie si rq Pa)"
    using that assms(2,4-7) csrf_for_inj [of "si_env si" p q b "str_of (read_request_cookie si rq Pa)"] by (auto simp: mac_matches_def)
  then have f: "with_form si dw rq w k = (Inr (error_page (dw_nonce dw) (if ?belongs then 403 else 400)
      (if ?belongs then ''This form has expired'' else ''Open this in the browser you started from'')
      (if ?belongs then ''Reload the page and try again.''
       else ''This sign-in was started in a different browser, or its cookie was cleared.'')), w)" for k
    using assms(3) by (simp add: with_form_def load_step_def refuse_form_def Let_def)
  have "\<exists>k. run_step si dw st rq w = with_form si dw rq w k"
    using assms(1) by (auto simp: post_login_def post_consent_def post_deny_def post_logout_def)
  then show ?thesis by (elim exE) (simp only: f, blast)
qed

theorem forms_work_where_shown_witness:
  "\<exists>title detail. run_step demo_deployment demo_draws Post_consent
       (demo_visit\<lparr>wq_body := JObj [(''pending'', JStr ''pa_1''), (''csrf'', JStr (csrf_for demo_env demo_flow ''other''))]\<rparr>) demo_web_state
     = (Inr (error_page (dw_nonce demo_draws) 403 title detail), demo_web_state)"
proof -
  let ?rq = "demo_visit\<lparr>wq_body := JObj [(''pending'', JStr ''pa_1''), (''csrf'', JStr (csrf_for demo_env demo_flow ''other''))]\<rparr>"
  have c: "read_request_cookie demo_deployment ?rq Pa = JStr (mint Binding demo_rnd)"
    using demo_visit_cookies(1) by (simp add: read_request_cookie_def)
  have r: "read_pending (dw_now demo_draws 0) (jfield (wq_body ?rq) ''pending'') (ws_db demo_web_state) = Some demo_flow"
    "pending_belongs_to demo_env demo_flow (JStr (mint Binding demo_rnd))"
    using demo_load by (simp_all add: load_step_Inr)
  have "length ''other'' \<noteq> length (mint Binding demo_rnd)" using length_mint [of demo_rnd Binding] by (simp add: demo_rnd_def)
  then have "''other'' \<noteq> mint Binding demo_rnd" by metis
  then show ?thesis
    using forms_work_where_shown [of Post_consent demo_deployment demo_draws ?rq demo_web_state demo_flow demo_flow "''other''"] r c
      toy_hmac_injective by (simp add: str_of_def)
qed

end
