(* ===== verification/Account_Pages.thy ===== *)
theory Account_Pages
  imports Authorize Exchange_Client
begin

text \<open>
  \<open>server/src/oauth/account.ts\<close> and \<open>server/src/oauth/account-routes.ts\<close>: the pages where a signed-in person sees and
  undoes what has access. The state is the database and the state \<open>'p\<close> of the listeners of the process's revocation hub.
  \<open>dw_now k\<close> is again the database clock of a request's k-th statement; a path parameter is an argument of its route.
\<close>

section \<open>Connected applications\<close>

definition last_activity :: "grant_row \<Rightarrow> int" where
  "last_activity g = (case gr_last_used g of Some t \<Rightarrow> t | None \<Rightarrow> gr_created_at g)"

definition connected_app_of ::
  "grant_row \<Rightarrow> string \<Rightarrow> client_trust \<Rightarrow> string option \<Rightarrow> connected_app" where
  "connected_app_of g name trust destination =
     \<lparr>ca_grant = gr_id g, ca_client = gr_client g, ca_name = name, ca_trust = trust, ca_destination = destination,
      ca_scopes = filter (starts_with ''devices:'') (split_on is_space (gr_scope g)), ca_created_at = to_ms (gr_created_at g),
      ca_last_used = map_option to_ms (gr_last_used g)\<rparr>"

definition destination_of :: "url_parser \<Rightarrow> string list \<Rightarrow> error + string option" where
  "destination_of parse uris =
     (case uris of
        [] \<Rightarrow> Inr None
      | u # _ \<Rightarrow>
          if u = [] then Inr None
          else (case parse u of
                  None \<Rightarrow> Inl invalid_url
                | Some v \<Rightarrow> Inr (Some (if url_host v \<noteq> [] then url_host v else u))))"

text \<open>One row of the join: the grant, with its client and its metadata document where there are any.\<close>

definition describe_app :: "url_parser \<Rightarrow> string option \<Rightarrow> database \<Rightarrow> grant_row \<Rightarrow> error + connected_app" where
  "describe_app parse known db g =
     (if gr_client g = first_party_client then Inr (connected_app_of g ''IoT Switch for iPhone'' Verified None)
      else if starts_with ''https://'' (gr_client g)
      then (case find (\<lambda>m. cc_client m = gr_client g) (t_cimd db) of
              Some m \<Rightarrow> Inr (connected_app_of g (cc_display_host m) (trust_of known (gr_client g)) None)
            | None \<Rightarrow>
                (case parse (gr_client g) of
                   None \<Rightarrow> Inl invalid_url
                 | Some u \<Rightarrow> Inr (connected_app_of g (url_host u) (trust_of known (gr_client g)) None)))
      else (let c = find (\<lambda>c. oc_id c = gr_client g) (t_clients db) in
            case destination_of parse (case c of None \<Rightarrow> [] | Some r \<Rightarrow> oc_redirect_uris r) of
              Inl e \<Rightarrow> Inl e
            | Inr destination \<Rightarrow>
                Inr (connected_app_of g (case c of Some r \<Rightarrow> (case oc_name r of Some n \<Rightarrow> n | None \<Rightarrow> ''An unnamed application'')
                       | None \<Rightarrow> ''An unnamed application'') Unverified destination)))"

fun sum_list_of :: "(error + 'a) list \<Rightarrow> error + 'a list" where
  "sum_list_of [] = Inr []"
| "sum_list_of (Inl e # xs) = Inl e"
| "sum_list_of (Inr x # xs) = (case sum_list_of xs of Inl e \<Rightarrow> Inl e | Inr ys \<Rightarrow> Inr (x # ys))"

definition live_grants :: "string \<Rightarrow> database \<Rightarrow> grant_row list" where
  "live_grants account db = filter (\<lambda>g. gr_account g = account \<and> gr_revoked_at g = None) (t_grants db)"

definition list_connected_apps :: "url_parser \<Rightarrow> string option \<Rightarrow> string \<Rightarrow> database \<Rightarrow> error + connected_app list" where
  "list_connected_apps parse known account db =
     sum_list_of (map (describe_app parse known db) (sort_key (\<lambda>g. - last_activity g) (live_grants account db)))"

definition revoke_connected_app :: "int \<Rightarrow> string \<Rightarrow> string \<Rightarrow> database \<Rightarrow> (error + bool) \<times> database" where
  "revoke_connected_app now account grant db =
     run_tx (\<lambda>d. if grant \<in> gr_id ` set (live_grants account d) then Inr (True, revoke_grant now grant d) else Inr (False, d)) db"

text \<open>\<open>signOutEverywhere\<close>: the grants and the browser sessions in one transaction, then the hub.\<close>

definition end_everything :: "int \<Rightarrow> string \<Rightarrow> database \<Rightarrow> database" where
  "end_everything now account db =
     revoke_all_as_sessions now account (fold (revoke_grant now) (map gr_id (live_grants account db)) db)"

definition sign_out_everywhere :: "'p hub \<Rightarrow> int \<Rightarrow> string \<Rightarrow> database \<times> 'p \<Rightarrow> database \<times> 'p" where
  "sign_out_everywhere h now account st =
     (snd (run_tx (\<lambda>d. Inr ((), end_everything now account d)) (fst st)), account_revoked account h (snd st))"

definition change_password ::
  "'s site \<Rightarrow> 'p hub \<Rightarrow> draws \<Rightarrow> string \<Rightarrow> jsval \<Rightarrow> jsval \<Rightarrow> database \<times> 'p \<Rightarrow> (error + unit) \<times> database \<times> 'p" where
  "change_password si h dw account current_pw next_pw st =
     (let env = si_env si; db = fst st in
      case get_account account db of
        None \<Rightarrow> (Inl (app_err UNAUTHENTICATED), st)
      | Some a \<Rightarrow>
          (case fst (verify_credentials (en_hmac env) (si_argon_verify si) (si_nfkc si) (en_keys env) (si_decoy si)
                   (JStr (a_username a)) current_pw db) of
             None \<Rightarrow> (Inl (app_err_field VALIDATION_FAILED ''Your current password is not right.'' ''currentPassword''), st)
           | Some _ \<Rightarrow>
               (case validate_password next_pw of
                  Inl e \<Rightarrow> (Inl e, st)
                | Inr p \<Rightarrow>
                    (let ph = hash_password (en_hmac env) (si_argon_hash si) (en_keys env) (dw_salt dw) p;
                         db1 = db\<lparr>t_accounts := update_where (\<lambda>r. acc_id r = account)
                                 (\<lambda>r. r\<lparr>acc_password_hash := ph_encoded ph, acc_pepper_version := ph_pepper_version ph\<rparr>) (t_accounts db)\<rparr>
                     in (Inr (), sign_out_everywhere h (dw_now dw 2) account (db1, snd st))))))"

section \<open>Requests\<close>

text \<open>
  \<open>NOTICES\<close> is an object, so a key that it inherits gives a function or an object, which is truthy; a page that is to
  escape it throws.
\<close>

datatype notice = No_notice | Notice string | Inherited_member

definition object_members :: "string list" where
  "object_members = [''constructor'', ''__defineGetter__'', ''__defineSetter__'', ''hasOwnProperty'', ''__lookupGetter__'',
     ''__lookupSetter__'', ''isPrototypeOf'', ''propertyIsEnumerable'', ''toString'', ''valueOf'', ''__proto__'', ''toLocaleString'']"

definition notices :: "string \<Rightarrow> string option" where
  "notices = map_of
     [(''passkey-added'', ''Passkey added.''), (''passkey-removed'', ''Passkey removed.''),
      (''password-changed'', ''Password changed. Everything else has been signed out.''),
      (''app-disconnected'', ''Disconnected. That app can no longer reach your devices.''),
      (''signed-out'', ''Signed out everywhere.'')]"

definition notice_from :: "web_request \<Rightarrow> notice" where
  "notice_from rq =
     (case as_str (jfield (wq_query rq) ''done'') of
        None \<Rightarrow> No_notice
      | Some k \<Rightarrow>
          (case notices k of Some m \<Rightarrow> Notice m | None \<Rightarrow> if k \<in> set object_members then Inherited_member else No_notice))"

definition show_notice :: "notice \<Rightarrow> (string option \<Rightarrow> web_reply) \<Rightarrow> error + web_reply" where
  "show_notice n render =
     (case n of No_notice \<Rightarrow> Inr (render None) | Notice m \<Rightarrow> Inr (render (Some m)) | Inherited_member \<Rightarrow> Inl (OtherError ''TypeError''))"

record signed =
  sg_session :: as_session
  sg_token :: string
  sg_username :: string
  sg_csrf :: string

type_synonym 'p account_handled = "(error + web_reply) \<times> database \<times> 'p"

definition signed_in :: "'s site \<Rightarrow> int \<Rightarrow> web_request \<Rightarrow> database \<Rightarrow> signed option \<times> database" where
  "signed_in si now rq db =
     (let token = read_request_cookie si rq As_session in
      if \<not> well_formed Session token then (None, db)
      else (case read_as_session (si_env si) now token db of
              (None, db') \<Rightarrow> (None, db')
            | (Some s, db') \<Rightarrow>
                (case get_account (se_account s) db' of
                   None \<Rightarrow> (None, db')
                 | Some a \<Rightarrow>
                     (Some \<lparr>sg_session = s, sg_token = str_of token, sg_username = a_username a,
                            sg_csrf = mac (si_env si) ''account-csrf'' [str_of token]\<rparr>, db'))))"

text \<open>A form of these pages: who posted it, or where the browser is sent instead.\<close>

definition for_form :: "'s site \<Rightarrow> draws \<Rightarrow> web_request \<Rightarrow> database \<times> 'p
  \<Rightarrow> (signed \<Rightarrow> database \<times> 'p \<Rightarrow> 'p account_handled) \<Rightarrow> 'p account_handled" where
  "for_form si dw rq st k =
     (case signed_in si (dw_now dw 0) rq (fst st) of
        (None, db) \<Rightarrow> (Inr (redirect 303 ''/account/login'' []), db, snd st)
      | (Some who, db) \<Rightarrow>
          if mac_matches (sg_csrf who) (jfield (wq_body rq) ''csrf'') then k who (db, snd st)
          else (Inr (redirect 303 ''/account'' []), db, snd st))"

definition recent_who :: "signed \<Rightarrow> bool" where
  "recent_who who \<longleftrightarrow> se_auth_age (sg_session who) \<le> recent_sign_in_seconds"

definition render_account_login ::
  "'s site \<Rightarrow> draws \<Rightarrow> web_request \<Rightarrow> string option \<Rightarrow> string option \<Rightarrow> nat \<Rightarrow> error + web_reply" where
  "render_account_login si dw rq err username status =
     (case ensure_binding (si_env si) (si_decode si) (dw_binding dw) rq of
        (b, cs) \<Rightarrow> show_notice (notice_from rq) (\<lambda>n. with_cookies cs
          (send_page (dw_nonce dw) status
             (Account_login_page (account_login_csrf (si_env si) b) err n username (jfield (wq_query rq) ''reauth'' = JStr ''1'')) [] True)))"

section \<open>Signing in and out\<close>

definition post_account_login :: "'s site \<Rightarrow> draws \<Rightarrow> web_request \<Rightarrow> database \<times> 'p \<Rightarrow> 'p account_handled" where
  "post_account_login si dw rq st =
     (let b = read_request_cookie si rq Pa in
      if \<not> well_formed Binding b \<or> \<not> mac_matches (account_login_csrf (si_env si) (str_of b)) (jfield (wq_body rq) ''csrf'')
      then (render_account_login si dw rq (Some ''This form expired. Try again.'') None 403, st)
      else (case fst (verify_credentials (en_hmac (si_env si)) (si_argon_verify si) (si_nfkc si) (en_keys (si_env si)) (si_decoy si)
                   (jfield (wq_body rq) ''username'') (jfield (wq_body rq) ''password'') (fst st)) of
              None \<Rightarrow>
                (render_account_login si dw rq (Some ''Invalid username or password.'')
                   (Some (str_of (jfield (wq_body rq) ''username''))) 200, st)
            | Some a \<Rightarrow>
                (case start_as_session (si_env si) (dw_now dw 1) (dw_session dw) (a_id a) ''pwd''
                        (revoke_as_session (si_env si) (dw_now dw 0) (read_request_cookie si rq As_session) (fst st)) of
                   (Inl e, db) \<Rightarrow> (Inl e, db, snd st)
                 | (Inr token, db) \<Rightarrow>
                     (Inr (with_cookies [set_cookie (si_env si) As_session token session_absolute] (redirect 303 ''/account'' [])), db, snd st))))"

definition post_account_logout :: "'s site \<Rightarrow> draws \<Rightarrow> web_request \<Rightarrow> database \<times> 'p \<Rightarrow> 'p account_handled" where
  "post_account_logout si dw rq st =
     for_form si dw rq st (\<lambda>who (db, p).
       (Inr (with_cookies [clear_cookie (si_env si) As_session] (redirect 303 ''/account/login'' [])),
        revoke_as_session (si_env si) (dw_now dw 1) (JStr (sg_token who)) db, p))"

section \<open>Security and passkeys\<close>

definition get_account_page :: "'s site \<Rightarrow> draws \<Rightarrow> web_request \<Rightarrow> database \<times> 'p \<Rightarrow> 'p account_handled" where
  "get_account_page si dw rq st =
     (case signed_in si (dw_now dw 0) rq (fst st) of
        (None, db) \<Rightarrow> (Inr (redirect 303 ''/account/login'' []), db, snd st)
      | (Some who, db) \<Rightarrow>
          (show_notice (notice_from rq) (\<lambda>n. send_page (dw_nonce dw) 200
             (Account_page (sg_csrf who) (sg_username who) (list_passkeys (se_account (sg_session who)) db) n
                (if jfield (wq_query rq) ''error'' = JStr ''password''
                 then Some ''Your current password is not right, or the new one is too short.'' else None)) [] True), db, snd st))"

definition no_store_json :: "nat \<Rightarrow> (string \<times> jsval) list \<Rightarrow> web_reply" where
  "no_store_json status entries = web_json status [(''Cache-Control'', ''no-store'')] (JObj entries)"

text \<open>The common guard of the two passkey endpoints; \<open>extra\<close> is what the refusal of an old sign-in adds.\<close>

definition for_passkey :: "'s site \<Rightarrow> draws \<Rightarrow> web_request \<Rightarrow> (string \<times> jsval) list \<Rightarrow> database \<times> 'p
  \<Rightarrow> (signed \<Rightarrow> database \<times> 'p \<Rightarrow> 'p account_handled) \<Rightarrow> 'p account_handled" where
  "for_passkey si dw rq extra st k =
     (case signed_in si (dw_now dw 0) rq (fst st) of
        (None, db) \<Rightarrow> (Inr (no_store_json 403 [(''error'', JStr ''Reload the page and try again.'')]), db, snd st)
      | (Some who, db) \<Rightarrow>
          if \<not> mac_matches (sg_csrf who) (jfield (wq_body rq) ''csrf'')
          then (Inr (no_store_json 403 [(''error'', JStr ''Reload the page and try again.'')]), db, snd st)
          else if \<not> recent_who who
          then (Inr (no_store_json 403 ((''error'', JStr ''Sign in again to add a passkey.'') # extra)), db, snd st)
          else k who (db, snd st))"

definition post_registration_options :: "'s site \<Rightarrow> draws \<Rightarrow> web_request \<Rightarrow> database \<times> 'p \<Rightarrow> 'p account_handled" where
  "post_registration_options si dw rq st =
     for_passkey si dw rq [(''redirect'', JStr ''/account/login?reauth=1'')] st (\<lambda>who (db, p).
       case registration_options (si_webauthn si) (si_parse si) (si_env si) (dw_now dw 1) (dw_challenge dw)
              (se_account (sg_session who)) (sg_username who) db of
         (Inl e, db') \<Rightarrow> (Inl e, db', p)
       | (Inr v, db') \<Rightarrow> (Inr (web_json 200 [(''Cache-Control'', ''no-store'')] v), db', p))"

definition post_registration :: "'s site \<Rightarrow> draws \<Rightarrow> web_request \<Rightarrow> database \<times> 'p \<Rightarrow> 'p account_handled" where
  "post_registration si dw rq st =
     for_passkey si dw rq [] st (\<lambda>who (db, p).
       case finish_registration (si_webauthn si) (si_parse si) (si_env si) (dw_now dw 1) (dw_now dw 2)
              (se_account (sg_session who)) (jfield (wq_body rq) ''response'') (jfield (wq_body rq) ''name'') db of
         (Inl e, db') \<Rightarrow> (Inl e, db', p)
       | (Inr (Inl reason), db') \<Rightarrow> (Inr (no_store_json 400 [(''error'', JStr reason)]), db', p)
       | (Inr (Inr _), db') \<Rightarrow> (Inr (redirect_json ''/account'' [(''done'', ''passkey-added'')]), db', p))"

definition post_passkey_delete :: "'s site \<Rightarrow> draws \<Rightarrow> web_request \<Rightarrow> string \<Rightarrow> database \<times> 'p \<Rightarrow> 'p account_handled" where
  "post_passkey_delete si dw rq key st =
     for_form si dw rq st (\<lambda>who (db, p).
       (Inr (redirect 303 ''/account'' [(''done'', ''passkey-removed'')]),
        snd (delete_passkey (se_account (sg_session who)) key db), p))"

text \<open>Only an \<open>AppError\<close> of the change is shown; whoever proved both passwords gets a fresh session.\<close>

definition post_password :: "'s site \<Rightarrow> 'p hub \<Rightarrow> draws \<Rightarrow> web_request \<Rightarrow> database \<times> 'p \<Rightarrow> 'p account_handled" where
  "post_password si h dw rq st =
     for_form si dw rq st (\<lambda>who st1.
       if \<not> recent_who who then (Inr (redirect 303 ''/account/login'' [(''reauth'', ''1'')]), st1)
       else (case change_password si h dw (se_account (sg_session who)) (jfield (wq_body rq) ''currentPassword'')
                    (jfield (wq_body rq) ''newPassword'') st1 of
               (Inl e, st2) \<Rightarrow> (if is_app_error e then Inr (redirect 303 ''/account'' [(''error'', ''password'')]) else Inl e, st2)
             | (Inr _, db2, p) \<Rightarrow>
                 (case start_as_session (si_env si) (dw_now dw 3) (dw_session dw) (se_account (sg_session who)) ''pwd'' db2 of
                    (Inl e, db3) \<Rightarrow> (Inl e, db3, p)
                  | (Inr token, db3) \<Rightarrow>
                      (Inr (with_cookies [set_cookie (si_env si) As_session token session_absolute]
                              (redirect 303 ''/account'' [(''done'', ''password-changed'')])), db3, p))))"

section \<open>Connected applications, and everywhere\<close>

definition get_apps :: "'s site \<Rightarrow> draws \<Rightarrow> web_request \<Rightarrow> database \<times> 'p \<Rightarrow> 'p account_handled" where
  "get_apps si dw rq st =
     (case signed_in si (dw_now dw 0) rq (fst st) of
        (None, db) \<Rightarrow> (Inr (redirect 303 ''/account/login'' []), db, snd st)
      | (Some who, db) \<Rightarrow>
          (case list_connected_apps (si_parse si) (rs_known (si_resolver si)) (se_account (sg_session who)) db of
             Inl e \<Rightarrow> (Inl e, db, snd st)
           | Inr apps \<Rightarrow>
               (show_notice (notice_from rq) (\<lambda>n. send_page (dw_nonce dw) 200 (Apps_page (sg_csrf who) (sg_username who) apps n) [] False),
                db, snd st)))"

definition post_app_revoke :: "'s site \<Rightarrow> draws \<Rightarrow> web_request \<Rightarrow> string \<Rightarrow> database \<times> 'p \<Rightarrow> 'p account_handled" where
  "post_app_revoke si dw rq grant st =
     for_form si dw rq st (\<lambda>who (db, p).
       case revoke_connected_app (dw_now dw 1) (se_account (sg_session who)) grant db of
         (Inl e, db') \<Rightarrow> (Inl e, db', p)
       | (Inr _, db') \<Rightarrow> (Inr (redirect 303 ''/account/apps'' [(''done'', ''app-disconnected'')]), db', p))"

definition post_sign_out_everywhere :: "'s site \<Rightarrow> 'p hub \<Rightarrow> draws \<Rightarrow> web_request \<Rightarrow> database \<times> 'p \<Rightarrow> 'p account_handled" where
  "post_sign_out_everywhere si h dw rq st =
     for_form si dw rq st (\<lambda>who st1.
       (Inr (with_cookies [clear_cookie (si_env si) As_session] (redirect 303 ''/account/login'' [(''done'', ''signed-out'')])),
        sign_out_everywhere h (dw_now dw 1) (se_account (sg_session who)) st1))"

datatype account_step =
    Get_account_login | Post_account_login | Post_account_logout | Get_account | Post_registration_options | Post_registration
  | Post_passkey_delete string | Post_password | Get_apps | Post_app_revoke string | Post_sign_out_everywhere

fun run_account :: "'s site \<Rightarrow> 'p hub \<Rightarrow> draws \<Rightarrow> account_step \<Rightarrow> web_request \<Rightarrow> database \<times> 'p \<Rightarrow> 'p account_handled" where
  "run_account si h dw Get_account_login rq st = (render_account_login si dw rq None None 200, st)"
| "run_account si h dw Post_account_login rq st = post_account_login si dw rq st"
| "run_account si h dw Post_account_logout rq st = post_account_logout si dw rq st"
| "run_account si h dw Get_account rq st = get_account_page si dw rq st"
| "run_account si h dw Post_registration_options rq st = post_registration_options si dw rq st"
| "run_account si h dw Post_registration rq st = post_registration si dw rq st"
| "run_account si h dw (Post_passkey_delete key) rq st = post_passkey_delete si dw rq key st"
| "run_account si h dw Post_password rq st = post_password si h dw rq st"
| "run_account si h dw Get_apps rq st = get_apps si dw rq st"
| "run_account si h dw (Post_app_revoke grant) rq st = post_app_revoke si dw rq grant st"
| "run_account si h dw Post_sign_out_everywhere rq st = post_sign_out_everywhere si h dw rq st"

end
