(* ===== verification/Account_Theorems.thy ===== *)
theory Account_Theorems
  imports Account_Pages Authorize_Theorems Verify Token_Theorems
begin

text \<open>
  What the account pages guarantee: signing out everywhere ends every grant and session of the account for good, a password
  changes only by its owner's recent sign-in and both passwords, and a request acts on nobody else's account.
\<close>

section \<open>Signing out everywhere\<close>

lemma filter_update_other:
  "(\<And>r. r \<in> set rs \<Longrightarrow> P r \<Longrightarrow> \<not> Q r \<and> \<not> Q (f r)) \<Longrightarrow> filter Q (update_where P f rs) = filter Q rs"
  by (induction rs) (auto simp: update_where_def)

lemma revoke_grants_fold:
  fixes db :: database
  assumes "oauth_inv db"
  shows "oauth_inv (fold (revoke_grant now) gs db)
    \<and> t_grants (fold (revoke_grant now) gs db)
      = update_where (\<lambda>g. gr_id g \<in> set gs \<and> gr_revoked_at g = None) (\<lambda>g. g\<lparr>gr_revoked_at := Some now\<rparr>) (t_grants db)
    \<and> t_sessions (fold (revoke_grant now) gs db) = t_sessions db \<and> t_codes (fold (revoke_grant now) gs db) = t_codes db
    \<and> t_accounts (fold (revoke_grant now) gs db) = t_accounts db \<and> t_passkeys (fold (revoke_grant now) gs db) = t_passkeys db
    \<and> t_access (fold (revoke_grant now) gs db) = delete_where (\<lambda>a. at_grant a \<in> set gs) (t_access db)
    \<and> t_notified (fold (revoke_grant now) gs db) = t_notified db @ gs"
  using assms
proof (induction gs arbitrary: db)
  case Nil
  then show ?case by (simp add: delete_where_def update_where_def)
next
  case (Cons g gs)
  have f: "t_sessions (revoke_grant now g db) = t_sessions db" "t_passkeys (revoke_grant now g db) = t_passkeys db"
    by (simp_all add: revoke_grant_def)
  have d: "delete_where (\<lambda>a. at_grant a \<in> set gs) (delete_where (\<lambda>a. at_grant a = g) (t_access db))
      = delete_where (\<lambda>a. at_grant a \<in> set (g # gs)) (t_access db)"
    by (auto simp: delete_where_def intro: filter_cong)
  have "update_where (\<lambda>p. gr_id p \<in> set gs \<and> gr_revoked_at p = None) (\<lambda>p. p\<lparr>gr_revoked_at := Some now\<rparr>) (t_grants (revoke_grant now g db))
      = update_where (\<lambda>p. gr_id p \<in> set (g # gs) \<and> gr_revoked_at p = None) (\<lambda>p. p\<lparr>gr_revoked_at := Some now\<rparr>) (t_grants db)"
    by (auto simp: revoke_grant_def update_where_def)
  with Cons.IH [OF revoke_grant_inv [OF Cons.prems]] f d show ?case by simp
qed

text \<open>What revoking some grants leaves alone: the tokens of the others, and every table that is not about grants.\<close>

lemma revoke_grants_only:
  fixes db :: database
  assumes "set gs \<subseteq> M"
  shows "filter (\<lambda>a. at_grant a \<notin> M) (t_access (fold (revoke_grant now) gs db)) = filter (\<lambda>a. at_grant a \<notin> M) (t_access db)
    \<and> filter (\<lambda>q. rt_grant q \<notin> M) (t_refresh (fold (revoke_grant now) gs db)) = filter (\<lambda>q. rt_grant q \<notin> M) (t_refresh db)
    \<and> (fold (revoke_grant now) gs db)\<lparr>t_grants := t_grants db, t_access := t_access db, t_refresh := t_refresh db,
         t_notified := t_notified db\<rparr> = db"
  using assms
proof (induction gs arbitrary: db)
  case (Cons g gs)
  have "filter (\<lambda>a. at_grant a \<notin> M) (t_access (revoke_grant now g db)) = filter (\<lambda>a. at_grant a \<notin> M) (t_access db)"
    using Cons.prems by (auto simp: revoke_grant_def delete_where_def intro!: filter_cong)
  moreover have "filter (\<lambda>q. rt_grant q \<notin> M) (t_refresh (revoke_grant now g db)) = filter (\<lambda>q. rt_grant q \<notin> M) (t_refresh db)"
    unfolding revoke_grant_def using Cons.prems by (auto intro!: filter_update_other)
  moreover have "(fold (revoke_grant now) gs (revoke_grant now g db))\<lparr>t_grants := t_grants db, t_access := t_access db,
      t_refresh := t_refresh db, t_notified := t_notified db\<rparr> = db"
  proof -
    let ?d = "revoke_grant now g db"
    have "(fold (revoke_grant now) gs ?d)\<lparr>t_grants := t_grants ?d, t_access := t_access ?d, t_refresh := t_refresh ?d,
      t_notified := t_notified ?d\<rparr> = ?d" using Cons.IH [of ?d] Cons.prems by auto
    from arg_cong [where f = "\<lambda>z. z\<lparr>t_grants := t_grants db, t_access := t_access db, t_refresh := t_refresh db,
      t_notified := t_notified db\<rparr>", OF this]
    show ?thesis by (simp add: revoke_grant_def)
  qed
  ultimately show ?case using Cons by simp
qed simp

lemma live_grant_ids:
  assumes "oauth_inv db" "p \<in> set (t_grants db)"
  shows "gr_id p \<in> gr_id ` set (live_grants account db) \<longleftrightarrow> gr_account p = account \<and> gr_revoked_at p = None"
  using assms distinct_key_eq [of gr_id "t_grants db" p] by (auto simp: live_grants_def oauth_inv_def keys_ok_def)

lemma end_everything_grants:
  assumes "oauth_inv db"
  shows "oauth_inv (end_everything now account db)"
    and "t_grants (end_everything now account db)
      = update_where (\<lambda>g. gr_account g = account \<and> gr_revoked_at g = None) (\<lambda>g. g\<lparr>gr_revoked_at := Some now\<rparr>) (t_grants db)"
    and "t_sessions (end_everything now account db)
      = update_where (\<lambda>r. ss_account r = account \<and> ss_revoked_at r = None) (session_end now) (t_sessions db)"
    and "t_codes (end_everything now account db) = t_codes db" "t_accounts (end_everything now account db) = t_accounts db"
    and "t_passkeys (end_everything now account db) = t_passkeys db"
proof -
  note f = revoke_grants_fold [OF assms, of now "map gr_id (live_grants account db)"]
  show "oauth_inv (end_everything now account db)"
    unfolding end_everything_def revoke_all_as_sessions_def
    by (rule oauth_inv_frame [OF conjunct1 [OF f]]) (use f in \<open>auto simp: oauth_inv_def keys_ok_def\<close>)
  have "gr_id p \<in> set (map gr_id (live_grants account db)) \<longleftrightarrow> gr_account p = account \<and> gr_revoked_at p = None"
    if "p \<in> set (t_grants db)" for p
    using live_grant_ids [OF assms that] by simp
  then show "t_grants (end_everything now account db)
      = update_where (\<lambda>g. gr_account g = account \<and> gr_revoked_at g = None) (\<lambda>g. g\<lparr>gr_revoked_at := Some now\<rparr>) (t_grants db)"
    using f by (auto simp: end_everything_def revoke_all_as_sessions_def update_where_def)
qed (use revoke_grants_fold [OF assms, of now "map gr_id (live_grants account db)"] in
    \<open>simp_all add: end_everything_def revoke_all_as_sessions_def\<close>)

lemma sign_out_everywhere_eq [simp]:
  "sign_out_everywhere h now account (db, p) = (end_everything now account db, account_revoked account h p)"
  by (simp add: sign_out_everywhere_def run_tx_def)

lemma dead_grant_never_verifies:
  assumes "oauth_inv db" "g \<in> set (t_grants db)" "gr_revoked_at g \<noteq> None"
    and "fst (verify_access env ck token required audience (touched, run_store env xs db)) = Token_ok v"
  shows "ve_grant v \<noteq> gr_id g"
proof
  assume e: "ve_grant v = gr_id g"
  let ?db = "run_store env xs db"
  obtain t a q where j: "access_join env (ck_db ck) t ?db = Some (a, q)" and v: "v = verified_of (ck_db ck) a q"
    using assms(4) unfolding verify_access_ok by auto
  obtain g2 where g2: "g2 \<in> set (t_grants ?db)" "gr_id g2 = gr_id g" "gr_revoked_at g2 \<noteq> None"
    using grant_persists_run [OF assms(2), of env xs] assms(3) by (auto simp: grant_le_def)
  have "gr_id q = gr_id g" using e access_join_Some [OF j] by (simp add: v verified_of_def live_grant_def)
  moreover have "distinct (map gr_id (t_grants ?db))"
    using run_store_inv [OF assms(1), of env xs] by (simp add: oauth_inv_def keys_ok_def)
  ultimately have "q = g2" using access_join_Some [OF j] g2(1,2) by (metis distinct_key_eq)
  then show False using access_join_Some [OF j] g2(3) by (simp add: live_grant_def)
qed

definition grants_of :: "string \<Rightarrow> database \<Rightarrow> string set" where
  "grants_of account db = gr_id ` set (filter (\<lambda>g. gr_account g = account) (t_grants db))"

lemma end_everything_only:
  fixes db :: database and now :: int and account :: string
  defines "db' \<equiv> end_everything now account db"
  shows "filter (\<lambda>a. at_grant a \<notin> grants_of account db) (t_access db') = filter (\<lambda>a. at_grant a \<notin> grants_of account db) (t_access db)"
    and "filter (\<lambda>q. rt_grant q \<notin> grants_of account db) (t_refresh db') = filter (\<lambda>q. rt_grant q \<notin> grants_of account db) (t_refresh db)"
    and "db'\<lparr>t_grants := t_grants db, t_access := t_access db, t_refresh := t_refresh db, t_sessions := t_sessions db,
         t_notified := t_notified db\<rparr> = db"
proof -
  have "set (map gr_id (live_grants account db)) \<subseteq> grants_of account db" by (auto simp: live_grants_def grants_of_def)
  note f = revoke_grants_only [OF this, of now db]
  let ?d = "fold (revoke_grant now) (map gr_id (live_grants account db)) db"
  have e: "?d\<lparr>t_grants := t_grants db, t_access := t_access db, t_refresh := t_refresh db, t_notified := t_notified db\<rparr> = db" using f by blast
  from arg_cong [where f = t_sessions, OF this] have s: "t_sessions ?d = t_sessions db" by simp
  have db': "db' = ?d\<lparr>t_sessions := t_sessions db'\<rparr>" by (simp add: db'_def end_everything_def revoke_all_as_sessions_def)
  show "filter (\<lambda>a. at_grant a \<notin> grants_of account db) (t_access db') = filter (\<lambda>a. at_grant a \<notin> grants_of account db) (t_access db)"
    "filter (\<lambda>q. rt_grant q \<notin> grants_of account db) (t_refresh db') = filter (\<lambda>q. rt_grant q \<notin> grants_of account db) (t_refresh db)"
    by (subst db', use f in simp)+
  from e have "?d\<lparr>t_grants := t_grants db, t_access := t_access db, t_refresh := t_refresh db, t_sessions := t_sessions db,
    t_notified := t_notified db\<rparr> = db" using s by (cases ?d) simp
  then show "db'\<lparr>t_grants := t_grants db, t_access := t_access db, t_refresh := t_refresh db, t_sessions := t_sessions db,
         t_notified := t_notified db\<rparr> = db" by (subst db') simp
qed

text \<open>C24. Signing out everywhere is final. Afterwards no access token of any grant the account had verifies, whatever is done
  later; every browser session the account had is revoked; the process's listeners were told; and the grants of every
  other account, the access and refresh tokens of those grants and those accounts' sessions are as they were, and so are
  all other tables: accounts, devices, clients, consents, passkeys, authorization codes and the rest.\<close>

theorem sign_out_everywhere_final:
  assumes "oauth_inv db" "sign_out_everywhere h now account (db, p) = (db', p')"
  shows "(\<forall>g xs env ck token required audience touched v.
        g \<in> set (t_grants db) \<and> gr_account g = account
        \<and> fst (verify_access env ck token required audience (touched, run_store env xs db')) = Token_ok v \<longrightarrow> ve_grant v \<noteq> gr_id g)
    \<and> (\<forall>r \<in> set (t_sessions db'). ss_account r = account \<longrightarrow> ss_revoked_at r \<noteq> None)
    \<and> p' = account_revoked account h p
    \<and> filter (\<lambda>g. gr_account g \<noteq> account) (t_grants db') = filter (\<lambda>g. gr_account g \<noteq> account) (t_grants db)
    \<and> filter (\<lambda>a. at_grant a \<notin> grants_of account db) (t_access db') = filter (\<lambda>a. at_grant a \<notin> grants_of account db) (t_access db)
    \<and> filter (\<lambda>q. rt_grant q \<notin> grants_of account db) (t_refresh db') = filter (\<lambda>q. rt_grant q \<notin> grants_of account db) (t_refresh db)
    \<and> filter (\<lambda>r. ss_account r \<noteq> account) (t_sessions db') = filter (\<lambda>r. ss_account r \<noteq> account) (t_sessions db)
    \<and> db'\<lparr>t_grants := t_grants db, t_access := t_access db, t_refresh := t_refresh db, t_sessions := t_sessions db,
         t_notified := t_notified db\<rparr> = db"
proof -
  have d: "db' = end_everything now account db" "p' = account_revoked account h p" using assms(2) by simp_all
  note e = end_everything_grants [OF assms(1), of now account, folded d(1)]
  have "\<forall>g xs env ck token required audience touched v. g \<in> set (t_grants db) \<and> gr_account g = account
      \<and> fst (verify_access env ck token required audience (touched, run_store env xs db')) = Token_ok v \<longrightarrow> ve_grant v \<noteq> gr_id g"
  proof (intro allI impI, elim conjE)
    fix g xs env ck token required audience touched v
    assume g: "g \<in> set (t_grants db)" "gr_account g = account"
      and ok: "fst (verify_access env ck token required audience (touched, run_store env xs db')) = Token_ok v"
    let ?q = "if gr_account g = account \<and> gr_revoked_at g = None then g\<lparr>gr_revoked_at := Some now\<rparr> else g"
    have "?q \<in> set (t_grants db')" unfolding e(2) in_update_where using g by (intro bexI [of _ g]) simp_all
    moreover have "gr_revoked_at ?q \<noteq> None" "gr_id ?q = gr_id g" using g(2) by auto
    ultimately show "ve_grant v \<noteq> gr_id g" using dead_grant_never_verifies [OF e(1) _ _ ok] by metis
  qed
  moreover have "filter (\<lambda>g. gr_account g \<noteq> account) (t_grants db') = filter (\<lambda>g. gr_account g \<noteq> account) (t_grants db)"
    unfolding e(2) by (rule filter_update_other) auto
  moreover have "filter (\<lambda>r. ss_account r \<noteq> account) (t_sessions db') = filter (\<lambda>r. ss_account r \<noteq> account) (t_sessions db)"
    unfolding e(3) by (rule filter_update_other) (auto simp: session_end_def)
  moreover have "\<forall>r \<in> set (t_sessions db'). ss_account r = account \<longrightarrow> ss_revoked_at r \<noteq> None"
    unfolding e(3) ball_update_where by (simp add: session_end_def)
  ultimately show ?thesis using d(2) end_everything_only [where now = now and account = account and db = db, folded d(1)] by (intro conjI)
qed

theorem sign_out_everywhere_final_witness:
  "fst (verify_access demo_env demo_clocks (JStr (mint Access demo_rnd)) [''devices:read''] None
      ([], fst (sign_out_everywhere [] 3 ''ann'' (demo_grants, ())))) = Invalid_token"
proof -
  let ?db = "fst (sign_out_everywhere [] 3 ''ann'' (demo_grants, ()))"
  let ?r = "verify_access demo_env demo_clocks (JStr (mint Access demo_rnd)) [''devices:read''] None ([], ?db)"
  have inv: "oauth_inv demo_grants" "demo_grant_row \<in> set (t_grants demo_grants)" "gr_account demo_grant_row = ''ann''"
    using demo_grants_inv by (auto simp: demo_grants_tables demo_grant_row_def)
  note f = sign_out_everywhere_final [OF inv(1) prod.collapse [symmetric], where h = "[]" and now = 3 and account = "''ann''" and p = "()",
      THEN conjunct1, rule_format, OF conjI [OF inv(2) conjI [OF inv(3)]]]
  have "fst (verify_access demo_env demo_clocks (JStr (mint Access demo_rnd)) [''devices:read''] None ([], run_store demo_env [] ?db)) = Token_ok v
      \<longrightarrow> ve_grant v \<noteq> gr_id demo_grant_row" for v
    by (rule impI, rule f)
  then have n: "ve_grant v \<noteq> gr_id demo_grant_row" if "fst ?r = Token_ok v" for v
    using that by (simp add: run_store_def)
  have "t_access ?db = []"
    using revoke_grants_fold [OF inv(1), of 3 "map gr_id (live_grants ''ann'' demo_grants)"]
    by (simp add: end_everything_def revoke_all_as_sessions_def demo_grants_tables live_grants_def inv(3) demo_grant_simps delete_where_def)
  with n show ?thesis
    by (simp add: verify_access_def access_join_def access_live_def mint_well_formed_str demo_rnd_length)
qed

text \<open>
  What signing out everywhere leaves: a code that was issued but not redeemed yet still becomes tokens, although the
  account has just been signed out.
\<close>

lemma code_survives_sign_out_everywhere:
  "\<exists>r st'. exchange_code demo_env demo_infra demo_draw demo_code_request
       (demo_code_state\<lparr>tk_db := fst (sign_out_everywhere [] 3 ''ann'' (tk_db demo_code_state, ()))\<rparr>) = (Inr r, st')
     \<and> rp_status r = 200"
proof -
  have "end_everything 3 ''ann'' (tk_db demo_code_state) = tk_db demo_code_state"
    by (simp add: end_everything_def revoke_all_as_sessions_def live_grants_def demo_code_state_def demo_account_db_def empty_db_def
        update_where_def)
  then show ?thesis using demo_exchange by auto
qed

section \<open>Whose account it is\<close>

lemma signed_in_frame:
  assumes "signed_in si now rq db = (who, db1)"
  shows "t_accounts db1 = t_accounts db \<and> t_passkeys db1 = t_passkeys db \<and> t_grants db1 = t_grants db
    \<and> t_access db1 = t_access db \<and> t_refresh db1 = t_refresh db \<and> t_codes db1 = t_codes db"
  using assms
  by (auto simp: signed_in_def read_as_session_def Let_def split: if_splits option.splits prod.splits bool.splits jsval.splits)

lemma for_formE:
  assumes "for_form si dw rq st k = (r, st')"
  obtains (out) db1 where "signed_in si (dw_now dw 0) rq (fst st) = (None, db1)" "st' = (db1, snd st)"
  | (forged) who db1 where "signed_in si (dw_now dw 0) rq (fst st) = (Some who, db1)" "st' = (db1, snd st)"
      "\<not> mac_matches (sg_csrf who) (jfield (wq_body rq) ''csrf'')"
  | (form) who db1 where "signed_in si (dw_now dw 0) rq (fst st) = (Some who, db1)"
      "mac_matches (sg_csrf who) (jfield (wq_body rq) ''csrf'')" "k who (db1, snd st) = (r, st')"
  using assms unfolding for_form_def
  by (cases "signed_in si (dw_now dw 0) rq (fst st)"; cases "fst (signed_in si (dw_now dw 0) rq (fst st))") (auto split: if_splits)

lemma for_passkeyE:
  assumes "for_passkey si dw rq extra st k = (r, st')"
  obtains (out) db1 where "signed_in si (dw_now dw 0) rq (fst st) = (None, db1)" "st' = (db1, snd st)"
  | (refused) who db1 where "signed_in si (dw_now dw 0) rq (fst st) = (Some who, db1)" "st' = (db1, snd st)"
  | (form) who db1 where "signed_in si (dw_now dw 0) rq (fst st) = (Some who, db1)"
      "mac_matches (sg_csrf who) (jfield (wq_body rq) ''csrf'')" "recent_who who" "k who (db1, snd st) = (r, st')"
  using assms unfolding for_passkey_def
  by (cases "signed_in si (dw_now dw 0) rq (fst st)"; cases "fst (signed_in si (dw_now dw 0) rq (fst st))") (auto split: if_splits)

definition others_kept :: "string \<Rightarrow> database \<Rightarrow> database \<Rightarrow> bool" where
  "others_kept a db db' \<longleftrightarrow> filter (\<lambda>r. acc_id r \<noteq> a) (t_accounts db') = filter (\<lambda>r. acc_id r \<noteq> a) (t_accounts db)
     \<and> filter (\<lambda>r. pk_account r \<noteq> a) (t_passkeys db') = filter (\<lambda>r. pk_account r \<noteq> a) (t_passkeys db)
     \<and> filter (\<lambda>g. gr_account g \<noteq> a) (t_grants db') = filter (\<lambda>g. gr_account g \<noteq> a) (t_grants db)"

lemma others_kept_frame:
  "t_accounts db' = t_accounts db \<Longrightarrow> t_passkeys db' = t_passkeys db \<Longrightarrow> t_grants db' = t_grants db \<Longrightarrow> others_kept a db db'"
  by (simp add: others_kept_def)

lemma others_kept_refl [simp]: "others_kept a db db"
  by (simp add: others_kept_def)

lemma others_kept_trans: "others_kept a x y \<Longrightarrow> others_kept a y z \<Longrightarrow> others_kept a x z"
  by (simp add: others_kept_def)

lemma register_others_kept:
  "finish_registration wa parse env now now2 a r n db = (x, db') \<Longrightarrow> others_kept a db db'"
  by (auto simp: finish_registration_def take_challenge_def others_kept_def insert_pk_def Let_def
      split: option.splits prod.splits sum.splits bool.splits if_splits)

lemma options_others_kept:
  "registration_options wa parse env now ch b u db = (x, db') \<Longrightarrow> others_kept a db db'"
  by (auto simp: registration_options_def store_challenge_def others_kept_def Let_def
      split: option.splits prod.splits sum.splits bool.splits if_splits)

lemma delete_others_kept: "others_kept a db (snd (delete_passkey a key db))"
  by (auto simp: delete_passkey_def others_kept_def delete_where_def Let_def intro!: filter_cong)

lemma revoke_others_kept:
  assumes "oauth_inv db" "revoke_connected_app now a grant db = (x, db')"
  shows "others_kept a db db'"
proof -
  have "filter (\<lambda>g. gr_account g \<noteq> a) (t_grants (revoke_grant now grant db)) = filter (\<lambda>g. gr_account g \<noteq> a) (t_grants db)"
    if "grant \<in> gr_id ` set (live_grants a db)"
    unfolding revoke_grant_def using that live_grant_ids [OF assms(1), of _ a] by (simp, intro filter_update_other) auto
  moreover have "t_accounts (revoke_grant now grant db) = t_accounts db" "t_passkeys (revoke_grant now grant db) = t_passkeys db"
    by (simp_all add: revoke_grant_def)
  ultimately show ?thesis using assms(2) by (auto simp: revoke_connected_app_def run_tx_def others_kept_def split: if_splits)
qed

lemma end_others_kept:
  assumes "oauth_inv db"
  shows "others_kept a db (end_everything now a db)"
proof -
  have "filter (\<lambda>g. gr_account g \<noteq> a) (t_grants (end_everything now a db)) = filter (\<lambda>g. gr_account g \<noteq> a) (t_grants db)"
    unfolding end_everything_grants(2) [OF assms] by (intro filter_update_other) auto
  then show ?thesis using end_everything_grants(5,6) [OF assms, of now a] by (simp add: others_kept_def)
qed

text \<open>What a login from the account page does to the tables other than the sessions.\<close>

lemma account_login_frame:
  assumes "post_account_login si dw rq (db, p) = (r, db', p')"
  shows "p' = p \<and> t_accounts db' = t_accounts db \<and> t_passkeys db' = t_passkeys db \<and> t_grants db' = t_grants db"
proof -
  have r: "t_accounts (revoke_as_session env now t d) = t_accounts d" "t_passkeys (revoke_as_session env now t d) = t_passkeys d"
    "t_grants (revoke_as_session env now t d) = t_grants d" for env now t and d :: database
    by (simp_all add: revoke_as_session_def split: bool.splits jsval.splits)
  have s: "start_as_session env now rnd a acr d = (t, d') \<Longrightarrow>
      t_accounts d' = t_accounts d \<and> t_passkeys d' = t_passkeys d \<and> t_grants d' = t_grants d" for env now rnd a acr t and d d' :: database
    by (auto simp: start_as_session_def Let_def split: sum.splits if_splits)
  show ?thesis using assms
    by (auto simp: post_account_login_def Let_def r split: if_splits option.splits prod.splits sum.splits dest!: s)
qed

lemma change_password_cases:
  assumes "change_password si h dw account cur nxt (db, p) = (r, db', p')"
  obtains (unchanged) "isl r" "db' = db" "p' = p"
  | (changed) row a pw where "r = Inr ()" "find (\<lambda>q. acc_id q = account) (t_accounts db) = Some row"
      "fst (verify_credentials (en_hmac (si_env si)) (si_argon_verify si) (si_nfkc si) (en_keys (si_env si)) (si_decoy si)
         (JStr (acc_username row)) cur db) = Some a"
      "nxt = JStr pw" "password_min \<le> length pw" "length pw \<le> password_max"
      "(db', p') = sign_out_everywhere h (dw_now dw 2) account
         (db\<lparr>t_accounts := update_where (\<lambda>r. acc_id r = account)
             (\<lambda>r. r\<lparr>acc_password_hash := si_argon_hash si (dw_salt dw) (peppered (en_hmac (si_env si)) (en_keys (si_env si)) pw),
                    acc_pepper_version := fst (password_pepper (en_keys (si_env si)))\<rparr>) (t_accounts db)\<rparr>, p)"
proof (cases "isl r")
  case True
  with assms show ?thesis
    by (intro unchanged) (auto simp: change_password_def Let_def split: option.splits sum.splits)
next
  case False
  with assms show ?thesis
    by (auto simp: change_password_def Let_def get_account_def to_account_def validate_password_Inr hash_password_def
        split: option.splits sum.splits intro: changed)
qed

definition names_folded :: "(string \<Rightarrow> string) \<Rightarrow> database \<Rightarrow> bool" where
  "names_folded nfkc db \<longleftrightarrow> (\<forall>r \<in> set (t_accounts db). acc_normalized r = normalize_username nfkc (acc_username r))"

lemma create_account_names_folded:
  assumes "names_folded nfkc db" "create_account hmac argon_hash nfkc ks now rnd salt u pw db = (res, db')"
  shows "names_folded nfkc db'"
  using assms(2) by (cases rule: create_account_cases) (use assms(1) in \<open>auto simp: names_folded_def\<close>)

lemma account_named_row:
  assumes "wf_accounts db" "names_folded nfkc db" "row \<in> set (t_accounts db)"
  shows "account_named (normalize_username nfkc (acc_username row)) db = Some row"
  using assms find_key [of acc_normalized "t_accounts db"] by (auto simp: account_named_def wf_accounts_def names_folded_def)

lemma change_others_kept:
  assumes "oauth_inv db" "change_password si h dw a cur nxt (db, p) = (r, db', p')"
  shows "others_kept a db db'"
  using assms(2)
proof (cases rule: change_password_cases)
  case unchanged
  then show ?thesis by (simp add: others_kept_def)
next
  case (changed row b pw)
  let ?db1 = "db\<lparr>t_accounts := update_where (\<lambda>r. acc_id r = a)
      (\<lambda>r. r\<lparr>acc_password_hash := si_argon_hash si (dw_salt dw) (peppered (en_hmac (si_env si)) (en_keys (si_env si)) pw),
             acc_pepper_version := fst (password_pepper (en_keys (si_env si)))\<rparr>) (t_accounts db)\<rparr>"
  have "oauth_inv ?db1" using assms(1) by (simp add: oauth_inv_def keys_ok_def)
  then have "others_kept a ?db1 db'" using end_others_kept changed(7) by simp
  moreover have "others_kept a db ?db1" by (auto simp: others_kept_def intro!: filter_update_other)
  ultimately show ?thesis by (blast intro: others_kept_trans)
qed

lemma post_password_cases:
  assumes "post_password si h dw rq (db, p) = (r, db', p')"
  obtains (out) db1 where "db' = db1" "p' = p" "signed_in si (dw_now dw 0) rq db = (None, db1)"
  | (refused) who db1 where "db' = db1" "p' = p" "signed_in si (dw_now dw 0) rq db = (Some who, db1)"
  | (asked) who db1 r1 db2 where "signed_in si (dw_now dw 0) rq db = (Some who, db1)"
      "mac_matches (sg_csrf who) (jfield (wq_body rq) ''csrf'')" "recent_who who"
      "change_password si h dw (se_account (sg_session who)) (jfield (wq_body rq) ''currentPassword'')
         (jfield (wq_body rq) ''newPassword'') (db1, p) = (r1, db2, p')"
      "db' = (if isl r1 then db2 else snd (start_as_session (si_env si) (dw_now dw 3) (dw_session dw) (se_account (sg_session who)) ''pwd'' db2))"
proof -
  from assms show ?thesis unfolding post_password_def
  proof (cases rule: for_formE)
    case (out db1)
    then show ?thesis by (intro that(1)) simp_all
  next
    case (forged who db1)
    then show ?thesis by (intro that(2)) simp_all
  next
    case (form who db1)
    then show ?thesis
      by (cases "recent_who who") (auto split: sum.splits prod.splits if_splits intro: that(2) that(3) [of who db1])
  qed
qed

lemma start_session_others_kept: "start_as_session env now rnd b acr db = (x, db') \<Longrightarrow> others_kept a db db'"
  by (auto simp: start_as_session_def others_kept_def Let_def split: sum.splits if_splits)

lemma revoke_session_others_kept: "others_kept a db (revoke_as_session env now t db)"
  by (auto simp: revoke_as_session_def others_kept_def split: bool.splits jsval.splits)

lemma signed_in_others_kept: "signed_in si now rq db = (who, db1) \<Longrightarrow> others_kept a db db1"
  by (simp add: others_kept_frame signed_in_frame)

lemma signed_in_inv: "signed_in si now rq db = (who, db1) \<Longrightarrow> oauth_inv db \<Longrightarrow> oauth_inv db1"
  using signed_in_frame [of si now rq db who db1] by (intro oauth_inv_frame [of db db1]) (auto simp: oauth_inv_def keys_ok_def)

text \<open>The account pages act on the account of the session, and only for its own forms. Whatever is posted and whatever
  identifiers it names, the rows of every other account (its name and password, its passkeys, its grants) are as they were;
  and a request that does not carry the session's own form value changes nothing but how long that session may stay idle,
  the login itself aside, which changes no account, passkey or grant at all.\<close>

theorem account_pages_isolated:
  assumes "oauth_inv db" "run_account si h dw st rq (db, p) = (r, db', p')" "signed_in si (dw_now dw 0) rq db = (who, db1)"
  shows "(\<forall>s. who = Some s \<longrightarrow> others_kept (se_account (sg_session s)) db db')
    \<and> ((\<forall>s. who = Some s \<longrightarrow> \<not> mac_matches (sg_csrf s) (jfield (wq_body rq) ''csrf'')) \<and> st \<noteq> Post_account_login
        \<longrightarrow> (db', p') \<in> {(db, p), (db1, p)})
    \<and> (st = Post_account_login \<longrightarrow> p' = p \<and> t_accounts db' = t_accounts db \<and> t_passkeys db' = t_passkeys db \<and> t_grants db' = t_grants db)"
proof -
  note k = signed_in_others_kept [OF assms(3)] others_kept_trans [OF signed_in_others_kept [OF assms(3)]]
  note inv1 = signed_in_inv [OF assms(3,1)]
  let ?own = "(\<forall>s. who = Some s \<longrightarrow> others_kept (se_account (sg_session s)) db db')
      \<and> ((\<forall>s. who = Some s \<longrightarrow> \<not> mac_matches (sg_csrf s) (jfield (wq_body rq) ''csrf'')) \<longrightarrow> (db', p') \<in> {(db, p), (db1, p)})"
  have form: ?own
    if "for_form si dw rq (db, p) f = (r, db', p') \<or> for_passkey si dw rq extra (db, p) f = (r, db', p')"
      "\<And>s. f s (db1, p) = (r, db', p') \<Longrightarrow> others_kept (se_account (sg_session s)) db1 db'" for extra f
    using that(1)
  proof
    assume "for_form si dw rq (db, p) f = (r, db', p')"
    then show ?thesis by (cases rule: for_formE) (use assms(3) k that(2) in auto)
  next
    assume "for_passkey si dw rq extra (db, p) f = (r, db', p')"
    then show ?thesis by (cases rule: for_passkeyE) (use assms(3) k that(2) in auto)
  qed
  show ?thesis
  proof (cases st)
    case Post_account_login
    then have "p' = p \<and> t_accounts db' = t_accounts db \<and> t_passkeys db' = t_passkeys db \<and> t_grants db' = t_grants db"
      using account_login_frame assms(2) by simp
    then show ?thesis using Post_account_login by (simp add: others_kept_frame)
  next
    case Get_account_login
    then show ?thesis using assms(2) by auto
  next
    case Get_account
    then show ?thesis using assms(2,3) k by (auto simp: get_account_page_def split: option.splits)
  next
    case Get_apps
    then show ?thesis using assms(2,3) k by (auto simp: get_apps_def split: option.splits sum.splits)
  next
    case Post_account_logout
    have ?own
      by (rule form [OF disjI1 [OF assms(2) [unfolded Post_account_logout run_account.simps post_account_logout_def]]])
        (auto intro: revoke_session_others_kept)
    then show ?thesis using Post_account_logout by simp
  next
    case Post_registration_options
    have ?own
      by (rule form [OF disjI2 [OF assms(2) [unfolded Post_registration_options run_account.simps post_registration_options_def]]])
        (auto split: prod.splits sum.splits dest: options_others_kept)
    then show ?thesis using Post_registration_options by simp
  next
    case Post_registration
    have ?own
      by (rule form [OF disjI2 [OF assms(2) [unfolded Post_registration run_account.simps post_registration_def]]])
        (auto split: prod.splits sum.splits dest: register_others_kept)
    then show ?thesis using Post_registration by simp
  next
    case (Post_passkey_delete key)
    have ?own
      by (rule form [OF disjI1 [OF assms(2) [unfolded Post_passkey_delete run_account.simps post_passkey_delete_def]]])
        (auto intro: delete_others_kept)
    then show ?thesis using Post_passkey_delete by simp
  next
    case Post_password
    have ?own
      by (rule form [OF disjI1 [OF assms(2) [unfolded Post_password run_account.simps post_password_def]]])
        (auto split: prod.splits sum.splits if_splits dest!: change_others_kept [OF inv1] start_session_others_kept intro: others_kept_trans)
    then show ?thesis using Post_password by simp
  next
    case (Post_app_revoke grant)
    have ?own
      by (rule form [OF disjI1 [OF assms(2) [unfolded Post_app_revoke run_account.simps post_app_revoke_def]]])
        (auto split: prod.splits sum.splits dest: revoke_others_kept [OF inv1])
    then show ?thesis using Post_app_revoke by simp
  next
    case Post_sign_out_everywhere
    have ?own
      by (rule form [OF disjI1 [OF assms(2) [unfolded Post_sign_out_everywhere run_account.simps post_sign_out_everywhere_def]]])
        (auto intro: end_others_kept [OF inv1])
    then show ?thesis using Post_sign_out_everywhere by simp
  qed
qed

theorem account_pages_isolated_witness:
  "t_grants (fst (snd (run_account demo_deployment [] demo_draws Post_sign_out_everywhere demo_visit
       (demo_grants\<lparr>t_sessions := [demo_session_row]\<rparr>, ())))) = [demo_grant_row]"
proof -
  let ?db = "demo_grants\<lparr>t_sessions := [demo_session_row]\<rparr>"
  have inv: "oauth_inv ?db"
    using demo_grants_inv by (intro oauth_inv_frame [of demo_grants ?db]) (auto simp: oauth_inv_def keys_ok_def)
  obtain who db1 where s: "signed_in demo_deployment (dw_now demo_draws 0) demo_visit ?db = (who, db1)" by fastforce
  obtain r db' p' where run: "run_account demo_deployment [] demo_draws Post_sign_out_everywhere demo_visit (?db, ()) = (r, db', p')"
    by (metis surj_pair)
  have c: "\<not> mac_matches e (jfield (wq_body demo_visit) ''csrf'')" for e
    by (simp add: demo_visit_def mac_matches_def)
  have "db' = ?db \<or> db' = db1" using account_pages_isolated [OF inv run s] c by auto
  then have "t_grants db' = t_grants ?db" using signed_in_frame [OF s] by auto
  then show ?thesis unfolding run by (simp add: demo_grants_tables)
qed

section \<open>Passwords\<close>

lemma live_sessions_after:
  assumes "start_as_session env now rnd b acr (end_everything t a db) = (x, db')" "oauth_inv db"
  shows "length (filter (\<lambda>r. ss_account r = a \<and> ss_revoked_at r = None) (t_sessions db')) \<le> 1"
    and "t_accounts db' = t_accounts db" "t_grants db' = t_grants (end_everything t a db)"
proof -
  have "filter (\<lambda>r. ss_account r = a \<and> ss_revoked_at r = None) (t_sessions (end_everything t a db)) = []"
    unfolding end_everything_grants(3) [OF assms(2)] by (auto simp: filter_empty_conv ball_update_where in_update_where session_end_def)
  moreover have "t_sessions db' = t_sessions (end_everything t a db)
      \<or> (\<exists>r. t_sessions db' = t_sessions (end_everything t a db) @ [r])"
    "t_accounts db' = t_accounts (end_everything t a db)" "t_grants db' = t_grants (end_everything t a db)"
    using assms(1) by (auto simp: start_as_session_def Let_def split: sum.splits if_splits)
  ultimately show "length (filter (\<lambda>r. ss_account r = a \<and> ss_revoked_at r = None) (t_sessions db')) \<le> 1"
    "t_accounts db' = t_accounts db" "t_grants db' = t_grants (end_everything t a db)"
    using end_everything_grants(5) [OF assms(2)] by auto
qed

lemma new_password_only:
  assumes "argon_law (si_argon_hash si) (si_argon_verify si)" "hmac_injective (en_hmac (si_env si))"
    and "wf_accounts db" "names_folded (si_nfkc si) db" "row \<in> set (t_accounts db)"
    and "t_accounts db' = update_where (\<lambda>r. acc_id r = acc_id row)
          (\<lambda>r. r\<lparr>acc_password_hash := si_argon_hash si salt (peppered (en_hmac (si_env si)) (en_keys (si_env si)) pw),
                 acc_pepper_version := v\<rparr>) (t_accounts db)"
  shows "fst (verify_credentials (en_hmac (si_env si)) (si_argon_verify si) (si_nfkc si) (en_keys (si_env si)) (si_decoy si)
      (JStr (acc_username row)) (JStr q) db') = (if q = pw then Some (to_account row) else None)"
proof -
  let ?row = "row\<lparr>acc_password_hash := si_argon_hash si salt (peppered (en_hmac (si_env si)) (en_keys (si_env si)) pw), acc_pepper_version := v\<rparr>"
  have "wf_accounts db'" using assms(3) unfolding wf_accounts_def assms(6) by (simp add: map_update_where ball_update_where)
  moreover have "names_folded (si_nfkc si) db'" using assms(4) unfolding names_folded_def assms(6) by (simp add: ball_update_where)
  moreover have "?row \<in> set (t_accounts db')" unfolding assms(6) in_update_where using assms(5) by (intro bexI [of _ row]) simp_all
  ultimately have "account_named (normalize_username (si_nfkc si) (acc_username ?row)) db' = Some ?row" by (rule account_named_row)
  then show ?thesis using verify_password_made [OF assms(1,2)] by (auto simp: verify_credentials_def to_account_def)
qed

lemma signed_in_accounts: "signed_in si now rq db = (who, db1) \<Longrightarrow> t_accounts db1 = t_accounts db"
  by (simp add: signed_in_frame)

lemma form_frame:
  assumes "for_form si dw rq (db, p) f = (r, db', p') \<or> for_passkey si dw rq extra (db, p) f = (r, db', p')"
    and "\<And>s db1. signed_in si (dw_now dw 0) rq db = (Some s, db1) \<Longrightarrow> f s (db1, p) = (r, db', p') \<Longrightarrow> t_accounts db' = t_accounts db1"
  shows "t_accounts db' = t_accounts db"
  using assms(1)
proof
  assume "for_form si dw rq (db, p) f = (r, db', p')"
  then show ?thesis by (cases rule: for_formE) (use assms(2) in \<open>auto dest: signed_in_accounts\<close>)
next
  assume "for_passkey si dw rq extra (db, p) f = (r, db', p')"
  then show ?thesis by (cases rule: for_passkeyE) (use assms(2) in \<open>auto dest: signed_in_accounts\<close>)
qed

lemma accounts_kept:
  "finish_registration wa parse env now now2 a x n db = (y, db') \<Longrightarrow> t_accounts db' = t_accounts db"
  "registration_options wa parse env now ch a u db = (z, db') \<Longrightarrow> t_accounts db' = t_accounts db"
  "revoke_connected_app now a grant db = (b, db') \<Longrightarrow> t_accounts db' = t_accounts db"
  by (auto simp: finish_registration_def take_challenge_def registration_options_def store_challenge_def revoke_connected_app_def run_tx_def
      Let_def split: option.splits prod.splits sum.splits bool.splits if_splits)

lemma accounts_changed:
  assumes "oauth_inv db" "run_account si h dw st rq (db, p) = (r, db', p')" "t_accounts db' \<noteq> t_accounts db"
  shows "st = Post_password"
proof (rule ccontr)
  assume "st \<noteq> Post_password"
  then have "t_accounts db' = t_accounts db"
  proof (cases st)
    case Post_account_login
    then show ?thesis using account_login_frame [of si dw rq db p r db' p'] assms(2) by simp
  next
    case Get_account_login
    then show ?thesis using assms(2) by auto
  next
    case Get_account
    then show ?thesis using assms(2) by (auto simp: get_account_page_def split: option.splits prod.splits dest: signed_in_accounts)
  next
    case Get_apps
    then show ?thesis using assms(2) by (auto simp: get_apps_def split: option.splits sum.splits prod.splits dest: signed_in_accounts)
  next
    case Post_account_logout
    show ?thesis
      by (rule form_frame [OF disjI1 [OF assms(2) [unfolded Post_account_logout run_account.simps post_account_logout_def]]])
        (auto simp: revoke_as_session_def split: bool.splits jsval.splits)
  next
    case Post_registration_options
    show ?thesis
      by (rule form_frame [OF disjI2 [OF assms(2) [unfolded Post_registration_options run_account.simps post_registration_options_def]]])
        (auto split: prod.splits sum.splits dest: accounts_kept)
  next
    case Post_registration
    show ?thesis
      by (rule form_frame [OF disjI2 [OF assms(2) [unfolded Post_registration run_account.simps post_registration_def]]])
        (auto split: prod.splits sum.splits dest: accounts_kept)
  next
    case (Post_passkey_delete key)
    show ?thesis
      by (rule form_frame [OF disjI1 [OF assms(2) [unfolded Post_passkey_delete run_account.simps post_passkey_delete_def]]])
        (auto simp: delete_passkey_def Let_def)
  next
    case (Post_app_revoke grant)
    show ?thesis
      by (rule form_frame [OF disjI1 [OF assms(2) [unfolded Post_app_revoke run_account.simps post_app_revoke_def]]])
        (auto split: prod.splits sum.splits dest: accounts_kept)
  next
    case Post_sign_out_everywhere
    show ?thesis
      by (rule form_frame [OF disjI1 [OF assms(2) [unfolded Post_sign_out_everywhere run_account.simps post_sign_out_everywhere_def]]])
        (auto simp: end_everything_grants(5) [OF signed_in_inv [OF _ assms(1)]])
  qed simp
  then show False using assms(3) by blast
qed

text \<open>A password is changed by its owner only, and completely. If any step on the account pages changes an account, it is
  the password form, posted with its own value from a session that signed in within the last fifteen minutes, with the
  account's present password and an acceptable new one. From then on exactly the new password opens that account; every
  grant and every session it had is revoked, except at most one session that was just started; the listeners were told; and
  every other account is as it was.\<close>

theorem password_change_complete:
  assumes "argon_law (si_argon_hash si) (si_argon_verify si)" "hmac_injective (en_hmac (si_env si))"
    and "oauth_inv db" "wf_accounts db" "names_folded (si_nfkc si) db"
    and "run_account si h dw st rq (db, p) = (r, db', p')" "t_accounts db' \<noteq> t_accounts db"
  shows "\<exists>who row old pw. st = Post_password \<and> fst (signed_in si (dw_now dw 0) rq db) = Some who
    \<and> mac_matches (sg_csrf who) (jfield (wq_body rq) ''csrf'') \<and> se_auth_age (sg_session who) \<le> recent_sign_in_seconds
    \<and> row \<in> set (t_accounts db) \<and> acc_id row = se_account (sg_session who)
    \<and> jfield (wq_body rq) ''currentPassword'' = JStr old
    \<and> verify_password (en_hmac (si_env si)) (si_argon_verify si) (en_keys (si_env si)) (acc_password_hash row) old
    \<and> jfield (wq_body rq) ''newPassword'' = JStr pw \<and> password_min \<le> length pw \<and> length pw \<le> password_max
    \<and> (\<forall>q. fst (verify_credentials (en_hmac (si_env si)) (si_argon_verify si) (si_nfkc si) (en_keys (si_env si)) (si_decoy si)
          (JStr (acc_username row)) (JStr q) db') = (if q = pw then Some (to_account row) else None))
    \<and> (\<forall>g \<in> set (t_grants db'). gr_account g = acc_id row \<longrightarrow> gr_revoked_at g \<noteq> None)
    \<and> length (filter (\<lambda>r. ss_account r = acc_id row \<and> ss_revoked_at r = None) (t_sessions db')) \<le> 1
    \<and> p' = account_revoked (acc_id row) h p \<and> others_kept (acc_id row) db db'"
proof -
  have st: "st = Post_password" using assms(3,6,7) by (rule accounts_changed)
  obtain who db1 r1 db2 where who: "signed_in si (dw_now dw 0) rq db = (Some who, db1)"
    and csrf: "mac_matches (sg_csrf who) (jfield (wq_body rq) ''csrf'')" "recent_who who"
    and c: "change_password si h dw (se_account (sg_session who)) (jfield (wq_body rq) ''currentPassword'')
         (jfield (wq_body rq) ''newPassword'') (db1, p) = (r1, db2, p')"
    and db': "db' = (if isl r1 then db2 else snd (start_as_session (si_env si) (dw_now dw 3) (dw_session dw) (se_account (sg_session who)) ''pwd'' db2))"
    using assms(6) [unfolded st run_account.simps]
    by (cases rule: post_password_cases) (use assms(7) signed_in_accounts that in metis)+
  let ?a = "se_account (sg_session who)"
  have acc: "t_accounts db1 = t_accounts db" using signed_in_frame [OF who] by simp
  show ?thesis using c
  proof (cases rule: change_password_cases)
    case unchanged
    then show ?thesis using db' assms(7) acc by simp
  next
    case (changed row b pw)
    let ?D = "db1\<lparr>t_accounts := update_where (\<lambda>r. acc_id r = ?a)
        (\<lambda>r. r\<lparr>acc_password_hash := si_argon_hash si (dw_salt dw) (peppered (en_hmac (si_env si)) (en_keys (si_env si)) pw),
               acc_pepper_version := fst (password_pepper (en_keys (si_env si)))\<rparr>) (t_accounts db1)\<rparr>"
    have D: "oauth_inv ?D" using signed_in_inv [OF who assms(3)] by (simp add: oauth_inv_def keys_ok_def)
    have row: "row \<in> set (t_accounts db)" "acc_id row = ?a" using find_SomeD [OF changed(2)] by (simp_all add: acc)
    have "account_named (normalize_username (si_nfkc si) (acc_username row)) db1 = Some row"
      using account_named_row assms(4,5) row(1) by (simp add: wf_accounts_def names_folded_def account_named_def acc)
    then obtain old where old: "jfield (wq_body rq) ''currentPassword'' = JStr old"
      "verify_password (en_hmac (si_env si)) (si_argon_verify si) (en_keys (si_env si)) (acc_password_hash row) old"
      using changed(3) by (auto simp: verify_credentials_def split: option.splits if_splits)
    obtain x where x: "start_as_session (si_env si) (dw_now dw 3) (dw_session dw) ?a ''pwd'' (end_everything (dw_now dw 2) ?a ?D) = (x, db')"
      using db' changed(1,7) by (cases "start_as_session (si_env si) (dw_now dw 3) (dw_session dw) ?a ''pwd'' db2") auto
    note live = live_sessions_after [OF x D]
    have new: "fst (verify_credentials (en_hmac (si_env si)) (si_argon_verify si) (si_nfkc si) (en_keys (si_env si)) (si_decoy si)
        (JStr (acc_username row)) (JStr q) db') = (if q = pw then Some (to_account row) else None)" for q
      using new_password_only [OF assms(1,2,4,5) row(1), where db' = db' and salt = "dw_salt dw" and pw = pw
          and v = "fst (password_pepper (en_keys (si_env si)))" and q = q]
      by (simp add: live(2) row(2) acc)
    have grants: "\<forall>g \<in> set (t_grants db'). gr_account g = ?a \<longrightarrow> gr_revoked_at g \<noteq> None"
      unfolding live(3) end_everything_grants(2) [OF D] ball_update_where by auto
    have "others_kept ?a db2 db'" using x changed(7) start_session_others_kept by (metis fst_conv sign_out_everywhere_eq)
    then have others: "others_kept ?a db db'"
      using signed_in_others_kept [OF who] change_others_kept [OF signed_in_inv [OF who assms(3)] c] by (blast intro: others_kept_trans)
    show ?thesis
      using st who csrf row old changed(4-7) new grants live(1) others
      by (intro exI [of _ who] exI [of _ row] exI [of _ old] exI [of _ pw]) (auto simp: recent_who_def)
  qed
qed

definition demo_owner_site :: "unit site" where
  "demo_owner_site = demo_deployment\<lparr>si_argon_hash := (\<lambda>salt q. q), si_argon_verify := (\<lambda>e q. Some (e = q)), si_nfkc := (\<lambda>s. s)\<rparr>"

definition demo_owner_row :: account_row where
  "demo_owner_row = \<lparr>acc_id = ''ann'', acc_username = ''ann'', acc_normalized = ''ann'',
     acc_password_hash = peppered toy_hmac (en_keys demo_env) ''oldoldoldold'', acc_pepper_version = 1, acc_created_at = 0\<rparr>"

definition demo_owner_db :: database where
  "demo_owner_db = demo_account_db\<lparr>t_accounts := [demo_owner_row], t_sessions := [demo_session_row]\<rparr>"

definition demo_owner_form :: web_request where
  "demo_owner_form = demo_visit\<lparr>wq_body := JObj [(''csrf'', JStr (mac demo_env ''account-csrf'' [mint Session demo_rnd])),
     (''currentPassword'', JStr ''oldoldoldold''), (''newPassword'', JStr ''newnewnewnew'')]\<rparr>"

lemma demo_owner_simps [simp]:
  "si_env demo_owner_site = demo_env" "read_request_cookie demo_owner_site demo_owner_form As_session = JStr (mint Session demo_rnd)"
  "normalize_username (si_nfkc demo_owner_site) ''ann'' = ''ann''" "en_hmac demo_env = toy_hmac"
proof -
  have "read_request_cookie demo_owner_site demo_owner_form As_session = read_request_cookie demo_deployment demo_visit As_session"
    by (simp add: read_request_cookie_def demo_owner_site_def demo_owner_form_def)
  then show "read_request_cookie demo_owner_site demo_owner_form As_session = JStr (mint Session demo_rnd)" by simp
qed (simp_all add: demo_owner_site_def normalize_username_def trim_def is_ws_def demo_lower)

lemma demo_owner_signed_in:
  "\<exists>db1. signed_in demo_owner_site 5 demo_owner_form demo_owner_db
     = (Some \<lparr>sg_session = \<lparr>se_account = ''ann'', se_auth_time = 0, se_auth_age = 0, se_acr = ''pwd''\<rparr>, sg_token = mint Session demo_rnd,
          sg_username = ''ann'', sg_csrf = mac demo_env ''account-csrf'' [mint Session demo_rnd]\<rparr>, db1)"
  by (simp add: signed_in_def read_as_session_def demo_owner_db_def session_live_def demo_session_row_def demo_digest to_ms_def
      epoch_int_def demo_wf str_of_def get_account_def to_account_def demo_owner_row_def)

lemma demo_owner_changed:
  "\<exists>r db' p'. run_account demo_owner_site [] demo_draws Post_password demo_owner_form (demo_owner_db, ()) = (r, db', p')
     \<and> t_accounts db' \<noteq> t_accounts demo_owner_db"
proof -
  obtain db1 where s: "signed_in demo_owner_site 5 demo_owner_form demo_owner_db
     = (Some \<lparr>sg_session = \<lparr>se_account = ''ann'', se_auth_time = 0, se_auth_age = 0, se_acr = ''pwd''\<rparr>, sg_token = mint Session demo_rnd,
          sg_username = ''ann'', sg_csrf = mac demo_env ''account-csrf'' [mint Session demo_rnd]\<rparr>, db1)"
    using demo_owner_signed_in by blast
  have acc: "t_accounts db1 = [demo_owner_row]" "t_grants db1 = []"
    using signed_in_frame [OF s] by (simp_all add: demo_owner_db_def demo_account_db_def empty_db_def)
  define row where "row = demo_owner_row\<lparr>acc_password_hash := peppered toy_hmac (en_keys demo_env) ''newnewnewnew'',
    acc_pepper_version := fst (password_pepper (en_keys demo_env))\<rparr>"
  have w: "\<exists>db2 p2. change_password demo_owner_site [] demo_draws ''ann'' (JStr ''oldoldoldold'') (JStr ''newnewnewnew'') (db1, ())
      = (Inr (), db2, p2) \<and> t_accounts db2 = [row]"
    using acc
    by (simp add: change_password_def get_account_def to_account_def demo_owner_row_def verify_credentials_def account_named_def
        verify_password_def demo_owner_site_def validate_password_def hash_password_def end_everything_def live_grants_def
        revoke_all_as_sessions_def update_where_def row_def Let_def normalize_username_def trim_def is_ws_def demo_lower)
  then obtain db2 p2 where c: "change_password demo_owner_site [] demo_draws ''ann'' (JStr ''oldoldoldold'') (JStr ''newnewnewnew'') (db1, ())
      = (Inr (), db2, p2)" "t_accounts db2 = [row]" by blast
  have "acc_password_hash row \<noteq> acc_password_hash demo_owner_row"
    using base64_inj toy_hmac_injective by (auto simp: row_def demo_owner_row_def peppered_def dest!: base64_inj hmac_injectiveD)
  moreover obtain x db3 where x: "start_as_session demo_env 5 ''s'' ''ann'' ''pwd'' db2 = (x, db3)" by fastforce
  moreover have "t_accounts db3 = t_accounts db2"
    using x by (auto simp: start_as_session_def Let_def split: sum.splits if_splits)
  moreover have "jfield (wq_body demo_owner_form) ''csrf'' = JStr (mac demo_env ''account-csrf'' [mint Session demo_rnd])"
    "jfield (wq_body demo_owner_form) ''currentPassword'' = JStr ''oldoldoldold''"
    "jfield (wq_body demo_owner_form) ''newPassword'' = JStr ''newnewnewnew''" "dw_session demo_draws = ''s''"
    "t_accounts demo_owner_db = [demo_owner_row]"
    by (simp_all add: demo_owner_form_def demo_draws_def demo_owner_db_def)
  ultimately show ?thesis using c(2) s
    by (cases x) (auto simp: post_password_def for_form_def recent_who_def mac_matches_def c(1))
qed

theorem password_change_complete_witness:
  "\<exists>r db' p'. run_account demo_owner_site [] demo_draws Post_password demo_owner_form (demo_owner_db, ()) = (r, db', p')
     \<and> fst (verify_credentials toy_hmac (\<lambda>e q. Some (e = q)) (\<lambda>s. s) demo_keys \<lparr>ph_encoded = [], ph_pepper_version = 0\<rparr>
          (JStr ''ann'') (JStr ''newnewnewnew'') db') \<noteq> None
     \<and> fst (verify_credentials toy_hmac (\<lambda>e q. Some (e = q)) (\<lambda>s. s) demo_keys \<lparr>ph_encoded = [], ph_pepper_version = 0\<rparr>
          (JStr ''ann'') (JStr ''oldoldoldold'') db') = None"
proof -
  obtain r db' p' where run: "run_account demo_owner_site [] demo_draws Post_password demo_owner_form (demo_owner_db, ()) = (r, db', p')"
    and c: "t_accounts db' \<noteq> t_accounts demo_owner_db" using demo_owner_changed by blast
  have h: "argon_law (si_argon_hash demo_owner_site) (si_argon_verify demo_owner_site)" "hmac_injective (en_hmac (si_env demo_owner_site))"
    "oauth_inv demo_owner_db" "wf_accounts demo_owner_db" "names_folded (si_nfkc demo_owner_site) demo_owner_db"
    using toy_hmac_injective
    by (simp_all add: argon_law_def demo_owner_site_def oauth_inv_def keys_ok_def demo_owner_db_def demo_account_db_def empty_db_def
        wf_accounts_def names_folded_def demo_owner_row_def username_pattern_def username_char_def is_alnum_def normalize_username_def
        trim_def is_ws_def demo_lower)
  obtain row :: account_row and pw where row: "row \<in> set (t_accounts demo_owner_db)" "jfield (wq_body demo_owner_form) ''newPassword'' = JStr pw"
    and v: "\<And>q. fst (verify_credentials (en_hmac (si_env demo_owner_site)) (si_argon_verify demo_owner_site) (si_nfkc demo_owner_site)
          (en_keys (si_env demo_owner_site)) (si_decoy demo_owner_site) (JStr (acc_username row)) (JStr q) db')
        = (if q = pw then Some (to_account row) else None)"
    using password_change_complete [OF h run c] by blast
  have "pw = ''newnewnewnew''" "acc_username row = ''ann''"
    using row by (simp_all add: demo_owner_form_def demo_owner_db_def demo_owner_row_def)
  then show ?thesis using run v [of "''newnewnewnew''"] v [of "''oldoldoldold''"]
    by (simp add: demo_owner_site_def demo_deployment_def)
qed

section \<open>What the pages show\<close>

text \<open>The list of connected applications is the account's live grants, all of them, the last active first.\<close>

lemma sum_list_of_Inr: "sum_list_of xs = Inr ys \<Longrightarrow> map Inr ys = xs"
  by (induction xs arbitrary: ys rule: sum_list_of.induct) (auto split: sum.splits)

lemma describe_app_grant: "describe_app parse known db g = Inr a \<Longrightarrow> ca_grant a = gr_id g"
  by (auto simp: describe_app_def connected_app_of_def Let_def split: if_splits option.splits sum.splits)

lemma connected_apps_complete:
  assumes "list_connected_apps parse known account db = Inr apps"
  shows "map ca_grant apps = map gr_id (sort_key (\<lambda>g. - last_activity g) (live_grants account db))"
proof -
  let ?gs = "sort_key (\<lambda>g. - last_activity g) (live_grants account db)"
  have e: "map Inr apps = map (describe_app parse known db) ?gs"
    using sum_list_of_Inr assms unfolding list_connected_apps_def by blast
  then have "length apps = length ?gs" by (metis length_map)
  moreover have "ca_grant (apps ! i) = gr_id (?gs ! i)" if "i < length apps" for i
    using arg_cong [OF e, of "\<lambda>xs. xs ! i"] that calculation by (auto dest: describe_app_grant [OF sym])
  ultimately show ?thesis by (auto intro: nth_equalityI)
qed

text \<open>A notice key that names a member every object inherits makes the page fail where an unknown key shows no notice.\<close>

lemma inherited_notice_throws:
  assumes "jfield (wq_query rq) ''done'' = JStr ''constructor''"
  shows "fst (run_account si h dw Get_account_login rq st) = Inl (OtherError ''TypeError'')"
  using assms by (simp add: render_account_login_def notice_from_def notices_def object_members_def show_notice_def split: prod.split)

end
