(* ===== verification/OAuth_Routes.thy ===== *)
theory OAuth_Routes
  imports Account_Pages Token_Endpoint Rest_Api
begin

text \<open>
  \<open>server/src/oauth/routes.ts\<close>, \<open>server/src/oauth/metadata.ts\<close> and \<open>server/src/oauth/jwks.ts\<close>: the authorization server
  as one handler, with its rate limits, the discovery documents, registration and revocation, and every route of the
  authorization flow, the token endpoint and the account pages. A request without a route goes on to whatever is mounted
  next (\<^const>\<open>None\<close>).
\<close>

section \<open>Discovery\<close>

definition json_strings :: "string list \<Rightarrow> jsval" where
  "json_strings ss = JArr (map JStr ss)"

definition protected_resource_metadata :: "env \<Rightarrow> jsval" where
  "protected_resource_metadata env = JObj
     [(''resource'', JStr (resource_uri env)), (''authorization_servers'', json_strings [en_auth_base env]),
      (''scopes_supported'', json_strings scopes_supported), (''bearer_methods_supported'', json_strings [''header'']),
      (''dpop_signing_alg_values_supported'', json_strings dpop_algorithms), (''dpop_bound_access_tokens_required'', JBool False)]"

definition authorization_server_metadata :: "env \<Rightarrow> jsval" where
  "authorization_server_metadata env = (let issuer = en_auth_base env in JObj
     [(''issuer'', JStr issuer), (''authorization_endpoint'', JStr (issuer @ ''/authorize'')),
      (''token_endpoint'', JStr (issuer @ ''/token'')), (''revocation_endpoint'', JStr (issuer @ ''/revoke'')),
      (''pushed_authorization_request_endpoint'', JStr (issuer @ ''/par'')), (''jwks_uri'', JStr (issuer @ ''/.well-known/jwks.json'')),
      (''registration_endpoint'', JStr (issuer @ ''/register'')), (''scopes_supported'', json_strings scopes_supported),
      (''response_types_supported'', json_strings [''code'']), (''response_modes_supported'', json_strings [''query'']),
      (''grant_types_supported'', json_strings [''authorization_code'', ''refresh_token'']),
      (''code_challenge_methods_supported'', json_strings [''S256'']),
      (''token_endpoint_auth_methods_supported'', json_strings [''none'']), (''client_id_metadata_document_supported'', JBool True),
      (''authorization_response_iss_parameter_supported'', JBool True),
      (''dpop_signing_alg_values_supported'', json_strings dpop_algorithms),
      (''revocation_endpoint_auth_methods_supported'', json_strings [''none''])])"

text \<open>A signing key as it is published: its thumbprint and the members of its public JWK.\<close>

type_synonym published_key = "string \<times> (string \<times> jsval) list"

definition public_jwks :: "published_key list \<Rightarrow> jsval" where
  "public_jwks ks = JObj [(''keys'', JArr (map (\<lambda>(kid, jwk).
     JObj (jwk @ [(''kid'', JStr kid), (''use'', JStr ''sig''), (''alg'', JStr ''ES256'')])) ks))]"

definition jwks_reply :: "published_key list \<Rightarrow> web_reply" where
  "jwks_reply ks = web_json 200 [(''Cache-Control'', ''public, max-age=600'')] (public_jwks ks)"

section \<open>The whole server\<close>

record ('s, 'm, 'r) auth_site =
  ax_site :: "'s site"
  ax_tokens :: "('m, 'r) token_infra"
  ax_keys :: "published_key list"
  ax_views :: nat

text \<open>The limiter \<open>si_attempts\<close> of the credential routes is that of the passkey routes; \<open>ax_views\<close> is AUTHORIZE_VIEW_RATE_LIMIT_PER_MINUTE.\<close>

record ('s, 'm, 'r, 'p) auth_state =
  ay_web :: "'s web_state"
  ay_sealed :: 'm
  ay_replay :: 'r
  ay_process :: 'p

record auth_request =
  aq_method :: string
  aq_path :: string
  aq_dpop :: "string option"
  aq_web :: web_request

record auth_draws =
  ad_web :: draws
  ad_token :: token_draw
  ad_client :: string

type_synonym ('s, 'm, 'r, 'p) auth_handled = "(error \<times> headers + web_reply) \<times> ('s, 'm, 'r, 'p) auth_state"

section \<open>Registration and revocation\<close>

fun registration_code :: "registration_error \<Rightarrow> string" where
  "registration_code Registration_closed = ''registration_closed''"
| "registration_code Invalid_redirect_uri = ''invalid_redirect_uri''"
| "registration_code Invalid_client_metadata = ''invalid_client_metadata''"

fun registration_text :: "registration_error \<Rightarrow> string" where
  "registration_text Registration_closed = ''This server is not accepting new client registrations.''"
| "registration_text Invalid_redirect_uri =
     ''Every redirect_uri must be acceptable for the application_type, and at least one is required.''"
| "registration_text Invalid_client_metadata = ''application_type must be \"web\" or \"native\".''"

definition registration_reply :: "registration_outcome \<Rightarrow> web_reply" where
  "registration_reply out =
     (case out of
        Not_registered e \<Rightarrow> no_store_json 400
          [(''error'', JStr (registration_code e)), (''error_description'', JStr (registration_text e))]
      | Registered c \<Rightarrow> no_store_json 201
          ([(''client_id'', JStr (rg_id c))]
           @ (case truthy (rg_name c) of None \<Rightarrow> [] | Some n \<Rightarrow> [(''client_name'', JStr n)])
           @ [(''redirect_uris'', json_strings (rg_redirect_uris c)), (''application_type'', JStr (type_str (rg_type c))),
              (''token_endpoint_auth_method'', JStr ''none''),
              (''grant_types'', json_strings [''authorization_code'', ''refresh_token'']),
              (''response_types'', json_strings [''code''])]))"

definition post_register :: "'s site \<Rightarrow> draws \<Rightarrow> string \<Rightarrow> web_request \<Rightarrow> database \<Rightarrow> (error + web_reply) \<times> database" where
  "post_register si dw rnd rq db =
     (case register_client (si_parse si) (dw_now dw 0) (dw_now dw 1) rnd
             \<lparr>cg_redirect_uris = jfield (wq_body rq) ''redirect_uris'', cg_name = jfield (wq_body rq) ''client_name'',
              cg_type = jfield (wq_body rq) ''application_type''\<rparr> db of
        (Inl e, db') \<Rightarrow> (Inl e, db')
      | (Inr out, db') \<Rightarrow> (Inr (registration_reply out), db'))"

definition post_revoke :: "env \<Rightarrow> draws \<Rightarrow> web_request \<Rightarrow> database \<Rightarrow> web_reply \<times> database" where
  "post_revoke env dw rq db =
     (\<lparr>wp_status = 200, wp_headers = [(''Cache-Control'', ''no-store'')], wp_cookies = [], wp_body = Empty_body\<rparr>,
      case as_str (jfield (wq_body rq) ''token'') of
        None \<Rightarrow> db
      | Some t \<Rightarrow>
          if length t = 0 then db
          else if jfield (wq_body rq) ''token_type_hint'' = JStr ''access_token'' then revoke_by_access env (dw_now dw 0) t db
          else if jfield (wq_body rq) ''token_type_hint'' = JStr ''refresh_token'' then revoke_by_refresh env (dw_now dw 0) t db
          else revoke_by_access env (dw_now dw 1) t (revoke_by_refresh env (dw_now dw 0) t db))"

section \<open>Routing\<close>

datatype auth_route =
    Server_metadata | Openid_configuration | Jwks
  | Flow flow_step | Token_exchange | Account account_step | Register_client | Revoke_token

text \<open>The routes without a parameter, by method and path.\<close>

definition plain_routes :: "((string \<times> string) \<times> auth_route) list" where
  "plain_routes =
     [((''GET'', ''/.well-known/oauth-authorization-server''), Server_metadata),
      ((''GET'', ''/.well-known/openid-configuration''), Openid_configuration), ((''GET'', ''/.well-known/jwks.json''), Jwks),
      ((''GET'', ''/authorize''), Flow Get_authorize), ((''POST'', ''/par''), Flow Post_par), ((''GET'', ''/login''), Flow Get_login),
      ((''POST'', ''/login''), Flow Post_login), ((''GET'', ''/consent''), Flow Get_consent), ((''POST'', ''/consent''), Flow Post_consent),
      ((''POST'', ''/passkey/options''), Flow Post_passkey_options), ((''POST'', ''/passkey/login''), Flow Post_passkey_login),
      ((''POST'', ''/consent/deny''), Flow Post_deny), ((''POST'', ''/authorize/cancel''), Flow Post_deny),
      ((''POST'', ''/logout''), Flow Post_logout), ((''POST'', ''/token''), Token_exchange),
      ((''GET'', ''/account/login''), Account Get_account_login), ((''POST'', ''/account/login''), Account Post_account_login),
      ((''POST'', ''/account/logout''), Account Post_account_logout), ((''GET'', ''/account''), Account Get_account),
      ((''POST'', ''/account/passkeys/options''), Account Post_registration_options),
      ((''POST'', ''/account/passkeys''), Account Post_registration), ((''POST'', ''/account/password''), Account Post_password),
      ((''GET'', ''/account/apps''), Account Get_apps),
      ((''POST'', ''/account/signout-everywhere''), Account Post_sign_out_everywhere),
      ((''POST'', ''/register''), Register_client), ((''POST'', ''/revoke''), Revoke_token)]"

text \<open>
  As in \<^const>\<open>route_of\<close>, the case of a path and a slash at its end do not matter. A parameter (\<open>:id\<close>, \<open>:grant\<close>) is taken as it
  is, without percent-decoding.
\<close>

definition plain_path :: "string \<Rightarrow> string" where
  "plain_path path = join_with ''/'' (map to_lower (path_parts path))"

definition auth_route_of :: "string \<Rightarrow> string \<Rightarrow> auth_route option" where
  "auth_route_of verb path =
     (case map_of plain_routes (verb, plain_path path) of
        Some r \<Rightarrow> Some r
      | None \<Rightarrow>
          (let ps = path_parts path; ls = map to_lower ps in
           if verb = ''POST'' \<and> length ls = 5 \<and> take 3 ls = ['''', ''account'', ''passkeys''] \<and> ls ! 4 = ''delete'' \<and> ps ! 3 \<noteq> []
           then Some (Account (Post_passkey_delete (ps ! 3)))
           else if verb = ''POST'' \<and> length ls = 5 \<and> take 3 ls = ['''', ''account'', ''apps''] \<and> ls ! 4 = ''revoke'' \<and> ps ! 3 \<noteq> []
           then Some (Account (Post_app_revoke (ps ! 3)))
           else None))"

section \<open>Rate limits\<close>

definition ip_or_unknown :: "web_request \<Rightarrow> string" where
  "ip_or_unknown rq = (case wq_ip rq of Some ip \<Rightarrow> ip | None \<Rightarrow> ''unknown'')"

text \<open>The limit of a request and the key it is counted under: a credential route by address and path as it was sent.\<close>

definition limiter_of :: "nat \<Rightarrow> nat \<Rightarrow> auth_route \<Rightarrow> auth_request \<Rightarrow> (nat \<times> string) option" where
  "limiter_of attempts views r rq =
     (let ip = ip_or_unknown (aq_web rq) in
      if r \<in> {Flow Post_login, Register_client, Account Post_account_login} then Some (attempts, ip @ '':'' @ aq_path rq)
      else if r = Flow Get_authorize then Some (views, ''authorize-view:'' @ ip)
      else if r = Flow Post_par then Some (views, ''par:'' @ ip)
      else None)"

definition limited :: "('s, 'm, 'r) auth_site \<Rightarrow> auth_draws \<Rightarrow> auth_route \<Rightarrow> auth_request \<Rightarrow> 's \<Rightarrow> (error \<times> headers + unit) \<times> 's" where
  "limited ax ad r rq s =
     (case limiter_of (si_attempts (ax_site ax)) (ax_views ax) r rq of
        None \<Rightarrow> (Inr (), s)
      | Some (limit, key) \<Rightarrow>
          (case rate_limit (rs_hit (si_resolver (ax_site ax))) limit 60000 (dw_now_ms (ad_web ad)) (dw_now_ms (ad_web ad)) key s of
             (Inl (e, n), s') \<Rightarrow> (Inl (e, [(''retry-after'', int_str n)]), s')
           | (Inr _, s') \<Rightarrow> (Inr (), s')))"

section \<open>Dispatch\<close>

definition without_headers :: "error + web_reply \<Rightarrow> error \<times> headers + web_reply" where
  "without_headers r = (case r of Inl e \<Rightarrow> Inl (e, []) | Inr w \<Rightarrow> Inr w)"

definition with_db :: "('s, 'm, 'r, 'p) auth_state \<Rightarrow> database \<Rightarrow> ('s, 'm, 'r, 'p) auth_state" where
  "with_db y db = y\<lparr>ay_web := (ay_web y)\<lparr>ws_db := db\<rparr>\<rparr>"

definition run_token :: "('s, 'm, 'r) auth_site \<Rightarrow> auth_draws \<Rightarrow> auth_request \<Rightarrow> ('s, 'm, 'r, 'p) auth_state \<Rightarrow> ('s, 'm, 'r, 'p) auth_handled" where
  "run_token ax ad rq y =
     (case token_route (si_env (ax_site ax)) (ax_tokens ax) (ad_token ad) \<lparr>tq_body = wq_body (aq_web rq), tq_dpop = aq_dpop rq\<rparr>
             \<lparr>tk_db = ws_db (ay_web y), tk_sealed = ay_sealed y, tk_replay = ay_replay y\<rparr> of
        (res, st) \<Rightarrow>
          (case res of Inl e \<Rightarrow> Inl (e, []) | Inr r \<Rightarrow> Inr (web_json (rp_status r) (rp_headers r) (rp_body r)),
           (with_db y (tk_db st))\<lparr>ay_sealed := tk_sealed st, ay_replay := tk_replay st\<rparr>))"

fun run_auth_route :: "('s, 'm, 'r) auth_site \<Rightarrow> 'p hub \<Rightarrow> auth_draws \<Rightarrow> auth_route \<Rightarrow> auth_request
    \<Rightarrow> ('s, 'm, 'r, 'p) auth_state \<Rightarrow> ('s, 'm, 'r, 'p) auth_handled" where
  "run_auth_route ax h ad Server_metadata rq y = (Inr (web_json 200 [] (authorization_server_metadata (si_env (ax_site ax)))), y)"
| "run_auth_route ax h ad Openid_configuration rq y = (Inr (redirect 308 ''/.well-known/oauth-authorization-server'' []), y)"
| "run_auth_route ax h ad Jwks rq y = (Inr (jwks_reply (ax_keys ax)), y)"
| "run_auth_route ax h ad (Flow st) rq y =
     (case run_step (ax_site ax) (ad_web ad) st (aq_web rq) (ay_web y) of (r, w) \<Rightarrow> (without_headers r, y\<lparr>ay_web := w\<rparr>))"
| "run_auth_route ax h ad Token_exchange rq y = run_token ax ad rq y"
| "run_auth_route ax h ad (Account st) rq y =
     (case run_account (ax_site ax) h (ad_web ad) st (aq_web rq) (ws_db (ay_web y), ay_process y) of
        (r, db, p) \<Rightarrow> (without_headers r, (with_db y db)\<lparr>ay_process := p\<rparr>))"
| "run_auth_route ax h ad Register_client rq y =
     (case post_register (ax_site ax) (ad_web ad) (ad_client ad) (aq_web rq) (ws_db (ay_web y)) of
        (r, db) \<Rightarrow> (without_headers r, with_db y db))"
| "run_auth_route ax h ad Revoke_token rq y =
     (case post_revoke (si_env (ax_site ax)) (ad_web ad) (aq_web rq) (ws_db (ay_web y)) of (r, db) \<Rightarrow> (Inr r, with_db y db))"

text \<open>\<open>oauthRoutes\<close>: the limiter of the route, if it has one, then its handler.\<close>

definition oauth_routes :: "('s, 'm, 'r) auth_site \<Rightarrow> 'p hub \<Rightarrow> auth_draws \<Rightarrow> auth_request \<Rightarrow> ('s, 'm, 'r, 'p) auth_state
    \<Rightarrow> (error \<times> headers + web_reply) option \<times> ('s, 'm, 'r, 'p) auth_state" where
  "oauth_routes ax h ad rq y =
     (case auth_route_of (aq_method rq) (aq_path rq) of
        None \<Rightarrow> (None, y)
      | Some r \<Rightarrow>
          (case limited ax ad r rq (ws_buckets (ay_web y)) of
             (Inl e, s) \<Rightarrow> (Some (Inl e), y\<lparr>ay_web := (ay_web y)\<lparr>ws_buckets := s\<rparr>\<rparr>)
           | (Inr _, s) \<Rightarrow> (case run_auth_route ax h ad r rq (y\<lparr>ay_web := (ay_web y)\<lparr>ws_buckets := s\<rparr>\<rparr>) of (r, y') \<Rightarrow> (Some r, y'))))"

end
