(* ===== verification/Route_Theorems.thy ===== *)
theory Route_Theorems
  imports OAuth_Routes Account_Theorems Authorize_Theorems
begin

text \<open>
  What the authorization server as a whole promises: revocation through its endpoint is complete and exact, and guesses of
  a password are limited for each address.
\<close>

section \<open>Revocation\<close>

text \<open>The grant a token names under a hint: a refresh token unless the hint rules it out, an access token unless the hint does.\<close>

definition refresh_named :: "env \<Rightarrow> jsval \<Rightarrow> string \<Rightarrow> database \<Rightarrow> string option" where
  "refresh_named env hint t db =
     (if hint \<noteq> JStr ''access_token'' \<and> well_formed_str Refresh t
      then map_option (\<lambda>(r, g). rt_grant r) (refresh_join env t db) else None)"

definition access_named :: "env \<Rightarrow> jsval \<Rightarrow> string \<Rightarrow> database \<Rightarrow> string option" where
  "access_named env hint t db =
     (if hint \<noteq> JStr ''refresh_token'' \<and> well_formed_str Access t
      then map_option at_grant (find (\<lambda>a. at_hash a \<in> set (digests env t)) (t_access db)) else None)"

definition token_named :: "env \<Rightarrow> jsval \<Rightarrow> string \<Rightarrow> database \<Rightarrow> string option" where
  "token_named env hint t db =
     (case refresh_named env hint t db of Some g \<Rightarrow> Some g | None \<Rightarrow> access_named env hint t db)"

lemma one_kind: "well_formed_str Access t \<Longrightarrow> \<not> well_formed_str Refresh t"
  by (auto simp: well_formed_str_def starts_with_def Let_def split: if_splits)

lemma revoke_by_refresh_named:
  "hint \<noteq> JStr ''access_token'' \<Longrightarrow> revoke_by_refresh env now t db
     = (case refresh_named env hint t db of None \<Rightarrow> db | Some g \<Rightarrow> revoke_grant_now now g db)"
  by (auto simp: revoke_by_refresh_def read_refresh_def refresh_named_def split: option.splits)

lemma revoke_by_access_named:
  assumes "\<forall>a \<in> set (t_access db). at_grant a \<noteq> []" "hint \<noteq> JStr ''refresh_token''"
  shows "revoke_by_access env now t db = (case access_named env hint t db of None \<Rightarrow> db | Some g \<Rightarrow> revoke_grant_now now g db)"
  using assms by (auto simp: revoke_by_access_def access_named_def split: option.splits dest: find_SomeD)

text \<open>The identifiers of grants are not empty; every grant is made with a prefix.\<close>

definition named_grants :: "database \<Rightarrow> bool" where
  "named_grants db \<longleftrightarrow> (\<forall>a \<in> set (t_access db). at_grant a \<noteq> [])"

lemma access_named_kind: "access_named env hint t db \<noteq> None \<Longrightarrow> well_formed_str Access t"
  by (auto simp: access_named_def split: if_splits)

lemma revoke_effect:
  assumes "named_grants db" "jfield (wq_body rq) ''token'' = JStr t" "t \<noteq> []"
  shows "\<exists>now. snd (post_revoke env dw rq db)
    = (case token_named env (jfield (wq_body rq) ''token_type_hint'') t db of None \<Rightarrow> db | Some g \<Rightarrow> revoke_grant_now now g db)"
proof -
  let ?h = "jfield (wq_body rq) ''token_type_hint''"
  have g: "\<forall>a \<in> set (t_access db). at_grant a \<noteq> []" using assms(1) by (simp add: named_grants_def)
  consider "?h = JStr ''access_token''" | "?h = JStr ''refresh_token''" | "?h \<noteq> JStr ''access_token''" "?h \<noteq> JStr ''refresh_token''" by blast
  then show ?thesis
  proof cases
    case 1
    then have "refresh_named env ?h t db = None" by (simp add: refresh_named_def)
    with 1 assms(2,3) revoke_by_access_named [OF g, of ?h] show ?thesis
      by (auto simp: post_revoke_def token_named_def split: option.splits)
  next
    case 2
    then have "access_named env ?h t db = None" by (simp add: access_named_def)
    with 2 assms(2,3) revoke_by_refresh_named [of ?h] show ?thesis
      by (auto simp: post_revoke_def token_named_def split: option.splits)
  next
    case 3
    show ?thesis
    proof (cases "refresh_named env ?h t db")
      case None
      with 3 assms(2,3) revoke_by_access_named [OF g, of ?h] revoke_by_refresh_named [of ?h] show ?thesis
        by (auto simp: post_revoke_def token_named_def split: option.splits)
    next
      case (Some gr)
      then have "\<not> well_formed_str Access t" using one_kind by (auto simp: refresh_named_def split: if_splits)
      with Some 3 assms(2,3) revoke_by_refresh_named [of ?h] show ?thesis
        by (auto simp: post_revoke_def token_named_def revoke_by_access_def)
    qed
  qed
qed

lemma named_grant_exists:
  assumes "oauth_inv db" "token_named env hint t db = Some g"
  obtains q where "q \<in> set (t_grants db)" "gr_id q = g"
proof -
  consider r q where "refresh_join env t db = Some (r, q)" "g = rt_grant r"
    | a where "a \<in> set (t_access db)" "g = at_grant a"
    using assms(2) by (auto simp: token_named_def refresh_named_def access_named_def split: option.splits if_splits dest: find_SomeD)
  then show ?thesis
  proof cases
    case 1
    with refresh_join_Some [OF 1(1)] that show ?thesis by auto
  next
    case 2
    with assms(1) that show ?thesis by (force simp: oauth_inv_def access_of_def)
  qed
qed

text \<open>The revocation endpoint answers 200 with an empty body whatever it is given. A token that names a grant (as the
  hint says, or either way without a usable one) ends that grant for good: whatever is done afterwards no token of it
  verifies. The other grants and their tokens are as they were, and a token that names none changes nothing.\<close>

theorem revocation_endpoint:
  assumes "oauth_inv db" "named_grants db" "post_revoke env dw rq db = (r, db')"
    and "jfield (wq_body rq) ''token'' = JStr t" "t \<noteq> []"
  shows "wp_status r = 200 \<and> wp_body r = Empty_body
    \<and> (case token_named env (jfield (wq_body rq) ''token_type_hint'') t db of
         None \<Rightarrow> db' = db
       | Some g \<Rightarrow>
           (\<forall>xs ck token required audience touched v.
              fst (verify_access env ck token required audience (touched, run_store env xs db')) = Token_ok v \<longrightarrow> ve_grant v \<noteq> g)
           \<and> filter (\<lambda>q. gr_id q \<noteq> g) (t_grants db') = filter (\<lambda>q. gr_id q \<noteq> g) (t_grants db)
           \<and> t_access db' = filter (\<lambda>a. at_grant a \<noteq> g) (t_access db)
           \<and> filter (\<lambda>q. rt_grant q \<noteq> g) (t_refresh db') = filter (\<lambda>q. rt_grant q \<noteq> g) (t_refresh db))"
proof -
  have r: "wp_status r = 200" "wp_body r = Empty_body" using assms(3) by (auto simp: post_revoke_def)
  obtain now where d: "db' = (case token_named env (jfield (wq_body rq) ''token_type_hint'') t db of
      None \<Rightarrow> db | Some g \<Rightarrow> revoke_grant_now now g db)"
    using revoke_effect [OF assms(2,4,5), of env dw] assms(3) by auto
  show ?thesis
  proof (cases "token_named env (jfield (wq_body rq) ''token_type_hint'') t db")
    case None
    with d r show ?thesis by simp
  next
    case (Some g)
    with d have d': "db' = revoke_grant now g db" by (simp add: revoke_grant_now_def run_tx_def)
    obtain q where q: "q \<in> set (t_grants db)" "gr_id q = g" using named_grant_exists [OF assms(1) Some] .
    let ?q = "if gr_id q = g \<and> gr_revoked_at q = None then q\<lparr>gr_revoked_at := Some now\<rparr> else q"
    have inv: "oauth_inv db'" unfolding d' by (rule revoke_grant_inv [OF assms(1)])
    have q': "?q \<in> set (t_grants db')" "gr_id ?q = g" "gr_revoked_at ?q \<noteq> None"
      using q unfolding d' revoke_grant_grants by (auto intro: bexI [of _ q])
    have "\<forall>xs ck token required audience touched v.
        fst (verify_access env ck token required audience (touched, run_store env xs db')) = Token_ok v \<longrightarrow> ve_grant v \<noteq> g"
      using dead_grant_never_verifies [OF inv q'(1,3)] unfolding q'(2) by blast
    moreover have "filter (\<lambda>q. gr_id q \<noteq> g) (t_grants db') = filter (\<lambda>q. gr_id q \<noteq> g) (t_grants db)"
      unfolding d' by (auto simp: revoke_grant_def intro: filter_update_other)
    moreover have "t_access db' = filter (\<lambda>a. at_grant a \<noteq> g) (t_access db)"
      by (simp add: d' delete_where_def)
    moreover have "filter (\<lambda>q. rt_grant q \<noteq> g) (t_refresh db') = filter (\<lambda>q. rt_grant q \<noteq> g) (t_refresh db)"
      unfolding d' by (auto simp: revoke_grant_def intro: filter_update_other)
    ultimately show ?thesis using Some r by simp
  qed
qed

definition demo_revocation :: web_request where
  "demo_revocation = \<lparr>wq_cookie = None, wq_query = JUndefined, wq_body = JObj [(''token'', JStr (mint Refresh demo_rnd))], wq_ip = None\<rparr>"

lemma demo_revocation_simps [simp]:
  "jfield (wq_body demo_revocation) ''token'' = JStr (mint Refresh demo_rnd)"
  "jfield (wq_body demo_revocation) ''token_type_hint'' = JUndefined"
  by (simp_all add: demo_revocation_def)

lemma demo_named: "token_named demo_env JUndefined (mint Refresh demo_rnd) demo_grants = Some (gr_id demo_grant_row)"
  by (simp add: token_named_def refresh_named_def mint_well_formed_str demo_rnd_length demo_join)

theorem revocation_endpoint_witness:
  "t_access (snd (post_revoke demo_env demo_draws demo_revocation demo_grants)) = []"
proof -
  have "named_grants demo_grants" by (simp add: named_grants_def demo_grants_tables demo_grant_row_def new_id_def)
  moreover have "mint Refresh demo_rnd \<noteq> []" by (simp add: mint_def)
  ultimately show ?thesis
    using revocation_endpoint [OF conjunct1 [OF demo_grants_inv] _ prod.collapse [symmetric] demo_revocation_simps(1),
        where env = demo_env]
    by (simp add: demo_named demo_grants_tables filter_empty_conv)
qed

text \<open>
  A wrong hint is taken at its word: the token stays valid although the answer is 200, where RFC 7009 has the search go on
  to the other kinds of tokens.
\<close>

lemma wrong_hint_revokes_nothing:
  "well_formed_str Refresh t \<Longrightarrow> jfield (wq_body rq) ''token'' = JStr t \<Longrightarrow> jfield (wq_body rq) ''token_type_hint'' = JStr ''access_token''
   \<Longrightarrow> snd (post_revoke env dw rq db) = db"
  using one_kind by (auto simp: post_revoke_def revoke_by_access_def)

section \<open>Limits\<close>

text \<open>What a step does to the store of rate limits: the passkey steps take their own bucket, the others none.\<close>

named_theorems unmetered

lemma on_web_db_unmetered [unmetered]: "on_web_db f w = (r, w') \<Longrightarrow> ws_buckets w' = ws_buckets w"
  by (auto simp: on_web_db_def split: prod.splits)

lemma validate_request_unmetered [unmetered]: "validate_request si dw ps pushed w = (v, w') \<Longrightarrow> ws_buckets w' = ws_buckets w"
  by (auto simp: validate_request_def split: prod.splits)

lemma current_session_unmetered [unmetered]: "current_session si now rq w = (s, w') \<Longrightarrow> ws_buckets w' = ws_buckets w"
  by (auto simp: current_session_def dest: on_web_db_unmetered)

lemma complete_unmetered [unmetered]: "complete si dw p s c w = (r, w') \<Longrightarrow> ws_buckets w' = ws_buckets w"
  by (auto simp: complete_def Let_def dest!: on_web_db_unmetered split: prod.splits sum.splits option.splits if_splits)

lemma fresh_session_unmetered [unmetered]: "fresh_session si dw k rq a acr w = (r, w') \<Longrightarrow> ws_buckets w' = ws_buckets w"
  by (auto simp: fresh_session_def Let_def split: sum.splits prod.splits)

lemma credentials_unmetered [unmetered]: "credentials_account si dw su u p w = (r, w') \<Longrightarrow> ws_buckets w' = ws_buckets w"
  by (auto simp: credentials_account_def dest!: on_web_db_unmetered split: if_splits prod.splits sum.splits option.splits)

lemma authorize_params_unmetered [unmetered]: "authorize_params si dw rq w = (v, w') \<Longrightarrow> ws_buckets w' = ws_buckets w"
  by (auto simp: authorize_params_def dest!: unmetered split: option.splits prod.splits)

definition passkey_key :: "web_request \<Rightarrow> string" where
  "passkey_key rq = ''passkey:'' @ ip_or_unknown rq"

lemma passkey_context_metered:
  "passkey_context si dw rq w = (r, w') \<Longrightarrow>
     ws_buckets w' = snd (take_bucket (rs_hit (si_resolver si)) (si_attempts si) 60000 (dw_now_ms dw) (dw_now_ms dw) (passkey_key rq) (ws_buckets w))"
  by (auto simp: passkey_context_def passkey_key_def ip_or_unknown_def Let_def split: prod.splits bucket_result.splits if_splits option.splits)

lemma unmetered_steps:
  assumes "run_step si dw st rq w = (r, w')" "st \<notin> {Post_passkey_options, Post_passkey_login}"
  shows "ws_buckets w' = ws_buckets w"
proof (cases st)
  case Get_authorize
  then show ?thesis using assms
    by (auto simp: get_authorize_def dest!: unmetered split: option.splits validated.splits prod.splits sum.splits)
next
  case Post_par
  then show ?thesis using assms
    by (auto simp: post_par_def Let_def dest!: unmetered split: prod.splits validated.splits sum.splits)
next
  case Get_login
  then show ?thesis using assms by (auto simp: get_login_def split: sum.splits prod.splits)
next
  case Post_login
  then have "post_login si dw rq w = (r, w')" using assms by simp
  then show ?thesis unfolding post_login_def
    by (elim with_formE) (auto simp: Let_def dest!: unmetered split: prod.splits sum.splits)
next
  case Get_consent
  then show ?thesis using assms
    by (auto simp: get_consent_def dest!: unmetered split: prod.splits sum.splits option.splits if_splits)
next
  case Post_consent
  then have "post_consent si dw rq w = (r, w')" using assms by simp
  then show ?thesis unfolding post_consent_def
    by (elim with_formE) (auto dest!: unmetered split: prod.splits sum.splits option.splits if_splits)
next
  case Post_deny
  then have "post_deny si dw rq w = (r, w')" using assms by simp
  then show ?thesis unfolding post_deny_def by (elim with_formE) auto
next
  case Post_logout
  then have "post_logout si dw rq w = (r, w')" using assms by simp
  then show ?thesis unfolding post_logout_def by (elim with_formE) auto
qed (use assms in auto)

lemma passkey_steps_metered:
  assumes "run_step si dw st rq w = (r, w')" "st \<in> {Post_passkey_options, Post_passkey_login}"
  shows "ws_buckets w' = snd (take_bucket (rs_hit (si_resolver si)) (si_attempts si) 60000 (dw_now_ms dw) (dw_now_ms dw)
     (passkey_key rq) (ws_buckets w))"
  using assms
  by (auto simp: post_passkey_options_def post_passkey_login_def dest!: unmetered passkey_context_metered
      split: prod.splits sum.splits option.splits)

text \<open>The bucket a request takes, if any.\<close>

definition bucket_of :: "('s, 'm, 'r) auth_site \<Rightarrow> auth_draws \<Rightarrow> auth_request \<Rightarrow> request list" where
  "bucket_of ax ad rq =
     (case auth_route_of (aq_method rq) (aq_path rq) of
        None \<Rightarrow> []
      | Some r \<Rightarrow>
          (case limiter_of (si_attempts (ax_site ax)) (ax_views ax) r rq of
             Some (limit, key) \<Rightarrow> [Req (dw_now_ms (ad_web ad)) key limit 60000]
           | None \<Rightarrow> if r \<in> {Flow Post_passkey_options, Flow Post_passkey_login}
                     then [Req (dw_now_ms (ad_web ad)) (passkey_key (aq_web rq)) (si_attempts (ax_site ax)) 60000] else []))"

lemma limited_served:
  assumes "limited ax ad r rq s = (res, s')" "limiter_of (si_attempts (ax_site ax)) (ax_views ax) r rq = Some (limit, key)"
  shows "serve (rs_hit (si_resolver (ax_site ax))) [Req (dw_now_ms (ad_web ad)) key limit 60000] s
     = ([(Req (dw_now_ms (ad_web ad)) key limit 60000,
          fst (take_bucket (rs_hit (si_resolver (ax_site ax))) limit 60000 (dw_now_ms (ad_web ad)) (dw_now_ms (ad_web ad)) key s))], s')
    \<and> (fst (take_bucket (rs_hit (si_resolver (ax_site ax))) limit 60000 (dw_now_ms (ad_web ad)) (dw_now_ms (ad_web ad)) key s) \<noteq> Granted
         \<longrightarrow> (\<exists>hs. res = Inl (app_err RATE_LIMITED, hs)))"
  using assms
  by (auto simp: limited_def rate_limit_def split: prod.splits bucket_result.splits sum.splits)

lemma account_unmetered:
  "run_auth_route ax h ad r rq y = (res, y') \<Longrightarrow> \<forall>st. r \<noteq> Flow st \<Longrightarrow> ws_buckets (ay_web y') = ws_buckets (ay_web y)"
  by (cases r) (auto simp: run_token_def with_db_def split: prod.splits)

definition turned_away :: "(error \<times> headers + web_reply) option \<Rightarrow> bool" where
  "turned_away res \<longleftrightarrow> (case res of Some (Inl (e, hs)) \<Rightarrow> e = app_err RATE_LIMITED | _ \<Rightarrow> False)"

lemma oauth_routes_served:
  assumes "oauth_routes ax h ad rq y = (res, y')"
  shows "snd (serve (rs_hit (si_resolver (ax_site ax))) (bucket_of ax ad rq) (ws_buckets (ay_web y))) = ws_buckets (ay_web y')"
    and "\<not> turned_away res \<Longrightarrow> auth_route_of (aq_method rq) (aq_path rq) = Some r \<Longrightarrow>
      limiter_of (si_attempts (ax_site ax)) (ax_views ax) r rq = Some (limit, key) \<Longrightarrow>
      granted key (fst (serve (rs_hit (si_resolver (ax_site ax))) (bucket_of ax ad rq) (ws_buckets (ay_web y)))) = 1"
proof -
  let ?hit = "rs_hit (si_resolver (ax_site ax))"
  let ?s = "ws_buckets (ay_web y)"
  show "snd (serve ?hit (bucket_of ax ad rq) ?s) = ws_buckets (ay_web y')"
  proof (cases "auth_route_of (aq_method rq) (aq_path rq)")
    case None
    with assms show ?thesis by (simp add: oauth_routes_def bucket_of_def)
  next
    case r: (Some r)
    obtain lr s where l: "limited ax ad r rq ?s = (lr, s)" by fastforce
    let ?y = "y\<lparr>ay_web := (ay_web y)\<lparr>ws_buckets := s\<rparr>\<rparr>"
    have after: "ws_buckets (ay_web y') = s" if "r \<notin> {Flow Post_passkey_options, Flow Post_passkey_login}"
    proof (cases lr)
      case (Inl e)
      with assms r l show ?thesis by (auto simp: oauth_routes_def)
    next
      case (Inr u)
      with assms r l obtain res' where run: "run_auth_route ax h ad r rq ?y = (res', y')"
        by (auto simp: oauth_routes_def split: prod.splits)
      show ?thesis
      proof (cases "\<exists>st. r = Flow st")
        case True
        then obtain st w where st: "r = Flow st" "y' = ?y\<lparr>ay_web := w\<rparr>" "\<exists>q. run_step (ax_site ax) (ad_web ad) st (aq_web rq) (ay_web ?y) = (q, w)"
          using run by (auto split: prod.splits)
        with that unmetered_steps show ?thesis by fastforce
      next
        case False
        with account_unmetered [OF run] show ?thesis by simp
      qed
    qed
    show ?thesis
    proof (cases "limiter_of (si_attempts (ax_site ax)) (ax_views ax) r rq")
      case (Some lk)
      obtain limit key where lk: "lk = (limit, key)" by (cases lk)
      have "r \<notin> {Flow Post_passkey_options, Flow Post_passkey_login}"
        using Some by (auto simp: limiter_of_def Let_def split: if_splits)
      from after [OF this] limited_served [OF l Some [unfolded lk]] r Some lk show ?thesis by (simp add: bucket_of_def)
    next
      case None
      then have s: "s = ?s" "lr = Inr ()" using l by (simp_all add: limited_def)
      show ?thesis
      proof (cases "r \<in> {Flow Post_passkey_options, Flow Post_passkey_login}")
        case True
        then obtain st where st: "r = Flow st" "st \<in> {Post_passkey_options, Post_passkey_login}" by auto
        obtain q w where q: "run_step (ax_site ax) (ad_web ad) st (aq_web rq) (ay_web y) = (q, w)" by fastforce
        have "ws_buckets (ay_web y') = ws_buckets w"
          using assms r l s st(1) q by (auto simp: oauth_routes_def split: prod.splits)
        with passkey_steps_metered [OF q st(2)] r None True show ?thesis
          by (simp add: bucket_of_def split: prod.splits)
      next
        case False
        with after s r None show ?thesis by (simp add: bucket_of_def)
      qed
    qed
  qed
  assume res: "\<not> turned_away res" and r: "auth_route_of (aq_method rq) (aq_path rq) = Some r"
    and lim: "limiter_of (si_attempts (ax_site ax)) (ax_views ax) r rq = Some (limit, key)"
  obtain lr s where l: "limited ax ad r rq ?s = (lr, s)" by fastforce
  have "lr \<noteq> Inl (app_err RATE_LIMITED, hs)" for hs
    using assms r l res by (auto simp: oauth_routes_def turned_away_def)
  with limited_served [OF l lim] r lim show "granted key (fst (serve ?hit (bucket_of ax ad rq) ?s)) = 1"
    by (auto simp: bucket_of_def)
qed

text \<open>A series of requests, each with what it draws on and its answer.\<close>

fun serve_auth :: "('s, 'm, 'r) auth_site \<Rightarrow> 'p hub \<Rightarrow> (auth_draws \<times> auth_request) list \<Rightarrow> ('s, 'm, 'r, 'p) auth_state
    \<Rightarrow> (auth_request \<times> (error \<times> headers + web_reply) option) list" where
  "serve_auth ax h [] y = []"
| "serve_auth ax h ((ad, rq) # qs) y = (case oauth_routes ax h ad rq y of (res, y') \<Rightarrow> (rq, res) # serve_auth ax h qs y')"

abbreviation asked_ms :: "auth_draws \<times> auth_request \<Rightarrow> int" where
  "asked_ms q \<equiv> dw_now_ms (ad_web (fst q))"

text \<open>The attempts at a credential route from an address, under one spelling of the path, that were not turned away.\<close>

definition credential_routes :: "auth_route set" where
  "credential_routes = {Flow Post_login, Register_client, Account Post_account_login}"

definition is_attempt :: "string \<Rightarrow> string \<Rightarrow> auth_request \<Rightarrow> bool" where
  "is_attempt ip path rq \<longleftrightarrow> ip_or_unknown (aq_web rq) = ip \<and> aq_path rq = path
     \<and> (case auth_route_of (aq_method rq) path of None \<Rightarrow> False | Some r \<Rightarrow> r \<in> credential_routes)"

definition attempts_let_through :: "string \<Rightarrow> string \<Rightarrow> (auth_request \<times> (error \<times> headers + web_reply) option) list \<Rightarrow> nat" where
  "attempts_let_through ip path rs = length (filter (\<lambda>(rq, res). is_attempt ip path rq \<and> \<not> turned_away res) rs)"

lemma credential_limiter:
  "is_attempt ip path rq \<Longrightarrow> \<exists>r. auth_route_of (aq_method rq) (aq_path rq) = Some r
     \<and> limiter_of attempts views r rq = Some (attempts, ip @ '':'' @ path)"
  by (auto simp: is_attempt_def credential_routes_def limiter_of_def Let_def split: option.splits)

lemma let_through_granted:
  "attempts_let_through ip path (serve_auth ax h qs y)
    \<le> granted (ip @ '':'' @ path) (fst (serve (rs_hit (si_resolver (ax_site ax))) (concat (map (\<lambda>(ad, rq). bucket_of ax ad rq) qs)) (ws_buckets (ay_web y))))"
proof (induction qs arbitrary: y)
  case (Cons q qs)
  obtain ad rq where q: "q = (ad, rq)" by (cases q)
  obtain res y' where o: "oauth_routes ax h ad rq y = (res, y')" by fastforce
  note served = oauth_routes_served [OF o]
  let ?hit = "rs_hit (si_resolver (ax_site ax))"
  let ?key = "ip @ '':'' @ path"
  have "(if is_attempt ip path rq \<and> \<not> turned_away res then 1 else 0)
      \<le> granted ?key (fst (serve ?hit (bucket_of ax ad rq) (ws_buckets (ay_web y))))"
    using credential_limiter [of ip path rq "si_attempts (ax_site ax)" "ax_views ax"] served(2) by fastforce
  with Cons.IH [of y'] served(1) show ?case
    by (auto simp: q o attempts_let_through_def serve_append Let_def split: prod.splits)
qed (simp add: attempts_let_through_def)

text \<open>The keys of other limits do not fall together with those of the credential routes: an address has no slash.\<close>

lemma split_first_slash:
  "a @ '':'' @ CHR ''/'' # p = b @ '':'' @ CHR ''/'' # q \<Longrightarrow> CHR ''/'' \<notin> set a \<Longrightarrow> CHR ''/'' \<notin> set b \<Longrightarrow> a = b \<and> p = q"
proof -
  assume e: "a @ '':'' @ CHR ''/'' # p = b @ '':'' @ CHR ''/'' # q" and n: "CHR ''/'' \<notin> set a" "CHR ''/'' \<notin> set b"
  have t: "takeWhile (\<lambda>c. c \<noteq> CHR ''/'') (a @ '':'' @ CHR ''/'' # p) = a @ '':''" if "CHR ''/'' \<notin> set a" for a p
    using that by (subst takeWhile_append2) auto
  show ?thesis using t [OF n(1), of p] t [OF n(2), of q] e by simp
qed

text \<open>What the server is given: an address and a path as HTTP has them.\<close>

definition proper_request :: "auth_request \<Rightarrow> bool" where
  "proper_request rq \<longleftrightarrow> CHR ''/'' \<notin> set (ip_or_unknown (aq_web rq)) \<and> (\<exists>p. aq_path rq = CHR ''/'' # p)"

lemma no_slash_key: "CHR ''/'' \<notin> set k \<Longrightarrow> k \<noteq> ip @ '':/'' @ path"
  by auto

lemma one_limit:
  assumes "proper_request rq" "CHR ''/'' \<notin> set ip" "q \<in> set (bucket_of ax ad rq)" "rq_key q = ip @ '':/'' @ path"
  shows "rq_limit q = si_attempts (ax_site ax) \<and> rq_window q = 60000"
proof -
  have n: "''authorize-view:'' @ w \<noteq> ip @ '':/'' @ path" "''par:'' @ w \<noteq> ip @ '':/'' @ path" "''passkey:'' @ w \<noteq> ip @ '':/'' @ path"
    if "CHR ''/'' \<notin> set w" for w
    by (rule no_slash_key, use that in simp)+
  show ?thesis using assms n
    by (auto simp: bucket_of_def limiter_of_def proper_request_def passkey_key_def Let_def split: option.splits if_splits)
qed

lemma buckets_in_order:
  "sorted (map asked_ms qs) \<Longrightarrow> sorted (map rq_time (concat (map (\<lambda>(ad, rq). bucket_of ax ad rq) qs)))
     \<and> (\<forall>b \<in> set (concat (map (\<lambda>(ad, rq). bucket_of ax ad rq) qs)). \<exists>q \<in> set qs. rq_time b = asked_ms q)"
proof (induction qs)
  case (Cons q qs)
  obtain ad rq where q: "q = (ad, rq)" by (cases q)
  define C where "C = concat (map (\<lambda>(ad, rq). bucket_of ax ad rq) qs)"
  have IH: "sorted (map rq_time C)" "\<forall>b \<in> set C. \<exists>q \<in> set qs. rq_time b = asked_ms q"
    using Cons by (simp_all add: C_def)
  have B: "bucket_of ax ad rq = [] \<or> (\<exists>b. bucket_of ax ad rq = [b] \<and> rq_time b = dw_now_ms (ad_web ad))"
    by (auto simp: bucket_of_def split: option.splits)
  have "dw_now_ms (ad_web ad) \<le> rq_time c" if "c \<in> set C" for c
    using that IH(2) Cons.prems unfolding q by fastforce
  with IH B have "sorted (map rq_time (bucket_of ax ad rq @ C))"
    "\<forall>b \<in> set (bucket_of ax ad rq @ C). \<exists>p \<in> set (q # qs). rq_time b = asked_ms p"
    by (auto simp: sorted_append q)
  then show ?case by (simp add: q C_def)
qed simp

text \<open>Guessing is limited. Of all the requests an authorization server gets within a minute, at most twice the limit
  of those that submit credentials or a registration from one address to one path are let through, whatever else arrives
  and in whatever order; each of the others is answered RATE_LIMITED.\<close>

theorem credential_attempts_bounded:
  assumes "rs_hit (si_resolver (ax_site ax)) = memory_hit" "distinct_keys (ws_buckets (ay_web y))"
    and "sorted (map asked_ms qs)" "\<forall>q \<in> set qs. t0 \<le> asked_ms q \<and> asked_ms q < t0 + 60000"
    and "\<forall>q \<in> set qs. proper_request (snd q)" "CHR ''/'' \<notin> set ip"
  shows "attempts_let_through ip (CHR ''/'' # path) (serve_auth ax h qs y) \<le> 2 * si_attempts (ax_site ax)"
proof -
  let ?key = "ip @ '':'' @ CHR ''/'' # path"
  let ?bs = "concat (map (\<lambda>(ad, rq). bucket_of ax ad rq) qs)"
  have "sorted (map rq_time ?bs) \<and> (\<forall>b \<in> set ?bs. \<exists>q \<in> set qs. rq_time b = asked_ms q)"
    using assms(3) by (rule buckets_in_order)
  moreover have "uniform ?key (si_attempts (ax_site ax)) 60000 ?bs"
    unfolding uniform_def using one_limit [OF _ assms(6), where path = path and ax = ax] assms(5) by fastforce
  ultimately have "granted ?key (fst (serve memory_hit ?bs (ws_buckets (ay_web y)))) \<le> 2 * si_attempts (ax_site ax)"
    using assms(2,4) by (intro memory_buckets.sliding_bound [of _ _ t0 60000]) fastforce+
  with let_through_granted [of ip "CHR ''/'' # path" ax h qs y] assms(1) show ?thesis by simp
qed

definition demo_gateway :: "(windows, demo_sealed, (string \<times> int) list) auth_site" where
  "demo_gateway = \<lparr>ax_site = \<lparr>si_env = demo_env, si_decode = Some,
     si_resolver = \<lparr>rs_parse = demo_site, rs_known = None, rs_json = (\<lambda>s. None), rs_fetch = (\<lambda>u. None),
        rs_hit = memory_hit, rs_now_ms = 0, rs_now = 0, rs_now2 = 0\<rparr>,
     si_argon_hash = (\<lambda>s p. s @ p), si_argon_verify = (\<lambda>e p. None), si_nfkc = (\<lambda>s. s),
     si_decoy = \<lparr>ph_encoded = [], ph_pepper_version = 0\<rparr>, si_webauthn = demo_webauthn, si_attempts = 1\<rparr>,
     ax_tokens = demo_infra, ax_keys = [], ax_views = 60\<rparr>"

definition demo_at_gateway :: "(windows, demo_sealed, (string \<times> int) list, unit) auth_state" where
  "demo_at_gateway = \<lparr>ay_web = \<lparr>ws_buckets = [], ws_fetches = [], ws_db = demo_account_db\<rparr>, ay_sealed = [], ay_replay = [], ay_process = ()\<rparr>"

definition demo_guess :: "auth_draws \<times> auth_request" where
  "demo_guess = (\<lparr>ad_web = demo_draws, ad_token = demo_draw, ad_client = ''c''\<rparr>,
     \<lparr>aq_method = ''POST'', aq_path = ''/login'', aq_dpop = None,
      aq_web = \<lparr>wq_cookie = None, wq_query = JUndefined, wq_body = JUndefined, wq_ip = Some ''10.0.0.1''\<rparr>\<rparr>)"

theorem credential_attempts_bounded_witness:
  "is_attempt ''10.0.0.1'' ''/login'' (snd demo_guess)
   \<and> attempts_let_through ''10.0.0.1'' ''/login'' (serve_auth demo_gateway [] (replicate 5 demo_guess) demo_at_gateway) \<le> 2"
proof -
  have "is_attempt ''10.0.0.1'' ''/login'' (snd demo_guess)"
    by (simp add: is_attempt_def demo_guess_def ip_or_unknown_def credential_routes_def) code_simp
  moreover have "rs_hit (si_resolver (ax_site demo_gateway)) = memory_hit" "distinct_keys (ws_buckets (ay_web demo_at_gateway))"
    "sorted (map asked_ms (replicate 5 demo_guess))" "\<forall>q \<in> set (replicate 5 demo_guess). 0 \<le> asked_ms q \<and> asked_ms q < 0 + 60000"
    "\<forall>q \<in> set (replicate 5 demo_guess). proper_request (snd q)" "CHR ''/'' \<notin> set ''10.0.0.1''" "si_attempts (ax_site demo_gateway) = 1"
    by (simp_all add: demo_gateway_def demo_at_gateway_def demo_guess_def demo_draws_def distinct_keys_def proper_request_def
        ip_or_unknown_def eval_nat_numeral)
  ultimately show ?thesis
    using credential_attempts_bounded [of demo_gateway demo_at_gateway "replicate 5 demo_guess" 0 "''10.0.0.1''" "''login''" "[]"]
    by simp
qed

text \<open>
  The router takes \<open>/login\<close>, \<open>/Login\<close> and \<open>/login/\<close> for one route, the limiter counts each spelling on its own, so the bound
  holds for each of the spellings and not for the route.
\<close>

lemma each_spelling_its_own:
  "auth_route_of ''POST'' ''/Login'' = Some (Flow Post_login) \<and> auth_route_of ''POST'' ''/login/'' = Some (Flow Post_login)
   \<and> map (map rq_key) [bucket_of ax ad (rq\<lparr>aq_method := ''POST'', aq_path := ''/login''\<rparr>),
        bucket_of ax ad (rq\<lparr>aq_method := ''POST'', aq_path := ''/Login''\<rparr>)]
     = [[ip_or_unknown (aq_web rq) @ '':/login''], [ip_or_unknown (aq_web rq) @ '':/Login'']]"
proof -
  have r: "auth_route_of ''POST'' ''/Login'' = Some (Flow Post_login)" "auth_route_of ''POST'' ''/login/'' = Some (Flow Post_login)"
    "auth_route_of ''POST'' ''/login'' = Some (Flow Post_login)" by code_simp+
  then show ?thesis by (simp add: bucket_of_def limiter_of_def Let_def)
qed

end
