(* ===== verification/Split.thy ===== *)
theory Split
  imports Http
begin

text \<open>
  Profile M, where the two edges, the authorization server and the Device Service are processes of their own:
  \<open>server/src/split/tls.ts\<close> (who is on the other end of a connection), \<open>server/src/split/servers.ts\<close> (the internal
  listeners) and \<open>server/src/split/remote.ts\<close> (what an edge calls instead of the local functions). A connection is mutual
  TLS; the certificate of the peer is an argument. Metrics and log lines are left out.
\<close>

section \<open>Peers\<close>

text \<open>What Node tells of the certificate a client presented.\<close>

record tls_peer =
  tp_authorized :: bool
  tp_raw :: "string option"
  tp_altname :: "string option"

definition is_comma :: "char \<Rightarrow> bool" where
  "is_comma c \<longleftrightarrow> c = CHR '',''"

text \<open>\<open>split(/,\s*/)\<close>.\<close>

definition altname_entries :: "string \<Rightarrow> string list" where
  "altname_entries s = (case split_on is_comma s of [] \<Rightarrow> [] | w # ws \<Rightarrow> w # map (dropWhile is_ws) ws)"

definition identity_uris :: "string \<Rightarrow> string list" where
  "identity_uris s = map (drop 4) (filter (starts_with ''URI:'') (altname_entries s))"

definition peer_workload :: "env \<Rightarrow> workload_name list \<Rightarrow> tls_peer \<Rightarrow> workload option" where
  "peer_workload env allowed tp =
     (if \<not> tp_authorized tp then None
      else (case tp_raw tp of
        None \<Rightarrow> None
      | Some der \<Rightarrow>
          (let uris = identity_uris (case tp_altname tp of None \<Rightarrow> [] | Some s \<Rightarrow> s);
               names = List.map_filter workload_named uris
           in if length uris \<noteq> 1 \<or> length names \<noteq> 1 then None
              else if hd names \<in> set allowed then Some (certificate_workload env der (hd names)) else None)))"

section \<open>Messages\<close>

text \<open>
  \<open>JSON.parse(JSON.stringify(v))\<close>: what arrives of a value. A member that is undefined is left out, an undefined element
  of an array is null.
\<close>

fun wired :: "jsval \<Rightarrow> jsval" where
  "wired (JArr vs) = JArr (map wired vs)"
| "wired (JObj fs) = JObj (concat (map (\<lambda>(k, v). if v = JUndefined then [] else [(k, wired v)]) fs))"
| "wired JUndefined = JNull"
| "wired v = v"

datatype auth_call = Introspect | Account_lookup | Exchange_call
datatype device_op = Op_list | Op_get | Op_add | Op_control

text \<open>
  A connection to a peer: the operation (its path), the Authorization header and the body in, status and body out;
  \<^const>\<open>None\<close> where the peer cannot be reached, refuses the certificate or is too slow.
\<close>

type_synonym ('o, 's) link = "'o \<Rightarrow> string option \<Rightarrow> jsval \<Rightarrow> 's \<Rightarrow> (nat \<times> jsval) option \<times> 's"

text \<open>\<open>call\<close>.\<close>

definition call_peer :: "('o, 's) link \<Rightarrow> 'o \<Rightarrow> string option \<Rightarrow> jsval \<Rightarrow> 's \<Rightarrow> (error + nat \<times> jsval) \<times> 's" where
  "call_peer ln opn auth body s =
     (case ln opn auth body s of
        (None, s') \<Rightarrow> (Inl (app_err SERVICE_UNAVAILABLE), s')
      | (Some r, s') \<Rightarrow> (Inr r, s'))"

section \<open>The internal listeners\<close>

record internal_request =
  iq_peer :: tls_peer
  iq_authorization :: "string option"
  iq_body :: jsval

definition edges :: "workload_name list" where
  "edges = [Mcp_rs, Api_gw]"

fun audience_of :: "env \<Rightarrow> workload_name \<Rightarrow> string" where
  "audience_of env Mcp_rs = resource_uri env"
| "audience_of env Api_gw = api_resource env"

definition internal_errors :: "error \<Rightarrow> nat \<times> jsval" where
  "internal_errors e =
     (case e of
        InternalTokenRefused m \<Rightarrow> (401, JObj [(''error'', JStr ''internal_token_refused'')])
      | AppError a \<Rightarrow> (app_status a, JObj [(''error'', JObj [(''code'', JStr (code_name (ae_code a))), (''message'', JStr (ae_message a)),
            (''field'', case ae_field a of None \<Rightarrow> JUndefined | Some f \<Rightarrow> JStr f)])])
      | _ \<Rightarrow> (500, JObj [(''error'', JObj [(''code'', JStr ''INTERNAL_ERROR''), (''message'', JStr ''Unexpected error.'')])]))"

text \<open>
  \<open>internalApp\<close> and \<open>requirePeer\<close>: the body parser, which refuses more than 16 kB before anything is asked, the peer, and
  the handler with its errors.
\<close>

abbreviation internal_body_limit :: nat where "internal_body_limit \<equiv> 16384"

definition internal_app :: "env \<Rightarrow> (workload \<Rightarrow> 's \<Rightarrow> (error + jsval) \<times> 's) \<Rightarrow> internal_request \<Rightarrow> 's \<Rightarrow> (nat \<times> jsval) \<times> 's" where
  "internal_app env handle rq s =
     (if internal_body_limit < length (utf8 (json (iq_body rq))) then (internal_errors (OtherError ''request entity too large''), s)
      else (case peer_workload env edges (iq_peer rq) of
        None \<Rightarrow> ((403, JObj [(''error'', JStr ''peer_not_allowed'')]), s)
      | Some peer \<Rightarrow>
          (case handle peer s of
             (Inl e, s') \<Rightarrow> (internal_errors e, s')
           | (Inr v, s') \<Rightarrow> ((200, v), s'))))"

definition introspect_reply :: "verified_token \<Rightarrow> jsval" where
  "introspect_reply vt =
     (case vt of
        Token_ok v \<Rightarrow> JObj
          [(''active'', JBool True), (''kind'', JStr ''oauth''), (''accountId'', JStr (ve_account v)), (''clientId'', JStr (ve_client v)),
           (''grantId'', JStr (ve_grant v)), (''scopes'', JArr (map JStr (ve_scopes v))), (''expiresIn'', JInt (ve_expires_in v)),
           (''cnfJkt'', case ve_jkt v of None \<Rightarrow> JNull | Some k \<Rightarrow> JStr k)]
      | _ \<Rightarrow> JObj [(''active'', JBool False)])"

text \<open>The authorization server's internal listener, with the clocks and random bytes of the request.\<close>

fun auth_handler ::
  "env \<Rightarrow> signer list \<Rightarrow> clocks \<Rightarrow> string \<Rightarrow> auth_call \<Rightarrow> jsval \<Rightarrow> workload \<Rightarrow> touched \<times> database
   \<Rightarrow> (error + jsval) \<times> touched \<times> database" where
  "auth_handler env signers ck rnd Introspect body peer s =
     (let token = (case as_str (jfield body ''token'') of Some t \<Rightarrow> JStr t | None \<Rightarrow> JNull) in
      case verify_access env ck token [] (Some (audience_of env (wl_name peer))) s of (vt, s') \<Rightarrow> (Inr (introspect_reply vt), s'))"
| "auth_handler env signers ck rnd Account_lookup body peer s =
     (Inr (JObj [(''account'', case as_str (jfield body ''accountId'') of
         None \<Rightarrow> JNull
       | Some i \<Rightarrow> (case get_account i (snd s) of None \<Rightarrow> JNull | Some a \<Rightarrow> account_json a))]), s)"
| "auth_handler env signers ck rnd Exchange_call body peer s =
     (case (as_str (jfield body ''subject_token''), as_str (jfield body ''scope'')) of
        (Some subject, Some scope) \<Rightarrow>
          if scope \<notin> set scopes_all then (Inl (app_err MALFORMED_REQUEST), s)
          else (case exchange_token env signers ck rnd \<lparr>xr_workload = peer, xr_subject = subject, xr_scope = scope\<rparr> s of
            (Inl e, s') \<Rightarrow> (Inl e, s')
          | (Inr x, s') \<Rightarrow> (Inr (JObj [(''access_token'', JStr (xd_token x)), (''expires_in'', JInt (xd_expires_in x)),
                (''issued_token_type'', JStr ''urn:ietf:params:oauth:token-type:access_token'')]), s'))
      | _ \<Rightarrow> (Inl (app_err MALFORMED_REQUEST), s))"

definition internal_auth_app ::
  "env \<Rightarrow> signer list \<Rightarrow> clocks \<Rightarrow> string \<Rightarrow> auth_call \<Rightarrow> internal_request \<Rightarrow> touched \<times> database \<Rightarrow> (nat \<times> jsval) \<times> touched \<times> database" where
  "internal_auth_app env signers ck rnd opn rq = internal_app env (auth_handler env signers ck rnd opn (iq_body rq)) rq"

text \<open>\<open>tokenOf\<close>: \<open>/^Bearer (.+)$/\<close>; the dot matches no line break.\<close>

definition bearer_token :: "string option \<Rightarrow> error + string" where
  "bearer_token auth =
     (let h = (case auth of None \<Rightarrow> [] | Some s \<Rightarrow> s); t = drop 7 h in
      if starts_with ''Bearer '' h \<and> t \<noteq> [] \<and> \<not> list_ex line_break t then Inr t else Inl (InternalTokenRefused ''no token''))"

definition internal_request_id :: "jsval \<Rightarrow> string" where
  "internal_request_id body = (case as_str (jfield body ''requestId'') of Some s \<Rightarrow> take 64 s | None \<Rightarrow> ''req_internal'')"

text \<open>\<open>String(v)\<close>; the text of a number that is no integer is a parameter.\<close>

fun js_string :: "string \<Rightarrow> jsval \<Rightarrow> string" where
  "js_string num JUndefined = ''undefined''"
| "js_string num JNull = ''null''"
| "js_string num (JBool b) = (if b then ''true'' else ''false'')"
| "js_string num (JInt i) = int_str i"
| "js_string num JNonInt = num"
| "js_string num (JStr s) = s"
| "js_string num (JArr vs) = join_with '','' (map (\<lambda>v. if v = JUndefined \<or> v = JNull then [] else js_string num v) vs)"
| "js_string num (JObj fs) = ''[object Object]''"

text \<open>
  The inputs of the operations as they come. A name that is no string has no \<open>normalize\<close>; the text the database driver
  makes of another value that is no string is the parameter \<open>bound\<close>.
\<close>

record wire_texts =
  wt_number :: string
  wt_bound :: "jsval \<Rightarrow> string"

definition bound_text :: "wire_texts \<Rightarrow> jsval \<Rightarrow> string" where
  "bound_text wt v = (case as_str v of Some s \<Rightarrow> s | None \<Rightarrow> wt_bound wt v)"

definition nullish :: "jsval \<Rightarrow> bool" where
  "nullish v \<longleftrightarrow> v = JUndefined \<or> v = JNull"

definition add_input_of :: "wire_texts \<Rightarrow> jsval \<Rightarrow> add_input option" where
  "add_input_of wt v =
     (let key = (if js_truthy (jfield v ''idempotencyKey'') then Some (bound_text wt (jfield v ''idempotencyKey'')) else None) in
      if nullish (jfield v ''name'') then Some \<lparr>ad_name = None, ad_key = key\<rparr>
      else map_option (\<lambda>n. \<lparr>ad_name = Some n, ad_key = key\<rparr>) (as_str (jfield v ''name'')))"

definition control_input_of :: "wire_texts \<Rightarrow> jsval \<Rightarrow> control_input" where
  "control_input_of wt v =
     \<lparr>ci_device = bound_text wt (jfield v ''deviceId''), ci_state = jfield v ''state'', ci_expected = jfield v ''expectedVersion''\<rparr>"

text \<open>The Device Service's listener. A token that is not there is refused before the service is asked.\<close>

fun device_handler ::
  "service_draw \<Rightarrow> wire_texts \<Rightarrow> device_op \<Rightarrow> string \<Rightarrow> string \<Rightarrow> jsval \<Rightarrow> workload \<Rightarrow> edge_state \<Rightarrow> (error + jsval) \<times> edge_state" where
  "device_handler d wt Op_list token rid body peer s =
     (case sv_list (local_devices d) token peer rid s of (r, s') \<Rightarrow> (map_sum id (\<lambda>vs. JObj [(''devices'', JArr vs)]) r, s'))"
| "device_handler d wt Op_get token rid body peer s =
     (case sv_get (local_devices d) token peer rid (js_string (wt_number wt) (jfield body ''deviceId'')) s of
        (r, s') \<Rightarrow> (map_sum id (\<lambda>v. JObj [(''device'', v)]) r, s'))"
| "device_handler d wt Op_add token rid body peer s =
     (case add_input_of wt (jfield body ''input'') of
        Some inp \<Rightarrow> (case sv_add (local_devices d) token peer rid inp s of (r, s') \<Rightarrow> (map_sum id (\<lambda>v. JObj [(''device'', v)]) r, s'))
      | None \<Rightarrow> (case verify_internal (sd_jwt d) (sd_now_ms d) token peer ''devices:create'' rid of
           Inl e \<Rightarrow> (Inl e, s) | Inr i \<Rightarrow> (Inl (OtherError ''TypeError''), s)))"
| "device_handler d wt Op_control token rid body peer s =
     (case sv_control (local_devices d) token peer rid (control_input_of wt (jfield body ''input'')) s of
        (r, s') \<Rightarrow> (map_sum id (\<lambda>v. JObj [(''device'', v)]) r, s'))"

definition device_service_app ::
  "env \<Rightarrow> service_draw \<Rightarrow> wire_texts \<Rightarrow> device_op \<Rightarrow> internal_request \<Rightarrow> edge_state \<Rightarrow> (nat \<times> jsval) \<times> edge_state" where
  "device_service_app env d wt opn rq =
     internal_app env (\<lambda>peer s. case bearer_token (iq_authorization rq) of
         Inl e \<Rightarrow> (Inl e, s)
       | Inr t \<Rightarrow> device_handler d wt opn t (internal_request_id (iq_body rq)) (iq_body rq) peer s) rq"

text \<open>
  \<open>mtlsServer\<close> and \<open>postJson\<close>: a connection presenting the certificate \<open>tp\<close> to a listener, where the listener answers in
  time. A call that is lost or answered too late is a link of its own, \<^const>\<open>None\<close> to \<^const>\<open>call_peer\<close>.
\<close>

definition mtls_link :: "('o \<Rightarrow> internal_request \<Rightarrow> 's \<Rightarrow> (nat \<times> jsval) \<times> 's) \<Rightarrow> tls_peer \<Rightarrow> ('o, 's) link" where
  "mtls_link app tp opn auth body s =
     (if \<not> tp_authorized tp then (None, s)
      else (case app opn \<lparr>iq_peer = tp, iq_authorization = auth, iq_body = wired body\<rparr> s of
        ((status, reply), s') \<Rightarrow> (Some (status, wired reply), s')))"

section \<open>The edge's side\<close>

record introspected =
  in_account :: string
  in_client :: string
  in_grant :: string
  in_scopes :: "string list"
  in_jkt :: "string option"
  in_expires_at :: int
  in_cached_until :: int

type_synonym introspections = "(string \<times> introspected) list"

abbreviation cache_seconds :: int where "cache_seconds \<equiv> 30"
abbreviation introspection_sweep :: nat where "introspection_sweep \<equiv> 50000"

fun names_introspected :: "revocation_event \<Rightarrow> introspected \<Rightarrow> bool" where
  "names_introspected (Grant_revoked g) e \<longleftrightarrow> in_grant e = g"
| "names_introspected (Account_revoked a) e \<longleftrightarrow> in_account e = a"
| "names_introspected (Client_blocked c) e \<longleftrightarrow> in_client e = c"

text \<open>The listener of \<open>remoteVerifier\<close>.\<close>

definition drop_introspections :: "revocation_event \<Rightarrow> introspections \<Rightarrow> introspections" where
  "drop_introspections ev cache = sweep (names_introspected ev) cache"

definition token_key :: "env \<Rightarrow> string \<Rightarrow> string" where
  "token_key env token = base64url (en_sha256 env token)"

text \<open>The answer as an entry. Its members are read as the strings and numbers the listener writes.\<close>

definition js_str :: "jsval \<Rightarrow> string" where
  "js_str v = (case as_str v of Some s \<Rightarrow> s | None \<Rightarrow> [])"

definition js_int :: "jsval \<Rightarrow> int" where
  "js_int v = (case v of JInt i \<Rightarrow> i | _ \<Rightarrow> 0)"

definition js_strs :: "jsval \<Rightarrow> string list" where
  "js_strs v = (case v of JArr vs \<Rightarrow> map js_str vs | _ \<Rightarrow> [])"

definition introspected_of :: "int \<Rightarrow> jsval \<Rightarrow> introspected" where
  "introspected_of now body =
     \<lparr>in_account = js_str (jfield body ''accountId''), in_client = js_str (jfield body ''clientId''),
      in_grant = js_str (jfield body ''grantId''), in_scopes = js_strs (jfield body ''scopes''), in_jkt = as_str (jfield body ''cnfJkt''),
      in_expires_at = now + js_int (jfield body ''expiresIn'') * 1000,
      in_cached_until = now + min cache_seconds (js_int (jfield body ''expiresIn'')) * 1000\<rparr>"

definition cached_introspection :: "int \<Rightarrow> string \<Rightarrow> introspections \<Rightarrow> introspected option" where
  "cached_introspection now key cache =
     (case map_of cache key of
        None \<Rightarrow> None
      | Some e \<Rightarrow> if now < in_cached_until e \<and> now < in_expires_at e then Some e else None)"

definition store_introspection :: "int \<Rightarrow> string \<Rightarrow> introspected \<Rightarrow> introspections \<Rightarrow> introspections" where
  "store_introspection now key e cache =
     (let cache1 = AList.update key e cache in
      if introspection_sweep < length cache1 then sweep (\<lambda>v. in_cached_until v \<le> now) cache1 else cache1)"

text \<open>
  \<open>oauth\<close> and \<open>introspect\<close>, cut where they await the authorization server: what is known without asking, and what is made
  of the answer when it is there. The entry counts from the clock \<open>now\<close> of the question. Between the two the edge handles
  other requests and events.
\<close>

datatype introspection_start = Decided "introspected option" | Must_ask string

definition start_introspection :: "env \<Rightarrow> int \<Rightarrow> jsval \<Rightarrow> introspections \<Rightarrow> introspection_start" where
  "start_introspection env now token cache =
     (case as_str token of
        None \<Rightarrow> Decided None
      | Some t \<Rightarrow>
          if length t = 0 \<or> 512 < length t then Decided None
          else (case cached_introspection now (token_key env t) cache of Some e \<Rightarrow> Decided (Some e) | None \<Rightarrow> Must_ask t))"

definition introspection_answer ::
  "env \<Rightarrow> int \<Rightarrow> string \<Rightarrow> error + nat \<times> jsval \<Rightarrow> introspections \<Rightarrow> (error + introspected option) \<times> introspections" where
  "introspection_answer env now t answer cache =
     (case answer of
        Inl e \<Rightarrow> (Inl e, cache)
      | Inr (status, body) \<Rightarrow>
          if status \<noteq> 200 then (Inl (app_err SERVICE_UNAVAILABLE), cache)
          else if \<not> js_truthy (jfield body ''active'') then (Inr None, AList.delete (token_key env t) cache)
          else (Inr (Some (introspected_of now body)), store_introspection now (token_key env t) (introspected_of now body) cache))"

text \<open>The end of \<open>oauth\<close>; the clock is read again. The audience is the server's to decide.\<close>

definition judge_introspected :: "int \<Rightarrow> string list \<Rightarrow> introspected option \<Rightarrow> verified_token" where
  "judge_introspected now' scopes found =
     (case found of
        None \<Rightarrow> Invalid_token
      | Some e \<Rightarrow>
          (let missing = filter (\<lambda>sc. sc \<notin> set (in_scopes e)) scopes in
           if 0 < length missing then Insufficient_scope (in_grant e) (in_scopes e) scopes
           else Token_ok \<lparr>ve_account = in_account e, ve_client = in_client e, ve_grant = in_grant e, ve_scopes = in_scopes e,
                  ve_expires_in = max 0 ((in_expires_at e - now') div 1000), ve_jkt = in_jkt e\<rparr>))"

text \<open>\<open>remoteVerifier().oauth\<close> where nothing comes between the question and the answer.\<close>

definition remote_oauth ::
  "env \<Rightarrow> (auth_call, 's) link \<Rightarrow> int \<Rightarrow> int \<Rightarrow> jsval \<Rightarrow> string list \<Rightarrow> introspections \<times> 's
   \<Rightarrow> (error + verified_token) \<times> introspections \<times> 's" where
  "remote_oauth env ln now now' token scopes st =
     (case start_introspection env now token (fst st) of
        Decided found \<Rightarrow> (Inr (judge_introspected now' scopes found), st)
      | Must_ask t \<Rightarrow>
          (case call_peer ln Introspect None (JObj [(''token'', JStr t)]) (snd st) of
             (answer, s') \<Rightarrow>
               (case introspection_answer env now t answer (fst st) of
                  (r, cache') \<Rightarrow> (map_sum id (judge_introspected now' scopes) r, cache', s'))))"

section \<open>An edge with many requests\<close>

text \<open>
  The requests of an edge that are waiting for the authorization server: the question, with the edge's clock, and its answer
  once the server has given it. A call that fails (no connection, no certificate, two seconds without a word) is answered
  with an error; the server may have dealt with it all the same.
\<close>

record question =
  qn_token :: string
  qn_now :: int
  qn_scopes :: "string list"
  qn_answer :: "(error + nat \<times> jsval) option"

record 's edge_run =
  er_cache :: introspections
  er_asked :: "question list"
  er_server :: 's

datatype edge_event =
    Token_comes int int jsval "string list"
  | Server_answers nat clocks
  | Call_fails nat
  | Answer_comes nat int
  | Event_comes revocation_event
  | Server_works store_op

definition drop_nth :: "nat \<Rightarrow> 'a list \<Rightarrow> 'a list" where
  "drop_nth i xs = take i xs @ drop (Suc i) xs"

text \<open>
  A step of the edge or of the server, and the verification it completes: a token arrives and is judged by the cache or asked
  about; the server takes a question, at its own clocks; a call fails; an answer arrives at the edge; an event arrives
  there; the server does something else.
\<close>

fun edge_step ::
  "env \<Rightarrow> signer list \<Rightarrow> tls_peer \<Rightarrow> edge_event \<Rightarrow> (touched \<times> database) edge_run
   \<Rightarrow> (error + verified_token) option \<times> (touched \<times> database) edge_run" where
  "edge_step env signers tp (Token_comes now now' token scopes) s =
     (case start_introspection env now token (er_cache s) of
        Decided found \<Rightarrow> (Some (Inr (judge_introspected now' scopes found)), s)
      | Must_ask t \<Rightarrow>
          (None, s\<lparr>er_asked := er_asked s @ [\<lparr>qn_token = t, qn_now = now, qn_scopes = scopes, qn_answer = None\<rparr>]\<rparr>))"
| "edge_step env signers tp (Server_answers i ck) s =
     (if i < length (er_asked s) \<and> qn_answer (er_asked s ! i) = None then
        (case call_peer (mtls_link (internal_auth_app env signers ck []) tp) Introspect None
            (JObj [(''token'', JStr (qn_token (er_asked s ! i)))]) (er_server s) of
          (answer, s') \<Rightarrow>
            (None, s\<lparr>er_asked := (er_asked s)[i := (er_asked s ! i)\<lparr>qn_answer := Some answer\<rparr>], er_server := s'\<rparr>))
      else (None, s))"
| "edge_step env signers tp (Call_fails i) s =
     (if i < length (er_asked s)
      then (None, s\<lparr>er_asked := (er_asked s)[i := (er_asked s ! i)\<lparr>qn_answer := Some (Inl (app_err SERVICE_UNAVAILABLE))\<rparr>]\<rparr>)
      else (None, s))"
| "edge_step env signers tp (Answer_comes i now') s =
     (if i < length (er_asked s) then
        (case qn_answer (er_asked s ! i) of
           None \<Rightarrow> (None, s)
         | Some answer \<Rightarrow>
             (let q = er_asked s ! i in
              case introspection_answer env (qn_now q) (qn_token q) answer (er_cache s) of
                (r, cache') \<Rightarrow> (Some (map_sum id (judge_introspected now' (qn_scopes q)) r),
                   s\<lparr>er_cache := cache', er_asked := drop_nth i (er_asked s)\<rparr>)))
      else (None, s))"
| "edge_step env signers tp (Event_comes ev) s = (None, s\<lparr>er_cache := drop_introspections ev (er_cache s)\<rparr>)"
| "edge_step env signers tp (Server_works x) s = (None, s\<lparr>er_server := (fst (er_server s), exec_store env x (snd (er_server s)))\<rparr>)"

definition edge_runs ::
  "env \<Rightarrow> signer list \<Rightarrow> tls_peer \<Rightarrow> edge_event list \<Rightarrow> (touched \<times> database) edge_run \<Rightarrow> (touched \<times> database) edge_run" where
  "edge_runs env signers tp xs s = fold (\<lambda>x s. snd (edge_step env signers tp x s)) xs s"

section \<open>Accounts and exchanges\<close>

type_synonym known_accounts = "(string \<times> jsval) list"

text \<open>\<open>remoteVerifier().account\<close>: an account is kept as it came.\<close>

definition remote_account ::
  "(auth_call, 's) link \<Rightarrow> string \<Rightarrow> known_accounts \<times> 's \<Rightarrow> (error + jsval option) \<times> known_accounts \<times> 's" where
  "remote_account ln i st =
     (case map_of (fst st) i of
        Some a \<Rightarrow> (Inr (Some a), st)
      | None \<Rightarrow>
          (case call_peer ln Account_lookup None (JObj [(''accountId'', JStr i)]) (snd st) of
             (Inl e, s') \<Rightarrow> (Inl e, fst st, s')
           | (Inr (status, body), s') \<Rightarrow>
               if status \<noteq> 200 then (Inl (app_err SERVICE_UNAVAILABLE), fst st, s')
               else if js_truthy (jfield body ''account'')
               then (let m = AList.update i (jfield body ''account'') (fst st) in
                     (Inr (Some (jfield body ''account'')), if 10000 < length m then [] else m, s'))
               else (Inr (if nullish (jfield body ''account'') then None else Some (jfield body ''account'')), fst st, s')))"

text \<open>\<open>code in ERROR_STATUS\<close>, for the codes there are.\<close>

definition all_codes :: "error_code list" where
  "all_codes = [MALFORMED_REQUEST, UNAUTHENTICATED, INSUFFICIENT_SCOPE, NOT_FOUND, DEVICE_NOT_FOUND, DEVICE_NAME_CONFLICT,
     DEVICE_VERSION_CONFLICT, DEVICE_LIMIT_REACHED, USERNAME_TAKEN, VALIDATION_FAILED, INVALID_STATE, RATE_LIMITED, INTERNAL_ERROR,
     SERVICE_UNAVAILABLE]"

definition code_named :: "string \<Rightarrow> error_code option" where
  "code_named s = find (\<lambda>c. code_name c = s) all_codes"

definition remote_error :: "nat \<Rightarrow> jsval \<Rightarrow> error" where
  "remote_error status body =
     (if status = 401 \<and> jfield body ''error'' = JStr ''internal_token_refused''
      then InternalTokenRefused ''refused by the Device Service''
      else (case as_str (jfield (jfield body ''error'') ''code'') of
        None \<Rightarrow> app_err SERVICE_UNAVAILABLE
      | Some s \<Rightarrow>
          (case code_named s of
             None \<Rightarrow> app_err SERVICE_UNAVAILABLE
           | Some c \<Rightarrow> AppError (new_app_error c (as_str (jfield (jfield body ''error'') ''message''))
                (as_str (jfield (jfield body ''error'') ''field''))))))"

definition remote_exchanger :: "(auth_call, 's) link \<Rightarrow> string \<Rightarrow> string \<Rightarrow> 's \<Rightarrow> (error + string \<times> int) \<times> 's" where
  "remote_exchanger ln subject scope s =
     (case call_peer ln Exchange_call None (JObj [(''subject_token'', JStr subject), (''scope'', JStr scope)]) s of
        (Inl e, s') \<Rightarrow> (Inl e, s')
      | (Inr (status, body), s') \<Rightarrow>
          (case as_str (jfield body ''access_token'') of
             Some t \<Rightarrow> if status = 200 then (Inr (t, js_int (jfield body ''expires_in'')), s') else (Inl (remote_error status body), s')
           | None \<Rightarrow> (Inl (remote_error status body), s')))"

definition invoke_device ::
  "(device_op, 's) link \<Rightarrow> device_op \<Rightarrow> string \<Rightarrow> string \<Rightarrow> (string \<times> jsval) list \<Rightarrow> 's \<Rightarrow> (error + jsval) \<times> 's" where
  "invoke_device ln opn token rid extra s =
     (case call_peer ln opn (Some (''Bearer '' @ token)) (JObj ((''requestId'', JStr rid) # extra)) s of
        (Inl e, s') \<Rightarrow> (Inl e, s')
      | (Inr (status, body), s') \<Rightarrow> (if status = 200 then Inr body else Inl (remote_error status body), s'))"

definition js_elements :: "jsval \<Rightarrow> jsval list" where
  "js_elements v = (case v of JArr vs \<Rightarrow> vs | _ \<Rightarrow> [])"

definition opt_str :: "string option \<Rightarrow> jsval" where
  "opt_str v = (case v of None \<Rightarrow> JUndefined | Some s \<Rightarrow> JStr s)"

definition add_json :: "add_input \<Rightarrow> jsval" where
  "add_json inp = JObj [(''name'', opt_str (ad_name inp)), (''idempotencyKey'', opt_str (ad_key inp))]"

definition control_json :: "control_input \<Rightarrow> jsval" where
  "control_json inp = JObj [(''deviceId'', JStr (ci_device inp)), (''state'', ci_state inp), (''expectedVersion'', ci_expected inp)]"

text \<open>\<open>remoteDeviceService\<close>: the peer is not sent, the certificate of the connection says it.\<close>

definition remote_devices :: "(device_op, 's) link \<Rightarrow> 's device_service" where
  "remote_devices ln =
     \<lparr>sv_list = (\<lambda>t peer rid s. case invoke_device ln Op_list t rid [] s of
        (r, s') \<Rightarrow> (map_sum id (\<lambda>b. js_elements (jfield b ''devices'')) r, s')),
      sv_get = (\<lambda>t peer rid i s. case invoke_device ln Op_get t rid [(''deviceId'', JStr i)] s of
        (r, s') \<Rightarrow> (map_sum id (\<lambda>b. jfield b ''device'') r, s')),
      sv_add = (\<lambda>t peer rid inp s. case invoke_device ln Op_add t rid [(''input'', add_json inp)] s of
        (r, s') \<Rightarrow> (map_sum id (\<lambda>b. jfield b ''device'') r, s')),
      sv_control = (\<lambda>t peer rid inp s. case invoke_device ln Op_control t rid [(''input'', control_json inp)] s of
        (r, s') \<Rightarrow> (map_sum id (\<lambda>b. jfield b ''device'') r, s'))\<rparr>"

end
