(* ===== verification/Split_Theorems.thy ===== *)
theory Split_Theorems
  imports Split Account_Theorems
begin

text \<open>
  What running in separate processes keeps: the Device Service over mutual TLS is the local one, nobody without one of the
  two certificates reaches a listener, and an edge stops honouring a revoked grant within its cache time, at once when the
  event reaches it.
\<close>

section \<open>Messages\<close>

text \<open>What an edge sees of an error of the Device Service.\<close>

fun over_wire :: "error \<Rightarrow> error" where
  "over_wire (AppError a) = AppError a"
| "over_wire (InternalTokenRefused m) = InternalTokenRefused ''refused by the Device Service''"
| "over_wire _ = app_err INTERNAL_ERROR"

lemma wired_JStr [simp]: "wired v = JStr s \<longleftrightarrow> v = JStr s"
  by (cases v) auto

lemma wired_JInt [simp]: "wired v = JInt i \<longleftrightarrow> v = JInt i"
  by (cases v) auto

lemma js_truthy_wired [simp]: "js_truthy (wired v) = js_truthy v"
  by (cases v) auto

lemma map_of_wired:
  "map_of (concat (map (\<lambda>(k, v). if v = JUndefined then [] else [(k, wired v)]) fs)) k
     = (case map_of (filter (\<lambda>(k, v). v \<noteq> JUndefined) fs) k of None \<Rightarrow> None | Some v \<Rightarrow> Some (wired v))"
  by (induction fs) auto

lemma map_of_defined:
  "distinct (map fst fs) \<Longrightarrow> map_of (filter (\<lambda>(k, v). v \<noteq> JUndefined) fs) k
     = (case map_of fs k of None \<Rightarrow> None | Some v \<Rightarrow> if v = JUndefined then None else Some v)"
  by (induction fs) (auto simp: map_of_eq_None_iff split: option.splits dest!: map_of_SomeD intro: rev_image_eqI)

lemma jfield_wired:
  "distinct (map fst fs) \<Longrightarrow> jfield (wired (JObj fs)) k = (let v = jfield (JObj fs) k in if v = JUndefined then JUndefined else wired v)"
  by (simp add: map_of_wired map_of_defined Let_def split: option.splits)

lemma code_named_name: "code_named (code_name c) = Some c"
  by (cases c) (simp_all add: code_named_def all_codes_def)

lemma same_app_error: "new_app_error (ae_code a) (Some (ae_message a)) (ae_field a) = a"
  by (simp add: new_app_error_def)

lemma remote_error_over_wire:
  assumes "internal_errors e = (status, body)"
  shows "remote_error status (wired body) = over_wire e \<and> status \<noteq> 200"
proof (cases e)
  case (AppError a)
  have "app_status a \<noteq> 200" by (cases "ae_code a") (simp_all add: app_status_def)
  with assms AppError show ?thesis
    by (auto simp: internal_errors_def remote_error_def code_named_name same_app_error split: option.splits)
next
  case (InternalTokenRefused m)
  with assms show ?thesis by (auto simp: internal_errors_def remote_error_def)
qed (use assms code_named_name [of INTERNAL_ERROR] in
  \<open>auto simp: internal_errors_def remote_error_def new_app_error_def\<close>)

section \<open>The Device Service in another process\<close>

definition fits :: "jsval \<Rightarrow> bool" where
  "fits body \<longleftrightarrow> length (utf8 (json (wired body))) \<le> internal_body_limit"

lemma bearer_token_sent:
  "t \<noteq> [] \<Longrightarrow> \<not> list_ex line_break t \<Longrightarrow> bearer_token (Some (''Bearer '' @ t)) = Inr t"
  by (simp add: bearer_token_def starts_with_def Let_def)

text \<open>A call that the listener takes runs its handler.\<close>

lemma invoke_device_runs:
  assumes "tp_authorized tp" "peer_workload env edges tp = Some w" "t \<noteq> []" "\<not> list_ex line_break t"
    "fits (JObj ((''requestId'', JStr rid) # extra))" "distinct (map fst ((''requestId'', JStr rid) # extra))"
  shows "invoke_device (mtls_link (device_service_app env d wt) tp) opn t rid extra s
    = (case device_handler d wt opn t (take 64 rid) (wired (JObj ((''requestId'', JStr rid) # extra))) w s of
         (Inl e, s') \<Rightarrow> (Inl (over_wire e), s') | (Inr v, s') \<Rightarrow> (Inr (wired v), s'))"
proof -
  define body where "body = wired (JObj ((''requestId'', JStr rid) # extra))"
  define auth where "auth = ''Bearer '' @ t"
  have rid: "internal_request_id body = take 64 rid"
    unfolding internal_request_id_def body_def jfield_wired [OF assms(6)] by simp
  have t: "bearer_token (Some auth) = Inr t" unfolding auth_def using assms(3,4) by (rule bearer_token_sent)
  have size: "\<not> internal_body_limit < length (utf8 (json body))" using assms(5) by (simp add: fits_def body_def)
  obtain r s' where h: "device_handler d wt opn t (take 64 rid) body w s = (r, s')" by fastforce
  have "device_service_app env d wt opn \<lparr>iq_peer = tp, iq_authorization = Some auth, iq_body = body\<rparr> s
      = (case r of Inl e \<Rightarrow> internal_errors e | Inr v \<Rightarrow> (200, v), s')"
    using size assms(2) t rid h by (simp add: device_service_app_def internal_app_def split: sum.splits)
  then show ?thesis
    using assms(1) remote_error_over_wire h unfolding invoke_device_def call_peer_def mtls_link_def
    by (auto simp: auth_def [symmetric] body_def [symmetric] simp del: append_Cons append_Nil wired.simps split: sum.splits prod.splits)
qed

lemma wired_device [simp]: "wired (device_json dv) = device_json dv"
  by (simp add: device_json_def)

definition over_wire_result :: "(error + 'a) \<times> 's \<Rightarrow> (error + 'a) \<times> 's" where
  "over_wire_result r = (map_sum over_wire id (fst r), snd r)"

lemma map_sum_eq:
  "map_sum f g x = Inl e \<longleftrightarrow> (\<exists>a. x = Inl a \<and> e = f a)" "map_sum f g x = Inr v \<longleftrightarrow> (\<exists>a. x = Inr a \<and> v = g a)"
  by (cases x; auto)+

lemma wired_devices: "map wired (map device_json ds) = map device_json ds"
  by simp

lemma control_wired:
  assumes "control_input_of wt (wired (control_json inp)) = inp'"
  shows "control_device now ident inp' db = control_device now ident inp db"
proof -
  have p: "parse_state (wired v) = parse_state v" for v by (simp add: parse_state_def)
  have q: "positive_integer (wired v) = positive_integer v" for v by (cases v) simp_all
  have e: "ci_device inp' = ci_device inp" "parse_state (ci_state inp') = parse_state (ci_state inp)"
    "positive_integer (ci_expected inp') = positive_integer (ci_expected inp)"
    using assms p q by (auto simp: control_input_of_def control_json_def bound_text_def)
  show ?thesis by (simp only: control_device_def e)
qed

lemma add_wired:
  "ad_key inp \<noteq> Some [] \<Longrightarrow> add_input_of wt (wired (add_json inp)) = Some inp"
  by (cases "ad_name inp"; cases "ad_key inp")
    (auto simp: add_input_of_def add_json_def opt_str_def nullish_def bound_text_def intro: add_input.equality)

lemma answers_are_json:
  "sv_list (local_devices d) t w rid s = (Inr vs, s') \<Longrightarrow> map wired vs = vs"
  "sv_get (local_devices d) t w rid i s = (Inr v, s') \<Longrightarrow> wired v = v"
  "sv_add (local_devices d) t w rid inp s = (Inr v, s') \<Longrightarrow> wired v = v"
  "sv_control (local_devices d) t w rid c s = (Inr v, s') \<Longrightarrow> wired v = v"
  by (auto simp: local_devices_def map_sum_def split: sum.splits prod.splits)

text \<open>C25. The Device Service in another process is the local one. Over a connection whose certificate is that of a workload on
  the list, each operation has the effect and the answer it would have in one process for that workload, except that the
  request is known by the first 64 characters of its identifier, and that an error which is no error of the closed set
  comes back as the internal error and a refused token without its reason. This holds for any body the listener
  takes (16 kB), any token a header can carry, and any name, key, state and version an edge sends.\<close>

theorem remote_devices_refine_local:
  assumes "tp_authorized tp" "peer_workload env edges tp = Some w" "t \<noteq> []" "\<not> list_ex line_break t"
    and "ln = mtls_link (device_service_app env d wt) tp"
  shows "(fits (JObj [(''requestId'', JStr rid)]) \<longrightarrow>
       sv_list (remote_devices ln) t p rid s = over_wire_result (sv_list (local_devices d) t w (take 64 rid) s))
    \<and> (fits (JObj [(''requestId'', JStr rid), (''deviceId'', JStr i)]) \<longrightarrow>
       sv_get (remote_devices ln) t p rid i s = over_wire_result (sv_get (local_devices d) t w (take 64 rid) i s))
    \<and> (fits (JObj [(''requestId'', JStr rid), (''input'', add_json inp)]) \<and> ad_key inp \<noteq> Some [] \<longrightarrow>
       sv_add (remote_devices ln) t p rid inp s = over_wire_result (sv_add (local_devices d) t w (take 64 rid) inp s))
    \<and> (fits (JObj [(''requestId'', JStr rid), (''input'', control_json c)]) \<longrightarrow>
       sv_control (remote_devices ln) t p rid c s = over_wire_result (sv_control (local_devices d) t w (take 64 rid) c s))"
proof -
  note runs = invoke_device_runs [OF assms(1-4), where d = d and wt = wt and rid = rid, folded assms(5)]
  have "sv_list (remote_devices ln) t p rid s = over_wire_result (sv_list (local_devices d) t w (take 64 rid) s)"
    if "fits (JObj [(''requestId'', JStr rid)])"
    using runs [where extra = "[]" and opn = Op_list and s = s] that
    by (auto simp: remote_devices_def over_wire_result_def js_elements_def answers_are_json map_sum_eq split: sum.splits prod.splits)
  moreover have "sv_get (remote_devices ln) t p rid i s = over_wire_result (sv_get (local_devices d) t w (take 64 rid) i s)"
    if "fits (JObj [(''requestId'', JStr rid), (''deviceId'', JStr i)])"
    using runs [where extra = "[(''deviceId'', JStr i)]" and opn = Op_get and s = s] that
    by (auto simp: remote_devices_def over_wire_result_def answers_are_json map_sum_eq split: sum.splits prod.splits)
  moreover have "sv_add (remote_devices ln) t p rid inp s = over_wire_result (sv_add (local_devices d) t w (take 64 rid) inp s)"
    if "fits (JObj [(''requestId'', JStr rid), (''input'', add_json inp)]) \<and> ad_key inp \<noteq> Some []"
  proof -
    obtain r s' where r: "sv_add (local_devices d) t w (take 64 rid) inp s = (r, s')" by fastforce
    have "jfield (wired (JObj [(''requestId'', JStr rid), (''input'', add_json inp)])) ''input'' = wired (add_json inp)"
      by (simp add: add_json_def)
    then have "invoke_device ln Op_add t rid [(''input'', add_json inp)] s
        = (case r of Inl e \<Rightarrow> (Inl (over_wire e), s') | Inr v \<Rightarrow> (Inr (wired (JObj [(''device'', v)])), s'))"
      using runs [where extra = "[(''input'', add_json inp)]" and opn = Op_add and s = s] that r
      by (simp add: add_wired del: wired.simps split: sum.splits)
    with r answers_are_json(3) [of d t w "take 64 rid" inp s] show ?thesis
      by (cases r) (simp_all add: remote_devices_def over_wire_result_def)
  qed
  moreover have "sv_control (remote_devices ln) t p rid c s = over_wire_result (sv_control (local_devices d) t w (take 64 rid) c s)"
    if "fits (JObj [(''requestId'', JStr rid), (''input'', control_json c)])"
  proof -
    let ?c = "control_input_of wt (wired (control_json c))"
    have same: "sv_control (local_devices d) t w rid ?c s = sv_control (local_devices d) t w rid c s" for rid
      by (simp add: local_devices_def service_control_def control_wired [OF refl] split: sum.splits)
    obtain r s' where r: "sv_control (local_devices d) t w (take 64 rid) c s = (r, s')" by fastforce
    have "jfield (wired (JObj [(''requestId'', JStr rid), (''input'', control_json c)])) ''input'' = wired (control_json c)"
      by (simp add: control_json_def)
    then have "invoke_device ln Op_control t rid [(''input'', control_json c)] s
        = (case r of Inl e \<Rightarrow> (Inl (over_wire e), s') | Inr v \<Rightarrow> (Inr (wired (JObj [(''device'', v)])), s'))"
      using runs [where extra = "[(''input'', control_json c)]" and opn = Op_control and s = s] that r same
      by (simp del: wired.simps split: sum.splits)
    with r answers_are_json(4) [of d t w "take 64 rid" c s] show ?thesis
      by (cases r) (simp_all add: remote_devices_def over_wire_result_def)
  qed
  ultimately show ?thesis by blast
qed

section \<open>Who is let in\<close>

lemma error_status_range: "error_status c \<noteq> 200" "error_status c < 600"
  by (cases c; simp)+

lemma internal_errors_not_200: "internal_errors e = (st, v) \<Longrightarrow> st \<noteq> 200"
  using error_status_range by (auto simp: internal_errors_def app_status_def split: error.splits)

lemma internal_app_200:
  "internal_app env handle rq s = ((200, v), s') \<Longrightarrow> \<exists>w. peer_workload env edges (iq_peer rq) = Some w \<and> handle w s = (Inr v, s')"
  using internal_errors_not_200 by (force simp: internal_app_def split: if_splits option.splits sum.splits prod.splits)

lemma internal_app_changes:
  "internal_app env handle rq s = (r, s') \<Longrightarrow> s' \<noteq> s \<Longrightarrow> \<exists>w. peer_workload env edges (iq_peer rq) = Some w"
  by (auto simp: internal_app_def split: if_splits option.splits)

lemma peer_workloadD:
  assumes "peer_workload env allowed tp = Some w"
  shows "tp_authorized tp \<and> wl_name w \<in> set allowed \<and> identity_uris (case tp_altname tp of None \<Rightarrow> [] | Some s \<Rightarrow> s) = [workload_uri w]
    \<and> (\<exists>der. tp_raw tp = Some der \<and> wl_cnf w = Cnf_x5t (base64url (en_sha256 env der)))"
proof -
  let ?u = "identity_uris (case tp_altname tp of None \<Rightarrow> [] | Some s \<Rightarrow> s)"
  have u: "tp_authorized tp" "length ?u = 1" "length (List.map_filter workload_named ?u) = 1"
    and w: "\<exists>der. tp_raw tp = Some der \<and> w = certificate_workload env der (hd (List.map_filter workload_named ?u))"
      "hd (List.map_filter workload_named ?u) \<in> set allowed"
    using assms by (auto simp: peer_workload_def Let_def split: if_splits option.splits)
  obtain x where x: "?u = [x]" using u(2) by (auto simp: length_Suc_conv)
  then obtain n where n: "workload_named x = Some n" using u(3) by (auto simp: map_filter_simps split: option.splits)
  then have "x = ''spiffe://iot-switch/'' @ workload_name_str n" by (auto simp: workload_named_def split: if_splits)
  with w x n u(1) show ?thesis by (auto simp: map_filter_simps certificate_workload_def workload_uri_def)
qed

text \<open>An internal token works over one certificate. What the exchange gives a workload over its connection is refused by the
  Device Service, for every operation and with nothing done, when it comes over a connection with another certificate, be
  it of another workload or another one of the same.\<close>

theorem internal_token_bound_to_certificate:
  assumes "jwt_law env sk jwt" "sd_jwt d = jwt"
    and "internal_auth_app env (sk # sks) ck rnd Exchange_call rq s = ((200, body), s')" "jfield body ''access_token'' = JStr t"
    and "peer_workload env edges (iq_peer rq) = Some w" "peer_workload env edges (iq_peer rq') \<noteq> Some w"
    and "iq_authorization rq' = Some (''Bearer '' @ t)" "sd_now_ms d div 1000 < ck_ms ck div 1000 + js_int (jfield body ''expires_in'') + 30"
  shows "\<exists>status reply. device_service_app env d wt opn rq' st = ((status, reply), st) \<and> status \<in> {401, 403, 500}"
proof -
  have "auth_handler env (sk # sks) ck rnd Exchange_call (iq_body rq) w s = (Inr body, s')"
    using internal_app_200 [OF assms(3) [unfolded internal_auth_app_def]] assms(5) by auto
  then obtain subject scope x where x: "exchange_token env (sk # sks) ck rnd \<lparr>xr_workload = w, xr_subject = subject, xr_scope = scope\<rparr> s = (Inr x, s')"
    "body = JObj [(''access_token'', JStr (xd_token x)), (''expires_in'', JInt (xd_expires_in x)),
      (''issued_token_type'', JStr ''urn:ietf:params:oauth:token-type:access_token'')]"
    by (auto split: if_splits option.splits sum.splits prod.splits)
  have refused: "\<exists>m. verify_internal (sd_jwt d) (sd_now_ms d) t peer required rid = Inl (InternalTokenRefused m)"
    if "peer \<noteq> w" for peer required rid
    using exchange_verifies [OF assms(1) x(1), of "sd_now_ms d" peer required rid] that assms(2,4,8) x(2) by (auto simp: js_int_def)
  have h: "\<exists>m. device_handler d wt opn t rid v peer st = (Inl (InternalTokenRefused m), st)" if "peer \<noteq> w" for peer rid v
    using refused [OF that, of "''devices:read''" rid] refused [OF that, of "''devices:create''" rid] refused [OF that, of "''devices:control''" rid]
    by (cases opn) (auto simp: local_devices_def service_list_def service_get_def service_add_def service_control_def split: option.splits)
  have b: "bearer_token (iq_authorization rq') = Inr t \<or> (\<exists>m. bearer_token (iq_authorization rq') = Inl (InternalTokenRefused m))"
    unfolding assms(7) by (auto simp: bearer_token_def Let_def)
  show ?thesis
  proof (cases "peer_workload env edges (iq_peer rq')")
    case None
    then show ?thesis by (simp add: device_service_app_def internal_app_def internal_errors_def)
  next
    case (Some peer)
    with assms(6) have "peer \<noteq> w" by simp
    with h [OF this, of "internal_request_id (iq_body rq')" "iq_body rq'"] b Some show ?thesis
      by (auto simp: device_service_app_def internal_app_def internal_errors_def)
  qed
qed

section \<open>Revocation at an edge\<close>







text \<open>A body with one string of at most 512 characters is within the listener's limit.\<close>

lemma length_utf8: "length (utf8 s) \<le> 2 * length s"
  by (induction s) (auto simp: utf8_def utf8_char_def Let_def)

lemma length_json_escape: "length (json_escape c) \<le> 6"
  by (auto simp: json_escape_def split: option.splits)

lemma length_json_quote: "length (json_quote s) \<le> 6 * length s + 2"
proof -
  have "length (concat (map json_escape s)) \<le> 6 * length s"
    by (induction s) (auto intro: order_trans [OF add_mono [OF length_json_escape]])
  then show ?thesis by (simp add: json_quote_def)
qed

lemma token_fits: "length t \<le> 512 \<Longrightarrow> length (utf8 (json (JObj [(''token'', JStr t)]))) \<le> internal_body_limit"
  using length_utf8 [of "json (JObj [(''token'', JStr t)])"] length_json_quote [of t] length_json_quote [of "''token''"]
  by simp

lemma wired_introspect_reply [simp]: "wired (introspect_reply vt) = introspect_reply vt"
  by (auto simp: introspect_reply_def comp_def split: verified_token.splits option.splits)

definition entry_of :: "int \<Rightarrow> verified \<Rightarrow> introspected" where
  "entry_of now v =
     \<lparr>in_account = ve_account v, in_client = ve_client v, in_grant = ve_grant v, in_scopes = ve_scopes v, in_jkt = ve_jkt v,
      in_expires_at = now + ve_expires_in v * 1000, in_cached_until = now + min cache_seconds (ve_expires_in v) * 1000\<rparr>"

lemma introspected_of_reply:
  "introspected_of now (introspect_reply (Token_ok v)) = entry_of now v"
  "js_truthy (jfield (introspect_reply (Token_ok v)) ''active'')"
  "\<not> (\<exists>v. vt = Token_ok v) \<Longrightarrow> \<not> js_truthy (jfield (introspect_reply vt) ''active'')"
  by (auto simp: introspect_reply_def introspected_of_def entry_of_def js_str_def js_int_def js_strs_def comp_def
      split: verified_token.splits option.splits)

lemma introspect_call:
  assumes "peer_workload env edges tp = Some w" "length t \<le> 512"
    and "verify_access env ck (JStr t) [] (Some (audience_of env (wl_name w))) s = (vt, s')"
  shows "call_peer (mtls_link (internal_auth_app env signers ck rnd) tp) Introspect None (JObj [(''token'', JStr t)]) s
    = (Inr (200, introspect_reply vt), s')"
  using assms token_fits [OF assms(2)] peer_workloadD [OF assms(1)]
  by (simp add: call_peer_def mtls_link_def internal_auth_app_def internal_app_def)

text \<open>Where nothing comes between, what an edge answers without a cached answer is what the authorization server finds for that
  edge's resource.\<close>

lemma remote_oauth_miss:
  assumes "peer_workload env edges tp = Some w" "cached_introspection now (token_key env t) cache = None"
    and "0 < length t" "length t \<le> 512"
    and "verify_access env ck (JStr t) [] (Some (audience_of env (wl_name w))) s = (vt, s')"
  shows "remote_oauth env (mtls_link (internal_auth_app env signers ck rnd) tp) now now' (JStr t) scopes (cache, s)
    = (case vt of
         Token_ok v \<Rightarrow>
           (Inr (if set scopes \<subseteq> set (ve_scopes v)
                 then Token_ok (v\<lparr>ve_expires_in := max 0 ((now + ve_expires_in v * 1000 - now') div 1000)\<rparr>)
                 else Insufficient_scope (ve_grant v) (ve_scopes v) scopes),
            store_introspection now (token_key env t) (entry_of now v) cache, s')
       | _ \<Rightarrow> (Inr Invalid_token, AList.delete (token_key env t) cache, s'))"
proof -
  note a = introspect_call [OF assms(1,4,5), of signers rnd]
  have m: "start_introspection env now (JStr t) cache = Must_ask t" using assms(2-4) by (simp add: start_introspection_def)
  show ?thesis
  proof (cases vt)
    case (Token_ok v)
    with a m show ?thesis
      by (auto simp: remote_oauth_def introspection_answer_def judge_introspected_def introspected_of_reply filter_empty_conv Let_def
          entry_of_def intro: verified.equality)
  next
    case Invalid_token
    with a m show ?thesis by (auto simp: remote_oauth_def introspection_answer_def judge_introspected_def introspected_of_reply(3))
  next
    case (Insufficient_scope g gs rs)
    with a m show ?thesis by (auto simp: remote_oauth_def introspection_answer_def judge_introspected_def introspected_of_reply(3))
  qed
qed

section \<open>Sequences\<close>



text \<open>What the cache may hold: of grant \<open>g\<close> nothing beyond \<open>lim\<close>, nothing at all if there is no limit.\<close>

definition held_until :: "string \<Rightarrow> int option \<Rightarrow> introspections \<Rightarrow> bool" where
  "held_until g lim cache \<longleftrightarrow> (\<forall>e \<in> snd ` set cache. in_grant e = g \<longrightarrow> (case lim of None \<Rightarrow> False | Some l \<Rightarrow> in_cached_until e \<le> l))"






lemma held_until_empty [simp]: "held_until g lim []"
  by (simp add: held_until_def)




lemma edge_runs_simps:
  "edge_runs env signers tp [] s = s"
  "edge_runs env signers tp (x # xs) s = edge_runs env signers tp xs (snd (edge_step env signers tp x s))"
  "edge_runs env signers tp (xs @ ys) s = edge_runs env signers tp ys (edge_runs env signers tp xs s)"
  by (simp_all add: edge_runs_def)




















definition demo_certificate :: tls_peer where
  "demo_certificate = \<lparr>tp_authorized = True, tp_raw = Some ''der'', tp_altname = Some ''DNS:mcp, URI:spiffe://iot-switch/mcp-rs''\<rparr>"

definition demo_edge_workload :: workload where
  "demo_edge_workload = certificate_workload demo_env ''der'' Mcp_rs"

lemma demo_peer: "peer_workload demo_env edges demo_certificate = Some demo_edge_workload"
proof -
  have "identity_uris ''DNS:mcp, URI:spiffe://iot-switch/mcp-rs'' = [''spiffe://iot-switch/mcp-rs'']" by code_simp
  then show ?thesis
    by (simp add: peer_workload_def demo_certificate_def demo_edge_workload_def map_filter_simps workload_named_def edges_def)
qed

definition demo_caller :: verified where
  "demo_caller = \<lparr>ve_account = ''ann'', ve_client = ''app'', ve_grant = gr_id demo_grant_row,
     ve_scopes = [''devices:read'', ''devices:control''], ve_expires_in = 3600, ve_jkt = None\<rparr>"

lemma demo_introspected:
  "\<exists>s'. verify_access demo_env demo_clocks (JStr (mint Access demo_rnd)) [] (Some (audience_of demo_env (wl_name demo_edge_workload))) ([], demo_grants)
     = (Token_ok demo_caller, s') \<and> map gr_id (t_grants (snd s')) = map gr_id (t_grants demo_grants)"
proof -
  let ?v = "verify_access demo_env demo_clocks (JStr (mint Access demo_rnd)) [] (Some (audience_of demo_env (wl_name demo_edge_workload))) ([], demo_grants)"
  have "fst (verify_access demo_env demo_clocks (JStr (mint Access demo_rnd)) [''devices:read''] None ([], demo_grants)) = Token_ok demo_caller"
    using demo_verified by (auto simp: demo_caller_def)
  then have f: "fst ?v = Token_ok demo_caller"
    by (auto simp: verify_access_ok demo_edge_workload_def certificate_workload_def)
  moreover obtain s' where "?v = (Token_ok demo_caller, s')" using f by (metis prod.collapse)
  ultimately show ?thesis using verify_access_state [of demo_env demo_clocks "JStr (mint Access demo_rnd)" "[]"
      "Some (audience_of demo_env (wl_name demo_edge_workload))" "([], demo_grants)"]
      touch_grant_frame [OF prod.collapse [symmetric]] by auto
qed

definition demo_listener :: "(auth_call, touched \<times> database) link" where
  "demo_listener = mtls_link (internal_auth_app demo_env [demo_signer] demo_clocks []) demo_certificate"

definition demo_asking :: "edge_event list" where
  "demo_asking = [Token_comes 0 0 (JStr (mint Access demo_rnd)) [''devices:read''], Server_answers 0 demo_clocks]"

definition demo_edge :: "(touched \<times> database) edge_run" where
  "demo_edge = \<lparr>er_cache = [], er_asked = [], er_server = ([], demo_grants)\<rparr>"

abbreviation demo_runs :: "edge_event list \<Rightarrow> (touched \<times> database) edge_run \<Rightarrow> (touched \<times> database) edge_run" where
  "demo_runs \<equiv> edge_runs demo_env [demo_signer] demo_certificate"

lemma demo_asked:
  "er_cache (demo_runs demo_asking demo_edge) = []
   \<and> er_asked (demo_runs demo_asking demo_edge) = [\<lparr>qn_token = mint Access demo_rnd, qn_now = 0, qn_scopes = [''devices:read''],
        qn_answer = Some (Inr (200, introspect_reply (Token_ok demo_caller)))\<rparr>]
   \<and> map gr_id (t_grants (snd (er_server (demo_runs demo_asking demo_edge)))) = [gr_id demo_grant_row]"
proof -
  obtain s' where v: "verify_access demo_env demo_clocks (JStr (mint Access demo_rnd)) [] (Some (audience_of demo_env (wl_name demo_edge_workload))) ([], demo_grants)
     = (Token_ok demo_caller, s')" "map gr_id (t_grants (snd s')) = map gr_id (t_grants demo_grants)"
    using demo_introspected by blast
  have l: "length (mint Access demo_rnd) \<noteq> 0" "length (mint Access demo_rnd) \<le> 512" by (simp_all add: length_mint demo_rnd_length)
  have "start_introspection demo_env 0 (JStr (mint Access demo_rnd)) [] = Must_ask (mint Access demo_rnd)"
    using l by (simp add: start_introspection_def cached_introspection_def)
  with introspect_call [OF demo_peer l(2) v(1), of "[demo_signer]" "[]"] v(2) show ?thesis
    by (simp add: edge_runs_def demo_asking_def demo_edge_def demo_grants_tables)
qed

text \<open>Once the answer is there, the token is accepted from the cache for thirty seconds of the edge's clock.\<close>

lemma demo_cached:
  assumes "er_cache s = [(token_key demo_env (mint Access demo_rnd), entry_of 0 demo_caller)]"
  shows "fst (edge_step demo_env [demo_signer] demo_certificate (Token_comes 29999 29999 (JStr (mint Access demo_rnd)) [''devices:read'']) s)
    = Some (Inr (Token_ok (demo_caller\<lparr>ve_expires_in := 3570\<rparr>)))"
proof -
  have l: "length (mint Access demo_rnd) \<noteq> 0" "\<not> 512 < length (mint Access demo_rnd)" by (simp_all add: length_mint demo_rnd_length)
  have "start_introspection demo_env 29999 (JStr (mint Access demo_rnd)) (er_cache s) = Decided (Some (entry_of 0 demo_caller))"
    using l by (simp add: start_introspection_def cached_introspection_def assms entry_of_def demo_caller_def)
  then show ?thesis by (simp add: judge_introspected_def entry_of_def demo_caller_def)
qed

lemma demo_stored:
  assumes "er_cache s = []" "er_asked s = [\<lparr>qn_token = mint Access demo_rnd, qn_now = 0, qn_scopes = [''devices:read''],
        qn_answer = Some (Inr (200, introspect_reply (Token_ok demo_caller)))\<rparr>]"
  shows "er_cache (snd (edge_step demo_env [demo_signer] demo_certificate (Answer_comes 0 0) s))
    = [(token_key demo_env (mint Access demo_rnd), entry_of 0 demo_caller)]"
  using assms by (simp add: introspection_answer_def introspected_of_reply store_introspection_def)

text \<open>
  An introspection that is under way when the event arrives is stored after the sweep: the token is accepted for up to
  thirty seconds more, although the event was handled.
\<close>

lemma introspection_races_event:
  "fst (edge_step demo_env [demo_signer] demo_certificate (Token_comes 29999 29999 (JStr (mint Access demo_rnd)) [''devices:read''])
      (demo_runs (demo_asking @ [Server_works (St_revoke 9 (gr_id demo_grant_row)), Event_comes (Grant_revoked (gr_id demo_grant_row)), Answer_comes 0 0])
        demo_edge))
    = Some (Inr (Token_ok (demo_caller\<lparr>ve_expires_in := 3570\<rparr>)))"
proof -
  let ?s = "snd (edge_step demo_env [demo_signer] demo_certificate (Event_comes (Grant_revoked (gr_id demo_grant_row)))
    (snd (edge_step demo_env [demo_signer] demo_certificate (Server_works (St_revoke 9 (gr_id demo_grant_row))) (demo_runs demo_asking demo_edge))))"
  have "er_cache ?s = []" "er_asked ?s = [\<lparr>qn_token = mint Access demo_rnd, qn_now = 0, qn_scopes = [''devices:read''],
        qn_answer = Some (Inr (200, introspect_reply (Token_ok demo_caller)))\<rparr>]"
    using demo_asked by (simp_all add: drop_introspections_def sweep_def)
  from demo_cached [OF demo_stored [OF this]] show ?thesis by (simp only: edge_runs_simps)
qed



section \<open>The other properties at work\<close>

definition demo_cert_claims :: jsval where
  "demo_cert_claims = internal_claims demo_env 0 60 ''r''
     \<lparr>xr_workload = demo_edge_workload, xr_subject = mint Access demo_rnd, xr_scope = ''devices:read''\<rparr>
     \<lparr>su_account = ''ann'', su_client = ''app'', su_grant = gr_id demo_grant_row, su_channel = Ch_mcp,
      su_auth_method = ''oauth'', su_expires_in = 3600\<rparr>"

definition demo_cert_signer :: signer where
  "demo_cert_signer = \<lparr>sg_kid = ''k'',
     sg_sign = (\<lambda>m. if m = utf8 (signing_input demo_signer demo_cert_claims) then Inr ''sig'' else Inl (OtherError ''unavailable''))\<rparr>"

definition demo_cert_jwt :: jwt_verifier where
  "demo_cert_jwt now_ms t = (if t = compact_jwt demo_cert_signer demo_cert_claims ''sig'' then Inr demo_cert_claims else Inl ''signature verification failed'')"

lemma demo_cert_input: "signing_input demo_cert_signer c = signing_input demo_signer c"
  by (simp add: signing_input_def token_header_def demo_cert_signer_def demo_signer_def)

lemma demo_cert_law: "jwt_law demo_env demo_cert_signer demo_cert_jwt"
  unfolding jwt_law_def Let_def
proof (intro allI impI, elim conjE)
  fix now_ms now x rnd rq su signature
  let ?c = "internal_claims demo_env now x rnd rq su"
  assume "sg_sign demo_cert_signer (utf8 (signing_input demo_cert_signer ?c)) = Inr signature"
  then have "utf8 (signing_input demo_signer ?c) = utf8 (signing_input demo_signer demo_cert_claims)" "signature = ''sig''"
    unfolding demo_cert_input by (simp_all add: demo_cert_signer_def split: if_splits)
  then have "?c = demo_cert_claims" "signature = ''sig''"
    by (auto simp: demo_cert_claims_def dest!: utf8_inj signing_input_inj intro: internal_claims_inj)
  then show "demo_cert_jwt now_ms (compact_jwt demo_cert_signer ?c signature) = Inr ?c" by (simp add: demo_cert_jwt_def)
qed

definition demo_exchange_body :: jsval where
  "demo_exchange_body = JObj [(''subject_token'', JStr (mint Access demo_rnd)), (''scope'', JStr ''devices:read'')]"

lemma demo_exchange_size: "length (utf8 (json demo_exchange_body)) \<le> internal_body_limit"
  using length_utf8 [of "json demo_exchange_body"] length_json_quote [of "mint Access demo_rnd"] length_json_quote [of "''subject_token''"]
    length_json_quote [of "''scope''"] length_json_quote [of "''devices:read''"]
  by (simp add: demo_exchange_body_def length_mint demo_rnd_length)

lemma demo_exchange_reply:
  "\<exists>s'. internal_auth_app demo_env [demo_cert_signer] demo_clocks ''r'' Exchange_call
      \<lparr>iq_peer = demo_certificate, iq_authorization = None, iq_body = demo_exchange_body\<rparr> ([], demo_grants)
    = ((200, JObj [(''access_token'', JStr (compact_jwt demo_cert_signer demo_cert_claims ''sig'')), (''expires_in'', JInt 60),
        (''issued_token_type'', JStr ''urn:ietf:params:oauth:token-type:access_token'')]), s')"
proof -
  let ?v = "\<lparr>ve_account = ''ann'', ve_client = ''app'', ve_grant = gr_id demo_grant_row,
          ve_scopes = [''devices:read'', ''devices:control''], ve_expires_in = 3600, ve_jkt = None\<rparr>"
  obtain s' where v: "verify_access demo_env demo_clocks (JStr (mint Access demo_rnd)) [''devices:read''] None ([], demo_grants) = (Token_ok ?v, s')"
    using demo_verified by blast
  have w: "wl_name demo_edge_workload = Mcp_rs" by (simp add: demo_edge_workload_def certificate_workload_def)
  have "sg_sign demo_cert_signer (utf8 (signing_input demo_cert_signer demo_cert_claims)) = Inr ''sig''"
    unfolding demo_cert_input by (simp add: demo_cert_signer_def)
  then have "exchange_token demo_env [demo_cert_signer] demo_clocks ''r''
      \<lparr>xr_workload = demo_edge_workload, xr_subject = mint Access demo_rnd, xr_scope = ''devices:read''\<rparr> ([], demo_grants)
    = (Inr \<lparr>xd_token = compact_jwt demo_cert_signer demo_cert_claims ''sig'', xd_expires_in = 60, xd_grant = gr_id demo_grant_row\<rparr>, s')"
    using v w by (simp add: exchange_token_def resolve_subject_def demo_cert_claims_def demo_clocks_def Let_def)
  moreover have "jfield demo_exchange_body ''subject_token'' = JStr (mint Access demo_rnd)" "jfield demo_exchange_body ''scope'' = JStr ''devices:read''"
    by (simp_all add: demo_exchange_body_def)
  ultimately show ?thesis using demo_exchange_size
    by (simp add: internal_auth_app_def internal_app_def demo_peer scopes_all_def)
qed

definition demo_thief :: tls_peer where
  "demo_thief = demo_certificate\<lparr>tp_raw := Some ''other''\<rparr>"

definition demo_service :: service_draw where
  "demo_service = \<lparr>sd_jwt = demo_cert_jwt, sd_nfkc = (\<lambda>s. s), sd_sha256 = (\<lambda>s. s), sd_now_ms = 9, sd_now = 9, sd_new_id = ''d''\<rparr>"

definition demo_texts :: wire_texts where
  "demo_texts = \<lparr>wt_number = [], wt_bound = (\<lambda>v. [])\<rparr>"

definition demo_service_state :: edge_state where
  "demo_service_state = \<lparr>es_touched = [], es_db = demo_account_db, es_windows = [], es_seen = []\<rparr>"

theorem internal_token_bound_to_certificate_witness:
  "\<exists>status reply. device_service_app demo_env demo_service demo_texts Op_list
      \<lparr>iq_peer = demo_thief, iq_authorization = Some (''Bearer '' @ compact_jwt demo_cert_signer demo_cert_claims ''sig''), iq_body = JObj []\<rparr>
      demo_service_state = ((status, reply), demo_service_state) \<and> status \<in> {401, 403, 500}"
proof -
  obtain s' where r: "internal_auth_app demo_env [demo_cert_signer] demo_clocks ''r'' Exchange_call
      \<lparr>iq_peer = demo_certificate, iq_authorization = None, iq_body = demo_exchange_body\<rparr> ([], demo_grants)
    = ((200, JObj [(''access_token'', JStr (compact_jwt demo_cert_signer demo_cert_claims ''sig'')), (''expires_in'', JInt 60),
        (''issued_token_type'', JStr ''urn:ietf:params:oauth:token-type:access_token'')]), s')"
    using demo_exchange_reply by blast
  have "identity_uris ''DNS:mcp, URI:spiffe://iot-switch/mcp-rs'' = [''spiffe://iot-switch/mcp-rs'']" by code_simp
  then have "peer_workload demo_env edges demo_thief = Some (certificate_workload demo_env ''other'' Mcp_rs)"
    by (simp add: peer_workload_def demo_thief_def demo_certificate_def map_filter_simps workload_named_def edges_def)
  moreover have "certificate_workload demo_env ''other'' Mcp_rs \<noteq> demo_edge_workload"
    by (auto simp: certificate_workload_def demo_edge_workload_def demo_env_def dest!: base64url_inj)
  ultimately have "peer_workload demo_env edges demo_thief \<noteq> Some demo_edge_workload" by simp
  with internal_token_bound_to_certificate [OF demo_cert_law _ r, of demo_service "compact_jwt demo_cert_signer demo_cert_claims ''sig''"
      demo_edge_workload "\<lparr>iq_peer = demo_thief, iq_authorization = Some (''Bearer '' @ compact_jwt demo_cert_signer demo_cert_claims ''sig''), iq_body = JObj []\<rparr>"
      demo_texts Op_list demo_service_state] demo_peer
  show ?thesis by (simp add: demo_service_def demo_clocks_def js_int_def)
qed

lemma demo_identity:
  "verify_internal demo_cert_jwt 9 (compact_jwt demo_cert_signer demo_cert_claims ''sig'') demo_edge_workload ''devices:read'' rid
    = Inr \<lparr>id_account = ''ann'', id_channel = Ch_mcp, id_request = Some rid, id_client = Some ''app'', id_grant = Some (gr_id demo_grant_row),
        id_via = Some (workload_uri demo_edge_workload), id_auth_method = Some ''oauth''\<rparr>"
  by (simp add: verify_internal_def demo_cert_jwt_def demo_cert_claims_def confirms_iff)

lemma compact_jwt_plain: "\<not> list_ex line_break (compact_jwt sk c sig) \<and> compact_jwt sk c sig \<noteq> []"
proof -
  have "\<not> line_break z" if "z \<in> set (base64url s)" for z s
    using base64url_chars [OF that] by (auto simp: line_break_def b64url_char_def is_alnum_def Let_def)
  then show ?thesis by (auto simp: compact_jwt_def signing_input_def b64url_json_def list_ex_iff line_break_def)
qed

theorem remote_devices_refine_local_witness:
  "fst (sv_get (remote_devices (mtls_link (device_service_app demo_env demo_service demo_texts) demo_certificate))
     (compact_jwt demo_cert_signer demo_cert_claims ''sig'') demo_edge_workload ''req_1'' ''dev_1'' demo_service_state) = Inl (app_err DEVICE_NOT_FOUND)"
proof -
  have f: "fits (JObj [(''requestId'', JStr ''req_1''), (''deviceId'', JStr ''dev_1'')])" unfolding fits_def by code_simp
  have l: "fst (sv_get (local_devices demo_service) (compact_jwt demo_cert_signer demo_cert_claims ''sig'') demo_edge_workload
      (take 64 ''req_1'') ''dev_1'' demo_service_state) = Inl (app_err DEVICE_NOT_FOUND)"
    using demo_identity
    by (simp add: local_devices_def service_get_def demo_service_def get_device_def demo_service_state_def demo_account_db_def empty_db_def owned_row_def)
  have "tp_authorized demo_certificate" by (simp add: demo_certificate_def)
  from remote_devices_refine_local [OF this demo_peer conjunct2 [OF compact_jwt_plain] conjunct1 [OF compact_jwt_plain] refl,
      THEN conjunct2, THEN conjunct1, rule_format, OF f] l
  show ?thesis by (simp add: over_wire_result_def)
qed

text \<open>A body beyond the listener's limit, which an edge's own limit of 64 kB lets through, is an internal error and not the
  invalid name it would be in one process.\<close>

lemma long_body_internal_error:
  assumes "tp_authorized tp" "\<not> fits (JObj ((''requestId'', JStr rid) # extra))"
  shows "fst (invoke_device (mtls_link (device_service_app env d wt) tp) opn t rid extra s) = Inl (app_err INTERNAL_ERROR)"
proof -
  define body where "body = wired (JObj ((''requestId'', JStr rid) # extra))"
  have "internal_body_limit < length (utf8 (json body))" using assms(2) by (simp add: fits_def body_def)
  then have "device_service_app env d wt opn \<lparr>iq_peer = tp, iq_authorization = auth, iq_body = body\<rparr> s
      = (internal_errors (OtherError ''request entity too large''), s)" for auth
    by (simp add: device_service_app_def internal_app_def)
  then show ?thesis
    using assms(1) remote_error_over_wire [of "OtherError ''request entity too large''"] unfolding invoke_device_def call_peer_def mtls_link_def
    by (auto simp: body_def [symmetric] simp del: wired.simps split: prod.splits)
qed

end
