(* ===== verification/Mcp_Registry.thy ===== *)
theory Mcp_Registry
  imports Mcp_Tools Account_Pages
begin

text \<open>
  What the MCP endpoint declares: the views of \<open>server/src/mcp/ui/index.ts\<close>, assembled from assets, and the registration of
  the tools and resources in \<open>server/src/mcp/tools.ts\<close> and \<open>server/src/mcp/resources.ts\<close> with their titles, schemas,
  annotations and metadata. A schema is the part of zod the source uses; the MCP library calls a handler only with
  arguments that pass the tool's input schema, and a host checks a result against its output schema.
\<close>

section \<open>Schemas\<close>

datatype schema =
    Text nat "nat option"
  | One_of "string list"
  | Whole bool
  | Truth
  | List_of schema
  | Shape "(string \<times> bool \<times> schema) list"

text \<open>
  \<open>Whole True\<close> is \<open>z.number().int().positive()\<close>. The members of a shape are marked when they are required. A value of a shape
  has no member the shape does not have, which is what a host checks.
\<close>

fun conforms :: "schema \<Rightarrow> jsval \<Rightarrow> bool" where
  "conforms (Text lo hi) v = (case v of JStr s \<Rightarrow> lo \<le> length s \<and> (case hi of None \<Rightarrow> True | Some h \<Rightarrow> length s \<le> h) | _ \<Rightarrow> False)"
| "conforms (One_of ss) v = (case v of JStr s \<Rightarrow> s \<in> set ss | _ \<Rightarrow> False)"
| "conforms (Whole pos) v = (case v of JInt i \<Rightarrow> pos \<longrightarrow> 0 < i | _ \<Rightarrow> False)"
| "conforms Truth v = (case v of JBool b \<Rightarrow> True | _ \<Rightarrow> False)"
| "conforms (List_of sc) v = (case v of JArr vs \<Rightarrow> list_all (conforms sc) vs | _ \<Rightarrow> False)"
| "conforms (Shape fs) v = (case v of
     JObj ms \<Rightarrow> list_all (\<lambda>(k, req, sc). case map_of ms k of None \<Rightarrow> \<not> req | Some w \<Rightarrow> conforms sc w) fs
       \<and> list_all (\<lambda>(k, w). k \<in> set (map fst fs)) ms
   | _ \<Rightarrow> False)"

definition any_text :: schema where
  "any_text = Text 0 None"

definition device_schema :: schema where
  "device_schema = Shape
     [(''id'', True, any_text), (''name'', True, any_text), (''state'', True, One_of [''on'', ''off'']), (''version'', True, Whole False),
      (''createdAt'', True, any_text), (''updatedAt'', True, any_text)]"

section \<open>Views\<close>

text \<open>The asset files, the digest and UI_DIAGNOSTICS.\<close>

record ui_build =
  ub_read :: "string \<Rightarrow> string"
  ub_sha256 :: "string \<Rightarrow> string"
  ub_diagnostics :: bool

definition nl :: string where
  "nl = [CHR 0x0A]"

definition build_hash :: "ui_build \<Rightarrow> string" where
  "build_hash ub = take 8 (hex (ub_sha256 ub (join_with nl (map (ub_read ub) [''styles.css'', ''bridge.js'', ''devices.js'', ''devices.body.html'']))))"

definition ui_page :: "ui_build \<Rightarrow> string \<Rightarrow> string \<Rightarrow> string \<Rightarrow> string" where
  "ui_page ub title body script = join_with nl
     [''<!doctype html>'', ''<html lang=\"en\">'', ''<head>'', ''<meta charset=\"utf-8\">'',
      ''<meta name=\"viewport\" content=\"width=device-width, initial-scale=1, viewport-fit=cover\">'',
      if ub_diagnostics ub then ''<meta name=\"iot-build\" content=\"'' @ build_hash ub @ ''\">'' else [],
      ''<title>'' @ title @ ''</title>'', ''<style>'', ub_read ub ''styles.css'', ''</style>'', ''</head>'',
      ''<body'' @ (if ub_diagnostics ub then '' data-diagnostics'' else []) @ ''>'', ub_read ub body,
      ''<script>'', ub_read ub ''bridge.js'', ''</script>'', ''<script>'', ub_read ub script, ''</script>'',
      ''</body>'', ''</html>'', []]"

record ui_resource =
  ur_uri :: string
  ur_name :: string
  ur_title :: string
  ur_description :: string
  ur_html :: string

definition ui_view :: "ui_build \<Rightarrow> string \<Rightarrow> string \<Rightarrow> string \<Rightarrow> ui_resource" where
  "ui_view ub name title description =
     (let html = ui_page ub title (name @ ''.body.html'') (name @ ''.js''); h = take 8 (hex (ub_sha256 ub html)) in
      \<lparr>ur_uri = ''ui://iot/'' @ name @ ''.'' @ h @ ''.html'', ur_name = name, ur_title = title, ur_description = description, ur_html = html\<rparr>)"

definition ui_resources :: "ui_build \<Rightarrow> ui_resource list" where
  "ui_resources ub =
     [ui_view ub ''auth'' ''Sign in to IoT Switch'' ''Signed-out entry point. Contains no credential fields.'',
      ui_view ub ''devices'' ''Devices'' ''Your devices, each with a switch.'',
      ui_view ub ''device'' ''Device'' ''One device, its state and a switch.'',
      ui_view ub ''add-device'' ''Add a device'' ''Add a device by name. New devices start Off.'']"

text \<open>\<open>uriOf\<close>; the name is one of the resources'.\<close>

definition uri_of :: "ui_build \<Rightarrow> string \<Rightarrow> string" where
  "uri_of ub name = (case find (\<lambda>r. ur_name r = name) (ui_resources ub) of None \<Rightarrow> [] | Some r \<Rightarrow> ur_uri r)"

definition ui_mime :: string where
  "ui_mime = ''text/html;profile=mcp-app''"

definition empty_csp :: jsval where
  "empty_csp = JObj [(''connectDomains'', JArr []), (''resourceDomains'', JArr []), (''baseUriDomains'', JArr [])]"

definition ui_resource_meta :: jsval where
  "ui_resource_meta = JObj [(''ui'', JObj [(''csp'', empty_csp), (''prefersBorder'', JBool True)])]"

definition ui_tool_meta :: "string \<Rightarrow> string list \<Rightarrow> jsval" where
  "ui_tool_meta uri visibility =
     JObj [(''ui'', JObj [(''resourceUri'', JStr uri), (''visibility'', JArr (map JStr visibility))]), (''openai/outputTemplate'', JStr uri)]"

text \<open>A resource as it is listed, and the answer to reading it under the URI of the request.\<close>

definition resource_entry :: "ui_resource \<Rightarrow> jsval" where
  "resource_entry r = JObj [(''name'', JStr (ur_name r)), (''uri'', JStr (ur_uri r)), (''title'', JStr (ur_title r)),
     (''description'', JStr (ur_description r)), (''mimeType'', JStr ui_mime), (''_meta'', ui_resource_meta)]"

definition resource_contents :: "ui_resource \<Rightarrow> string \<Rightarrow> jsval" where
  "resource_contents r href = JObj [(''contents'', JArr [JObj [(''uri'', JStr href), (''mimeType'', JStr ui_mime), (''text'', JStr (ur_html r))]])]"

section \<open>Tools\<close>

record tool_entry =
  te_name :: string
  te_title :: string
  te_description :: string
  te_input :: schema
  te_output :: schema
  te_annotations :: annotations
  te_meta :: jsval

text \<open>\<open>registerTool\<close>; a tool without a policy throws.\<close>

definition register_tool :: "string \<Rightarrow> string \<Rightarrow> string \<Rightarrow> schema \<Rightarrow> schema \<Rightarrow> jsval \<Rightarrow> error + tool_entry" where
  "register_tool name title description inp out meta =
     map_sum id (\<lambda>a. \<lparr>te_name = name, te_title = title, te_description = description, te_input = inp, te_output = out,
        te_annotations = a, te_meta = meta\<rparr>) (annotations_for name)"

definition both :: "string list" where
  "both = [''model'', ''app'']"

definition visible_to :: "string list \<Rightarrow> jsval" where
  "visible_to visibility = JObj [(''ui'', JObj [(''visibility'', JArr (map JStr visibility))])]"

definition one_device :: schema where
  "one_device = Shape [(''device'', True, device_schema)]"

definition device_tools :: "ui_build \<Rightarrow> (error + tool_entry) list" where
  "device_tools ub =
     [register_tool ''list_devices'' ''List devices''
        ''List every device on the signed-in account, oldest first. Each device includes the version required to change its state.''
        (Shape []) (Shape [(''devices'', True, List_of device_schema)]) (ui_tool_meta (uri_of ub ''devices'') both),
      register_tool ''get_device'' ''Get device''
        ''Fetch one device by id, including the version required to change its state. Device ids come from list_devices; never guess one.''
        (Shape [(''deviceId'', True, Text 1 None)]) one_device (ui_tool_meta (uri_of ub ''device'') both),
      register_tool ''control_device'' ''Control device''
        (''Switch a device on or off. Requires expectedVersion, which must be the version from a ''
          @ ''current read: call get_device or list_devices first if you do not have one. If the ''
          @ ''version is stale the call is refused and nothing changes '' @ [CHR 0xE2, CHR 0x80, CHR 0x94] @ '' read again and retry with ''
          @ ''the new version rather than resending.'')
        (Shape [(''deviceId'', True, Text 1 None), (''state'', True, One_of [''on'', ''off'']), (''expectedVersion'', True, Whole True)])
        one_device (visible_to both),
      register_tool ''add_device'' ''Add device''
        ''Add a device to the signed-in account. New devices start Off. Names must be unique within the account, ignoring case and surrounding whitespace.''
        (Shape [(''name'', True, Text 1 (Some 64))]) one_device (visible_to both),
      register_tool ''get_auth_status'' ''Authentication status''
        ''Report whether this connection is signed in, and to which account. Never returns a token. Safe to call before authorizing.''
        (Shape []) (Shape [(''authenticated'', True, Truth), (''accountId'', False, any_text), (''username'', False, any_text)])
        (visible_to [''app''])]"

definition presentation_tools :: "ui_build \<Rightarrow> (error + tool_entry) list" where
  "presentation_tools ub =
     [register_tool ''show_auth'' ''Show sign-in''
        ''Display the sign-up / log-in entry card. Public, and performs no authentication itself: the card asks the host to authorize when the person chooses to.''
        (Shape [(''mode'', False, One_of [''login'', ''signup''])])
        (Shape [(''mode'', True, One_of [''login'', ''signup'']), (''authenticated'', True, Truth)]) (ui_tool_meta (uri_of ub ''auth'') both),
      register_tool ''show_add_device'' ''Show the add-device form''
        ''Display a form for adding a device. Presentation only: it creates nothing until the person submits it, which calls add_device.''
        (Shape []) (Shape [(''ready'', True, Truth)]) (ui_tool_meta (uri_of ub ''add-device'') both)]"

text \<open>\<open>buildServer\<close>: what is registered, or the exception of a tool that has no policy.\<close>

definition registered_tools :: "ui_build \<Rightarrow> error + tool_entry list" where
  "registered_tools ub = sum_list_of (device_tools ub @ presentation_tools ub)"

text \<open>The arguments a handler is given.\<close>

definition text_of :: "jsval \<Rightarrow> string" where
  "text_of v = (case as_str v of Some s \<Rightarrow> s | None \<Rightarrow> [])"

definition call_with :: "string \<Rightarrow> jsval \<Rightarrow> tool_call option" where
  "call_with name args =
     (if name = ''list_devices'' then Some Call_list
      else if name = ''get_device'' then Some (Call_get (text_of (jfield args ''deviceId'')))
      else if name = ''control_device''
      then Some (Call_control \<lparr>ci_device = text_of (jfield args ''deviceId''), ci_state = jfield args ''state'', ci_expected = jfield args ''expectedVersion''\<rparr>)
      else if name = ''add_device'' then Some (Call_add (text_of (jfield args ''name'')))
      else if name = ''get_auth_status'' then Some Call_auth_status
      else if name = ''show_auth'' then Some (Call_show_auth (as_str (jfield args ''mode'')))
      else if name = ''show_add_device'' then Some Call_show_add_device
      else None)"

section \<open>What they promise\<close>

text \<open>A result of a tool: an error without structured content, or structured content of the declared shape.\<close>

definition well_formed_content :: "jsval \<Rightarrow> bool" where
  "well_formed_content r \<longleftrightarrow> (\<exists>t. jfield r ''content'' = JArr [JObj [(''type'', JStr ''text''), (''text'', JStr t)]])"

definition result_of_type :: "schema \<Rightarrow> jsval \<Rightarrow> bool" where
  "result_of_type out r \<longleftrightarrow> well_formed_content r
     \<and> (if jfield r ''isError'' = JBool True then jfield r ''structuredContent'' = JUndefined
        else jfield r ''isError'' = JUndefined \<and> conforms out (jfield r ''structuredContent''))"

text \<open>The devices a client is given are device objects.\<close>

locale typed_devices =
  fixes sv :: "'s device_service"
  assumes list_typed: "sv_list sv t peer rid s = (Inr ds, s') \<Longrightarrow> list_all (conforms device_schema) ds"
    and get_typed: "sv_get sv t peer rid i s = (Inr d, s') \<Longrightarrow> conforms device_schema d"
    and add_typed: "sv_add sv t peer rid inp s = (Inr d, s') \<Longrightarrow> conforms device_schema d"
    and control_typed: "sv_control sv t peer rid c s = (Inr d, s') \<Longrightarrow> conforms device_schema d"

lemma run_call_Inr:
  assumes "run_call ex w tr tr' c scope call st = (Inr v, st')" "\<And>t s s'. call t w s = (Inr v, s') \<Longrightarrow> P v"
  shows "P v"
  using assms
  by (auto simp: run_call_def try_call_def split: prod.splits sum.splits error.splits)

lemma error_typed [simp]: "result_of_type out (tool_error e challenge)"
  by (auto simp: result_of_type_def well_formed_content_def tool_error_def text_content_def Let_def split: error.splits)

lemma device_typed [simp]: "conforms device_schema d \<Longrightarrow> result_of_type one_device (device_result t d)"
  by (simp add: result_of_type_def well_formed_content_def device_result_def text_content_def one_device_def)

lemma list_typed_result [simp]:
  "list_all (conforms device_schema) ds \<Longrightarrow>
     result_of_type (Shape [(''devices'', True, List_of device_schema)]) (JObj [text_content t, (''structuredContent'', JObj [(''devices'', JArr ds)])])"
  by (simp add: result_of_type_def well_formed_content_def text_content_def)

context typed_devices begin

lemma runs_typed:
  "run_for dp c scope (\<lambda>t peer. sv_list sv t peer rid) st = (Inr ds, st') \<Longrightarrow> list_all (conforms device_schema) ds"
  "run_for dp c scope (\<lambda>t peer. sv_get sv t peer rid i) st = (Inr d, st') \<Longrightarrow> conforms device_schema d"
  "run_for dp c scope (\<lambda>t peer. sv_add sv t peer rid inp) st = (Inr d, st') \<Longrightarrow> conforms device_schema d"
  "run_for dp c scope (\<lambda>t peer. sv_control sv t peer rid cn) st = (Inr d, st') \<Longrightarrow> conforms device_schema d"
  unfolding run_for_def by (erule run_call_Inr, erule list_typed get_typed add_typed control_typed)+

lemma tool_typed:
  assumes "dp_devices dp = sv"
  shows "result_of_type (Shape [(''devices'', True, List_of device_schema)]) (fst (list_tool dp cl challenge st))"
    and "result_of_type one_device (fst (get_tool dp cl challenge i st))"
    and "result_of_type one_device (fst (control_tool dp cl challenge inp st))"
    and "result_of_type one_device (fst (add_tool dp cl challenge n st))"
  unfolding list_tool_def get_tool_def control_tool_def add_tool_def assms
  by (auto dest!: runs_typed split: caller.splits prod.splits sum.splits bucket_result.splits)

end

interpretation local_typed: typed_devices "local_devices d"
proof -
  have "conforms device_schema (device_json dv)" for dv
    by (cases "d_state dv") (simp_all add: device_json_def device_schema_def any_text_def)
  then show "typed_devices (local_devices d)"
    by unfold_locales (auto simp: local_devices_def map_sum_def list_all_iff split: sum.splits prod.splits)
qed

lemma auth_status_typed:
  "result_of_type (Shape [(''authenticated'', True, Truth), (''accountId'', False, any_text), (''username'', False, any_text)])
     (fst (auth_status_tool dp cl st))"
proof (cases "case cl of Anonymous_caller r \<Rightarrow> (Inr None, snd st) | Verified_caller c \<Rightarrow> dp_account dp (vc_account c) (snd st)")
  case (Pair r s)
  show ?thesis
  proof (cases r)
    case (Inl e)
    with Pair show ?thesis by (simp add: auth_status_tool_def)
  next
    case (Inr a)
    with Pair show ?thesis
      by (cases a) (simp_all add: auth_status_tool_def result_of_type_def well_formed_content_def text_content_def any_text_def)
  qed
qed

lemma presentation_typed:
  "mode = None \<or> mode = Some ''login'' \<or> mode = Some ''signup'' \<Longrightarrow>
     result_of_type (Shape [(''mode'', True, One_of [''login'', ''signup'']), (''authenticated'', True, Truth)]) (show_auth_tool mode)"
  "result_of_type (Shape [(''ready'', True, Truth)]) show_add_device_tool"
  by (auto simp: show_auth_tool_def show_add_device_tool_def result_of_type_def well_formed_content_def text_content_def)

lemma registered_tools_ok: "\<exists>es. registered_tools ub = Inr es"
  by (simp add: registered_tools_def device_tools_def presentation_tools_def register_tool_def annotations_for_def policy_for_def
      tool_policies_def)

lemma length_collapse_runs: "length (collapse_runs s) \<le> length s"
  by (induction s rule: collapse_runs.induct) (auto intro: order_trans [OF _ length_dropWhile_le])

lemma display_name_shorter: "length (display_device_name n) \<le> length n"
  using length_collapse_runs [of "trim n"] length_dropWhile_le [of is_ws n] length_dropWhile_le [of is_ws "rev (dropWhile is_ws n)"]
  by (simp add: display_device_name_def collapse_whitespace_def trim_def)

text \<open>The tools there are, with their input and output schemas.\<close>

definition interface :: "(string \<times> schema \<times> schema) list" where
  "interface =
     [(''list_devices'', Shape [], Shape [(''devices'', True, List_of device_schema)]),
      (''get_device'', Shape [(''deviceId'', True, Text 1 None)], one_device),
      (''control_device'', Shape [(''deviceId'', True, Text 1 None), (''state'', True, One_of [''on'', ''off'']), (''expectedVersion'', True, Whole True)],
       one_device),
      (''add_device'', Shape [(''name'', True, Text 1 (Some 64))], one_device),
      (''get_auth_status'', Shape [], Shape [(''authenticated'', True, Truth), (''accountId'', False, any_text), (''username'', False, any_text)]),
      (''show_auth'', Shape [(''mode'', False, One_of [''login'', ''signup''])],
       Shape [(''mode'', True, One_of [''login'', ''signup'']), (''authenticated'', True, Truth)]),
      (''show_add_device'', Shape [], Shape [(''ready'', True, Truth)])]"

lemma registered_interface:
  "registered_tools ub = Inr es \<Longrightarrow> map (\<lambda>e. (te_name e, te_input e, te_output e)) es = interface"
  by (auto simp: registered_tools_def device_tools_def presentation_tools_def register_tool_def annotations_for_def policy_for_def
      tool_policies_def interface_def)

text \<open>C27. The tools keep their declared types. Every tool has a policy, and every tool that is registered has a handler: given
  arguments that pass its input schema, it answers, whoever calls it and in whatever state, with a text and either an
  error without structured content or structured content that is exactly of its output schema. A control that passed its
  schema names a state and a version the Device Service takes, and an added name is not too long for it.\<close>

theorem tool_interface_typed:
  assumes "registered_tools ub = Inr es" "e \<in> set es" "conforms (te_input e) args"
  shows "\<exists>call. call_with (te_name e) args = Some call \<and> tool_name call = te_name e \<and> policy_for (te_name e) \<noteq> None
    \<and> result_of_type (te_output e) (fst (run_tool (local_tools env signers w tr tr' d enforcing now) cl challenge call st))
    \<and> (case call of
         Call_control inp \<Rightarrow> parse_state (ci_state inp) \<noteq> None \<and> positive_integer (ci_expected inp) \<noteq> None
       | Call_add n \<Rightarrow> length (display_device_name n) \<le> 64
       | _ \<Rightarrow> True)"
proof -
  let ?dp = "local_tools env signers w tr tr' d enforcing now"
  have dv: "dp_devices ?dp = local_devices d" by (simp add: local_tools_def)
  note typed = local_typed.tool_typed [OF dv]
  have i: "(te_name e, te_input e, te_output e) \<in> set interface"
    using assms(2) unfolding registered_interface [OF assms(1), symmetric] by force
  have "policy_for n \<noteq> None" if "n \<in> set (map fst interface)" for n
    using that by (auto simp: interface_def policy_for_def tool_policies_def)
  from this [of "te_name e"] i have p: "policy_for (te_name e) \<noteq> None" by force
  have name: "\<exists>n. jfield args ''name'' = JStr n \<and> length n \<le> 64" if "te_input e = Shape [(''name'', True, Text 1 (Some 64))]"
    using assms(3) that by (cases args) (auto split: option.splits jsval.splits)
  have args: "(jfield args ''state'' = JStr ''on'' \<or> jfield args ''state'' = JStr ''off'') \<and> (\<exists>i. jfield args ''expectedVersion'' = JInt i \<and> 0 < i)"
    if "te_input e = Shape [(''deviceId'', True, Text 1 None), (''state'', True, One_of [''on'', ''off'']), (''expectedVersion'', True, Whole True)]"
    using assms(3) that by (cases args) (auto split: option.splits jsval.splits)
  have mode: "as_str (jfield args ''mode'') = None \<or> as_str (jfield args ''mode'') = Some ''login'' \<or> as_str (jfield args ''mode'') = Some ''signup''"
    if "te_input e = Shape [(''mode'', False, One_of [''login'', ''signup''])]"
    using assms(3) that by (cases args) (auto split: option.splits jsval.splits)
  from i consider
      (list) "te_name e = ''list_devices''" "te_output e = Shape [(''devices'', True, List_of device_schema)]"
    | (get) "te_name e = ''get_device''" "te_output e = one_device"
    | (control) "te_name e = ''control_device''" "te_output e = one_device"
        "te_input e = Shape [(''deviceId'', True, Text 1 None), (''state'', True, One_of [''on'', ''off'']), (''expectedVersion'', True, Whole True)]"
    | (add) "te_name e = ''add_device''" "te_output e = one_device" "te_input e = Shape [(''name'', True, Text 1 (Some 64))]"
    | (status) "te_name e = ''get_auth_status''"
        "te_output e = Shape [(''authenticated'', True, Truth), (''accountId'', False, any_text), (''username'', False, any_text)]"
    | (show_auth) "te_name e = ''show_auth''" "te_input e = Shape [(''mode'', False, One_of [''login'', ''signup''])]"
        "te_output e = Shape [(''mode'', True, One_of [''login'', ''signup'']), (''authenticated'', True, Truth)]"
    | (show_add) "te_name e = ''show_add_device''" "te_output e = Shape [(''ready'', True, Truth)]"
    by (auto simp: interface_def)
  then show ?thesis
  proof cases
    case list
    with p typed(1) show ?thesis by (simp add: call_with_def del: conforms.simps)
  next
    case get
    with p typed(2) show ?thesis by (simp add: call_with_def del: conforms.simps)
  next
    case control
    obtain i where "jfield args ''expectedVersion'' = JInt i" "0 < i" "jfield args ''state'' = JStr ''on'' \<or> jfield args ''state'' = JStr ''off''"
      using args [OF control(3)] by blast
    with p typed(3) control show ?thesis by (auto simp: call_with_def parse_state_def simp del: conforms.simps)
  next
    case add
    then obtain n where "jfield args ''name'' = JStr n" "length n \<le> 64" using name by blast
    with add p typed(4) display_name_shorter [of n] show ?thesis
      by (simp add: call_with_def text_of_def del: conforms.simps)
  next
    case status
    with p auth_status_typed show ?thesis by (simp add: call_with_def del: conforms.simps)
  next
    case show_auth
    with p presentation_typed(1) [OF mode] show ?thesis by (simp add: call_with_def del: conforms.simps)
  next
    case show_add
    with p presentation_typed(2) show ?thesis by (simp add: call_with_def del: conforms.simps)
  qed
qed

definition demo_build :: ui_build where
  "demo_build = \<lparr>ub_read = (\<lambda>f. f), ub_sha256 = (\<lambda>s. s), ub_diagnostics = False\<rparr>"

theorem tool_interface_typed_witness:
  "\<exists>es. registered_tools demo_build = Inr es \<and> length es = 7
     \<and> (\<exists>call. call_with ''add_device'' (JObj [(''name'', JStr ''Lamp'')]) = Some call \<and> tool_name call = ''add_device'')"
proof -
  obtain es where es: "registered_tools demo_build = Inr es" using registered_tools_ok by blast
  note m = registered_interface [OF es]
  from arg_cong [OF m, of length] have l: "length es = 7" by (simp add: interface_def)
  have "(''add_device'', Shape [(''name'', True, Text 1 (Some 64))], one_device) \<in> set (map (\<lambda>e. (te_name e, te_input e, te_output e)) es)"
    unfolding m by (simp add: interface_def)
  then obtain e where e: "e \<in> set es" "te_name e = ''add_device''" "te_input e = Shape [(''name'', True, Text 1 (Some 64))]" by auto
  have "conforms (te_input e) (JObj [(''name'', JStr ''Lamp'')])" by (simp add: e(3))
  from tool_interface_typed [OF es e(1) this]
  have "\<exists>call. call_with (te_name e) (JObj [(''name'', JStr ''Lamp'')]) = Some call \<and> tool_name call = te_name e" by blast
  with e(2) es l show ?thesis by simp
qed

end
