(* ===== verification/Liveness.thy ===== *)
theory Liveness
  imports Token_Theorems Authorize_Theorems Verify
begin

text \<open>
  That the delegation gets done: a code that was issued is redeemed by the client that follows the protocol, and the
  token it yields is accepted until it expires or its grant is revoked, whatever else the server does in between.
\<close>

section \<open>What keeps a code and a token in place\<close>

text \<open>An operation that does not take the code stored under \<open>h\<close>: it does not redeem it, and it does not prune after
  its end.\<close>

fun spares_code :: "env \<Rightarrow> string \<Rightarrow> int \<Rightarrow> store_op \<Rightarrow> bool" where
  "spares_code env c until (St_consume now v) = (v \<noteq> JStr c)"
| "spares_code env c until (St_prune now) = (now < until)"
| "spares_code env c until _ = True"

fun prunes_before :: "int \<Rightarrow> store_op \<Rightarrow> bool" where
  "prunes_before until (St_prune now) = (now < until)"
| "prunes_before until _ = True"

text \<open>The row of a code but for the grant it was redeemed for.\<close>

definition same_code :: "code_row \<Rightarrow> code_row \<Rightarrow> bool" where
  "same_code c c' \<longleftrightarrow> (\<exists>g. c' = c\<lparr>co_grant := g\<rparr>)"

lemma same_code_refl [simp]: "same_code c c"
  unfolding same_code_def by (rule exI [of _ "co_grant c"]) simp

lemma same_code_grant [simp]: "same_code c (c\<lparr>co_grant := g\<rparr>)"
  by (auto simp: same_code_def)

lemma same_code_trans: "same_code c d \<Longrightarrow> same_code d e \<Longrightarrow> same_code c e"
  by (auto simp: same_code_def)

lemma same_codeD:
  "same_code c c' \<Longrightarrow> co_hash c' = co_hash c \<and> co_consumed_at c' = co_consumed_at c \<and> co_expires_at c' = co_expires_at c
     \<and> to_code_record c' x y = (to_code_record c x y)\<lparr>cr_grant := co_grant c'\<rparr>"
  by (auto simp: same_code_def to_code_record_def)

lemma code_kept:
  assumes "c \<in> set (t_codes db)" "digest env k = Inr (co_hash c)" "hmac_injective (en_hmac env)" "spares_code env k (co_expires_at c) x"
  shows "\<exists>c' \<in> set (t_codes (exec_store env x db)). same_code c c'"
proof (cases x)
  case (St_establish now rg ra rr opts)
  from establish_store [of env now rg ra rr opts db] show ?thesis
  proof
    assume "exec_store env (St_establish now rg ra rr opts) db = db"
    with assms(1) St_establish show ?thesis by (metis same_code_refl)
  next
    assume "\<exists>it. establish_tx env now rg ra rr opts db = Inr (it, exec_store env (St_establish now rg ra rr opts) db)"
    then obtain it where "establish_tx env now rg ra rr opts db = Inr (it, exec_store env x db)" using St_establish by blast
    then show ?thesis
      by (cases rule: establish_cases) (use assms(1) in \<open>auto simp: bex_update_where intro!: bexI [of _ c]\<close>)
  qed
next
  case (St_rotate now ra rr p rq)
  from rotate_store [of env now ra rr p rq db] show ?thesis
  proof
    assume "exec_store env (St_rotate now ra rr p rq) db = db"
    with assms(1) St_rotate show ?thesis by (metis same_code_refl)
  next
    assume "\<exists>t out. p = JStr t \<and> rotate_tx env now ra rr t rq () db = Inr ((out, ()), exec_store env (St_rotate now ra rr p rq) db)"
    then obtain t out where "rotate_tx env now ra rr t rq () db = Inr ((out, ()), exec_store env x db)"
      using St_rotate by blast
    then show ?thesis by (cases rule: rotate_cases) (use assms(1) in \<open>auto intro!: bexI [of _ c]\<close>)
  qed
next
  case (St_consume now v)
  have "\<not> code_fresh env now t c" if "v = JStr t" for t
  proof
    assume "code_fresh env now t c"
    then have "t = k" using digests_eq [OF assms(3)] digest_in_digests [OF assms(2)] by (auto simp: code_fresh_def)
    with that assms(4) St_consume show False by simp
  qed
  with assms(1) St_consume show ?thesis
    by (auto simp: consume_code_def bex_update_where split: bool.splits jsval.splits option.splits
        intro!: bexI [of _ c])
qed (use assms in \<open>auto simp: create_pending_def delete_pending_def claim_and_issue_code_def revoke_grant_now_def
      run_tx_def issue_code_def store_pushed_def take_pushed_def prune_expired_def Let_def set_delete_where
      split: sum.splits if_splits intro!: bexI [of _ c]\<close>)

lemma code_kept_run:
  assumes "c \<in> set (t_codes db)" "digest env k = Inr (co_hash c)" "hmac_injective (en_hmac env)"
    "\<forall>x \<in> set xs. spares_code env k (co_expires_at c) x"
  shows "\<exists>c' \<in> set (t_codes (run_store env xs db)). same_code c c'"
  using assms(1,2,4)
proof (induction xs arbitrary: db c)
  case (Cons x xs)
  obtain c1 where c1: "c1 \<in> set (t_codes (exec_store env x db))" "same_code c c1"
    using code_kept [OF Cons.prems(1,2) assms(3)] Cons.prems(3) by auto
  with Cons.prems same_codeD [OF c1(2)] obtain c' where "c' \<in> set (t_codes (run_store env (x # xs) db))" "same_code c1 c'"
    using Cons.IH [OF c1(1)] by (auto simp: run_store_def)
  with c1(2) same_code_trans show ?case by blast
qed (auto simp: run_store_def intro: same_code_refl)

lemma issue_tokens_accounts:
  "issue_tokens env now ra rr g aud sc with cnf db = Inr (it, db') \<Longrightarrow> t_accounts db' = t_accounts db"
  by (erule issue_tokens_cases) simp_all

lemma store_accounts [simp]: "t_accounts (run_store env xs db) = t_accounts db"
proof -
  have "t_accounts (exec_store env x db) = t_accounts db" for x and db :: database
  proof (cases x)
    case (St_establish now rg ra rr opts)
    then show ?thesis
      by (auto simp: establish_grant_def run_tx_def establish_tx_def Let_def dest!: issue_tokens_accounts
          split: sum.splits if_splits option.splits)
  next
    case (St_rotate now ra rr p rq)
    from rotate_store [of env now ra rr p rq db] show ?thesis
    proof
      assume "\<exists>t out. p = JStr t \<and> rotate_tx env now ra rr t rq () db = Inr ((out, ()), exec_store env (St_rotate now ra rr p rq) db)"
      then obtain t out where "rotate_tx env now ra rr t rq () db = Inr ((out, ()), exec_store env x db)"
        using St_rotate by blast
      then show ?thesis by (cases rule: rotate_cases) simp_all
    qed (use St_rotate in simp)
  qed (auto simp: create_pending_def delete_pending_def claim_and_issue_code_def consume_code_def
        revoke_grant_now_def run_tx_def issue_code_def store_pushed_def take_pushed_def prune_expired_def Let_def
        split: sum.splits bool.splits jsval.splits option.splits if_splits)
  then show ?thesis by (induction xs arbitrary: db) (simp_all add: run_store_def)
qed

section \<open>Access tokens\<close>

text \<open>The rows of access tokens and codes are stored under the current pepper too, so a token names at most one.\<close>

lemma access_evolves:
  assumes "a \<in> set (t_access (exec_store env x db))"
  shows "a \<in> set (t_access db) \<or> (\<exists>t. digest env t = Inr (at_hash a))"
proof (cases x)
  case (St_establish now rg ra rr opts)
  from establish_store [of env now rg ra rr opts db] show ?thesis
  proof
    assume "\<exists>it. establish_tx env now rg ra rr opts db = Inr (it, exec_store env (St_establish now rg ra rr opts) db)"
    then obtain it where "establish_tx env now rg ra rr opts db = Inr (it, exec_store env x db)" using St_establish by blast
    then show ?thesis by (cases rule: establish_cases) (use assms in auto)
  qed (use assms St_establish in simp)
next
  case (St_rotate now ra rr p rq)
  from rotate_store [of env now ra rr p rq db] show ?thesis
  proof
    assume "\<exists>t out. p = JStr t \<and> rotate_tx env now ra rr t rq () db = Inr ((out, ()), exec_store env (St_rotate now ra rr p rq) db)"
    then obtain t out where "rotate_tx env now ra rr t rq () db = Inr ((out, ()), exec_store env x db)"
      using St_rotate by blast
    then show ?thesis by (cases rule: rotate_cases) (use assms in \<open>auto simp: set_delete_where\<close>)
  qed (use assms St_rotate in simp)
qed (use assms in \<open>auto simp: create_pending_def delete_pending_def claim_and_issue_code_def consume_code_def
      revoke_grant_now_def run_tx_def issue_code_def store_pushed_def take_pushed_def prune_expired_def Let_def set_delete_where
      split: sum.splits bool.splits jsval.splits option.splits if_splits\<close>)

definition hashed :: "env \<Rightarrow> database \<Rightarrow> bool" where
  "hashed env db \<longleftrightarrow> (\<forall>a \<in> set (t_access db). \<exists>t. digest env t = Inr (at_hash a))
     \<and> (\<forall>c \<in> set (t_codes db). \<exists>t. digest env t = Inr (co_hash c))"

lemma hashed_run: "hashed env db \<Longrightarrow> hashed env (run_store env xs db)"
proof (induction xs arbitrary: db)
  case (Cons x xs)
  have "hashed env (exec_store env x db)"
    using Cons.prems access_evolves [of _ env x db] code_evolves [of _ env x db]
    unfolding hashed_def code_le_def by metis
  with Cons.IH show ?case by (simp add: run_store_def)
qed (simp add: run_store_def)

lemma hashed_names:
  assumes "hmac_injective (en_hmac env)" "digest env u = Inr h" "h \<in> set (digests env t)"
  shows "digest env t = Inr h"
  using digests_eq [OF assms(1)] digest_in_digests [OF assms(2)] assms(2,3) by blast

text \<open>A row stays until its grant is revoked or a pruning after its end.\<close>

lemma access_kept:
  assumes "oauth_inv db" "a \<in> set (t_access db)" "prunes_before (at_expires_at a) x"
  shows "a \<in> set (t_access (exec_store env x db))
    \<or> (\<exists>g \<in> set (t_grants (exec_store env x db)). gr_id g = at_grant a \<and> gr_revoked_at g \<noteq> None)"
proof -
  have rev: "a \<in> set (t_access (revoke_grant now i db))
      \<or> (\<exists>g \<in> set (t_grants (revoke_grant now i db)). gr_id g = at_grant a \<and> gr_revoked_at g \<noteq> None)" for now i
  proof (cases "at_grant a = i")
    case True
    obtain g where "g \<in> set (t_grants db)" "gr_id g = at_grant a" using assms(1,2) by (auto simp: oauth_inv_def access_of_def)
    with True show ?thesis by (auto simp: revoke_grant_def bex_update_where intro!: bexI [of _ g])
  qed (use assms(2) in \<open>simp add: set_delete_where\<close>)
  show ?thesis
  proof (cases x)
    case (St_establish now rg ra rr opts)
    from establish_store [of env now rg ra rr opts db] show ?thesis
    proof
      assume "\<exists>it. establish_tx env now rg ra rr opts db = Inr (it, exec_store env (St_establish now rg ra rr opts) db)"
      then obtain it where "establish_tx env now rg ra rr opts db = Inr (it, exec_store env x db)" using St_establish by blast
      then show ?thesis by (cases rule: establish_cases) (use assms(2) in auto)
    qed (use assms(2) St_establish in simp)
  next
    case (St_rotate now ra rr p rq)
    from rotate_store [of env now ra rr p rq db] show ?thesis
    proof
      assume "\<exists>t out. p = JStr t \<and> rotate_tx env now ra rr t rq () db = Inr ((out, ()), exec_store env (St_rotate now ra rr p rq) db)"
      then obtain t out where "rotate_tx env now ra rr t rq () db = Inr ((out, ()), exec_store env x db)"
        using St_rotate by blast
      then show ?thesis
      proof (cases rule: rotate_cases)
        case (theft r q)
        with rev show ?thesis by simp
      qed (use assms(2) in auto)
    qed (use assms(2) St_rotate in simp)
  next
    case (St_revoke now i)
    with rev show ?thesis by (simp add: revoke_grant_now_def run_tx_def)
  qed (use assms(2,3) in \<open>auto simp: create_pending_def delete_pending_def claim_and_issue_code_def consume_code_def
        run_tx_def issue_code_def store_pushed_def take_pushed_def prune_expired_def Let_def set_delete_where
        split: sum.splits bool.splits jsval.splits option.splits if_splits\<close>)
qed

lemma access_kept_run:
  assumes "oauth_inv db" "a \<in> set (t_access db)" "\<forall>x \<in> set xs. prunes_before (at_expires_at a) x"
    "\<And>g. g \<in> set (t_grants (run_store env xs db)) \<Longrightarrow> gr_id g = at_grant a \<Longrightarrow> gr_revoked_at g = None"
  shows "a \<in> set (t_access (run_store env xs db))"
  using assms
proof (induction xs arbitrary: db)
  case (Cons x xs)
  let ?db = "exec_store env x db"
  have r: "run_store env (x # xs) db = run_store env xs ?db" by (simp add: run_store_def)
  have "a \<in> set (t_access ?db)"
  proof (rule ccontr)
    assume "a \<notin> set (t_access ?db)"
    with access_kept [OF Cons.prems(1,2), of x env] Cons.prems(3) obtain g where
      g: "g \<in> set (t_grants ?db)" "gr_id g = at_grant a" "gr_revoked_at g \<noteq> None" by fastforce
    obtain q where q: "q \<in> set (t_grants (run_store env xs ?db))" "grant_le g q" using grant_persists_run [OF g(1)] by blast
    have "gr_revoked_at q = None" using Cons.prems(4) [of q] q g(2) by (simp add: r grant_le_def)
    with q(2) g(3) show False by (simp add: grant_le_def)
  qed
  with Cons.IH [of ?db] Cons.prems exec_store_inv [OF Cons.prems(1)] show ?case unfolding r by simp
qed (simp add: run_store_def)

text \<open>A live row is found.\<close>

lemma access_verifies:
  assumes "oauth_inv db" "hashed env db" "hmac_injective (en_hmac env)" "a \<in> set (t_access db)" "digest env t = Inr (at_hash a)"
    "well_formed_str Access t" "ck_db ck < at_expires_at a" "set required \<subseteq> set (scope_list (at_scope a))"
  shows "\<exists>g \<in> set (t_grants db). access_of g a
    \<and> fst (verify_access env ck (JStr t) required (Some (at_audience a)) (touched, db)) = Token_ok (verified_of (ck_db ck) a g)"
proof -
  obtain g where g: "g \<in> set (t_grants db)" "access_of g a" using assms(1,4) by (auto simp: oauth_inv_def)
  have lg: "live_grant a g" using g(2) by (simp add: live_grant_def access_of_def)
  have only: "b = a" if "b \<in> set (t_access db)" "at_hash b \<in> set (digests env t)" for b
  proof -
    have "\<exists>u. digest env u = Inr (at_hash b)" using assms(2) that(1) by (simp add: hashed_def)
    then have "digest env t = Inr (at_hash b)" using hashed_names [OF assms(3) _ that(2)] by blast
    with assms(5) have "at_hash b = at_hash a" by simp
    moreover have "distinct (map at_hash (t_access db))" using assms(1) by (simp add: oauth_inv_def keys_ok_def)
    ultimately show ?thesis using that(1) assms(4) distinct_key_eq [of at_hash "t_access db" b a] by simp
  qed
  obtain b where b: "find (access_live env (ck_db ck) t db) (t_access db) = Some b"
  proof (cases "find (access_live env (ck_db ck) t db) (t_access db)")
    case None
    with assms(4,5,7) g(1) lg show ?thesis
      by (auto simp: find_None_iff access_live_def list_ex_iff dest: digest_in_digests)
  qed
  with only find_SomeD [OF b] have b: "find (access_live env (ck_db ck) t db) (t_access db) = Some a"
    by (auto simp: access_live_def)
  have q: "q = g" if "q \<in> set (t_grants db)" "live_grant a q" for q
  proof -
    have "distinct (map gr_id (t_grants db))" using assms(1) by (simp add: oauth_inv_def keys_ok_def)
    moreover have "gr_id q = gr_id g" using that(2) lg by (simp add: live_grant_def)
    ultimately show ?thesis using that(1) g(1) distinct_key_eq [of gr_id "t_grants db" q g] by simp
  qed
  obtain q where "find (live_grant a) (t_grants db) = Some q"
    using g(1) lg by (cases "find (live_grant a) (t_grants db)") (auto simp: find_None_iff)
  with q have "find (live_grant a) (t_grants db) = Some g" using find_SomeD by metis
  with b have "access_join env (ck_db ck) t db = Some (a, g)" by (simp add: access_join_def)
  then show ?thesis using g assms(6,8) by (intro bexI [of _ g]) (auto simp: verify_access_ok)
qed

section \<open>Redeeming\<close>

lemma digest_total: "digest env t = Inr h \<Longrightarrow> \<exists>h'. digest env u = Inr h'"
  by (auto simp: digest_def token_digest_def split: list.splits)

text \<open>Random bytes that hit nothing stored.\<close>

definition draw_fresh :: "env \<Rightarrow> token_draw \<Rightarrow> database \<Rightarrow> bool" where
  "draw_fresh env dr db \<longleftrightarrow> length (td_access dr) = 32 \<and> new_id ''grant'' (td_grant dr) \<notin> gr_id ` set (t_grants db)
     \<and> digest env (mint Access (td_access dr)) \<notin> Inr ` at_hash ` set (t_access db)
     \<and> digest env (mint Refresh (td_refresh dr)) \<notin> Inr ` rt_hash ` set (t_refresh db)"

text \<open>A request of the client the code was made for, as the protocol has it: with the verifier of its challenge and the
  key the authorization was bound to.\<close>

definition proper_request :: "env \<Rightarrow> pending \<Rightarrow> string \<Rightarrow> string option \<Rightarrow> jsval \<Rightarrow> bool" where
  "proper_request env p code jkt body \<longleftrightarrow> pe_client p \<noteq> [] \<and> jfield body ''client_id'' = JStr (pe_client p)
     \<and> jfield body ''code'' = JStr code \<and> jfield body ''redirect_uri'' \<in> {JUndefined, JStr (pe_redirect p)}
     \<and> jfield body ''resource'' \<in> {JUndefined, JStr (pe_resource p)}
     \<and> verify_pkce env (jfield body ''code_verifier'') (pe_challenge p)
     \<and> (truthy (pe_jkt p) \<noteq> None \<longrightarrow> jkt = pe_jkt p) \<and> (pe_client p = first_party_client \<longrightarrow> is_truthy jkt)"

lemma issued_code:
  assumes "claim_and_issue_code env now rnd account p cx db = (Inr (Some code), db')"
  obtains c where "c \<in> set (t_codes db')" "digest env code = Inr (co_hash c)" "co_consumed_at c = None"
    "co_expires_at c = now + secs code_ttl" "code = mint Code rnd" "account_exists account db'"
    "to_code_record c False False = \<lparr>cr_account = account, cr_client = pe_client p, cr_redirect = pe_redirect p,
       cr_challenge = pe_challenge p, cr_resource = pe_resource p, cr_scope = scope_str (pe_scopes p), cr_consumed = False,
       cr_expired = False, cr_grant = None, cr_offline = pe_offline p, cr_jkt = pe_jkt p\<rparr>"
proof -
  let ?c = "\<lambda>h. \<lparr>co_hash = h, co_account = account, co_client = pe_client p, co_redirect_uri = pe_redirect p,
     co_challenge = pe_challenge p, co_resource = pe_resource p, co_scope = scope_str (pe_scopes p),
     co_offline = pe_offline p, co_auth_time = Some (cx_auth_time cx * 1000), co_consent = cx_consent cx,
     co_dpop_jkt = pe_jkt p, co_consumed_at = None, co_grant = None, co_created_at = now,
     co_expires_at = now + secs code_ttl\<rparr>"
  obtain h where "code = mint Code rnd" "digest env code = Inr h" "t_codes db' = t_codes db @ [?c h]" "account_exists account db'"
    using assms by (auto simp: claim_and_issue_code_def run_tx_def issue_code_def delete_pending_def account_exists_def Let_def
        split: if_splits sum.splits)
  then show ?thesis by (intro that [of "?c h"]) (simp_all add: to_code_record_def)
qed

lemma consume_fresh:
  assumes "hmac_injective (en_hmac env)" "keys_ok db" "hashed env db" "c \<in> set (t_codes db)" "digest env k = Inr (co_hash c)"
    "well_formed_str Code k" "co_consumed_at c = None" "now < co_expires_at c"
  shows "consume_code env now (JStr k) db = (Some (to_code_record c False False),
     db\<lparr>t_codes := update_where (code_fresh env now k) (code_spend now) (t_codes db)\<rparr>)"
proof -
  have only: "b = c" if "b \<in> set (t_codes db)" "co_hash b \<in> set (digests env k)" for b
  proof -
    have "\<exists>u. digest env u = Inr (co_hash b)" using assms(3) that(1) by (simp add: hashed_def)
    then have "digest env k = Inr (co_hash b)" using hashed_names [OF assms(1) _ that(2)] by blast
    with assms(5) have "co_hash b = co_hash c" by simp
    moreover have "distinct (map co_hash (t_codes db))" using assms(2) by (simp add: keys_ok_def)
    ultimately show ?thesis using that(1) assms(4) distinct_key_eq [of co_hash "t_codes db" b c] by simp
  qed
  obtain b where b: "find (code_fresh env now k) (t_codes db) = Some b"
  proof (cases "find (code_fresh env now k) (t_codes db)")
    case None
    with assms(4,5,7,8) show ?thesis by (auto simp: find_None_iff code_fresh_def dest: digest_in_digests)
  qed
  with only find_SomeD [OF b] have "b = c" by (simp add: code_fresh_def)
  with b assms(6) show ?thesis by (simp add: consume_code_def)
qed

lemma establish_succeeds:
  assumes "draw_fresh env dr db" "digest env t = Inr h" "account_exists (go_account opts) db"
  shows "\<exists>it db'. establish_tx env now (td_grant dr) (td_access dr) (td_refresh dr) opts db = Inr (it, db')"
proof -
  obtain ha hr where "digest env (mint Access (td_access dr)) = Inr ha" "digest env (mint Refresh (td_refresh dr)) = Inr hr"
    using digest_total [OF assms(2)] by blast
  with assms(1,3) show ?thesis
    by (force simp: draw_fresh_def establish_tx_def issue_tokens_def grant_exists_def Let_def)
qed

lemma code_refusal_none:
  "proper_request env p code jkt body \<Longrightarrow> cr_client rec = pe_client p \<Longrightarrow> cr_redirect rec = pe_redirect p \<Longrightarrow> cr_challenge rec = pe_challenge p
   \<Longrightarrow> cr_resource rec = pe_resource p \<Longrightarrow> cr_jkt rec = pe_jkt p \<Longrightarrow> \<not> cr_expired rec \<Longrightarrow> code_refusal env body jkt rec = None"
  by (auto simp: code_refusal_def proper_request_def)

text \<open>C28. An authorized application gets in. Once the server has issued a code, and whatever it does meanwhile short of
  redeeming or pruning that code, the client that redeems it within its minute as the protocol says, with random bytes
  that hit nothing stored, is given tokens; and whatever the server does after that, its access token is accepted, as the
  account, client and scopes of the authorization, until it expires or its grant is revoked.\<close>

theorem delegation_completes:
  assumes "hmac_injective (en_hmac env)" "no_grants db0" "length rnd = 32" "set (pe_scopes p) \<subseteq> set scopes_all"
    and "claim_and_issue_code env now rnd account p cx (run_store env xs db0) = (Inr (Some code), db1)"
    and "\<forall>y \<in> set ys. spares_code env code (now + secs code_ttl) y" "tk_db st = run_store env ys db1"
    and "td_now dr < now + secs code_ttl" "draw_fresh env dr (tk_db st)"
    and "proof_of_request env infra (td_now_ms dr) rq (tk_replay st) = (Proof_jkt jkt, s)" "proper_request env p code jkt (tq_body rq)"
  shows "\<exists>it st'. exchange_code env infra dr rq st = (Inr (send_tokens (token_body it)), st')
    \<and> it_access it = mint Access (td_access dr) \<and> it_scope it = scope_str (pe_scopes p)
    \<and> (let until = td_now2 dr + secs (access_lifetime env (pe_resource p)); db' = run_store env zs (tk_db st') in
       (\<forall>z \<in> set zs. prunes_before until z) \<and> ck_db ck < until \<and> set required \<subseteq> set (pe_scopes p)
       \<and> (\<forall>g \<in> set (t_grants db'). gr_id g = new_id ''grant'' (td_grant dr) \<longrightarrow> gr_revoked_at g = None)
       \<longrightarrow> (\<exists>v. fst (verify_access env ck (JStr (it_access it)) required (Some (pe_resource p)) (touched, db')) = Token_ok v
             \<and> ve_account v = account \<and> ve_client v = pe_client p \<and> ve_scopes v = pe_scopes p \<and> ve_jkt v = jkt))"
proof -
  obtain c0 where c0: "c0 \<in> set (t_codes db1)" "digest env code = Inr (co_hash c0)" "co_consumed_at c0 = None"
    "co_expires_at c0 = now + secs code_ttl" "code = mint Code rnd" "account_exists account db1"
    "to_code_record c0 False False = \<lparr>cr_account = account, cr_client = pe_client p, cr_redirect = pe_redirect p,
       cr_challenge = pe_challenge p, cr_resource = pe_resource p, cr_scope = scope_str (pe_scopes p), cr_consumed = False,
       cr_expired = False, cr_grant = None, cr_offline = pe_offline p, cr_jkt = pe_jkt p\<rparr>"
    using assms(5) by (rule issued_code)
  define ops where "ops = xs @ St_claim now rnd account p cx # ys"
  have db: "tk_db st = run_store env ops db0" using assms(5,7) by (simp add: ops_def run_store_def)
  have start: "oauth_inv db0" "hashed env db0"
    using no_grants_inv [OF assms(2)] assms(2) by (auto simp: no_grants_def hashed_def)
  have inv: "oauth_inv (tk_db st)" "hashed env (tk_db st)" unfolding db using run_store_inv hashed_run start by blast+
  obtain c where c: "c \<in> set (t_codes (tk_db st))" "same_code c0 c"
    using code_kept_run [OF c0(1,2) assms(1)] assms(6,7) c0(4) by auto
  note sc = same_codeD [OF c(2)]
  let ?rec = "to_code_record c False False"
  let ?db = "(tk_db st)\<lparr>t_codes := update_where (code_fresh env (td_now dr) code) (code_spend (td_now dr)) (t_codes (tk_db st))\<rparr>"
  have consumed: "consume_code env (td_now dr) (JStr code) (tk_db st) = (Some ?rec, ?db)"
    using consume_fresh [OF assms(1) _ inv(2) c(1)] inv(1) sc c0 assms(3,8)
    by (simp add: oauth_inv_def mint_well_formed_str)
  have rec: "cr_account ?rec = account" "cr_client ?rec = pe_client p" "cr_redirect ?rec = pe_redirect p" "cr_challenge ?rec = pe_challenge p"
    "cr_resource ?rec = pe_resource p" "cr_scope ?rec = scope_str (pe_scopes p)" "\<not> cr_consumed ?rec" "\<not> cr_expired ?rec"
    "cr_offline ?rec = pe_offline p" "cr_jkt ?rec = pe_jkt p"
    using sc by (simp_all add: c0(7))
  have body: "jfield (tq_body rq) ''code'' = JStr code" "\<not> client_id_missing (tq_body rq)"
    "jfield (tq_body rq) ''client_id'' \<noteq> JStr first_party_client \<or> is_truthy jkt"
    using assms(11) by (auto simp: proper_request_def client_id_missing_def)
  let ?opts = "code_options env code jkt ?rec"
  have "draw_fresh env dr ?db" using assms(9) by (simp add: draw_fresh_def)
  moreover have "account_exists (go_account ?opts) ?db"
    using c0(6) rec(1) assms(7) by (simp add: account_exists_def code_options_def)
  ultimately obtain it db' where e: "establish_tx env (td_now2 dr) (td_grant dr) (td_access dr) (td_refresh dr) ?opts ?db = Inr (it, db')"
    using establish_succeeds [OF _ c0(2)] by blast
  have ex: "exchange_code env infra dr rq st = (Inr (send_tokens (token_body it)), st\<lparr>tk_db := db', tk_replay := s\<rparr>)"
    using assms(10) body consumed rec(7) code_refusal_none [OF assms(11) rec(2-5,10,8)] e
    by (auto simp: exchange_code_def redeem_code_def establish_grant_def run_tx_def Let_def)
  from e show ?thesis
  proof (cases rule: establish_cases)
    case (1 G ha)
    let ?a = "new_access env (td_now2 dr) ha (gr_id G) (go_resource ?opts) (go_scope ?opts) (go_jkt ?opts)"
    have row: "?a \<in> set (t_access db')" "at_audience ?a = pe_resource p" "at_grant ?a = new_id ''grant'' (td_grant dr)"
      "at_scope ?a = scope_str (pe_scopes p)" "at_expires_at ?a = td_now2 dr + secs (access_lifetime env (pe_resource p))"
      "at_hash ?a = ha" "at_cnf_jkt ?a = jkt"
      using 1(1,9) rec by (simp_all add: code_options_def)
    have "db' = run_store env (ops @ [St_consume (td_now dr) (JStr code),
        St_establish (td_now2 dr) (td_grant dr) (td_access dr) (td_refresh dr) ?opts]) db0"
      using e consumed db by (simp add: run_store_def establish_grant_def run_tx_def)
    then have inv': "oauth_inv db'" "hashed env db'" using run_store_inv hashed_run start by blast+
    have "\<exists>v. fst (verify_access env ck (JStr (it_access it)) required (Some (pe_resource p)) (touched, run_store env zs db')) = Token_ok v
        \<and> ve_account v = account \<and> ve_client v = pe_client p \<and> ve_scopes v = pe_scopes p \<and> ve_jkt v = jkt"
      if z: "\<forall>z \<in> set zs. prunes_before (at_expires_at ?a) z" and k: "ck_db ck < at_expires_at ?a" and r: "set required \<subseteq> set (pe_scopes p)"
        and live: "\<forall>g \<in> set (t_grants (run_store env zs db')). gr_id g = at_grant ?a \<longrightarrow> gr_revoked_at g = None"
    proof -
      let ?db3 = "run_store env zs db'"
      have inv3: "oauth_inv ?db3" "hashed env ?db3" using run_store_inv [OF inv'(1)] hashed_run [OF inv'(2)] by blast+
      have a: "?a \<in> set (t_access ?db3)" using access_kept_run [OF inv'(1) row(1) z] live by blast
      have sl: "scope_list (at_scope ?a) = pe_scopes p" using scope_list_str [OF scopes_no_space [OF assms(4)]] row(4) by simp
      have "digest env (mint Access (td_access dr)) = Inr (at_hash ?a)" "well_formed_str Access (mint Access (td_access dr))"
        using 1(4) row(6) assms(9) by (simp_all add: mint_well_formed_str draw_fresh_def)
      from access_verifies [OF inv3 assms(1) a this k, of required touched] r sl obtain g where g: "g \<in> set (t_grants ?db3)" "access_of g ?a"
        "fst (verify_access env ck (JStr (it_access it)) required (Some (pe_resource p)) (touched, ?db3)) = Token_ok (verified_of (ck_db ck) ?a g)"
        unfolding 1(6) row(2) by auto
      obtain q where q: "q \<in> set (t_grants ?db3)" "grant_le G q" using grant_persists_run [of G db' env zs] 1(8) by auto
      have "distinct (map gr_id (t_grants ?db3))" using inv3(1) by (simp add: oauth_inv_def keys_ok_def)
      moreover have "gr_id q = gr_id g" using q(2) g(2) row(3) 1(1) by (simp add: grant_le_def access_of_def)
      ultimately have "g = q" using q(1) g(1) distinct_key_eq [of gr_id "t_grants ?db3" g q] by simp
      then have "gr_account g = account" "gr_client g = pe_client p" using q(2) 1(1) rec(1,2) by (simp_all add: grant_le_def code_options_def)
      with g(3) sl row(7) show ?thesis by (intro exI [of _ "verified_of (ck_db ck) ?a g"]) (simp add: verified_of_def)
    qed
    moreover have "it_access it = mint Access (td_access dr)" "it_scope it = scope_str (pe_scopes p)"
      using 1(6,7) rec(6) by (simp_all add: code_options_def)
    ultimately show ?thesis
      unfolding row(3,5) using ex by (intro exI [of _ it] exI [of _ "st\<lparr>tk_db := db', tk_replay := s\<rparr>"]) (simp add: Let_def)
  qed
qed

lemma exchange_grants:
  assumes "exchange_code env infra dr rq st = (Inr r, st')" "rp_status r = 200"
  shows "\<exists>G. t_grants (tk_db st') = t_grants (tk_db st) @ [G] \<and> gr_revoked_at G = None"
proof -
  obtain jkt where "redeem_code env dr (tq_body rq) jkt (tk_db st) = (Inr r, tk_db st')" using assms by (rule exchange_code_200)
  then obtain c row it db1 where c: "db1 = (tk_db st)\<lparr>t_codes := update_where (code_fresh env (td_now dr) c) (code_spend (td_now dr)) (t_codes (tk_db st))\<rparr>"
    and e: "establish_tx env (td_now2 dr) (td_grant dr) (td_access dr) (td_refresh dr)
       (code_options env c jkt (to_code_record row False False)) db1 = Inr (it, tk_db st')"
    using assms(2) by (rule redeem_code_200)
  from e show ?thesis by (cases rule: establish_cases) (use c in simp)
qed

definition demo_asked :: pending where
  "demo_asked = demo_pending\<lparr>pe_challenge := base64url demo_verifier\<rparr>"

definition demo_asked_db :: database where
  "demo_asked_db = run_store demo_env [St_pending 0 ''p'' demo_asked (mint Binding demo_rnd)] demo_account_db"

definition demo_claimed_db :: database where
  "demo_claimed_db = snd (claim_and_issue_code demo_env 0 demo_rnd ''ann'' demo_asked demo_cx demo_asked_db)"

lemma demo_asked_eval:
  "\<exists>r. t_pending demo_asked_db = [r] \<and> pa_id r = new_id ''pa'' ''p'' \<and> t_codes demo_asked_db = [] \<and> t_grants demo_asked_db = []
     \<and> t_access demo_asked_db = [] \<and> t_refresh demo_asked_db = [] \<and> account_exists ''ann'' demo_asked_db"
  by (simp add: demo_asked_db_def run_store_def create_pending_def demo_digest demo_account_db_def empty_db_def account_exists_def Let_def)

lemma demo_claimed:
  "claim_and_issue_code demo_env 0 demo_rnd ''ann'' demo_asked demo_cx demo_asked_db = (Inr (Some (mint Code demo_rnd)), demo_claimed_db)"
  "t_grants demo_claimed_db = []" "t_access demo_claimed_db = []" "t_refresh demo_claimed_db = []"
  using demo_asked_eval
  by (auto simp: demo_claimed_db_def claim_and_issue_code_def run_tx_def issue_code_def delete_pending_def account_exists_def demo_digest
      demo_asked_def demo_pending_def Let_def)

theorem delegation_completes_witness:
  "\<exists>it st' v. exchange_code demo_env demo_infra demo_draw demo_code_request \<lparr>tk_db = demo_claimed_db, tk_sealed = [], tk_replay = []\<rparr>
       = (Inr (send_tokens (token_body it)), st')
     \<and> fst (verify_access demo_env demo_clocks (JStr (it_access it)) [''devices:read''] (Some ''https://mcp/mcp'') ([], tk_db st')) = Token_ok v
     \<and> ve_account v = ''ann'' \<and> ve_scopes v = [''devices:read'']"
proof -
  let ?st = "\<lparr>tk_db = demo_claimed_db, tk_sealed = [], tk_replay = []\<rparr>"
  have p: "set (pe_scopes demo_asked) \<subseteq> set scopes_all" "pe_resource demo_asked = ''https://mcp/mcp''" "pe_scopes demo_asked = [''devices:read'']"
    by (simp_all add: demo_asked_def demo_pending_def scopes_all_def)
  have claim: "claim_and_issue_code demo_env 0 demo_rnd ''ann'' demo_asked demo_cx
      (run_store demo_env [St_pending 0 ''p'' demo_asked (mint Binding demo_rnd)] demo_account_db) = (Inr (Some (mint Code demo_rnd)), demo_claimed_db)"
    using demo_claimed(1) by (simp add: demo_asked_db_def)
  have fresh: "draw_fresh demo_env demo_draw (tk_db ?st)"
    using demo_claimed(2-4) by (simp add: draw_fresh_def demo_draw_def demo_rnd_length)
  have key: "proof_of_request demo_env demo_infra (td_now_ms demo_draw) demo_code_request (tk_replay ?st) = (Proof_jkt None, [])"
    by (simp add: proof_of_request_def demo_code_request_def)
  have proper: "proper_request demo_env demo_asked (mint Code demo_rnd) None (tq_body demo_code_request)"
    using demo_pkce by (simp add: proper_request_def demo_asked_def demo_pending_def demo_code_request_def first_party_client_def)
  have "tk_db ?st = run_store demo_env [] demo_claimed_db" "td_now demo_draw < 0 + secs code_ttl" "hmac_injective (en_hmac demo_env)"
    by (simp_all add: run_store_def demo_draw_def secs_def toy_hmac_injective)
  note d = delegation_completes [OF this(3) demo_start_ok demo_rnd_length p(1) claim _ this(1,2) fresh key proper,
      of "[]" demo_clocks "[''devices:read'']" "[]", simplified p(2,3) run_store_def]
  then obtain it st' where e: "exchange_code demo_env demo_infra demo_draw demo_code_request ?st = (Inr (send_tokens (token_body it)), st')"
    "(\<forall>g \<in> set (t_grants (tk_db st')). gr_id g = new_id ''grant'' (td_grant demo_draw) \<longrightarrow> gr_revoked_at g = None) \<longrightarrow>
     (\<exists>v. fst (verify_access demo_env demo_clocks (JStr (it_access it)) [''devices:read''] (Some ''https://mcp/mcp'') ([], tk_db st')) = Token_ok v
        \<and> ve_account v = ''ann'' \<and> ve_scopes v = [''devices:read''])"
    by (auto simp: Let_def demo_draw_def demo_clocks_def demo_lifetime secs_def)
  moreover have "\<forall>g \<in> set (t_grants (tk_db st')). gr_revoked_at g = None"
    using exchange_grants [OF e(1)] demo_claimed(2) by auto
  ultimately show ?thesis by blast
qed

end
