(* ===== verification/Html.thy ===== *)
theory Html
  imports Json Web
begin

text \<open>
  What the pages of \<open>server/src/oauth/pages.ts\<close> are made of. A template literal is a list of pieces: the text of the source,
  and the values it inserts with the function the source
  passes them through, or as they are. The reader of a page is a browser's
  tokenizer, reduced to what decides where text ends and markup begins.
\<close>

section \<open>Pieces\<close>

text \<open>\<open>escapeHtml\<close>.\<close>

definition html_entity :: "char \<Rightarrow> string" where
  "html_entity c =
     (if c = CHR ''&'' then ''&amp;'' else if c = CHR ''<'' then ''&lt;'' else if c = CHR ''>'' then ''&gt;''
      else if c = CHR 0x22 then ''&quot;'' else if c = CHR 0x27 then ''&#39;'' else [c])"

definition escape_html :: "string \<Rightarrow> string" where
  "escape_html v = concat (map html_entity v)"

text \<open>\<open>encodeURIComponent\<close> of a string of characters below 256.\<close>

definition uri_unreserved :: "char \<Rightarrow> bool" where
  "uri_unreserved c \<longleftrightarrow> is_alnum c \<or> c \<in> set ''-_.!~*()'' \<or> c = CHR 0x27"

definition encode_uri_component :: "string \<Rightarrow> string" where
  "encode_uri_component v =
     concat (map (\<lambda>c. if uri_unreserved c then [c] else concat (map (\<lambda>b. CHR ''%'' # to_upper (hex [b])) (utf8_char c))) v)"

datatype piece = Lit string | Esc string | Uri string | Plain string

fun write_piece :: "piece \<Rightarrow> string" where
  "write_piece (Lit s) = s"
| "write_piece (Esc v) = escape_html v"
| "write_piece (Uri v) = encode_uri_component v"
| "write_piece (Plain v) = v"

definition write_html :: "piece list \<Rightarrow> string" where
  "write_html ps = concat (map write_piece ps)"

text \<open>\<open>ps.join(sep)\<close> of lists of pieces.\<close>

fun join_pieces :: "string \<Rightarrow> piece list list \<Rightarrow> piece list" where
  "join_pieces sep [] = []"
| "join_pieces sep [p] = p"
| "join_pieces sep (p # ps) = p @ [Lit sep] @ join_pieces sep ps"

section \<open>The browser\<close>

text \<open>
  Between tags; in a tag, with what was read of it outside quoted attribute values; in a quoted attribute value; in the
  text of a style sheet or a script, with how much of its end tag was read.
\<close>

datatype browser = Content | Tag string | Attr char string | Raw string nat

definition tag_name :: "string \<Rightarrow> string" where
  "tag_name t = to_lower (takeWhile (\<lambda>c. \<not> is_ws c \<and> c \<noteq> CHR ''/'') t)"

definition after_tag :: "string \<Rightarrow> browser" where
  "after_tag t = (if tag_name t \<in> {''style'', ''script''} then Raw (tag_name t) 0 else Content)"

fun read_char :: "browser \<Rightarrow> char \<Rightarrow> browser" where
  "read_char Content c = (if c = CHR ''<'' then Tag [] else Content)"
| "read_char (Tag t) c =
     (if c = CHR ''>'' then after_tag t else if c = CHR 0x22 \<or> c = CHR 0x27 then Attr c t else Tag (t @ [c]))"
| "read_char (Attr q t) c = (if c = q then Tag t else Attr q t)"
| "read_char (Raw name k) c =
     (let pat = ''</'' @ name in
      if k < length pat \<and> lower_char c = pat ! k then (if Suc k = length pat then Tag (CHR ''/'' # name) else Raw name (Suc k))
      else if c = CHR ''<'' then Raw name 1 else Raw name 0)"

definition read_text :: "browser \<Rightarrow> string \<Rightarrow> browser" where
  "read_text st s = foldl read_char st s"

text \<open>What is left of a page without the text between tags and the text of the attributes: its tags with the names of their
  attributes, its style sheets and its scripts.\<close>

fun is_markup :: "browser \<Rightarrow> char \<Rightarrow> bool" where
  "is_markup Content c \<longleftrightarrow> c = CHR ''<''"
| "is_markup (Attr q t) c \<longleftrightarrow> c = q"
| "is_markup _ c \<longleftrightarrow> True"

fun markup :: "browser \<Rightarrow> string \<Rightarrow> string" where
  "markup st [] = []"
| "markup st (c # s) = (if is_markup st c then c # markup (read_char st c) s else markup (read_char st c) s)"

section \<open>Holes where text belongs\<close>

text \<open>Text that ends nothing.\<close>

definition plain_char :: "char \<Rightarrow> bool" where
  "plain_char c \<longleftrightarrow> c \<noteq> CHR ''<'' \<and> c \<noteq> CHR 0x22"

text \<open>Where a value may be inserted: between tags, or in an attribute in double quotes.\<close>

fun holds_text :: "browser \<Rightarrow> bool" where
  "holds_text Content \<longleftrightarrow> True"
| "holds_text (Attr q t) \<longleftrightarrow> q = CHR 0x22"
| "holds_text _ \<longleftrightarrow> False"

fun reads_well :: "browser \<Rightarrow> piece list \<Rightarrow> browser option" where
  "reads_well st [] = Some st"
| "reads_well st (Lit s # ps) = reads_well (read_text st s) ps"
| "reads_well st (Plain v # ps) = (if holds_text st \<and> list_all plain_char v then reads_well st ps else None)"
| "reads_well st (_ # ps) = (if holds_text st then reads_well st ps else None)"

fun outline :: "piece \<Rightarrow> piece" where
  "outline (Lit s) = Lit s"
| "outline (Esc v) = Esc []"
| "outline (Uri v) = Uri []"
| "outline (Plain v) = Plain []"

lemma read_text_Nil [simp]: "read_text st [] = st"
  by (simp add: read_text_def)

lemma read_text_Cons [simp]: "read_text st (c # s) = read_text (read_char st c) s"
  by (simp add: read_text_def)

lemma read_text_append [simp]: "read_text st (s @ t) = read_text (read_text st s) t"
  by (simp add: read_text_def)

lemma markup_append [simp]: "markup st (s @ t) = markup st s @ markup (read_text st s) t"
  by (induction s arbitrary: st) auto

lemma plain_shown:
  "holds_text st \<Longrightarrow> \<forall>c \<in> set s. plain_char c \<Longrightarrow> read_text st s = st \<and> markup st s = []"
proof (induction s)
  case (Cons c s)
  then have "read_char st c = st \<and> \<not> is_markup st c" by (cases st) (auto simp: plain_char_def)
  with Cons show ?case by simp
qed simp

lemma escape_html_plain: "c \<in> set (escape_html v) \<Longrightarrow> plain_char c"
  by (auto simp: escape_html_def html_entity_def plain_char_def split: if_splits)

lemma encode_plain: "c \<in> set (encode_uri_component v) \<Longrightarrow> plain_char c"
proof -
  have h: "plain_char d" if "d \<in> set (to_upper (hex [b]))" for b d
  proof -
    have "\<forall>n \<in> set [0..<16]. plain_char (upper_char (hex_digit n))"
      by code_simp
    then have "plain_char (upper_char (hex_digit n))" if "n < 16" for n using that by simp
    with that byte_bounds(7,8) show ?thesis by (auto simp: to_upper_def)
  qed
  assume "c \<in> set (encode_uri_component v)"
  with h show ?thesis
    by (auto simp: encode_uri_component_def plain_char_def uri_unreserved_def is_alnum_def split: if_splits)
qed

lemma piece_shown:
  "holds_text st \<Longrightarrow> (\<And>s. p \<noteq> Lit s) \<Longrightarrow> (\<And>v. p = Plain v \<Longrightarrow> list_all plain_char v) \<Longrightarrow> read_text st (write_piece p) = st \<and> markup st (write_piece p) = []"
  using escape_html_plain encode_plain by (cases p) (auto simp: plain_shown list_all_iff)

lemma reads_well_append:
  "reads_well st (ps @ qs) = (case reads_well st ps of None \<Rightarrow> None | Some st' \<Rightarrow> reads_well st' qs)"
  by (induction st ps rule: reads_well.induct) auto

text \<open>Templates whose holes are where text belongs have the same markup when they have the same outline.\<close>

lemma markup_of_outline:
  "reads_well st ps = Some st' \<Longrightarrow> reads_well st qs = Some st'' \<Longrightarrow> map outline ps = map outline qs \<Longrightarrow> read_text st (write_html ps) = st' \<and> markup st (write_html ps) = markup st (write_html qs)"
proof (induction ps arbitrary: st qs)
  case (Cons p ps)
  then obtain q qs' where q: "qs = q # qs'" "outline p = outline q" "map outline ps = map outline qs'" by auto
  show ?case
  proof (cases "\<exists>s. p = Lit s")
    case True
    then obtain s where "p = Lit s" by blast
    moreover with q(2) have "q = Lit s" by (cases q) auto
    ultimately show ?thesis using Cons.IH [OF _ _ q(3)] Cons.prems(1,2) q(1) by (simp add: write_html_def)
  next
    case False
    with q(2) have h: "holds_text st" "reads_well st ps = Some st'" "reads_well st qs' = Some st''"
      "\<And>v. p = Plain v \<Longrightarrow> list_all plain_char v" "\<And>v. q = Plain v \<Longrightarrow> list_all plain_char v" "\<And>s. q \<noteq> Lit s"
      using Cons.prems(1,2) q(1) by (cases p; cases q; auto split: if_splits)+
    from Cons.IH [OF h(2,3) q(3)] piece_shown [OF h(1), of p] piece_shown [OF h(1), of q] h(4-6) False q(1) show ?thesis
      by (auto simp: write_html_def)
  qed
qed (simp add: write_html_def)

lemma reads_well_join:
  "\<forall>p \<in> set ps. reads_well st p = Some st \<Longrightarrow> read_text st sep = st \<Longrightarrow> reads_well st (join_pieces sep ps) = Some st"
  by (induction sep ps rule: join_pieces.induct) (auto simp: reads_well_append)

lemma outline_join:
  "map (map outline) ps = map (map outline) qs \<Longrightarrow> map outline (join_pieces sep ps) = map outline (join_pieces sep qs)"
proof (induction sep ps arbitrary: qs rule: join_pieces.induct)
  case (3 sep p p' ps)
  then obtain q q' qs' where q: "qs = q # q' # qs'" "map outline p = map outline q"
    "map (map outline) (p' # ps) = map (map outline) (q' # qs')" by (cases qs; cases "tl qs") auto
  from 3(1) [OF q(3)] q(1,2) show ?case by simp
qed auto

text \<open>The text of a style sheet or a script without a tag in it.\<close>

lemma raw_text: "CHR ''<'' \<notin> set s \<Longrightarrow> read_text (Raw name 0) s = Raw name 0"
proof (induction s)
  case (Cons c s)
  have "lower_char c \<noteq> CHR ''<''" if "c \<noteq> CHR ''<''"
  proof
    assume e: "lower_char c = CHR ''<''"
    with that have r: "(65 \<le> (of_char c :: nat) \<and> (of_char c :: nat) \<le> 90) \<or> (192 \<le> (of_char c :: nat) \<and> (of_char c :: nat) \<le> 222)"
      and "lower_char c = char_of (of_char c + 32 :: nat)"
      by (auto simp: lower_char_def Let_def split: if_splits)
    then have "of_char (lower_char c) = (of_char c + 32 :: nat)" using r by auto
    with e r show False by auto
  qed
  with Cons show ?case by (auto simp: Let_def)
qed simp

section \<open>What the reader sees\<close>

text \<open>The character references of \<open>escapeHtml\<close>, as a browser reads them.\<close>

definition entities :: "(string \<times> char) list" where
  "entities = [(''amp;'', CHR ''&''), (''lt;'', CHR ''<''), (''gt;'', CHR ''>''), (''quot;'', CHR 0x22), (''#39;'', CHR 0x27)]"

function read_entities :: "string \<Rightarrow> string" where
  "read_entities [] = []"
| "read_entities (c # s) =
     (if c = CHR ''&'' then
        (case find (\<lambda>(e, _). starts_with e s) entities of
           Some (e, d) \<Rightarrow> d # read_entities (drop (length e) s)
         | None \<Rightarrow> c # read_entities s)
      else c # read_entities s)"
  by pat_completeness auto
termination
  by (relation "measure length") (auto simp: less_Suc_eq_le)

lemma read_entity: "read_entities (html_entity c @ s) = c # read_entities s"
  by (simp add: html_entity_def entities_def starts_with_def)

lemma read_entities_escape: "read_entities (escape_html v) = v"
  by (induction v) (simp_all add: escape_html_def read_entity)

end
