(* ===== verification/Pages.thy ===== *)
theory Pages
  imports Html Wire Account_Pages
begin

text \<open>
  \<open>server/src/oauth/pages.ts\<close>: the templates of the hosted pages, with their text as the source has it, the style sheet and
  the script of the pages, and the rendering of the pages that the routes answer with. The middle dot of the source is one
  character.
\<close>

section \<open>Head\<close>

definition page_styles :: "string" where
  \<open>page_styles =
     ''
  :root {
    color-scheme: light dark;
    --fg: #141413; --muted: #6b6a64; --bg: #faf9f5; --surface: #ffffff;
    --line: #dcdad0; --accent: #141413; --accent-fg: #ffffff;
    --danger-bg: #f9ecec; --danger-fg: #7f2c28;
  }
  @media (prefers-color-scheme: dark) {
    :root {
      --fg: #faf9f5; --muted: #a3a199; --bg: #1a1a19; --surface: #242422;
      --line: #3b3a37; --accent: #faf9f5; --accent-fg: #141413;
      --danger-bg: #4a2422; --danger-fg: #efa9a5;
    }
  }
  * { box-sizing: border-box; }
  body {
    margin: 0; min-height: 100dvh; display: grid; place-items: center; padding: 24px;
    font: 16px/1.5 -apple-system, BlinkMacSystemFont, "Segoe UI", Roboto, sans-serif;
    color: var(--fg); background: var(--bg);
  }
  .card {
    width: 100%; max-width: 400px; background: var(--surface);
    border: 1px solid var(--line); border-radius: 14px; padding: 28px 24px;
  }
  h1 { font-size: 20px; margin: 0 0 6px; }
  .lede { margin: 0 0 22px; color: var(--muted); font-size: 14px; }
  .tabs { display: flex; gap: 8px; margin-bottom: 22px; }
  .tabs a {
    flex: 1; text-align: center; padding: 10px; border: 1px solid var(--line);
    border-radius: 9px; text-decoration: none; color: var(--fg); font-size: 14px;
  }
  .tabs a[aria-current="page"] {
    background: var(--accent); color: var(--accent-fg); border-color: var(--accent); font-weight: 600;
  }
  label { display: block; font-size: 13px; font-weight: 600; margin-bottom: 6px; }
  input {
    width: 100%; padding: 12px; font-size: 16px; margin-bottom: 18px;
    border: 1px solid var(--line); border-radius: 9px;
    background: var(--bg); color: var(--fg);
  }
  button {
    width: 100%; padding: 13px; font-size: 15px; font-weight: 600; cursor: pointer;
    border: 0; border-radius: 9px; background: var(--accent); color: var(--accent-fg);
  }
  /* A class, not a style attribute: the page's CSP allows only the nonced
     stylesheet, and inline style attributes are not covered by a nonce. */
  button.cancel {
    display: block; text-align: center; margin-top: 14px; font-size: 14px;
    background: none; color: var(--muted); font-weight: 400; padding: 8px;
  }
  .error {
    background: var(--danger-bg); color: var(--danger-fg); padding: 11px 13px;
    border-radius: 9px; font-size: 14px; margin-bottom: 18px;
  }
  .grant { margin: 0 0 22px; padding: 14px; border: 1px solid var(--line); border-radius: 10px; }
  .grant p { margin: 0 0 8px; font-size: 14px; }
  .grant ul { margin: 0; padding-left: 20px; font-size: 14px; color: var(--muted); }
  .grant li { margin: 3px 0; }
  .host { font-weight: 600; word-break: break-all; }
  .badge {
    display: inline-block; font-size: 12px; font-weight: 600; padding: 2px 8px;
    border-radius: 999px; margin-left: 6px; vertical-align: 1px;
  }
  .badge.verified { background: #e3f3e8; color: #1d5b33; }
  .badge.unverified { background: var(--danger-bg); color: var(--danger-fg); }
  .note { font-size: 13px; color: var(--muted); margin: 10px 0 0; }
  .destination { font-size: 13px; margin: 12px 0 0; word-break: break-all; }
  .actions { display: grid; gap: 10px; }
  .secondary { background: none; color: var(--fg); border: 1px solid var(--line); }
  .signout { text-align: center; margin-top: 16px; font-size: 13px; color: var(--muted); }
  .signout button {
    display: inline; width: auto; padding: 0; background: none; color: var(--muted);
    font-size: 13px; font-weight: 400; text-decoration: underline;
  }
  .or { display: flex; align-items: center; gap: 10px; color: var(--muted); font-size: 13px; margin: 18px 0; }
  .or::before, .or::after { content: ""; flex: 1; border-top: 1px solid var(--line); }
  [hidden] { display: none !important; }
  .card.wide { max-width: 560px; }
  h2 { font-size: 15px; margin: 26px 0 10px; }
  .rows { list-style: none; margin: 0 0 6px; padding: 0; border: 1px solid var(--line); border-radius: 10px; }
  .rows li { display: flex; gap: 12px; align-items: center; padding: 12px 14px; border-top: 1px solid var(--line); }
  .rows li:first-child { border-top: 0; }
  .rows .what { flex: 1; min-width: 0; font-size: 14px; }
  .rows .what small { display: block; color: var(--muted); font-size: 12px; margin-top: 2px; }
  .rows form { margin: 0; }
  .rows button, button.small { width: auto; padding: 7px 12px; font-size: 13px; }
  .empty { color: var(--muted); font-size: 14px; margin: 0 0 6px; }
  .ok { background: #e3f3e8; color: #1d5b33; padding: 11px 13px; border-radius: 9px; font-size: 14px; margin-bottom: 18px; }
  nav.account { display: flex; gap: 16px; font-size: 14px; margin: 0 0 8px; }
  nav.account a { color: var(--fg); }
  nav.account a[aria-current="page"] { font-weight: 600; text-decoration: none; }
''\<close>

definition page_head :: "string \<Rightarrow> string \<Rightarrow> piece list" where
  \<open>page_head nonce title =
     [Lit ''<!doctype html>
<html lang="en">
<head>
<meta charset="utf-8">
<meta name="viewport" content="width=device-width, initial-scale=1, viewport-fit=cover">
<meta name="robots" content="noindex, nofollow">
<title>'',
      Esc title,
      Lit ''</title>
<style nonce="'',
      Esc nonce,
      Lit ''">'']
     @ [Lit page_styles]
     @ [Lit ''</style>
</head>'']\<close>

section \<open>Passkeys\<close>

definition passkey_script_text :: "string" where
  \<open>passkey_script_text =
     (''(() => {
  const button = document.getElementById('passkey');
  const problem = document.getElementById('passkey-error');
  if (!button) return;
  if (!window.PublicKeyCredential) { button.closest('[data-passkey]').hidden = true; return; }
  const encode = (buffer) => btoa(String.fromCharCode(...new Uint8Array(buffer)))
    .replace(/'' @ [CHR 0x5C] @ ''+/g, '-').replace(/'' @ [CHR 0x5C] @ ''//g, '_').replace(/=+$/, '' @ [CHR 0x27] @ ''');
  const decode = (text) => Uint8Array.from(
    atob(text.replace(/-/g, '+').replace(/_/g, '/') + '==='.slice((text.length + 3) % 4)), (c) => c.charCodeAt(0));
  const ids = (list) => (list || []).map((entry) => ({ ...entry, id: decode(entry.id) }));
  const post = async (url, body) => {
    const response = await fetch(url, {
      method: 'POST', credentials: 'same-origin',
      headers: { 'content-type': 'application/json' }, body: JSON.stringify(body)
    });
    return { ok: response.ok, body: await response.json().catch(() => ({})) };
  };
  const show = (message) => { problem.textContent = message; problem.hidden = false; };
  const context = JSON.parse(button.dataset.context);
  button.addEventListener('click', async () => {
    button.disabled = true;
    problem.hidden = true;
    try {
      const started = await post(context.options, context.payload);
      if (!started.ok) return show(started.body.error || 'That did not start. Reload and try again.');
      const options = started.body;
      let credential;
      if (context.kind === 'register') {
        credential = await navigator.credentials.create({ publicKey: {
          ...options, challenge: decode(options.challenge),
          user: { ...options.user, id: decode(options.user.id) },
          excludeCredentials: ids(options.excludeCredentials)
        } });
      } else {
        credential = await navigator.credentials.get({ publicKey: {
          ...options, challenge: decode(options.challenge), allowCredentials: ids(options.allowCredentials)
        } });
      }
      const answer = credential.response;
      const response = context.kind === 'register'
        ? { clientDataJSON: encode(answer.clientDataJSON), attestationObject: encode(answer.attestationObject),
            transports: answer.getTransports ? answer.getTransports() : [] }
        : { clientDataJSON: encode(answer.clientDataJSON), authenticatorData: encode(answer.authenticatorData),
            signature: encode(answer.signature), userHandle: answer.userHandle ? encode(answer.userHandle) : undefined };
      const name = document.getElementById('passkey-name');
      const finished = await post(context.finish, {
        ...context.payload, name: name ? name.value : undefined,
        response: { id: credential.id, rawId: encode(credential.rawId), type: credential.type, response,
          clientExtensionResults: credential.getClientExtensionResults(),
          authenticatorAttachment: credential.authenticatorAttachment || undefined }
      });
      if (!finished.ok) return show(finished.body.error || 'That passkey did not work.');
      location.assign(finished.body.redirect);
    } catch (error) {
      // Cancelling the browser's prompt is a choice, not a failure.
      if (!error || error.name !== 'NotAllowedError') show('This browser could not use a passkey here.');
    } finally {
      button.disabled = false;
    }
  });
})();'')\<close>

definition passkey_script :: "string \<Rightarrow> piece list" where
  \<open>passkey_script nonce =
     [Lit ''<script nonce="'',
      Esc nonce,
      Lit ''">'']
     @ [Lit passkey_script_text]
     @ [Lit ''</script>'']\<close>

definition passkey_context :: "string \<Rightarrow> string \<Rightarrow> string \<Rightarrow> (string \<times> jsval) list \<Rightarrow> string" where
  \<open>passkey_context kind options finish payload =
     json (JObj [(''kind'', JStr kind), (''options'', JStr options), (''finish'', JStr finish), (''payload'', JObj payload)])\<close>

definition passkey_sign_in :: "string \<Rightarrow> (string \<times> jsval) list \<Rightarrow> piece list" where
  \<open>passkey_sign_in nonce payload =
     [Lit ''<div data-passkey>
      <p class="or">or</p>
      <p class="error" id="passkey-error" role="alert" hidden></p>
      <button type="button" class="secondary" id="passkey" data-context="'',
      Esc (passkey_context ''authenticate'' ''/passkey/options'' ''/passkey/login'' payload),
      Lit ''">Sign in with a passkey</button>
    </div>
    '']
     @ passkey_script nonce\<close>

section \<open>Signing in and approving\<close>

definition login_tabs :: "string \<Rightarrow> bool \<Rightarrow> piece list" where
  \<open>login_tabs pending signup =
     [Lit ''<nav class="tabs">
      <a href="/login?pending='',
      Uri pending,
      Lit ''&amp;mode=login"
         '']
     @ [Lit (if \<not> signup then ''aria-current="page"'' else [])]
     @ [Lit ''>Log In</a>
      <a href="/login?pending='',
      Uri pending,
      Lit ''&amp;mode=signup"
         '']
     @ [Lit (if signup then ''aria-current="page"'' else [])]
     @ [Lit ''>Sign Up</a>
    </nav>'']\<close>

definition page_error :: "string option \<Rightarrow> piece list" where
  \<open>page_error err =
     (case truthy err of None \<Rightarrow> []
      | Some e \<Rightarrow> [Lit ''<p class="error" role="alert">'',
      Esc e,
      Lit ''</p>''])\<close>

definition page_notice :: "string option \<Rightarrow> piece list" where
  \<open>page_notice notice =
     (case truthy notice of None \<Rightarrow> []
      | Some n \<Rightarrow> [Lit ''<p class="ok" role="status">'',
      Esc n,
      Lit ''</p>''])\<close>

definition login_template :: "string \<Rightarrow> login_view \<Rightarrow> piece list" where
  \<open>login_template nonce v =
     page_head nonce ((if lv_signup v then ''Sign up'' else ''Log in'') @ '' to IoT Switch'')
     @ [Lit ''
<body>
  <main class="card">
    <h1>IoT Switch</h1>
    <p class="lede">'']
     @ [Lit (if lv_reauth v then ''Approving write access needs a recent sign-in. Sign in again to continue.''
         else if lv_signup v then ''Create an account to connect your devices.'' else ''Log in to connect your devices.'')]
     @ [Lit ''</p>
    <p class="lede">Continuing to <span class="host">'',
      Esc (lv_host v),
      Lit ''</span>. You will see exactly what it is asking for before anything is shared.</p>

    '']
     @ (if lv_reauth v then [] else login_tabs (lv_pending v) (lv_signup v))
     @ [Lit ''

    '']
     @ page_error (lv_error v)
     @ [Lit ''

    <form method="post" action="/login">
      <input type="hidden" name="pending" value="'',
      Esc (lv_pending v),
      Lit ''">
      <input type="hidden" name="csrf" value="'',
      Esc (lv_csrf v),
      Lit ''">
      <input type="hidden" name="mode" value="'']
     @ [Lit (if lv_signup v then ''signup'' else ''login'')]
     @ [Lit ''">

      <label for="username">Username</label>
      <input id="username" name="username" value="'',
      Esc (case lv_username v of None \<Rightarrow> [] | Some u \<Rightarrow> u),
      Lit ''"
             autocomplete="username" autocapitalize="none" autocorrect="off"
             spellcheck="false" required>

      <label for="password">Password</label>
      <input id="password" name="password" type="password"
             autocomplete="'']
     @ [Lit (if lv_signup v then ''new-password'' else ''current-password'')]
     @ [Lit ''" required>

      <button type="submit">'']
     @ [Lit (if lv_signup v then ''Sign Up and Continue'' else ''Log In and Continue'')]
     @ [Lit ''</button>
    </form>

    '']
     @ (if lv_signup v then [] else passkey_sign_in nonce [(''csrf'', JStr (lv_csrf v)), (''pending'', JStr (lv_pending v))])
     @ [Lit ''

    <form method="post" action="/consent/deny">
      <input type="hidden" name="pending" value="'',
      Esc (lv_pending v),
      Lit ''">
      <input type="hidden" name="csrf" value="'',
      Esc (lv_csrf v),
      Lit ''">
      <button type="submit" class="cancel">Cancel</button>
    </form>
  </main>
</body>
</html>'']\<close>

definition scope_descriptions :: "(string \<times> string) list" where
  \<open>scope_descriptions =
     [(''devices:read'', ''See your devices and whether each one is on or off''),
      (''devices:control'', ''Switch your devices on and off''),
      (''devices:create'', ''Add new devices to your account'')]\<close>

definition scope_description :: "string \<Rightarrow> string" where
  \<open>scope_description scope =
     (case map_of scope_descriptions scope of None \<Rightarrow> scope | Some d \<Rightarrow> d)\<close>

definition consent_badge :: "client_trust \<Rightarrow> string" where
  \<open>consent_badge trust =
     (if trust = Verified then ''<span class="badge verified">Verified</span>''
      else ''<span class="badge unverified">Unverified</span>'')\<close>

definition consent_identity :: "client_kind \<Rightarrow> client_trust \<Rightarrow> string" where
  \<open>consent_identity kind trust =
     (if kind = Dcr then ''<p class="note">This application registered itself and has not been verified. Its name could be anything; check the address below.</p>''
      else if trust = Unverified then ''<p class="note">This application is identified by the website that publishes it. It has not been verified by IoT Switch.</p>''
      else [])\<close>

definition consent_where :: "consent_view \<Rightarrow> url \<Rightarrow> piece list" where
  \<open>consent_where v u =
     (if nv_kind v = Dcr then [Lit ''<p class="destination">You will be sent to <span class="host">'',
      Esc (nv_redirect v),
      Lit ''</span></p>'']
      else [Lit ''<p class="destination">You will be sent back to <span class="host">'',
      Esc (if url_host u \<noteq> [] then url_host u else url_protocol u),
      Lit ''</span></p>''])\<close>

definition loopback_warning :: "url \<Rightarrow> string" where
  \<open>loopback_warning u =
     (if url_hostname u \<in> {''127.0.0.1'', ''localhost'', ''[::1]''} then ''<p class="note">This sends you back to a program running on this computer. Only continue if you started it.</p>'' else [])\<close>

definition consent_template :: "string \<Rightarrow> consent_view \<Rightarrow> url \<Rightarrow> piece list" where
  \<open>consent_template nonce v u =
     page_head nonce ''Allow access to IoT Switch?''
     @ [Lit ''
<body>
  <main class="card">
    <h1>Allow access?</h1>
    <p class="lede">Signed in as <span class="host">'',
      Esc (nv_username v),
      Lit ''</span></p>

    <div class="grant">
      <p><span class="host">'',
      Esc (nv_host v),
      Lit ''</span>'']
     @ [Lit (consent_badge (nv_trust v))]
     @ [Lit '' is asking to:</p>
      <ul>
        '']
     @ join_pieces ''
        '' (map (\<lambda>scope. [Lit ''<li>'', Esc (scope_description scope), Lit ''</li>'']) (nv_scopes v))
     @ [Lit ''
      </ul>
      '']
     @ [Lit (consent_identity (nv_kind v) (nv_trust v))]
     @ [Lit ''
      '']
     @ consent_where v u
     @ [Lit ''
      '']
     @ [Lit (loopback_warning u)]
     @ [Lit ''
    </div>

    <div class="actions">
      <form method="post" action="/consent">
        <input type="hidden" name="pending" value="'',
      Esc (nv_pending v),
      Lit ''">
        <input type="hidden" name="csrf" value="'',
      Esc (nv_csrf v),
      Lit ''">
        <button type="submit">Allow</button>
      </form>
      <form method="post" action="/consent/deny">
        <input type="hidden" name="pending" value="'',
      Esc (nv_pending v),
      Lit ''">
        <input type="hidden" name="csrf" value="'',
      Esc (nv_csrf v),
      Lit ''">
        <button type="submit" class="secondary">Deny</button>
      </form>
    </div>

    <form method="post" action="/logout" class="signout">
      <input type="hidden" name="pending" value="'',
      Esc (nv_pending v),
      Lit ''">
      <input type="hidden" name="csrf" value="'',
      Esc (nv_csrf v),
      Lit ''">
      Not '',
      Esc (nv_username v),
      Lit ''? <button type="submit">Sign out</button>
    </form>
  </main>
</body>
</html>'']\<close>

definition error_template :: "string \<Rightarrow> string \<Rightarrow> string \<Rightarrow> piece list" where
  \<open>error_template title detail nonce =
     [Lit ''<!doctype html>
<html lang="en">
<head>
<meta charset="utf-8">
<meta name="viewport" content="width=device-width, initial-scale=1">
<meta name="robots" content="noindex, nofollow">
<title>'',
      Esc title,
      Lit ''</title>
<style nonce="'',
      Esc nonce,
      Lit ''">'']
     @ [Lit page_styles]
     @ [Lit ''</style>
</head>
<body>
  <main class="card">
    <h1>'',
      Esc title,
      Lit ''</h1>
    <p class="lede">'',
      Esc detail,
      Lit ''</p>
    <p class="lede">Close this window and start again from the app that sent you here.</p>
  </main>
</body>
</html>'']\<close>

section \<open>The account\<close>

text \<open>\<open>when\<close>: the minute, or never.\<close>

definition when_text :: "int option \<Rightarrow> string" where
  \<open>when_text date =
     (case date of None \<Rightarrow> ''never''
      | Some ms \<Rightarrow> map (\<lambda>c. if c = CHR ''T'' then CHR 0x20 else c) (take 16 (iso_string ms)) @ '' UTC'')\<close>

definition account_login_template :: "string \<Rightarrow> string \<Rightarrow> string option \<Rightarrow> string option \<Rightarrow> string option \<Rightarrow> bool \<Rightarrow> piece list" where
  \<open>account_login_template nonce csrf err notice username reauth =
     page_head nonce ''Your IoT Switch account''
     @ [Lit ''
<body>
  <main class="card">
    <h1>Your account</h1>
    <p class="lede">'']
     @ [Lit (if reauth then ''This needs a recent sign-in. Sign in again to continue.''
         else ''Sign in to see your passkeys and the apps connected to your devices.'')]
     @ [Lit ''</p>
    '']
     @ page_notice notice
     @ [Lit ''
    '']
     @ page_error err
     @ [Lit ''
    <form method="post" action="/account/login">
      <input type="hidden" name="csrf" value="'',
      Esc csrf,
      Lit ''">
      <label for="username">Username</label>
      <input id="username" name="username" value="'',
      Esc (case username of None \<Rightarrow> [] | Some u \<Rightarrow> u),
      Lit ''"
             autocomplete="username" autocapitalize="none" autocorrect="off" spellcheck="false" required>
      <label for="password">Password</label>
      <input id="password" name="password" type="password" autocomplete="current-password" required>
      <button type="submit">Log In</button>
    </form>
    '']
     @ passkey_sign_in nonce [(''csrf'', JStr csrf)]
     @ [Lit ''
  </main>
</body>
</html>'']\<close>

definition account_nav :: "string \<Rightarrow> piece list" where
  \<open>account_nav current =
     [Lit ''<nav class="account">
      <a href="/account" '']
     @ [Lit (if current = ''security'' then ''aria-current="page"'' else [])]
     @ [Lit ''>Sign-in &amp; security</a>
      <a href="/account/apps" '']
     @ [Lit (if current = ''apps'' then ''aria-current="page"'' else [])]
     @ [Lit ''>Connected apps</a>
    </nav>'']\<close>

definition sign_out_forms :: "string \<Rightarrow> piece list" where
  \<open>sign_out_forms csrf =
     [Lit ''<h2>Everywhere</h2>
    <form method="post" action="/account/signout-everywhere">
      <input type="hidden" name="csrf" value="'',
      Esc csrf,
      Lit ''">
      <button type="submit" class="secondary">Sign out everywhere</button>
      <p class="note">Ends every connected app, the iPhone app and every browser at once. Each will need you to sign in again.</p>
    </form>
    <form method="post" action="/account/logout" class="signout">
      <input type="hidden" name="csrf" value="'',
      Esc csrf,
      Lit ''">
      <button type="submit">Sign out of this page</button>
    </form>'']\<close>

definition passkey_row :: "string \<Rightarrow> passkey \<Rightarrow> piece list" where
  \<open>passkey_row csrf key =
     [Lit ''<li>
        <span class="what">'',
      Esc (py_name key),
      Lit ''<small>Added '',
      Plain (when_text (Some (py_created_at key))),
      Lit ('' '' @ [CHR 0xB7] @ '' last used ''),
      Plain (when_text (py_last_used key)),
      Lit ''</small></span>
        <form method="post" action="/account/passkeys/'',
      Uri (py_id key),
      Lit ''/delete">
          <input type="hidden" name="csrf" value="'',
      Esc csrf,
      Lit ''">
          <button type="submit" class="secondary">Remove</button>
        </form>
      </li>'']\<close>

definition passkey_rows :: "string \<Rightarrow> passkey list \<Rightarrow> piece list" where
  \<open>passkey_rows csrf keys =
     (if keys = [] then [Lit ''<p class="empty">No passkeys yet.</p>''] else
      [Lit ''<ul class="rows">
      '']
     @ join_pieces ''
      '' (map (passkey_row csrf) keys)
     @ [Lit ''
    </ul>''])\<close>

definition account_template :: "string \<Rightarrow> string \<Rightarrow> string \<Rightarrow> passkey list \<Rightarrow> string option \<Rightarrow> string option \<Rightarrow> piece list" where
  \<open>account_template nonce csrf username keys notice err =
     page_head nonce ''Sign-in & security''
     @ [Lit ''
<body>
  <main class="card wide">
    <h1>'',
      Esc username,
      Lit ''</h1>
    '']
     @ account_nav ''security''
     @ [Lit ''
    '']
     @ page_notice notice
     @ [Lit ''
    '']
     @ page_error err
     @ [Lit ''

    <h2>Passkeys</h2>
    <p class="note">A passkey signs you in with your fingerprint, face or device PIN. It only works on this site, so a fake sign-in page cannot use it.</p>
    '']
     @ passkey_rows csrf keys
     @ [Lit ''
    <div data-passkey>
      <label for="passkey-name">Name for a new passkey</label>
      <input id="passkey-name" maxlength="60" placeholder="e.g. My iPhone">
      <p class="error" id="passkey-error" role="alert" hidden></p>
      <button type="button" id="passkey" data-context="'',
      Esc (passkey_context ''register'' ''/account/passkeys/options'' ''/account/passkeys'' [(''csrf'', JStr csrf)]),
      Lit ''">Add a passkey</button>
    </div>
    '']
     @ passkey_script nonce
     @ [Lit ''

    <h2>Password</h2>
    <form method="post" action="/account/password">
      <input type="hidden" name="csrf" value="'',
      Esc csrf,
      Lit ''">
      <input type="text" name="username" value="'',
      Esc username,
      Lit ''" autocomplete="username" hidden>
      <label for="current">Current password</label>
      <input id="current" name="currentPassword" type="password" autocomplete="current-password" required>
      <label for="new">New password</label>
      <input id="new" name="newPassword" type="password" autocomplete="new-password" required>
      <button type="submit" class="secondary">Change password</button>
      <p class="note">Changing your password signs you out everywhere else.</p>
    </form>

    '']
     @ sign_out_forms csrf
     @ [Lit ''
  </main>
</body>
</html>'']\<close>

definition app_row :: "string \<Rightarrow> connected_app \<Rightarrow> piece list" where
  \<open>app_row csrf app =
     [Lit ''<li>
        <span class="what"><span class="host">'',
      Esc (ca_name app),
      Lit ''</span><span class="badge '',
      Plain (if ca_trust app = Verified then ''verified'' else ''unverified''),
      Lit ''">'']
     @ [Lit (if ca_trust app = Verified then ''Verified'' else ''Unverified'')]
     @ [Lit ''</span>
          <small>'']
     @ join_pieces ('' '' @ [CHR 0xB7] @ '' '') (map (\<lambda>scope. [Esc (scope_description scope)]) (ca_scopes app))
     @ [Lit ''</small>
          '']
     @ (case truthy (ca_destination app) of None \<Rightarrow> [] | Some d \<Rightarrow> [Lit ''<small>Sends you to '',
      Esc d,
      Lit ''</small>''])
     @ [Lit ''
          <small>Connected '',
      Plain (when_text (Some (ca_created_at app))),
      Lit ('' '' @ [CHR 0xB7] @ '' last used ''),
      Plain (when_text (ca_last_used app)),
      Lit ''</small></span>
        <form method="post" action="/account/apps/'',
      Uri (ca_grant app),
      Lit ''/revoke">
          <input type="hidden" name="csrf" value="'',
      Esc csrf,
      Lit ''">
          <button type="submit" class="secondary">Disconnect</button>
        </form>
      </li>'']\<close>

definition app_rows :: "string \<Rightarrow> connected_app list \<Rightarrow> piece list" where
  \<open>app_rows csrf apps =
     (if apps = [] then [Lit ''<p class="empty">Nothing is connected.</p>''] else
      [Lit ''<ul class="rows">
      '']
     @ join_pieces ''
      '' (map (app_row csrf) apps)
     @ [Lit ''
    </ul>''])\<close>

definition apps_template :: "string \<Rightarrow> string \<Rightarrow> string \<Rightarrow> connected_app list \<Rightarrow> string option \<Rightarrow> piece list" where
  \<open>apps_template nonce csrf username apps notice =
     page_head nonce ''Connected apps''
     @ [Lit ''
<body>
  <main class="card wide">
    <h1>'',
      Esc username,
      Lit ''</h1>
    '']
     @ account_nav ''apps''
     @ [Lit ''
    '']
     @ page_notice notice
     @ [Lit ''
    <h2>Apps that can reach your devices</h2>
    '']
     @ app_rows csrf apps
     @ [Lit ''
    '']
     @ sign_out_forms csrf
     @ [Lit ''
  </main>
</body>
</html>'']\<close>

section \<open>Rendering\<close>

text \<open>The page a reply carries, written out. A redirect URI that is no URL throws.\<close>

fun page_template :: "url_parser \<Rightarrow> string \<Rightarrow> page \<Rightarrow> error + piece list" where
  "page_template parse nonce (Error_page title detail) = Inr (error_template title detail nonce)"
| "page_template parse nonce (Login_page v) = Inr (login_template nonce v)"
| "page_template parse nonce (Consent_page v) =
     (case parse (nv_redirect v) of None \<Rightarrow> Inl invalid_url | Some u \<Rightarrow> Inr (consent_template nonce v u))"
| "page_template parse nonce (Account_login_page csrf err notice username reauth) =
     Inr (account_login_template nonce csrf err notice username reauth)"
| "page_template parse nonce (Account_page csrf username keys notice err) =
     Inr (account_template nonce csrf username keys notice err)"
| "page_template parse nonce (Apps_page csrf username apps notice) = Inr (apps_template nonce csrf username apps notice)"

definition render_page :: "url_parser \<Rightarrow> string \<Rightarrow> page \<Rightarrow> error + string" where
  "render_page parse nonce p = (case page_template parse nonce p of Inl e \<Rightarrow> Inl e | Inr ps \<Rightarrow> Inr (write_html ps))"

end
