(* ===== verification/Page_Theorems.thy ===== *)
theory Page_Theorems
  imports Pages
begin

text \<open>
  That nothing inserted into a page becomes markup: the tags, attributes, style sheets and scripts of a page are decided
  by which page it is and which of its parts are shown, and a reader sees the inserted values as they are.
\<close>

section \<open>Every hole is where text belongs\<close>

lemma raw_styles [simp]: "read_text (Raw name 0) page_styles = Raw name 0"
  by (rule raw_text) (simp add: page_styles_def)

lemma raw_script [simp]: "read_text (Raw name 0) passkey_script_text = Raw name 0"
  by (rule raw_text) (simp add: passkey_script_text_def)

lemmas tag_simps = after_tag_def tag_name_def to_lower_def lower_char_def is_ws_def

lemma reads_head [simp]: "reads_well Content (page_head nonce title) = Some Content"
  unfolding page_head_def by (simp add: tag_simps)

lemma reads_script [simp]: "reads_well Content (passkey_script nonce) = Some Content"
  unfolding passkey_script_def by (simp add: tag_simps)

lemma reads_sign_in [simp]: "reads_well Content (passkey_sign_in nonce payload) = Some Content"
  unfolding passkey_sign_in_def by (simp add: tag_simps reads_well_append)

lemma reads_tabs [simp]: "reads_well Content (login_tabs pending signup) = Some Content"
  unfolding login_tabs_def by (cases signup) (simp_all add: tag_simps)

lemma reads_error [simp]: "reads_well Content (page_error e) = Some Content"
  unfolding page_error_def by (simp add: tag_simps split: option.splits)

lemma reads_notice [simp]: "reads_well Content (page_notice e) = Some Content"
  unfolding page_notice_def by (simp add: tag_simps split: option.splits)

lemma reads_nav [simp]: "reads_well Content (account_nav current) = Some Content"
  unfolding account_nav_def
  by (cases "current = ''security''"; cases "current = ''apps''") (simp_all add: tag_simps)

lemma reads_sign_out [simp]: "reads_well Content (sign_out_forms csrf) = Some Content"
  unfolding sign_out_forms_def by (simp add: tag_simps)

lemma reads_error_page [simp]: "reads_well Content (error_template title detail nonce) = Some Content"
  unfolding error_template_def by (simp add: tag_simps)

lemma reads_where [simp]: "reads_well Content (consent_where v u) = Some Content"
  unfolding consent_where_def by (simp add: tag_simps)

lemma reads_consent_text [simp]:
  "read_text Content (consent_badge t) = Content" "read_text Content (consent_identity k t) = Content"
  "read_text Content (loopback_warning u) = Content"
  unfolding consent_badge_def consent_identity_def loopback_warning_def by (simp_all add: tag_simps)

lemma reads_login [simp]: "reads_well Content (login_template nonce v) = Some Content"
  unfolding login_template_def
  by (cases "lv_signup v"; cases "lv_reauth v") (simp_all add: reads_well_append tag_simps)

lemma reads_consent [simp]: "reads_well Content (consent_template nonce v u) = Some Content"
proof -
  have "reads_well Content (join_pieces sep (map (\<lambda>scope. [Lit ''<li>'', Esc (scope_description scope), Lit ''</li>'']) ss)) = Some Content"
    if "read_text Content sep = Content" for sep ss
    using that by (intro reads_well_join) (auto simp: tag_simps)
  then show ?thesis unfolding consent_template_def by (simp add: reads_well_append tag_simps)
qed

lemma reads_account_login [simp]: "reads_well Content (account_login_template nonce csrf e n u r) = Some Content"
  unfolding account_login_template_def by (cases r) (simp_all add: reads_well_append tag_simps)

lemma dec_plain: "c \<in> set (dec n) \<Longrightarrow> plain_char c"
  using dec_digit_range [of c n] by (auto simp: plain_char_def)

lemma iso_plain: "c \<in> set (iso_string ms) \<Longrightarrow> plain_char c"
proof -
  have "plain_char c" if "c \<in> set (pad w i)" for w i
    using that dec_plain by (auto simp: pad_def Let_def int_str_def plain_char_def split: if_splits)
  then show "c \<in> set (iso_string ms) \<Longrightarrow> plain_char c"
    by (auto simp: iso_string_def Let_def plain_char_def split: prod.splits)
qed

lemma when_plain [simp]: "list_all plain_char (when_text d)"
  using iso_plain
  by (auto simp: when_text_def list_all_iff plain_char_def split: option.splits dest!: in_set_takeD)

lemma reads_passkey_row [simp]: "reads_well Content (passkey_row csrf key) = Some Content"
  unfolding passkey_row_def by (simp add: tag_simps)

lemma reads_passkey_rows [simp]: "reads_well Content (passkey_rows csrf keys) = Some Content"
proof -
  have "reads_well Content (join_pieces sep (map (passkey_row csrf) keys)) = Some Content" if "read_text Content sep = Content" for sep
    using that by (intro reads_well_join) auto
  then show ?thesis unfolding passkey_rows_def by (simp add: reads_well_append tag_simps)
qed

lemma reads_account [simp]: "reads_well Content (account_template nonce csrf username keys notice e) = Some Content"
  unfolding account_template_def by (simp add: reads_well_append tag_simps)

lemma reads_app_row [simp]: "reads_well Content (app_row csrf app) = Some Content"
proof -
  have "reads_well Content (join_pieces sep (map (\<lambda>scope. [Esc (scope_description scope)]) ss)) = Some Content"
    if "read_text Content sep = Content" for sep ss
    using that by (intro reads_well_join) auto
  then show ?thesis
    unfolding app_row_def
    by (cases "truthy (ca_destination app)"; cases "ca_trust app") (simp_all add: reads_well_append tag_simps plain_char_def)
qed

lemma reads_app_rows [simp]: "reads_well Content (app_rows csrf apps) = Some Content"
proof -
  have "reads_well Content (join_pieces sep (map (app_row csrf) apps)) = Some Content" if "read_text Content sep = Content" for sep
    using that by (intro reads_well_join) auto
  then show ?thesis unfolding app_rows_def by (simp add: reads_well_append tag_simps)
qed

lemma reads_apps [simp]: "reads_well Content (apps_template nonce csrf username apps notice) = Some Content"
  unfolding apps_template_def by (simp add: reads_well_append tag_simps)

lemma reads_page: "page_template parse nonce p = Inr ps \<Longrightarrow> reads_well Content ps = Some Content"
  by (cases p) (auto split: option.splits)

section \<open>What decides the outline\<close>

definition is_loopback_url :: "url \<Rightarrow> bool" where
  "is_loopback_url u \<longleftrightarrow> url_hostname u \<in> {''127.0.0.1'', ''localhost'', ''[::1]''}"

definition shown :: "string option \<Rightarrow> bool" where
  "shown v \<longleftrightarrow> truthy v \<noteq> None"

text \<open>Two pages of one kind with the same parts.\<close>

fun same_parts :: "url_parser \<Rightarrow> page \<Rightarrow> page \<Rightarrow> bool" where
  "same_parts parse (Error_page t d) (Error_page t' d') \<longleftrightarrow> True"
| "same_parts parse (Login_page v) (Login_page w) \<longleftrightarrow>
     lv_signup v = lv_signup w \<and> lv_reauth v = lv_reauth w \<and> shown (lv_error v) = shown (lv_error w)"
| "same_parts parse (Consent_page v) (Consent_page w) \<longleftrightarrow>
     nv_kind v = nv_kind w \<and> nv_trust v = nv_trust w \<and> length (nv_scopes v) = length (nv_scopes w)
     \<and> map_option is_loopback_url (parse (nv_redirect v)) = map_option is_loopback_url (parse (nv_redirect w))"
| "same_parts parse (Account_login_page c e n u r) (Account_login_page c' e' n' u' r') \<longleftrightarrow>
     shown e = shown e' \<and> shown n = shown n' \<and> r = r'"
| "same_parts parse (Account_page c u ks n e) (Account_page c' u' ks' n' e') \<longleftrightarrow>
     length ks = length ks' \<and> shown n = shown n' \<and> shown e = shown e'"
| "same_parts parse (Apps_page c u as n) (Apps_page c' u' as' n') \<longleftrightarrow>
     list_all2 (\<lambda>a a'. (ca_trust a = ca_trust a') \<and> length (ca_scopes a) = length (ca_scopes a')
       \<and> shown (ca_destination a) = shown (ca_destination a')) as as' \<and> shown n = shown n'"
| "same_parts parse _ _ \<longleftrightarrow> False"

lemmas shared_parts = page_head_def passkey_script_def passkey_sign_in_def login_tabs_def sign_out_forms_def account_nav_def

lemma outline_error: "shown e = shown e' \<Longrightarrow> map outline (page_error e) = map outline (page_error e')"
  by (auto simp: page_error_def shown_def split: option.splits)

lemma outline_notice: "shown e = shown e' \<Longrightarrow> map outline (page_notice e) = map outline (page_notice e')"
  by (auto simp: page_notice_def shown_def split: option.splits)

lemma outline_rows:
  "list_all2 (\<lambda>x y. map outline (f x) = map outline (g y)) xs ys \<Longrightarrow>
     map outline (join_pieces sep (map f xs)) = map outline (join_pieces sep (map g ys))"
  by (rule outline_join, induction rule: list_all2_induct) simp_all

lemma outline_rows_length:
  "length xs = length ys \<Longrightarrow> (\<And>x y. map outline (f x) = map outline (g y)) \<Longrightarrow>
     map outline (join_pieces sep (map f xs)) = map outline (join_pieces sep (map g ys))"
  by (rule outline_rows) (simp add: list_all2_conv_all_nth)

lemma outline_login:
  "same_parts parse (Login_page v) (Login_page w) \<Longrightarrow> map outline (login_template n v) = map outline (login_template n' w)"
  using outline_error [of "lv_error v" "lv_error w"] by (simp add: login_template_def shared_parts)

lemma outline_where:
  "nv_kind v = nv_kind w \<Longrightarrow> map outline (consent_where v u) = map outline (consent_where w u')"
  by (simp add: consent_where_def)

lemma outline_consent:
  assumes "same_parts parse (Consent_page v) (Consent_page w)" "parse (nv_redirect v) = Some u" "parse (nv_redirect w) = Some u'"
  shows "map outline (consent_template n v u) = map outline (consent_template n' w u')"
proof -
  have "loopback_warning u = loopback_warning u'"
    using assms by (simp add: loopback_warning_def is_loopback_url_def)
  moreover have "map outline (join_pieces sep (map (\<lambda>scope. [Lit ''<li>'', Esc (scope_description scope), Lit ''</li>'']) (nv_scopes v)))
      = map outline (join_pieces sep (map (\<lambda>scope. [Lit ''<li>'', Esc (scope_description scope), Lit ''</li>'']) (nv_scopes w)))" for sep
    using assms(1) by (intro outline_rows_length) auto
  ultimately show ?thesis
    using assms(1) outline_where [of v w u u'] by (simp add: consent_template_def shared_parts)
qed

lemma outline_account_login:
  "same_parts parse (Account_login_page c e m u r) (Account_login_page c' e' m' u' r') \<Longrightarrow>
     map outline (account_login_template n c e m u r) = map outline (account_login_template n' c' e' m' u' r')"
  using outline_error [of e e'] outline_notice [of m m'] by (simp add: account_login_template_def shared_parts)

lemma outline_passkey_rows:
  assumes "length ks = length ks'"
  shows "map outline (passkey_rows c ks) = map outline (passkey_rows c' ks')"
proof -
  have "map outline (join_pieces sep (map (passkey_row c) ks)) = map outline (join_pieces sep (map (passkey_row c') ks'))" for sep
    using assms by (intro outline_rows_length) (simp_all add: passkey_row_def)
  with assms show ?thesis by (auto simp: passkey_rows_def)
qed

lemma outline_account:
  "same_parts parse (Account_page c u ks m e) (Account_page c' u' ks' m' e') \<Longrightarrow>
     map outline (account_template n c u ks m e) = map outline (account_template n' c' u' ks' m' e')"
  using outline_error [of e e'] outline_notice [of m m'] outline_passkey_rows [of ks ks' c c']
  by (simp add: account_template_def shared_parts)

lemma outline_app_row:
  assumes "length (ca_scopes a) = length (ca_scopes a')" "shown (ca_destination a) = shown (ca_destination a')" "ca_trust a = ca_trust a'"
  shows "map outline (app_row c a) = map outline (app_row c' a')"
proof -
  have "map outline (join_pieces sep (map (\<lambda>scope. [Esc (scope_description scope)]) (ca_scopes a)))
      = map outline (join_pieces sep (map (\<lambda>scope. [Esc (scope_description scope)]) (ca_scopes a')))" for sep
    using assms(1) by (intro outline_rows_length) auto
  with assms(2,3) show ?thesis by (auto simp: app_row_def shown_def split: option.splits)
qed

lemma outline_app_rows:
  assumes "list_all2 (\<lambda>a a'. ca_trust a = ca_trust a' \<and> length (ca_scopes a) = length (ca_scopes a')
       \<and> shown (ca_destination a) = shown (ca_destination a')) as as'"
  shows "map outline (app_rows c as) = map outline (app_rows c' as')"
proof -
  have "map outline (join_pieces sep (map (app_row c) as)) = map outline (join_pieces sep (map (app_row c') as'))" for sep
    using assms by (intro outline_rows) (auto elim!: list_all2_mono intro: outline_app_row)
  moreover have "as = [] \<longleftrightarrow> as' = []" using assms by auto
  ultimately show ?thesis by (auto simp: app_rows_def)
qed

lemma outline_apps:
  "same_parts parse (Apps_page c u as m) (Apps_page c' u' as' m') \<Longrightarrow>
     map outline (apps_template n c u as m) = map outline (apps_template n' c' u' as' m')"
  using outline_notice [of m m'] outline_app_rows [of as as' c c'] by (simp add: apps_template_def shared_parts)

lemma outline_page:
  assumes "same_parts parse p q" "page_template parse n p = Inr ps" "page_template parse n' q = Inr qs"
  shows "map outline ps = map outline qs"
proof (cases p)
  case (Error_page t d)
  with assms show ?thesis by (cases q) (auto simp: error_template_def)
next
  case (Login_page v)
  with assms obtain w where "q = Login_page w" by (cases q) auto
  with assms Login_page outline_login [of parse v w n n'] show ?thesis by auto
next
  case (Consent_page v)
  with assms obtain w where "q = Consent_page w" by (cases q) auto
  with assms Consent_page outline_consent [of parse v w _ _ n n'] show ?thesis by (auto split: option.splits)
next
  case (Account_login_page c e m u r)
  with assms obtain c' e' m' u' r' where "q = Account_login_page c' e' m' u' r'" by (cases q) auto
  with assms Account_login_page outline_account_login [of parse c e m u r c' e' m' u' r' n n'] show ?thesis by auto
next
  case (Account_page c u ks m e)
  with assms obtain c' u' ks' m' e' where "q = Account_page c' u' ks' m' e'" by (cases q) auto
  with assms Account_page outline_account [of parse c u ks m e c' u' ks' m' e' n n'] show ?thesis by auto
next
  case (Apps_page c u as m)
  with assms obtain c' u' as' m' where "q = Apps_page c' u' as' m'" by (cases q) auto
  with assms Apps_page outline_apps [of parse c u as m c' u' as' m' n n'] show ?thesis by auto
qed

section \<open>Properties\<close>

lemma rendered:
  "render_page parse n p = Inr h \<Longrightarrow> \<exists>ps. page_template parse n p = Inr ps \<and> h = write_html ps"
  by (auto simp: render_page_def split: sum.splits)

text \<open>C29. Nothing that is inserted into a page becomes markup. Two pages of one kind with the same parts shown (the same form,
  an error or none, as many rows) have the same tags with the same attributes, the same style sheets and the same scripts,
  character by character, whatever user names, application names, addresses, scopes, notices and form values they show;
  and a page ends where its template ends, outside every tag and script.\<close>

theorem page_markup_fixed:
  assumes "same_parts parse p q" "render_page parse n p = Inr h" "render_page parse n' q = Inr h'"
  shows "markup Content h = markup Content h' \<and> read_text Content h = Content"
proof -
  obtain ps qs where t: "page_template parse n p = Inr ps" "h = write_html ps" "page_template parse n' q = Inr qs" "h' = write_html qs"
    using rendered assms(2,3) by metis
  from markup_of_outline [OF reads_page [OF t(1)] reads_page [OF t(3)] outline_page [OF assms(1) t(1,3)]]
  show ?thesis by (simp add: t(2,4))
qed

definition demo_shown_view :: "string \<Rightarrow> consent_view" where
  "demo_shown_view host = \<lparr>nv_pending = ''pa'', nv_csrf = ''c'', nv_username = ''ann'', nv_host = host, nv_kind = Dcr, nv_trust = Unverified,
     nv_redirect = ''https://app.example/cb'', nv_scopes = [''devices:read'']\<rparr>"

theorem page_markup_fixed_witness:
  "\<exists>h h'. render_page demo_parser ''n'' (Consent_page (demo_shown_view ''<script src=evil></script>'')) = Inr h
     \<and> render_page demo_parser ''m'' (Consent_page (demo_shown_view ''app.example'')) = Inr h' \<and> markup Content h = markup Content h'"
proof -
  let ?p = "Consent_page (demo_shown_view ''<script src=evil></script>'')" and ?q = "Consent_page (demo_shown_view ''app.example'')"
  obtain h h' where r: "render_page demo_parser ''n'' ?p = Inr h" "render_page demo_parser ''m'' ?q = Inr h'"
    by (simp add: render_page_def demo_parser_def)
  have "same_parts demo_parser ?p ?q" by (simp add: demo_shown_view_def)
  from page_markup_fixed [OF this r] r show ?thesis by blast
qed

text \<open>A reader sees an inserted value as it is.\<close>

lemma shown_as_given: "read_entities (write_piece (Esc v)) = v"
  by (simp add: read_entities_escape)

end
