(* ===== verification/Redaction.thy ===== *)
theory Redaction
  imports Tokens
begin

text \<open>
  \<open>scrub\<close> of \<open>server/src/observability/log.ts\<close>: replacing what looks like a credential in a string that is logged. A regular
  expression is the function from the character before and the rest of the string to the longest match there with its
  replacement. All three are deterministic: the classes on both sides of every repetition are disjoint.
\<close>

section \<open>Patterns\<close>

type_synonym pattern = "char option \<Rightarrow> string \<Rightarrow> (string \<times> string) option"

definition is_lower :: "char \<Rightarrow> bool" where
  "is_lower c \<longleftrightarrow> (let n = (of_char c :: nat) in 97 \<le> n \<and> n \<le> 122)"

definition typed_token :: pattern where
  "typed_token prev s =
     (let body = takeWhile b64url_char (drop 9 s) in
      if starts_with ''iotsw_'' s \<and> 9 \<le> length s \<and> is_lower (s ! 6) \<and> is_lower (s ! 7) \<and> s ! 8 = CHR ''_'' \<and> body \<noteq> []
      then Some (take 9 s @ body, ''iotsw_[redacted]'') else None)"

definition after_dot :: "string \<Rightarrow> string option" where
  "after_dot s = (case s of [] \<Rightarrow> None | c # t \<Rightarrow> if c = CHR ''.'' then Some t else None)"

definition compact_jws :: pattern where
  "compact_jws prev s =
     (if starts_with ''eyJ'' s then
        (let header = takeWhile b64url_char (drop 3 s) in
         case after_dot (dropWhile b64url_char (drop 3 s)) of
           None \<Rightarrow> None
         | Some u \<Rightarrow>
             (let claims = takeWhile b64url_char u in
              case after_dot (dropWhile b64url_char u) of
                None \<Rightarrow> None
              | Some v \<Rightarrow>
                  if 5 \<le> length header \<and> 5 \<le> length claims
                  then Some (''eyJ'' @ header @ ''.'' @ claims @ ''.'' @ takeWhile b64url_char v, ''[redacted-jwt]'') else None))
      else None)"

definition word_char :: "char \<Rightarrow> bool" where
  "word_char c \<longleftrightarrow> is_alnum c \<or> c = CHR ''_''"

definition credential_char :: "char \<Rightarrow> bool" where
  "credential_char c \<longleftrightarrow> is_alnum c \<or> c \<in> set ''._~+/=-''"

definition schemes :: "string list" where
  "schemes = [''bearer'', ''dpop'', ''basic'']"

definition authorization_value :: pattern where
  "authorization_value prev s =
     (if (case prev of None \<Rightarrow> True | Some c \<Rightarrow> \<not> word_char c) then
        (case find (\<lambda>k. to_lower (take (length k) s) = k) schemes of
           None \<Rightarrow> None
         | Some k \<Rightarrow>
             (let scheme = take (length k) s; gap = takeWhile is_ws (drop (length k) s);
                  value = takeWhile credential_char (dropWhile is_ws (drop (length k) s))
              in if gap \<noteq> [] \<and> 8 \<le> length value then Some (scheme @ gap @ value, scheme @ '' [redacted]'') else None))
      else None)"

section \<open>Replacing\<close>

text \<open>\<open>value.replace(/../g, ..)\<close>, with the number of replacements, each of which is counted as \<open>log_secrets_redacted\<close>.\<close>

function replace_all :: "pattern \<Rightarrow> char option \<Rightarrow> string \<Rightarrow> string \<times> nat" where
  "replace_all f prev [] = ([], 0)"
| "replace_all f prev (c # s) =
     (case f prev (c # s) of
        Some (d # m, r) \<Rightarrow> (case replace_all f (Some (last (d # m))) (drop (length m) s) of (t, n) \<Rightarrow> (r @ t, Suc n))
      | _ \<Rightarrow> (case replace_all f (Some c) s of (t, n) \<Rightarrow> (c # t, n)))"
  by pat_completeness auto
termination
  by (relation "measure (\<lambda>(f, prev, s). length s)") auto

definition scrub :: "string \<Rightarrow> string \<times> nat" where
  "scrub v =
     (let (a, i) = replace_all typed_token None v; (b, j) = replace_all compact_jws None a;
          (c, k) = replace_all authorization_value None b in (c, i + j + k))"

text \<open>The pattern matches somewhere.\<close>

fun hits :: "pattern \<Rightarrow> char option \<Rightarrow> string \<Rightarrow> bool" where
  "hits f prev [] \<longleftrightarrow> False"
| "hits f prev (c # s) \<longleftrightarrow> f prev (c # s) \<noteq> None \<or> hits f (Some c) s"

section \<open>What the patterns have in common\<close>

definition is_letter :: "char \<Rightarrow> bool" where
  "is_letter c \<longleftrightarrow> (let n = (of_char c :: nat) in (65 \<le> n \<and> n \<le> 90) \<or> (97 \<le> n \<and> n \<le> 122))"

definition is_bracket :: "char \<Rightarrow> bool" where
  "is_bracket c \<longleftrightarrow> c = CHR ''['' \<or> c = CHR '']''"

lemma hits_append:
  "hits g q (x @ y) \<longleftrightarrow>
     (\<exists>u v. x = u @ v \<and> v \<noteq> [] \<and> g (if u = [] then q else Some (last u)) (v @ y) \<noteq> None)
     \<or> hits g (if x = [] then q else Some (last x)) y"
proof (induction x arbitrary: q)
  case (Cons c x)
  have "(\<exists>u v. c # x = u @ v \<and> v \<noteq> [] \<and> g (if u = [] then q else Some (last u)) (v @ y) \<noteq> None)
      \<longleftrightarrow> g q (c # x @ y) \<noteq> None \<or> (\<exists>u v. x = u @ v \<and> v \<noteq> [] \<and> g (if u = [] then Some c else Some (last u)) (v @ y) \<noteq> None)"
    (is "?l \<longleftrightarrow> ?r")
  proof
    assume ?l
    then obtain u v where u: "c # x = u @ v" "v \<noteq> []" "g (if u = [] then q else Some (last u)) (v @ y) \<noteq> None" by blast
    show ?r
    proof (cases u)
      case Nil
      with u show ?thesis by auto
    next
      case (Cons d u')
      with u show ?thesis by (intro disjI2 exI [of _ u'] exI [of _ v]) (auto split: if_splits)
    qed
  next
    assume ?r
    then show ?l
    proof
      assume "g q (c # x @ y) \<noteq> None"
      then show ?l by (intro exI [of _ "[]"] exI [of _ "c # x"]) simp
    next
      assume "\<exists>u v. x = u @ v \<and> v \<noteq> [] \<and> g (if u = [] then Some c else Some (last u)) (v @ y) \<noteq> None"
      then obtain u v where "x = u @ v" "v \<noteq> []" "g (if u = [] then Some c else Some (last u)) (v @ y) \<noteq> None" by blast
      then show ?l by (intro exI [of _ "c # u"] exI [of _ v]) (auto split: if_splits)
    qed
  qed
  with Cons [of "Some c"] show ?case by auto
qed simp

text \<open>A pattern matches in any longer string, matches nothing with a bracket in it or that ends in a space, begins with a
  letter and needs eight characters; and it matches nothing in the words that are put in.\<close>

locale credential_pattern =
  fixes g :: pattern
  assumes longer: "g p x \<noteq> None \<Longrightarrow> g p (x @ y) \<noteq> None"
    and no_bracket: "is_bracket c \<Longrightarrow> g p (x @ c # y) \<noteq> None \<Longrightarrow> g p x \<noteq> None"
    and no_end_space: "g p (x @ '' '') \<noteq> None \<Longrightarrow> g p x \<noteq> None"
    and letter: "g p (c # s) \<noteq> None \<Longrightarrow> is_letter c"
    and eight: "g p s \<noteq> None \<Longrightarrow> 8 \<le> length s"
    and words: "mid \<in> {''redacted'', ''redacted-jwt''} \<Longrightarrow> \<not> hits g (Some (CHR ''['')) mid"

text \<open>A replacement keeps a beginning of the match, and puts a word in brackets; what follows is no letter.\<close>

locale redaction = credential_pattern f for f :: pattern +
  assumes shape: "f p s = Some (m, r) \<Longrightarrow> \<exists>k pre mid. m \<noteq> [] \<and> s = m @ drop (length m) s \<and> r = pre @ CHR ''['' # mid @ '']''
     \<and> mid \<in> {''redacted'', ''redacted-jwt''} \<and> length pre \<le> 7 \<and> (pre = take k m \<or> pre = take k m @ '' '')
     \<and> (drop (length m) s = [] \<or> \<not> is_letter (hd (drop (length m) s)))"
begin

text \<open>The result of a pass up to its first bracket is a beginning of the text, but for one space.\<close>

lemma pass_cases [consumes 1, case_names kept replaced]:
  assumes "s = c # s'"
  obtains (kept) "f p s = None" "replace_all f p s = (c # fst (replace_all f (Some c) s'), snd (replace_all f (Some c) s'))"
  | (replaced) m r rest where "f p s = Some (m, r)" "m \<noteq> []" "s = m @ rest" "length rest < length s"
      "replace_all f p s = (r @ fst (replace_all f (Some (last m)) rest), Suc (snd (replace_all f (Some (last m)) rest)))"
proof (cases "f p s")
  case None
  with assms show ?thesis by (intro kept) (auto split: prod.splits)
next
  case (Some mr)
  obtain m r where mr: "mr = (m, r)" by fastforce
  with Some shape [of p s m r] obtain rest where rest: "m \<noteq> []" "s = m @ rest" by metis
  then obtain d m' where m: "m = d # m'" by (cases m) auto
  with rest assms have "drop (length m') s' = rest" by auto
  with Some mr m assms rest show ?thesis by (intro replaced [of m r rest]) (auto split: prod.splits)
qed

text \<open>The result of a pass up to its first bracket is a beginning of the text, but for one space.\<close>

lemma beginning:
  "fst (replace_all f p s) = s \<or> (\<exists>w y z. s = w @ y \<and> (fst (replace_all f p s) = w @ CHR ''['' # z
     \<or> fst (replace_all f p s) = w @ '' '' @ CHR ''['' # z))"
proof (induction s arbitrary: p rule: length_induct)
  case (1 s)
  show ?case
  proof (cases s)
    case (Cons c s')
    then show ?thesis
    proof (cases rule: pass_cases [of s c s' p])
      case kept
      from 1 Cons have "fst (replace_all f (Some c) s') = s' \<or> (\<exists>w y z. s' = w @ y \<and> (fst (replace_all f (Some c) s') = w @ CHR ''['' # z
         \<or> fst (replace_all f (Some c) s') = w @ '' '' @ CHR ''['' # z))" by simp
      then show ?thesis
      proof (elim disjE exE conjE)
        fix w y z assume "s' = w @ y" "fst (replace_all f (Some c) s') = w @ CHR ''['' # z"
        with kept Cons show ?thesis by (intro disjI2 exI [of _ "c # w"] exI [of _ y] exI [of _ z]) simp
      next
        fix w y z assume "s' = w @ y" "fst (replace_all f (Some c) s') = w @ '' '' @ CHR ''['' # z"
        with kept Cons show ?thesis by (intro disjI2 exI [of _ "c # w"] exI [of _ y] exI [of _ z]) simp
      qed (use kept Cons in simp)
    next
      case (replaced m r rest)
      from shape [OF replaced(1)] obtain k pre mid where r: "r = pre @ CHR ''['' # mid @ '']''" "pre = take k m \<or> pre = take k m @ '' ''"
        by blast
      let ?z = "mid @ CHR '']'' # fst (replace_all f (Some (last m)) rest)"
      have "s = take k m @ drop k m @ rest" by (simp add: replaced(3))
      moreover have "fst (replace_all f p s) = take k m @ CHR ''['' # ?z \<or> fst (replace_all f p s) = take k m @ '' '' @ CHR ''['' # ?z"
        using r replaced(5) by auto
      ultimately show ?thesis by blast
    qed
  qed simp
qed

text \<open>After the pass its own pattern matches nowhere, and no other pattern matches that did not before.\<close>

lemma no_hits:
  assumes "credential_pattern g" "f = g \<or> \<not> hits g p s" "q = p \<or> q = Some (CHR '']'') \<and> (s = [] \<or> \<not> is_letter (hd s))"
  shows "\<not> hits g q (fst (replace_all f p s))"
  using assms(2,3)
proof (induction s arbitrary: p q rule: length_induct)
  case (1 s)
  note of_g_eight = credential_pattern.eight [OF assms(1)]
    and of_g_letter = credential_pattern.letter [OF assms(1)]
    and of_g_longer = credential_pattern.longer [OF assms(1)]
    and of_g_no_bracket = credential_pattern.no_bracket [OF assms(1)]
    and of_g_no_end_space = credential_pattern.no_end_space [OF assms(1)]
    and of_g_words = credential_pattern.words [OF assms(1)]
  show ?case
  proof (cases s)
    case (Cons c s')
    then show ?thesis
    proof (cases rule: pass_cases [of s c s' p])
      case kept
      let ?out = "fst (replace_all f (Some c) s')"
      have none: "g p (c # s') = None" using 1(2) kept(1) Cons by (cases "g p (c # s')") auto
      have "g q (c # ?out) = None"
      proof (rule ccontr)
        assume h: "g q (c # ?out) \<noteq> None"
        then have "is_letter c" by (rule of_g_letter)
        with 1(3) Cons have "q = p" by auto
        from beginning [of "Some c" s'] show False
        proof (elim disjE exE conjE)
          assume "?out = s'"
          with h none \<open>q = p\<close> show False by simp
        next
          fix w y z assume w: "s' = w @ y" "?out = w @ CHR ''['' # z"
          then have "g p (c # w) \<noteq> None" using h of_g_no_bracket [of "CHR ''[''" p "c # w" z] \<open>q = p\<close> by (simp add: is_bracket_def)
          with of_g_longer [of p "c # w" y] w none show False by simp
        next
          fix w y z assume w: "s' = w @ y" "?out = w @ '' '' @ CHR ''['' # z"
          then have "g p ((c # w) @ '' '') \<noteq> None"
            using h of_g_no_bracket [of "CHR ''[''" p "(c # w) @ '' ''" z] \<open>q = p\<close> by (simp add: is_bracket_def)
          then have "g p (c # w) \<noteq> None" by (rule of_g_no_end_space)
          with of_g_longer [of p "c # w" y] w none show False by simp
        qed
      qed
      moreover have "\<not> hits g (Some c) ?out" using 1 Cons by auto
      ultimately show ?thesis using kept(2) by simp
    next
      case (replaced m r rest)
      from shape [OF replaced(1)] obtain pre mid where r: "r = pre @ CHR ''['' # mid @ '']''" "length pre \<le> 7" "mid \<in> {''redacted'', ''redacted-jwt''}"
        "rest = [] \<or> \<not> is_letter (hd rest)" using replaced(3) by auto
      let ?out = "fst (replace_all f (Some (last m)) rest)"
      have "f = g \<or> \<not> hits g (Some (last m)) rest" using 1(2) replaced(2,3) hits_append [of g p m rest] by auto
      with 1(1) replaced(4) r(4) have rest: "\<not> hits g (Some (CHR '']'')) ?out" by blast
      have b: "g x (CHR ''['' # t) = None" "g x (CHR '']'' # t) = None" for x t
        using of_g_letter by (force simp: is_letter_def)+
      have "\<not> hits g x (mid @ CHR '']'' # ?out)" if "x = Some (CHR ''['')" for x
      proof
        assume "hits g x (mid @ CHR '']'' # ?out)"
        then consider u v where "mid = u @ v" "v \<noteq> []" "g (if u = [] then x else Some (last u)) (v @ CHR '']'' # ?out) \<noteq> None"
          using rest b unfolding hits_append [of g x mid] by auto
        then show False
        proof cases
          case 1
          have "is_bracket (CHR '']'')" by (simp add: is_bracket_def)
          then have "g (if u = [] then x else Some (last u)) v \<noteq> None" using 1(3) by (rule of_g_no_bracket)
          then have "\<exists>u v. mid = u @ v \<and> v \<noteq> [] \<and> g (if u = [] then x else Some (last u)) (v @ []) \<noteq> None"
            using 1(1,2) by (intro exI [of _ u] exI [of _ v]) (simp del: not_None_eq)
          then have "hits g x (mid @ [])" unfolding hits_append by blast
          with of_g_words [OF r(3)] that show False by simp
        qed
      qed
      then have "\<not> hits g x (CHR ''['' # mid @ CHR '']'' # ?out)" for x using b by simp
      moreover have "g x (v @ CHR ''['' # t) = None" if "length v \<le> 7" for x v t
        using that of_g_no_bracket [of "CHR ''[''" x v t] of_g_eight [of x v] by (fastforce simp: is_bracket_def)
      ultimately have "\<not> hits g q (pre @ CHR ''['' # mid @ CHR '']'' # ?out)"
        using r(2) unfolding hits_append [of g q pre] by auto
      then show ?thesis using replaced(5) r(1) by simp
    qed
  qed simp
qed

end

section \<open>The three patterns\<close>

lemma before_char: "x @ c # y = u @ t \<Longrightarrow> c \<notin> set u \<Longrightarrow> \<exists>t'. x = u @ t'"
  by (auto simp: append_eq_append_conv2 Cons_eq_append_conv)

lemma before_last: "x @ [c] = u @ t \<Longrightarrow> u \<noteq> [] \<Longrightarrow> last u \<noteq> c \<Longrightarrow> \<exists>t'. x = u @ t'"
  by (cases t rule: rev_cases) auto

lemma b64url_not: "b64url_char c \<Longrightarrow> \<not> is_bracket c \<and> c \<noteq> CHR 0x20" "is_letter c \<Longrightarrow> b64url_char c"
  by (auto simp: b64url_char_def is_bracket_def is_alnum_def is_letter_def Let_def)

lemma takeWhile_hd: "takeWhile P s \<noteq> [] \<longleftrightarrow> (\<exists>d t. s = d # t \<and> P d)"
  by (cases s) auto

lemma typed_token_iff:
  "typed_token p s \<noteq> None \<longleftrightarrow>
     (\<exists>a b d t. s = (''iotsw_'' @ [a, b, CHR ''_'', d]) @ t \<and> is_lower a \<and> is_lower b \<and> b64url_char d)"
  (is "_ \<longleftrightarrow> ?r")
proof
  assume "typed_token p s \<noteq> None"
  then have o: "starts_with ''iotsw_'' s" "9 \<le> length s" "is_lower (s ! 6)" "is_lower (s ! 7)" "s ! 8 = CHR ''_''"
    "takeWhile b64url_char (drop 9 s) \<noteq> []" by (auto simp: typed_token_def Let_def split: if_splits)
  obtain r where r: "s = ''iotsw_'' @ r" using starts_withE [OF o(1)] by blast
  with o(2) obtain a b c r' where "r = a # b # c # r'" by (auto simp: Suc_le_length_iff numeral_eq_Suc)
  with r o(3-6) show ?r by (auto simp: takeWhile_hd)
next
  assume ?r
  then show "typed_token p s \<noteq> None" by (auto simp: typed_token_def starts_with_def)
qed

lemma after_dot_Some: "after_dot s = Some t \<longleftrightarrow> s = CHR ''.'' # t"
  by (auto simp: after_dot_def split: list.splits)

lemma takeWhile_run: "\<forall>c \<in> set h. P c \<Longrightarrow> \<not> P d \<Longrightarrow> takeWhile P (h @ d # t) = h \<and> dropWhile P (h @ d # t) = d # t"
  by (induction h) auto

lemma compact_jws_iff:
  "compact_jws p s \<noteq> None \<longleftrightarrow>
     (\<exists>h b t. s = (''eyJ'' @ h @ ''.'' @ b @ ''.'') @ t \<and> 5 \<le> length h \<and> 5 \<le> length b
        \<and> (\<forall>c \<in> set (h @ b). b64url_char c))"
  (is "_ \<longleftrightarrow> ?r")
proof
  assume "compact_jws p s \<noteq> None"
  then obtain u v where o: "starts_with ''eyJ'' s" "dropWhile b64url_char (drop 3 s) = ''.'' @ u" "dropWhile b64url_char u = ''.'' @ v"
    "5 \<le> length (takeWhile b64url_char (drop 3 s))" "5 \<le> length (takeWhile b64url_char u)"
    by (auto simp: compact_jws_def Let_def after_dot_Some split: if_splits option.splits)
  have "s = ''eyJ'' @ takeWhile b64url_char (drop 3 s) @ ''.'' @ takeWhile b64url_char u @ ''.'' @ v"
    using starts_withE [OF o(1)] o(2,3) takeWhile_dropWhile_id [of b64url_char "drop 3 s"] takeWhile_dropWhile_id [of b64url_char u]
    by (simp add: numeral_3_eq_3)
  with o(4,5) show ?r
    by (intro exI [of _ "takeWhile b64url_char (drop 3 s)"] exI [of _ "takeWhile b64url_char u"] exI [of _ v])
      (auto dest: set_takeWhileD)
next
  assume ?r
  then obtain h b t where r: "s = ''eyJ'' @ h @ CHR ''.'' # b @ CHR ''.'' # t" "5 \<le> length h" "5 \<le> length b"
    "\<forall>c \<in> set h. b64url_char c" "\<forall>c \<in> set b. b64url_char c" by auto
  have "\<not> b64url_char (CHR ''.'')" by (simp add: b64url_char_def is_alnum_def)
  from takeWhile_run [OF r(4) this, of "b @ CHR ''.'' # t"] takeWhile_run [OF r(5) this, of t] r(1-3)
  show "compact_jws p s \<noteq> None" by (simp add: compact_jws_def starts_with_def after_dot_def)
qed

abbreviation at_boundary :: "char option \<Rightarrow> bool" where
  "at_boundary p \<equiv> (case p of None \<Rightarrow> True | Some c \<Rightarrow> \<not> word_char c)"

lemma scheme_found:
  "find (\<lambda>k. to_lower (take (length k) s) = k) schemes = Some k \<longleftrightarrow> k \<in> set schemes \<and> to_lower (take (length k) s) = k"
proof -
  have second: "to_lower s ! 1 = k ! 1" if "to_lower (take (length k) s) = k" "1 < length k" for k
    using that by (metis nth_take take_map to_lower_def)
  have "k = k'" if "k \<in> set schemes" "k' \<in> set schemes" "to_lower (take (length k) s) = k" "to_lower (take (length k') s) = k'" for k k'
    using that second [OF that(3)] second [OF that(4)] by (auto simp: schemes_def)
  then show ?thesis
    by (cases "find (\<lambda>k. to_lower (take (length k) s) = k) schemes") (auto dest: find_SomeD find_NoneD)
qed

lemma authorization_iff:
  "authorization_value p s \<noteq> None \<longleftrightarrow> at_boundary p
     \<and> (\<exists>k gap v t. s = (k @ gap @ v) @ t \<and> to_lower k \<in> set schemes \<and> gap \<noteq> [] \<and> length v = 8
        \<and> (\<forall>c \<in> set gap. is_ws c) \<and> (\<forall>c \<in> set v. credential_char c))"
  (is "_ \<longleftrightarrow> _ \<and> ?r")
proof
  assume "authorization_value p s \<noteq> None"
  then obtain k where o: "at_boundary p" "k \<in> set schemes" "to_lower (take (length k) s) = k" "takeWhile is_ws (drop (length k) s) \<noteq> []"
    "8 \<le> length (takeWhile credential_char (dropWhile is_ws (drop (length k) s)))"
    by (auto simp: authorization_value_def Let_def scheme_found split: if_splits option.splits)
  let ?gap = "takeWhile is_ws (drop (length k) s)" and ?rest = "dropWhile is_ws (drop (length k) s)"
  let ?v = "take 8 (takeWhile credential_char ?rest)"
  have "?rest = ?v @ drop 8 (takeWhile credential_char ?rest) @ dropWhile credential_char ?rest"
    by (simp add: append_assoc [symmetric])
  then have "s = (take (length k) s @ ?gap @ ?v) @ drop 8 (takeWhile credential_char ?rest) @ dropWhile credential_char ?rest"
    using append_take_drop_id [of "length k" s] takeWhile_dropWhile_id [of is_ws "drop (length k) s"] by simp
  moreover have "\<forall>c \<in> set ?v. credential_char c" by (auto dest!: in_set_takeD set_takeWhileD)
  moreover have "\<forall>c \<in> set ?gap. is_ws c" by (auto dest: set_takeWhileD)
  ultimately show "at_boundary p \<and> ?r" using o by fastforce
next
  assume "at_boundary p \<and> ?r"
  then obtain k gap v t where r: "at_boundary p" "s = k @ gap @ v @ t" "to_lower k \<in> set schemes" "gap \<noteq> []" "length v = 8"
    "\<forall>c \<in> set gap. is_ws c" "\<forall>c \<in> set v. credential_char c" by auto
  have "length (to_lower k) = length k" by (simp add: to_lower_def)
  then have f: "find (\<lambda>k. to_lower (take (length k) s) = k) schemes = Some (to_lower k)"
    unfolding scheme_found using r(2,3) by simp
  obtain d v' where v: "v = d # v'" using r(5) by (cases v) auto
  have "\<not> is_ws d" using r(7) v by (auto simp: is_ws_def credential_char_def is_alnum_def Let_def)
  then have "takeWhile is_ws (gap @ v @ t) = gap" "dropWhile is_ws (gap @ v @ t) = v @ t"
    using takeWhile_run [OF r(6), of d "v' @ t"] v by simp_all
  moreover have "8 \<le> length (takeWhile credential_char (v @ t))" using r(5,7) by (simp add: takeWhile_append2)
  ultimately show "authorization_value p s \<noteq> None"
    using f r(1,2,4) by (simp add: authorization_value_def to_lower_def Let_def)
qed

text \<open>A pattern of fixed words, without a bracket in it and without a space at its end.\<close>

lemma bracketless: "is_bracket c \<Longrightarrow> \<forall>d \<in> set u. \<not> is_bracket d \<Longrightarrow> x @ c # y = u @ t \<Longrightarrow> \<exists>t'. x = u @ t'"
  by (rule before_char) auto

interpretation own: redaction typed_token
proof
  have word: "\<forall>e \<in> set (''iotsw_'' @ [a, b, CHR ''_'', d]). \<not> is_bracket e" if "is_lower a" "is_lower b" "b64url_char d" for a b d
    using that b64url_not(1) [of d] by (auto simp: is_lower_def is_bracket_def Let_def)
  show "typed_token p (x @ y) \<noteq> None" if "typed_token p x \<noteq> None" for p x y
    using that unfolding typed_token_iff by (metis append_assoc)
  show "typed_token p x \<noteq> None" if "is_bracket c" "typed_token p (x @ c # y) \<noteq> None" for c p x y
  proof -
    from that(2) obtain a b d t where e: "x @ c # y = (''iotsw_'' @ [a, b, CHR ''_'', d]) @ t" "is_lower a" "is_lower b" "b64url_char d"
      unfolding typed_token_iff by blast
    from bracketless [OF that(1) word [OF e(2-4)] e(1)] e(2-4) show ?thesis unfolding typed_token_iff by blast
  qed
  show "typed_token p x \<noteq> None" if "typed_token p (x @ '' '') \<noteq> None" for p x
  proof -
    from that obtain a b d t where e: "x @ '' '' = (''iotsw_'' @ [a, b, CHR ''_'', d]) @ t" "is_lower a" "is_lower b" "b64url_char d"
      unfolding typed_token_iff by blast
    from before_last [OF e(1)] e(2-4) b64url_not(1) [of d] show ?thesis unfolding typed_token_iff by fastforce
  qed
  show "is_letter c" if "typed_token p (c # s) \<noteq> None" for p c s
    using that unfolding typed_token_iff by (auto simp: is_letter_def)
  show "8 \<le> length s" if "typed_token p s \<noteq> None" for p s
    using that unfolding typed_token_iff by auto
  show "\<not> hits typed_token (Some (CHR ''['')) mid" if "mid \<in> {''redacted'', ''redacted-jwt''}" for mid
    using that by (auto simp: typed_token_def starts_with_def)
  show "\<exists>k pre mid. m \<noteq> [] \<and> s = m @ drop (length m) s \<and> r = pre @ CHR ''['' # mid @ '']'' \<and> mid \<in> {''redacted'', ''redacted-jwt''}
      \<and> length pre \<le> 7 \<and> (pre = take k m \<or> pre = take k m @ '' '') \<and> (drop (length m) s = [] \<or> \<not> is_letter (hd (drop (length m) s)))"
    if "typed_token p s = Some (m, r)" for p s m r
  proof -
    let ?body = "takeWhile b64url_char (drop 9 s)"
    from that have o: "starts_with ''iotsw_'' s" "9 \<le> length s" "m = take 9 s @ ?body" "r = ''iotsw_[redacted]''"
      by (auto simp: typed_token_def Let_def split: if_splits)
    have s: "s = m @ dropWhile b64url_char (drop 9 s)" unfolding o(3) by simp
    then have d: "drop (length m) s = dropWhile b64url_char (drop 9 s)" by (metis append_eq_conv_conj)
    have "take 6 m = ''iotsw_''" using o(1-3) by (simp add: starts_with_def numeral_eq_Suc)
    moreover have "s = m @ drop (length m) s" unfolding d by (rule s)
    moreover have "drop (length m) s = [] \<or> \<not> is_letter (hd (drop (length m) s))"
      unfolding d using hd_dropWhile [of b64url_char "drop 9 s"] b64url_not(2) by blast
    ultimately show ?thesis using o(2-4)
      by (intro exI [of _ 6] exI [of _ "''iotsw_''"] exI [of _ "''redacted''"]) auto
  qed
qed

interpretation jws: redaction compact_jws
proof
  have word: "\<forall>e \<in> set (''eyJ'' @ h @ ''.'' @ b @ ''.''). \<not> is_bracket e" if "\<forall>c \<in> set (h @ b). b64url_char c" for h b
    using that b64url_not(1) by (auto simp: is_bracket_def)
  show "compact_jws p (x @ y) \<noteq> None" if "compact_jws p x \<noteq> None" for p x y
    using that unfolding compact_jws_iff by (metis append_assoc)
  show "compact_jws p x \<noteq> None" if "is_bracket c" "compact_jws p (x @ c # y) \<noteq> None" for c p x y
  proof -
    from that(2) obtain h b t where e: "x @ c # y = (''eyJ'' @ h @ ''.'' @ b @ ''.'') @ t" "5 \<le> length h" "5 \<le> length b" "\<forall>c \<in> set (h @ b). b64url_char c"
      unfolding compact_jws_iff by blast
    from bracketless [OF that(1) word [OF e(4)] e(1)] e(2-4) show ?thesis unfolding compact_jws_iff by blast
  qed
  show "compact_jws p x \<noteq> None" if "compact_jws p (x @ '' '') \<noteq> None" for p x
  proof -
    from that obtain h b t where e: "x @ '' '' = (''eyJ'' @ h @ ''.'' @ b @ ''.'') @ t" "5 \<le> length h" "5 \<le> length b" "\<forall>c \<in> set (h @ b). b64url_char c"
      unfolding compact_jws_iff by blast
    from before_last [OF e(1)] obtain t' where "x = (''eyJ'' @ h @ ''.'' @ b @ ''.'') @ t'" by auto
    with e(2-4) show ?thesis unfolding compact_jws_iff by blast
  qed
  show "is_letter c" if "compact_jws p (c # s) \<noteq> None" for p c s
    using that unfolding compact_jws_iff by (auto simp: is_letter_def)
  show "8 \<le> length s" if "compact_jws p s \<noteq> None" for p s
    using that unfolding compact_jws_iff by auto
  show "\<not> hits compact_jws (Some (CHR ''['')) mid" if "mid \<in> {''redacted'', ''redacted-jwt''}" for mid
    using that by (auto simp: compact_jws_def starts_with_def)
  show "\<exists>k pre mid. m \<noteq> [] \<and> s = m @ drop (length m) s \<and> r = pre @ CHR ''['' # mid @ '']'' \<and> mid \<in> {''redacted'', ''redacted-jwt''}
      \<and> length pre \<le> 7 \<and> (pre = take k m \<or> pre = take k m @ '' '') \<and> (drop (length m) s = [] \<or> \<not> is_letter (hd (drop (length m) s)))"
    if "compact_jws p s = Some (m, r)" for p s m r
  proof -
    from that obtain u v where o: "starts_with ''eyJ'' s" "dropWhile b64url_char (drop 3 s) = ''.'' @ u" "dropWhile b64url_char u = ''.'' @ v"
      "m = ''eyJ'' @ takeWhile b64url_char (drop 3 s) @ ''.'' @ takeWhile b64url_char u @ ''.'' @ takeWhile b64url_char v" "r = ''[redacted-jwt]''"
      by (auto simp: compact_jws_def Let_def after_dot_Some split: if_splits option.splits)
    have s: "s = m @ dropWhile b64url_char v"
      using starts_withE [OF o(1)] o(2,3) takeWhile_dropWhile_id [of b64url_char "drop 3 s"] takeWhile_dropWhile_id [of b64url_char u]
        takeWhile_dropWhile_id [of b64url_char v] by (simp add: numeral_3_eq_3 o(4))
    then have d: "drop (length m) s = dropWhile b64url_char v" by simp
    have "drop (length m) s = [] \<or> \<not> is_letter (hd (drop (length m) s))"
      unfolding d using hd_dropWhile [of b64url_char v] b64url_not(2) by blast
    moreover have "s = m @ drop (length m) s" unfolding d by (rule s)
    moreover have "m \<noteq> []" "r = CHR ''['' # ''redacted-jwt'' @ '']''" by (simp_all add: o(4,5))
    ultimately show ?thesis
      by (intro exI [of _ 0] exI [of _ "[]"] exI [of _ "''redacted-jwt''"]) simp
  qed
qed

lemma credential_not: "credential_char c \<Longrightarrow> \<not> is_bracket c \<and> c \<noteq> CHR 0x20" "is_letter c \<Longrightarrow> credential_char c"
  by (auto simp: credential_char_def is_bracket_def is_alnum_def is_letter_def Let_def)

lemma scheme_chars: "to_lower k \<in> set schemes \<Longrightarrow> c \<in> set k \<Longrightarrow> is_letter c"
proof -
  assume "to_lower k \<in> set schemes" "c \<in> set k"
  then have "lower_char c \<in> set (concat schemes)" by (force simp: to_lower_def)
  then have "is_lower (lower_char c)" by (auto simp: schemes_def is_lower_def)
  then show "is_letter c"
    by (cases "(192 \<le> (of_char c :: nat) \<and> (of_char c :: nat) \<le> 222)")
      (auto simp: lower_char_def is_lower_def is_letter_def Let_def split: if_splits)
qed

interpretation auth: redaction authorization_value
proof
  have word: "\<forall>e \<in> set (k @ gap @ v). \<not> is_bracket e"
    if "to_lower k \<in> set schemes" "\<forall>c \<in> set gap. is_ws c" "\<forall>c \<in> set v. credential_char c" for k gap v
    using that credential_not scheme_chars by (fastforce simp: is_bracket_def is_ws_def is_letter_def Let_def)
  show "authorization_value p (x @ y) \<noteq> None" if "authorization_value p x \<noteq> None" for p x y
    using that unfolding authorization_iff by (metis append_assoc)
  show "authorization_value p x \<noteq> None" if "is_bracket c" "authorization_value p (x @ c # y) \<noteq> None" for c p x y
  proof -
    from that(2) obtain k gap v t where e: "at_boundary p" "x @ c # y = (k @ gap @ v) @ t" "to_lower k \<in> set schemes" "gap \<noteq> []" "length v = 8"
      "\<forall>c \<in> set gap. is_ws c" "\<forall>c \<in> set v. credential_char c" unfolding authorization_iff by blast
    from bracketless [OF that(1) word [OF e(3,6,7)] e(2)] e show ?thesis unfolding authorization_iff by blast
  qed
  show "authorization_value p x \<noteq> None" if "authorization_value p (x @ '' '') \<noteq> None" for p x
  proof -
    from that obtain k gap v t where e: "at_boundary p" "x @ '' '' = (k @ gap @ v) @ t" "to_lower k \<in> set schemes" "gap \<noteq> []" "length v = 8"
      "\<forall>c \<in> set gap. is_ws c" "\<forall>c \<in> set v. credential_char c" unfolding authorization_iff by blast
    have "v \<noteq> []" using e(5) by auto
    then have "last (k @ gap @ v) \<noteq> CHR '' ''" using e(7) credential_not(1) by fastforce
    from before_last [OF e(2) _ this] e(4) obtain t' where "x = (k @ gap @ v) @ t'" by auto
    with e show ?thesis unfolding authorization_iff by blast
  qed
  show "is_letter c" if "authorization_value p (c # s) \<noteq> None" for p c s
  proof -
    from that obtain k gap v t where e: "c # s = (k @ gap @ v) @ t" "to_lower k \<in> set schemes" unfolding authorization_iff by blast
    then have "k \<noteq> []" by (auto simp: schemes_def to_lower_def)
    with e show ?thesis using scheme_chars [OF e(2)] by (cases k) auto
  qed
  show "8 \<le> length s" if "authorization_value p s \<noteq> None" for p s
    using that unfolding authorization_iff by auto
  show "\<not> hits authorization_value (Some (CHR ''['')) mid" if "mid \<in> {''redacted'', ''redacted-jwt''}" for mid
    using that by (auto simp: authorization_value_def schemes_def to_lower_def lower_char_def word_char_def is_alnum_def Let_def)
  show "\<exists>k pre mid. m \<noteq> [] \<and> s = m @ drop (length m) s \<and> r = pre @ CHR ''['' # mid @ '']'' \<and> mid \<in> {''redacted'', ''redacted-jwt''}
      \<and> length pre \<le> 7 \<and> (pre = take k m \<or> pre = take k m @ '' '') \<and> (drop (length m) s = [] \<or> \<not> is_letter (hd (drop (length m) s)))"
    if "authorization_value p s = Some (m, r)" for p s m r
  proof -
    from that obtain k where o: "k \<in> set schemes" "to_lower (take (length k) s) = k"
      "m = take (length k) s @ takeWhile is_ws (drop (length k) s) @ takeWhile credential_char (dropWhile is_ws (drop (length k) s))"
      "r = take (length k) s @ '' [redacted]''"
      by (auto simp: authorization_value_def Let_def scheme_found split: if_splits option.splits)
    let ?rest = "dropWhile credential_char (dropWhile is_ws (drop (length k) s))"
    have s: "s = m @ ?rest" unfolding o(3) by (simp add: append_assoc)
    then have d: "drop (length m) s = ?rest" by (metis append_eq_conv_conj)
    have len: "length (take (length k) s) = length k" using o(2) by (metis length_map to_lower_def)
    have "drop (length m) s = [] \<or> \<not> is_letter (hd (drop (length m) s))"
      unfolding d using hd_dropWhile [of credential_char] credential_not(2) by blast
    moreover have "take (length k) m = take (length k) s" unfolding o(3) using len by simp
    moreover have "length k \<le> 6" "k \<noteq> []" using o(1) by (auto simp: schemes_def)
    moreover have "m \<noteq> []" unfolding o(3) using len \<open>k \<noteq> []\<close> by auto
    ultimately show ?thesis using o(4) s d len
      by (intro exI [of _ "length k"] exI [of _ "take (length k) s @ '' ''"] exI [of _ "''redacted''"]) auto
  qed
qed

section \<open>What is left in a log line\<close>

abbreviation patterns :: "pattern set" where
  "patterns \<equiv> {typed_token, compact_jws, authorization_value}"

lemma scrub_no_hits:
  assumes "f \<in> patterns"
  shows "\<not> hits f None (fst (scrub v))"
proof -
  define a b c where "a = fst (replace_all typed_token None v)" and "b = fst (replace_all compact_jws None a)"
    and "c = fst (replace_all authorization_value None b)"
  have 1: "\<not> hits typed_token None a" unfolding a_def by (rule own.no_hits [OF own.credential_pattern_axioms]) simp_all
  have 2: "\<not> hits typed_token None b" "\<not> hits compact_jws None b"
    unfolding b_def by (rule jws.no_hits [OF own.credential_pattern_axioms] jws.no_hits [OF jws.credential_pattern_axioms]; simp add: 1)+
  have 3: "\<not> hits typed_token None c" "\<not> hits compact_jws None c" "\<not> hits authorization_value None c"
    unfolding c_def by (rule auth.no_hits [OF own.credential_pattern_axioms] auth.no_hits [OF jws.credential_pattern_axioms]
      auth.no_hits [OF auth.credential_pattern_axioms]; simp add: 2)+
  have "fst (scrub v) = c" by (simp add: scrub_def a_def b_def c_def Let_def split: prod.splits)
  with 3 assms show ?thesis by auto
qed

text \<open>A value of an Authorization header is left where its scheme was taken for the end of an earlier value: the search goes on
  behind what it replaced.\<close>

lemma overlapping_value_survives:
  "fst (scrub ''Basic realm/Bearer abcdefghijkl'') = ''Basic [redacted] abcdefghijkl''"
  "hits authorization_value (Some (CHR ''/'')) ''Bearer abcdefghijkl''"
  by code_simp+

end
