(* ===== verification/Observability.thy ===== *)
theory Observability
  imports Redaction Wire "HOL-Library.While_Combinator"
begin

text \<open>
  \<open>server/src/observability\<close>: the logger, the metrics registry and the alerts. The state is the registry's counters, the
  lines written, and what the listener of the alerts keeps. The process clock is an argument, and so is the configured
  limit of replayed proofs, \<^const>\<open>None\<close> where the variable is no number.
\<close>

section \<open>State\<close>

type_synonym labels = "(string \<times> string) list"

record observed =
  ob_counters :: "(string \<times> (labels \<times> int) list) list"
  ob_lines :: "string list"
  ob_started :: bool
  ob_replays :: "int list"
  ob_last_alert :: int

section \<open>Metrics\<close>

text \<open>
  The key of a series is the text of its sorted labels; label and metric names are lower-case words, on which
  \<open>localeCompare\<close> is the order of their characters. A Map keeps the order of insertion.
\<close>

definition series_key :: "labels \<Rightarrow> labels" where
  "series_key ls = sort_key fst ls"

definition metric_value :: "string \<Rightarrow> labels \<Rightarrow> observed \<Rightarrow> int" where
  "metric_value name ls st =
     (case map_of (ob_counters st) name of
        None \<Rightarrow> 0
      | Some series \<Rightarrow> (case map_of series (series_key ls) of None \<Rightarrow> 0 | Some n \<Rightarrow> n))"

definition bump :: "string \<Rightarrow> labels \<Rightarrow> observed \<Rightarrow> observed" where
  "bump name ls st =
     (let series = (case map_of (ob_counters st) name of None \<Rightarrow> [] | Some s \<Rightarrow> s)
      in st\<lparr>ob_counters :=
           AList.update name (AList.update (series_key ls) (metric_value name ls st + 1) series) (ob_counters st)\<rparr>)"

section \<open>The logger\<close>

definition log_allowed :: "string list" where
  "log_allowed = [''requestId'', ''grantId'', ''clientId'', ''accountId'', ''passkeyId'', ''component'', ''kind'', ''tool'',
     ''reason'', ''status'', ''count'', ''limit'', ''windowSeconds'', ''host'', ''scope'', ''method'', ''path'', ''error'',
     ''detail'', ''alert'']"

text \<open>A value passed to the logger: any JavaScript value, or an Error with its stack and its message.\<close>

datatype log_value = Log_value jsval | Log_error "string option" string

definition scrubbed :: "string \<Rightarrow> jsval \<times> nat" where
  "scrubbed s = (case scrub s of (t, n) \<Rightarrow> (JStr t, n))"

fun clean :: "log_value \<Rightarrow> jsval \<times> nat" where
  "clean (Log_value (JStr s)) = scrubbed s"
| "clean (Log_error stack message) = scrubbed (case stack of None \<Rightarrow> message | Some t \<Rightarrow> t)"
| "clean (Log_value (JArr vs)) = (JStr ''[object omitted]'', 0)"
| "clean (Log_value (JObj fs)) = (JStr ''[object omitted]'', 0)"
| "clean (Log_value v) = (v, 0)"

text \<open>The loop over the fields: the entry so far and how many strings were redacted and fields dropped.\<close>

fun log_fields :: "(string \<times> log_value) list \<Rightarrow> (string \<times> jsval) list \<times> nat \<times> nat \<Rightarrow> (string \<times> jsval) list \<times> nat \<times> nat" where
  "log_fields [] acc = acc"
| "log_fields ((k, v) # fs) (entry, redacted, dropped) =
     (if k \<in> set log_allowed
      then (case clean v of (w, n) \<Rightarrow> log_fields fs (AList.update k w entry, redacted + n, dropped))
      else log_fields fs (entry, redacted, Suc dropped))"

definition log_entry :: "int \<Rightarrow> string \<Rightarrow> string \<Rightarrow> (string \<times> log_value) list \<Rightarrow> (string \<times> jsval) list \<times> nat \<times> nat" where
  "log_entry now level event fs =
     (case scrubbed event of (ev, n) \<Rightarrow>
        log_fields fs ([(''t'', JStr (iso_string now)), (''level'', JStr level), (''event'', ev)], n, 0))"

text \<open>\<open>log\<close>. The increments of its own two counters reach no branch of the listener of the alerts.\<close>

definition log_event :: "int \<Rightarrow> string \<Rightarrow> string \<Rightarrow> (string \<times> log_value) list \<Rightarrow> observed \<Rightarrow> observed" where
  "log_event now level event fs st =
     (case log_entry now level event fs of (entry, redacted, dropped) \<Rightarrow>
        (let st1 = (bump ''log_secrets_redacted'' [] ^^ redacted) ((bump ''log_fields_dropped'' [] ^^ dropped) st)
         in st1\<lparr>ob_lines := ob_lines st1 @ [json (JObj entry)]\<rparr>))"

section \<open>Alerts\<close>

definition raise_alert :: "int \<Rightarrow> string \<Rightarrow> (string \<times> log_value) list \<Rightarrow> observed \<Rightarrow> observed" where
  "raise_alert now alert fs st =
     log_event now ''alert'' alert ((''alert'', Log_value (JStr alert)) # fs) (bump ''alerts_raised'' [(''alert'', alert)] st)"

abbreviation minute_window :: int where "minute_window \<equiv> 60000"

text \<open>\<open>while (replays.length > 0 && replays[0] <= now - MINUTE) replays.shift()\<close>.\<close>

definition shift_old :: "int \<Rightarrow> int list \<Rightarrow> int list option" where
  "shift_old now replays = while_option (\<lambda>rs. 0 < length rs \<and> rs ! 0 \<le> now - minute_window) tl replays"

definition note_replay :: "int option \<Rightarrow> int \<Rightarrow> observed \<Rightarrow> observed" where
  "note_replay limit now st =
     (let replays = the (shift_old now (ob_replays st @ [now])); st1 = st\<lparr>ob_replays := replays\<rparr>
      in case limit of
           None \<Rightarrow> st1
         | Some n \<Rightarrow>
             if n < int (length replays) \<and> minute_window < now - ob_last_alert st
             then raise_alert now ''dpop_replay_burst''
                    [(''count'', Log_value (JInt (int (length replays)))), (''windowSeconds'', Log_value (JInt 60)),
                     (''limit'', Log_value (JInt n))]
                    (st1\<lparr>ob_last_alert := now\<rparr>)
             else st1)"

text \<open>The listener \<open>startAlerts\<close> registers.\<close>

definition on_increment :: "int option \<Rightarrow> int \<Rightarrow> string \<Rightarrow> labels \<Rightarrow> observed \<Rightarrow> observed" where
  "on_increment limit now name ls st =
     (let st1 = (if name = ''refresh_theft_detected'' then raise_alert now ''refresh_token_theft'' [] st else st);
          st2 = (if name = ''cimd_fetch'' \<and> map_of ls ''result'' = Some ''denied_range''
                 then raise_alert now ''cimd_denied_range'' [] st1 else st1)
      in if name = ''dpop_rejected'' \<and> map_of ls ''reason'' = Some ''replay'' then note_replay limit now st2 else st2)"

definition start_alerts :: "observed \<Rightarrow> observed" where
  "start_alerts st = (if ob_started st then st else st\<lparr>ob_started := True, ob_replays := [], ob_last_alert := 0\<rparr>)"

definition metric_inc :: "int option \<Rightarrow> int \<Rightarrow> string \<Rightarrow> labels \<Rightarrow> observed \<Rightarrow> observed" where
  "metric_inc limit now name ls st =
     (let st' = bump name ls st in if ob_started st' then on_increment limit now name ls st' else st')"

section \<open>The text format\<close>

definition metric_help :: "(string \<times> string) list" where
  "metric_help =
     [(''refresh_rotated'', ''Refresh tokens rotated.''),
      (''refresh_grace_replay'', ''Duplicate refreshes inside the grace window, answered with the sealed response.''),
      (''refresh_theft_detected'', ''Rotated refresh tokens presented again outside the window; the grant was revoked.''),
      (''dpop_rejected'', ''DPoP proofs refused, by reason.''),
      (''challenge_issued'', ''Authorization challenges sent at the MCP endpoint, by status.''),
      (''exchange_cache'', ''Internal-token cache lookups, by result.''),
      (''budget_exhausted'', ''Writes over a write budget, by tool and mode.''),
      (''cimd_fetch'', ''Client metadata document fetches, by result.''),
      (''log_secrets_redacted'', ''Token-shaped strings removed from log lines.''),
      (''log_fields_dropped'', ''Log fields dropped because they are not on the allowlist.''),
      (''alerts_raised'', ''Alerts raised, by alert.'')]"

definition label_char :: "char \<Rightarrow> string" where
  "label_char c =
     (if c = backslash then [backslash, backslash] else if c = quote_char then [backslash, quote_char]
      else if c = CHR 0x0A then [backslash, CHR ''n''] else [c])"

definition label_text :: "string \<Rightarrow> string" where
  "label_text v = concat (map label_char v)"

definition series_line :: "string \<Rightarrow> labels \<times> int \<Rightarrow> string" where
  "series_line metric s =
     (let ls = join_with '','' (map (\<lambda>(k, v). k @ ''='' @ [quote_char] @ label_text v @ [quote_char]) (fst s))
      in metric @ (if ls = [] then [] else ''{'' @ ls @ ''}'') @ '' '' @ int_str (snd s))"

definition counter_lines :: "string \<times> (labels \<times> int) list \<Rightarrow> string list" where
  "counter_lines c =
     (let metric = ''iotsw_'' @ fst c @ ''_total''
      in (case map_of metric_help (fst c) of None \<Rightarrow> [] | Some h \<Rightarrow> [''# HELP '' @ metric @ '' '' @ h])
         @ [''# TYPE '' @ metric @ '' counter''] @ map (series_line metric) (snd c))"

text \<open>\<open>ratio\<close> is \<open>(hits / (hits + misses)).toFixed(4)\<close>.\<close>

definition render_metrics :: "(int \<Rightarrow> int \<Rightarrow> string) \<Rightarrow> observed \<Rightarrow> string" where
  "render_metrics ratio st =
     (let hits = metric_value ''exchange_cache'' [(''result'', ''hit'')] st;
          misses = metric_value ''exchange_cache'' [(''result'', ''miss'')] st
      in join_with [CHR 0x0A] (concat (map counter_lines (sort_key fst (ob_counters st)))
           @ (if 0 < hits + misses
              then [''# HELP iotsw_exchange_cache_hit_ratio Share of internal-token lookups served from cache.'',
                    ''# TYPE iotsw_exchange_cache_hit_ratio gauge'', ''iotsw_exchange_cache_hit_ratio '' @ ratio hits misses]
              else []))
         @ [CHR 0x0A])"

end
