(* ===== verification/Log_Theorems.thy ===== *)
theory Log_Theorems
  imports Observability
begin

text \<open>
  That a log line shows no credential, that the alert for replayed proofs comes when it should, and that the text format
  of the metrics keeps its lines apart.
\<close>

section \<open>The logger\<close>

lemma bump_frame [simp]:
  "ob_lines (bump n ls st) = ob_lines st" "ob_started (bump n ls st) = ob_started st"
  "ob_replays (bump n ls st) = ob_replays st" "ob_last_alert (bump n ls st) = ob_last_alert st"
  by (simp_all add: bump_def Let_def)

lemma bumps_frame [simp]:
  "ob_lines ((bump n ls ^^ k) st) = ob_lines st" "ob_started ((bump n ls ^^ k) st) = ob_started st"
  "ob_replays ((bump n ls ^^ k) st) = ob_replays st" "ob_last_alert ((bump n ls ^^ k) st) = ob_last_alert st"
  by (induction k) simp_all

lemma log_event_frame [simp]:
  "ob_started (log_event now level event fs st) = ob_started st" "ob_replays (log_event now level event fs st) = ob_replays st"
  "ob_last_alert (log_event now level event fs st) = ob_last_alert st"
  by (simp_all add: log_event_def Let_def split: prod.splits)

lemma log_event_line:
  "ob_lines (log_event now level event fs st) = ob_lines st @ [json (JObj (fst (log_entry now level event fs)))]"
  by (simp add: log_event_def Let_def split: prod.splits)

text \<open>The increments the logger makes, and that of an alert itself, leave the listener idle.\<close>

lemma listener_idle:
  "name \<in> {''log_secrets_redacted'', ''log_fields_dropped'', ''alerts_raised''} \<Longrightarrow> metric_inc limit now name ls st = bump name ls st"
  by (auto simp: metric_inc_def on_increment_def Let_def)

text \<open>What may stand in a log line: a string without a credential, or a value without parts.\<close>

fun harmless :: "jsval \<Rightarrow> bool" where
  "harmless (JStr s) \<longleftrightarrow> \<not> hits typed_token None s \<and> \<not> hits compact_jws None s \<and> \<not> hits authorization_value None s"
| "harmless (JArr vs) \<longleftrightarrow> False"
| "harmless (JObj fs) \<longleftrightarrow> False"
| "harmless v \<longleftrightarrow> True"

lemma scrubbed_harmless: "harmless (fst (scrubbed s))"
  by (simp add: scrubbed_def scrub_no_hits split: prod.splits) (metis fst_conv insertI1 insertI2 scrub_no_hits)

lemma omitted_harmless: "harmless (JStr ''[object omitted]'')"
  by code_simp

lemma clean_harmless: "harmless (fst (clean v))"
  by (cases v rule: clean.cases) (auto intro: scrubbed_harmless omitted_harmless simp del: harmless.simps(1))

lemma log_fields_in:
  "fst (log_fields fs (entry, n, d)) = e \<Longrightarrow> (k, v) \<in> set e \<Longrightarrow> (k, v) \<in> set entry \<or> k \<in> set log_allowed \<and> harmless v"
proof (induction fs arbitrary: entry n d)
  case (Cons f fs)
  obtain l u where f: "f = (l, u)" by fastforce
  show ?case
  proof (cases "l \<in> set log_allowed")
    case True
    obtain w m where w: "clean u = (w, m)" by fastforce
    with Cons f True have "(k, v) \<in> set (AList.update l w entry) \<or> k \<in> set log_allowed \<and> harmless v" by simp
    moreover have "harmless w" using clean_harmless [of u] w by simp
    moreover have "set (AList.update l w entry) \<subseteq> insert (l, w) (set entry)" by (induction entry) auto
    ultimately show ?thesis using True by auto
  qed (use Cons f in auto)
qed simp

lemma log_fields_allowed:
  "fst (log_fields (filter (\<lambda>(k, v). k \<in> set log_allowed) fs) (entry, n, d)) = fst (log_fields fs (entry, n, d'))"
  by (induction fs arbitrary: entry n d d') (auto split: prod.splits)

lemma shift_old_dropWhile: "shift_old now rs = Some (dropWhile (\<lambda>r. r \<le> now - minute_window) rs)"
proof (induction rs)
  case (Cons r rs)
  then show ?case unfolding shift_old_def by (subst while_option_unfold) simp
qed (simp add: shift_old_def while_option_unfold)

lemma raise_alert_frame [simp]:
  "ob_started (raise_alert now a fs st) = ob_started st" "ob_replays (raise_alert now a fs st) = ob_replays st"
  "ob_last_alert (raise_alert now a fs st) = ob_last_alert st"
  by (simp_all add: raise_alert_def)

lemma raise_alert_lines: "\<exists>l. ob_lines (raise_alert now a fs st) = ob_lines st @ [l]"
  by (simp add: raise_alert_def log_event_line)

text \<open>C30. A log line shows no credential. Whatever is logged, one line is added, the text of an object whose fields are the
  time, the level, the event and fields of the allowlist; the event and every field is a number, a truth value, nothing,
  or a string in which none of the three patterns of credentials matches anywhere; and what is passed under other names
  does not show.\<close>

theorem log_hides_secrets:
  "\<exists>entry. ob_lines (log_event now level event fs st) = ob_lines st @ [json (JObj entry)]
    \<and> ob_lines (log_event now level event (filter (\<lambda>(k, v). k \<in> set log_allowed) fs) st) = ob_lines st @ [json (JObj entry)]
    \<and> (\<forall>k v. (k, v) \<in> set entry \<longrightarrow> k \<in> {''t'', ''level''} \<or> k \<in> set (''event'' # log_allowed) \<and> harmless v)"
proof -
  obtain ev n where ev: "scrubbed event = (ev, n)" by fastforce
  let ?start = "[(''t'', JStr (iso_string now)), (''level'', JStr level), (''event'', ev)]"
  let ?entry = "fst (log_entry now level event fs)"
  have "?entry = fst (log_fields fs (?start, n, 0))" by (simp add: log_entry_def ev)
  then have "(k, v) \<in> set ?entry \<Longrightarrow> k \<in> {''t'', ''level''} \<or> k \<in> set (''event'' # log_allowed) \<and> harmless v" for k v
    using log_fields_in [of fs ?start n 0 ?entry k v] scrubbed_harmless [of event] ev by auto
  moreover have "fst (log_entry now level event (filter (\<lambda>(k, v). k \<in> set log_allowed) fs)) = ?entry"
    using log_fields_allowed [of fs] by (simp add: log_entry_def ev)
  ultimately show ?thesis unfolding log_event_line by (intro exI [of _ ?entry]) auto
qed

definition demo_observed :: observed where
  "demo_observed = \<lparr>ob_counters = [], ob_lines = [], ob_started = True, ob_replays = [], ob_last_alert = 0\<rparr>"

theorem log_hides_secrets_witness:
  "\<exists>entry. ob_lines (log_event 0 ''info'' ''x'' [(''detail'', Log_value (JStr ''Bearer abcdefgh12'')), (''token'', Log_value (JStr ''s''))] demo_observed)
     = [json (JObj entry)] \<and> map_of entry ''token'' = None"
proof -
  let ?fs = "[(''detail'', Log_value (JStr ''Bearer abcdefgh12'')), (''token'', Log_value (JStr ''s''))]"
  obtain entry where e: "ob_lines (log_event 0 ''info'' ''x'' ?fs demo_observed) = [json (JObj entry)]"
    "\<forall>k v. (k, v) \<in> set entry \<longrightarrow> k \<in> {''t'', ''level''} \<or> k \<in> set (''event'' # log_allowed) \<and> harmless v"
    using log_hides_secrets [of 0 "''info''" "''x''" ?fs demo_observed] by (auto simp: demo_observed_def)
  have "map_of entry ''token'' = None"
  proof (cases "map_of entry ''token''")
    case (Some v)
    with e(2) have "''token'' \<in> {''t'', ''level''} \<or> ''token'' \<in> set (''event'' # log_allowed)" by (blast dest: map_of_SomeD)
    then show ?thesis by (simp add: log_allowed_def)
  qed
  with e(1) show ?thesis by blast
qed

section \<open>Alerts\<close>

lemma recent_sorted: "sorted rs \<Longrightarrow> dropWhile (\<lambda>r. r \<le> (t::int)) rs = filter (\<lambda>r. t < r) rs"
proof (induction rs)
  case (Cons r rs)
  then show ?case
  proof (cases "r \<le> t")
    case False
    with Cons.prems have "filter (\<lambda>r. t < r) (r # rs) = r # rs" by (intro filter_True) auto
    with False show ?thesis by simp
  qed simp
qed simp

text \<open>The loop that forgets old replays ends, at any time and whatever was kept; when the times were noted in order, it
  leaves exactly those of the last minute.\<close>

theorem replay_window_loop:
  "\<exists>rs'. shift_old now rs = Some rs' \<and> (sorted rs \<longrightarrow> rs' = filter (\<lambda>r. now - minute_window < r) rs)"
  by (simp add: shift_old_dropWhile recent_sorted)

theorem replay_window_loop_witness: "shift_old 100000 [10, 40000, 90000] = Some [90000]"
  using replay_window_loop [of 100000 "[10, 40000, 90000]"] by auto

definition replays_at :: "int option \<Rightarrow> int list \<Rightarrow> observed \<Rightarrow> observed" where
  "replays_at limit ts st = fold (\<lambda>t. metric_inc limit t ''dpop_rejected'' [(''reason'', ''replay'')]) ts st"

text \<open>The \<open>i\<close>-th replay raises an alert.\<close>

definition raises :: "int option \<Rightarrow> int list \<Rightarrow> observed \<Rightarrow> nat \<Rightarrow> bool" where
  "raises limit ts st i \<longleftrightarrow> ob_lines (replays_at limit (take (Suc i) ts) st) \<noteq> ob_lines (replays_at limit (take i ts) st)"

text \<open>How many replays there were in the minute up to the \<open>i\<close>-th, with it.\<close>

definition in_last_minute :: "int list \<Rightarrow> nat \<Rightarrow> nat" where
  "in_last_minute ts i = length (filter (\<lambda>t. ts ! i - minute_window < t) (take (Suc i) ts))"

lemma replay_step:
  assumes "ob_started st"
  shows "\<exists>l. metric_inc (Some n) now ''dpop_rejected'' [(''reason'', ''replay'')] st =
     (let st' = (bump ''dpop_rejected'' [(''reason'', ''replay'')] st)\<lparr>ob_replays := the (shift_old now (ob_replays st @ [now]))\<rparr>
      in if n < int (length (ob_replays st')) \<and> minute_window < now - ob_last_alert st
         then raise_alert now ''dpop_replay_burst'' l (st'\<lparr>ob_last_alert := now\<rparr>) else st')"
  using assms by (auto simp: metric_inc_def on_increment_def note_replay_def Let_def)

lemma replays_at_Suc:
  "i < length ts \<Longrightarrow> replays_at limit (take (Suc i) ts) st =
     metric_inc limit (ts ! i) ''dpop_rejected'' [(''reason'', ''replay'')] (replays_at limit (take i ts) st)"
  by (simp add: replays_at_def take_Suc_conv_app_nth)

lemma replay_effect:
  assumes "ob_started st" "st' = metric_inc (Some n) now ''dpop_rejected'' [(''reason'', ''replay'')] st"
    "rs = dropWhile (\<lambda>r. r \<le> now - minute_window) (ob_replays st @ [now])"
  shows "ob_started st' \<and> ob_replays st' = rs
    \<and> (ob_lines st' \<noteq> ob_lines st \<longleftrightarrow> n < int (length rs) \<and> minute_window < now - ob_last_alert st)
    \<and> ob_last_alert st' = (if n < int (length rs) \<and> minute_window < now - ob_last_alert st then now else ob_last_alert st)"
proof -
  obtain l where e: "st' = (let st' = (bump ''dpop_rejected'' [(''reason'', ''replay'')] st)\<lparr>ob_replays := rs\<rparr>
      in if n < int (length (ob_replays st')) \<and> minute_window < now - ob_last_alert st
         then raise_alert now ''dpop_replay_burst'' l (st'\<lparr>ob_last_alert := now\<rparr>) else st')"
    using replay_step [OF assms(1), of n now] unfolding assms(2,3) shift_old_dropWhile by auto
  have r: "ob_lines (raise_alert now a l x) \<noteq> ob_lines x" for a l x
    using raise_alert_lines [of now a l x] by auto
  show ?thesis
    using assms(1) r [of _ l "(bump ''dpop_rejected'' [(''reason'', ''replay'')] st)\<lparr>ob_replays := rs, ob_last_alert := now\<rparr>"]
    unfolding e by (auto simp: Let_def)
qed

lemma replays_kept:
  assumes "sorted ts" "ob_started st" "ob_replays st = []" "i < length ts"
  shows "ob_started (replays_at (Some n) (take (Suc i) ts) st)
    \<and> ob_replays (replays_at (Some n) (take (Suc i) ts) st) = filter (\<lambda>t. ts ! i - minute_window < t) (take (Suc i) ts)"
  using assms(4)
proof (induction i)
  case 0
  let ?st = "replays_at (Some n) (take 0 ts) st"
  have st: "ob_started ?st" "ob_replays ?st = []" using assms(2,3) by (simp_all add: replays_at_def)
  have "take (Suc 0) ts = [ts ! 0]" using 0 by (cases ts) simp_all
  then show ?case
    unfolding replays_at_Suc [OF 0] using replay_effect [OF st(1) refl refl, of n "ts ! 0"] st(2) by simp
next
  case (Suc i)
  let ?st = "replays_at (Some n) (take (Suc i) ts) st" and ?now = "ts ! Suc i"
  have st: "ob_started ?st" "ob_replays ?st = filter (\<lambda>t. ts ! i - minute_window < t) (take (Suc i) ts)" using Suc by simp_all
  have le: "ts ! i \<le> ?now" using assms(1) Suc.prems by (simp add: sorted_nth_mono)
  have tk: "take (Suc (Suc i)) ts = take (Suc i) ts @ [?now]" using Suc.prems by (simp add: take_Suc_conv_app_nth)
  have sorted: "sorted (ob_replays ?st @ [?now])"
  proof -
    have "sorted (take (Suc i) ts @ [?now])" unfolding tk [symmetric] using assms(1) by (rule sorted_wrt_take)
    then show ?thesis unfolding st(2) by (auto simp: sorted_append intro: sorted_wrt_filter)
  qed
  have "dropWhile (\<lambda>r. r \<le> ?now - minute_window) (ob_replays ?st @ [?now])
      = filter (\<lambda>r. ?now - minute_window < r) (ob_replays ?st @ [?now])" by (rule recent_sorted [OF sorted])
  also have "\<dots> = filter (\<lambda>r. ?now - minute_window < r) (take (Suc (Suc i)) ts)"
    unfolding tk st(2) using le by (auto intro: filter_cong)
  finally show ?case
    using replay_effect [OF st(1) refl refl, of n ?now] unfolding replays_at_Suc [OF Suc.prems] by simp
qed

text \<open>Bursts of replayed proofs are reported, and not more than once a minute. With the alerts started and a limit
  configured, on a clock that does not go back (and is past its first minute), a replay raises an alert exactly when more
  replays than the limit came within the minute up to it and no replay of the minute before it raised one.\<close>

theorem replay_burst_alerts:
  assumes "sorted ts" "\<forall>t \<in> set ts. minute_window < t" "ob_started st" "ob_replays st = []" "ob_last_alert st = 0" "i < length ts"
  shows "raises (Some n) ts st i \<longleftrightarrow>
     n < int (in_last_minute ts i) \<and> (\<forall>j < i. raises (Some n) ts st j \<longrightarrow> minute_window < ts ! i - ts ! j)"
proof -
  let ?at = "\<lambda>k. replays_at (Some n) (take k ts) st"
  have started: "ob_started (?at k)" if "k \<le> length ts" for k
    using that replays_kept [OF assms(1,3,4)] assms(3) by (cases k) (auto simp: replays_at_def)
  have step: "raises (Some n) ts st k \<longleftrightarrow> n < int (in_last_minute ts k) \<and> minute_window < ts ! k - ob_last_alert (?at k)"
    "ob_last_alert (?at (Suc k)) = (if raises (Some n) ts st k then ts ! k else ob_last_alert (?at k))" if "k < length ts" for k
  proof -
    let ?rs = "dropWhile (\<lambda>r. r \<le> ts ! k - minute_window) (ob_replays (?at k) @ [ts ! k])"
    have e: "?at (Suc k) = metric_inc (Some n) (ts ! k) ''dpop_rejected'' [(''reason'', ''replay'')] (?at k)"
      by (rule replays_at_Suc [OF that])
    have s: "ob_started (?at k)" using started that by simp
    note eff = replay_effect [OF s e refl]
    have "length ?rs = in_last_minute ts k"
      using eff replays_kept [OF assms(1,3,4) that, of n] by (simp add: in_last_minute_def)
    with eff show "raises (Some n) ts st k \<longleftrightarrow> n < int (in_last_minute ts k) \<and> minute_window < ts ! k - ob_last_alert (?at k)"
      "ob_last_alert (?at (Suc k)) = (if raises (Some n) ts st k then ts ! k else ob_last_alert (?at k))"
      unfolding raises_def by simp_all
  qed
  have last: "(\<forall>j < k. raises (Some n) ts st j \<longrightarrow> ts ! j \<le> ob_last_alert (?at k))
      \<and> (ob_last_alert (?at k) = 0 \<or> (\<exists>j < k. raises (Some n) ts st j \<and> ob_last_alert (?at k) = ts ! j))" if "k \<le> length ts" for k
    using that
  proof (induction k)
    case 0
    then show ?case using assms(5) by (simp add: replays_at_def)
  next
    case (Suc k)
    then have k: "k < length ts" by simp
    have "ts ! j \<le> ts ! k" if "j < k" for j using assms(1) k that by (simp add: sorted_nth_mono)
    with Suc.IH k step(2) [OF k] show ?case by (auto simp: less_Suc_eq)
  qed
  have "minute_window < ts ! i - ob_last_alert (?at i) \<longleftrightarrow> (\<forall>j < i. raises (Some n) ts st j \<longrightarrow> minute_window < ts ! i - ts ! j)"
    using last [of i] assms(2,6) by fastforce
  with step(1) [OF assms(6)] show ?thesis by blast
qed

theorem replay_burst_alerts_witness:
  "raises (Some 1) [100000, 100001, 100002] demo_observed 1 \<and> \<not> raises (Some 1) [100000, 100001, 100002] demo_observed 2"
proof -
  let ?ts = "[100000, 100001, 100002]"
  note a = replay_burst_alerts [where ts = ?ts and st = demo_observed and n = 1]
  have "\<not> raises (Some 1) ?ts demo_observed 0"
    by (subst a) (simp_all add: demo_observed_def in_last_minute_def)
  then have 1: "raises (Some 1) ?ts demo_observed 1"
    by (subst a) (simp_all add: demo_observed_def in_last_minute_def)
  moreover have "\<not> raises (Some 1) ?ts demo_observed 2"
    using 1 by (subst a) (auto simp: demo_observed_def in_last_minute_def intro!: exI [of _ 1])
  ultimately show ?thesis by blast
qed

text \<open>A limit that is no number is never exceeded: a mistyped DPOP_REPLAY_ALERT_PER_MINUTE turns the alert off.\<close>

lemma no_limit_no_alert: "ob_lines (replays_at None ts st) = ob_lines st"
proof (induction ts arbitrary: st)
  case (Cons t ts)
  have "ob_lines (metric_inc None t ''dpop_rejected'' [(''reason'', ''replay'')] st) = ob_lines st"
    by (simp add: metric_inc_def on_increment_def note_replay_def Let_def)
  with Cons [of "metric_inc None t ''dpop_rejected'' [(''reason'', ''replay'')] st"] show ?case by (simp add: replays_at_def)
qed (simp add: replays_at_def)

section \<open>The text format\<close>

text \<open>A label's text has no line break and no quotation mark of its own, and stands for one value.\<close>

lemma label_text_chars: "c \<in> set (label_text v) \<Longrightarrow> c \<noteq> CHR 0x0A"
  by (auto simp: label_text_def label_char_def split: if_splits)

lemma label_code: "prefix_code label_char"
  by (auto simp: prefix_code_def label_char_def)

lemma label_text_inj: "label_text v = label_text w \<Longrightarrow> v = w"
  unfolding label_text_def by (rule prefix_code_inj [OF label_code])

end
