(* ===== verification/Redis.thy ===== *)
theory Redis
  imports Budgets Sealer
begin

text \<open>
  The stores several processes share, \<open>server/src/stores/redis.ts\<close>. The Redis server is a record of the commands the
  code sends, and \<open>redis_server\<close> states what their documentation promises of them; every command carries the server's
  clock in milliseconds. A command reaches the server and is answered, does not reach it, or is carried out and its answer
  lost (a timeout, a dropped connection); for the caller the last two are one failure. Each class keeps the contract of its
  in-memory counterpart while it is answered, and refuses otherwise. Log lines and the reconnecting of the client are left
  out.
\<close>

section \<open>The server\<close>

text \<open>A string value that INCR made, or one that SET wrote; what either command does to the other's is not relied on.\<close>

datatype redis_value = Number int | Text string

type_synonym redis_entry = "redis_value \<times> int option"

record 'r redis =
  rd_incr :: "int \<Rightarrow> string \<Rightarrow> 'r \<Rightarrow> (error + int) \<times> 'r"
  rd_pttl :: "int \<Rightarrow> string \<Rightarrow> 'r \<Rightarrow> int"
  rd_pexpire :: "int \<Rightarrow> string \<Rightarrow> int \<Rightarrow> 'r \<Rightarrow> 'r"
  rd_set :: "int \<Rightarrow> string \<Rightarrow> string \<Rightarrow> bool \<Rightarrow> int \<Rightarrow> 'r \<Rightarrow> (error + bool) \<times> 'r"
  rd_get :: "int \<Rightarrow> string \<Rightarrow> 'r \<Rightarrow> error + string option"

text \<open>A key is gone when its time has come.\<close>

fun still :: "redis_entry option \<Rightarrow> int \<Rightarrow> redis_entry option" where
  "still None t = None"
| "still (Some (v, None)) t = Some (v, None)"
| "still (Some (v, Some e)) t = (if t < e then Some (v, Some e) else None)"

text \<open>
  \<open>look s k t\<close>: the value of a key and the time it expires, at \<open>t\<close>, if no further command is carried out. The flag of
  \<open>rd_set\<close> is the condition NX and its number the seconds of EX, which SET refuses when not positive.
\<close>

locale redis_server =
  fixes cmds :: "'r redis" and look :: "'r \<Rightarrow> string \<Rightarrow> int \<Rightarrow> redis_entry option"
  assumes look_later: "t \<le> t' \<Longrightarrow> look s k t' = still (look s k t) t'"
    and incr_new: "look s k now = None \<Longrightarrow>
          fst (rd_incr cmds now k s) = Inr 1 \<and> look (snd (rd_incr cmds now k s)) k t = Some (Number 1, None)"
    and incr_old: "look s k now = Some (Number n, d) \<Longrightarrow>
          fst (rd_incr cmds now k s) = Inr (n + 1) \<and> look (snd (rd_incr cmds now k s)) k t = still (Some (Number (n + 1), d)) t"
    and incr_other: "k' \<noteq> k \<Longrightarrow> look (snd (rd_incr cmds now k s)) k' t = look s k' t"
    and pttl: "rd_pttl cmds now k s = (case look s k now of None \<Rightarrow> - 2 | Some (v, None) \<Rightarrow> - 1 | Some (v, Some e) \<Rightarrow> e - now)"
    and pexpire: "look s k now = Some (v, d) \<Longrightarrow> look (rd_pexpire cmds now k ms s) k t = still (Some (v, Some (now + ms))) t"
    and pexpire_other: "k' \<noteq> k \<Longrightarrow> look (rd_pexpire cmds now k ms s) k' t = look s k' t"
    and set_done: "0 < ttl \<Longrightarrow> \<not> nx \<or> look s k now = None \<Longrightarrow> fst (rd_set cmds now k x nx ttl s) = Inr True
          \<and> look (snd (rd_set cmds now k x nx ttl s)) k t = still (Some (Text x, Some (now + ttl * 1000))) t"
    and set_held: "0 < ttl \<Longrightarrow> look s k now \<noteq> None \<Longrightarrow> fst (rd_set cmds now k x True ttl s) = Inr False"
    and set_refused: "ttl \<le> 0 \<Longrightarrow> \<exists>e. fst (rd_set cmds now k x nx ttl s) = Inl e"
    and set_other: "k' \<noteq> k \<or> ttl \<le> 0 \<or> nx \<and> look s k now \<noteq> None \<Longrightarrow>
          look (snd (rd_set cmds now k x nx ttl s)) k' t = look s k' t"
    and get_none: "look s k now = None \<Longrightarrow> rd_get cmds now k s = Inr None"
    and get_text: "look s k now = Some (Text x, d) \<Longrightarrow> rd_get cmds now k s = Inr (Some x)"

text \<open>A server that keeps these promises: a keyspace whose entries carry their time.\<close>

type_synonym keyspace = "string \<Rightarrow> redis_entry option"

abbreviation keyspace_look :: "keyspace \<Rightarrow> string \<Rightarrow> int \<Rightarrow> redis_entry option" where
  "keyspace_look s k t \<equiv> still (s k) t"

definition keyspace_commands :: "keyspace redis" where
  "keyspace_commands =
     \<lparr>rd_incr = (\<lambda>now k s. case still (s k) now of
          None \<Rightarrow> (Inr 1, s(k \<mapsto> (Number 1, None)))
        | Some (Number n, d) \<Rightarrow> (Inr (n + 1), s(k \<mapsto> (Number (n + 1), d)))
        | Some (Text x, d) \<Rightarrow> (Inl (OtherError ''ERR value is not an integer or out of range''), s)),
      rd_pttl = (\<lambda>now k s. case still (s k) now of None \<Rightarrow> - 2 | Some (v, None) \<Rightarrow> - 1 | Some (v, Some e) \<Rightarrow> e - now),
      rd_pexpire = (\<lambda>now k ms s. case still (s k) now of None \<Rightarrow> s | Some (v, d) \<Rightarrow> s(k \<mapsto> (v, Some (now + ms)))),
      rd_set = (\<lambda>now k x nx ttl s.
          if ttl \<le> 0 then (Inl (OtherError ''ERR invalid expire time in set''), s)
          else if nx \<and> still (s k) now \<noteq> None then (Inr False, s)
          else (Inr True, s(k \<mapsto> (Text x, Some (now + ttl * 1000))))),
      rd_get = (\<lambda>now k s. case still (s k) now of
          None \<Rightarrow> Inr None | Some (Text x, d) \<Rightarrow> Inr (Some x) | Some (Number n, d) \<Rightarrow> Inr (Some (int_str n)))\<rparr>"

lemma still_still: "t \<le> t' \<Longrightarrow> still (still x t) t' = still x t'"
  by (cases "(x, t)" rule: still.cases) auto

lemma still_same: "still x t = Some (v, d) \<Longrightarrow> x = Some (v, d)"
  by (cases "(x, t)" rule: still.cases) (auto split: if_splits)

lemma still_open: "still x t = Some (v, Some e) \<Longrightarrow> t < e"
  by (cases "(x, t)" rule: still.cases) (auto split: if_splits)

interpretation keyspace_server: redis_server keyspace_commands keyspace_look
  by unfold_locales
    (auto simp: keyspace_commands_def still_still split: option.splits redis_value.splits dest: still_same)

section \<open>Calls that may fail\<close>

datatype delivery = Answered | Not_sent | Answer_lost

definition guarded :: "delivery \<Rightarrow> ('r \<Rightarrow> (error + 'a) \<times> 'r) \<Rightarrow> 'r \<Rightarrow> (error + 'a) \<times> 'r" where
  "guarded d call s =
     (case d of
        Answered \<Rightarrow> (case call s of (Inr a, s') \<Rightarrow> (Inr a, s') | (Inl e, s') \<Rightarrow> (Inl (app_err SERVICE_UNAVAILABLE), s'))
      | Not_sent \<Rightarrow> (Inl (app_err SERVICE_UNAVAILABLE), s)
      | Answer_lost \<Rightarrow> (Inl (app_err SERVICE_UNAVAILABLE), snd (call s)))"

lemma guarded_fails_closed:
  "fst (guarded d call s) = Inl e \<Longrightarrow> e = app_err SERVICE_UNAVAILABLE"
  "d \<noteq> Answered \<Longrightarrow> fst (guarded d call s) = Inl (app_err SERVICE_UNAVAILABLE)"
  "fst (guarded d call s) = Inr a \<Longrightarrow> d = Answered \<and> fst (call s) = Inr a"
  by (auto simp: guarded_def split: delivery.splits sum.splits prod.splits)

lemma guarded_state: "snd (guarded d call s) = (if d = Not_sent then s else snd (call s))"
  by (auto simp: guarded_def split: delivery.splits sum.splits prod.splits)

section \<open>Buckets\<close>

text \<open>The script HIT, with its key and its argument; the server runs it as a whole, on one reading of its clock.\<close>

definition hit_script :: "'r redis \<Rightarrow> int \<Rightarrow> string \<Rightarrow> int \<Rightarrow> 'r \<Rightarrow> (error + int \<times> int) \<times> 'r" where
  "hit_script cmds now key arg s =
     (case rd_incr cmds now key s of
        (Inl e, s1) \<Rightarrow> (Inl e, s1)
      | (Inr count, s1) \<Rightarrow>
          (let ttl = rd_pttl cmds now key s1
           in if ttl < 0 then (Inr (count, arg), rd_pexpire cmds now key arg s1) else (Inr (count, ttl), s1)))"

definition bucket_key :: "string \<Rightarrow> string \<Rightarrow> string" where
  "bucket_key prefix key = prefix @ ''bucket:'' @ key"

text \<open>\<open>now\<close> is the server's clock, \<open>date_now\<close> the process's when it has the answer.\<close>

definition redis_hit ::
  "'r redis \<Rightarrow> string \<Rightarrow> delivery \<Rightarrow> int \<Rightarrow> int \<Rightarrow> string \<Rightarrow> int \<Rightarrow> 'r \<Rightarrow> (error + nat \<times> int) \<times> 'r" where
  "redis_hit cmds prefix d now date_now key window_ms s =
     (case guarded d (hit_script cmds now (bucket_key prefix key) window_ms) s of
        (Inl e, s') \<Rightarrow> (Inl e, s')
      | (Inr (count, ttl), s') \<Rightarrow> (Inr (nat count, date_now + ttl), s'))"

section \<open>Used identifiers\<close>

definition replay_key :: "string \<Rightarrow> string \<Rightarrow> string" where
  "replay_key prefix key = prefix @ ''replay:'' @ key"

definition redis_claim :: "'r redis \<Rightarrow> string \<Rightarrow> delivery \<Rightarrow> int \<Rightarrow> string \<Rightarrow> int \<Rightarrow> 'r \<Rightarrow> (error + bool) \<times> 'r" where
  "redis_claim cmds prefix d now key ttl_seconds s =
     guarded d (rd_set cmds now (replay_key prefix key) ''1'' True ttl_seconds) s"

section \<open>Sealed responses\<close>

text \<open>
  SHA-256 and HKDF are parameters. The body is sealed and opened in the process, by a \<open>Sealer\<close> with the key every process
  derives from the same key material; HKDF takes the input key, the salt, the purpose and the length.
\<close>

definition shared_sealing_key :: "(string \<Rightarrow> string \<Rightarrow> string \<Rightarrow> nat \<Rightarrow> string) \<Rightarrow> key_material \<Rightarrow> string" where
  "shared_sealing_key hkdf ks = hkdf (internal_mac_key ks) [] ''iot-switch sealed refresh responses'' 32"

definition redis_sealer ::
  "(string \<Rightarrow> string \<Rightarrow> string \<Rightarrow> nat \<Rightarrow> string) \<Rightarrow> gcm \<Rightarrow> (string \<Rightarrow> error + jsval) \<Rightarrow> key_material \<Rightarrow> error + sealer" where
  "redis_sealer hkdf g parse ks = new_sealer g parse (shared_sealing_key hkdf ks)"

definition sealed_key :: "(string \<Rightarrow> string) \<Rightarrow> string \<Rightarrow> string \<Rightarrow> string" where
  "sealed_key sha prefix key = prefix @ ''sealed:'' @ base64url (sha key)"

definition redis_seal ::
  "'r redis \<Rightarrow> (string \<Rightarrow> string) \<Rightarrow> sealer \<Rightarrow> string \<Rightarrow> delivery \<Rightarrow> string \<Rightarrow> int \<Rightarrow> string \<Rightarrow> jsval \<Rightarrow> int \<Rightarrow> 'r
   \<Rightarrow> (error + unit) \<times> 'r" where
  "redis_seal cmds sha sl prefix d iv now key body ttl_seconds s =
     (case guarded d (rd_set cmds now (sealed_key sha prefix key) (base64 (sealer_seal sl iv key body)) False ttl_seconds) s of
        (Inl e, s') \<Rightarrow> (Inl e, s')
      | (Inr _, s') \<Rightarrow> (Inr (), s'))"

text \<open>Opening throws where the key or the ciphertext is not the one that was sealed.\<close>

definition redis_unseal ::
  "'r redis \<Rightarrow> (string \<Rightarrow> string) \<Rightarrow> sealer \<Rightarrow> string \<Rightarrow> delivery \<Rightarrow> int \<Rightarrow> string \<Rightarrow> 'r \<Rightarrow> (error + jsval option) \<times> 'r" where
  "redis_unseal cmds sha sl prefix d now key s =
     (case guarded d (\<lambda>s. (rd_get cmds now (sealed_key sha prefix key) s, s)) s of
        (Inl e, s') \<Rightarrow> (Inl e, s')
      | (Inr None, s') \<Rightarrow> (Inr None, s')
      | (Inr (Some sealed), s') \<Rightarrow> (map_sum id Some (sealer_open sl key (from_base64 sealed)), s'))"

section \<open>The contracts\<close>

lemma keys_eq [simp]:
  "bucket_key prefix k = bucket_key prefix k' \<longleftrightarrow> k = k'"
  "replay_key prefix k = replay_key prefix k' \<longleftrightarrow> k = k'"
  "bucket_key prefix k \<noteq> replay_key prefix k'" "replay_key prefix k \<noteq> bucket_key prefix k'"
  by (simp_all add: bucket_key_def replay_key_def)

lemma answered: "call s = (r, s') \<Longrightarrow>
  guarded Answered call s = (case r of Inr a \<Rightarrow> (Inr a, s') | Inl e \<Rightarrow> (Inl (app_err SERVICE_UNAVAILABLE), s'))"
  by (simp add: guarded_def split: sum.splits)

definition redis_window :: "('r \<Rightarrow> string \<Rightarrow> int \<Rightarrow> redis_entry option) \<Rightarrow> string \<Rightarrow> 'r \<Rightarrow> string \<Rightarrow> int \<Rightarrow> (nat \<times> int) option" where
  "redis_window look prefix s k t =
     (case look s (bucket_key prefix k) t of Some (Number c, Some e) \<Rightarrow> Some (nat c, e) | _ \<Rightarrow> None)"

text \<open>Under the prefix of the buckets there are only counters with an end.\<close>

definition buckets_ok :: "('r \<Rightarrow> string \<Rightarrow> int \<Rightarrow> redis_entry option) \<Rightarrow> string \<Rightarrow> 'r \<Rightarrow> bool" where
  "buckets_ok look prefix s \<longleftrightarrow>
     (\<forall>k t x. look s (bucket_key prefix k) t = Some x \<longrightarrow> (\<exists>c e. x = (Number (int c), Some e)))"

definition sealed_entries_ok :: "('r \<Rightarrow> string \<Rightarrow> int \<Rightarrow> redis_entry option) \<Rightarrow> string \<Rightarrow> 'r \<Rightarrow> bool" where
  "sealed_entries_ok look prefix s \<longleftrightarrow>
     (\<forall>k t x. look s (prefix @ ''sealed:'' @ k) t = Some x \<longrightarrow> (\<exists>c e. x = (Text c, Some e)))"

definition answered_hit :: "'r redis \<Rightarrow> string \<Rightarrow> int \<Rightarrow> string \<Rightarrow> int \<Rightarrow> 'r \<Rightarrow> (nat \<times> int) \<times> 'r" where
  "answered_hit cmds prefix now key w s =
     (case redis_hit cmds prefix Answered now now key w s of (Inr r, s') \<Rightarrow> (r, s') | (Inl e, s') \<Rightarrow> ((0, 0), s'))"

definition answered_claim :: "'r redis \<Rightarrow> string \<Rightarrow> int \<Rightarrow> string \<Rightarrow> int \<Rightarrow> 'r \<Rightarrow> bool \<times> 'r" where
  "answered_claim cmds prefix now key ttl s =
     (case redis_claim cmds prefix Answered now key ttl s of (r, s') \<Rightarrow> (r = Inr True, s'))"

definition answered_seal ::
  "'r redis \<Rightarrow> (string \<Rightarrow> string) \<Rightarrow> sealer \<Rightarrow> string \<Rightarrow> string \<Rightarrow> int \<Rightarrow> string \<Rightarrow> jsval \<Rightarrow> int \<Rightarrow> 'r \<Rightarrow> 'r" where
  "answered_seal cmds sha sl prefix iv now key body ttl s = snd (redis_seal cmds sha sl prefix Answered iv now key body ttl s)"

context redis_server begin

lemma look_open: "look s k t = Some (v, Some e) \<Longrightarrow> t < e"
  using look_later [of t t s k] by (metis order_refl still_open)

lemma hit_new:
  assumes "look s key now = None"
  shows "fst (hit_script cmds now key w s) = Inr (1, w)"
    and "look (snd (hit_script cmds now key w s)) key t = still (Some (Number 1, Some (now + w))) t"
proof -
  obtain s1 where s1: "rd_incr cmds now key s = (Inr 1, s1)" "\<And>t. look s1 key t = Some (Number 1, None)"
    using incr_new [OF assms] by (metis prod.collapse)
  then show "fst (hit_script cmds now key w s) = Inr (1, w)"
    "look (snd (hit_script cmds now key w s)) key t = still (Some (Number 1, Some (now + w))) t"
    by (simp_all add: hit_script_def pttl pexpire)
qed

lemma hit_old:
  assumes "look s key now = Some (Number c, Some e)"
  shows "fst (hit_script cmds now key w s) = Inr (c + 1, e - now)"
    and "look (snd (hit_script cmds now key w s)) key t = still (Some (Number (c + 1), Some e)) t"
proof -
  obtain s1 where s1: "rd_incr cmds now key s = (Inr (c + 1), s1)" "\<And>t. look s1 key t = still (Some (Number (c + 1), Some e)) t"
    using incr_old [OF assms] by (metis prod.collapse)
  with look_open [OF assms] show "fst (hit_script cmds now key w s) = Inr (c + 1, e - now)"
    "look (snd (hit_script cmds now key w s)) key t = still (Some (Number (c + 1), Some e)) t"
    by (simp_all add: hit_script_def pttl)
qed

lemma hit_elsewhere: "key' \<noteq> key \<Longrightarrow> look (snd (hit_script cmds now key w s)) key' t = look s key' t"
  using incr_other [of key' key now s t] by (auto simp: hit_script_def Let_def pexpire_other split: sum.splits prod.splits)

lemma bucket_entry:
  assumes "buckets_ok look prefix s"
  obtains "look s (bucket_key prefix k) t = None" "redis_window look prefix s k t = None"
  | c e where "look s (bucket_key prefix k) t = Some (Number (int c), Some e)" "redis_window look prefix s k t = Some (c, e)"
proof (cases "look s (bucket_key prefix k) t")
  case None
  then show ?thesis by (intro that(1)) (simp_all add: redis_window_def)
next
  case (Some x)
  then obtain c e where "x = (Number (int c), Some e)" using assms unfolding buckets_ok_def by blast
  with Some show ?thesis by (intro that(2) [of c e]) (simp_all add: redis_window_def)
qed

lemma answered_hit_eq:
  assumes "buckets_ok look prefix s"
  shows "redis_hit cmds prefix Answered now date_now k w s =
    (Inr (case redis_window look prefix s k now of None \<Rightarrow> (1, date_now + w) | Some (c, e) \<Rightarrow> (c + 1, date_now + (e - now))),
     snd (hit_script cmds now (bucket_key prefix k) w s))"
  using assms
proof (cases rule: bucket_entry [where k = k and t = now])
  case 1
  obtain s' where "hit_script cmds now (bucket_key prefix k) w s = (Inr (1, w), s')"
    using hit_new(1) [OF 1(1), of w] by (metis prod.collapse)
  with 1 show ?thesis by (simp add: redis_hit_def answered)
next
  case (2 c e)
  obtain s' where "hit_script cmds now (bucket_key prefix k) w s = (Inr (int c + 1, e - now), s')"
    using hit_old(1) [OF 2(1), of w] by (metis prod.collapse)
  with 2 show ?thesis by (simp add: redis_hit_def answered nat_add_distrib)
qed

lemma answered_hit_eq':
  "buckets_ok look prefix s \<Longrightarrow> answered_hit cmds prefix now k w s =
    (case redis_window look prefix s k now of None \<Rightarrow> (1, now + w) | Some (c, e) \<Rightarrow> (c + 1, e),
     snd (hit_script cmds now (bucket_key prefix k) w s))"
  by (auto simp: answered_hit_def answered_hit_eq split: option.splits)

lemma window_after_hit:
  assumes "buckets_ok look prefix s"
  shows "redis_window look prefix (snd (hit_script cmds now (bucket_key prefix k) w s)) k t =
    (let (c, e) = (case redis_window look prefix s k now of None \<Rightarrow> (1, now + w) | Some (c, e) \<Rightarrow> (c + 1, e))
     in if t < e then Some (c, e) else None)"
  using assms
proof (cases rule: bucket_entry [where k = k and t = now])
  case 1
  then show ?thesis using hit_new(2) [OF 1(1), of w t] by (simp add: redis_window_def)
next
  case (2 c e)
  then show ?thesis using hit_old(2) [OF 2(1), of w t] by (auto simp: redis_window_def nat_add_distrib)
qed

lemma hit_keeps_buckets:
  assumes "buckets_ok look prefix s"
  shows "buckets_ok look prefix (snd (hit_script cmds now (bucket_key prefix k) w s))"
  unfolding buckets_ok_def
proof (intro allI impI)
  fix k' t x assume x: "look (snd (hit_script cmds now (bucket_key prefix k) w s)) (bucket_key prefix k') t = Some x"
  show "\<exists>c e. x = (Number (int c), Some e)"
  proof (cases "k' = k")
    case True
    show ?thesis using assms
    proof (cases rule: bucket_entry [where k = k and t = now])
      case 1
      with x True hit_new(2) [OF 1(1), of w t] show ?thesis by (auto split: if_splits intro: exI [of _ 1])
    next
      case (2 c e)
      with x True hit_old(2) [OF 2(1), of w t] show ?thesis by (auto split: if_splits intro: exI [of _ "Suc c"])
    qed
  next
    case False
    then have "look s (bucket_key prefix k') t = Some x" using x by (simp add: hit_elsewhere)
    with assms show ?thesis unfolding buckets_ok_def by blast
  qed
qed

lemma window_elsewhere:
  "k' \<noteq> k \<Longrightarrow> redis_window look prefix (snd (hit_script cmds now (bucket_key prefix k) w s)) k' t = redis_window look prefix s k' t"
  by (simp add: redis_window_def hit_elsewhere)

end

sublocale redis_server \<subseteq> shared_buckets: bucket_store "answered_hit cmds prefix" "redis_window look prefix" "buckets_ok look prefix"
  for prefix
proof
  show "redis_window look prefix s k t = Some (c, e) \<Longrightarrow> t < e" for s k t c e
    by (auto simp: redis_window_def look_open split: option.splits redis_value.splits)
  show "redis_window look prefix s k t = Some (c, e) \<Longrightarrow> t \<le> t' \<Longrightarrow>
      redis_window look prefix s k t' = (if t' < e then Some (c, e) else None)" for s k t c e t'
    using look_later [of t t' s "bucket_key prefix k"]
    by (cases "t' < e") (auto simp: redis_window_def split: option.splits redis_value.splits)
  show "redis_window look prefix s k t' = None" if "redis_window look prefix s k t = None" "t \<le> t'" for s k t t'
    using that look_later [of t t' s "bucket_key prefix k"]
    by (cases "look s (bucket_key prefix k) t")
      (auto simp: redis_window_def split: option.splits redis_value.splits if_splits dest: still_same)
qed (auto simp: answered_hit_eq' hit_keeps_buckets window_after_hit window_elsewhere split: option.splits)

context redis_server begin

lemma claim_free:
  assumes "0 < ttl" "look s (replay_key prefix k) now = None"
  shows "fst (redis_claim cmds prefix Answered now k ttl s) = Inr True"
    and "look (snd (redis_claim cmds prefix Answered now k ttl s)) (replay_key prefix k) t
      = still (Some (Text ''1'', Some (now + ttl * 1000))) t"
  using set_done [of ttl True s "replay_key prefix k" now "''1''" t] assms
  by (auto simp: redis_claim_def guarded_def split: sum.splits prod.splits)

lemma claim_taken:
  assumes "ttl \<le> 0 \<or> look s (replay_key prefix k) now \<noteq> None"
  shows "fst (redis_claim cmds prefix Answered now k ttl s) \<noteq> Inr True"
    and "look (snd (redis_claim cmds prefix Answered now k ttl s)) key t = look s key t"
  using set_held [of ttl s "replay_key prefix k" now "''1''"] set_refused [of ttl now "replay_key prefix k" "''1''" True s]
    set_other [of key "replay_key prefix k" ttl True s now "''1''" t] assms
  by (cases "0 < ttl"; auto simp: redis_claim_def guarded_def split: sum.splits prod.splits)+

lemma claim_elsewhere:
  "key \<noteq> replay_key prefix k \<Longrightarrow> look (snd (redis_claim cmds prefix d now k ttl s)) key t = look s key t"
  using set_other [of key "replay_key prefix k" ttl True s now "''1''" t] by (simp add: redis_claim_def guarded_state)

end

sublocale redis_server \<subseteq> shared_replays: replay_store "answered_claim cmds prefix"
  "\<lambda>s k t. look s (replay_key prefix k) t \<noteq> None" "\<lambda>s. True" for prefix
proof
  show "look s (replay_key prefix k) t \<noteq> None \<Longrightarrow> t0 \<le> t \<Longrightarrow> look s (replay_key prefix k) t0 \<noteq> None" for s k t t0
    using look_later [of t0 t s "replay_key prefix k"] by (cases "look s (replay_key prefix k) t0") auto
  have claimed: "fst (answered_claim cmds prefix now k ttl s) \<longleftrightarrow> 0 < ttl \<and> look s (replay_key prefix k) now = None" for now k ttl s
    using claim_free(1) [of ttl s prefix k now] claim_taken(1) [of ttl s prefix k now]
    by (cases "0 < ttl \<and> look s (replay_key prefix k) now = None") (auto simp: answered_claim_def split: prod.splits)
  have state: "snd (answered_claim cmds prefix now k ttl s) = snd (redis_claim cmds prefix Answered now k ttl s)" for now k ttl s
    by (simp add: answered_claim_def split: prod.splits)
  show "0 < ttl \<or> look s (replay_key prefix k) now \<noteq> None \<Longrightarrow>
      fst (answered_claim cmds prefix now k ttl s) \<longleftrightarrow> \<not> look s (replay_key prefix k) now \<noteq> None" for ttl s k now
    unfolding claimed by (cases "look s (replay_key prefix k) now") auto
  show "fst (answered_claim cmds prefix now k ttl s) \<Longrightarrow>
      (look (snd (answered_claim cmds prefix now k ttl s)) (replay_key prefix k) t \<noteq> None) \<longleftrightarrow> t < now + ttl * 1000" for ttl s k now t
    by (simp add: claimed state claim_free)
  show "look (snd (answered_claim cmds prefix now k ttl s)) (replay_key prefix k') t \<noteq> None"
    if "now \<le> t" "look s (replay_key prefix k') t \<noteq> None" for ttl s k k' now t
  proof (cases "k' = k")
    case True
    with that look_later [of now t s "replay_key prefix k"] have "look s (replay_key prefix k) now \<noteq> None"
      by (cases "look s (replay_key prefix k) now") auto
    with that True show ?thesis by (simp add: state claim_taken(2))
  qed (use that in \<open>simp add: state claim_elsewhere\<close>)
  show "k' \<noteq> k \<Longrightarrow> (look (snd (answered_claim cmds prefix now k ttl s)) (replay_key prefix k') t \<noteq> None)
      \<longleftrightarrow> look s (replay_key prefix k') t \<noteq> None" for ttl s k k' now t
    by (simp add: state claim_elsewhere)
qed simp_all

text \<open>What is relied on of SHA-256: different keys have different digests.\<close>

locale shared_sealer = redis_server cmds look + sealing sl
  for cmds :: "'r redis" and look and sl +
  fixes sha :: "string \<Rightarrow> string"
  assumes sha_inj: "sha k = sha k' \<Longrightarrow> k = k'"
begin

lemma sealed_key_eq: "sealed_key sha prefix k = sealed_key sha prefix k' \<longleftrightarrow> k = k'"
  by (auto simp: sealed_key_def dest: base64url_inj sha_inj)

lemma seal_state: "snd (redis_seal cmds sha sl' prefix d iv now k b ttl s)
  = snd (guarded d (rd_set cmds now (sealed_key sha prefix k) (base64 (sealer_seal sl' iv k b)) False ttl) s)"
  by (auto simp: redis_seal_def split: sum.splits prod.splits)

lemma unseal_state [simp]: "snd (redis_unseal cmds sha sl' prefix d now k s) = s"
  by (auto simp: redis_unseal_def guarded_def split: sum.splits prod.splits option.splits delivery.splits)

lemma sealed_text:
  "0 < ttl \<Longrightarrow> d \<noteq> Not_sent \<Longrightarrow> look (snd (redis_seal cmds sha sl' prefix d iv now k b ttl s)) (sealed_key sha prefix k) t
    = still (Some (Text (base64 (sealer_seal sl' iv k b)), Some (now + ttl * 1000))) t"
  using set_done [of ttl False s "sealed_key sha prefix k" now "base64 (sealer_seal sl' iv k b)" t] by (simp add: seal_state guarded_state)

lemma sealed_elsewhere:
  "key \<noteq> sealed_key sha prefix k \<Longrightarrow> look (snd (redis_seal cmds sha sl' prefix d iv now k b ttl s)) key t = look s key t"
  using set_other [of key "sealed_key sha prefix k" ttl False s now "base64 (sealer_seal sl' iv k b)" t] by (simp add: seal_state guarded_state)

lemma unseal_by_look:
  assumes "look s (sealed_key sha prefix k) t = look s' (sealed_key sha prefix k) t"
    "look s (sealed_key sha prefix k) t = None \<or> (\<exists>x d. look s (sealed_key sha prefix k) t = Some (Text x, d))"
  shows "fst (redis_unseal cmds sha sl' prefix d t k s) = fst (redis_unseal cmds sha sl' prefix d t k s')"
  using assms get_none get_text by (auto simp: redis_unseal_def guarded_def split: sum.splits prod.splits option.splits delivery.splits)

end

sublocale shared_sealer \<subseteq> shared_sealed: sealed_store "answered_seal cmds sha sl prefix"
  "redis_unseal cmds sha sl prefix Answered" "sealed_entries_ok look prefix" nonce "readable sl" for prefix
proof
  have entry: "look s (sealed_key sha prefix k) t = None \<or> (\<exists>x d. look s (sealed_key sha prefix k) t = Some (Text x, d))"
    if "sealed_entries_ok look prefix s" for s k t
    using that unfolding sealed_entries_ok_def sealed_key_def by (cases "look s (prefix @ ''sealed:'' @ base64url (sha k)) t") blast+
  have same: "fst (redis_unseal cmds sha sl prefix Answered t k s) = fst (redis_unseal cmds sha sl prefix Answered t k s')"
    if "look s (sealed_key sha prefix k) t = look s' (sealed_key sha prefix k) t" "sealed_entries_ok look prefix s'" for s s' t k
    using unseal_by_look [of s' prefix k t s sl Answered] entry [OF that(2), of k t] that(1)
    by simp
  show "sealed_entries_ok look prefix s \<Longrightarrow> sealed_entries_ok look prefix (snd (redis_unseal cmds sha sl prefix Answered now k s))"
    "sealed_entries_ok look prefix s \<Longrightarrow> now \<le> t \<Longrightarrow>
      fst (redis_unseal cmds sha sl prefix Answered t k' (snd (redis_unseal cmds sha sl prefix Answered now k s)))
      = fst (redis_unseal cmds sha sl prefix Answered t k' s)" for s now k t k'
    by simp_all
  show "sealed_entries_ok look prefix s \<Longrightarrow> now \<le> t \<Longrightarrow> k' \<noteq> k \<Longrightarrow>
      fst (redis_unseal cmds sha sl prefix Answered t k' (answered_seal cmds sha sl prefix iv now k b ttl s))
      = fst (redis_unseal cmds sha sl prefix Answered t k' s)" for s now t k' k b ttl iv
    by (rule same) (simp_all add: answered_seal_def sealed_elsewhere sealed_key_eq)
  show "fst (redis_unseal cmds sha sl prefix Answered t k (answered_seal cmds sha sl prefix iv now k b ttl s))
      = Inr (if t < now + ttl * 1000 then Some b else None)" if "nonce iv" "readable sl b" "0 < ttl" for s t k now b ttl iv
    using sealed_text [OF that(3), of Answered sl prefix iv now k b s t] get_none get_text that(1,2)
    by (auto simp: answered_seal_def redis_unseal_def guarded_def opens_sealed split: prod.splits sum.splits)
  show "sealed_entries_ok look prefix (answered_seal cmds sha sl prefix iv now k b ttl s)" if ok: "sealed_entries_ok look prefix s" for s now k b ttl iv
    unfolding sealed_entries_ok_def
  proof (intro allI impI)
    fix k' t x assume x: "look (answered_seal cmds sha sl prefix iv now k b ttl s) (prefix @ ''sealed:'' @ k') t = Some x"
    show "\<exists>c e. x = (Text c, Some e)"
    proof (cases "prefix @ ''sealed:'' @ k' = sealed_key sha prefix k \<and> 0 < ttl")
      case True
      with x sealed_text [of ttl Answered sl prefix iv now k b s t] show ?thesis by (auto simp: answered_seal_def split: if_splits)
    next
      case False
      then have "look s (prefix @ ''sealed:'' @ k') t = Some x"
        using x set_other [of "prefix @ ''sealed:'' @ k'" "sealed_key sha prefix k" ttl False s now "base64 (sealer_seal sl iv k b)" t]
        by (auto simp: answered_seal_def seal_state guarded_state)
      with ok show ?thesis unfolding sealed_entries_ok_def by blast
    qed
  qed
qed

text \<open>The identity for SHA-256.\<close>

interpretation keyspace_sealer: shared_sealer keyspace_commands keyspace_look "demo_sealer v" "\<lambda>k. k" for v
  by unfold_locales simp

end
