(* ===== verification/Redis_Theorems.thy ===== *)
theory Redis_Theorems
  imports Redis
begin

text \<open>
  What several processes get from the stores they share: one limit, one set of used identifiers and one set of sealed
  responses, whatever of the traffic with the Redis server is lost.
\<close>

section \<open>Two stores of one contract\<close>

locale two_bucket_stores = A: bucket_store hit_a window_a ok_a + B: bucket_store hit_b window_b ok_b
  for hit_a :: "int \<Rightarrow> string \<Rightarrow> int \<Rightarrow> 'a \<Rightarrow> (nat \<times> int) \<times> 'a" and window_a ok_a
    and hit_b :: "int \<Rightarrow> string \<Rightarrow> int \<Rightarrow> 'b \<Rightarrow> (nat \<times> int) \<times> 'b" and window_b ok_b
begin

lemma windows_later:
  assumes "window_a a k t0 = window_b b k t0" "t0 \<le> t"
  shows "window_a a k t = window_b b k t"
proof (cases "window_a a k t0")
  case None
  with assms show ?thesis using A.window_closed B.window_closed by metis
next
  case (Some ce)
  obtain c e where "ce = (c, e)" by fastforce
  with Some assms show ?thesis using A.window_later [of a k t0 c e t] B.window_later [of b k t0 c e t] by simp
qed

lemma same_answers:
  assumes "ok_a a" "ok_b b" "\<And>k. window_a a k t0 = window_b b k t0" "sorted (t0 # map rq_time qs)"
  shows "map snd (fst (serve hit_a qs a)) = map snd (fst (serve hit_b qs b))"
  using assms
proof (induction qs arbitrary: a b t0)
  case (Cons q qs)
  let ?t = "rq_time q" and ?k = "rq_key q" and ?w = "rq_window q"
  have t: "t0 \<le> ?t" "sorted (?t # map rq_time qs)" using Cons.prems(4) by simp_all
  have w: "window_a a k ?t = window_b b k ?t" for k using windows_later Cons.prems(3) t(1) by blast
  have r: "fst (hit_a ?t ?k ?w a) = fst (hit_b ?t ?k ?w b)"
    by (simp add: A.hit_result B.hit_result Cons.prems(1,2) w)
  have "window_a (snd (hit_a ?t ?k ?w a)) k ?t = window_b (snd (hit_b ?t ?k ?w b)) k ?t" for k
    using A.hit_same [OF Cons.prems(1), of ?t ?t ?k ?w] B.hit_same [OF Cons.prems(2), of ?t ?t ?k ?w]
      A.hit_other [OF Cons.prems(1), of ?t ?t k ?k ?w] B.hit_other [OF Cons.prems(2), of ?t ?t k ?k ?w] r w
    by (cases "k = ?k") auto
  note rest = Cons.IH [OF A.hit_ok [OF Cons.prems(1)] B.hit_ok [OF Cons.prems(2)] this t(2)]
  from r have "fst (take_bucket hit_a (rq_limit q) ?w ?t ?t ?k a) = fst (take_bucket hit_b (rq_limit q) ?w ?t ?t ?k b)"
    by (cases "hit_a ?t ?k ?w a"; cases "hit_b ?t ?k ?w b") (auto simp: take_bucket_def)
  with rest show ?case
    by (simp add: A.serve_Cons B.serve_Cons del: serve.simps)
qed simp

end

sublocale redis_server \<subseteq> shared_and_own: two_bucket_stores "answered_hit cmds prefix" "redis_window look prefix"
  "buckets_ok look prefix" memory_hit memory_window distinct_keys for prefix ..

section \<open>Requests of several processes\<close>

text \<open>\<open>bucket(store, limit, windowMs)\<close> applied to a key, over the shared store: a failure of the store goes to the caller.\<close>

definition shared_take ::
  "'r redis \<Rightarrow> string \<Rightarrow> delivery \<Rightarrow> nat \<Rightarrow> int \<Rightarrow> int \<Rightarrow> int \<Rightarrow> string \<Rightarrow> 'r \<Rightarrow> (error + bucket_result) \<times> 'r" where
  "shared_take cmds prefix d limit window_ms now date_now key s =
     (case redis_hit cmds prefix d now date_now key window_ms s of
        (Inl e, s') \<Rightarrow> (Inl e, s')
      | (Inr (count, reset_at), s') \<Rightarrow>
          (Inr (if count \<le> limit then Granted else Refused (max 1 (ceil_div (reset_at - date_now) 1000))), s'))"

text \<open>A request: what becomes of its command, the clock of its process, and the request with the server's clock.\<close>

type_synonym shared_request = "delivery \<times> int \<times> request"

fun serve_shared ::
  "'r redis \<Rightarrow> string \<Rightarrow> shared_request list \<Rightarrow> 'r \<Rightarrow> (request \<times> (error + bucket_result)) list \<times> 'r" where
  "serve_shared cmds prefix [] s = ([], s)"
| "serve_shared cmds prefix ((d, p, q) # qs) s =
     (let (r, s1) = shared_take cmds prefix d (rq_limit q) (rq_window q) (rq_time q) p (rq_key q) s;
          (rs, s2) = serve_shared cmds prefix qs s1
      in ((q, r) # rs, s2))"

definition shared_granted :: "string \<Rightarrow> (request \<times> (error + bucket_result)) list \<Rightarrow> nat" where
  "shared_granted k rs = length (filter (\<lambda>(q, r). rq_key q = k \<and> r = Inr Granted) rs)"

text \<open>The requests the server sees.\<close>

definition arrived :: "shared_request list \<Rightarrow> request list" where
  "arrived qs = map (\<lambda>(d, p, q). q) (filter (\<lambda>(d, p, q). d \<noteq> Not_sent) qs)"

lemma shared_granted_Cons [simp]:
  "shared_granted k ((q, r) # rs) = (if rq_key q = k \<and> r = Inr Granted then 1 else 0) + shared_granted k rs"
  by (simp add: shared_granted_def)

lemma arrived_simps [simp]:
  "arrived [] = []" "arrived ((d, p, q) # qs) = (if d = Not_sent then arrived qs else q # arrived qs)"
  by (simp_all add: arrived_def)

lemma arrived_subset: "q \<in> set (arrived qs) \<Longrightarrow> \<exists>d p. (d, p, q) \<in> set qs"
  by (auto simp: arrived_def)

lemma sorted_arrived: "sorted (map (\<lambda>(d, p, q). rq_time q) qs) \<Longrightarrow> sorted (map rq_time (arrived qs))"
  by (induction qs) (fastforce dest: arrived_subset)+

context redis_server begin

lemma take_state: "snd (shared_take cmds prefix d limit w now p k s)
  = (if d = Not_sent then s else snd (hit_script cmds now (bucket_key prefix k) w s))"
  using guarded_state [of d "hit_script cmds now (bucket_key prefix k) w" s]
  by (auto simp: shared_take_def redis_hit_def split: prod.splits sum.splits)

lemma hit_state: "buckets_ok look prefix s \<Longrightarrow>
  snd (hit_script cmds now (bucket_key prefix k) w s) = snd (answered_hit cmds prefix now k w s)"
  by (simp add: answered_hit_eq')

lemma take_lost: "d \<noteq> Answered \<Longrightarrow> fst (shared_take cmds prefix d limit w now p k s) = Inl (app_err SERVICE_UNAVAILABLE)"
  by (auto simp: shared_take_def redis_hit_def guarded_def split: delivery.splits)

lemma take_answered:
  assumes "buckets_ok look prefix s"
  shows "fst (shared_take cmds prefix Answered limit w now p k s) = Inr Granted
    \<longleftrightarrow> fst (take_bucket (answered_hit cmds prefix) limit w now t k s) = Granted"
    "\<exists>r. fst (shared_take cmds prefix Answered limit w now p k s) = Inr r"
    "fst (shared_take cmds prefix Answered limit w now now k s) = Inr (fst (take_bucket (answered_hit cmds prefix) limit w now now k s))"
  using assms by (auto simp: shared_take_def take_bucket_def answered_hit_eq answered_hit_eq' split: option.splits)

lemma shared_step: "serve_shared cmds prefix ((d, p, q) # qs) s
  = (let s1 = snd (shared_take cmds prefix d (rq_limit q) (rq_window q) (rq_time q) p (rq_key q) s) in
     ((q, fst (shared_take cmds prefix d (rq_limit q) (rq_window q) (rq_time q) p (rq_key q) s)) # fst (serve_shared cmds prefix qs s1),
      snd (serve_shared cmds prefix qs s1)))"
  by (simp add: Let_def split: prod.splits)

lemma granted_arrived:
  "buckets_ok look prefix s \<Longrightarrow>
   shared_granted k (fst (serve_shared cmds prefix qs s)) \<le> granted k (shared_buckets.serve_all prefix (arrived qs) s)"
proof (induction qs arbitrary: s)
  case (Cons x qs)
  obtain d p q where x: "x = (d, p, q)" by (cases x)
  let ?hit = "answered_hit cmds prefix (rq_time q) (rq_key q) (rq_window q) s"
  show ?case
  proof (cases "d = Not_sent")
    case True
    with Cons show ?thesis by (simp add: x shared_step take_state take_lost Let_def del: serve_shared.simps)
  next
    case False
    have "shared_granted k (fst (serve_shared cmds prefix qs (snd ?hit))) \<le> granted k (shared_buckets.serve_all prefix (arrived qs) (snd ?hit))"
      using Cons.IH shared_buckets.hit_ok [OF Cons.prems] by blast
    moreover have "fst (shared_take cmds prefix d (rq_limit q) (rq_window q) (rq_time q) p (rq_key q) s) = Inr Granted \<Longrightarrow>
        fst (take_bucket (answered_hit cmds prefix) (rq_limit q) (rq_window q) (rq_time q) (rq_time q) (rq_key q) s) = Granted"
      using take_answered(1) [OF Cons.prems, of "rq_limit q" "rq_window q" "rq_time q" p "rq_key q" "rq_time q"] take_lost [of d]
      by (cases "d = Answered") auto
    ultimately show ?thesis using False
      by (auto simp: x shared_step take_state hit_state [OF Cons.prems] shared_buckets.serve_Cons Let_def
          simp del: serve_shared.simps serve.simps)
  qed
qed (simp add: shared_granted_def)

lemma shared_fails_closed:
  "buckets_ok look prefix s \<Longrightarrow> i < length qs \<Longrightarrow>
   (case snd (fst (serve_shared cmds prefix qs s) ! i) of
      Inl e \<Rightarrow> e = app_err SERVICE_UNAVAILABLE \<and> fst (qs ! i) \<noteq> Answered | Inr r \<Rightarrow> fst (qs ! i) = Answered)"
proof (induction qs arbitrary: s i)
  case (Cons x qs)
  obtain d p q where x: "x = (d, p, q)" by (cases x)
  have ok: "buckets_ok look prefix (snd (shared_take cmds prefix d (rq_limit q) (rq_window q) (rq_time q) p (rq_key q) s))"
    using Cons.prems(1) hit_keeps_buckets by (simp add: take_state)
  show ?case
  proof (cases i)
    case 0
    with take_answered(2) [OF Cons.prems(1), of "rq_limit q" "rq_window q" "rq_time q" p "rq_key q"] take_lost [of d]
    show ?thesis by (cases "d = Answered") (auto simp: x shared_step Let_def simp del: serve_shared.simps)
  next
    case (Suc j)
    with Cons.IH [OF ok, of j] Cons.prems(2) show ?thesis
      unfolding Suc x shared_step Let_def nth_Cons_Suc by (simp del: serve_shared.simps)
  qed
qed simp

lemma answered_serve:
  "buckets_ok look prefix s \<Longrightarrow>
   map snd (fst (serve_shared cmds prefix (map (\<lambda>q. (Answered, rq_time q, q)) qs) s))
   = map (Inr \<circ> snd) (shared_buckets.serve_all prefix qs s)"
proof (induction qs arbitrary: s)
  case (Cons q qs)
  let ?hit = "answered_hit cmds prefix (rq_time q) (rq_key q) (rq_window q) s"
  from Cons.IH [OF shared_buckets.hit_ok [OF Cons.prems]] show ?case
    by (simp add: shared_step take_state hit_state [OF Cons.prems] take_answered(3) [OF Cons.prems] shared_buckets.serve_Cons Let_def
        del: serve_shared.simps serve.simps)
qed simp

end

context redis_server begin

lemmas shared_sliding_bound = shared_buckets.sliding_bound

lemmas shared_same_answers = shared_and_own.same_answers

end

lemma shared_limits:
  assumes "redis_server cmds look" "buckets_ok look prefix s" "sorted (map (\<lambda>(d, p, q). rq_time q) qs)"
    and "\<forall>(d, p, q) \<in> set qs. t0 \<le> rq_time q \<and> rq_time q < t0 + w" "uniform k limit w (map (\<lambda>(d, p, q). q) qs)"
  shows "shared_granted k (fst (serve_shared cmds prefix qs s)) \<le> 2 * limit"
    and "\<forall>i < length qs. (case snd (fst (serve_shared cmds prefix qs s) ! i) of
           Inl e \<Rightarrow> e = app_err SERVICE_UNAVAILABLE \<and> fst (qs ! i) \<noteq> Answered | Inr r \<Rightarrow> fst (qs ! i) = Answered)"
proof -
  have "uniform k limit w (arrived qs)"
    using assms(5) arrived_subset [of _ qs] unfolding uniform_def by fastforce
  moreover have "\<forall>q \<in> set (arrived qs). t0 \<le> rq_time q \<and> rq_time q < t0 + w" using assms(4) by (fastforce dest: arrived_subset)
  ultimately have "granted k (fst (serve (answered_hit cmds prefix) (arrived qs) s)) \<le> 2 * limit"
    using redis_server.shared_sliding_bound [OF assms(1,2)] sorted_arrived [OF assms(3)] by blast
  then show "shared_granted k (fst (serve_shared cmds prefix qs s)) \<le> 2 * limit"
    using redis_server.granted_arrived [OF assms(1,2), of k qs] by linarith
qed (use redis_server.shared_fails_closed [OF assms(1,2)] in blast)

text \<open>C34. One limit for all processes. Whichever processes send the requests and whatever is lost on the way, in any interval
  of a window's length at most twice the limit of a key is granted; and a request whose command is not answered is refused
  with SERVICE_UNAVAILABLE, one that is answered never.\<close>

theorem shared_limit_bounds:
  assumes "redis_server cmds look" "buckets_ok look prefix s" "sorted (map (\<lambda>(d, p, q). rq_time q) qs)"
    and "\<forall>(d, p, q) \<in> set qs. t0 \<le> rq_time q \<and> rq_time q < t0 + w" "uniform k limit w (map (\<lambda>(d, p, q). q) qs)"
  shows "shared_granted k (fst (serve_shared cmds prefix qs s)) \<le> 2 * limit
    \<and> (\<forall>i < length qs. (case snd (fst (serve_shared cmds prefix qs s) ! i) of
           Inl e \<Rightarrow> e = app_err SERVICE_UNAVAILABLE \<and> fst (qs ! i) \<noteq> Answered | Inr r \<Rightarrow> fst (qs ! i) = Answered))"
  using shared_limits [OF assms] by blast

lemma empty_keyspace_ok [simp]: "buckets_ok keyspace_look prefix (\<lambda>k. None)" "redis_window keyspace_look prefix (\<lambda>k. None) k t = None"
  by (simp_all add: buckets_ok_def redis_window_def)

theorem shared_limit_bounds_witness:
  "shared_granted ''ip'' (fst (serve_shared keyspace_commands ''p:''
     [(Answered, 7, Req 5 ''ip'' 1 60000), (Answer_lost, 9, Req 8 ''ip'' 1 60000)] (\<lambda>k. None))) \<le> 2"
  using shared_limit_bounds [OF keyspace_server.redis_server_axioms empty_keyspace_ok(1),
      of "[(Answered, 7, Req 5 ''ip'' 1 60000), (Answer_lost, 9, Req 8 ''ip'' 1 60000)]" 5 60000 "''ip''" 1 "''p:''"]
  by (simp add: uniform_def)

text \<open>C35. Several processes that share a Redis server answer a series of requests as one process with its own memory would,
  with the same counts and the same times to wait, as long as the server answers and the clocks agree.\<close>

theorem shared_buckets_as_one_process:
  assumes "redis_server cmds look" "buckets_ok look prefix s" "\<forall>k. redis_window look prefix s k t0 = None"
    and "sorted (t0 # map rq_time qs)"
  shows "map snd (fst (serve_shared cmds prefix (map (\<lambda>q. (Answered, rq_time q, q)) qs) s))
    = map (Inr \<circ> snd) (fst (serve memory_hit qs []))"
proof -
  have "map snd (fst (serve (answered_hit cmds prefix) qs s)) = map snd (fst (serve memory_hit qs []))"
    using assms(3,4) by (intro redis_server.shared_same_answers [OF assms(1,2)])
      (auto simp: distinct_keys_def memory_window_def)
  then show ?thesis using redis_server.answered_serve [OF assms(1,2)] by (simp flip: map_map)
qed

theorem shared_buckets_as_one_process_witness:
  "map snd (fst (serve_shared keyspace_commands ''p:'' (map (\<lambda>q. (Answered, rq_time q, q))
       [Req 5 ''ip'' 1 60000, Req 3005 ''ip'' 1 60000, Req 3005 ''other'' 1 60000]) (\<lambda>k. None)))
   = [Inr Granted, Inr (Refused 57), Inr Granted]"
proof -
  let ?qs = "[Req 5 ''ip'' 1 60000, Req 3005 ''ip'' 1 60000, Req 3005 ''other'' 1 60000]"
  have "map snd (fst (serve memory_hit ?qs [])) = [Granted, Refused 57, Granted]"
    by (simp add: take_bucket_def memory_hit_def ceil_div_def Let_def)
  then have "map (Inr \<circ> snd) (fst (serve memory_hit ?qs [])) = ([Inr Granted, Inr (Refused 57), Inr Granted] :: (error + bucket_result) list)"
    by (simp only: map_map [symmetric]) simp
  with shared_buckets_as_one_process [OF keyspace_server.redis_server_axioms empty_keyspace_ok(1),
      where ?t0.0 = 0 and qs = ?qs and prefix = "''p:''"] show ?thesis
    by (simp only: empty_keyspace_ok) simp
qed

section \<open>Identifiers used by several processes\<close>

fun claims_shared ::
  "'r redis \<Rightarrow> string \<Rightarrow> (delivery \<times> int \<times> string \<times> int) list \<Rightarrow> 'r \<Rightarrow> (error + bool) list \<times> 'r" where
  "claims_shared cmds prefix [] s = ([], s)"
| "claims_shared cmds prefix ((d, t, k, ttl) # xs) s =
     (let (r, s1) = redis_claim cmds prefix d t k ttl s; (rs, s2) = claims_shared cmds prefix xs s1 in (r # rs, s2))"

lemma claims_shared_step: "claims_shared cmds prefix ((d, t, k, ttl) # xs) s
  = (fst (redis_claim cmds prefix d t k ttl s) # fst (claims_shared cmds prefix xs (snd (redis_claim cmds prefix d t k ttl s))),
     snd (claims_shared cmds prefix xs (snd (redis_claim cmds prefix d t k ttl s))))"
  by (simp add: Let_def split: prod.splits)

context redis_server begin

lemma claim_state: "snd (redis_claim cmds prefix d now k ttl s)
  = (if d = Not_sent then s else snd (redis_claim cmds prefix Answered now k ttl s))"
  by (simp add: redis_claim_def guarded_state)

lemma claim_lost: "d \<noteq> Answered \<Longrightarrow> fst (redis_claim cmds prefix d now k ttl s) = Inl (app_err SERVICE_UNAVAILABLE)"
  by (auto simp: redis_claim_def guarded_def split: delivery.splits)

lemma still_held:
  assumes "look s (replay_key prefix k) t \<noteq> None" "now \<le> t"
  shows "look (snd (redis_claim cmds prefix d now k' ttl s)) (replay_key prefix k) t \<noteq> None"
  using shared_replays.claim_keeps [OF TrueI assms(2,1), of k' ttl] assms(1) claim_state [of prefix d now k' ttl s]
  by (auto simp: answered_claim_def split: prod.splits if_splits)

lemma held_refuses:
  assumes "look s (replay_key prefix k) t \<noteq> None" "\<forall>(d, now, k', ttl) \<in> set xs. now \<le> t" "i < length xs" "fst (snd (snd (xs ! i))) = k"
  shows "fst (claims_shared cmds prefix xs s) ! i \<noteq> Inr True"
  using assms
proof (induction xs arbitrary: s i)
  case (Cons x xs)
  obtain d now k' ttl where x: "x = (d, now, k', ttl)" by (cases x)
  have now: "now \<le> t" using Cons.prems(2) x by auto
  show ?case
  proof (cases i)
    case 0
    with Cons.prems x have "k' = k" by simp
    have "look s (replay_key prefix k) now \<noteq> None"
      using Cons.prems(1) shared_replays.held_earlier [of s prefix k t now] now by blast
    with \<open>k' = k\<close> claim_taken(1) [of ttl s prefix k now] claim_lost [of d prefix now k ttl s] show ?thesis
      by (cases "d = Answered") (simp_all add: 0 x claims_shared_step del: claims_shared.simps)
  next
    case (Suc j)
    with Cons.IH [OF still_held [OF Cons.prems(1) now, of d k' ttl], of j] Cons.prems(2-4) show ?thesis
      by (simp add: x claims_shared_step del: claims_shared.simps)
  qed
qed simp

lemma claim_holds_on:
  assumes "redis_claim cmds prefix d t k ttl s = (Inr True, s')"
  shows "look s' (replay_key prefix k) t' \<noteq> None \<longleftrightarrow> t' < t + ttl * 1000" "d = Answered"
proof -
  show d: "d = Answered" using assms claim_lost [of d prefix t k ttl s] by (cases "d = Answered") auto
  then have "answered_claim cmds prefix t k ttl s = (True, s')" using assms by (simp add: answered_claim_def)
  with shared_replays.claim_holds [where s = s and prefix = prefix and now = t and k = k and ttl = ttl and t = t'] show "look s' (replay_key prefix k) t' \<noteq> None \<longleftrightarrow> t' < t + ttl * 1000"
    by simp
qed

end

lemma shared_claims:
  assumes "redis_server cmds look" "redis_claim cmds prefix d t k ttl s = (Inr True, s')"
    and "\<forall>(d, now, k', ttl') \<in> set xs. now < t + ttl * 1000" "i < length xs" "fst (snd (snd (xs ! i))) = k"
  shows "fst (claims_shared cmds prefix xs s') ! i \<noteq> Inr True"
    and "d' \<noteq> Answered \<Longrightarrow> fst (redis_claim cmds prefix d' now k' ttl' s') = Inl (app_err SERVICE_UNAVAILABLE)"
proof -
  let ?last = "t + ttl * 1000 - 1"
  have "look s' (replay_key prefix k) ?last \<noteq> None"
    using redis_server.claim_holds_on(1) [OF assms(1,2), of ?last] by simp
  moreover have "\<forall>(d, now, k', ttl') \<in> set xs. now \<le> ?last" using assms(3) by auto
  ultimately show "fst (claims_shared cmds prefix xs s') ! i \<noteq> Inr True"
    using redis_server.held_refuses [OF assms(1)] assms(4,5) by blast
qed (rule redis_server.claim_lost [OF assms(1)])

text \<open>C36. A proof's identifier is accepted by one process only. After a claim that a process got through, no process gets a
  claim of the same identifier through within its lifetime, whatever is claimed in between and whatever answers are lost; a
  claim without an answer is refused with SERVICE_UNAVAILABLE.\<close>

theorem shared_claim_once:
  assumes "redis_server cmds look" "redis_claim cmds prefix d t k ttl s = (Inr True, s')"
    and "\<forall>(d, now, k', ttl') \<in> set xs. now < t + ttl * 1000" "i < length xs" "fst (snd (snd (xs ! i))) = k"
  shows "fst (claims_shared cmds prefix xs s') ! i \<noteq> Inr True
    \<and> (d' \<noteq> Answered \<longrightarrow> fst (redis_claim cmds prefix d' now k' ttl' s') = Inl (app_err SERVICE_UNAVAILABLE))"
  using shared_claims [OF assms] by blast

theorem shared_claim_once_witness:
  "fst (claims_shared keyspace_commands ''p:'' [(Answer_lost, 6, ''other'', 60), (Answered, 9, ''jti'', 60)]
     (snd (redis_claim keyspace_commands ''p:'' Answered 5 ''jti'' 60 (\<lambda>k. None)))) ! 1 \<noteq> Inr True"
proof -
  have "redis_claim keyspace_commands ''p:'' Answered 5 ''jti'' 60 (\<lambda>k. None)
      = (Inr True, snd (redis_claim keyspace_commands ''p:'' Answered 5 ''jti'' 60 (\<lambda>k. None)))"
    by (simp add: redis_claim_def guarded_def keyspace_commands_def)
  from shared_claim_once [OF keyspace_server.redis_server_axioms this,
      of "[(Answer_lost, 6, ''other'', 60), (Answered, 9, ''jti'', 60)]" 1] show ?thesis by simp
qed

section \<open>Responses sealed by one process and opened by another\<close>

text \<open>A sealing says who seals, with which nonce.\<close>

datatype shared_op =
    Op_hit delivery int int string int
  | Op_claim delivery int string int
  | Op_seal delivery sealer string int string jsval int

fun shared_do :: "'r redis \<Rightarrow> (string \<Rightarrow> string) \<Rightarrow> string \<Rightarrow> shared_op \<Rightarrow> 'r \<Rightarrow> 'r" where
  "shared_do cmds sha prefix (Op_hit d now p key w) s = snd (redis_hit cmds prefix d now p key w s)"
| "shared_do cmds sha prefix (Op_claim d now key ttl) s = snd (redis_claim cmds prefix d now key ttl s)"
| "shared_do cmds sha prefix (Op_seal d sl iv now key b ttl) s = snd (redis_seal cmds sha sl prefix d iv now key b ttl s)"

text \<open>The operation seals nothing under the key.\<close>

fun seals_other :: "string \<Rightarrow> shared_op \<Rightarrow> bool" where
  "seals_other k (Op_seal d sl iv now key b ttl) \<longleftrightarrow> key \<noteq> k"
| "seals_other k x \<longleftrightarrow> True"

lemma sealed_key_ne [simp]: "sealed_key sha prefix k \<noteq> bucket_key prefix k'" "sealed_key sha prefix k \<noteq> replay_key prefix k'"
  by (simp_all add: sealed_key_def bucket_key_def replay_key_def)

context shared_sealer begin

lemma op_elsewhere:
  assumes "seals_other k x"
  shows "look (shared_do cmds sha prefix x s) (sealed_key sha prefix k) t = look s (sealed_key sha prefix k) t"
proof (cases x)
  case (Op_hit d now p key w)
  have "snd (redis_hit cmds prefix d now p key w s) = (if d = Not_sent then s else snd (hit_script cmds now (bucket_key prefix key) w s))"
    using guarded_state [of d "hit_script cmds now (bucket_key prefix key) w" s] by (auto simp: redis_hit_def split: prod.splits sum.splits)
  with Op_hit show ?thesis by (simp add: hit_elsewhere)
next
  case (Op_claim d now key ttl)
  then show ?thesis by (simp add: claim_elsewhere)
next
  case (Op_seal d sl' iv now key b ttl)
  with assms show ?thesis by (simp add: sealed_elsewhere sealed_key_eq)
qed

lemma ops_elsewhere:
  "\<forall>x \<in> set xs. seals_other k x \<Longrightarrow>
   look (fold (shared_do cmds sha prefix) xs s) (sealed_key sha prefix k) t = look s (sealed_key sha prefix k) t"
  by (induction xs arbitrary: s) (simp_all add: op_elsewhere)

lemma unseal_sealed_text:
  assumes "\<And>t. look s (sealed_key sha prefix k) t = still (Some (Text (base64 (sealer_seal sl iv k b)), Some e)) t"
    and "nonce iv" "readable sl b"
  shows "fst (redis_unseal cmds sha sl prefix d t k s) =
    (if d \<noteq> Answered then Inl (app_err SERVICE_UNAVAILABLE) else if t < e then Inr (Some b) else Inr None)"
proof -
  have "rd_get cmds t (sealed_key sha prefix k) s = Inr (if t < e then Some (base64 (sealer_seal sl iv k b)) else None)"
    using assms(1) [of t] get_none get_text by auto
  then show ?thesis using assms(2,3) by (auto simp: redis_unseal_def guarded_def opens_sealed split: delivery.splits)
qed

end

lemma redis_sealerD:
  assumes "redis_sealer hkdf g parse ks = Inr sl"
  shows "sl = \<lparr>se_gcm = g, se_parse = parse, se_secret = shared_sealing_key hkdf ks\<rparr>"
  using assms by (simp add: redis_sealer_def new_sealer_def split: if_splits)

text \<open>C37. A response one process sealed is opened by any other process with the same MAC key, each with a sealer of its own:
  within its lifetime it gives the body that was sealed, also when the answer to the sealing was lost, and afterwards
  nothing; whatever else is counted, claimed and sealed in between, by whichever sealer, and never anything but a refusal
  when the server does not answer. And what was sealed under one key opens under no other.\<close>

theorem shared_seal_roundtrip:
  assumes "redis_server cmds look" "gcm_cipher g" "\<And>k k'. sha k = sha k' \<Longrightarrow> k = k'" "parse (utf8 (json b)) = Inr b"
    and "redis_sealer hkdf g parse ks = Inr sl" "redis_sealer hkdf g parse ks' = Inr sl'" "internal_mac_key ks' = internal_mac_key ks"
    and "length iv = 12" "0 < ttl" "d \<noteq> Not_sent" "\<forall>x \<in> set xs. seals_other k x"
  shows "fst (redis_unseal cmds sha sl' prefix d' t' k
      (fold (shared_do cmds sha prefix) xs (snd (redis_seal cmds sha sl prefix d iv t k b ttl s))))
    = (if d' \<noteq> Answered then Inl (app_err SERVICE_UNAVAILABLE) else if t' < t + ttl * 1000 then Inr (Some b) else Inr None)
    \<and> (\<forall>k'. k' \<noteq> k \<longrightarrow> sealer_open sl' k' (sealer_seal sl iv k b) = Inl (OtherError ''Unsupported state or unable to authenticate data''))"
proof -
  have sl: "sl' = sl" "se_gcm sl = g" "readable sl b"
    using redis_sealerD [OF assms(5)] redis_sealerD [OF assms(6)] assms(4,7) by (simp_all add: shared_sealing_key_def readable_def)
  have sealer: "shared_sealer cmds look sl sha"
    using assms(1-3) sl(2) by (simp add: shared_sealer_def shared_sealer_axioms_def sealing_def)
  have iv: "nonce iv" using assms(8) by (simp add: nonce_def)
  have "look (fold (shared_do cmds sha prefix) xs (snd (redis_seal cmds sha sl prefix d iv t k b ttl s))) (sealed_key sha prefix k) u
      = still (Some (Text (base64 (sealer_seal sl iv k b)), Some (t + ttl * 1000))) u" for u
    by (simp add: shared_sealer.ops_elsewhere [OF sealer assms(11)] shared_sealer.sealed_text [OF sealer assms(9,10)])
  from shared_sealer.unseal_sealed_text [OF sealer this iv sl(3)]
  show ?thesis using sealing.opens_sealed(2) [of sl iv _ k b] sealer iv by (simp add: sl(1) shared_sealer_def)
qed

definition demo_hkdf :: "string \<Rightarrow> string \<Rightarrow> string \<Rightarrow> nat \<Rightarrow> string" where
  "demo_hkdf key salt info n = take n (key @ salt @ info @ replicate n (CHR 0x00))"

definition demo_keys :: "string \<Rightarrow> key_material" where
  "demo_keys p = \<lparr>token_peppers = [(1, p)], password_pepper = (1, p), internal_mac_key = ''mac''\<rparr>"

theorem shared_seal_roundtrip_witness:
  "\<exists>sl sl'. redis_sealer demo_hkdf demo_gcm (reader_of [JStr ''body'']) (demo_keys ''p'') = Inr sl
    \<and> redis_sealer demo_hkdf demo_gcm (reader_of [JStr ''body'']) (demo_keys ''q'') = Inr sl'
    \<and> fst (redis_unseal keyspace_commands (\<lambda>k. k) sl' ''p:'' Answered 9 ''k'' (fold (shared_do keyspace_commands (\<lambda>k. k) ''p:'')
       [Op_hit Answered 6 6 ''ip'' 60000, Op_seal Answered sl' demo_iv 7 ''k2'' (JStr ''other'') 30]
       (snd (redis_seal keyspace_commands (\<lambda>k. k) sl ''p:'' Answer_lost demo_iv 5 ''k'' (JStr ''body'') 30 (\<lambda>k. None)))))
     = Inr (Some (JStr ''body''))"
proof -
  have "length (shared_sealing_key demo_hkdf (demo_keys p)) = 32" for p by (simp add: shared_sealing_key_def demo_hkdf_def)
  then obtain sl sl' where s: "redis_sealer demo_hkdf demo_gcm (reader_of [JStr ''body'']) (demo_keys ''p'') = Inr sl"
    "redis_sealer demo_hkdf demo_gcm (reader_of [JStr ''body'']) (demo_keys ''q'') = Inr sl'"
    by (simp add: redis_sealer_def new_sealer_def)
  have r: "reader_of [JStr ''body''] (utf8 (json (JStr ''body''))) = Inr (JStr ''body'')" by (simp add: reader_of_def)
  show ?thesis
    using s shared_seal_roundtrip [OF keyspace_server.redis_server_axioms demo_cipher.gcm_cipher_axioms _ r s, where sha = "\<lambda>k. k" and iv = demo_iv and ttl = 30
        and d = Answer_lost and xs = "[Op_hit Answered 6 6 ''ip'' 60000, Op_seal Answered sl' demo_iv 7 ''k2'' (JStr ''other'') 30]" and k = "''k''"
        and prefix = "''p:''" and d' = Answered and t' = 9 and t = 5 and s = "\<lambda>k. None"]
    by (simp add: demo_keys_def demo_iv_def)
qed

end
