(* ===== verification/Bridge.thy ===== *)
theory Bridge
  imports Exchange_Client "HOL-Library.Multiset"
begin

text \<open>
  \<open>bridgeRevocations\<close> of \<open>server/src/stores/redis.ts\<close>: the hubs of several processes joined over a channel of the Redis
  server. A process publishes an event of its own on the channel and hears every message on it; the processes and the
  channel are a step relation, in which a message may get lost on the way to any of them. A message is what \<open>JSON.parse\<close>
  makes of its text, \<^const>\<open>None\<close> where that throws.
\<close>

section \<open>Messages\<close>

fun event_value :: "revocation_event \<Rightarrow> jsval" where
  "event_value (Grant_revoked g) = JObj [(''type'', JStr ''grant.revoked''), (''grantId'', JStr g)]"
| "event_value (Account_revoked a) = JObj [(''type'', JStr ''account.revoked''), (''accountId'', JStr a)]"
| "event_value (Client_blocked c) = JObj [(''type'', JStr ''client.blocked''), (''clientId'', JStr c)]"

text \<open>What listeners make of a received event; one of another shape names nothing to any of them.\<close>

definition event_of :: "jsval \<Rightarrow> revocation_event option" where
  "event_of v =
     (if jfield v ''type'' = JStr ''grant.revoked'' then map_option Grant_revoked (as_str (jfield v ''grantId''))
      else if jfield v ''type'' = JStr ''account.revoked'' then map_option Account_revoked (as_str (jfield v ''accountId''))
      else if jfield v ''type'' = JStr ''client.blocked'' then map_option Client_blocked (as_str (jfield v ''clientId''))
      else None)"

lemma event_of_value [simp]: "event_of (event_value e) = Some e"
  by (cases e) (simp_all add: event_of_def)

definition broadcast_message :: "string \<Rightarrow> revocation_event \<Rightarrow> jsval" where
  "broadcast_message origin e = JObj [(''origin'', JStr origin), (''event'', event_value e)]"

section \<open>A process\<close>

record 's node =
  nd_origin :: string
  nd_hub :: "'s hub"
  nd_state :: 's
  nd_inbox :: "jsval option list"

text \<open>
  The hub's other listeners handle an event alike wherever it comes from; the bridge's listener passes on those that are not
  remote.
\<close>

definition hub_publish :: "bool \<Rightarrow> revocation_event \<Rightarrow> 's node \<Rightarrow> jsval option \<times> 's node" where
  "hub_publish remote e n =
     (if remote then None else Some (broadcast_message (nd_origin n) e), n\<lparr>nd_state := publish e (nd_hub n) (nd_state n)\<rparr>)"

text \<open>The subscriber's callback. Reading a property of \<open>null\<close> throws.\<close>

definition on_message :: "jsval option \<Rightarrow> 's node \<Rightarrow> error + jsval option \<times> 's node" where
  "on_message m n =
     (case m of
        None \<Rightarrow> Inr (None, n)
      | Some JNull \<Rightarrow> Inl (OtherError ''TypeError'')
      | Some parsed \<Rightarrow>
          (let event = jfield parsed ''event'' in
           if \<not> js_truthy event \<or> jfield parsed ''origin'' = JStr (nd_origin n) then Inr (None, n)
           else case event_of event of None \<Rightarrow> Inr (None, n) | Some e \<Rightarrow> Inr (hub_publish True e n)))"

section \<open>The processes and the channel\<close>

type_synonym 's nodes = "'s node list"

definition deliver :: "nat set \<Rightarrow> jsval option \<Rightarrow> 's nodes \<Rightarrow> 's nodes" where
  "deliver js m ns = map (\<lambda>(j, n). if j \<in> js then n\<lparr>nd_inbox := nd_inbox n @ [m]\<rparr> else n) (zip [0..<length ns] ns)"

text \<open>
  A step: process \<open>i\<close> publishes an event of its own, and the message reaches the processes \<open>js\<close> (none, when the server is
  down); or a process takes the next message from its connection. A callback that throws leaves the state.
\<close>

datatype bridge_event = Published nat revocation_event "nat set" | Took nat

inductive bridge_step :: "'s nodes \<Rightarrow> bridge_event \<Rightarrow> 's nodes \<Rightarrow> bool" where
  published: "i < length ns \<Longrightarrow> hub_publish False e (ns ! i) = (Some m, n) \<Longrightarrow>
     bridge_step ns (Published i e js) (deliver js (Some m) (ns[i := n]))"
| took: "i < length ns \<Longrightarrow> nd_inbox (ns ! i) = m # ms \<Longrightarrow> on_message m ((ns ! i)\<lparr>nd_inbox := ms\<rparr>) = Inr (None, n) \<Longrightarrow>
     bridge_step ns (Took i) (ns[i := n])"
| passed_on: "i < length ns \<Longrightarrow> nd_inbox (ns ! i) = m # ms \<Longrightarrow> on_message m ((ns ! i)\<lparr>nd_inbox := ms\<rparr>) = Inr (Some m', n) \<Longrightarrow>
     bridge_step ns (Took i) (deliver js (Some m') (ns[i := n]))"
| threw: "i < length ns \<Longrightarrow> nd_inbox (ns ! i) = m # ms \<Longrightarrow> on_message m ((ns ! i)\<lparr>nd_inbox := ms\<rparr>) = Inl err \<Longrightarrow>
     bridge_step ns (Took i) (ns[i := (ns ! i)\<lparr>nd_inbox := ms\<rparr>])"

inductive bridge_run :: "'s nodes \<Rightarrow> bridge_event list \<Rightarrow> 's nodes \<Rightarrow> bool" where
  start: "bridge_run ns [] ns"
| more_steps: "bridge_run ns xs ns' \<Longrightarrow> bridge_step ns' x ns'' \<Longrightarrow> bridge_run ns (xs @ [x]) ns''"

section \<open>What every process hears\<close>

lemma length_deliver [simp]: "length (deliver js m ns) = length ns"
  by (simp add: deliver_def)

lemma nth_deliver [simp]:
  "j < length ns \<Longrightarrow> deliver js m ns ! j = (if j \<in> js then (ns ! j)\<lparr>nd_inbox := nd_inbox (ns ! j) @ [m]\<rparr> else ns ! j)"
  by (simp add: deliver_def)

text \<open>The events in messages on their way to a process, other than its own.\<close>

definition heard :: "string \<Rightarrow> jsval option \<Rightarrow> revocation_event option" where
  "heard origin m =
     (case m of
        Some v \<Rightarrow> if js_truthy (jfield v ''event'') \<and> jfield v ''origin'' \<noteq> JStr origin then event_of (jfield v ''event'') else None
      | None \<Rightarrow> None)"

lemma heard_broadcast [simp]: "heard origin (Some (broadcast_message o' e)) = (if o' = origin then None else Some e)"
  by (cases e) (auto simp: heard_def broadcast_message_def event_of_def)

lemma on_message_heard:
  assumes "m \<noteq> Some JNull"
  shows "on_message m n = Inr (None, case heard (nd_origin n) m of None \<Rightarrow> n | Some e \<Rightarrow> n\<lparr>nd_state := publish e (nd_hub n) (nd_state n)\<rparr>)"
  using assms by (auto simp: on_message_def heard_def hub_publish_def Let_def split: option.splits jsval.splits)

text \<open>The events process \<open>j\<close> has to handle: those it published, and those of the others whose message reached it.\<close>

fun due :: "nat \<Rightarrow> bridge_event \<Rightarrow> revocation_event list" where
  "due j (Published i e js) = (if i = j \<or> j \<in> js then [e] else [])"
| "due j (Took i) = []"

definition waiting :: "'s node \<Rightarrow> revocation_event list" where
  "waiting n = List.map_filter (heard (nd_origin n)) (nd_inbox n)"

definition nodes_ok :: "'s nodes \<Rightarrow> bool" where
  "nodes_ok ns \<longleftrightarrow> distinct (map nd_origin ns) \<and> (\<forall>n \<in> set ns. Some JNull \<notin> set (nd_inbox n))"

text \<open>Process \<open>n\<close> has become \<open>n'\<close> by handling the events \<open>es\<close> in some order.\<close>

definition has_handled :: "'s node \<Rightarrow> revocation_event list \<Rightarrow> 's node \<Rightarrow> bool" where
  "has_handled n es n' \<longleftrightarrow> nd_origin n' = nd_origin n \<and> nd_hub n' = nd_hub n
     \<and> nd_state n' = fold (\<lambda>e. publish e (nd_hub n)) es (nd_state n)"

lemma waiting_append: "waiting (n\<lparr>nd_inbox := xs @ ys\<rparr>) = waiting (n\<lparr>nd_inbox := xs\<rparr>) @ waiting (n\<lparr>nd_inbox := ys\<rparr>)"
  by (simp add: waiting_def List.map_filter_def)

lemma not_null: "nodes_ok ns \<Longrightarrow> i < length ns \<Longrightarrow> nd_inbox (ns ! i) = m # ms \<Longrightarrow> m \<noteq> Some JNull"
  unfolding nodes_ok_def using nth_mem [of i ns] by (metis list.set_intros(1))

lemma step_handles:
  assumes "bridge_step ns x ns'" "nodes_ok ns" "j < length ns"
  shows "\<exists>es. has_handled (ns ! j) es (ns' ! j) \<and> mset es + mset (waiting (ns' ! j)) = mset (waiting (ns ! j)) + mset (due j x)"
  using assms
proof (induction rule: bridge_step.induct)
  case (published i ns e m n js)
  then have m: "m = broadcast_message (nd_origin (ns ! i)) e" "n = (ns ! i)\<lparr>nd_state := publish e (nd_hub (ns ! i)) (nd_state (ns ! i))\<rparr>"
    by (auto simp: hub_publish_def)
  show ?case
  proof (cases "i = j")
    case True
    with published m show ?thesis
      by (intro exI [of _ "[e]"]) (auto simp: has_handled_def waiting_def List.map_filter_def)
  next
    case False
    with published have "nd_origin (ns ! i) \<noteq> nd_origin (ns ! j)"
      by (auto simp: nodes_ok_def distinct_conv_nth)
    with False published m show ?thesis
      by (intro exI [of _ "[]"]) (auto simp: has_handled_def waiting_def List.map_filter_def)
  qed
next
  case (took i ns m ms n)
  then have "m \<noteq> Some JNull" by (metis not_null)
  with took have n: "n = (case heard (nd_origin (ns ! i)) m of None \<Rightarrow> (ns ! i)\<lparr>nd_inbox := ms\<rparr>
      | Some e \<Rightarrow> (ns ! i)\<lparr>nd_inbox := ms, nd_state := publish e (nd_hub (ns ! i)) (nd_state (ns ! i))\<rparr>)"
    by (simp add: on_message_heard split: option.splits)
  show ?case
  proof (cases "i = j")
    case True
    with took n show ?thesis
      by (intro exI [of _ "case heard (nd_origin (ns ! i)) m of None \<Rightarrow> [] | Some e \<Rightarrow> [e]"])
        (auto simp: has_handled_def waiting_def map_filter_simps split: option.splits)
  qed (use took in \<open>auto simp: has_handled_def intro: exI [of _ "[]"]\<close>)
next
  case (passed_on i ns m ms m' n js)
  then have "m \<noteq> Some JNull" by (metis not_null)
  with passed_on show ?case by (simp add: on_message_heard)
next
  case (threw i ns m ms err)
  then have "m \<noteq> Some JNull" by (metis not_null)
  with threw show ?case by (simp add: on_message_heard)
qed

lemma origins_deliver [simp]: "map nd_origin (deliver js m ns) = map nd_origin ns"
  by (intro nth_equalityI) auto

lemma step_keeps:
  assumes "bridge_step ns x ns'" "nodes_ok ns"
  shows "length ns' = length ns" "nodes_ok ns'"
proof -
  show len: "length ns' = length ns" using assms(1) by (cases rule: bridge_step.cases) auto
  have step: "\<exists>es. has_handled (ns ! j) es (ns' ! j)" if "j < length ns" for j using step_handles [OF assms that] by blast
  have "map nd_origin ns' = map nd_origin ns"
    using len step by (intro nth_equalityI) (auto simp: has_handled_def)
  moreover have "Some JNull \<notin> set (nd_inbox (ns' ! j))" if j: "j < length ns" for j
  proof -
    from assms(2) j have old: "Some JNull \<notin> set (nd_inbox (ns ! j))" by (simp add: nodes_ok_def)
    from assms(1) show ?thesis
    proof (cases rule: bridge_step.cases)
      case (published i e m n js)
      with old j show ?thesis by (cases "i = j") (auto simp: hub_publish_def broadcast_message_def)
    next
      case (took i m ms n)
      then have n: "nd_inbox n = ms" using not_null [OF assms(2) took(3,4)]
        by (auto simp: on_message_heard split: option.splits)
      with old j took show ?thesis by (cases "i = j") auto
    next
      case (passed_on i m ms m' n js)
      with not_null [OF assms(2) passed_on(3,4)] show ?thesis by (simp add: on_message_heard)
    next
      case (threw i m ms err)
      with not_null [OF assms(2) threw(3,4)] show ?thesis by (simp add: on_message_heard)
    qed
  qed
  ultimately show "nodes_ok ns'" using assms(2) len by (auto simp: nodes_ok_def in_set_conv_nth)
qed

lemma run_keeps: "bridge_run ns xs ns' \<Longrightarrow> nodes_ok ns \<Longrightarrow> length ns' = length ns \<and> nodes_ok ns'"
  by (induction rule: bridge_run.induct) (auto simp: step_keeps)

lemma has_handled_append: "has_handled n es n' \<Longrightarrow> has_handled n' fs n'' \<Longrightarrow> has_handled n (es @ fs) n''"
  by (simp add: has_handled_def)

lemma run_handles:
  assumes "bridge_run ns xs ns'" "nodes_ok ns" "j < length ns"
  shows "\<exists>es. has_handled (ns ! j) es (ns' ! j)
    \<and> mset es + mset (waiting (ns' ! j)) = mset (waiting (ns ! j)) + mset (concat (map (due j) xs))"
  using assms
proof (induction rule: bridge_run.induct)
  case (start ns)
  show ?case by (intro exI [of _ "[]"]) (simp add: has_handled_def)
next
  case (more_steps ns xs ns' x ns'')
  then obtain es where es: "has_handled (ns ! j) es (ns' ! j)"
    "mset es + mset (waiting (ns' ! j)) = mset (waiting (ns ! j)) + mset (concat (map (due j) xs))" by blast
  from more_steps run_keeps have "nodes_ok ns'" "j < length ns'" by metis+
  then obtain fs where fs: "has_handled (ns' ! j) fs (ns'' ! j)"
    "mset fs + mset (waiting (ns'' ! j)) = mset (waiting (ns' ! j)) + mset (due j x)"
    using step_handles [OF more_steps(2)] by blast
  have "mset (es @ fs) + mset (waiting (ns'' ! j)) = mset es + (mset fs + mset (waiting (ns'' ! j)))" by simp
  also have "\<dots> = mset (waiting (ns ! j)) + mset (concat (map (due j) (xs @ [x])))"
    using es(2) fs(2) by (simp flip: add.assoc)
  finally show ?case using has_handled_append [OF es(1) fs(1)] by blast
qed

text \<open>C38. However the processes publish and take messages, each process handles every event it published and every event of
  another process whose message reached it, each of them once, and nothing else: a process ignores its own messages and
  passes nothing on. What it has not handled yet are the messages that still wait on its connection.\<close>

theorem bridged_revocations:
  assumes "bridge_run ns xs ns'" "nodes_ok ns" "j < length ns" "nd_inbox (ns ! j) = []"
  shows "\<exists>es. has_handled (ns ! j) es (ns' ! j) \<and> mset es + mset (waiting (ns' ! j)) = mset (concat (map (due j) xs))"
  using run_handles [OF assms(1-3)] assms(4) by (simp add: waiting_def map_filter_simps)

definition demo_node :: "string \<Rightarrow> revocation_event list node" where
  "demo_node origin = \<lparr>nd_origin = origin, nd_hub = [(0, \<lambda>e es. Inr (es @ [e]))], nd_state = [], nd_inbox = []\<rparr>"

theorem bridged_revocations_witness:
  "\<exists>ns'. bridge_run [demo_node ''a'', demo_node ''b''] [Published 0 (Grant_revoked ''g'') {0, 1}, Took 1, Took 0] ns'
    \<and> nd_state (ns' ! 1) = [Grant_revoked ''g''] \<and> nd_state (ns' ! 0) = [Grant_revoked ''g'']"
proof -
  let ?e = "Grant_revoked ''g''" and ?ns = "[demo_node ''a'', demo_node ''b'']"
  let ?m = "Some (broadcast_message ''a'' ?e)"
  let ?a = "(demo_node ''a'')\<lparr>nd_state := [?e]\<rparr>" and ?b = "(demo_node ''b'')\<lparr>nd_state := [?e]\<rparr>"
  let ?xs = "[Published 0 ?e {0, 1}, Took 1, Took 0]"
  have "bridge_step ?ns (Published 0 ?e {0, 1}) [?a\<lparr>nd_inbox := [?m]\<rparr>, demo_node ''b''\<lparr>nd_inbox := [?m]\<rparr>]"
    using bridge_step.published [of 0 ?ns ?e "broadcast_message ''a'' ?e" ?a "{0, 1}"]
    by (simp add: hub_publish_def publish_def demo_node_def deliver_def)
  moreover have "bridge_step [?a\<lparr>nd_inbox := [?m]\<rparr>, demo_node ''b''\<lparr>nd_inbox := [?m]\<rparr>] (Took 1) [?a\<lparr>nd_inbox := [?m]\<rparr>, ?b]"
    using bridge_step.took [of 1 "[?a\<lparr>nd_inbox := [?m]\<rparr>, demo_node ''b''\<lparr>nd_inbox := [?m]\<rparr>]" ?m "[]" ?b]
    by (simp add: on_message_heard broadcast_message_def [of "''a''"] heard_def event_of_def publish_def demo_node_def)
  moreover have "bridge_step [?a\<lparr>nd_inbox := [?m]\<rparr>, ?b] (Took 0) [?a, ?b]"
    using bridge_step.took [of 0 "[?a\<lparr>nd_inbox := [?m]\<rparr>, ?b]" ?m "[]" ?a]
    by (simp add: on_message_heard broadcast_message_def [of "''a''"] heard_def event_of_def demo_node_def)
  ultimately have run: "bridge_run ?ns ?xs [?a, ?b]"
    using bridge_run.more_steps [OF bridge_run.more_steps [OF bridge_run.more_steps [OF bridge_run.start]]] by fastforce
  have ok: "nodes_ok ?ns" by (simp add: nodes_ok_def demo_node_def)
  have "mset (nd_state ([?a, ?b] ! j)) = {#?e#}" if "j < 2" for j
  proof -
    have inbox: "nd_inbox (?ns ! j) = []" "nd_state (?ns ! j) = []" "nd_hub (?ns ! j) = [(0, \<lambda>e es. Inr (es @ [e]))]"
      "waiting ([?a, ?b] ! j) = []"
      using that by (cases j; auto simp: demo_node_def waiting_def map_filter_simps)+
    have j: "j < length ?ns" using that by simp
    obtain es where es: "has_handled (?ns ! j) es ([?a, ?b] ! j)" "mset es = mset (concat (map (due j) ?xs))"
      using bridged_revocations [OF run ok j inbox(1)] unfolding inbox(4) by auto
    have "fold (\<lambda>e. publish e [(0, \<lambda>e es. Inr (es @ [e]))]) es s = s @ es" for s
      by (induction es arbitrary: s) (simp_all add: publish_def)
    with es inbox have "nd_state ([?a, ?b] ! j) = es" by (simp add: has_handled_def)
    with es(2) that show ?thesis by (cases "j = 0") auto
  qed
  from this [of 0] this [of 1] have "nd_state ?b = [?e]" "nd_state ?a = [?e]" by simp_all
  with run show ?thesis by (intro exI [of _ "[?a, ?b]"]) simp
qed

end
