(* ===== verification/Migrations.thy ===== *)
theory Migrations
  imports Prelude
begin

text \<open>
  \<open>migrate\<close> of \<open>server/src/db/index.ts\<close>, run by any number of processes that start at once against one server. A process
  is at a statement of its program; its statements, its commits and its end are the steps of the relation. Statements in a
  transaction see what is committed and their effects become visible when it commits. \<open>pg_advisory_xact_lock\<close> waits until
  no other transaction holds the lock and gives it up with the transaction, also when the process dies. What the SQL of a
  migration does is left open: a migration is its name, and the schema is the list of those whose SQL has taken effect.
\<close>

section \<open>The program of one process\<close>

text \<open>\<open>MIGRATIONS\<close>, by name.\<close>

definition migrations :: "string list" where
  "migrations = [''001_schema'']"

text \<open>
  Transaction 0 makes the table of names, transaction \<open>k + 1\<close> is the one of the migration \<open>k\<close>. Inside a transaction: the
  lock is held; the table is made; the name was found; the name was not found; the SQL was run; the name was recorded.
\<close>

datatype work = Locked | Table_made | Found | Missing | Ran | Recorded

datatype phase = Before nat | Inside nat work | Finished | Dead

record migrating =
  mg_phase :: "nat \<Rightarrow> phase"
  mg_lock :: "nat option"
  mg_table :: bool
  mg_names :: "string list"
  mg_schema :: "string list"

abbreviation goes :: "nat \<Rightarrow> phase \<Rightarrow> migrating \<Rightarrow> migrating" where
  "goes i p s \<equiv> s\<lparr>mg_phase := (mg_phase s)(i := p)\<rparr>"

abbreviation commits :: "nat \<Rightarrow> nat \<Rightarrow> migrating \<Rightarrow> migrating" where
  "commits i k s \<equiv> s\<lparr>mg_phase := (mg_phase s)(i := Before (Suc k)), mg_lock := None\<rparr>"

inductive migrate_step :: "string list \<Rightarrow> migrating \<Rightarrow> nat \<Rightarrow> migrating \<Rightarrow> bool" for ms where
  lock: "mg_phase s i = Before k \<Longrightarrow> k \<le> length ms \<Longrightarrow> mg_lock s = None \<Longrightarrow>
     migrate_step ms s i (goes i (Inside k Locked) (s\<lparr>mg_lock := Some i\<rparr>))"
| create_table: "mg_phase s i = Inside 0 Locked \<Longrightarrow> migrate_step ms s i (goes i (Inside 0 Table_made) s)"
| commit_table: "mg_phase s i = Inside 0 Table_made \<Longrightarrow> migrate_step ms s i (commits i 0 s\<lparr>mg_table := True\<rparr>)"
| select_row: "mg_phase s i = Inside (Suc k) Locked \<Longrightarrow> ms ! k \<in> set (mg_names s) \<Longrightarrow>
     migrate_step ms s i (goes i (Inside (Suc k) Found) s)"
| select_nothing: "mg_phase s i = Inside (Suc k) Locked \<Longrightarrow> ms ! k \<notin> set (mg_names s) \<Longrightarrow>
     migrate_step ms s i (goes i (Inside (Suc k) Missing) s)"
| return_early: "mg_phase s i = Inside (Suc k) Found \<Longrightarrow> migrate_step ms s i (commits i (Suc k) s)"
| run_sql: "mg_phase s i = Inside (Suc k) Missing \<Longrightarrow> migrate_step ms s i (goes i (Inside (Suc k) Ran) s)"
| insert_name: "mg_phase s i = Inside (Suc k) Ran \<Longrightarrow> migrate_step ms s i (goes i (Inside (Suc k) Recorded) s)"
| commit_migration: "mg_phase s i = Inside (Suc k) Recorded \<Longrightarrow>
     migrate_step ms s i (commits i (Suc k) s\<lparr>mg_names := mg_names s @ [ms ! k], mg_schema := mg_schema s @ [ms ! k]\<rparr>)"
| return: "mg_phase s i = Before (Suc (length ms)) \<Longrightarrow> migrate_step ms s i (goes i Finished s)"
| die: "mg_phase s i \<notin> {Finished, Dead} \<Longrightarrow>
     migrate_step ms s i (goes i Dead (s\<lparr>mg_lock := if mg_lock s = Some i then None else mg_lock s\<rparr>))"

text \<open>At the start every process is before its first transaction, and the database is empty or at an earlier version.\<close>

definition started :: "string list \<Rightarrow> migrating \<Rightarrow> bool" where
  "started ms s \<longleftrightarrow> (\<forall>i. mg_phase s i = Before 0) \<and> mg_lock s = None \<and> mg_schema s = mg_names s
     \<and> (\<exists>n \<le> length ms. mg_names s = take n ms)"

inductive migrate_run :: "string list \<Rightarrow> migrating \<Rightarrow> migrating \<Rightarrow> bool" for ms where
  at_start: "started ms s \<Longrightarrow> migrate_run ms s s"
| goes_on: "migrate_run ms s0 s \<Longrightarrow> migrate_step ms s i s' \<Longrightarrow> migrate_run ms s0 s'"

text \<open>One process alone, without interleaving: the function \<open>migrate\<close>.\<close>

definition migrate_one :: "string \<Rightarrow> string list \<times> string list \<Rightarrow> string list \<times> string list" where
  "migrate_one m db = (if m \<in> set (fst db) then db else (fst db @ [m], snd db @ [m]))"

definition migrate :: "string list \<Rightarrow> string list \<times> string list \<Rightarrow> string list \<times> string list" where
  "migrate ms db = fold migrate_one ms db"

section \<open>The invariant\<close>

text \<open>What a process at \<open>p\<close> may rely on when \<open>n\<close> migrations are committed.\<close>

fun phase_ok :: "string list \<Rightarrow> nat \<Rightarrow> bool \<Rightarrow> phase \<Rightarrow> bool" where
  "phase_ok ms n tbl (Before 0) \<longleftrightarrow> True"
| "phase_ok ms n tbl (Before (Suc k)) \<longleftrightarrow> k \<le> n \<and> tbl"
| "phase_ok ms n tbl (Inside 0 w) \<longleftrightarrow> w \<in> {Locked, Table_made}"
| "phase_ok ms n tbl (Inside (Suc k) Locked) \<longleftrightarrow> k < length ms \<and> k \<le> n \<and> tbl"
| "phase_ok ms n tbl (Inside (Suc k) Found) \<longleftrightarrow> k < n \<and> tbl"
| "phase_ok ms n tbl (Inside (Suc k) Table_made) \<longleftrightarrow> False"
| "phase_ok ms n tbl (Inside (Suc k) w) \<longleftrightarrow> k < length ms \<and> k = n \<and> tbl"
| "phase_ok ms n tbl Finished \<longleftrightarrow> n = length ms \<and> tbl"
| "phase_ok ms n tbl Dead \<longleftrightarrow> True"

fun inside :: "phase \<Rightarrow> bool" where
  "inside (Inside k w) \<longleftrightarrow> True"
| "inside _ \<longleftrightarrow> False"

definition migrating_ok :: "string list \<Rightarrow> nat \<Rightarrow> migrating \<Rightarrow> bool" where
  "migrating_ok ms n s \<longleftrightarrow> n \<le> length ms \<and> mg_names s = take n ms \<and> mg_schema s = take n ms
     \<and> (\<forall>i. inside (mg_phase s i) \<longleftrightarrow> mg_lock s = Some i) \<and> (\<forall>i. phase_ok ms n (mg_table s) (mg_phase s i))"

lemma phase_ok_outside:
  "\<not> inside p \<Longrightarrow> phase_ok ms n tbl p \<Longrightarrow> n \<le> n' \<Longrightarrow> n' \<le> length ms \<Longrightarrow> (tbl \<Longrightarrow> tbl') \<Longrightarrow> phase_ok ms n' tbl' p"
  by (cases "(ms, n, tbl, p)" rule: phase_ok.cases) auto

lemma name_applied: "distinct ms \<Longrightarrow> k < length ms \<Longrightarrow> n \<le> length ms \<Longrightarrow> ms ! k \<in> set (take n ms) \<longleftrightarrow> k < n"
  by (auto simp: in_set_conv_nth nth_eq_iff_index_eq)

text \<open>The others are outside while one process is inside, so a step of that process can only help them.\<close>

lemma others_keep:
  assumes "migrating_ok ms n s" "\<And>j. j \<noteq> i \<Longrightarrow> mg_phase s' j = mg_phase s j" "mg_lock s = Some i \<or> mg_table s' = mg_table s \<and> n' = n"
    "n \<le> n'" "n' \<le> length ms" "mg_table s \<Longrightarrow> mg_table s'" "mg_names s' = take n' ms" "mg_schema s' = take n' ms"
    "inside (mg_phase s' i) \<longleftrightarrow> mg_lock s' = Some i" "phase_ok ms n' (mg_table s') (mg_phase s' i)"
    "mg_lock s' = (if inside (mg_phase s' i) then Some i else if mg_lock s = Some i then None else mg_lock s)"
    "inside (mg_phase s' i) \<Longrightarrow> mg_lock s = None \<or> mg_lock s = Some i"
  shows "migrating_ok ms n' s'"
proof -
  have "phase_ok ms n' (mg_table s') (mg_phase s j)" if "j \<noteq> i" for j
  proof (cases "mg_lock s = Some i")
    case True
    with that assms(1) have "\<not> inside (mg_phase s j)" by (simp add: migrating_ok_def)
    moreover have "phase_ok ms n (mg_table s) (mg_phase s j)" using assms(1) by (simp add: migrating_ok_def)
    ultimately show ?thesis using assms(4-6) by (rule phase_ok_outside)
  next
    case False
    with assms(3) have "mg_table s' = mg_table s" "n' = n" by simp_all
    with assms(1) show ?thesis by (simp add: migrating_ok_def)
  qed
  then have "\<forall>j. phase_ok ms n' (mg_table s') (mg_phase s' j)" using assms(2,10) by metis
  moreover have "inside (mg_phase s' j) \<longleftrightarrow> mg_lock s' = Some j" for j
  proof (cases "j = i")
    case False
    have "inside (mg_phase s j) \<longleftrightarrow> mg_lock s = Some j" using assms(1) by (simp add: migrating_ok_def)
    with False assms(2) [OF False] assms(11,12) show ?thesis by (cases "inside (mg_phase s' i)") auto
  qed (use assms(9) in simp)
  ultimately show ?thesis using assms(5,7,8) by (simp add: migrating_ok_def)
qed

lemma migrate_step_ok:
  assumes "migrate_step ms s i s'" "migrating_ok ms n s" "distinct ms"
  shows "\<exists>n'. migrating_ok ms n' s' \<and> n \<le> n'"
proof -
  note ok = assms(2) [unfolded migrating_ok_def]
  then have n: "n \<le> length ms" "mg_names s = take n ms" "mg_schema s = take n ms"
    and l: "inside (mg_phase s i) \<longleftrightarrow> mg_lock s = Some i" and p: "phase_ok ms n (mg_table s) (mg_phase s i)" by simp_all
  show ?thesis using assms(1)
  proof cases
    case (lock k)
    with p n l show ?thesis
      by (intro exI [of _ n] conjI others_keep [OF assms(2), where i = i]) (cases k; simp)+
  next
    case (commit_migration k)
    with p n have "migrating_ok ms (Suc n) s'"
      by (intro others_keep [OF assms(2), where i = i]) (auto simp: take_Suc_conv_app_nth l [unfolded commit_migration(2), simplified])
    then show ?thesis by auto
  next
    case create_table
    with p n l have "migrating_ok ms n s'" by (intro others_keep [OF assms(2), where i = i]) simp_all
    then show ?thesis by blast
  next
    case commit_table
    with p n l have "migrating_ok ms n s'" by (intro others_keep [OF assms(2), where i = i]) simp_all
    then show ?thesis by blast
  next
    case (select_row k)
    with p n have "k < n" using name_applied [OF assms(3), of k n] by simp
    with select_row p n l have "migrating_ok ms n s'" by (intro others_keep [OF assms(2), where i = i]) simp_all
    then show ?thesis by blast
  next
    case (select_nothing k)
    with p n have "k = n" using name_applied [OF assms(3), of k n] by simp
    with select_nothing p n l have "migrating_ok ms n s'" by (intro others_keep [OF assms(2), where i = i]) simp_all
    then show ?thesis by blast
  next
    case (return_early k)
    with p n l have "migrating_ok ms n s'" by (intro others_keep [OF assms(2), where i = i]) simp_all
    then show ?thesis by blast
  next
    case (run_sql k)
    with p n l have "migrating_ok ms n s'" by (intro others_keep [OF assms(2), where i = i]) simp_all
    then show ?thesis by blast
  next
    case (insert_name k)
    with p n l have "migrating_ok ms n s'" by (intro others_keep [OF assms(2), where i = i]) simp_all
    then show ?thesis by blast
  next
    case return
    with p n l have "migrating_ok ms n s'" by (intro others_keep [OF assms(2), where i = i]) simp_all
    then show ?thesis by blast
  next
    case die
    with p n l have "migrating_ok ms n s'" by (intro others_keep [OF assms(2), where i = i]) simp_all
    then show ?thesis by blast
  qed
qed

lemma started_ok:
  assumes "started ms s"
  shows "\<exists>n. migrating_ok ms n s"
proof -
  obtain n where "n \<le> length ms" "mg_names s = take n ms" using assms by (auto simp: started_def)
  with assms have "migrating_ok ms n s" by (simp add: started_def migrating_ok_def)
  then show ?thesis ..
qed

lemma run_ok: "migrate_run ms s0 s \<Longrightarrow> distinct ms \<Longrightarrow> \<exists>n. migrating_ok ms n s"
  by (induction rule: migrate_run.induct) (use started_ok migrate_step_ok in blast)+

lemma run_started: "migrate_run ms s0 s \<Longrightarrow> started ms s0"
  by (induction rule: migrate_run.induct)

section \<open>One after the other\<close>

lemma migrate_one_new: "m \<notin> set (fst db) \<Longrightarrow> migrate_one m db = (fst db @ [m], snd db @ [m])"
  by (simp add: migrate_one_def)

lemma migrate_known: "set ms \<subseteq> set (fst db) \<Longrightarrow> migrate ms db = db"
  by (induction ms) (simp_all add: migrate_def migrate_one_def)

lemma migrate_unknown: "distinct ms \<Longrightarrow> set ms \<inter> set (fst db) = {} \<Longrightarrow> migrate ms db = (fst db @ ms, snd db @ ms)"
proof (induction ms arbitrary: db)
  case (Cons m ms)
  then have "migrate ms (fst db @ [m], snd db @ [m]) = ((fst db @ [m]) @ ms, (snd db @ [m]) @ ms)" by (intro Cons.IH [THEN trans]) auto
  with Cons.prems show ?case by (simp add: migrate_def migrate_one_new)
qed (simp add: migrate_def)

lemma migrate_append: "migrate (xs @ ys) db = migrate ys (migrate xs db)"
  by (simp add: migrate_def)

lemma migrate_prefix:
  assumes "distinct ms"
  shows "migrate ms (take n ms, take n ms) = (ms, ms)"
proof -
  have "migrate ms (take n ms, take n ms) = migrate (drop n ms) (migrate (take n ms) (take n ms, take n ms))"
    by (simp flip: migrate_append)
  also have "\<dots> = migrate (drop n ms) (take n ms, take n ms)" by (simp add: migrate_known)
  also have "\<dots> = (take n ms @ drop n ms, take n ms @ drop n ms)"
    using assms set_take_disj_set_drop_if_distinct [of ms n n] by (subst migrate_unknown) auto
  finally show ?thesis by simp
qed

lemma migrations_in_order:
  assumes "migrate_run ms s0 s" "distinct ms"
  shows "\<exists>n. mg_names s = take n ms \<and> mg_schema s = take n ms"
    and "mg_phase s i = Finished \<Longrightarrow> mg_schema s = ms \<and> (mg_names s, mg_schema s) = migrate ms (mg_names s0, mg_schema s0)"
proof -
  obtain n where n: "migrating_ok ms n s" using run_ok [OF assms] ..
  then show "\<exists>n. mg_names s = take n ms \<and> mg_schema s = take n ms" by (auto simp: migrating_ok_def)
  obtain n0 where "mg_names s0 = take n0 ms" "mg_schema s0 = take n0 ms"
    using run_started [OF assms(1)] by (auto simp: started_def)
  moreover assume "mg_phase s i = Finished"
  with n have "phase_ok ms n (mg_table s) Finished" unfolding migrating_ok_def by metis
  then have "n = length ms" by simp
  ultimately show "mg_schema s = ms \<and> (mg_names s, mg_schema s) = migrate ms (mg_names s0, mg_schema s0)"
    using n assms(2) by (simp add: migrate_prefix migrating_ok_def)
qed

text \<open>C32. Processes that start at once apply every migration once and in order, as one process alone would. In every state,
  however their statements are interleaved and whichever of them die, the migrations in effect are the recorded ones and a
  beginning of the list; and when a process goes on to serve, all of them are, which is what \<open>migrate\<close> makes of the database
  there was.\<close>

theorem migrations_serialise:
  assumes "migrate_run ms s0 s" "distinct ms"
  shows "(\<exists>n. mg_names s = take n ms \<and> mg_schema s = take n ms)
    \<and> (mg_phase s i = Finished \<longrightarrow> mg_schema s = ms \<and> (mg_names s, mg_schema s) = migrate ms (mg_names s0, mg_schema s0))"
  using migrations_in_order [OF assms] by blast

section \<open>Every process gets there\<close>

fun stage :: "work \<Rightarrow> nat" where
  "stage Locked = 1"
| "stage Table_made = 2"
| "stage Found = 2"
| "stage Missing = 2"
| "stage Ran = 3"
| "stage Recorded = 4"

text \<open>How many statements a process still has before it, at most.\<close>

fun steps_left :: "string list \<Rightarrow> phase \<Rightarrow> nat" where
  "steps_left ms (Before k) = (length ms + 2 - k) * 6"
| "steps_left ms (Inside k w) = (length ms + 2 - k) * 6 - stage w"
| "steps_left ms Finished = 0"
| "steps_left ms Dead = 0"

lemma fewer_left:
  assumes "migrate_step ms s i s'" "migrating_ok ms n s"
  shows "steps_left ms (mg_phase s' i) < steps_left ms (mg_phase s i)"
proof -
  have p: "phase_ok ms n (mg_table s) (mg_phase s i)" "n \<le> length ms" using assms(2) by (simp_all add: migrating_ok_def)
  show ?thesis using assms(1)
  proof cases
    case die
    with p show ?thesis
      by (cases "(ms, n, mg_table s, mg_phase s i)" rule: phase_ok.cases) (auto simp: Suc_diff_le)
  qed (use p in \<open>auto simp: Suc_diff_le\<close>)
qed

lemma can_step:
  assumes "migrating_ok ms n s" "mg_phase s i \<notin> {Finished, Dead}" "mg_lock s = None \<or> mg_lock s = Some i"
  shows "\<exists>s'. migrate_step ms s i s' \<and> mg_phase s' i \<noteq> Dead"
proof -
  have l: "inside (mg_phase s i) \<longleftrightarrow> mg_lock s = Some i" and p: "phase_ok ms n (mg_table s) (mg_phase s i)" "n \<le> length ms"
    using assms(1) by (simp_all add: migrating_ok_def)
  show ?thesis
  proof (cases "mg_phase s i")
    case (Before k)
    then show ?thesis
    proof (cases "k \<le> length ms")
      case True
      with Before l assms(3) migrate_step.lock [of s i k ms] show ?thesis by fastforce
    next
      case False
      with Before p have "k = Suc (length ms)" by (cases k) auto
      with Before migrate_step.return [of s i ms] show ?thesis by fastforce
    qed
  next
    case (Inside k w)
    have "\<exists>s'. migrate_step ms s i s' \<and> (\<exists>p. mg_phase s' = (mg_phase s)(i := p) \<and> p \<noteq> Dead)"
    proof (cases k)
      case 0
      with Inside p have "w = Locked \<or> w = Table_made" by auto
      then show ?thesis
      proof
        assume "w = Locked"
        with Inside 0 show ?thesis using migrate_step.create_table [of s i ms] by fastforce
      next
        assume "w = Table_made"
        with Inside 0 show ?thesis using migrate_step.commit_table [of s i ms] by fastforce
      qed
    next
      case (Suc j)
      show ?thesis
      proof (cases w)
        case Locked
        with Inside Suc show ?thesis using migrate_step.select_row [of s i j ms] migrate_step.select_nothing [of s i j ms]
          by (cases "ms ! j \<in> set (mg_names s)") fastforce+
      next
        case Found
        with Inside Suc show ?thesis using migrate_step.return_early [of s i j ms] by fastforce
      next
        case Missing
        with Inside Suc show ?thesis using migrate_step.run_sql [of s i j ms] by fastforce
      next
        case Ran
        with Inside Suc show ?thesis using migrate_step.insert_name [of s i j ms] by fastforce
      next
        case Recorded
        with Inside Suc show ?thesis using migrate_step.commit_migration [of s i j ms] by fastforce
      qed (use Inside Suc p in simp)
    qed
    then show ?thesis by auto
  qed (use assms(2) in simp_all)
qed

definition in_the_way :: "string list \<Rightarrow> nat \<Rightarrow> migrating \<Rightarrow> nat" where
  "in_the_way ms i s = (case mg_lock s of Some j \<Rightarrow> if j = i then 0 else steps_left ms (mg_phase s j) | None \<Rightarrow> 0)"

text \<open>A step changes its own process only, and takes or gives up the lock only for it.\<close>

lemma step_frame:
  "migrate_step ms s j s' \<Longrightarrow> (\<forall>i. i \<noteq> j \<longrightarrow> mg_phase s' i = mg_phase s i)
    \<and> (mg_lock s' = mg_lock s \<or> mg_lock s' = None \<or> mg_lock s' = Some j)"
  by (induction rule: migrate_step.induct) auto

lemma completes:
  "migrating_ok ms n s \<Longrightarrow> distinct ms \<Longrightarrow> mg_phase s i \<noteq> Dead \<Longrightarrow>
   \<exists>s'. rtranclp (\<lambda>s s'. \<exists>j. migrate_step ms s j s') s s' \<and> mg_phase s' i = Finished"
proof (induction "steps_left ms (mg_phase s i) + in_the_way ms i s" arbitrary: s n rule: less_induct)
  case less
  show ?case
  proof (cases "mg_phase s i = Finished")
    case False
    define j where "j = (case mg_lock s of Some j \<Rightarrow> j | None \<Rightarrow> i)"
    have "inside (mg_phase s j)" if "mg_lock s \<noteq> None"
      using less(2) that by (auto simp: migrating_ok_def j_def)
    then have "mg_phase s j \<notin> {Finished, Dead}" "mg_lock s = None \<or> mg_lock s = Some j"
      using False less(4) by (cases "mg_lock s"; auto simp: j_def)+
    from can_step [OF less(2) this] obtain s1 where s1: "migrate_step ms s j s1" "mg_phase s1 j \<noteq> Dead" by blast
    obtain n1 where n1: "migrating_ok ms n1 s1" using migrate_step_ok [OF s1(1) less(2,3)] by blast
    have fewer: "steps_left ms (mg_phase s1 j) < steps_left ms (mg_phase s j)" using fewer_left [OF s1(1) less(2)] .
    have frame: "\<And>i. i \<noteq> j \<Longrightarrow> mg_phase s1 i = mg_phase s i" "mg_lock s1 = mg_lock s \<or> mg_lock s1 = None \<or> mg_lock s1 = Some j"
      using step_frame [OF s1(1)] by blast+
    have "mg_phase s1 i \<noteq> Dead" using s1(2) frame(1) less(4) by (cases "i = j") auto
    moreover have "steps_left ms (mg_phase s1 i) + in_the_way ms i s1 < steps_left ms (mg_phase s i) + in_the_way ms i s"
    proof (cases "j = i")
      case True
      then have "in_the_way ms i s1 = 0" using frame(2) by (auto simp: in_the_way_def j_def split: option.splits if_splits)
      with fewer True show ?thesis by simp
    next
      case False
      then have "mg_lock s = Some j" by (auto simp: j_def split: option.splits)
      then have "in_the_way ms i s1 \<le> steps_left ms (mg_phase s1 j)" "in_the_way ms i s = steps_left ms (mg_phase s j)"
        using frame(2) False by (auto simp: in_the_way_def)
      with fewer frame(1) [of i] False show ?thesis by simp
    qed
    ultimately obtain s' where "rtranclp (\<lambda>s s'. \<exists>j. migrate_step ms s j s') s1 s'" "mg_phase s' i = Finished"
      using less(1) [OF _ n1 less(3)] by blast
    moreover have "\<exists>j. migrate_step ms s j s1" using s1(1) ..
    ultimately have "rtranclp (\<lambda>s s'. \<exists>j. migrate_step ms s j s') s s'" by (metis (mono_tags, lifting) converse_rtranclp_into_rtranclp)
    with \<open>mg_phase s' i = Finished\<close> show ?thesis by blast
  qed blast
qed

lemma gets_to_its_end:
  assumes "migrate_run ms s0 s" "distinct ms"
  shows "mg_phase s i \<noteq> Dead \<Longrightarrow>
      \<exists>s'. rtranclp (\<lambda>s s'. \<exists>j. migrate_step ms s j s') s s' \<and> mg_phase s' i = Finished"
    and "migrate_step ms s j s' \<Longrightarrow> steps_left ms (mg_phase s' j) < steps_left ms (mg_phase s j)"
proof -
  obtain n where "migrating_ok ms n s" using run_ok [OF assms] ..
  note n = this
  show "migrate_step ms s j s' \<Longrightarrow> steps_left ms (mg_phase s' j) < steps_left ms (mg_phase s j)"
    using n by (rule fewer_left [rotated])
  show "mg_phase s i \<noteq> Dead \<Longrightarrow> \<exists>s'. rtranclp (\<lambda>s s'. \<exists>j. migrate_step ms s j s') s s' \<and> mg_phase s' i = Finished"
    using completes [OF n assms(2)] .
qed

text \<open>C33. Starting up cannot get stuck: whatever the others did, were in the middle of or died at, a living process can still
  get to its end; and the statements a process has before it become fewer with every one, so none goes on for ever.\<close>

theorem migration_completes:
  assumes "migrate_run ms s0 s" "distinct ms"
  shows "(mg_phase s i \<noteq> Dead \<longrightarrow>
      (\<exists>s'. rtranclp (\<lambda>s s'. \<exists>j. migrate_step ms s j s') s s' \<and> mg_phase s' i = Finished))
    \<and> (migrate_step ms s j s' \<longrightarrow> steps_left ms (mg_phase s' j) < steps_left ms (mg_phase s j))"
  using gets_to_its_end [OF assms] by blast

section \<open>The migrations there are\<close>

definition demo_start :: migrating where
  "demo_start = \<lparr>mg_phase = \<lambda>i. Before 0, mg_lock = None, mg_table = False, mg_names = [], mg_schema = []\<rparr>"

lemma demo_started: "migrate_run migrations demo_start demo_start"
  by (rule migrate_run.at_start) (simp add: started_def demo_start_def, metis zero_le)

lemma migrations_distinct: "distinct migrations"
  by (simp add: migrations_def)

text \<open>Two processes, the first of which dies while it holds the lock: the second gets to its end.\<close>

lemma demo_dies:
  "migrate_run migrations demo_start (demo_start\<lparr>mg_phase := (mg_phase demo_start)(0 := Dead)\<rparr>)"
proof -
  have "migrate_run migrations demo_start (goes 0 (Inside 0 Locked) (demo_start\<lparr>mg_lock := Some 0\<rparr>))"
    by (rule goes_on [OF demo_started lock]) (simp_all add: demo_start_def)
  from goes_on [OF this die [of _ 0]] show ?thesis by (simp add: demo_start_def)
qed

theorem migration_completes_witness:
  "\<exists>s'. rtranclp (\<lambda>s s'. \<exists>j. migrate_step migrations s j s') (demo_start\<lparr>mg_phase := (mg_phase demo_start)(0 := Dead)\<rparr>) s'
     \<and> mg_phase s' 1 = Finished"
  using migration_completes [OF demo_dies migrations_distinct, of 1] by (simp add: demo_start_def)

theorem migrations_serialise_witness:
  "\<exists>s. migrate_run migrations demo_start s \<and> mg_phase s 1 = Finished \<and> mg_schema s = [''001_schema'']"
proof -
  obtain n where "migrating_ok migrations n demo_start" using run_ok [OF demo_started migrations_distinct] by blast
  then obtain s where s: "rtranclp (\<lambda>s s'. \<exists>j. migrate_step migrations s j s') demo_start s" "mg_phase s 1 = Finished"
    using completes [of migrations n demo_start 1] migrations_distinct by (auto simp: demo_start_def)
  from s(1) have "migrate_run migrations demo_start s"
    by (induction rule: rtranclp_induct) (use demo_started goes_on in blast)+
  with migrations_serialise [OF _ migrations_distinct] s(2) show ?thesis
    unfolding migrations_def by blast
qed

end
