(* ===== verification/Postgres.thy ===== *)
theory Postgres
  imports Errors Tokens
begin

text \<open>
  The driver for a PostgreSQL server, \<open>server/src/db/pg.ts\<close>, and the choice of the schema in \<open>server/src/db/index.ts\<close>.
  The server is a parameter: \<open>perform\<close> carries out one command on one connection, and \<open>pg_server\<close> states what the manual
  says of transactions on it. A callback that works in a transaction is a program of statements that goes on with the
  answer to each. Reports in the log, the parsers of column types and the timeouts (which are errors the \<open>pg\<close> package
  raises) are left out.
\<close>

section \<open>Errors\<close>

text \<open>What is thrown: an error object of the driver with its code and message, or an error of this program.\<close>

datatype thrown = Driver "string option" string | Program error

fun thrown_code :: "thrown \<Rightarrow> string option" where
  "thrown_code (Driver c m) = c"
| "thrown_code (Program (AppError e)) = Some (code_name (ae_code e))"
| "thrown_code (Program (DbError c)) = Some c"
| "thrown_code (Program _) = None"

fun thrown_message :: "thrown \<Rightarrow> string" where
  "thrown_message (Driver c m) = m"
| "thrown_message (Program (AppError e)) = ae_message e"
| "thrown_message (Program (InternalTokenRefused m)) = m"
| "thrown_message (Program (DpopError c m r)) = m"
| "thrown_message (Program (DbError c)) = []"
| "thrown_message (Program (OtherError m)) = m"

definition unavailable_codes :: "string list" where
  "unavailable_codes = [''ECONNREFUSED'', ''ECONNRESET'', ''ETIMEDOUT'', ''EPIPE'', ''ENOTFOUND'', ''EHOSTUNREACH'',
     ''57P01'', ''57P02'', ''57P03'', ''53300'']"

definition unavailable_messages :: "string list" where
  "unavailable_messages = [''Connection terminated'', ''timeout exceeded when trying to connect'', ''Query read timeout'',
     ''Client has encountered a connection error'']"

text \<open>A pattern of plain letters, matched anywhere and in either case.\<close>

fun occurs_in :: "string \<Rightarrow> string \<Rightarrow> bool" where
  "occurs_in p [] \<longleftrightarrow> p = []"
| "occurs_in p (c # s) \<longleftrightarrow> starts_with p (c # s) \<or> occurs_in p s"

definition unavailable :: "thrown \<Rightarrow> bool" where
  "unavailable e \<longleftrightarrow>
     (case truthy (thrown_code e) of Some c \<Rightarrow> c \<in> set unavailable_codes \<or> starts_with ''08'' c | None \<Rightarrow> False)
     \<or> list_ex (\<lambda>p. occurs_in (to_lower p) (to_lower (thrown_message e))) unavailable_messages"

definition as_service_error :: "thrown \<Rightarrow> thrown" where
  "as_service_error e = (if unavailable e then Program (app_err SERVICE_UNAVAILABLE) else e)"

abbreviation serviced :: "thrown + 'a \<Rightarrow> thrown + 'a" where
  "serviced r \<equiv> map_sum as_service_error id r"

lemma service_error_once: "as_service_error (as_service_error e) = as_service_error e"
proof -
  have "\<not> unavailable (Program (app_err SERVICE_UNAVAILABLE))"
    by (simp add: unavailable_def unavailable_codes_def unavailable_messages_def starts_with_def to_lower_def lower_char_def)
  then show ?thesis by (simp add: as_service_error_def)
qed

section \<open>Commands and connections\<close>

datatype 'q command = Begin | Commit | Rollback | Statement 'q

text \<open>A connection: outside a transaction; in one, with the database as the transaction sees it; in one that a failed
  statement aborted; or lost.\<close>

datatype 'd tx_status = Idle | Active 'd | Aborted | Gone

type_synonym ('q, 'r, 'c, 'd) performer = "'q command \<Rightarrow> 'c \<Rightarrow> 'd \<Rightarrow> (thrown + 'r) \<times> 'c \<times> 'd"

text \<open>
  \<open>sem q w\<close>: the answer to the statement \<open>q\<close> on the database \<open>w\<close> and the database after it, or its error. No law says that a
  command succeeds. \<open>COMMIT\<close> in an aborted transaction is answered as a success and rolls back; where it fails, the
  transaction may have been committed all the same.
\<close>

locale pg_server =
  fixes perform :: "('q, 'r, 'c, 'd) performer" and status :: "'c \<Rightarrow> 'd tx_status" and sem :: "'q \<Rightarrow> 'd \<Rightarrow> thrown + 'r \<times> 'd"
  assumes begins: "perform Begin c d = (Inr r, c', d') \<Longrightarrow> status c = Idle \<Longrightarrow> status c' = Active d \<and> d' = d"
    and begin_fails: "perform Begin c d = (Inl e, c', d') \<Longrightarrow> d' = d"
    and answers: "perform (Statement q) c d = (Inr r, c', d') \<Longrightarrow> status c = Active w \<Longrightarrow>
          d' = d \<and> (\<exists>w'. status c' = Active w' \<and> sem q w = Inr (r, w'))"
    and aborts: "perform (Statement q) c d = (Inl e, c', d') \<Longrightarrow> status c = Active w \<Longrightarrow> d' = d \<and> status c' \<in> {Aborted, Gone}"
    and aborted: "perform (Statement q) c d = (a, c', d') \<Longrightarrow> status c \<in> {Aborted, Gone} \<Longrightarrow>
          isl a \<and> d' = d \<and> status c' \<in> {Aborted, Gone}"
    and commits: "perform Commit c d = (Inr r, c', d') \<Longrightarrow>
          (case status c of Active w \<Rightarrow> d' = w | Aborted \<Rightarrow> d' = d | _ \<Rightarrow> False) \<and> status c' = Idle"
    and commit_fails: "perform Commit c d = (Inl e, c', d') \<Longrightarrow> d' = d \<or> status c = Active d'"
    and rolls_back: "perform Rollback c d = (Inr r, c', d') \<Longrightarrow> d' = d \<and> status c' = Idle"
    and rollback_fails: "perform Rollback c d = (Inl e, c', d') \<Longrightarrow> d' = d"

section \<open>Transactions\<close>

datatype ('q, 'r, 'a) tx_prog =
    Return 'a
  | Throw thrown
  | Query 'q "thrown + 'r \<Rightarrow> ('q, 'r, 'a) tx_prog"

text \<open>The callback on the connection of its transaction; \<open>tx.query\<close> maps errors.\<close>

primrec run_fn :: "('q, 'r, 'c, 'd) performer \<Rightarrow> ('q, 'r, 'a) tx_prog \<Rightarrow> 'c \<Rightarrow> 'd \<Rightarrow> (thrown + 'a) \<times> 'c \<times> 'd" where
  "run_fn perform (Return a) c d = (Inr a, c, d)"
| "run_fn perform (Throw e) c d = (Inl e, c, d)"
| "run_fn perform (Query q k) c d =
     (case perform (Statement q) c d of (r, c', d') \<Rightarrow> run_fn perform (k (serviced r)) c' d')"

text \<open>
  \<open>transaction(fn)\<close> on a pool whose checkout gave a connection or failed: its outcome, the connection with the argument of
  \<open>release\<close>, and the committed database.
\<close>

definition roll_back ::
  "('q, 'r, 'c, 'd) performer \<Rightarrow> thrown \<Rightarrow> 'c \<Rightarrow> 'd \<Rightarrow> (thrown + 'a) \<times> ('c \<times> bool) option \<times> 'd" where
  "roll_back perform e c d =
     (case perform Rollback c d of
        (Inr _, c', d') \<Rightarrow> (Inl (as_service_error e), Some (c', False), d')
      | (Inl _, c', d') \<Rightarrow> (Inl (as_service_error e), Some (c', True), d'))"

definition transaction ::
  "('q, 'r, 'c, 'd) performer \<Rightarrow> thrown + 'c \<Rightarrow> ('q, 'r, 'a) tx_prog \<Rightarrow> 'd \<Rightarrow> (thrown + 'a) \<times> ('c \<times> bool) option \<times> 'd" where
  "transaction perform connected fn d =
     (case connected of
        Inl e \<Rightarrow> (Inl (as_service_error e), None, d)
      | Inr c \<Rightarrow>
          (case perform Begin c d of
             (Inl e, c1, d1) \<Rightarrow> roll_back perform e c1 d1
           | (Inr _, c1, d1) \<Rightarrow>
               (case run_fn perform fn c1 d1 of
                  (Inl e, c2, d2) \<Rightarrow> roll_back perform e c2 d2
                | (Inr outcome, c2, d2) \<Rightarrow>
                    (case perform Commit c2 d2 of
                       (Inl e, c3, d3) \<Rightarrow> roll_back perform e c3 d3
                     | (Inr _, c3, d3) \<Rightarrow> (Inr outcome, Some (c3, False), d3)))))"

text \<open>\<open>db.query\<close>: one statement on a connection of the pool, outside every transaction.\<close>

definition pool_query :: "('q, 'r, 'c, 'd) performer \<Rightarrow> 'q \<Rightarrow> 'c \<Rightarrow> 'd \<Rightarrow> (thrown + 'r) \<times> 'c \<times> 'd" where
  "pool_query perform q c d = (case perform (Statement q) c d of (r, c', d') \<Rightarrow> (serviced r, c', d'))"

section \<open>All or nothing\<close>

text \<open>The callback when every statement succeeds; \<^const>\<open>None\<close> as soon as one does not.\<close>

primrec clean_run :: "('q \<Rightarrow> 'd \<Rightarrow> thrown + 'r \<times> 'd) \<Rightarrow> ('q, 'r, 'a) tx_prog \<Rightarrow> 'd \<Rightarrow> ((thrown + 'a) \<times> 'd) option" where
  "clean_run sem (Return a) w = Some (Inr a, w)"
| "clean_run sem (Throw e) w = Some (Inl e, w)"
| "clean_run sem (Query q k) w = (case sem q w of Inl e \<Rightarrow> None | Inr (r, w') \<Rightarrow> clean_run sem (k (Inr r)) w')"

text \<open>A callback that does not catch the errors of its statements.\<close>

primrec lets_through :: "('q, 'r, 'a) tx_prog \<Rightarrow> bool" where
  "lets_through (Return a) \<longleftrightarrow> True"
| "lets_through (Throw e) \<longleftrightarrow> True"
| "lets_through (Query q k) \<longleftrightarrow> (\<forall>e. k (Inl e) = Throw e) \<and> (\<forall>r. lets_through (k (Inr r)))"

context pg_server begin

lemma run_aborted:
  "run_fn perform fn c d = (res, c', d') \<Longrightarrow> status c \<in> {Aborted, Gone} \<Longrightarrow> d' = d \<and> status c' \<in> {Aborted, Gone}"
proof (induction fn arbitrary: c d)
  case (Query q k)
  obtain a c1 d1 where p: "perform (Statement q) c d = (a, c1, d1)" by (metis prod.exhaust)
  with Query.prems have r: "run_fn perform (k (serviced a)) c1 d1 = (res, c', d')" by simp
  have "d1 = d" "status c1 \<in> {Aborted, Gone}" using aborted [OF p Query.prems(2)] by simp_all
  with Query.IH [OF rangeI r] show ?case by simp
qed simp_all

lemma run_active:
  "run_fn perform fn c d = (res, c', d') \<Longrightarrow> status c = Active w \<Longrightarrow> d' = d \<and>
   (status c' \<in> {Aborted, Gone} \<or> (\<exists>w'. status c' = Active w' \<and> clean_run sem fn w = Some (res, w')))"
proof (induction fn arbitrary: c d w)
  case (Query q k)
  obtain a c1 d1 where p: "perform (Statement q) c d = (a, c1, d1)" by (metis prod.exhaust)
  with Query.prems have r: "run_fn perform (k (serviced a)) c1 d1 = (res, c', d')" by simp
  show ?case
  proof (cases a)
    case (Inl e)
    with p aborts Query.prems(2) have "d1 = d \<and> status c1 \<in> {Aborted, Gone}" by blast
    with run_aborted [OF r] show ?thesis by simp
  next
    case (Inr x)
    with p answers Query.prems(2) obtain w' where "d1 = d" "status c1 = Active w'" "sem q w = Inr (x, w')" by blast
    with Query.IH [OF rangeI r] Inr show ?thesis by simp
  qed
qed auto

lemma run_lets_through:
  "run_fn perform fn c d = (Inr a, c', d') \<Longrightarrow> status c = Active w \<Longrightarrow> lets_through fn \<Longrightarrow> \<exists>w'. status c' = Active w'"
proof (induction fn arbitrary: c d w)
  case (Query q k)
  obtain x c1 d1 where p: "perform (Statement q) c d = (x, c1, d1)" by (metis prod.exhaust)
  show ?case
  proof (cases x)
    case (Inr y)
    with p answers Query.prems(2) obtain w' where "status c1 = Active w'" by blast
    with Query.IH [OF rangeI, of "Inr y"] Query.prems(1,3) p Inr show ?thesis by auto
  qed (use Query.prems p in auto)
qed simp_all

lemma roll_back_keeps:
  assumes "roll_back perform e c d = (res, rel, d')"
  shows "d' = d" "res = Inl (as_service_error e)" "\<exists>c' broken. rel = Some (c', broken) \<and> (broken \<or> status c' = Idle)"
  using assms rolls_back rollback_fails by (auto simp: roll_back_def split: prod.splits sum.splits)

lemma transaction_outcome:
  assumes "status c = Idle" "transaction perform (Inr c) fn d = (res, rel, d')"
  shows "(\<exists>x c' b. res = Inl (as_service_error x) \<and> rel = Some (c', b) \<and> (b \<or> status c' = Idle)
      \<and> (d' = d \<or> (\<exists>a. clean_run sem fn d = Some (Inr a, d'))))
    \<or> (\<exists>a c'. res = Inr a \<and> rel = Some (c', False) \<and> status c' = Idle
      \<and> (d' = d \<or> clean_run sem fn d = Some (Inr a, d')) \<and> (lets_through fn \<longrightarrow> clean_run sem fn d = Some (Inr a, d')))"
proof -
  obtain r1 c1 d1 where b: "perform Begin c d = (r1, c1, d1)" by (metis prod.exhaust)
  show ?thesis
  proof (cases r1)
    case (Inl e)
    with b begin_fails roll_back_keeps [of e c1 d1 res rel d'] assms(2) show ?thesis
      by (auto simp: transaction_def)
  next
    case (Inr x)
    with b begins assms(1) have s1: "status c1 = Active d" "d1 = d" by blast+
    obtain r2 c2 d2 where f: "run_fn perform fn c1 d1 = (r2, c2, d2)" by (metis prod.exhaust)
    note ran = run_active [OF f s1(1)]
    show ?thesis
    proof (cases r2)
      case (Inl e)
      with b Inr f ran s1 roll_back_keeps [of e c2 d2 res rel d'] assms(2) show ?thesis
        by (auto simp: transaction_def)
    next
      case (Inr a)
      obtain r3 c3 d3 where m: "perform Commit c2 d2 = (r3, c3, d3)" by (metis prod.exhaust)
      show ?thesis
      proof (cases r3)
        case (Inl e)
        with commit_fails m ran s1(2) Inr have "d3 = d \<or> (\<exists>a. clean_run sem fn d = Some (Inr a, d3))" by fastforce
        moreover have "roll_back perform e c3 d3 = (res, rel, d')"
          using assms(2) b \<open>r1 = Inr x\<close> f Inr m Inl by (simp add: transaction_def)
        ultimately show ?thesis using roll_back_keeps [of e c3 d3 res rel d'] by auto
      next
        case (Inr y)
        have t: "res = Inr a" "rel = Some (c3, False)" "d' = d3"
          using assms(2) b \<open>r1 = Inr x\<close> f \<open>r2 = Inr a\<close> m Inr by (simp_all add: transaction_def)
        have "status c3 = Idle" "case status c2 of Active w \<Rightarrow> d3 = w | Aborted \<Rightarrow> d3 = d2 | _ \<Rightarrow> False"
          using commits m Inr by blast+
        moreover have "lets_through fn \<Longrightarrow> \<exists>w. status c2 = Active w"
          using run_lets_through [of fn c1 d1 a c2 d2 d] f s1(1) \<open>r2 = Inr a\<close> by blast
        ultimately show ?thesis using t ran s1(2) \<open>r2 = Inr a\<close> by (auto split: tx_status.splits)
      qed
    qed
  qed
qed

end

text \<open>The callback as the other theories have it: a function of the database, under \<^const>\<open>run_tx\<close>.\<close>

definition tx_body :: "('q \<Rightarrow> 'd \<Rightarrow> thrown + 'r \<times> 'd) \<Rightarrow> ('q, 'r, 'a) tx_prog \<Rightarrow> 'd \<Rightarrow> error + 'a \<times> 'd" where
  "tx_body sem fn w =
     (case clean_run sem fn w of
        Some (Inr a, w') \<Rightarrow> Inr (a, w')
      | Some (Inl (Program e), w') \<Rightarrow> Inl e
      | _ \<Rightarrow> Inl (OtherError ''statement failed''))"

lemma transaction_outcomes:
  assumes "pg_server perform status sem" "\<And>c. connected = Inr c \<Longrightarrow> status c = Idle"
    and "transaction perform connected fn d = (res, rel, d')"
  shows "d' = d \<or> (\<exists>a. clean_run sem fn d = Some (Inr a, d'))"
    and "lets_through fn \<Longrightarrow> res = Inr a \<Longrightarrow> run_tx (tx_body sem fn) d = (Inr a, d')"
    and "res = Inl e \<Longrightarrow> as_service_error e = e"
    and "case rel of None \<Rightarrow> isl connected | Some (c, broken) \<Rightarrow> broken \<or> status c = Idle"
proof -
  have o: "(\<exists>x. res = Inl (as_service_error x) \<and> rel = None \<and> isl connected \<and> d' = d)
    \<or> (\<exists>x c' b. res = Inl (as_service_error x) \<and> rel = Some (c', b) \<and> (b \<or> status c' = Idle)
      \<and> (d' = d \<or> (\<exists>a. clean_run sem fn d = Some (Inr a, d'))))
    \<or> (\<exists>a c'. res = Inr a \<and> rel = Some (c', False) \<and> status c' = Idle
      \<and> (d' = d \<or> clean_run sem fn d = Some (Inr a, d')) \<and> (lets_through fn \<longrightarrow> clean_run sem fn d = Some (Inr a, d')))"
  proof (cases connected)
    case (Inr c)
    with pg_server.transaction_outcome [OF assms(1) assms(2) assms(3) [unfolded Inr]] show ?thesis by blast
  qed (use assms(3) in \<open>auto simp: transaction_def\<close>)
  then show "d' = d \<or> (\<exists>a. clean_run sem fn d = Some (Inr a, d'))" by blast
  from o show "res = Inl e \<Longrightarrow> as_service_error e = e" using service_error_once by auto
  from o show "case rel of None \<Rightarrow> isl connected | Some (c, broken) \<Rightarrow> broken \<or> status c = Idle" by auto
  assume "lets_through fn" "res = Inr a"
  with o have "clean_run sem fn d = Some (Inr a, d')" by auto
  then show "run_tx (tx_body sem fn) d = (Inr a, d')" by (simp add: run_tx_def tx_body_def)
qed

text \<open>C31. A transaction commits everything its callback did or nothing, whatever statement fails and wherever the connection
  is lost, and a failed one leaves at most the doubt whether its COMMIT was carried out. A result of a callback that lets
  errors through is that of \<open>run_tx\<close>; no outage shows as anything but SERVICE_UNAVAILABLE; and the connection goes back to the
  pool outside every transaction, or is destroyed.\<close>

theorem transaction_all_or_nothing:
  assumes "pg_server perform status sem" "\<And>c. connected = Inr c \<Longrightarrow> status c = Idle"
    and "transaction perform connected fn d = (res, rel, d')"
  shows "(d' = d \<or> (\<exists>a. clean_run sem fn d = Some (Inr a, d')))
    \<and> (\<forall>a. lets_through fn \<longrightarrow> res = Inr a \<longrightarrow> run_tx (tx_body sem fn) d = (Inr a, d'))
    \<and> (\<forall>e. res = Inl e \<longrightarrow> as_service_error e = e)
    \<and> (case rel of None \<Rightarrow> isl connected | Some (c, broken) \<Rightarrow> broken \<or> status c = Idle)"
  using transaction_outcomes [OF assms] by blast

section \<open>A server\<close>

text \<open>A server whose connections break at the commands they are told to.\<close>

datatype fault = Fine | Lost_before | Lost_after

fun do_command :: "('q \<Rightarrow> 'd \<Rightarrow> thrown + 'r \<times> 'd) \<Rightarrow> 'q command \<Rightarrow> 'd tx_status \<Rightarrow> 'd \<Rightarrow> (thrown + 'r option) \<times> 'd tx_status \<times> 'd" where
  "do_command sem Begin Idle d = (Inr None, Active d, d)"
| "do_command sem Begin st d = (Inl (Driver (Some ''25001'') ''there is already a transaction in progress''), st, d)"
| "do_command sem Commit (Active w) d = (Inr None, Idle, w)"
| "do_command sem Commit Aborted d = (Inr None, Idle, d)"
| "do_command sem Commit st d = (Inl (Driver (Some ''25P01'') ''there is no transaction in progress''), st, d)"
| "do_command sem Rollback Gone d = (Inl (Driver None ''Connection terminated''), Gone, d)"
| "do_command sem Rollback st d = (Inr None, Idle, d)"
| "do_command sem (Statement q) (Active w) d =
     (case sem q w of Inl e \<Rightarrow> (Inl e, Aborted, d) | Inr (r, w') \<Rightarrow> (Inr (Some r), Active w', d))"
| "do_command sem (Statement q) Aborted d = (Inl (Driver (Some ''25P02'') ''current transaction is aborted''), Aborted, d)"
| "do_command sem (Statement q) Idle d = (case sem q d of Inl e \<Rightarrow> (Inl e, Idle, d) | Inr (r, d') \<Rightarrow> (Inr (Some r), Idle, d'))"
| "do_command sem (Statement q) Gone d = (Inl (Driver None ''Connection terminated''), Gone, d)"

definition simple_perform :: "('q \<Rightarrow> 'd \<Rightarrow> thrown + 'r \<times> 'd) \<Rightarrow> ('q, 'r option, 'd tx_status \<times> fault list, 'd) performer" where
  "simple_perform sem x c d =
     (let (st, fs) = c; (r, st', d') = do_command sem x st d in
      case fs of
        Lost_before # fs' \<Rightarrow> (Inl (Driver None ''Connection terminated''), (Gone, fs'), d)
      | Lost_after # fs' \<Rightarrow> (Inl (Driver None ''Connection terminated''), (Gone, fs'), d')
      | _ \<Rightarrow> (r, (st', tl fs), d'))"

abbreviation simple_sem :: "('q \<Rightarrow> 'd \<Rightarrow> thrown + 'r \<times> 'd) \<Rightarrow> 'q \<Rightarrow> 'd \<Rightarrow> thrown + 'r option \<times> 'd" where
  "simple_sem sem q w \<equiv> map_sum id (map_prod Some id) (sem q w)"

lemma simple_perform_cases:
  assumes "simple_perform sem x c d = (a, c', d')"
  shows "(a, fst c', d') = do_command sem x (fst c) d \<or> fst c' = Gone \<and> isl a \<and> (d' = d \<or> d' = snd (snd (do_command sem x (fst c) d)))"
  using assms by (auto simp: simple_perform_def Let_def split: prod.splits list.splits fault.splits)

interpretation simple_server: pg_server "simple_perform sem" fst "simple_sem sem" for sem
proof
  fix q c d and e and r and c' d' w
  note cs = simple_perform_cases [of sem]
  show "simple_perform sem Begin c d = (Inr r, c', d') \<Longrightarrow> fst c = Idle \<Longrightarrow> fst c' = Active d \<and> d' = d"
    by (auto dest!: cs)
  show "simple_perform sem Begin c d = (Inl e, c', d') \<Longrightarrow> d' = d"
    by (cases "fst c") (auto dest!: cs)
  show "simple_perform sem (Statement q) c d = (Inr r, c', d') \<Longrightarrow> fst c = Active w \<Longrightarrow>
      d' = d \<and> (\<exists>w'. fst c' = Active w' \<and> simple_sem sem q w = Inr (r, w'))"
    by (auto dest!: cs split: sum.splits prod.splits)
  show "simple_perform sem (Statement q) c d = (Inl e, c', d') \<Longrightarrow> fst c = Active w \<Longrightarrow> d' = d \<and> fst c' \<in> {Aborted, Gone}"
    by (auto dest!: cs split: sum.splits prod.splits)
  show "simple_perform sem (Statement q) c d = (a, c', d') \<Longrightarrow> fst c \<in> {Aborted, Gone} \<Longrightarrow>
      isl a \<and> d' = d \<and> fst c' \<in> {Aborted, Gone}" for a
    by (auto dest!: cs)
  show "simple_perform sem Commit c d = (Inr r, c', d') \<Longrightarrow>
      (case fst c of Active w \<Rightarrow> d' = w | Aborted \<Rightarrow> d' = d | _ \<Rightarrow> False) \<and> fst c' = Idle"
    by (cases "fst c") (auto dest!: cs)
  show "simple_perform sem Commit c d = (Inl e, c', d') \<Longrightarrow> d' = d \<or> fst c = Active d'"
    by (cases "fst c") (auto dest!: cs)
  show "simple_perform sem Rollback c d = (Inr r, c', d') \<Longrightarrow> d' = d \<and> fst c' = Idle"
    by (cases "fst c") (auto dest!: cs)
  show "simple_perform sem Rollback c d = (Inl e, c', d') \<Longrightarrow> d' = d"
    by (cases "fst c") (auto dest!: cs)
qed

definition demo_sem :: "int \<Rightarrow> int \<Rightarrow> thrown + int \<times> int" where
  "demo_sem q w = (if q < 0 then Inl (Driver (Some ''23514'') ''check'') else Inr (w, w + q))"

definition demo_callback :: "(int, int option, unit) tx_prog" where
  "demo_callback = Query 1 (case_sum Throw (\<lambda>x. Query 2 (case_sum Throw (\<lambda>y. Return ()))))"

theorem transaction_all_or_nothing_witness:
  "run_tx (tx_body (simple_sem demo_sem) demo_callback) 0
   = (Inr (), snd (snd (transaction (simple_perform demo_sem) (Inr (Idle, [])) demo_callback 0)))"
proof -
  have t: "transaction (simple_perform demo_sem) (Inr (Idle, [])) demo_callback 0 = (Inr (), Some ((Idle, []), False), 3)"
    by (simp add: transaction_def simple_perform_def demo_callback_def demo_sem_def)
  have l: "lets_through demo_callback" by (simp add: demo_callback_def)
  show ?thesis
    using transaction_all_or_nothing [OF simple_server.pg_server_axioms _ t] t l by simp
qed

text \<open>Why no callback of the server goes on after a failed statement: its result would be given out with nothing committed.\<close>

lemma swallowed_error_loses:
  "transaction (simple_perform demo_sem) (Inr (Idle, [])) (Query 5 (\<lambda>r. Query (- 1) (\<lambda>r. Return ''done''))) 0
   = (Inr ''done'', Some ((Idle, []), False), 0)"
  by (simp add: transaction_def simple_perform_def demo_sem_def)

section \<open>The schema\<close>

definition ident_start :: "char \<Rightarrow> bool" where
  "ident_start c \<longleftrightarrow> (let n = byte c in 97 \<le> n \<and> n \<le> 122 \<or> n = 95)"

definition ident_char :: "char \<Rightarrow> bool" where
  "ident_char c \<longleftrightarrow> (let n = byte c in 97 \<le> n \<and> n \<le> 122 \<or> n = 95 \<or> 48 \<le> n \<and> n \<le> 57)"

definition quote_ident :: "string \<Rightarrow> error + string" where
  "quote_ident name =
     (if name \<noteq> [] \<and> ident_start (hd name) \<and> list_all ident_char (tl name) \<and> length (tl name) \<le> 62
      then Inr (CHR 0x22 # name @ [CHR 0x22]) else Inl (OtherError (''Unsafe schema name: '' @ name)))"

text \<open>\<open>openServer\<close>: the schema and whether it is dropped on closing, by DATABASE_ISOLATION and DATABASE_SCHEMA.\<close>

definition open_server ::
  "(string \<Rightarrow> string) \<Rightarrow> string option \<Rightarrow> string option \<Rightarrow> string option \<Rightarrow> string \<Rightarrow> string option \<times> bool" where
  "open_server sha isolation schema data_dir rnd =
     (if isolation \<noteq> Some ''schema'' then (schema, False)
      else (case truthy data_dir of
              Some dir \<Rightarrow> (Some (''t_'' @ take 24 (hex (sha dir))), False)
            | None \<Rightarrow> (Some (''t_'' @ hex rnd), True)))"

lemma hex_ident: "list_all ident_char (hex s)"
proof (induction s)
  case (Cons c s)
  have "ident_char (hex_digit n)" if "n < 16" for n
  proof -
    have "\<forall>c \<in> set ''0123456789abcdef''. ident_char c" by (simp add: ident_char_def byte_def)
    moreover have "hex_digit n \<in> set ''0123456789abcdef''" using that unfolding hex_digit_def by (intro nth_mem) simp
    ultimately show ?thesis by blast
  qed
  with Cons show ?case by (simp add: byte_bounds)
qed simp

lemma length_hex: "length (hex s) = 2 * length s"
  by (induction s) simp_all

text \<open>The name of a schema of its own can be quoted.\<close>

lemma own_schema_quotes:
  assumes "open_server sha (Some ''schema'') schema data_dir rnd = (Some name, dropped)" "length rnd = 12"
  shows "quote_ident name = Inr (CHR 0x22 # name @ [CHR 0x22])"
proof -
  have t: "list_all ident_char (take 24 (hex s))" for s
    using hex_ident [of s] by (auto simp: list_all_iff dest: in_set_takeD)
  have "ident_char (CHR ''_'')" "ident_start (CHR ''t'')" by (simp_all add: ident_char_def ident_start_def byte_def)
  with assms t hex_ident show ?thesis
    by (auto simp: open_server_def quote_ident_def length_hex split: option.splits if_splits)
qed

end
