(* ===== verification/Keys.thy ===== *)
theory Keys
  imports Base64 Json
begin

text \<open>
  Where the key material comes from: \<open>server/src/security/keys.ts\<close>, in one process and in several that start at once, whose
  operations on the key file interleave. The environment, the file system, EC keys and SHA-256 are
  parameters of the functions; random bytes are arguments. A file is what \<open>JSON.parse\<close> makes of it, in the shape the code
  takes it for. Private JWKs and signatures are opaque.
\<close>

section \<open>Key material\<close>

text \<open>A JWK by the members the code reads, and a signing key; \<open>sk_sign\<close> is its function \<open>sign\<close>.\<close>

record jwk =
  jwk_kty :: string
  jwk_crv :: string
  jwk_x :: string
  jwk_y :: string
  jwk_d :: "string option"

record signing_key =
  sk_kid :: string
  sk_public :: jwk
  sk_sign :: "string \<Rightarrow> error + string"
  sk_private :: "jwk option"

record material =
  ma_keys :: key_material
  ma_signing :: "signing_key list"

text \<open>What is used of the crypto library: SHA-256, and signing with a private JWK, or its refusal to import one.\<close>

record crypto =
  cr_sha :: "string \<Rightarrow> string"
  cr_import :: "jwk \<Rightarrow> error + (string \<Rightarrow> error + string)"

definition thumbprint :: "crypto \<Rightarrow> jwk \<Rightarrow> string" where
  "thumbprint cr k = base64url (cr_sha cr (json (JObj
     [(''crv'', JStr (jwk_crv k)), (''kty'', JStr (jwk_kty k)), (''x'', JStr (jwk_x k)), (''y'', JStr (jwk_y k))])))"

definition public_half :: "jwk \<Rightarrow> jwk" where
  "public_half k = \<lparr>jwk_kty = ''EC'', jwk_crv = ''P-256'', jwk_x = jwk_x k, jwk_y = jwk_y k, jwk_d = None\<rparr>"

definition to_signing_key :: "crypto \<Rightarrow> jwk \<Rightarrow> error + signing_key" where
  "to_signing_key cr k =
     (if jwk_kty k \<noteq> ''EC'' \<or> jwk_crv k \<noteq> ''P-256'' \<or> truthy (jwk_d k) = None
      then Inl (OtherError ''Signing keys must be private P-256 JWKs'')
      else (case cr_import cr k of
              Inl e \<Rightarrow> Inl e
            | Inr sign \<Rightarrow>
                Inr \<lparr>sk_kid = thumbprint cr (public_half k), sk_public = public_half k, sk_sign = sign, sk_private = Some k\<rparr>))"

fun to_signing_keys :: "crypto \<Rightarrow> jwk list \<Rightarrow> error + signing_key list" where
  "to_signing_keys cr [] = Inr []"
| "to_signing_keys cr (k # ks) =
     (case to_signing_key cr k of
        Inl e \<Rightarrow> Inl e
      | Inr s \<Rightarrow> (case to_signing_keys cr ks of Inl e \<Rightarrow> Inl e | Inr ss \<Rightarrow> Inr (s # ss)))"

section \<open>The environment\<close>

text \<open>
  The variables, as read; \<open>ev_signing\<close> is what \<open>JSON.parse\<close> makes of SIGNING_KEYS: an error, something that is not an array,
  or an array. \<open>Number\<close> is a parameter.
\<close>

datatype parsed_keys = Not_json | Not_array | Jwks "jwk list"

record environment =
  ev_token_peppers :: "string option"
  ev_password_pepper :: "string option"
  ev_mac_key :: "string option"
  ev_signing :: "parsed_keys option"
  ev_production :: bool

definition signing_keys_from_environment :: "crypto \<Rightarrow> environment \<Rightarrow> error + signing_key list option" where
  "signing_keys_from_environment cr ev =
     (case ev_signing ev of
        None \<Rightarrow> Inr None
      | Some Not_json \<Rightarrow> Inl (OtherError ''SyntaxError'')
      | Some Not_array \<Rightarrow> Inl (OtherError ''SIGNING_KEYS must be a non-empty JSON array'')
      | Some (Jwks []) \<Rightarrow> Inl (OtherError ''SIGNING_KEYS must be a non-empty JSON array'')
      | Some (Jwks ks) \<Rightarrow> (case to_signing_keys cr ks of Inl e \<Rightarrow> Inl e | Inr ss \<Rightarrow> Inr (Some ss)))"

definition is_colon :: "char \<Rightarrow> bool" where "is_colon c \<longleftrightarrow> c = CHR '':''"

definition is_comma :: "char \<Rightarrow> bool" where "is_comma c \<longleftrightarrow> c = CHR '',''"

text \<open>\<open>parseVersioned\<close>: the parts before and after the first colon; a third part is passed over.\<close>

definition parse_versioned :: "(string \<Rightarrow> jsval) \<Rightarrow> string \<Rightarrow> error + nat \<times> string" where
  "parse_versioned number value =
     (let parts = split_on is_colon value;
          parsed = number (hd parts);
          bytes = (case tl parts of [] \<Rightarrow> [] | key # _ \<Rightarrow> from_base64 key);
          refused = Inl (OtherError ''Key material must be \"<version>:<base64 of at least 32 bytes>\"'')
      in case parsed of
           JInt n \<Rightarrow> if n < 1 \<or> length bytes < 32 then refused else Inr (nat n, bytes)
         | _ \<Rightarrow> refused)"

fun parse_all :: "(string \<Rightarrow> jsval) \<Rightarrow> string list \<Rightarrow> error + (nat \<times> string) list" where
  "parse_all number [] = Inr []"
| "parse_all number (v # vs) =
     (case parse_versioned number (trim v) of
        Inl e \<Rightarrow> Inl e
      | Inr p \<Rightarrow> (case parse_all number vs of Inl e \<Rightarrow> Inl e | Inr ps \<Rightarrow> Inr (p # ps)))"

text \<open>A draw: the random bytes of fresh keys and a generated private key.\<close>

record key_draw =
  kd_pepper :: string
  kd_password :: string
  kd_mac :: string
  kd_signing :: jwk

definition signing_or_new :: "crypto \<Rightarrow> key_draw \<Rightarrow> signing_key list option \<Rightarrow> error + signing_key list" where
  "signing_or_new cr dr found =
     (case found of
        Some ss \<Rightarrow> Inr ss
      | None \<Rightarrow> (case to_signing_key cr (kd_signing dr) of Inl e \<Rightarrow> Inl e | Inr s \<Rightarrow> Inr [s]))"

definition from_environment :: "crypto \<Rightarrow> (string \<Rightarrow> jsval) \<Rightarrow> environment \<Rightarrow> key_draw \<Rightarrow> error + material option" where
  "from_environment cr number ev dr =
     (case (truthy (ev_token_peppers ev), truthy (ev_password_pepper ev), truthy (ev_mac_key ev)) of
        (None, None, None) \<Rightarrow> Inr None
      | (Some peppers, Some password, Some mac) \<Rightarrow>
          (let mac_key = from_base64 mac in
           if length mac_key < 32 then Inl (OtherError ''INTERNAL_MAC_KEY must be at least 32 bytes'')
           else (case parse_all number (split_on is_comma peppers) of
                   Inl e \<Rightarrow> Inl e
                 | Inr ps \<Rightarrow>
                     (case parse_versioned number password of
                        Inl e \<Rightarrow> Inl e
                      | Inr p \<Rightarrow>
                          (case signing_keys_from_environment cr ev of
                             Inl e \<Rightarrow> Inl e
                           | Inr found \<Rightarrow>
                               (case signing_or_new cr dr found of
                                  Inl e \<Rightarrow> Inl e
                                | Inr ss \<Rightarrow> Inr (Some
                                    \<lparr>ma_keys = \<lparr>token_peppers = ps, password_pepper = p, internal_mac_key = mac_key\<rparr>,
                                     ma_signing = ss\<rparr>))))))
      | _ \<Rightarrow> Inl (OtherError ''Set all of TOKEN_PEPPERS, PASSWORD_PEPPER and INTERNAL_MAC_KEY, or none''))"

section \<open>The key file\<close>

record key_file =
  kf_peppers :: "(nat \<times> string) list"
  kf_password :: "nat \<times> string"
  kf_mac :: string
  kf_signing :: "jwk list option"

text \<open>\<open>ephemeral(persisting)\<close>\<close>

definition ephemeral :: "crypto \<Rightarrow> environment \<Rightarrow> key_draw \<Rightarrow> bool \<Rightarrow> error + material" where
  "ephemeral cr ev dr persisting =
     (if \<not> persisting \<and> ev_production ev
      then Inl (OtherError ''No key material configured. Set TOKEN_PEPPERS, PASSWORD_PEPPER and INTERNAL_MAC_KEY.'')
      else (case to_signing_key cr (kd_signing dr) of
              Inl e \<Rightarrow> Inl e
            | Inr s \<Rightarrow> Inr
                \<lparr>ma_keys = \<lparr>token_peppers = [(1, kd_pepper dr)], password_pepper = (1, kd_password dr), internal_mac_key = kd_mac dr\<rparr>,
                 ma_signing = [s]\<rparr>))"

definition key_file_of :: "material \<Rightarrow> key_file" where
  "key_file_of m =
     \<lparr>kf_peppers = map (\<lambda>(v, k). (v, base64 k)) (token_peppers (ma_keys m)),
      kf_password = (case password_pepper (ma_keys m) of (v, k) \<Rightarrow> (v, base64 k)),
      kf_mac = base64 (internal_mac_key (ma_keys m)),
      kf_signing = Some (List.map_filter sk_private (ma_signing m))\<rparr>"

definition material_of_file :: "crypto \<Rightarrow> key_draw \<Rightarrow> key_file \<Rightarrow> error + material" where
  "material_of_file cr dr f =
     (case (case kf_signing f of None \<Rightarrow> signing_or_new cr dr None | Some ks \<Rightarrow> to_signing_keys cr ks) of
        Inl e \<Rightarrow> Inl e
      | Inr ss \<Rightarrow> Inr
          \<lparr>ma_keys = \<lparr>token_peppers = map (\<lambda>(v, k). (v, from_base64 k)) (kf_peppers f),
                       password_pepper = (case kf_password f of (v, k) \<Rightarrow> (v, from_base64 k)),
                       internal_mac_key = from_base64 (kf_mac f)\<rparr>,
           ma_signing = ss\<rparr>)"

text \<open>The disk, by path; a file that is no key file makes the reader throw.\<close>

datatype 'f stored = Stored 'f | Unreadable

type_synonym key_disk = "string \<Rightarrow> key_file stored option"

text \<open>
  \<open>fromFile\<close> with the configured path, where no other process comes between its operations on the file.
\<close>

definition from_file :: "crypto \<Rightarrow> environment \<Rightarrow> key_draw \<Rightarrow> string option \<Rightarrow> key_disk \<Rightarrow> (error + material option) \<times> key_disk" where
  "from_file cr ev dr file disk =
     (case truthy file of
        None \<Rightarrow> (Inr None, disk)
      | Some path \<Rightarrow>
          (case disk path of
             None \<Rightarrow>
               (case ephemeral cr ev dr True of
                  Inl e \<Rightarrow> (Inl e, disk)
                | Inr m \<Rightarrow> (Inr (Some m), disk(path \<mapsto> Stored (key_file_of m))))
           | Some Unreadable \<Rightarrow> (Inl (OtherError ''SyntaxError''), disk)
           | Some (Stored f) \<Rightarrow>
               (case material_of_file cr dr f of
                  Inl e \<Rightarrow> (Inl e, disk)
                | Inr m \<Rightarrow> (Inr (Some m), if kf_signing f = None then disk(path \<mapsto> Stored (key_file_of m)) else disk))))"

section \<open>The keys of a process\<close>

record key_state =
  kp_file :: "string option"
  kp_material :: "material option"

definition use_key_material :: "material \<Rightarrow> key_state \<Rightarrow> key_state" where
  "use_key_material m st = st\<lparr>kp_material := Some m\<rparr>"

definition use_key_file :: "string \<Rightarrow> key_state \<Rightarrow> key_state" where
  "use_key_file path st = st\<lparr>kp_file := Some path, kp_material := None\<rparr>"

definition reload_keys_for_rotation :: "key_state \<Rightarrow> key_state" where
  "reload_keys_for_rotation st = st\<lparr>kp_material := None\<rparr>"

definition keys_loaded :: "key_state \<Rightarrow> bool" where
  "keys_loaded st \<longleftrightarrow> kp_material st \<noteq> None"

definition keys ::
  "crypto \<Rightarrow> (string \<Rightarrow> jsval) \<Rightarrow> environment \<Rightarrow> key_draw \<Rightarrow> key_state \<times> key_disk
   \<Rightarrow> (error + material) \<times> key_state \<times> key_disk" where
  "keys cr number ev dr st =
     (let (ks, disk) = st in
      case kp_material ks of
        Some m \<Rightarrow> (Inr m, st)
      | None \<Rightarrow>
          (case from_environment cr number ev dr of
             Inl e \<Rightarrow> (Inl e, st)
           | Inr (Some m) \<Rightarrow> (Inr m, ks\<lparr>kp_material := Some m\<rparr>, disk)
           | Inr None \<Rightarrow>
               (case from_file cr ev dr (kp_file ks) disk of
                  (Inl e, disk') \<Rightarrow> (Inl e, ks, disk')
                | (Inr (Some m), disk') \<Rightarrow> (Inr m, ks\<lparr>kp_material := Some m\<rparr>, disk')
                | (Inr None, disk') \<Rightarrow>
                    (case ephemeral cr ev dr False of
                       Inl e \<Rightarrow> (Inl e, ks, disk')
                     | Inr m \<Rightarrow> (Inr m, ks\<lparr>kp_material := Some m\<rparr>, disk')))))"

section \<open>Processes that start at once\<close>

text \<open>
  Where a process is in its first call of \<open>keys\<close>. Each operation on the file system is one step, and other processes come
  between: \<open>existsSync\<close>, \<open>readFileSync\<close>, and the opening and the writing of \<open>writeFileSync\<close>, whose flag wx refuses a file
  that is there and whose flag w empties it. Between the opening and the writing the file is no key file. Two writers that
  have the file open write texts of one length.
\<close>

datatype key_stage =
    At_environment
  | At_missing
  | At_found
  | At_rewrite material
  | At_write material
  | Started "error + material"

fun file_step :: "crypto \<Rightarrow> environment \<Rightarrow> key_draw \<Rightarrow> string \<Rightarrow> key_stage \<Rightarrow> key_disk \<Rightarrow> key_stage \<times> key_disk" where
  "file_step cr ev dr path At_missing disk =
     (case ephemeral cr ev dr True of
        Inl e \<Rightarrow> (Started (Inl e), disk)
      | Inr m \<Rightarrow> if disk path \<noteq> None then (Started (Inl (OtherError ''EEXIST'')), disk)
                 else (At_write m, disk(path \<mapsto> Unreadable)))"
| "file_step cr ev dr path At_found disk =
     (case disk path of
        None \<Rightarrow> (Started (Inl (OtherError ''ENOENT'')), disk)
      | Some Unreadable \<Rightarrow> (Started (Inl (OtherError ''SyntaxError'')), disk)
      | Some (Stored f) \<Rightarrow>
          (case material_of_file cr dr f of
             Inl e \<Rightarrow> (Started (Inl e), disk)
           | Inr m \<Rightarrow> (if kf_signing f = None then At_rewrite m else Started (Inr m), disk)))"
| "file_step cr ev dr path (At_rewrite m) disk = (At_write m, disk(path \<mapsto> Unreadable))"
| "file_step cr ev dr path (At_write m) disk = (Started (Inr m), disk(path \<mapsto> Stored (key_file_of m)))"
| "file_step cr ev dr path x disk = (x, disk)"

definition start_step ::
  "crypto \<Rightarrow> (string \<Rightarrow> jsval) \<Rightarrow> environment \<Rightarrow> string option \<Rightarrow> key_draw \<Rightarrow> key_stage \<Rightarrow> key_disk \<Rightarrow> key_stage \<times> key_disk" where
  "start_step cr number ev file dr x disk =
     (case x of
        At_environment \<Rightarrow>
          (case from_environment cr number ev dr of
             Inl e \<Rightarrow> Started (Inl e)
           | Inr (Some m) \<Rightarrow> Started (Inr m)
           | Inr None \<Rightarrow>
               (case truthy file of
                  None \<Rightarrow> Started (ephemeral cr ev dr False)
                | Some path \<Rightarrow> if disk path = None then At_missing else At_found), disk)
      | _ \<Rightarrow> file_step cr ev dr (case file of None \<Rightarrow> [] | Some path \<Rightarrow> path) x disk)"

text \<open>A process that is left alone takes the steps that \<^const>\<open>keys\<close> takes together.\<close>

lemma start_step_simps:
  "start_step cr number ev file dr (Started r) disk = (Started r, disk)"
  "start_step cr number ev (Some path) dr At_missing disk = file_step cr ev dr path At_missing disk"
  "start_step cr number ev (Some path) dr At_found disk = file_step cr ev dr path At_found disk"
  "start_step cr number ev (Some path) dr (At_rewrite m) disk = file_step cr ev dr path (At_rewrite m) disk"
  "start_step cr number ev (Some path) dr (At_write m) disk = file_step cr ev dr path (At_write m) disk"
  by (simp_all add: start_step_def)

lemma start_step_file: "truthy v = Some path \<Longrightarrow> v = Some path"
  by (induction v rule: truthy.induct) (auto split: if_splits)

lemma keys_by_steps:
  "((\<lambda>(x, disk). start_step cr number ev file dr x disk) ^^ 4) (At_environment, disk)
   = (case keys cr number ev dr (\<lparr>kp_file = file, kp_material = None\<rparr>, disk) of (r, ks, disk') \<Rightarrow> (Started r, disk'))"
proof -
  have "?thesis" if "truthy file = Some path" for path
    using that start_step_file [OF that]
    by (auto simp: numeral_eq_Suc keys_def from_file_def start_step_simps start_step_def [of _ _ _ _ _ At_environment]
        split: sum.splits option.splits stored.splits)
  moreover have ?thesis if "truthy file = None"
    using that by (auto simp: numeral_eq_Suc keys_def from_file_def start_step_simps start_step_def [of _ _ _ _ _ At_environment]
        split: sum.splits option.splits)
  ultimately show ?thesis by (cases "truthy file") blast+
qed

text \<open>The processes of one deployment: process \<open>i\<close>, with draw \<open>drs ! i\<close>, takes its next step.\<close>

definition start_move ::
  "crypto \<Rightarrow> (string \<Rightarrow> jsval) \<Rightarrow> environment \<Rightarrow> string option \<Rightarrow> key_draw list \<Rightarrow> nat \<Rightarrow> key_stage list \<times> key_disk \<Rightarrow> key_stage list \<times> key_disk" where
  "start_move cr number ev file drs i st =
     (case st of (xs, disk) \<Rightarrow>
        if i < length xs
        then (case start_step cr number ev file (drs ! i) (xs ! i) disk of (x, disk') \<Rightarrow> (xs[i := x], disk'))
        else st)"

definition start_all ::
  "crypto \<Rightarrow> (string \<Rightarrow> jsval) \<Rightarrow> environment \<Rightarrow> string option \<Rightarrow> key_draw list \<Rightarrow> nat list \<Rightarrow> key_disk \<Rightarrow> key_stage list \<times> key_disk" where
  "start_all cr number ev file drs moves disk =
     fold (start_move cr number ev file drs) moves (replicate (length drs) At_environment, disk)"

text \<open>The environment decides alike in every process, and gives them the same peppers and MAC key.\<close>

lemma environment_same:
  "from_environment cr number ev dr = Inr (Some m) \<Longrightarrow> from_environment cr number ev dr' = Inr (Some m') \<Longrightarrow>
   ma_keys m = ma_keys m' \<and> (ev_signing ev \<noteq> None \<longrightarrow> m = m')"
  "from_environment cr number ev dr = Inr None \<longleftrightarrow> from_environment cr number ev dr' = Inr None"
  by (auto simp: from_environment_def signing_or_new_def signing_keys_from_environment_def Let_def
      split: option.splits if_splits sum.splits parsed_keys.splits list.splits)

lemma signing_key_again: "to_signing_key cr k = Inr s \<Longrightarrow> sk_private s = Some k"
  by (auto simp: to_signing_key_def split: if_splits sum.splits)

lemma signing_keys_again: "to_signing_keys cr ks = Inr ss \<Longrightarrow> List.map_filter sk_private ss = ks"
  by (induction ks arbitrary: ss) (auto simp: map_filter_simps signing_key_again split: sum.splits)

lemma file_roundtrip:
  assumes "to_signing_keys cr ks = Inr (ma_signing m)"
  shows "material_of_file cr dr (key_file_of m) = Inr m"
  using assms signing_keys_again [OF assms]
  by (cases m; cases "ma_keys m")
    (auto simp: material_of_file_def key_file_of_def case_prod_beta comp_def intro!: map_idI)

fun stage_material :: "key_stage \<Rightarrow> material option" where
  "stage_material (At_rewrite m) = Some m"
| "stage_material (At_write m) = Some m"
| "stage_material (Started (Inr m)) = Some m"
| "stage_material x = None"

text \<open>The material of a process is \<open>P\<close>, and what it is about to write can be read again; the same of what the file holds.\<close>

definition stage_fits :: "crypto \<Rightarrow> (material \<Rightarrow> bool) \<Rightarrow> key_stage \<Rightarrow> bool" where
  "stage_fits cr P x \<longleftrightarrow> (\<forall>m. stage_material x = Some m \<longrightarrow> P m)
     \<and> (\<forall>m. x = At_rewrite m \<or> x = At_write m \<longrightarrow> (\<exists>ks. to_signing_keys cr ks = Inr (ma_signing m)))"

definition file_fits :: "crypto \<Rightarrow> string \<Rightarrow> (material \<Rightarrow> bool) \<Rightarrow> key_disk \<Rightarrow> bool" where
  "file_fits cr path P disk \<longleftrightarrow> disk path \<noteq> None
     \<and> (\<forall>f dr m. disk path = Some (Stored f) \<longrightarrow> material_of_file cr dr f = Inr m \<longrightarrow> P m)"

definition in_hand :: "crypto \<Rightarrow> string \<Rightarrow> (material \<Rightarrow> bool) \<Rightarrow> key_stage list \<times> key_disk \<Rightarrow> bool" where
  "in_hand cr path P st \<longleftrightarrow> file_fits cr path P (snd st) \<and> (\<forall>x \<in> set (fst st). stage_fits cr P x)"

text \<open>There is no file, and no process has any.\<close>

definition nothing_yet :: "string \<Rightarrow> key_stage list \<times> key_disk \<Rightarrow> bool" where
  "nothing_yet path st \<longleftrightarrow> snd st path = None \<and> (\<forall>x \<in> set (fst st). stage_material x = None)"

lemma fresh_signing: "signing_or_new cr dr None = Inr ss \<Longrightarrow> to_signing_keys cr [kd_signing dr] = Inr ss"
  by (auto simp: signing_or_new_def split: sum.splits)

lemma step_fits:
  assumes "from_environment cr number ev dr = Inr None" "path \<noteq> []" "file_fits cr path P disk" "stage_fits cr P x"
    and "start_step cr number ev (Some path) dr x disk = (x', disk')"
  shows "file_fits cr path P disk' \<and> stage_fits cr P x'"
proof (cases x)
  case At_environment
  with assms show ?thesis by (auto simp: start_step_def stage_fits_def split: if_splits)
next
  case At_missing
  with assms show ?thesis by (auto simp: start_step_simps stage_fits_def file_fits_def split: sum.splits)
next
  case At_found
  show ?thesis
  proof (cases "\<exists>f m. disk path = Some (Stored f) \<and> material_of_file cr dr f = Inr m")
    case True
    then obtain f m where f: "disk path = Some (Stored f)" "material_of_file cr dr f = Inr m" by blast
    then have "P m" using assms(3) unfolding file_fits_def by blast
    moreover have "\<exists>ks. to_signing_keys cr ks = Inr (ma_signing m)" if "kf_signing f = None"
    proof -
      have "signing_or_new cr dr None = Inr (ma_signing m)" using f(2) that by (auto simp: material_of_file_def split: sum.splits)
      then show ?thesis by (blast dest: fresh_signing)
    qed
    ultimately show ?thesis using assms(3,5) f At_found by (auto simp: start_step_simps stage_fits_def split: if_splits)
  next
    case False
    with assms(3,5) At_found show ?thesis
      by (auto simp: start_step_simps stage_fits_def split: option.splits stored.splits sum.splits)
  qed
next
  case (At_rewrite m)
  with assms(4,5) show ?thesis by (auto simp: start_step_simps stage_fits_def file_fits_def)
next
  case (At_write m)
  then obtain ks where "to_signing_keys cr ks = Inr (ma_signing m)" "P m" using assms(4) by (auto simp: stage_fits_def)
  with file_roundtrip [OF this(1)] assms(5) At_write show ?thesis by (auto simp: start_step_simps stage_fits_def file_fits_def)
next
  case (Started r)
  with assms(3-5) show ?thesis by (simp add: start_step_simps)
qed

lemma all_update: "\<forall>x \<in> set xs. P x \<Longrightarrow> P y \<Longrightarrow> \<forall>x \<in> set (xs[i := y]). P x"
  using set_update_subset_insert [of xs i y] by blast

lemma move_in_hand:
  assumes "\<And>dr. from_environment cr number ev dr = Inr None" "path \<noteq> []" "in_hand cr path P st"
  shows "in_hand cr path P (start_move cr number ev (Some path) drs i st)"
proof -
  obtain xs disk where st: "st = (xs, disk)" by fastforce
  show ?thesis
  proof (cases "i < length xs")
    case True
    obtain x' disk' where s: "start_step cr number ev (Some path) (drs ! i) (xs ! i) disk = (x', disk')" by fastforce
    have "file_fits cr path P disk' \<and> stage_fits cr P x'"
      using assms(3) True by (intro step_fits [OF assms(1,2) _ _ s]) (simp_all add: in_hand_def st)
    with assms(3) s True all_update [of xs "stage_fits cr P" x' i] show ?thesis by (simp add: start_move_def st in_hand_def)
  qed (use assms(3) in \<open>simp add: start_move_def st\<close>)
qed

lemma moves_in_hand:
  assumes "\<And>dr. from_environment cr number ev dr = Inr None" "path \<noteq> []"
  shows "in_hand cr path P st \<Longrightarrow> in_hand cr path P (fold (start_move cr number ev (Some path) drs) moves st)"
  by (induction moves arbitrary: st) (simp_all add: move_in_hand [OF assms])

text \<open>The first file: whoever makes it has the keys of all.\<close>

lemma move_nothing_yet:
  assumes "\<And>dr. from_environment cr number ev dr = Inr None" "path \<noteq> []" "nothing_yet path st"
  shows "nothing_yet path (start_move cr number ev (Some path) drs i st)
    \<or> (\<exists>m. in_hand cr path (\<lambda>m'. m' = m) (start_move cr number ev (Some path) drs i st))"
proof -
  obtain xs disk where st: "st = (xs, disk)" by fastforce
  have xs: "\<forall>x \<in> set xs. stage_material x = None" "disk path = None" using assms(3) by (simp_all add: nothing_yet_def st)
  show ?thesis
  proof (cases "i < length xs")
    case True
    obtain x' disk' where s: "start_step cr number ev (Some path) (drs ! i) (xs ! i) disk = (x', disk')" by fastforce
    have moved: "start_move cr number ev (Some path) drs i st = (xs[i := x'], disk')" using True s by (simp add: start_move_def st)
    have "stage_material (xs ! i) = None" using xs(1) True by simp
    then consider (same) "stage_material x' = None" "disk' path = None"
      | (made) m where "x' = At_write m" "ephemeral cr ev (drs ! i) True = Inr m" "disk' = disk(path \<mapsto> Unreadable)"
      using s xs(2) assms(1,2)
      by (cases "xs ! i") (auto simp: start_step_simps start_step_def [of _ _ _ _ _ At_environment] split: sum.splits)
    then show ?thesis
    proof cases
      case same
      with all_update [OF xs(1), of x' i] show ?thesis unfolding moved by (simp add: nothing_yet_def)
    next
      case made
      have "to_signing_keys cr [kd_signing (drs ! i)] = Inr (ma_signing m)"
        using made(2) by (auto simp: ephemeral_def split: if_splits sum.splits)
      then have "stage_fits cr (\<lambda>m'. m' = m) x'" unfolding made(1) stage_fits_def by (auto simp del: to_signing_keys.simps)
      moreover have "\<forall>x \<in> set xs. stage_fits cr (\<lambda>m'. m' = m) x" using xs(1) by (auto simp: stage_fits_def)
      ultimately have "in_hand cr path (\<lambda>m'. m' = m) (xs[i := x'], disk')"
        using all_update [of xs "stage_fits cr (\<lambda>m'. m' = m)" x' i] by (simp add: in_hand_def file_fits_def made(3))
      then show ?thesis unfolding moved by blast
    qed
  qed (use assms(3) in \<open>simp add: start_move_def st\<close>)
qed

lemma moves_nothing_yet:
  assumes "\<And>dr. from_environment cr number ev dr = Inr None" "path \<noteq> []"
  shows "nothing_yet path st \<Longrightarrow> nothing_yet path (fold (start_move cr number ev (Some path) drs) moves st)
    \<or> (\<exists>m. in_hand cr path (\<lambda>m'. m' = m) (fold (start_move cr number ev (Some path) drs) moves st))"
proof (induction moves arbitrary: st)
  case (Cons i moves)
  from move_nothing_yet [OF assms Cons.prems, of drs i] show ?case
  proof
    assume "nothing_yet path (start_move cr number ev (Some path) drs i st)"
    from Cons.IH [OF this] show ?thesis by simp
  next
    assume "\<exists>m. in_hand cr path (\<lambda>m'. m' = m) (start_move cr number ev (Some path) drs i st)"
    with moves_in_hand [OF assms] show ?thesis by simp blast
  qed
qed simp

lemma material_of_file_same:
  "material_of_file cr dr f = Inr m \<Longrightarrow> material_of_file cr dr' f = Inr m' \<Longrightarrow> ma_keys m = ma_keys m' \<and> (kf_signing f \<noteq> None \<longrightarrow> m = m')"
  by (auto simp: material_of_file_def split: option.splits sum.splits)

text \<open>A file that is there decides the peppers and the MAC key, and with signing keys in it the signing keys as well.\<close>

lemma file_decides:
  assumes "\<And>dr. from_environment cr number ev dr = Inr None" "path \<noteq> []"
    and "start_all cr number ev (Some path) drs moves disk = (xs, disk')"
  shows "\<exists>P. (\<forall>x \<in> set xs. \<forall>m. x = Started (Inr m) \<longrightarrow> P m)
    \<and> (\<forall>m m'. P m \<longrightarrow> P m' \<longrightarrow> ma_keys m = ma_keys m' \<and> ((\<forall>f. disk path = Some (Stored f) \<longrightarrow> kf_signing f \<noteq> None) \<longrightarrow> m = m'))"
proof -
  let ?st = "(replicate (length drs) At_environment, disk)"
  have at: "x = At_environment" if "x \<in> set (fst ?st)" for x using that by auto
  have run: "(xs, disk') = fold (start_move cr number ev (Some path) drs) moves ?st" using assms(3) by (simp add: start_all_def)
  have hand: ?thesis if "in_hand cr path P (xs, disk')"
      "\<And>m m'. P m \<Longrightarrow> P m' \<Longrightarrow> ma_keys m = ma_keys m' \<and> ((\<forall>f. disk path = Some (Stored f) \<longrightarrow> kf_signing f \<noteq> None) \<longrightarrow> m = m')" for P
  proof (intro exI [of _ P] conjI allI impI ballI)
    show "P m" if "x \<in> set xs" "x = Started (Inr m)" for x m
      using \<open>in_hand cr path P (xs, disk')\<close> that unfolding in_hand_def stage_fits_def by fastforce
  qed (use that(2) in \<open>blast+\<close>)
  show ?thesis
  proof (cases "disk path")
    case None
    then have "nothing_yet path ?st" by (auto simp: nothing_yet_def)
    from moves_nothing_yet [OF assms(1,2) this, of drs moves] show ?thesis
    proof
      assume "nothing_yet path (fold (start_move cr number ev (Some path) drs) moves ?st)"
      then show ?thesis unfolding run [symmetric] by (intro exI [of _ "\<lambda>m. False"]) (auto simp: nothing_yet_def)
    qed (use hand in \<open>auto simp: run [symmetric]\<close>)
  next
    case (Some c)
    let ?P = "\<lambda>m. \<exists>f dr. c = Stored f \<and> material_of_file cr dr f = Inr m"
    have "in_hand cr path ?P ?st"
      using Some at by (auto simp: in_hand_def file_fits_def stage_fits_def)
    from moves_in_hand [OF assms(1,2) this, of drs moves] show ?thesis
      unfolding run [symmetric] by (rule hand) (use Some material_of_file_same in blast)
  qed
qed

text \<open>Where the environment gives the key material, it gives it to every process.\<close>

lemma environment_decides:
  assumes "from_environment cr number ev dr0 \<noteq> Inr None"
  shows "\<forall>x \<in> set (fst st). x = At_environment \<or> (\<exists>r. x = Started r \<and> (\<forall>m. r = Inr m \<longrightarrow> (\<exists>dr. from_environment cr number ev dr = Inr (Some m)))) \<Longrightarrow>
    x \<in> set (fst (fold (start_move cr number ev file drs) moves st)) \<Longrightarrow> x = Started (Inr m) \<Longrightarrow>
    \<exists>dr. from_environment cr number ev dr = Inr (Some m)"
proof (induction moves arbitrary: st)
  case (Cons i moves)
  let ?Q = "\<lambda>x. x = At_environment \<or> (\<exists>r. x = Started r \<and> (\<forall>m. r = Inr m \<longrightarrow> (\<exists>dr. from_environment cr number ev dr = Inr (Some m))))"
  obtain xs disk where st: "st = (xs, disk)" by fastforce
  have "\<forall>x \<in> set (fst (start_move cr number ev file drs i st)). ?Q x"
  proof (cases "i < length xs")
    case True
    have none: "from_environment cr number ev (drs ! i) \<noteq> Inr None" using environment_same(2) assms by blast
    obtain x' disk' where s: "start_step cr number ev file (drs ! i) (xs ! i) disk = (x', disk')" by fastforce
    have "?Q (xs ! i)" using Cons.prems(1) True by (simp add: st)
    then have "?Q x'"
    proof
      assume "xs ! i = At_environment"
      with s none show ?thesis by (auto simp: start_step_def split: sum.splits option.splits)
    next
      assume "\<exists>r. xs ! i = Started r \<and> (\<forall>m. r = Inr m \<longrightarrow> (\<exists>dr. from_environment cr number ev dr = Inr (Some m)))"
      then obtain r where r: "xs ! i = Started r" "\<forall>m. r = Inr m \<longrightarrow> (\<exists>dr. from_environment cr number ev dr = Inr (Some m))" by blast
      with s have "x' = Started r" by (simp add: start_step_simps)
      with r(2) show ?thesis by blast
    qed
    with all_update [of xs ?Q x' i] Cons.prems(1) s True show ?thesis by (simp add: start_move_def st)
  qed (use Cons.prems(1) in \<open>simp add: start_move_def st\<close>)
  from Cons.IH [OF this] Cons.prems(2,3) show ?case by simp
qed auto

lemma length_start_all: "length (fst (start_all cr number ev file drs moves disk)) = length drs"
proof -
  have "length (fst (fold (start_move cr number ev file drs) moves st)) = length (fst st)" for st
    by (induction moves arbitrary: st) (simp_all add: start_move_def split: prod.split)
  then show ?thesis by (simp add: start_all_def)
qed

lemma environment_whole:
  "from_environment cr number ev dr = Inr found \<Longrightarrow> (truthy (ev_token_peppers ev) = None) = (found = None)
    \<and> (truthy (ev_password_pepper ev) = None) = (found = None) \<and> (truthy (ev_mac_key ev) = None) = (found = None)"
  by (auto simp: from_environment_def Let_def split: option.splits sum.splits if_splits)

lemma deployment_keys:
  assumes "path \<noteq> []" "start_all cr number ev (Some path) drs moves disk = (xs, disk')" "Started (Inr m) \<in> set xs" "Started (Inr m') \<in> set xs"
  shows "ma_keys m = ma_keys m'"
    and "if truthy (ev_token_peppers ev) = None then \<forall>f. disk path = Some (Stored f) \<longrightarrow> kf_signing f \<noteq> None else ev_signing ev \<noteq> None
      \<Longrightarrow> m = m'"
    and "truthy (ev_token_peppers ev) = None \<longleftrightarrow> truthy (ev_password_pepper ev) = None"
    and "truthy (ev_token_peppers ev) = None \<longleftrightarrow> truthy (ev_mac_key ev) = None"
proof -
  let ?all = "if truthy (ev_token_peppers ev) = None then \<forall>f. disk path = Some (Stored f) \<longrightarrow> kf_signing f \<noteq> None else ev_signing ev \<noteq> None"
  have "ma_keys m = ma_keys m' \<and> (?all \<longrightarrow> m = m') \<and> (\<exists>dr found. from_environment cr number ev dr = Inr found)"
  proof (cases "from_environment cr number ev undefined = Inr None")
    case True
    have none: "from_environment cr number ev dr = Inr None" for dr using environment_same(2) True by blast
    have "truthy (ev_token_peppers ev) = None" using environment_whole [OF True] by simp
    moreover obtain P where "\<forall>x \<in> set xs. \<forall>m. x = Started (Inr m) \<longrightarrow> P m"
      "\<forall>m m'. P m \<longrightarrow> P m' \<longrightarrow> ma_keys m = ma_keys m' \<and> ((\<forall>f. disk path = Some (Stored f) \<longrightarrow> kf_signing f \<noteq> None) \<longrightarrow> m = m')"
      using file_decides [OF none assms(1,2)] by blast
    ultimately show ?thesis using assms(3,4) True by (metis (no_types))
  next
    case False
    have fin: "xs = fst (fold (start_move cr number ev (Some path) drs) moves (replicate (length drs) At_environment, disk))"
      using assms(2) by (simp add: start_all_def)
    have "\<exists>dr. from_environment cr number ev dr = Inr (Some n)" if "Started (Inr n) \<in> set xs" for n
      by (rule environment_decides [OF False _ that [unfolded fin] refl]) simp
    with assms(3,4) obtain dr dr' where e: "from_environment cr number ev dr = Inr (Some m)" "from_environment cr number ev dr' = Inr (Some m')"
      by blast
    with environment_same(1) [OF e] environment_whole [OF e(1)] show ?thesis by auto
  qed
  then show "ma_keys m = ma_keys m'" "?all \<Longrightarrow> m = m'"
    "truthy (ev_token_peppers ev) = None \<longleftrightarrow> truthy (ev_password_pepper ev) = None"
    "truthy (ev_token_peppers ev) = None \<longleftrightarrow> truthy (ev_mac_key ev) = None"
    using environment_whole by blast+
qed

text \<open>C39. All processes of a deployment that start have the same peppers and the same MAC key, also when they start at once, and
  in whatever order their operations on the key file fall: none is there, one with all keys, or one from before signing
  keys. They have the same signing keys too if the peppers come from the file and it was none from before signing keys, or
  if the environment gives both. And a deployment whose environment sets some of the three secrets but not all does not
  start.\<close>

theorem one_deployment_one_key_set:
  assumes "path \<noteq> []" "start_all cr number ev (Some path) drs moves disk = (xs, disk')"
    and "Started (Inr m) \<in> set xs" "Started (Inr m') \<in> set xs"
  shows "ma_keys m = ma_keys m'
    \<and> ((if truthy (ev_token_peppers ev) = None then \<forall>f. disk path = Some (Stored f) \<longrightarrow> kf_signing f \<noteq> None else ev_signing ev \<noteq> None)
        \<longrightarrow> m = m')
    \<and> (truthy (ev_token_peppers ev) = None \<longleftrightarrow> truthy (ev_password_pepper ev) = None)
    \<and> (truthy (ev_token_peppers ev) = None \<longleftrightarrow> truthy (ev_mac_key ev) = None)"
  using deployment_keys [OF assms] by blast

definition demo_crypto :: crypto where
  "demo_crypto = \<lparr>cr_sha = (\<lambda>s. s), cr_import = (\<lambda>k. Inr (\<lambda>m. Inr (jwk_x k @ m)))\<rparr>"

definition no_environment :: environment where
  "no_environment = \<lparr>ev_token_peppers = None, ev_password_pepper = None, ev_mac_key = None, ev_signing = None, ev_production = True\<rparr>"

definition demo_draw :: "string \<Rightarrow> key_draw" where
  "demo_draw r = \<lparr>kd_pepper = r, kd_password = r, kd_mac = r,
     kd_signing = \<lparr>jwk_kty = ''EC'', jwk_crv = ''P-256'', jwk_x = r, jwk_y = r, jwk_d = Some r\<rparr>\<rparr>"

text \<open>Three processes: two find no file, the first of them makes it, the second is refused, the third reads it.\<close>

theorem one_deployment_one_key_set_witness:
  "\<exists>xs disk' m. start_all demo_crypto (\<lambda>s. JNonInt) no_environment (Some ''keys.json'')
      [demo_draw ''a'', demo_draw ''b'', demo_draw ''c''] [0, 1, 0, 1, 0, 2, 2] (\<lambda>p. None) = (xs, disk')
    \<and> xs ! 0 = Started (Inr m) \<and> xs ! 1 = Started (Inl (OtherError ''EEXIST'')) \<and> xs ! 2 = Started (Inr m)"
proof -
  let ?r = "start_all demo_crypto (\<lambda>s. JNonInt) no_environment (Some ''keys.json'')
      [demo_draw ''a'', demo_draw ''b'', demo_draw ''c''] [0, 1, 0, 1, 0, 2, 2] (\<lambda>p. None)"
  have "\<exists>m m'. fst ?r = [Started (Inr m), Started (Inl (OtherError ''EEXIST'')), Started (Inr m')]"
    by (simp add: start_all_def start_move_def start_step_def from_environment_def no_environment_def ephemeral_def demo_draw_def
        demo_crypto_def to_signing_key_def key_file_of_def material_of_file_def public_half_def map_filter_simps)
  then obtain m m' disk' where r: "?r = ([Started (Inr m), Started (Inl (OtherError ''EEXIST'')), Started (Inr m')], disk')"
    by (metis prod.collapse)
  have "m = m'" using one_deployment_one_key_set [OF _ r, of m m'] by (simp add: no_environment_def)
  with r show ?thesis by simp
qed

section \<open>Three weaknesses\<close>

text \<open>
  Two processes that start at once from a file without signing keys both read it before either writes, and each goes on with
  signing keys of its own; the file keeps those of the one that wrote last.
\<close>

lemma old_file_two_signing_keys:
  "\<exists>m m' f disk'. start_all demo_crypto (\<lambda>s. JNonInt) no_environment (Some ''keys.json'') [demo_draw ''a'', demo_draw ''b'']
      [0, 1, 0, 1, 0, 0, 1, 1] [''keys.json'' \<mapsto> Stored \<lparr>kf_peppers = [], kf_password = (1, []), kf_mac = [], kf_signing = None\<rparr>]
      = ([Started (Inr m), Started (Inr m')], disk')
    \<and> map sk_public (ma_signing m) \<noteq> map sk_public (ma_signing m')
    \<and> disk' ''keys.json'' = Some (Stored f) \<and> kf_signing f = Some (List.map_filter sk_private (ma_signing m'))"
proof -
  show ?thesis
    by (simp add: start_all_def start_move_def start_step_def from_environment_def no_environment_def signing_or_new_def demo_draw_def
        demo_crypto_def to_signing_key_def key_file_of_def material_of_file_def public_half_def map_filter_simps)
qed

text \<open>A key file is not held to the lengths the environment is held to: an empty MAC key is taken.\<close>

lemma short_file_keys_accepted:
  "\<exists>m. fst (from_file demo_crypto no_environment (demo_draw ''a'') (Some ''keys.json'')
      [''keys.json'' \<mapsto> Stored \<lparr>kf_peppers = [], kf_password = (1, []), kf_mac = [], kf_signing = Some []\<rparr>]) = Inr (Some m)
    \<and> internal_mac_key (ma_keys m) = [] \<and> token_peppers (ma_keys m) = []"
  by (simp add: from_file_def material_of_file_def from_base64_def map_filter_simps)

text \<open>Reloading drops material that came from a KMS, and nothing brings it back: outside production the process goes on with
  fresh keys of its own.\<close>

lemma reload_drops_kms:
  assumes "kp_file st = None" "ev = no_environment\<lparr>ev_production := False\<rparr>" "to_signing_key cr (kd_signing dr) = Inr s"
  shows "fst (keys cr number ev dr (reload_keys_for_rotation (use_key_material m st), disk))
    = Inr \<lparr>ma_keys = \<lparr>token_peppers = [(1, kd_pepper dr)], password_pepper = (1, kd_password dr), internal_mac_key = kd_mac dr\<rparr>,
           ma_signing = [s]\<rparr>"
  using assms by (simp add: keys_def reload_keys_for_rotation_def use_key_material_def from_environment_def no_environment_def
      from_file_def ephemeral_def)

end
