(* ===== verification/Kms.thy ===== *)
theory Kms
  imports Keys Sealer
begin

text \<open>
  Key material held by a key management service: \<open>server/src/security/kms.ts\<close>. The interface \<open>Kms\<close> is a record of
  operations on the state of the service, and \<open>kms_provider\<close> the contract the envelope code relies on; \<open>LocalKms\<close> keeps it,
  given the laws of AES-256-GCM (\<open>gcm_cipher\<close>, theory Sealer). The envelope file is its content in the shape the code takes it for.
\<close>

section \<open>The interface\<close>

record 's kms =
  km_name :: string
  km_encrypt :: "string \<Rightarrow> string \<Rightarrow> string \<Rightarrow> 's \<Rightarrow> error + string"
  km_decrypt :: "string \<Rightarrow> string \<Rightarrow> 's \<Rightarrow> error + string"
  km_create :: "string \<times> jwk \<Rightarrow> 's \<Rightarrow> (error + string) \<times> 's"
  km_public :: "string \<Rightarrow> 's \<Rightarrow> error + jwk"
  km_sign :: "string \<Rightarrow> string \<Rightarrow> 's \<Rightarrow> error + string"

text \<open>
  \<open>km_encrypt\<close> takes the random bytes of a call, the plaintext and the context, \<open>km_create\<close> the random identifier and the
  generated key. A state of the service is \<open>fine\<close>; \<open>free s id\<close> says that no key has this identifier yet. What was encrypted
  opens under its context only, and creating a key takes nothing away.
\<close>

locale kms_provider =
  fixes kms :: "'s kms" and fine :: "'s \<Rightarrow> bool" and free :: "'s \<Rightarrow> string \<Rightarrow> bool"
  assumes opens_again: "fine s \<Longrightarrow> length iv = 12 \<Longrightarrow> km_encrypt kms iv p ctx s = Inr c \<Longrightarrow> km_decrypt kms c ctx s = Inr p"
    and bound_to_context: "fine s \<Longrightarrow> length iv = 12 \<Longrightarrow> km_encrypt kms iv p ctx s = Inr c \<Longrightarrow> ctx' \<noteq> ctx \<Longrightarrow>
          \<exists>e. km_decrypt kms c ctx' s = Inl e"
    and create_fine: "fine s \<Longrightarrow> fine (snd (km_create kms dr s))"
    and create_same: "km_decrypt kms c ctx (snd (km_create kms dr s)) = km_decrypt kms c ctx s"
    and created: "km_create kms dr s = (Inr key, s') \<Longrightarrow> free s (fst dr) \<Longrightarrow> \<exists>k. km_public kms key s' = Inr k"
    and kept: "km_create kms dr s = (Inr key, s') \<Longrightarrow> free s (fst dr) \<Longrightarrow> km_public kms key' s = Inr k \<Longrightarrow> km_public kms key' s' = Inr k"

section \<open>The software service\<close>

text \<open>\<open>LocalKmsState\<close>: the key-encryption key in base64, and the private keys by their identifiers.\<close>

record local_kms =
  lk_kek :: string
  lk_keys :: "(string \<times> jwk) list"

definition local_encrypt :: "gcm \<Rightarrow> string \<Rightarrow> string \<Rightarrow> string \<Rightarrow> local_kms \<Rightarrow> error + string" where
  "local_encrypt g iv plaintext context s =
     (case gc_seal g (from_base64 (lk_kek s)) iv context plaintext of (tag, data) \<Rightarrow> Inr (iv @ tag @ data))"

definition local_decrypt :: "gcm \<Rightarrow> string \<Rightarrow> string \<Rightarrow> local_kms \<Rightarrow> error + string" where
  "local_decrypt g ciphertext context s =
     (case gc_open g (from_base64 (lk_kek s)) (take 12 ciphertext) context (take 16 (drop 12 ciphertext)) (drop 28 ciphertext) of
        None \<Rightarrow> Inl (OtherError ''Unsupported state or unable to authenticate data'')
      | Some p \<Rightarrow> Inr p)"

definition local_id :: "string \<Rightarrow> string" where
  "local_id rnd = ''local-'' @ hex rnd"

text \<open>The disk may refuse the write; the key is then in the memory of this process only, and the caller sees the error.\<close>

definition local_create :: "(string \<Rightarrow> bool) \<Rightarrow> string \<times> jwk \<Rightarrow> local_kms \<Rightarrow> (error + string) \<times> local_kms" where
  "local_create writable dr s =
     (let key = local_id (fst dr); s' = s\<lparr>lk_keys := AList.update key (snd dr) (lk_keys s)\<rparr>
      in if writable key then (Inr key, s') else (Inl (OtherError ''EACCES''), s'))"

definition local_public :: "string \<Rightarrow> local_kms \<Rightarrow> error + jwk" where
  "local_public key s =
     (case map_of (lk_keys s) key of
        None \<Rightarrow> Inl (OtherError (''KMS has no key '' @ key))
      | Some k \<Rightarrow> Inr (public_half k))"

definition local_sign :: "crypto \<Rightarrow> string \<Rightarrow> string \<Rightarrow> local_kms \<Rightarrow> error + string" where
  "local_sign cr key data s =
     (case map_of (lk_keys s) key of
        None \<Rightarrow> Inl (OtherError (''KMS has no key '' @ key))
      | Some k \<Rightarrow> (case cr_import cr k of Inl e \<Rightarrow> Inl e | Inr sign \<Rightarrow> sign data))"

definition local_service :: "gcm \<Rightarrow> crypto \<Rightarrow> (string \<Rightarrow> bool) \<Rightarrow> local_kms kms" where
  "local_service g cr writable =
     \<lparr>km_name = ''local'', km_encrypt = local_encrypt g, km_decrypt = local_decrypt g, km_create = local_create writable,
      km_public = local_public, km_sign = local_sign cr\<rparr>"

text \<open>The constructor: the state of the file, or a new one.\<close>

definition new_local_kms :: "string \<Rightarrow> local_kms stored option \<Rightarrow> error + local_kms \<times> local_kms stored option" where
  "new_local_kms rnd file =
     (case file of
        Some (Stored s) \<Rightarrow> Inr (s, file)
      | Some Unreadable \<Rightarrow> Inl (OtherError ''SyntaxError'')
      | None \<Rightarrow> (let s = \<lparr>lk_kek = base64 rnd, lk_keys = []\<rparr> in Inr (s, Some (Stored s))))"

text \<open>\<open>kmsFromEnvironment\<close>: whether KMS_PROVIDER names a service, and the path of the local one.\<close>

definition kms_from_environment :: "string option \<Rightarrow> string option \<Rightarrow> string \<Rightarrow> error + string option" where
  "kms_from_environment provider local_file default_path =
     (case truthy provider of
        None \<Rightarrow> Inr None
      | Some p \<Rightarrow>
          if p = ''local'' then Inr (Some (case local_file of None \<Rightarrow> default_path | Some f \<Rightarrow> f))
          else Inl (OtherError (''KMS_PROVIDER='' @ p @ '' is not a known provider; \"local\" is the one built in.'')))"

context gcm_cipher begin

lemma local_decrypts:
  assumes "length iv = 12" "local_encrypt g iv p ctx s = Inr c"
  shows "local_decrypt g c ctx' s = (if ctx' = ctx then Inr p else Inl (OtherError ''Unsupported state or unable to authenticate data''))"
proof -
  obtain tag data where t: "gc_seal g (from_base64 (lk_kek s)) iv ctx p = (tag, data)" by fastforce
  with assms tag_length [of "from_base64 (lk_kek s)" iv ctx p] have "c = iv @ tag @ data" "length tag = 16"
    by (auto simp: local_encrypt_def)
  with assms(1) t gcm_opens [of "from_base64 (lk_kek s)" iv ctx p] gcm_binds [of ctx' ctx "from_base64 (lk_kek s)" iv p]
  show ?thesis by (simp add: local_decrypt_def)
qed

end

sublocale gcm_cipher \<subseteq> local_provider: kms_provider "local_service g cr writable" "\<lambda>s. True" "\<lambda>s rnd. map_of (lk_keys s) (local_id rnd) = None"
  for cr writable
proof
  fix s s' :: local_kms and iv p ctx ctx' c dr key key' k
  show "length iv = 12 \<Longrightarrow> km_encrypt (local_service g cr writable) iv p ctx s = Inr c \<Longrightarrow>
      km_decrypt (local_service g cr writable) c ctx s = Inr p"
    by (simp add: local_service_def local_decrypts)
  show "length iv = 12 \<Longrightarrow> km_encrypt (local_service g cr writable) iv p ctx s = Inr c \<Longrightarrow> ctx' \<noteq> ctx \<Longrightarrow>
      \<exists>e. km_decrypt (local_service g cr writable) c ctx' s = Inl e"
    by (simp add: local_service_def local_decrypts)
  show "km_decrypt (local_service g cr writable) c ctx (snd (km_create (local_service g cr writable) dr s))
      = km_decrypt (local_service g cr writable) c ctx s"
    by (simp add: local_service_def local_decrypt_def local_create_def Let_def)
  show "km_create (local_service g cr writable) dr s = (Inr key, s') \<Longrightarrow> map_of (lk_keys s) (local_id (fst dr)) = None \<Longrightarrow>
      \<exists>k. km_public (local_service g cr writable) key s' = Inr k"
    by (auto simp: local_service_def local_create_def local_public_def Let_def update_conv' split: if_splits)
  show "km_create (local_service g cr writable) dr s = (Inr key, s') \<Longrightarrow> map_of (lk_keys s) (local_id (fst dr)) = None \<Longrightarrow>
      km_public (local_service g cr writable) key' s = Inr k \<Longrightarrow> km_public (local_service g cr writable) key' s' = Inr k"
    by (auto simp: local_service_def local_create_def local_public_def Let_def update_conv' split: if_splits option.splits)
qed simp

section \<open>The envelope\<close>

record envelope =
  ef_kms :: string
  ef_peppers :: "(nat \<times> string) list"
  ef_password :: "nat \<times> string"
  ef_mac :: string
  ef_signing :: "string list"

type_synonym envelope_disk = "string \<Rightarrow> envelope stored option"

definition pepper_context :: "nat \<Rightarrow> string" where
  "pepper_context version = ''iot-switch:token-pepper:v'' @ dec version"

definition password_context :: "nat \<Rightarrow> string" where
  "password_context version = ''iot-switch:password-pepper:v'' @ dec version"

definition mac_context :: string where
  "mac_context = ''iot-switch:internal-mac-key''"

text \<open>A signing key of the service; its signatures are made by the service in the state it was read in.\<close>

definition signing_key_from_kms :: "'s kms \<Rightarrow> crypto \<Rightarrow> string \<Rightarrow> 's \<Rightarrow> error + signing_key" where
  "signing_key_from_kms kms cr key s =
     (case km_public kms key s of
        Inl e \<Rightarrow> Inl e
      | Inr k \<Rightarrow> Inr \<lparr>sk_kid = thumbprint cr k, sk_public = k, sk_sign = (\<lambda>data. km_sign kms key data s), sk_private = None\<rparr>)"

definition wrap_key :: "'s kms \<Rightarrow> string \<Rightarrow> nat \<times> string \<Rightarrow> string \<Rightarrow> 's \<Rightarrow> error + nat \<times> string" where
  "wrap_key kms iv key context s =
     (case km_encrypt kms iv (snd key) context s of Inl e \<Rightarrow> Inl e | Inr c \<Rightarrow> Inr (fst key, base64 c))"

definition unwrap_key :: "'s kms \<Rightarrow> string \<Rightarrow> nat \<times> string \<Rightarrow> 's \<Rightarrow> error + nat \<times> string" where
  "unwrap_key kms context entry s =
     (case km_decrypt kms (from_base64 (snd entry)) context s of Inl e \<Rightarrow> Inl e | Inr k \<Rightarrow> Inr (fst entry, k))"

text \<open>\<open>Promise.all\<close> over a list: all results, or an error.\<close>

fun all_of :: "('a \<Rightarrow> error + 'b) \<Rightarrow> 'a list \<Rightarrow> error + 'b list" where
  "all_of f [] = Inr []"
| "all_of f (x # xs) =
     (case f x of Inl e \<Rightarrow> Inl e | Inr y \<Rightarrow> (case all_of f xs of Inl e \<Rightarrow> Inl e | Inr ys \<Rightarrow> Inr (y # ys)))"

record envelope_draw =
  ed_pepper :: string
  ed_password :: string
  ed_mac :: string
  ed_ivs :: "string \<times> string \<times> string"
  ed_key :: "string \<times> jwk"

definition create_envelope ::
  "'s kms \<Rightarrow> envelope_draw \<Rightarrow> string \<Rightarrow> envelope_disk \<times> 's \<Rightarrow> (error + unit) \<times> envelope_disk \<times> 's" where
  "create_envelope kms dr path st =
     (let (disk, s) = st; (iv1, iv2, iv3) = ed_ivs dr in
      case wrap_key kms iv1 (1, ed_pepper dr) (pepper_context 1) s of
        Inl e \<Rightarrow> (Inl e, st)
      | Inr pepper \<Rightarrow>
          (case wrap_key kms iv2 (1, ed_password dr) (password_context 1) s of
             Inl e \<Rightarrow> (Inl e, st)
           | Inr password \<Rightarrow>
               (case km_encrypt kms iv3 (ed_mac dr) mac_context s of
                  Inl e \<Rightarrow> (Inl e, st)
                | Inr mac \<Rightarrow>
                    (case km_create kms (ed_key dr) s of
                       (Inl e, s') \<Rightarrow> (Inl e, disk, s')
                     | (Inr key, s') \<Rightarrow>
                         if disk path \<noteq> None then (Inl (OtherError ''EEXIST''), disk, s')
                         else (Inr (), disk(path \<mapsto> Stored \<lparr>ef_kms = km_name kms, ef_peppers = [pepper], ef_password = password,
                                                            ef_mac = base64 mac, ef_signing = [key]\<rparr>), s')))))"

definition read_envelope :: "string \<Rightarrow> envelope_disk \<Rightarrow> error + envelope" where
  "read_envelope path disk =
     (case disk path of
        None \<Rightarrow> Inl (OtherError ''ENOENT'')
      | Some Unreadable \<Rightarrow> Inl (OtherError ''SyntaxError'')
      | Some (Stored f) \<Rightarrow> Inr f)"

definition envelope_material :: "'s kms \<Rightarrow> crypto \<Rightarrow> envelope \<Rightarrow> 's \<Rightarrow> error + material" where
  "envelope_material kms cr f s =
     (if ef_kms f \<noteq> km_name kms
      then Inl (OtherError (''The key file was made with the '' @ ef_kms f @ '' KMS, not '' @ km_name kms))
      else (case all_of (\<lambda>entry. unwrap_key kms (pepper_context (fst entry)) entry s) (ef_peppers f) of
              Inl e \<Rightarrow> Inl e
            | Inr peppers \<Rightarrow>
                (case unwrap_key kms (password_context (fst (ef_password f))) (ef_password f) s of
                   Inl e \<Rightarrow> Inl e
                 | Inr password \<Rightarrow>
                     (case km_decrypt kms (from_base64 (ef_mac f)) mac_context s of
                        Inl e \<Rightarrow> Inl e
                      | Inr mac \<Rightarrow>
                          (case all_of (\<lambda>key. signing_key_from_kms kms cr key s) (ef_signing f) of
                             Inl e \<Rightarrow> Inl e
                           | Inr ss \<Rightarrow> Inr
                               \<lparr>ma_keys = \<lparr>token_peppers = peppers, password_pepper = password, internal_mac_key = mac\<rparr>,
                                ma_signing = ss\<rparr>)))))"

text \<open>\<open>openEnvelope\<close>; \<open>seen\<close> is the answer of \<open>existsSync\<close>.\<close>

definition open_envelope ::
  "'s kms \<Rightarrow> crypto \<Rightarrow> bool \<Rightarrow> envelope_draw \<Rightarrow> string \<Rightarrow> envelope_disk \<times> 's \<Rightarrow> (error + material) \<times> envelope_disk \<times> 's" where
  "open_envelope kms cr seen dr path st =
     (case (if seen then (Inr (), st) else create_envelope kms dr path st) of
        (Inl e, st') \<Rightarrow> (Inl e, st')
      | (Inr _, disk, s) \<Rightarrow>
          (case read_envelope path disk of
             Inl e \<Rightarrow> (Inl e, disk, s)
           | Inr f \<Rightarrow> (envelope_material kms cr f s, disk, s)))"

text \<open>
  Rotation. An envelope has a pepper and a signing key; of one without, which no code writes, the rest of \<open>rotateTokenPepper\<close>
  and \<open>rotateSigningKey\<close> is not modelled.
\<close>

definition rotate_token_pepper ::
  "'s kms \<Rightarrow> string \<Rightarrow> string \<Rightarrow> string \<Rightarrow> envelope_disk \<times> 's \<Rightarrow> (error + nat) \<times> envelope_disk \<times> 's" where
  "rotate_token_pepper kms path key iv st =
     (let (disk, s) = st in
      case read_envelope path disk of
        Inl e \<Rightarrow> (Inl e, st)
      | Inr f \<Rightarrow>
          (case ef_peppers f of
             [] \<Rightarrow> (Inl (OtherError ''no pepper''), st)
           | current # _ \<Rightarrow>
               (let next_version = Max (set (map fst (ef_peppers f))) + 1 in
                case wrap_key kms iv (next_version, key) (pepper_context next_version) s of
                  Inl e \<Rightarrow> (Inl e, st)
                | Inr wrapped \<Rightarrow> (Inr next_version, disk(path \<mapsto> Stored (f\<lparr>ef_peppers := [wrapped, current]\<rparr>)), s))))"

definition rotate_signing_key ::
  "'s kms \<Rightarrow> string \<Rightarrow> string \<times> jwk \<Rightarrow> envelope_disk \<times> 's \<Rightarrow> (error + string) \<times> envelope_disk \<times> 's" where
  "rotate_signing_key kms path dr st =
     (let (disk, s) = st in
      case read_envelope path disk of
        Inl e \<Rightarrow> (Inl e, st)
      | Inr f \<Rightarrow>
          (case ef_signing f of
             [] \<Rightarrow> (Inl (OtherError ''no signing key''), st)
           | current # _ \<Rightarrow>
               (case km_create kms dr s of
                  (Inl e, s') \<Rightarrow> (Inl e, disk, s')
                | (Inr key, s') \<Rightarrow> (Inr key, disk(path \<mapsto> Stored (f\<lparr>ef_signing := [key, current]\<rparr>)), s'))))"

section \<open>What an envelope gives\<close>

lemma all_of_Inr: "all_of f xs = Inr ys \<longleftrightarrow> list_all2 (\<lambda>x y. f x = Inr y) xs ys"
proof (induction xs arbitrary: ys)
  case (Cons x xs)
  show ?case by (cases ys; cases "all_of f xs") (auto simp: Cons.IH [symmetric] split: sum.splits)
qed auto

lemma all_of_member: "all_of f xs = Inr ys \<Longrightarrow> x \<in> set xs \<Longrightarrow> \<exists>y. f x = Inr y"
  by (induction xs arbitrary: ys) (auto split: sum.splits)

lemma all_of_key: "all_of f xs = Inr ys \<Longrightarrow> (\<And>x y. f x = Inr y \<Longrightarrow> k y = h x) \<Longrightarrow> map k ys = map h xs"
  by (induction xs arbitrary: ys) (auto split: sum.splits)

text \<open>The parts of an envelope that opens.\<close>

lemma envelope_material_Inr:
  "envelope_material kms cr f s = Inr m \<longleftrightarrow> ef_kms f = km_name kms
     \<and> all_of (\<lambda>entry. unwrap_key kms (pepper_context (fst entry)) entry s) (ef_peppers f) = Inr (token_peppers (ma_keys m))
     \<and> unwrap_key kms (password_context (fst (ef_password f))) (ef_password f) s = Inr (password_pepper (ma_keys m))
     \<and> km_decrypt kms (from_base64 (ef_mac f)) mac_context s = Inr (internal_mac_key (ma_keys m))
     \<and> all_of (\<lambda>key. signing_key_from_kms kms cr key s) (ef_signing f) = Inr (ma_signing m)"
  by (cases m; cases "ma_keys m") (auto simp: envelope_material_def split: sum.splits)

lemma open_seen:
  "open_envelope kms cr True dr path (disk, s) = (Inr m, disk', s') \<longleftrightarrow>
     (\<exists>f. disk path = Some (Stored f) \<and> envelope_material kms cr f s = Inr m) \<and> disk' = disk \<and> s' = s"
  by (auto simp: open_envelope_def read_envelope_def split: option.splits stored.splits)

context kms_provider begin

lemma unwraps:
  assumes "fine s" "length iv = 12" "wrap_key kms iv key ctx s = Inr entry"
  shows "unwrap_key kms ctx entry s = Inr key" "fst entry = fst key"
  using assms opens_again [OF assms(1,2), of "snd key" ctx] by (auto simp: wrap_key_def unwrap_key_def split: sum.splits)

lemma rotated_pepper:
  assumes "fine s" "length iv = 12" "open_envelope kms cr True dr path (disk, s) = (Inr m, disk, s)"
    "rotate_token_pepper kms path key iv (disk, s) = (Inr v, disk', s')"
  shows "open_envelope kms cr True dr' path (disk', s')
      = (Inr (m\<lparr>ma_keys := (ma_keys m)\<lparr>token_peppers := [(v, key), hd (token_peppers (ma_keys m))]\<rparr>\<rparr>), disk', s')"
    and "\<forall>(v', k) \<in> set (token_peppers (ma_keys m)). v' < v" "s' = s" "token_peppers (ma_keys m) \<noteq> []"
proof -
  obtain f where f: "disk path = Some (Stored f)" "envelope_material kms cr f s = Inr m"
    using assms(3) unfolding open_seen by blast
  obtain current older where p: "ef_peppers f = current # older"
    using assms(4) f(1) by (auto simp: rotate_token_pepper_def read_envelope_def split: list.splits)
  let ?v = "Max (set (map fst (ef_peppers f))) + 1"
  obtain wrapped where w: "wrap_key kms iv (?v, key) (pepper_context ?v) s = Inr wrapped" "v = ?v" "s' = s"
    "disk' = disk(path \<mapsto> Stored (f\<lparr>ef_peppers := [wrapped, current]\<rparr>))"
    using assms(4) f(1) p by (auto simp: rotate_token_pepper_def read_envelope_def Let_def split: sum.splits)
  show "s' = s" by (rule w(3))
  note parts = f(2) [unfolded envelope_material_Inr p]
  then obtain k ks where k: "token_peppers (ma_keys m) = k # ks" "unwrap_key kms (pepper_context (fst current)) current s = Inr k"
    by (cases "token_peppers (ma_keys m)") (auto split: sum.splits)
  then show "token_peppers (ma_keys m) \<noteq> []" by simp
  have "all_of (\<lambda>entry. unwrap_key kms (pepper_context (fst entry)) entry s) [wrapped, current] = Inr [(v, key), k]"
    using unwraps [OF assms(1,2) w(1)] k(2) w(2) by simp
  with parts have "envelope_material kms cr (f\<lparr>ef_peppers := [wrapped, current]\<rparr>) s
      = Inr (m\<lparr>ma_keys := (ma_keys m)\<lparr>token_peppers := [(v, key), k]\<rparr>\<rparr>)"
    unfolding envelope_material_Inr by simp
  with w(3,4) k(1) show "open_envelope kms cr True dr' path (disk', s')
      = (Inr (m\<lparr>ma_keys := (ma_keys m)\<lparr>token_peppers := [(v, key), hd (token_peppers (ma_keys m))]\<rparr>\<rparr>), disk', s')"
    unfolding open_seen by simp
  have "map fst (token_peppers (ma_keys m)) = map fst (ef_peppers f)"
    using f(2) unfolding envelope_material_Inr by (auto intro!: all_of_key simp: unwrap_key_def split: sum.splits)
  then have "v' \<in> fst ` set (token_peppers (ma_keys m)) \<Longrightarrow> v' \<le> Max (set (map fst (ef_peppers f)))" for v'
    by (metis Max_ge List.finite_set list.set_map)
  then show "\<forall>(v', k) \<in> set (token_peppers (ma_keys m)). v' < v" using w(2) by force
qed

lemma rotated_signing:
  assumes "fine s" "free s (fst dk)" "open_envelope kms cr True dr path (disk, s) = (Inr m, disk, s)"
    "rotate_signing_key kms path dk (disk, s) = (Inr key, disk', s')"
  shows "\<exists>new old. open_envelope kms cr True dr' path (disk', s') = (Inr (m\<lparr>ma_signing := [new, old]\<rparr>), disk', s')
      \<and> ma_signing m \<noteq> [] \<and> sk_kid old = sk_kid (hd (ma_signing m)) \<and> sk_public old = sk_public (hd (ma_signing m))
      \<and> km_public kms key s' = Inr (sk_public new)"
proof -
  obtain f where f: "disk path = Some (Stored f)" "envelope_material kms cr f s = Inr m"
    using assms(3) unfolding open_seen by blast
  obtain current older where p: "ef_signing f = current # older"
    using assms(4) f(1) by (auto simp: rotate_signing_key_def read_envelope_def split: list.splits)
  then have c: "km_create kms dk s = (Inr key, s')" "disk' = disk(path \<mapsto> Stored (f\<lparr>ef_signing := [key, current]\<rparr>))"
    using assms(4) f(1) by (auto simp: rotate_signing_key_def read_envelope_def split: sum.splits prod.splits)
  note parts = f(2) [unfolded envelope_material_Inr p]
  then obtain k ks where k: "ma_signing m = k # ks" "signing_key_from_kms kms cr current s = Inr k"
    by (cases "ma_signing m") (auto split: sum.splits)
  then obtain j where j: "km_public kms current s = Inr j" "sk_kid k = thumbprint cr j" "sk_public k = j"
    by (auto simp: signing_key_from_kms_def split: sum.splits)
  from kept [OF c(1) assms(2) j(1)] have j': "km_public kms current s' = Inr j" .
  obtain n where n: "km_public kms key s' = Inr n" using created [OF c(1) assms(2)] by blast
  let ?key = "\<lambda>i p. \<lparr>sk_kid = thumbprint cr p, sk_public = p, sk_sign = (\<lambda>data. km_sign kms i data s'), sk_private = None\<rparr>"
  have same: "km_decrypt kms x ctx s' = km_decrypt kms x ctx s" for x ctx using create_same [of x ctx dk s] c(1) by simp
  have "envelope_material kms cr (f\<lparr>ef_signing := [key, current]\<rparr>) s' = Inr (m\<lparr>ma_signing := [?key key n, ?key current j]\<rparr>)"
    using parts n j' unfolding envelope_material_Inr by (simp add: unwrap_key_def same signing_key_from_kms_def)
  then have "open_envelope kms cr True dr' path (disk', s') = (Inr (m\<lparr>ma_signing := [?key key n, ?key current j]\<rparr>), disk', s')"
    unfolding open_seen using c(2) by simp
  with k(1) j n show ?thesis by (intro exI [of _ "?key key n"] exI [of _ "?key current j"]) simp
qed

lemma created_opens:
  assumes "fine s" "free s (fst (ed_key dr))" "ed_ivs dr = (iv1, iv2, iv3)" "length iv1 = 12" "length iv2 = 12" "length iv3 = 12"
    "create_envelope kms dr path (disk, s) = (Inr (), disk', s')"
  shows "\<exists>k. open_envelope kms cr True dr' path (disk', s')
      = (Inr \<lparr>ma_keys = \<lparr>token_peppers = [(1, ed_pepper dr)], password_pepper = (1, ed_password dr), internal_mac_key = ed_mac dr\<rparr>,
              ma_signing = [k]\<rparr>, disk', s')"
proof -
  obtain pepper password mac key where c: "wrap_key kms iv1 (1, ed_pepper dr) (pepper_context 1) s = Inr pepper"
    "wrap_key kms iv2 (1, ed_password dr) (password_context 1) s = Inr password" "km_encrypt kms iv3 (ed_mac dr) mac_context s = Inr mac"
    "km_create kms (ed_key dr) s = (Inr key, s')"
    "disk' = disk(path \<mapsto> Stored \<lparr>ef_kms = km_name kms, ef_peppers = [pepper], ef_password = password, ef_mac = base64 mac, ef_signing = [key]\<rparr>)"
    using assms(3,7) by (auto simp: create_envelope_def Let_def split: sum.splits prod.splits if_splits)
  have same: "km_decrypt kms x ctx s' = km_decrypt kms x ctx s" for x ctx using create_same [of x ctx "ed_key dr" s] c(4) by simp
  then have same': "unwrap_key kms ctx e s' = unwrap_key kms ctx e s" for ctx e by (simp add: unwrap_key_def)
  obtain n where "km_public kms key s' = Inr n" using created [OF c(4) assms(2)] by blast
  then obtain k where k: "signing_key_from_kms kms cr key s' = Inr k" by (simp add: signing_key_from_kms_def)
  note u = unwraps [OF assms(1,4) c(1)] unwraps [OF assms(1,5) c(2)] opens_again [OF assms(1,6) c(3)]
  show ?thesis
    unfolding open_seen envelope_material_Inr using u k by (intro exI [of _ k]) (simp add: c(5) same same' all_of_Inr)
qed

end

text \<open>What an envelope is created with is what every process gets from it: the peppers and the MAC key that were drawn, and
  one signing key of the service.\<close>

theorem envelope_roundtrip:
  assumes "kms_provider kms fine free" "fine s" "free s (fst (ed_key dr))"
    and "ed_ivs dr = (iv1, iv2, iv3)" "length iv1 = 12" "length iv2 = 12" "length iv3 = 12"
    and "create_envelope kms dr path (disk, s) = (Inr (), disk', s')"
  shows "\<exists>k. open_envelope kms cr True dr' path (disk', s')
      = (Inr \<lparr>ma_keys = \<lparr>token_peppers = [(1, ed_pepper dr)], password_pepper = (1, ed_password dr), internal_mac_key = ed_mac dr\<rparr>,
              ma_signing = [k]\<rparr>, disk', s')"
  using kms_provider.created_opens [OF assms] .

lemma rotation_keeps_tokens:
  assumes "kms_provider kms fine free" "fine s" "length iv = 12"
    and "open_envelope kms cr True dr path (disk, s) = (Inr m, disk, s)" "rotate_token_pepper kms path key iv (disk, s) = (Inr v, disk', s')"
    and "open_envelope kms cr True dr' path (disk', s') = (Inr m', disk'', s'')"
  shows "token_peppers (ma_keys m') = [(v, key), hd (token_peppers (ma_keys m))]"
    and "\<forall>(v', k) \<in> set (token_peppers (ma_keys m)). v' < v"
    and "password_pepper (ma_keys m') = password_pepper (ma_keys m)" "internal_mac_key (ma_keys m') = internal_mac_key (ma_keys m)"
    and "ma_signing m' = ma_signing m"
    and "token_digest hmac (ma_keys m) t = Inr d \<Longrightarrow> d \<in> set (token_digest_candidates hmac (ma_keys m') t)"
proof -
  note r = kms_provider.rotated_pepper [OF assms(1-5)]
  have m': "m' = m\<lparr>ma_keys := (ma_keys m)\<lparr>token_peppers := [(v, key), hd (token_peppers (ma_keys m))]\<rparr>\<rparr>"
    using assms(6) r(1) [of dr'] by simp
  then show "token_peppers (ma_keys m') = [(v, key), hd (token_peppers (ma_keys m))]"
    "password_pepper (ma_keys m') = password_pepper (ma_keys m)" "internal_mac_key (ma_keys m') = internal_mac_key (ma_keys m)"
    "ma_signing m' = ma_signing m" by simp_all
  show "\<forall>(v', k) \<in> set (token_peppers (ma_keys m)). v' < v" by (rule r(2))
  show "token_digest hmac (ma_keys m) t = Inr d \<Longrightarrow> d \<in> set (token_digest_candidates hmac (ma_keys m') t)"
    by (auto simp: m' token_digest_def token_digest_candidates_def split: list.splits)
qed

text \<open>C40. Rotating a pepper makes the new one current under a version above all others and leaves the one before it, the password
  pepper, the MAC key and the signing keys as they were. A process that opens the envelope afterwards finds every token that
  was stored under the current pepper before.\<close>

theorem pepper_rotation:
  assumes "kms_provider kms fine free" "fine s" "length iv = 12"
    and "open_envelope kms cr True dr path (disk, s) = (Inr m, disk, s)" "rotate_token_pepper kms path key iv (disk, s) = (Inr v, disk', s')"
    and "open_envelope kms cr True dr' path (disk', s') = (Inr m', disk'', s'')"
  shows "token_peppers (ma_keys m') = [(v, key), hd (token_peppers (ma_keys m))]
    \<and> (\<forall>(v', k) \<in> set (token_peppers (ma_keys m)). v' < v)
    \<and> password_pepper (ma_keys m') = password_pepper (ma_keys m) \<and> internal_mac_key (ma_keys m') = internal_mac_key (ma_keys m)
    \<and> ma_signing m' = ma_signing m
    \<and> (\<forall>t d. token_digest hmac (ma_keys m) t = Inr d \<longrightarrow> d \<in> set (token_digest_candidates hmac (ma_keys m') t))"
  using rotation_keeps_tokens [OF assms] by blast

text \<open>An envelope that is not whole does not open: one made with another service, one in which a secret was put in the place
  of another, or one that names a signing key the service does not have.\<close>

theorem envelope_fails_closed:
  assumes "kms_provider kms fine free" "fine s" "length iv = 12" "km_encrypt kms iv p ctx s = Inr c" "disk path = Some (Stored f)"
    and "ef_kms f \<noteq> km_name kms \<or> (\<exists>v. (v, base64 c) \<in> set (ef_peppers f) \<and> ctx \<noteq> pepper_context v)
      \<or> (\<exists>v. ef_password f = (v, base64 c) \<and> ctx \<noteq> password_context v) \<or> ef_mac f = base64 c \<and> ctx \<noteq> mac_context
      \<or> (\<exists>key \<in> set (ef_signing f). \<exists>e. km_public kms key s = Inl e)"
  shows "\<exists>e. open_envelope kms cr True dr path (disk, s) = (Inl e, disk, s)"
proof (rule ccontr)
  assume n: "\<not> ?thesis"
  then obtain m where "envelope_material kms cr f s = Inr m"
    by (cases "envelope_material kms cr f s") (auto simp: open_envelope_def read_envelope_def assms(5))
  note m = this [unfolded envelope_material_Inr]
  have bad: "ctx' \<noteq> ctx \<Longrightarrow> km_decrypt kms c ctx' s \<noteq> Inr x" for ctx' x
    using kms_provider.bound_to_context [OF assms(1-4), of ctx'] by force
  from assms(6) show False
  proof (elim disjE exE conjE bexE)
    fix v assume v: "(v, base64 c) \<in> set (ef_peppers f)" "ctx \<noteq> pepper_context v"
    from m all_of_member [OF _ v(1)] obtain y where "unwrap_key kms (pepper_context v) (v, base64 c) s = Inr y" by fastforce
    with bad [of "pepper_context v"] v(2) show False by (auto simp: unwrap_key_def split: sum.splits)
  next
    fix key e assume "key \<in> set (ef_signing f)" "km_public kms key s = Inl e"
    with m all_of_member [of "\<lambda>key. signing_key_from_kms kms cr key s"] show False by (fastforce simp: signing_key_from_kms_def)
  next
    fix v assume "ef_password f = (v, base64 c)" "ctx \<noteq> password_context v"
    with m bad [of "password_context v"] show False by (auto simp: unwrap_key_def split: sum.splits)
  next
    assume "ef_mac f = base64 c" "ctx \<noteq> mac_context"
    with m bad [of mac_context] show False by auto
  qed (use m in blast)
qed

section \<open>Start-up\<close>

text \<open>
  \<open>loadKeys\<close> of \<open>server/src/entry/common.ts\<close>. The files are the key file, the envelopes and the states of local services; a
  start has what it saw of the file, its draws and the random bytes of a new local service. Its warning is left out.
\<close>

record key_site =
  ke_env :: environment
  ke_provider :: "string option"
  ke_local_file :: "string option"
  ke_kms_file :: "string option"
  ke_database :: string

record key_files =
  fl_keys :: key_disk
  fl_envelopes :: envelope_disk
  fl_services :: "string \<Rightarrow> local_kms stored option"

record start_draw =
  sd_seen :: bool
  sd_envelope :: envelope_draw
  sd_kek :: string
  sd_keys :: key_draw

definition load_keys ::
  "gcm \<Rightarrow> crypto \<Rightarrow> (string \<Rightarrow> jsval) \<Rightarrow> key_site \<Rightarrow> start_draw \<Rightarrow> key_state \<times> key_files
   \<Rightarrow> (error + material) \<times> key_state \<times> key_files" where
  "load_keys g cr number site dr st =
     (let (ks, files) = st;
          ask = (\<lambda>ks files. case keys cr number (ke_env site) (sd_keys dr) (ks, fl_keys files) of
                   (r, ks', disk') \<Rightarrow> (r, ks', files\<lparr>fl_keys := disk'\<rparr>))
      in case kms_from_environment (ke_provider site) (ke_local_file site) (ke_database site @ ''/local-kms.json'') of
           Inl e \<Rightarrow> (Inl e, st)
         | Inr None \<Rightarrow>
             ask (if truthy (ev_token_peppers (ke_env site)) = None then use_key_file (ke_database site @ ''/keys.json'') ks else ks) files
         | Inr (Some path) \<Rightarrow>
             (case new_local_kms (sd_kek dr) (fl_services files path) of
                Inl e \<Rightarrow> (Inl e, st)
              | Inr (s, file) \<Rightarrow>
                  (let envelope_path = (case ke_kms_file site of None \<Rightarrow> ke_database site @ ''/keys.kms.json'' | Some p \<Rightarrow> p)
                   in case open_envelope (local_service g cr (\<lambda>p. True)) cr (sd_seen dr) (sd_envelope dr) envelope_path (fl_envelopes files, s) of
                        (r, envelopes, s') \<Rightarrow>
                          (let files' = files\<lparr>fl_envelopes := envelopes, fl_services := (fl_services files)(path \<mapsto> Stored s')\<rparr>
                           in case r of
                                Inl e \<Rightarrow> (Inl e, ks, files')
                              | Inr m \<Rightarrow> ask (use_key_material m ks) files'))))"

text \<open>With a service configured, a process has the material of the envelope or does not start; nothing else is tried.\<close>

lemma kms_never_falls_back:
  assumes "truthy (ke_provider site) \<noteq> None" "load_keys g cr number site dr (ks, files) = (Inr m, ks', files')"
  shows "\<exists>path s envelopes s'. open_envelope (local_service g cr (\<lambda>p. True)) cr (sd_seen dr) (sd_envelope dr) path (fl_envelopes files, s)
      = (Inr m, envelopes, s') \<and> kp_material ks' = Some m \<and> fl_keys files' = fl_keys files"
  using assms by (auto simp: load_keys_def kms_from_environment_def Let_def keys_def use_key_material_def split: option.splits sum.splits prod.splits if_splits)

section \<open>A service and an envelope\<close>

definition demo_kms :: "local_kms kms" where
  "demo_kms = local_service demo_gcm demo_crypto (\<lambda>p. True)"

definition demo_service :: local_kms where
  "demo_service = \<lparr>lk_kek = [], lk_keys = []\<rparr>"

definition demo_iv :: string where
  "demo_iv = ''abcdefghijkl''"

definition demo_private :: jwk where
  "demo_private = \<lparr>jwk_kty = ''EC'', jwk_crv = ''P-256'', jwk_x = ''x'', jwk_y = ''y'', jwk_d = Some ''d''\<rparr>"

definition demo_envelope_draw :: envelope_draw where
  "demo_envelope_draw = \<lparr>ed_pepper = ''p'', ed_password = ''q'', ed_mac = ''m'', ed_ivs = (demo_iv, demo_iv, demo_iv), ed_key = (''k'', demo_private)\<rparr>"

abbreviation demo_created where
  "demo_created \<equiv> create_envelope demo_kms demo_envelope_draw ''e'' (\<lambda>p. None, demo_service)"

lemma demo_provider: "kms_provider demo_kms (\<lambda>s. True) (\<lambda>s rnd. map_of (lk_keys s) (local_id rnd) = None)"
  unfolding demo_kms_def by (rule demo_cipher.local_provider.kms_provider_axioms)

lemma demo_creates: "demo_created = (Inr (), fst (snd demo_created), snd (snd demo_created))"
proof -
  have "fst demo_created = Inr ()"
    by (simp add: create_envelope_def demo_envelope_draw_def wrap_key_def demo_kms_def local_service_def local_encrypt_def
        local_create_def Let_def case_prod_beta)
  then show ?thesis by (metis prod.collapse)
qed

lemma demo_draw_fine: "ed_ivs demo_envelope_draw = (demo_iv, demo_iv, demo_iv)" "length demo_iv = 12"
  "map_of (lk_keys demo_service) (local_id (fst (ed_key demo_envelope_draw))) = None"
  by (simp_all add: demo_envelope_draw_def demo_iv_def demo_service_def)

theorem envelope_roundtrip_witness:
  "\<exists>k. open_envelope demo_kms demo_crypto True demo_envelope_draw ''e'' (snd demo_created)
     = (Inr \<lparr>ma_keys = \<lparr>token_peppers = [(1, ''p'')], password_pepper = (1, ''q''), internal_mac_key = ''m''\<rparr>, ma_signing = [k]\<rparr>,
        snd demo_created)"
  using envelope_roundtrip [OF demo_provider TrueI demo_draw_fine(3,1) demo_draw_fine(2) demo_draw_fine(2) demo_draw_fine(2) demo_creates,
      of demo_crypto demo_envelope_draw]
  by (simp add: demo_envelope_draw_def)

lemma demo_opens:
  "\<exists>k. open_envelope demo_kms demo_crypto True dr ''e'' (fst (snd demo_created), snd (snd demo_created))
     = (Inr \<lparr>ma_keys = \<lparr>token_peppers = [(1, ''p'')], password_pepper = (1, ''q''), internal_mac_key = ''m''\<rparr>, ma_signing = [k]\<rparr>,
        fst (snd demo_created), snd (snd demo_created))"
  using kms_provider.created_opens [OF demo_provider TrueI demo_draw_fine(3,1) demo_draw_fine(2) demo_draw_fine(2) demo_draw_fine(2)
      demo_creates, of demo_crypto dr]
  by (simp add: demo_envelope_draw_def)

theorem pepper_rotation_witness:
  "\<exists>m'. fst (open_envelope demo_kms demo_crypto True demo_envelope_draw ''e''
       (snd (rotate_token_pepper demo_kms ''e'' ''new'' demo_iv (snd demo_created)))) = Inr m'
     \<and> token_peppers (ma_keys m') = [(2, ''new''), (1, ''p'')]"
proof -
  let ?disk = "fst (snd demo_created)" and ?s = "snd (snd demo_created)"
  let ?rot = "rotate_token_pepper demo_kms ''e'' ''new'' demo_iv (?disk, ?s)"
  obtain k where o: "open_envelope demo_kms demo_crypto True demo_envelope_draw ''e'' (?disk, ?s)
     = (Inr \<lparr>ma_keys = \<lparr>token_peppers = [(1, ''p'')], password_pepper = (1, ''q''), internal_mac_key = ''m''\<rparr>, ma_signing = [k]\<rparr>, ?disk, ?s)"
    using demo_opens by blast
  have "fst ?rot = Inr 2"
    by (simp add: rotate_token_pepper_def read_envelope_def create_envelope_def demo_envelope_draw_def wrap_key_def demo_kms_def
        local_service_def local_encrypt_def local_create_def Let_def case_prod_beta)
  then have r: "?rot = (Inr 2, fst (snd ?rot), snd (snd ?rot))" by (metis prod.collapse)
  obtain m' where m': "open_envelope demo_kms demo_crypto True demo_envelope_draw ''e'' (fst (snd ?rot), snd (snd ?rot))
      = (Inr m', fst (snd ?rot), snd (snd ?rot))"
    using kms_provider.rotated_pepper(1) [OF demo_provider TrueI demo_draw_fine(2) o r] by blast
  from pepper_rotation [OF demo_provider TrueI demo_draw_fine(2) o r m'] m' show ?thesis by simp
qed

theorem envelope_fails_closed_witness:
  "\<exists>e. open_envelope demo_kms demo_crypto True demo_envelope_draw ''e''
     ([''e'' \<mapsto> Stored \<lparr>ef_kms = ''local'', ef_peppers = [], ef_password = (1, []),
        ef_mac = base64 (demo_iv @ replicate 16 (CHR 0x00) @ base64url (pepper_context 1) @ CHR 0x0A # ''p''), ef_signing = []\<rparr>], demo_service)
   = (Inl e, [''e'' \<mapsto> Stored \<lparr>ef_kms = ''local'', ef_peppers = [], ef_password = (1, []),
        ef_mac = base64 (demo_iv @ replicate 16 (CHR 0x00) @ base64url (pepper_context 1) @ CHR 0x0A # ''p''), ef_signing = []\<rparr>], demo_service)"
proof (rule envelope_fails_closed [OF demo_provider TrueI demo_draw_fine(2), where p = "''p''" and ctx = "pepper_context 1"])
  show "km_encrypt demo_kms demo_iv ''p'' (pepper_context 1) demo_service
      = Inr (demo_iv @ replicate 16 (CHR 0x00) @ base64url (pepper_context 1) @ CHR 0x0A # ''p'')"
    by (simp add: demo_kms_def local_service_def local_encrypt_def demo_gcm_def)
qed (auto simp: pepper_context_def mac_context_def)

end
