(* ===== verification/App_Links.thy ===== *)
theory App_Links
  imports Pages
begin

text \<open>
  \<open>server/src/http/app-links.ts\<close>: the association file that hands the app its sign-in callback, and the page of that address
  for a browser without the app. Neither reads the request.
\<close>

text \<open>The reply of the association route, or \<^const>\<open>None\<close> where it passes on to the next handler.\<close>

definition app_association :: "string option \<Rightarrow> string option \<Rightarrow> web_reply option" where
  "app_association team bundle =
     (case truthy team of
        None \<Rightarrow> None
      | Some t \<Rightarrow>
          (let app_id = t @ ''.'' @ (case bundle of None \<Rightarrow> ''com.example.IoTSwitch'' | Some b \<Rightarrow> b)
           in Some (web_json 200 [(''Content-Type'', ''application/json''), (''Cache-Control'', ''public, max-age=3600'')]
                (JObj [(''applinks'', JObj [(''details'', JArr [JObj
                         [(''appIDs'', JArr [JStr app_id]),
                          (''components'', JArr [JObj [(''/'', JStr ''/oauth/callback''), (''comment'', JStr ''Sign-in callback'')]])]])]),
                       (''webcredentials'', JObj [(''apps'', JArr [JStr app_id])])]))))"

definition app_callback :: "string \<Rightarrow> web_reply" where
  "app_callback rnd =
     send_page rnd 200 (Error_page ''Open the IoT Switch app''
       ''This sign-in finishes in the IoT Switch app. Open the app on this device to continue.'') [] False"

text \<open>The page for a browser carries no form target and no script: only its style sheet is allowed by its policy.\<close>

lemma callback_policy:
  "map_of (wp_headers (app_callback rnd)) ''Content-Security-Policy'' = Some (join_with ''; ''
     [''default-src '' @ csp_quote ''none'', ''style-src '' @ csp_quote (''nonce-'' @ new_nonce rnd), ''img-src '' @ csp_quote ''self'',
      ''form-action '' @ csp_quote ''self'', ''frame-ancestors '' @ csp_quote ''none'', ''base-uri '' @ csp_quote ''none''])"
  by (simp add: app_callback_def send_page_def auth_page_headers_def content_security_policy_def)

end
