(* ===== verification/Spec2Isabelle.thy ===== *)
theory Spec2Isabelle
  imports Device_Theorems Accounts Budgets Consents Token_Theorems Edge_Theorems Rest_Api Client_Theorems Authorize_Theorems
    Account_Theorems Route_Theorems Split_Theorems Mcp_Registry Liveness Page_Theorems Log_Theorems
    Redis_Theorems Bridge Migrations Postgres Kms App_Links
begin

text \<open>
  The IoT switch server of \<open>server/src\<close>: a person's switches, reached by a REST API and by an MCP endpoint for AI hosts,
  behind an OAuth authorization server of its own. This development models the server's TypeScript and proves what makes it
  correct. Every definition names the file it is translated from in the text of its theory.

  \<^bold>\<open>The program and its parts.\<close> A request reaches an \<^emph>\<open>edge\<close>: the REST API (\<open>http/\<close>, theories Http and Rest_Api) or the
  MCP endpoint (\<open>mcp/\<close>: Gate, Mcp_Tools, Mcp_Registry). The edge verifies the credential (\<open>oauth/verify.ts\<close>: Verify; a DPoP
  proof, \<open>oauth/dpop.ts\<close>: Dpop), spends a write budget (\<open>write-budgets.ts\<close>: Budgets) and asks the \<^emph>\<open>Device Service\<close>
  (\<open>domain/devices.ts\<close>, \<open>domain/audit.ts\<close>: Devices) under an internal token it gets by token exchange (\<open>oauth/exchange.ts\<close>,
  \<open>device-service/\<close>, \<open>security/workload.ts\<close>: Internal_Tokens; the caching client \<open>exchange-client.ts\<close>: Exchange_Client). The
  \<^emph>\<open>authorization server\<close> (\<open>oauth/\<close>) has people sign in and approve (Authorize, Account_Pages, Consents, Sessions, Passkeys,
  with the pages themselves in Html and Pages), resolves clients (Clients), and issues, rotates and revokes tokens
  (OAuth_Store, Token_Endpoint, OAuth_Routes). Either all of it is one process, or each part is one of its own, connected by
  mutual TLS (\<open>split/\<close>: Split); several processes share short-lived state in Redis (\<open>stores/\<close>: Redis, Bridge) or each keeps
  its own (\<open>security/rate-limit.ts\<close>, \<open>security/replay.ts\<close>, \<open>oauth/sealed.ts\<close>: Stores, Sealer). Below them are the database (the tables
  of \<open>db/migrations.ts\<close>: Schema; transactions of \<open>db/pg.ts\<close>: Postgres; migration of \<open>db/index.ts\<close>: Migrations), the key
  material (\<open>security/keys.ts\<close>, \<open>security/kms.ts\<close>, \<open>entry/common.ts\<close>: Keys, Kms) and the log, alerts and metrics
  (\<open>observability/\<close>: Redaction, Observability). Shared by all: Prelude (JavaScript values, strings, tables), Errors
  (\<open>errors.ts\<close>), Names (\<open>normalize.ts\<close>), Tokens (\<open>tokens/\<close>), Json, Base64, Urls, Wire (\<open>domain/types.ts\<close>), Web (cookies, MACs,
  headers, replies), OAuth_Config (\<open>oauth/config.ts\<close>, \<open>oauth/crypto.ts\<close>), Accounts (\<open>domain/accounts.ts\<close>, \<open>password.ts\<close>) and
  App_Links (\<open>http/app-links.ts\<close>).

  \<^bold>\<open>How the code is translated.\<close> A table is the list of its rows, a statement of SQL an operation on it, a transaction a
  function of the database that returns an error or a result with the new database; what is thrown is a value of the type
  \<^typ>\<open>error\<close>. An operation outside a transaction returns its result or error with the new state, so that what happened before an
  exception stays. A value of TypeScript type \<open>unknown\<close> is a JavaScript value that the code takes apart as it does. The clock of
  the database (in microseconds) and that of a process (in milliseconds), random bytes and identifiers are arguments, so no
  result depends on a choice. What is not in the repository is a parameter with named hypotheses: HMAC, SHA-256 and Argon2,
  AES-GCM, HKDF, NFKC, JOSE and JWTs, \<open>JSON.parse\<close>, WebAuthn, the URL parser, DNS and connections, the MCP SDK's transport, the commands of Redis
  and of PostgreSQL. Where one part relies on another through an interface, the interface is a locale: \<open>bucket_store\<close>,
  \<open>replay_store\<close> and \<open>sealed_store\<close> (kept by the in-memory stores and by those on Redis), \<open>kms_provider\<close> (kept by the software
  service), \<open>exchange_provider\<close>, \<open>typed_devices\<close>, \<open>credential_pattern\<close> and \<open>redaction\<close> are interpreted on the model's own
  operations. The locales \<open>redis_server\<close>, \<open>pg_server\<close> and \<open>gcm_cipher\<close> state what is relied on of parties outside the
  repository; a small instance of each shows that its laws can hold, and a \<open>sublocale\<close> carries the laws to the model's
  operations, as those of AES-GCM to the class \<open>Sealer\<close> (\<open>sealing\<close>) and to the software service.

  \<^bold>\<open>What is shown.\<close>
  \<^item> Devices (Device_Rules, Device_Theorems): the rules of the tables and the audit trail in every reachable state,
    optimistic concurrency, idempotent creation, and the refinement of an abstract registry.
  \<^item> Grants (OAuth_Rules, OAuth_Theorems, Token_Theorems): tokens within their grant, codes and refresh tokens used once,
    theft detection, finality of revocation, and what the token endpoint hands out for what.
  \<^item> Sign-in and consent (Authorize_Theorems, Client_Theorems, Account_Theorems, Route_Theorems, and the ends of Accounts,
    Consents, Passkeys): who a code is for, where people are sent, what a form needs, what ends sessions and grants.
  \<^item> The edges (Edge_Theorems and the ends of Verify, Dpop, Internal_Tokens, Mcp_Registry): authentication, scopes over a
    whole JSON-RPC batch, proof of possession, internal tokens, and the typing of the tools.
  \<^item> Processes (Split_Theorems, Redis_Theorems, Bridge, Migrations, Keys, Kms): that the separate Device Service is the
    local one, that shared stores answer as one process would and refuse when they cannot be asked, that each event reaches
    every process once, that starting at once migrates once and ends with one set of peppers, that rotation keeps tokens.
  \<^item> Failures (Postgres, Redis_Theorems, Log_Theorems): transactions are whole or absent, what is refused in an outage, and
    that a log line shows no credential and an alert comes when it should.
  \<^item> Pages (Page_Theorems): nothing that is inserted into a page becomes markup.
  \<^item> Liveness: a client that follows the protocol gets its tokens, and they work until they expire or are revoked.

  \<^bold>\<open>Bounds, fuel and termination.\<close> There is no fuel. Recursions are structural or come with a measure; the one loop of the
  source that needs an argument, the window of the replay alert, is \<open>while_option\<close> and proved to end. The start-up protocol
  of several processes is a step relation, with a bound on the steps of each process and a proof that it can always go on.
  Limits are those of the code: a hundred devices, five hundred registered clients, five kilobytes of metadata, ten thousand
  entries before a sweep, the lifetimes of \<open>oauth/config.ts\<close>. An integer of SQL is checked against the width of its column;
  CRC-32 is on 32-bit words.

  \<^bold>\<open>What is not modelled.\<close> A character is a code unit below 256, so text outside Latin-1 is not covered, and the one dash in a
  tool's description is written as its three bytes. Headers and cookies a handler set before it threw, and requests of method
  HEAD, are not covered; nor is percent-decoding in the paths of the router. Metrics and log lines are modelled on their own
  and left out of the operations that cause them. The texts that describe a tool's single arguments are left out of its
  schema. A statement runs at one instant, and two transactions of \<open>domain/devices.ts\<close> or \<open>oauth/store.ts\<close> do not overlap.
  What the code does in several statements or messages outside a transaction is cut into steps where a claim depends on what
  comes between: registrations (Clients: eviction, count, insertion), an edge's introspections (Split: question, the server's
  work, answer, events, and calls that fail with or without having been dealt with), the start of several processes (Keys:
  each operation on the key file; Migrations), exchanges (Exchange_Client). The same operations left alone are
  \<open>register_client\<close>, \<open>remote_oauth\<close> and \<open>from_file\<close>. In \<open>mtls_link\<close> a call is answered or fails as a whole, so the refinement of
  the Device Service says nothing of a request that was carried out and whose answer was lost. The commands of a server are
  carried out in one order. The PGlite driver only hands statements to its library; the reconnecting of the Redis client,
  column parsers, sockets and the assembly of the processes (\<open>index.ts\<close>, \<open>entry/\<close>) are left out, as are
  the scripts of the device view, which run in a host's browser, the acceptance report, the tools and the tests.
\<close>

end
